(* ===== verification/Kit_Prelude.thy ===== *)
theory Kit_Prelude
  imports Main "HOL-Library.List_Lexorder" "HOL-Library.Char_ord"
begin

text \<open>
  The prelude of the development: failures as values, the sequencing of fallible steps, and the
  byte-level text operations of Rust's \<open>str\<close> that the components share.

  A Rust \<open>Result<T, E>\<close> is a sum whose left side is a failure.  Every error type of the program
  (\<open>ValidationError\<close>, \<open>SemanticMergeError\<close>, \<open>SyncJournalError\<close> and the others) carries a stable
  machine-readable code and a human-readable message.  The model keeps the code, which is what callers
  branch on, and leaves the message text out.
\<close>

named_theorems result_simps "rewriting of fallible computations"
named_theorems codec_simps "unfolding of parsers and printers"

section \<open>Failures and sequencing\<close>

datatype failure = Failure (failure_code: string)

type_synonym 'a result = "failure + 'a"

abbreviation Err :: "string \<Rightarrow> 'a result" where
  "Err c \<equiv> Inl (Failure c)"

abbreviation Ok :: "'a \<Rightarrow> 'a result" where
  "Ok x \<equiv> Inr x"

text \<open>The \<open>?\<close> operator of Rust: continue with the value, or return the failure unchanged.\<close>

definition bind_result :: "'a result \<Rightarrow> ('a \<Rightarrow> 'b result) \<Rightarrow> 'b result" where
  "bind_result m f = (case m of Inl e \<Rightarrow> Inl e | Inr x \<Rightarrow> f x)"

lemma bind_result_simps [simp, result_simps]:
  "bind_result (Inl e) f = Inl e"
  "bind_result (Inr x) f = f x"
  by (simp_all add: bind_result_def)

lemma bind_result_Ok_iff [result_simps]:
  "bind_result m f = Inr y \<longleftrightarrow> (\<exists>x. m = Inr x \<and> f x = Inr y)"
  by (cases m) auto

lemma bind_result_cong [fundef_cong]:
  "m = m' \<Longrightarrow> (\<And>x. m' = Inr x \<Longrightarrow> f x = f' x) \<Longrightarrow> bind_result m f = bind_result m' f'"
  by (cases m') auto

text \<open>\<open>map_err(|_| e)\<close>: every failure becomes the given one.\<close>

definition map_err :: "string \<Rightarrow> 'a result \<Rightarrow> 'a result" where
  "map_err c m = (case m of Inl _ \<Rightarrow> Err c | Inr x \<Rightarrow> Ok x)"

lemma map_err_simps [simp, result_simps]:
  "map_err c (Inl e) = Err c"
  "map_err c (Inr x) = Ok x"
  by (simp_all add: map_err_def)

lemma map_err_Ok_iff [result_simps]: "map_err c m = Inr x \<longleftrightarrow> m = Inr x"
  by (cases m) auto

definition ok_or :: "string \<Rightarrow> 'a option \<Rightarrow> 'a result" where
  "ok_or c m = (case m of None \<Rightarrow> Err c | Some x \<Rightarrow> Ok x)"

lemma ok_or_simps [simp, result_simps]:
  "ok_or c None = Err c"
  "ok_or c (Some x) = Ok x"
  by (simp_all add: ok_or_def)

lemma ok_or_Ok_iff [result_simps]: "ok_or c m = Inr x \<longleftrightarrow> m = Some x"
  by (cases m) auto

text \<open>A guard: \<open>if !ok { return Err(...) }\<close>.\<close>

definition ensure :: "bool \<Rightarrow> string \<Rightarrow> unit result" where
  "ensure ok c = (if ok then Ok () else Err c)"

lemma ensure_Ok_iff [result_simps]: "ensure ok c = Inr u \<longleftrightarrow> ok"
  by (simp add: ensure_def)

lemma ensure_simps [simp, result_simps]:
  "ensure True c = Ok ()"
  "ensure False c = Err c"
  by (simp_all add: ensure_def)

definition and_then :: "unit result \<Rightarrow> 'b result \<Rightarrow> 'b result" where
  "and_then m k = bind_result m (\<lambda>_. k)"

lemma and_then_simps [simp, result_simps]:
  "and_then (Inl e) k = Inl e"
  "and_then (Inr u) k = k"
  by (simp_all add: and_then_def)

lemma and_then_Ok_iff [result_simps]: "and_then m k = Inr y \<longleftrightarrow> m = Inr () \<and> k = Inr y"
  by (cases m) auto

lemma and_then_cong [fundef_cong]:
  "m = m' \<Longrightarrow> (m' = Inr () \<Longrightarrow> k = k') \<Longrightarrow> and_then m k = and_then m' k'"
  by (cases m') auto

text \<open>A loop with early return: \<open>for x in xs { step(&mut state, x)?; }\<close>.\<close>

fun try_fold :: "('s \<Rightarrow> 'a \<Rightarrow> 's result) \<Rightarrow> 's \<Rightarrow> 'a list \<Rightarrow> 's result" where
  "try_fold f s [] = Ok s"
| "try_fold f s (x # xs) = bind_result (f s x) (\<lambda>s'. try_fold f s' xs)"

lemma try_fold_append [result_simps]:
  "try_fold f s (xs @ ys) = bind_result (try_fold f s xs) (\<lambda>s'. try_fold f s' ys)"
proof (induction xs arbitrary: s)
  case (Cons x xs)
  then show ?case by (cases "f s x") auto
qed simp

lemma try_fold_invariant:
  assumes "try_fold f s xs = Inr t" and "P s"
    and "\<And>u x v. x \<in> set xs \<Longrightarrow> P u \<Longrightarrow> f u x = Inr v \<Longrightarrow> P v"
  shows "P t"
  using assms
proof (induction xs arbitrary: s)
  case (Cons x xs)
  from Cons.prems(1) obtain v where v: "f s x = Inr v" "try_fold f v xs = Inr t"
    by (auto simp: bind_result_Ok_iff)
  have "P v" using Cons.prems(2,3) v(1) by auto
  then show ?case using Cons.IH[OF v(2)] Cons.prems(3) by auto
qed simp

lemma try_fold_cong [fundef_cong]:
  "xs = ys \<Longrightarrow> s = t \<Longrightarrow> (\<And>u x. x \<in> set ys \<Longrightarrow> f u x = g u x) \<Longrightarrow> try_fold f s xs = try_fold g t ys"
proof (induction ys arbitrary: xs s t)
  case (Cons y ys)
  then show ?case by (auto intro!: bind_result_cong)
qed simp

fun try_each :: "('a \<Rightarrow> unit result) \<Rightarrow> 'a list \<Rightarrow> unit result" where
  "try_each f [] = Ok ()"
| "try_each f (x # xs) = and_then (f x) (try_each f xs)"

lemma try_each_Ok_iff [result_simps]:
  "try_each f xs = Inr u \<longleftrightarrow> (\<forall>x\<in>set xs. f x = Inr ())"
  by (induction xs) (auto simp: and_then_Ok_iff)

lemma try_each_cong [fundef_cong]:
  "xs = ys \<Longrightarrow> (\<And>x. x \<in> set ys \<Longrightarrow> f x = g x) \<Longrightarrow> try_each f xs = try_each g ys"
proof (induction ys arbitrary: xs)
  case (Cons y ys)
  then show ?case by auto
qed simp

text \<open>\<open>iter.map(f).collect::<Result<Vec<_>, _>>()\<close>.\<close>

fun try_map :: "('a \<Rightarrow> 'b result) \<Rightarrow> 'a list \<Rightarrow> 'b list result" where
  "try_map f [] = Ok []"
| "try_map f (x # xs) = bind_result (f x) (\<lambda>y. bind_result (try_map f xs) (\<lambda>ys. Ok (y # ys)))"

lemma try_map_Ok_iff [result_simps]:
  "try_map f xs = Inr ys \<longleftrightarrow> list_all2 (\<lambda>x y. f x = Inr y) xs ys"
proof (induction xs arbitrary: ys)
  case (Cons x xs)
  then show ?case by (cases ys) (auto simp: bind_result_Ok_iff)
qed auto

section \<open>Validated texts\<close>

text \<open>
  The contract of every validated newtype: \<open>parse\<close> normalises once.  A value is a text that \<open>parse\<close>
  returned; it is serialised as its text and deserialised through \<open>parse\<close>, so the contract is what
  makes stored values load back unchanged.
\<close>

locale validated_text =
  fixes parse :: "string \<Rightarrow> string result"
  assumes stable: "parse v = Inr u \<Longrightarrow> parse u = Inr u"
begin

lemma value_iff: "(\<exists>v. parse v = Inr u) \<longleftrightarrow> parse u = Inr u"
  using stable by blast

lemma load_stored: "parse v = Inr u \<Longrightarrow> bind_result (parse u) parse = Inr u"
  using stable by simp

end

end
