(* ===== verification/Text_Bytes.thy ===== *)
theory Text_Bytes
  imports Kit_Prelude
begin

text \<open>
  Text as Rust stores it.  A \<open>String\<close> is its UTF-8 bytes, one \<open>char\<close> of HOL per byte, so \<open>length\<close> is
  \<open>str::len\<close> and the order on \<open>string\<close> is the byte order of Rust's \<open>Ord for str\<close>.  Tests that accept
  ASCII only (\<open>is_ascii_lowercase\<close> and its kin) are the same on bytes and on characters, because
  every byte of a multi-byte character is at least 128; tests on Unicode classes (\<open>trim\<close>,
  \<open>is_whitespace\<close>, \<open>is_control\<close>) decode the characters first.
\<close>

section \<open>Character classes\<close>

abbreviation byte :: "char \<Rightarrow> nat" where
  "byte c \<equiv> of_char c"

definition is_ascii_lowercase :: "char \<Rightarrow> bool" where
  "is_ascii_lowercase c \<longleftrightarrow> 97 \<le> byte c \<and> byte c \<le> 122"

definition is_ascii_uppercase :: "char \<Rightarrow> bool" where
  "is_ascii_uppercase c \<longleftrightarrow> 65 \<le> byte c \<and> byte c \<le> 90"

definition is_ascii_digit :: "char \<Rightarrow> bool" where
  "is_ascii_digit c \<longleftrightarrow> 48 \<le> byte c \<and> byte c \<le> 57"

definition is_ascii_alphabetic :: "char \<Rightarrow> bool" where
  "is_ascii_alphabetic c \<longleftrightarrow> is_ascii_lowercase c \<or> is_ascii_uppercase c"

definition is_ascii_alphanumeric :: "char \<Rightarrow> bool" where
  "is_ascii_alphanumeric c \<longleftrightarrow> is_ascii_alphabetic c \<or> is_ascii_digit c"

definition to_ascii_uppercase :: "char \<Rightarrow> char" where
  "to_ascii_uppercase c = (if is_ascii_lowercase c then char_of (byte c - 32) else c)"

definition lower_hex_digit :: "char \<Rightarrow> bool" where
  "lower_hex_digit c \<longleftrightarrow> is_ascii_digit c \<or> (97 \<le> byte c \<and> byte c \<le> 102)"

text \<open>The test \<open>value.len() == n && value.bytes().all(digit or 'a'..='f')\<close>.\<close>

definition is_lower_hex :: "string \<Rightarrow> nat \<Rightarrow> bool" where
  "is_lower_hex s n \<longleftrightarrow> length s = n \<and> list_all lower_hex_digit s"

text \<open>The lowercase digit of a number below sixteen.\<close>

definition hex_digit :: "nat \<Rightarrow> char" where
  "hex_digit n = (if n < 10 then char_of (48 + n) else char_of (87 + n))"

lemmas char_class_defs =
  is_ascii_lowercase_def is_ascii_uppercase_def is_ascii_digit_def is_ascii_alphabetic_def
  is_ascii_alphanumeric_def lower_hex_digit_def

lemma is_ascii_alphabetic_upper [simp]:
  "is_ascii_alphabetic (to_ascii_uppercase c) = is_ascii_alphabetic c"
  by (auto simp: char_class_defs to_ascii_uppercase_def of_char_of)

lemma to_ascii_uppercase_idem [simp]:
  "to_ascii_uppercase (to_ascii_uppercase c) = to_ascii_uppercase c"
  by (auto simp: char_class_defs to_ascii_uppercase_def of_char_of)

lemma hex_digit_lower: "n < 16 \<Longrightarrow> lower_hex_digit (hex_digit n)"
  by (auto simp: lower_hex_digit_def is_ascii_digit_def hex_digit_def of_char_of)

lemma lower_hex_not_special:
  "lower_hex_digit c \<Longrightarrow> c \<noteq> CHR ''-''" "lower_hex_digit c \<Longrightarrow> c \<noteq> CHR ''/''"
  "lower_hex_digit c \<Longrightarrow> c \<noteq> CHR '':''" "lower_hex_digit c \<Longrightarrow> c \<noteq> CHR ''.''"
  "lower_hex_digit c \<Longrightarrow> c \<noteq> CHR 0x5C"
  by (auto simp: char_class_defs)

lemma is_lower_hex_notin:
  "is_lower_hex s n \<Longrightarrow> CHR ''-'' \<notin> set s" "is_lower_hex s n \<Longrightarrow> CHR ''/'' \<notin> set s"
  "is_lower_hex s n \<Longrightarrow> CHR '':'' \<notin> set s" "is_lower_hex s n \<Longrightarrow> CHR ''.'' \<notin> set s"
  "is_lower_hex s n \<Longrightarrow> CHR 0x5C \<notin> set s"
  by (auto simp: is_lower_hex_def list_all_iff dest: lower_hex_not_special)

section \<open>Unicode scalar values\<close>

text \<open>
  \<open>str::chars\<close>: the code points of a UTF-8 byte sequence.  A Rust string is well-formed UTF-8; on a
  truncated final sequence, which cannot occur there, decoding stops.
\<close>

fun utf8_chars :: "nat list \<Rightarrow> nat list" where
  "utf8_chars [] = []"
| "utf8_chars (a # bs) =
     (if a < 0x80 then a # utf8_chars bs
      else case bs of [] \<Rightarrow> []
        | b # cs \<Rightarrow> (if a < 0xE0 then ((a mod 32) * 64 + b mod 64) # utf8_chars cs
          else case cs of [] \<Rightarrow> []
            | c # ds \<Rightarrow> (if a < 0xF0 then ((a mod 16) * 4096 + (b mod 64) * 64 + c mod 64) # utf8_chars ds
              else case ds of [] \<Rightarrow> []
                | d # es \<Rightarrow> ((a mod 8) * 262144 + (b mod 64) * 4096 + (c mod 64) * 64 + d mod 64) # utf8_chars es)))"

definition str_chars :: "string \<Rightarrow> nat list" where
  "str_chars s = utf8_chars (map byte s)"

text \<open>The Unicode \<open>White_Space\<close> and control classes used by \<open>char::is_whitespace\<close> and \<open>char::is_control\<close>.\<close>

definition char_is_whitespace :: "nat \<Rightarrow> bool" where
  "char_is_whitespace n \<longleftrightarrow> (9 \<le> n \<and> n \<le> 13) \<or> n = 0x20 \<or> n = 0x85 \<or> n = 0xA0 \<or> n = 0x1680
     \<or> (0x2000 \<le> n \<and> n \<le> 0x200A) \<or> n = 0x2028 \<or> n = 0x2029 \<or> n = 0x202F \<or> n = 0x205F \<or> n = 0x3000"

definition char_is_control :: "nat \<Rightarrow> bool" where
  "char_is_control n \<longleftrightarrow> n \<le> 0x1F \<or> (0x7F \<le> n \<and> n \<le> 0x9F)"

text \<open>\<open>value.trim().is_empty()\<close>: every character is whitespace.\<close>

definition trim_is_empty :: "string \<Rightarrow> bool" where
  "trim_is_empty s \<longleftrightarrow> list_all char_is_whitespace (str_chars s)"

section \<open>Prefixes, suffixes and splitting\<close>

definition starts_with :: "string \<Rightarrow> string \<Rightarrow> bool" where
  "starts_with p s \<longleftrightarrow> take (length p) s = p"

definition strip_prefix :: "string \<Rightarrow> string \<Rightarrow> string option" where
  "strip_prefix p s = (if starts_with p s then Some (drop (length p) s) else None)"

definition ends_with :: "string \<Rightarrow> string \<Rightarrow> bool" where
  "ends_with p s \<longleftrightarrow> length p \<le> length s \<and> drop (length s - length p) s = p"

definition strip_suffix :: "string \<Rightarrow> string \<Rightarrow> string option" where
  "strip_suffix p s = (if ends_with p s then Some (take (length s - length p) s) else None)"

lemma strip_prefix_Some_iff [codec_simps]: "strip_prefix p s = Some r \<longleftrightarrow> s = p @ r"
proof
  assume "strip_prefix p s = Some r"
  then have "take (length p) s = p" "r = drop (length p) s"
    by (auto simp: strip_prefix_def starts_with_def split: if_splits)
  then show "s = p @ r" using append_take_drop_id[of "length p" s] by simp
qed (simp add: strip_prefix_def starts_with_def)

lemma starts_with_iff: "starts_with p s \<longleftrightarrow> (\<exists>r. s = p @ r)"
proof
  assume "starts_with p s"
  then have "s = p @ drop (length p) s"
    using append_take_drop_id[of "length p" s] by (simp add: starts_with_def)
  then show "\<exists>r. s = p @ r" ..
qed (auto simp: starts_with_def)

lemma strip_suffix_Some_iff [codec_simps]: "strip_suffix p s = Some r \<longleftrightarrow> s = r @ p"
proof
  assume "strip_suffix p s = Some r"
  then have "drop (length s - length p) s = p" "r = take (length s - length p) s"
    by (auto simp: strip_suffix_def ends_with_def split: if_splits)
  then show "s = r @ p" using append_take_drop_id[of "length s - length p" s] by simp
qed (simp add: strip_suffix_def ends_with_def)

lemma ends_with_iff: "ends_with p s \<longleftrightarrow> (\<exists>r. s = r @ p)"
proof -
  have "ends_with p s \<longleftrightarrow> (\<exists>r. strip_suffix p s = Some r)"
    by (simp add: strip_suffix_def)
  then show ?thesis by (simp only: strip_suffix_Some_iff)
qed

text \<open>\<open>str::split(c)\<close>: always at least one piece.\<close>

fun split_on :: "char \<Rightarrow> string \<Rightarrow> string list" where
  "split_on c [] = [[]]"
| "split_on c (x # xs) =
     (if x = c then [] # split_on c xs
      else case split_on c xs of [] \<Rightarrow> [[x]] | p # ps \<Rightarrow> (x # p) # ps)"

text \<open>\<open>str::split_once(c)\<close>.\<close>

fun split_once :: "char \<Rightarrow> string \<Rightarrow> (string \<times> string) option" where
  "split_once c [] = None"
| "split_once c (x # xs) =
     (if x = c then Some ([], xs) else map_option (\<lambda>(p, q). (x # p, q)) (split_once c xs))"

text \<open>\<open>[T]::join(sep)\<close>.\<close>

fun join_with :: "string \<Rightarrow> string list \<Rightarrow> string" where
  "join_with sep [] = []"
| "join_with sep [p] = p"
| "join_with sep (p # q # ps) = p @ sep @ join_with sep (q # ps)"

lemma split_on_not_Nil [simp]: "split_on c s \<noteq> []"
  by (induction s) (auto split: list.splits)

lemma split_on_notin [simp]: "c \<notin> set s \<Longrightarrow> split_on c s = [s]"
  by (induction s) auto

lemma split_on_append: "c \<notin> set a \<Longrightarrow> split_on c (a @ c # b) = a # split_on c b"
  by (induction a) auto

lemma split_on_pieces: "p \<in> set (split_on c s) \<Longrightarrow> c \<notin> set p"
proof (induction s arbitrary: p)
  case (Cons x xs)
  then show ?case by (cases "split_on c xs") (auto split: if_splits)
qed simp

lemma split_on_subset: "p \<in> set (split_on c s) \<Longrightarrow> set p \<subseteq> set s"
proof (induction s arbitrary: p)
  case (Cons x xs)
  then show ?case by (cases "split_on c xs") (auto split: if_splits, blast+)
qed simp

lemma join_split_on [simp]: "join_with [c] (split_on c s) = s"
proof (induction s)
  case (Cons x xs)
  then show ?case
    by (cases "split_on c xs") (auto, metis append_Cons append_Nil join_with.simps(2,3) list.exhaust)
qed simp

lemma join_with_Cons: "ps \<noteq> [] \<Longrightarrow> join_with sep (p # ps) = p @ sep @ join_with sep ps"
  by (cases ps) auto

lemma split_on_join:
  "ps \<noteq> [] \<Longrightarrow> \<forall>p\<in>set ps. c \<notin> set p \<Longrightarrow> split_on c (join_with [c] ps) = ps"
proof (induction ps)
  case (Cons p ps)
  show ?case
  proof (cases "ps = []")
    case False
    then have "join_with [c] (p # ps) = p @ c # join_with [c] ps"
      by (simp add: join_with_Cons)
    then show ?thesis using Cons False split_on_append[of c p] by simp
  qed (use Cons.prems in simp)
qed simp

lemma join_with_append:
  "xs \<noteq> [] \<Longrightarrow> ys \<noteq> [] \<Longrightarrow> join_with sep (xs @ ys) = join_with sep xs @ sep @ join_with sep ys"
proof (induction xs)
  case (Cons x xs)
  then show ?case by (cases "xs = []") (auto simp: join_with_Cons)
qed simp

lemma split_on_append_sep: "split_on c (a @ c # b) = split_on c a @ split_on c b"
proof (induction a)
  case (Cons x xs)
  then show ?case by (cases "split_on c xs") auto
qed simp

lemma split_once_Some_iff [codec_simps]:
  "split_once c s = Some (p, q) \<longleftrightarrow> s = p @ c # q \<and> c \<notin> set p"
proof (induction s arbitrary: p)
  case (Cons x xs)
  then show ?case by (cases p) (auto simp: Cons.IH)
qed simp

lemma split_once_None_iff: "split_once c s = None \<longleftrightarrow> c \<notin> set s"
  by (induction s) auto

section \<open>Decimal numerals\<close>

text \<open>\<open>format!("{}", n)\<close> for an unsigned integer.\<close>

fun show_nat :: "nat \<Rightarrow> string" where
  "show_nat n = (if n < 10 then [char_of (48 + n)] else show_nat (n div 10) @ [char_of (48 + n mod 10)])"

declare show_nat.simps [simp del]

lemma show_nat_not_Nil [simp]: "show_nat n \<noteq> []"
  by (subst show_nat.simps) simp

definition decimal_value :: "string \<Rightarrow> nat" where
  "decimal_value s = foldl (\<lambda>a c. 10 * a + (byte c - 48)) 0 s"

lemma decimal_value_show: "decimal_value (show_nat n) = n"
proof (induction n rule: show_nat.induct)
  case (1 n)
  have "48 + n mod 10 < 256" by (simp add: order_le_less_trans[of _ "48 + 10"])
  with 1 show ?case
    by (simp add: show_nat.simps[of n] decimal_value_def of_char_of)
qed

lemma show_nat_inject: "show_nat m = show_nat n \<longleftrightarrow> m = n"
  by (metis decimal_value_show)

lemma show_nat_chars: "c \<in> set (show_nat n) \<Longrightarrow> is_ascii_digit c"
proof (induction n rule: show_nat.induct)
  case (1 n)
  show ?case
  proof (cases "n < 10")
    case True
    with 1 show ?thesis by (simp add: show_nat.simps[of n] is_ascii_digit_def of_char_of)
  next
    case False
    have "48 + n mod 10 < 256" by (simp add: order_le_less_trans[of _ "48 + 10"])
    with False 1 show ?thesis
      by (auto simp: show_nat.simps[of n] is_ascii_digit_def of_char_of)
  qed
qed

lemma ascii_head_not_blank:
  "byte c < 0x80 \<Longrightarrow> \<not> char_is_whitespace (byte c) \<Longrightarrow> \<not> trim_is_empty (c # s)"
  by (simp add: trim_is_empty_def str_chars_def)

lemma show_nat_not_blank [simp]: "\<not> trim_is_empty (show_nat n @ s)"
proof -
  obtain c cs where c: "show_nat n = c # cs" by (cases "show_nat n") auto
  then have "is_ascii_digit c" using show_nat_chars[of c n] by simp
  then have "byte c < 0x80" "\<not> char_is_whitespace (byte c)"
    by (auto simp: is_ascii_digit_def char_is_whitespace_def)
  then show ?thesis using c ascii_head_not_blank by simp
qed

section \<open>Words\<close>

definition is_ascii_whitespace :: "char \<Rightarrow> bool" where
  "is_ascii_whitespace c \<longleftrightarrow> c \<in> set [CHR '' '', CHR 0x09, CHR 0x0A, CHR 0x0C, CHR 0x0D]"

definition to_ascii_lowercase :: "char \<Rightarrow> char" where
  "to_ascii_lowercase c = (if is_ascii_uppercase c then char_of (byte c + (32 :: nat)) else c)"

text \<open>\<open>str::split\<close> at every character of a class.\<close>

fun split_where :: "(char \<Rightarrow> bool) \<Rightarrow> string \<Rightarrow> string list" where
  "split_where p [] = [[]]"
| "split_where p (x # xs) =
     (if p x then [] # split_where p xs
      else case split_where p xs of [] \<Rightarrow> [[x]] | w # ws \<Rightarrow> (x # w) # ws)"

section \<open>Well-formed UTF-8\<close>

text \<open>\<open>String::from_utf8\<close>: the byte sequences of the Unicode standard, table 3-7.\<close>

definition utf8_tail :: "nat \<Rightarrow> bool" where
  "utf8_tail b \<longleftrightarrow> 0x80 \<le> b \<and> b \<le> 0xBF"

definition utf8_second :: "nat \<Rightarrow> nat \<Rightarrow> bool" where
  "utf8_second a b \<longleftrightarrow>
     (if a = 0xE0 then 0xA0 \<le> b \<and> b \<le> 0xBF
      else if a = 0xED then 0x80 \<le> b \<and> b \<le> 0x9F
      else if a = 0xF0 then 0x90 \<le> b \<and> b \<le> 0xBF
      else if a = 0xF4 then 0x80 \<le> b \<and> b \<le> 0x8F
      else utf8_tail b)"

fun valid_utf8 :: "nat list \<Rightarrow> bool" where
  "valid_utf8 [] = True"
| "valid_utf8 (a # bs) =
     (if a < 0x80 then valid_utf8 bs
      else if a < 0xC2 \<or> a > 0xF4 then False
      else case bs of [] \<Rightarrow> False
        | b # cs \<Rightarrow> utf8_second a b \<and> (if a < 0xE0 then valid_utf8 cs
          else case cs of [] \<Rightarrow> False
            | c # ds \<Rightarrow> utf8_tail c \<and> (if a < 0xF0 then valid_utf8 ds
              else case ds of [] \<Rightarrow> False
                | d # es \<Rightarrow> utf8_tail d \<and> valid_utf8 es)))"

definition is_text :: "string \<Rightarrow> bool" where
  "is_text s \<longleftrightarrow> valid_utf8 (map byte s)"

lemma is_text_ascii: "list_all (\<lambda>c. byte c < 0x80) s \<Longrightarrow> is_text s"
  by (induction s) (simp_all add: is_text_def)

end
