(* ===== verification/Portable_Content.thy ===== *)
theory Portable_Content
  imports Text_Bytes
begin

text \<open>
  \<open>kitrove-model/src/content.rs\<close> and \<open>mcp.rs\<close>: portable relative paths, algorithm-qualified digests,
  credential-free repository URLs, the content risk classes and portable MCP server names.  Every
  validated newtype over \<open>String\<close> is modelled by its text and its \<open>parse\<close>; a value of the newtype is a
  text that \<open>parse\<close> returned.
\<close>

section \<open>Portable paths\<close>

definition portable_segment :: "string \<Rightarrow> bool" where
  "portable_segment s \<longleftrightarrow> \<not> (s = [] \<or> s = ''.'' \<or> s = ''..'')"

definition portable_path_parse :: "string \<Rightarrow> string result" where
  "portable_path_parse value =
     (if value = [] \<or> starts_with ''/'' value \<or> CHR 0x5C \<in> set value \<or> CHR '':'' \<in> set value
         \<or> list_ex (\<lambda>segment. \<not> portable_segment segment) (split_on CHR ''/'' value)
      then Err ''path.not_portable'' else Ok value)"

text \<open>A value of the type \<open>PortablePath\<close>.\<close>

definition is_portable_path :: "string \<Rightarrow> bool" where
  "is_portable_path p \<longleftrightarrow> portable_path_parse p = Ok p"

text \<open>The reference: what resolving a path below a directory means, with \<open>..\<close> leaving it.\<close>

fun resolve_below :: "string list \<Rightarrow> string list \<Rightarrow> string list" where
  "resolve_below dir [] = dir"
| "resolve_below dir (s # ss) =
     (if s = [] \<or> s = ''.'' then resolve_below dir ss
      else if s = ''..'' then resolve_below (butlast dir) ss
      else resolve_below (dir @ [s]) ss)"

lemma portable_path_parse_iff:
  "portable_path_parse v = Ok p \<longleftrightarrow>
     p = v \<and> CHR 0x5C \<notin> set v \<and> CHR '':'' \<notin> set v \<and> (\<forall>s\<in>set (split_on CHR ''/'' v). portable_segment s)"
proof -
  have "v = [] \<or> starts_with ''/'' v \<Longrightarrow> [] \<in> set (split_on CHR ''/'' v)"
    by (cases v) (auto simp: starts_with_def)
  then show ?thesis
    by (auto simp: portable_path_parse_def list_ex_iff portable_segment_def)
qed

lemma is_portable_path_iff:
  "is_portable_path p \<longleftrightarrow>
     CHR 0x5C \<notin> set p \<and> CHR '':'' \<notin> set p \<and> (\<forall>s\<in>set (split_on CHR ''/'' p). portable_segment s)"
  by (simp add: is_portable_path_def portable_path_parse_iff)

lemma portable_path_parse_Ok: "portable_path_parse v = Ok p \<longleftrightarrow> p = v \<and> is_portable_path v"
  by (simp add: portable_path_parse_iff is_portable_path_iff)

lemma is_portable_path_join:
  "is_portable_path p \<Longrightarrow> is_portable_path q \<Longrightarrow> is_portable_path (p @ ''/'' @ q)"
  using split_on_append_sep[of "CHR ''/''" p q] by (auto simp: is_portable_path_iff)

lemma portable_segment_Nil [simp]: "\<not> portable_segment []"
  by (simp add: portable_segment_def)

lemma is_portable_path_not_Nil: "is_portable_path p \<Longrightarrow> p \<noteq> []"
  by (rule notI) (simp add: is_portable_path_iff)

lemma is_portable_path_hd: "is_portable_path (c # p) \<Longrightarrow> c \<noteq> CHR ''/''"
  by (rule notI) (simp add: is_portable_path_iff)

lemma resolve_below_portable:
  "\<forall>s\<in>set ss. portable_segment s \<Longrightarrow> resolve_below dir ss = dir @ ss"
  by (induction ss arbitrary: dir) (auto simp: portable_segment_def)

section \<open>Algorithm-qualified digests\<close>

text \<open>
  \<open>ContentHash\<close>, \<open>ProvenanceId\<close> and the three types of the macro \<open>qualified_digest!\<close> share one parser:
  a fixed qualifier and then exactly 64 lowercase hexadecimal digits.
\<close>

definition qualified_digest_parse :: "string \<Rightarrow> string \<Rightarrow> string \<Rightarrow> string \<Rightarrow> string result" where
  "qualified_digest_parse qualifier format_code digest_code value =
     (case strip_prefix qualifier value of
        None \<Rightarrow> Err format_code
      | Some digest \<Rightarrow> if \<not> is_lower_hex digest 64 then Err digest_code else Ok value)"

definition content_hash_parse :: "string \<Rightarrow> string result" where
  "content_hash_parse = qualified_digest_parse ''blake3:'' ''hash.unsupported_algorithm'' ''hash.invalid_digest''"

text \<open>
  \<open>ContentHash::digest\<close>.  The hash function \<open>H\<close> stands for \<open>blake3::hash(bytes).to_hex()\<close>, a package the
  sources only call; its documented result is 64 lowercase hexadecimal digits.
\<close>

definition content_hash_digest :: "(string \<Rightarrow> string) \<Rightarrow> string \<Rightarrow> string" where
  "content_hash_digest H bytes = ''blake3:'' @ H bytes"

definition blake3_hex :: "(string \<Rightarrow> string) \<Rightarrow> bool" where
  "blake3_hex H \<longleftrightarrow> (\<forall>bytes. is_lower_hex (H bytes) 64)"

lemma qualified_digest_parse_Ok:
  "qualified_digest_parse q fc dc v = Ok u \<longleftrightarrow> u = v \<and> (\<exists>d. v = q @ d \<and> is_lower_hex d 64)"
  by (auto simp: qualified_digest_parse_def strip_prefix_Some_iff split: option.splits if_splits)
    (metis strip_prefix_Some_iff option.distinct(1))

lemma content_hash_digest_valid:
  "blake3_hex H \<Longrightarrow> content_hash_parse (content_hash_digest H b) = Ok (content_hash_digest H b)"
  by (auto simp: content_hash_parse_def qualified_digest_parse_Ok content_hash_digest_def blake3_hex_def)

section \<open>Repository URLs\<close>

definition first_piece :: "string \<Rightarrow> string" where
  "first_piece s = (case split_on CHR ''/'' s of [] \<Rightarrow> [] | p # _ \<Rightarrow> p)"

text \<open>The authority check of the \<open>ssh://\<close> branch: one user name at most, and no password.\<close>

definition ssh_authority_refused :: "string \<Rightarrow> bool" where
  "ssh_authority_refused authority \<longleftrightarrow>
     length (split_on CHR ''@'' authority) > 2
     \<or> (case split_once CHR ''@'' authority of
          None \<Rightarrow> False
        | Some (user, _) \<Rightarrow> user = [] \<or> CHR '':'' \<in> set user)"

definition repository_host_and_path :: "string \<Rightarrow> string \<Rightarrow> string result" where
  "repository_host_and_path authority_and_path value =
     (case split_once CHR ''/'' authority_and_path of
        None \<Rightarrow> Err ''source.repository_url''
      | Some (authority, path) \<Rightarrow>
          if authority = [] \<or> path = [] then Err ''source.repository_url'' else Ok value)"

definition repository_url_parse :: "string \<Rightarrow> string result" where
  "repository_url_parse value =
     (if list_ex (\<lambda>c. c = CHR ''?'' \<or> c = CHR ''#'' \<or> c = CHR 0x0D \<or> c = CHR 0x0A) value
         \<or> list_ex char_is_whitespace (str_chars value)
      then Err ''source.repository_url''
      else case strip_prefix ''https://'' value of
        Some rest \<Rightarrow>
          if CHR ''@'' \<in> set (first_piece rest) then Err ''source.repository_credentials''
          else repository_host_and_path rest value
      | None \<Rightarrow>
          (case strip_prefix ''ssh://'' value of
             Some rest \<Rightarrow>
               if ssh_authority_refused (first_piece rest) then Err ''source.repository_credentials''
               else repository_host_and_path rest value
           | None \<Rightarrow> Err ''source.repository_scheme''))"

lemma first_piece_append: "CHR ''/'' \<notin> set a \<Longrightarrow> first_piece (a @ CHR ''/'' # p) = a"
  by (simp add: first_piece_def split_on_append)

lemma repository_host_and_path_Ok:
  "repository_host_and_path r v = Ok u \<longleftrightarrow>
     u = v \<and> (\<exists>a p. r = a @ ''/'' @ p \<and> CHR ''/'' \<notin> set a \<and> a \<noteq> [] \<and> p \<noteq> [])"
proof (cases "split_once CHR ''/'' r")
  case None
  then have "CHR ''/'' \<notin> set r" by (simp add: split_once_None_iff)
  with None show ?thesis by (auto simp: repository_host_and_path_def)
next
  case (Some ap)
  then obtain a p where ap: "ap = (a, p)" "r = a @ CHR ''/'' # p" "CHR ''/'' \<notin> set a"
    by (cases ap) (auto simp: split_once_Some_iff)
  have uniq: "a' = a \<and> p' = p" if "r = a' @ CHR ''/'' # p'" "CHR ''/'' \<notin> set a'" for a' p'
  proof -
    have "split_once CHR ''/'' r = Some (a', p')"
      by (rule iffD2[OF split_once_Some_iff]) (rule conjI[OF that])
    then show ?thesis using Some ap(1) by simp
  qed
  have "repository_host_and_path r v = (if a = [] \<or> p = [] then Err ''source.repository_url'' else Ok v)"
    by (simp add: repository_host_and_path_def Some ap(1))
  moreover have "(\<exists>a' p'. r = a' @ ''/'' @ p' \<and> CHR ''/'' \<notin> set a' \<and> a' \<noteq> [] \<and> p' \<noteq> []) \<longleftrightarrow> a \<noteq> [] \<and> p \<noteq> []"
    (is "?E \<longleftrightarrow> _")
  proof
    assume ?E
    then obtain a' p' where "r = a' @ CHR ''/'' # p'" "CHR ''/'' \<notin> set a'" "a' \<noteq> []" "p' \<noteq> []" by auto
    with uniq show "a \<noteq> [] \<and> p \<noteq> []" by blast
  next
    assume "a \<noteq> [] \<and> p \<noteq> []"
    then show ?E using ap(2,3) by (intro exI[of _ a] exI[of _ p]) simp
  qed
  ultimately show ?thesis by (simp only:) auto
qed

lemma split_on_two: "length (split_on c s) \<le> 2 \<Longrightarrow> s = a @ c # b \<Longrightarrow> c \<notin> set a \<and> c \<notin> set b"
proof -
  assume "length (split_on c s) \<le> 2" "s = a @ c # b"
  then have "length (split_on c a) + length (split_on c b) \<le> 2"
    by (simp add: split_on_append_sep)
  moreover have "length (split_on c a) \<ge> 1" "length (split_on c b) \<ge> 1"
    by (simp_all add: Suc_le_eq)
  ultimately have "length (split_on c a) = 1" "length (split_on c b) = 1" by linarith+
  moreover have "c \<notin> set x" if "length (split_on c x) = 1" for x
  proof -
    from that obtain y where y: "split_on c x = [y]" by (auto simp: length_Suc_conv)
    then have "x = y" using join_split_on[of c x] by simp
    then show ?thesis using y split_on_pieces[of y c x] by simp
  qed
  ultimately show ?thesis by blast
qed

lemma ssh_authority_accepted:
  assumes "\<not> ssh_authority_refused a" "a = user @ ''@'' @ host"
  shows "user \<noteq> [] \<and> CHR '':'' \<notin> set user \<and> CHR ''@'' \<notin> set host"
proof -
  have "length (split_on CHR ''@'' a) \<le> 2"
    using assms(1) unfolding ssh_authority_refused_def by (meson not_le)
  moreover have eq: "a = user @ CHR ''@'' # host" using assms(2) by simp
  ultimately have two: "CHR ''@'' \<notin> set user \<and> CHR ''@'' \<notin> set host" by (rule split_on_two)
  have "split_once CHR ''@'' a = Some (user, host)"
    by (rule iffD2[OF split_once_Some_iff]) (use eq two in blast)
  then have "ssh_authority_refused a \<longleftrightarrow>
      length (split_on CHR ''@'' a) > 2 \<or> user = [] \<or> CHR '':'' \<in> set user"
    unfolding ssh_authority_refused_def by (simp only: option.case prod.case)
  with assms(1) have "user \<noteq> [] \<and> CHR '':'' \<notin> set user" by blast
  with two show ?thesis by blast
qed

section \<open>Content classes and MCP names\<close>

datatype content_class = DataOnly | AgentActive | Executable

definition content_class_tag :: "content_class \<Rightarrow> nat" where
  "content_class_tag c = (case c of DataOnly \<Rightarrow> 0 | AgentActive \<Rightarrow> 1 | Executable \<Rightarrow> 2)"

lemma content_class_tag_inj [simp]: "content_class_tag a = content_class_tag b \<longleftrightarrow> a = b"
  by (cases a; cases b) (simp_all add: content_class_tag_def)

instantiation content_class :: linorder
begin

definition less_eq_content_class :: "content_class \<Rightarrow> content_class \<Rightarrow> bool" where
  "less_eq_content_class a b \<longleftrightarrow> content_class_tag a \<le> content_class_tag b"

definition less_content_class :: "content_class \<Rightarrow> content_class \<Rightarrow> bool" where
  "less_content_class a b \<longleftrightarrow> content_class_tag a < content_class_tag b"

instance
  by intro_classes (auto simp: less_eq_content_class_def less_content_class_def dest: antisym)

end

lemma content_class_bounds [simp]: "DataOnly \<le> c" "c \<le> Executable"
  by (cases c; simp add: less_eq_content_class_def content_class_tag_def)+

definition max_portable_mcp_server_name_bytes :: nat where
  "max_portable_mcp_server_name_bytes = 63"

fun contains_double_hyphen :: "string \<Rightarrow> bool" where
  "contains_double_hyphen (a # b # s) = ((a = CHR ''-'' \<and> b = CHR ''-'') \<or> contains_double_hyphen (b # s))"
| "contains_double_hyphen _ = False"

definition is_portable_mcp_server_name :: "string \<Rightarrow> bool" where
  "is_portable_mcp_server_name value \<longleftrightarrow>
     value \<noteq> [] \<and> length value \<le> max_portable_mcp_server_name_bytes
     \<and> is_ascii_lowercase (hd value) \<and> last value \<noteq> CHR ''-''
     \<and> \<not> contains_double_hyphen value
     \<and> list_all (\<lambda>b. is_ascii_lowercase b \<or> is_ascii_digit b \<or> b = CHR ''-'') value"

text \<open>The name grammar without reference to positions: nonempty words of letters and digits, joined by single hyphens.\<close>

definition mcp_word :: "string \<Rightarrow> bool" where
  "mcp_word w \<longleftrightarrow> w \<noteq> [] \<and> list_all (\<lambda>b. is_ascii_lowercase b \<or> is_ascii_digit b) w"

lemma double_hyphen_iff: "contains_double_hyphen s \<longleftrightarrow> (\<exists>a b. s = a @ ''--'' @ b)"
proof (induction s rule: contains_double_hyphen.induct)
  case (1 x y s)
  show ?case
  proof (cases "x = CHR ''-'' \<and> y = CHR ''-''")
    case True
    then have "x # y # s = [] @ ''--'' @ s" by simp
    then show ?thesis using True by (metis contains_double_hyphen.simps(1))
  next
    case False
    have "(\<exists>a b. x # y # s = a @ ''--'' @ b) \<longleftrightarrow> (\<exists>a b. y # s = a @ ''--'' @ b)"
    proof
      assume "\<exists>a b. x # y # s = a @ ''--'' @ b"
      then obtain a b where "x # y # s = a @ ''--'' @ b" by blast
      with False show "\<exists>a b. y # s = a @ ''--'' @ b" by (cases a) auto
    qed (metis append_Cons)
    moreover have "contains_double_hyphen (x # y # s) = contains_double_hyphen (y # s)"
      using False by auto
    ultimately show ?thesis using 1 by simp
  qed
qed (auto simp: Cons_eq_append_conv)

section \<open>Properties\<close>

text \<open>A parsed portable path, resolved component by component below any directory, appends exactly
  its own components to it: no component is empty, \<open>.\<close> or \<open>..\<close>, so the path cannot leave the directory.\<close>

theorem portable_path_stays_below:
  assumes "portable_path_parse v = Ok p"
  shows "resolve_below dir (split_on CHR ''/'' p) = dir @ split_on CHR ''/'' p"
  using assms by (intro resolve_below_portable) (auto simp: portable_path_parse_iff)

theorem portable_path_stays_below_witness:
  "resolve_below [''home''] (split_on CHR ''/'' ''skills/.hidden/run.sh'')
     = [''home'', ''skills'', ''.hidden'', ''run.sh'']"
proof -
  have "portable_path_parse ''skills/.hidden/run.sh'' = Ok ''skills/.hidden/run.sh''" by code_simp
  from portable_path_stays_below[OF this, of "[''home'']"] show ?thesis by simp
qed

text \<open>An accepted repository URL is unchanged and is \<open>https://\<close> or \<open>ssh://\<close> followed by a nonempty
  authority, a slash and a nonempty path; an \<open>https\<close> authority names no user, and an \<open>ssh\<close> authority
  names at most one user and carries no password.\<close>

theorem repository_url_carries_no_password:
  assumes "repository_url_parse v = Ok u"
  shows "u = v \<and> (\<exists>scheme authority path.
      v = scheme @ authority @ ''/'' @ path \<and> authority \<noteq> [] \<and> path \<noteq> [] \<and> CHR ''/'' \<notin> set authority
      \<and> (scheme = ''https://'' \<and> CHR ''@'' \<notin> set authority
         \<or> scheme = ''ssh://'' \<and> {(user, host). authority = user @ ''@'' @ host}
              \<subseteq> {(user, host). user \<noteq> [] \<and> CHR '':'' \<notin> set user \<and> CHR ''@'' \<notin> set host}))"
proof (cases "strip_prefix ''https://'' v")
  case (Some rest)
  then have v: "v = ''https://'' @ rest" by (simp only: strip_prefix_Some_iff)
  have ok: "CHR ''@'' \<notin> set (first_piece rest)" "repository_host_and_path rest v = Ok u"
    using assms Some by (auto simp: repository_url_parse_def split: if_splits)
  then obtain a p where ap: "u = v" "rest = a @ ''/'' @ p" "CHR ''/'' \<notin> set a" "a \<noteq> []" "p \<noteq> []"
    by (auto simp: repository_host_and_path_Ok)
  then have "CHR ''@'' \<notin> set a" using ok(1) by (simp add: first_piece_append)
  then show ?thesis using ap v by (intro conjI exI[of _ "''https://''"] exI[of _ a] exI[of _ p]) simp_all
next
  case None
  then obtain rest where Some: "strip_prefix ''ssh://'' v = Some rest"
    using assms by (auto simp: repository_url_parse_def split: if_splits option.splits)
  then have v: "v = ''ssh://'' @ rest" by (simp only: strip_prefix_Some_iff)
  have ok: "\<not> ssh_authority_refused (first_piece rest)" "repository_host_and_path rest v = Ok u"
    using assms None Some by (auto simp: repository_url_parse_def split: if_splits)
  then obtain a p where ap: "u = v" "rest = a @ ''/'' @ p" "CHR ''/'' \<notin> set a" "a \<noteq> []" "p \<noteq> []"
    by (auto simp: repository_host_and_path_Ok)
  then have "\<not> ssh_authority_refused a" using ok(1) by (simp add: first_piece_append)
  then have "{(user, host). a = user @ ''@'' @ host}
      \<subseteq> {(user, host). user \<noteq> [] \<and> CHR '':'' \<notin> set user \<and> CHR ''@'' \<notin> set host}"
    using ssh_authority_accepted[of a] by blast
  then show ?thesis using ap v by (intro conjI exI[of _ "''ssh://''"] exI[of _ a] exI[of _ p]) simp_all
qed

lemma sample_repository_url: "repository_url_parse ''ssh://git@host/kit'' = Ok ''ssh://git@host/kit''"
proof -
  have "\<not> list_ex char_is_whitespace (str_chars ''ssh://git@host/kit'')"
    by (simp add: str_chars_def char_is_whitespace_def)
  moreover have "strip_prefix ''https://'' ''ssh://git@host/kit'' = None"
    "strip_prefix ''ssh://'' ''ssh://git@host/kit'' = Some ''git@host/kit''"
    "\<not> ssh_authority_refused (first_piece ''git@host/kit'')"
    "repository_host_and_path ''git@host/kit'' ''ssh://git@host/kit'' = Ok ''ssh://git@host/kit''"
    by code_simp+
  ultimately show ?thesis by (simp add: repository_url_parse_def)
qed

theorem repository_url_carries_no_password_witness:
  "''ssh://git@host/kit'' = ''ssh://git@host/kit'' \<and> (\<exists>scheme authority path.
      ''ssh://git@host/kit'' = scheme @ authority @ ''/'' @ path \<and> authority \<noteq> [] \<and> path \<noteq> [] \<and> CHR ''/'' \<notin> set authority
      \<and> (scheme = ''https://'' \<and> CHR ''@'' \<notin> set authority
         \<or> scheme = ''ssh://'' \<and> {(user, host). authority = user @ ''@'' @ host}
              \<subseteq> {(user, host). user \<noteq> [] \<and> CHR '':'' \<notin> set user \<and> CHR ''@'' \<notin> set host}))"
  by (rule repository_url_carries_no_password[OF sample_repository_url])

lemma mcp_words_chars:
  "list_all mcp_word ws \<Longrightarrow> ws \<noteq> [] \<Longrightarrow>
     list_all (\<lambda>b. is_ascii_lowercase b \<or> is_ascii_digit b \<or> b = CHR ''-'') (join_with ''-'' ws)
     \<and> last (join_with ''-'' ws) \<noteq> CHR ''-'' \<and> hd (join_with ''-'' ws) \<noteq> CHR ''-''
     \<and> join_with ''-'' ws \<noteq> [] \<and> \<not> contains_double_hyphen (join_with ''-'' ws)"
proof (induction ws)
  case (Cons w ws)
  have w: "w \<noteq> []" "list_all (\<lambda>b. is_ascii_lowercase b \<or> is_ascii_digit b) w"
    using Cons.prems(1) by (auto simp: mcp_word_def)
  then have nohyphen: "CHR ''-'' \<notin> set w" by (auto simp: list_all_iff char_class_defs)
  then have ends: "last w \<noteq> CHR ''-''" "hd w \<noteq> CHR ''-''" using w(1) by (metis last_in_set, metis hd_in_set)
  have single: "\<not> contains_double_hyphen w"
    using nohyphen by (auto simp: double_hyphen_iff)
  show ?case
  proof (cases "ws = []")
    case True
    then show ?thesis using w ends single by (auto simp: list_all_iff)
  next
    case False
    then obtain v vs where vs: "ws = v # vs" by (cases ws) auto
    let ?j = "join_with ''-'' ws"
    have ih: "list_all (\<lambda>b. is_ascii_lowercase b \<or> is_ascii_digit b \<or> b = CHR ''-'') ?j"
      "last ?j \<noteq> CHR ''-''" "hd ?j \<noteq> CHR ''-''" "?j \<noteq> []" "\<not> contains_double_hyphen ?j"
      using Cons.IH Cons.prems False by auto
    have j: "join_with ''-'' (w # ws) = w @ CHR ''-'' # ?j" by (simp add: vs)
    have "contains_double_hyphen (w @ CHR ''-'' # ?j) = contains_double_hyphen ?j" if "CHR ''-'' \<notin> set w" for w
      using that
    proof (induction w)
      case Nil
      then show ?case using ih(3,4) by (cases ?j) auto
    next
      case (Cons x w)
      then show ?case by (cases w) auto
    qed
    then show ?thesis unfolding j using ih w ends nohyphen by (auto simp: list_all_iff)
  qed
qed simp

lemma mcp_chars_words:
  assumes "s \<noteq> []" "hd s \<noteq> CHR ''-''" "last s \<noteq> CHR ''-''" "\<not> contains_double_hyphen s"
    and "list_all (\<lambda>b. is_ascii_lowercase b \<or> is_ascii_digit b \<or> b = CHR ''-'') s"
  shows "list_all mcp_word (split_on CHR ''-'' s)"
proof (rule ccontr)
  assume "\<not> list_all mcp_word (split_on CHR ''-'' s)"
  then obtain w where w: "w \<in> set (split_on CHR ''-'' s)" "\<not> mcp_word w" by (auto simp: list_all_iff)
  have "CHR ''-'' \<notin> set w" "set w \<subseteq> set s" using w(1) split_on_pieces split_on_subset by blast+
  then have "list_all (\<lambda>b. is_ascii_lowercase b \<or> is_ascii_digit b) w"
    using assms(5) by (auto simp: list_all_iff)
  then have "w = []" using w(2) by (simp add: mcp_word_def)
  then obtain as bs where ab: "split_on CHR ''-'' s = as @ [] # bs" using w(1) by (metis in_set_conv_decomp)
  then have s: "s = join_with ''-'' (as @ [] # bs)" using join_split_on[of "CHR ''-''" s] by simp
  consider "as = []" | "bs = []" | "as \<noteq> []" "bs \<noteq> []" by blast
  then show False
  proof cases
    case 1
    then show ?thesis using s assms(1,2) by (cases bs) auto
  next
    case 2
    then show ?thesis using s assms(1,3) by (cases "as = []") (auto simp: join_with_append)
  next
    case 3
    then obtain b bs' where "bs = b # bs'" by (cases bs) auto
    then have "s = join_with ''-'' as @ ''--'' @ join_with ''-'' bs"
      using s 3 by (simp add: join_with_append)
    then show ?thesis using assms(4) double_hyphen_iff by blast
  qed
qed

text \<open>The accepted MCP server names are exactly the names of at most 63 bytes that start with a
  lowercase letter and consist of nonempty words of lowercase letters and digits joined by single hyphens.\<close>

theorem portable_mcp_names_are_hyphenated_words:
  "is_portable_mcp_server_name v \<longleftrightarrow>
     length v \<le> 63 \<and> (\<exists>ws. ws \<noteq> [] \<and> list_all mcp_word ws \<and> v = join_with ''-'' ws \<and> is_ascii_lowercase (hd v))"
proof
  assume v: "is_portable_mcp_server_name v"
  then have "hd v \<noteq> CHR ''-''" by (auto simp: is_portable_mcp_server_name_def char_class_defs)
  then have "list_all mcp_word (split_on CHR ''-'' v)"
    using v by (intro mcp_chars_words) (simp_all add: is_portable_mcp_server_name_def)
  then show "length v \<le> 63 \<and> (\<exists>ws. ws \<noteq> [] \<and> list_all mcp_word ws \<and> v = join_with ''-'' ws \<and> is_ascii_lowercase (hd v))"
    using v join_split_on[of "CHR ''-''" v]
    by (intro conjI exI[of _ "split_on CHR ''-'' v"])
      (simp_all add: is_portable_mcp_server_name_def max_portable_mcp_server_name_bytes_def)
next
  assume "length v \<le> 63 \<and> (\<exists>ws. ws \<noteq> [] \<and> list_all mcp_word ws \<and> v = join_with ''-'' ws \<and> is_ascii_lowercase (hd v))"
  then show "is_portable_mcp_server_name v"
    using mcp_words_chars
    by (auto simp: is_portable_mcp_server_name_def max_portable_mcp_server_name_bytes_def)
qed

end
