(* ===== verification/Windows_Names.thy ===== *)
theory Windows_Names
  imports Text_Bytes
begin

text \<open>
  \<open>kitrove-windows-names/src/lib.rs\<close>: which path components mean the same thing in the ordinary
  Win32 namespace as in the file system (no trailing dot or space, no reserved character, no DOS
  device name, with or without an extension).
\<close>

definition windows_reserved_char :: "char \<Rightarrow> bool" where
  "windows_reserved_char c \<longleftrightarrow> c \<in> set [CHR ''<'', CHR ''>'', CHR '':'', CHR 0x22, CHR ''/'', CHR 0x5C, CHR ''|'', CHR ''?'', CHR ''*'']"

text \<open>The superscript digits one, two and three are the two-byte characters 0xC2 0xB9, 0xB2 and 0xB3.\<close>

definition windows_devices :: "string list" where
  "windows_devices =
     [''CON'', ''PRN'', ''AUX'', ''NUL'', ''CLOCK$'', ''CONIN$'', ''CONOUT$'',
      ''COM1'', ''COM2'', ''COM3'', ''COM4'', ''COM5'', ''COM6'', ''COM7'', ''COM8'', ''COM9'',
      ''COM'' @ [CHR 0xC2, CHR 0xB9], ''COM'' @ [CHR 0xC2, CHR 0xB2], ''COM'' @ [CHR 0xC2, CHR 0xB3],
      ''LPT1'', ''LPT2'', ''LPT3'', ''LPT4'', ''LPT5'', ''LPT6'', ''LPT7'', ''LPT8'', ''LPT9'',
      ''LPT'' @ [CHR 0xC2, CHR 0xB9], ''LPT'' @ [CHR 0xC2, CHR 0xB2], ''LPT'' @ [CHR 0xC2, CHR 0xB3]]"

definition trim_end_dots_spaces :: "string \<Rightarrow> string" where
  "trim_end_dots_spaces s = rev (dropWhile (\<lambda>c. c = CHR '' '' \<or> c = CHR ''.'') (rev s))"

definition windows_stem :: "string \<Rightarrow> string" where
  "windows_stem component = trim_end_dots_spaces (case split_on CHR ''.'' component of [] \<Rightarrow> component | p # _ \<Rightarrow> p)"

definition is_lossless_windows_component :: "string \<Rightarrow> bool" where
  "is_lossless_windows_component component \<longleftrightarrow>
     (if component = [] \<or> ends_with ''.'' component \<or> ends_with '' '' component
         \<or> list_ex char_is_control (str_chars component) \<or> list_ex windows_reserved_char component
      then False
      else map to_ascii_uppercase (windows_stem component) \<notin> set windows_devices)"

lemma lossless_not_Nil [simp]: "\<not> is_lossless_windows_component []"
  by (simp add: is_lossless_windows_component_def)

lemma lossless_not_dot: "is_lossless_windows_component c \<Longrightarrow> c \<noteq> ''.'' \<and> c \<noteq> ''..''"
  by (auto simp: is_lossless_windows_component_def ends_with_def)

lemma lossless_no_reserved:
  assumes "is_lossless_windows_component s"
  shows "CHR ''/'' \<notin> set s" "CHR 0x5C \<notin> set s" "CHR '':'' \<notin> set s"
proof -
  have "\<not> list_ex windows_reserved_char s"
    using assms by (simp add: is_lossless_windows_component_def split: if_splits)
  moreover have "windows_reserved_char CHR ''/''" "windows_reserved_char CHR 0x5C" "windows_reserved_char CHR '':''"
    by (simp_all add: windows_reserved_char_def)
  ultimately show "CHR ''/'' \<notin> set s" "CHR 0x5C \<notin> set s" "CHR '':'' \<notin> set s"
    by (auto simp: list_ex_iff)
qed

lemma trim_end_spaces: "s \<noteq> [] \<Longrightarrow> last s \<noteq> CHR '' '' \<Longrightarrow> last s \<noteq> CHR ''.'' \<Longrightarrow>
    trim_end_dots_spaces (s @ replicate n CHR '' '') = s"
proof -
  assume s: "s \<noteq> []" "last s \<noteq> CHR '' ''" "last s \<noteq> CHR ''.''"
  have "dropWhile (\<lambda>c. c = CHR '' '' \<or> c = CHR ''.'') (replicate n CHR '' '' @ rev s)
      = dropWhile (\<lambda>c. c = CHR '' '' \<or> c = CHR ''.'') (rev s)"
    by (simp add: dropWhile_append)
  also have "\<dots> = rev s" using s by (cases "rev s") (auto simp: last_rev[symmetric])
  finally show ?thesis by (simp add: trim_end_dots_spaces_def)
qed

lemma windows_device_shape:
  "map to_ascii_uppercase s \<in> set windows_devices \<Longrightarrow>
   s \<noteq> [] \<and> CHR ''.'' \<notin> set s \<and> last s \<noteq> CHR '' '' \<and> last s \<noteq> CHR ''.''"
proof -
  assume dev: "map to_ascii_uppercase s \<in> set windows_devices"
  have "\<forall>d\<in>set windows_devices. d \<noteq> [] \<and> CHR ''.'' \<notin> set d \<and> CHR '' '' \<notin> set d"
    by (simp add: windows_devices_def)
  with dev have "map to_ascii_uppercase s \<noteq> [] \<and> CHR ''.'' \<notin> set (map to_ascii_uppercase s)
      \<and> CHR '' '' \<notin> set (map to_ascii_uppercase s)" by blast
  moreover have "to_ascii_uppercase CHR ''.'' = CHR ''.''" "to_ascii_uppercase CHR '' '' = CHR '' ''"
    by (simp_all add: to_ascii_uppercase_def is_ascii_lowercase_def)
  ultimately have "s \<noteq> [] \<and> CHR ''.'' \<notin> set s \<and> CHR '' '' \<notin> set s"
    by (metis (no_types) image_eqI list.map_disc_iff set_map)
  then show ?thesis using last_in_set[of s] by metis
qed

section \<open>Properties\<close>

text \<open>A DOS device name is refused in any letter case, with any number of trailing spaces and with
  any extension after a dot, because Windows resolves all of these to the device.\<close>

theorem device_names_are_refused:
  assumes "map to_ascii_uppercase device \<in> set windows_devices" "ext = [] \<or> hd ext = CHR ''.''"
  shows "\<not> is_lossless_windows_component (device @ replicate n CHR '' '' @ ext)"
proof -
  note shape = windows_device_shape[OF assms(1)]
  have nodot: "CHR ''.'' \<notin> set (device @ replicate n CHR '' '')" using shape by auto
  have "windows_stem (device @ replicate n CHR '' '' @ ext) = trim_end_dots_spaces (device @ replicate n CHR '' '')"
  proof (cases ext)
    case Nil
    then show ?thesis using nodot by (simp add: windows_stem_def)
  next
    case (Cons c rest)
    then have "device @ replicate n CHR '' '' @ ext = (device @ replicate n CHR '' '') @ CHR ''.'' # rest"
      using assms(2) by simp
    then have "split_on CHR ''.'' (device @ replicate n CHR '' '' @ ext) = (device @ replicate n CHR '' '') # split_on CHR ''.'' rest"
      using split_on_append[OF nodot] by simp
    then show ?thesis by (simp add: windows_stem_def)
  qed
  also have "\<dots> = device" using shape by (intro trim_end_spaces) auto
  finally show ?thesis using assms(1) by (simp add: is_lossless_windows_component_def)
qed

theorem device_names_are_refused_witness:
  "\<not> is_lossless_windows_component ''nUl  .tar.gz'' \<and> is_lossless_windows_component ''null.tar.gz''"
proof
  have "''nUl  .tar.gz'' = ''nUl'' @ replicate 2 CHR '' '' @ ''.tar.gz''" by (simp add: numeral_2_eq_2)
  moreover have "map to_ascii_uppercase ''nUl'' \<in> set windows_devices" by code_simp
  ultimately show "\<not> is_lossless_windows_component ''nUl  .tar.gz''"
    using device_names_are_refused[of "''nUl''" "''.tar.gz''" 2] by (simp only:) simp
  show "is_lossless_windows_component ''null.tar.gz''" by code_simp
qed

end
