(* ===== verification/Identity.thy ===== *)
theory Identity
  imports Portable_Content Windows_Names
begin

text \<open>
  \<open>kitrove-model/src/identity.rs\<close>: identifiers, harness identities, and the canonical destinations of
  machine-local materialization with their join, anchor and ancestor operations.
\<close>

section \<open>Identifiers\<close>

definition identifier_tail_char :: "char \<Rightarrow> bool" where
  "identifier_tail_char c \<longleftrightarrow>
     is_ascii_lowercase c \<or> is_ascii_digit c \<or> c = CHR ''-'' \<or> c = CHR ''_'' \<or> c = CHR ''.''"

definition validate_identifier :: "string \<Rightarrow> unit result" where
  "validate_identifier value =
     (case value of
        [] \<Rightarrow> Err ''identity.empty''
      | first # characters \<Rightarrow>
          if \<not> is_ascii_lowercase first \<and> \<not> is_ascii_digit first then Err ''identity.invalid_start''
          else if \<not> list_all identifier_tail_char characters then Err ''identity.invalid_character''
          else Ok ())"

text \<open>The parser of every type made by \<open>validated_identifier!\<close> (asset, binding, profile, machine, receipt and pack application identifiers).\<close>

definition identifier_parse :: "string \<Rightarrow> string result" where
  "identifier_parse value = and_then (validate_identifier value) (Ok value)"

definition provenance_id_parse :: "string \<Rightarrow> string result" where
  "provenance_id_parse =
     qualified_digest_parse ''provenance:blake3:'' ''provenance_id.unsupported_format'' ''provenance_id.invalid_digest''"

definition environment_variable_parse :: "string \<Rightarrow> string result" where
  "environment_variable_parse value =
     (case value of
        [] \<Rightarrow> Err ''binding.environment_variable''
      | first # bytes \<Rightarrow>
          if \<not> (is_ascii_alphabetic first \<or> first = CHR ''_'')
             \<or> \<not> list_all (\<lambda>b. is_ascii_alphanumeric b \<or> b = CHR ''_'') bytes
          then Err ''binding.environment_variable'' else Ok value)"

definition revision_parse :: "string \<Rightarrow> string result" where
  "revision_parse value =
     (if trim_is_empty value \<or> CHR 0x0D \<in> set value \<or> CHR 0x0A \<in> set value
      then Err ''revision.invalid'' else Ok value)"

lemma validate_identifier_Ok_iff:
  "validate_identifier v = Ok () \<longleftrightarrow>
     (\<exists>c cs. v = c # cs \<and> (is_ascii_lowercase c \<or> is_ascii_digit c) \<and> list_all identifier_tail_char cs)"
  by (cases v) (auto simp: validate_identifier_def)

lemma identifier_parse_Ok_iff: "identifier_parse v = Ok u \<longleftrightarrow> u = v \<and> validate_identifier v = Ok ()"
  by (auto simp: identifier_parse_def and_then_Ok_iff)

lemma identifier_chars: "validate_identifier v = Ok () \<Longrightarrow> c \<in> set v \<Longrightarrow> identifier_tail_char c"
  by (auto simp: validate_identifier_Ok_iff identifier_tail_char_def list_all_iff)

lemma identifier_no_slash: "validate_identifier v = Ok () \<Longrightarrow> CHR ''/'' \<notin> set v"
  using identifier_chars by (force simp: identifier_tail_char_def char_class_defs)

section \<open>Harness identities\<close>

datatype harness_scope = ScopeUser | ScopeProject

definition harness_scope_as_str :: "harness_scope \<Rightarrow> string" where
  "harness_scope_as_str s = (case s of ScopeUser \<Rightarrow> ''user'' | ScopeProject \<Rightarrow> ''project'')"

lemma harness_scope_as_str_inj [simp]: "harness_scope_as_str a = harness_scope_as_str b \<longleftrightarrow> a = b"
  by (cases a; cases b) (simp_all add: harness_scope_as_str_def)

definition community_harness_id_parse :: "string \<Rightarrow> string result" where
  "community_harness_id_parse value =
     (let segments = split_on CHR ''/'' value
      in if length segments < 2 \<or> list_ex (\<lambda>s. validate_identifier s \<noteq> Ok ()) segments
         then Err ''harness.invalid_id'' else Ok value)"

datatype harness_id = Claude | Codex | Pi | OpenCode | Other string

definition harness_id_parse :: "string \<Rightarrow> harness_id result" where
  "harness_id_parse value =
     (if value = ''claude'' then Ok Claude
      else if value = ''codex'' then Ok Codex
      else if value = ''pi'' then Ok Pi
      else if value = ''opencode'' then Ok OpenCode
      else bind_result (community_harness_id_parse value) (\<lambda>v. Ok (Other v)))"

definition harness_id_as_str :: "harness_id \<Rightarrow> string" where
  "harness_id_as_str h =
     (case h of Claude \<Rightarrow> ''claude'' | Codex \<Rightarrow> ''codex'' | Pi \<Rightarrow> ''pi'' | OpenCode \<Rightarrow> ''opencode'' | Other v \<Rightarrow> v)"

text \<open>A value of \<open>HarnessId\<close>: the payload of \<open>Other\<close> is a \<open>CommunityHarnessId\<close>.\<close>

definition valid_harness_id :: "harness_id \<Rightarrow> bool" where
  "valid_harness_id h \<longleftrightarrow> (case h of Other v \<Rightarrow> community_harness_id_parse v = Ok v | _ \<Rightarrow> True)"

text \<open>The derived order: by variant in declaration order, then by payload.\<close>

definition harness_key :: "harness_id \<Rightarrow> nat \<times> string" where
  "harness_key h =
     (case h of Claude \<Rightarrow> (0, []) | Codex \<Rightarrow> (1, []) | Pi \<Rightarrow> (2, []) | OpenCode \<Rightarrow> (3, []) | Other v \<Rightarrow> (4, v))"

lemma harness_key_inj: "harness_key a = harness_key b \<Longrightarrow> a = b"
  by (cases a; cases b) (simp_all add: harness_key_def)

instantiation harness_id :: linorder
begin

definition less_eq_harness_id :: "harness_id \<Rightarrow> harness_id \<Rightarrow> bool" where
  "less_eq_harness_id a b \<longleftrightarrow> fst (harness_key a) < fst (harness_key b)
     \<or> (fst (harness_key a) = fst (harness_key b) \<and> snd (harness_key a) \<le> snd (harness_key b))"

definition less_harness_id :: "harness_id \<Rightarrow> harness_id \<Rightarrow> bool" where
  "less_harness_id a b \<longleftrightarrow> fst (harness_key a) < fst (harness_key b)
     \<or> (fst (harness_key a) = fst (harness_key b) \<and> snd (harness_key a) < snd (harness_key b))"

instance
  by intro_classes
    (auto simp: less_eq_harness_id_def less_harness_id_def intro: harness_key_inj[OF prod_eqI])

end

lemma community_harness_id_Ok:
  "community_harness_id_parse v = Ok u \<longleftrightarrow>
     u = v \<and> CHR ''/'' \<in> set v \<and> (\<forall>s\<in>set (split_on CHR ''/'' v). validate_identifier s = Ok ())"
proof -
  have "length (split_on CHR ''/'' v) < 2 \<longleftrightarrow> CHR ''/'' \<notin> set v"
  proof
    assume "length (split_on CHR ''/'' v) < 2"
    then have "length (split_on CHR ''/'' v) = 1"
      using split_on_not_Nil[of "CHR ''/''" v] by (cases "split_on CHR ''/'' v") auto
    then obtain y where "split_on CHR ''/'' v = [y]" by (auto simp: length_Suc_conv)
    then show "CHR ''/'' \<notin> set v"
      using join_split_on[of "CHR ''/''" v] split_on_pieces[of y "CHR ''/''" v] by simp
  qed simp
  then show ?thesis
    by (simp add: community_harness_id_parse_def Let_def list_ex_iff) blast
qed

lemma harness_id_as_str_inj:
  assumes "valid_harness_id a" "valid_harness_id b" "harness_id_as_str a = harness_id_as_str b"
  shows "a = b"
proof -
  have other: "CHR ''/'' \<in> set (harness_id_as_str h) \<longleftrightarrow> (\<exists>v. h = Other v)" if "valid_harness_id h" for h
    using that by (cases h) (auto simp: harness_id_as_str_def valid_harness_id_def community_harness_id_Ok)
  have "(\<exists>v. a = Other v) \<longleftrightarrow> (\<exists>v. b = Other v)"
    using other[OF assms(1)] other[OF assms(2)] assms(3) by simp
  then show ?thesis using assms(3) by (cases a; cases b) (simp_all add: harness_id_as_str_def)
qed

section \<open>Canonical destinations\<close>

definition backslash_to_slash :: "char \<Rightarrow> char" where
  "backslash_to_slash c = (if c = CHR 0x5C then CHR ''/'' else c)"

text \<open>The component loop of \<open>NormalizedDestination::parse\<close>.\<close>

fun canonical_components :: "bool \<Rightarrow> string list \<Rightarrow> string list result" where
  "canonical_components is_windows [] = Ok []"
| "canonical_components is_windows (component # rest) =
     (if component = [] then canonical_components is_windows rest
      else if component = ''.'' \<or> component = ''..'' then Err ''destination.invalid''
      else if is_windows \<and> \<not> is_lossless_windows_component component then Err ''destination.invalid''
      else bind_result (canonical_components is_windows rest) (\<lambda>cs. Ok (component # cs)))"

definition has_drive :: "string \<Rightarrow> bool" where
  "has_drive value \<longleftrightarrow> (case value of d # colon # _ \<Rightarrow> is_ascii_alphabetic d \<and> colon = CHR '':'' | _ \<Rightarrow> False)"

text \<open>The split into normalized text and namespace: drive-letter absolute, Unix absolute, or refused.\<close>

definition destination_namespace :: "string \<Rightarrow> (string \<times> bool) result" where
  "destination_namespace value =
     (if has_drive value
      then let suffix = drop 2 value
           in if \<not> (starts_with ''/'' suffix \<or> starts_with [CHR 0x5C] suffix) then Err ''destination.invalid''
              else Ok (map backslash_to_slash ([to_ascii_uppercase (hd value), CHR '':''] @ suffix), True)
      else if starts_with ''/'' value then Ok (value, False)
      else Err ''destination.invalid'')"

definition destination_parse :: "string \<Rightarrow> string result" where
  "destination_parse value =
     (if value = [] \<or> CHR 0x00 \<in> set value then Err ''destination.invalid''
      else if starts_with ''//'' value \<or> starts_with [CHR 0x5C, CHR 0x5C] value then Err ''destination.invalid''
      else bind_result (destination_namespace value) (\<lambda>(normalized, is_windows).
        let prefix = (if is_windows then take 3 normalized else ''/'');
            components = (if is_windows then drop 3 normalized else drop 1 normalized)
        in bind_result (canonical_components is_windows (split_on CHR ''/'' components)) (\<lambda>canonical.
             Ok (if canonical = [] then prefix else prefix @ join_with ''/'' canonical))))"

definition destination_join_portable :: "string \<Rightarrow> string \<Rightarrow> string result" where
  "destination_join_portable self relative =
     destination_parse (self @ (if ends_with ''/'' self then [] else ''/'') @ relative)"

definition destination_anchor_for :: "string \<Rightarrow> string \<Rightarrow> string result" where
  "destination_anchor_for self relative =
     (case strip_suffix relative self of
        None \<Rightarrow> Err ''destination.invalid''
      | Some prefix \<Rightarrow>
          if \<not> ends_with ''/'' prefix then Err ''destination.invalid''
          else bind_result
            (if prefix = ''/'' \<or> ends_with '':/'' prefix then Ok prefix
             else ok_or ''destination.invalid'' (strip_suffix ''/'' prefix))
            destination_parse)"

text \<open>The slices \<open>&self.0[..separator]\<close> of \<open>match_indices('/')\<close>: every prefix that ends before a separator.\<close>

fun cuts_before :: "char \<Rightarrow> string \<Rightarrow> string list" where
  "cuts_before c [] = []"
| "cuts_before c (x # xs) = (if x = c then [[]] else []) @ map (Cons x) (cuts_before c xs)"

definition strict_ancestor_strings :: "string \<Rightarrow> string list" where
  "strict_ancestor_strings self =
     (let root_length = (if starts_with ''/'' self then 1 else 3)
      in (if length self > root_length then [take root_length self] else [])
         @ filter (\<lambda>cut. length cut > root_length) (cuts_before CHR ''/'' self))"

definition is_ancestor_of :: "string \<Rightarrow> string \<Rightarrow> bool" where
  "is_ancestor_of self other \<longleftrightarrow> list_ex (\<lambda>ancestor. ancestor = self) (strict_ancestor_strings other)"

section \<open>Properties\<close>

text \<open>Parsing and printing harness identities are inverse: a text parses to a harness exactly when
  the harness is valid and prints as that text, so no two harnesses share a text and no community
  identity shadows a built-in one.\<close>

theorem harness_id_round_trip:
  "harness_id_parse v = Ok h \<longleftrightarrow> valid_harness_id h \<and> harness_id_as_str h = v"
proof -
  have community: "community_harness_id_parse s = Ok u \<Longrightarrow> u = s \<and> CHR ''/'' \<in> set s" for s u
    by (simp add: community_harness_id_Ok)
  let ?builtin = "v = ''claude'' \<or> v = ''codex'' \<or> v = ''pi'' \<or> v = ''opencode''"
  have slash: "?builtin \<Longrightarrow> CHR ''/'' \<notin> set v" by auto
  show ?thesis
  proof (cases h)
    case (Other u)
    have "harness_id_parse v = Ok (Other u) \<longleftrightarrow> \<not> ?builtin \<and> community_harness_id_parse v = Ok u"
      by (simp add: harness_id_parse_def bind_result_Ok_iff)
    also have "\<dots> \<longleftrightarrow> u = v \<and> community_harness_id_parse u = Ok u"
      using community slash by metis
    finally show ?thesis by (auto simp: Other valid_harness_id_def harness_id_as_str_def)
  qed (auto simp: harness_id_parse_def valid_harness_id_def harness_id_as_str_def bind_result_Ok_iff)
qed

end
