(* ===== verification/Framing.thy ===== *)
theory Framing
  imports Kit_Prelude
begin

text \<open>
  The byte framing that every identity of the program hashes.  A BLAKE3 hasher is the bytes it has been
  fed; \<open>update\<close> appends and \<open>finalize\<close> applies the hash function, which is an argument of the model.
  What makes an identity trustworthy is that the bytes fed determine the record, and that rests on
  each piece being self-delimiting: after a code word, the rest of the stream is where it should be.
\<close>

named_theorems frame_simps "cancelling self-delimiting code words from equal byte streams"

section \<open>Self-delimiting codes\<close>

locale prefix_code =
  fixes enc :: "'a \<Rightarrow> string" and dom :: "'a \<Rightarrow> bool"
  assumes unique: "dom x \<Longrightarrow> dom y \<Longrightarrow> enc x @ s = enc y @ t \<Longrightarrow> x = y \<and> s = t"
begin

lemma unique_iff: "dom x \<Longrightarrow> dom y \<Longrightarrow> enc x @ s = enc y @ t \<longleftrightarrow> x = y \<and> s = t"
  using unique by blast

lemma inj: "dom x \<Longrightarrow> dom y \<Longrightarrow> enc x = enc y \<longleftrightarrow> x = y"
  using unique_iff[of x y "[]" "[]"] by simp

lemma concat_unique:
  assumes "length xs = length ys" "\<forall>x\<in>set xs. dom x" "\<forall>y\<in>set ys. dom y"
    and "concat (map enc xs) @ s = concat (map enc ys) @ t"
  shows "xs = ys \<and> s = t"
  using assms by (induction xs ys rule: list_induct2) (auto simp: unique_iff)

text \<open>Code words in a row with nothing after them need no count, as long as none is empty.\<close>

lemma concat_inj:
  assumes "\<forall>x\<in>set xs. dom x \<and> enc x \<noteq> []" "\<forall>y\<in>set ys. dom y \<and> enc y \<noteq> []"
    and "concat (map enc xs) = concat (map enc ys)"
  shows "xs = ys"
  using assms
proof (induction xs arbitrary: ys)
  case (Cons x xs)
  obtain y zs where ys: "ys = y # zs" using Cons.prems(1,3) by (cases ys) auto
  have "x = y \<and> concat (map enc xs) = concat (map enc zs)"
    using Cons.prems by (intro unique) (simp_all add: ys)
  then show ?case using Cons.IH[of zs] Cons.prems(1,2) by (simp add: ys)
next
  case Nil
  then show ?case by (cases ys) auto
qed

end

text \<open>Two codes in sequence.\<close>

locale code_pair = a: prefix_code enca doma + b: prefix_code encb domb
  for enca :: "'a \<Rightarrow> string" and doma :: "'a \<Rightarrow> bool" and encb :: "'b \<Rightarrow> string" and domb :: "'b \<Rightarrow> bool"
begin

lemma pair_unique:
  "doma x \<Longrightarrow> domb u \<Longrightarrow> doma y \<Longrightarrow> domb v \<Longrightarrow>
   enca x @ encb u @ s = enca y @ encb v @ t \<Longrightarrow> (x, u) = (y, v) \<and> s = t"
  by (auto simp: a.unique_iff b.unique_iff)

end

section \<open>Big-endian counts and length-prefixed text\<close>

fun be_bytes :: "nat \<Rightarrow> nat \<Rightarrow> string" where
  "be_bytes 0 n = []"
| "be_bytes (Suc k) n = be_bytes k (n div 256) @ [char_of (n mod 256)]"

text \<open>\<open>(n as u64).to_be_bytes()\<close>: eight bytes, most significant first.\<close>

definition write_count :: "nat \<Rightarrow> string" where
  "write_count n = be_bytes 8 (n mod 2 ^ 64)"

definition write_text_record :: "string \<Rightarrow> string" where
  "write_text_record s = write_count (length s) @ s"

definition write_optional_text :: "string option \<Rightarrow> string" where
  "write_optional_text v = (case v of Some s \<Rightarrow> [CHR 0x01] @ write_text_record s | None \<Rightarrow> [CHR 0x00])"

text \<open>A container written as its length and then its elements.\<close>

definition write_counted :: "('a \<Rightarrow> string) \<Rightarrow> 'a list \<Rightarrow> string" where
  "write_counted enc xs = write_count (length xs) @ concat (map enc xs)"

text \<open>Every Rust length is a \<open>usize\<close>, at most 64 bits wide.\<close>

definition fits_u64 :: "'a list \<Rightarrow> bool" where
  "fits_u64 s \<longleftrightarrow> length s < 2 ^ 64"

lemma length_be_bytes [simp]: "length (be_bytes k n) = k"
  by (induction k n rule: be_bytes.induct) auto

lemma be_bytes_inj: "m < 256 ^ k \<Longrightarrow> n < 256 ^ k \<Longrightarrow> be_bytes k m = be_bytes k n \<Longrightarrow> m = n"
proof (induction k arbitrary: m n)
  case (Suc k)
  have "m div 256 < 256 ^ k" "n div 256 < 256 ^ k"
    using Suc.prems(1,2) by (auto simp: less_mult_imp_div_less mult.commute)
  moreover have "be_bytes k (m div 256) = be_bytes k (n div 256)"
    and low: "char_of (m mod 256) = (char_of (n mod 256) :: char)"
    using Suc.prems(3) by auto
  ultimately have "m div 256 = n div 256" using Suc.IH by blast
  moreover from low have "m mod 256 = n mod 256"
    by (metis mod_mod_trivial of_char_of)
  ultimately show ?case by (metis div_mult_mod_eq)
qed simp

lemma length_write_count [simp]: "length (write_count n) = 8"
  by (simp add: write_count_def)

lemma write_count_inj: "m < 2 ^ 64 \<Longrightarrow> n < 2 ^ 64 \<Longrightarrow> write_count m = write_count n \<Longrightarrow> m = n"
  using be_bytes_inj[of m 8 n] by (simp add: write_count_def)

interpretation count_code: prefix_code write_count "\<lambda>n. n < 2 ^ 64"
proof unfold_locales
  fix m n :: nat and s t
  assume mn: "m < 2 ^ 64" "n < 2 ^ 64" and "write_count m @ s = write_count n @ t"
  then have "write_count m = write_count n" "s = t" by auto
  then show "m = n \<and> s = t" using write_count_inj[OF mn] by blast
qed

lemma write_count_length_cancel [frame_simps]:
  "length xs < 2 ^ 64 \<Longrightarrow> length ys < 2 ^ 64 \<Longrightarrow>
   write_count (length xs) @ s = write_count (length ys) @ t \<longleftrightarrow> length xs = length ys \<and> s = t"
  by (rule count_code.unique_iff)

lemma write_count_length_inj [frame_simps]:
  "length xs < 2 ^ 64 \<Longrightarrow> length ys < 2 ^ 64 \<Longrightarrow>
   write_count (length xs) = write_count (length ys) \<longleftrightarrow> length xs = length ys"
  by (rule count_code.inj)

interpretation text_code: prefix_code write_text_record fits_u64
  by unfold_locales (auto simp: write_text_record_def fits_u64_def frame_simps)

interpretation optional_text_code: prefix_code write_optional_text "\<lambda>v. \<forall>s\<in>set_option v. fits_u64 s"
  by unfold_locales (auto simp: write_optional_text_def text_code.unique_iff split: option.splits)

lemmas text_record_cancel [frame_simps] = text_code.unique_iff text_code.inj
lemmas optional_text_cancel [frame_simps] = optional_text_code.unique_iff optional_text_code.inj

text \<open>A counted container of self-delimiting elements is self-delimiting.\<close>

context prefix_code begin

lemma counted_unique:
  assumes "fits_u64 xs" "fits_u64 ys" "\<forall>x\<in>set xs. dom x" "\<forall>y\<in>set ys. dom y"
    and "write_counted enc xs @ s = write_counted enc ys @ t"
  shows "xs = ys \<and> s = t"
proof -
  have "length xs = length ys" and "concat (map enc xs) @ s = concat (map enc ys) @ t"
    using assms by (auto simp: write_counted_def fits_u64_def frame_simps)
  then show ?thesis using assms concat_unique by blast
qed

end

interpretation text_list_code: prefix_code "write_counted write_text_record" "\<lambda>xs. fits_u64 xs \<and> (\<forall>x\<in>set xs. fits_u64 x)"
  by unfold_locales (use text_code.counted_unique in blast)

lemmas text_list_cancel [frame_simps] = text_list_code.unique_iff text_list_code.inj

text \<open>A record of two texts, as reasons, evidence and pack members are written.\<close>

definition write_text_pair :: "string \<times> string \<Rightarrow> string" where
  "write_text_pair p = write_text_record (fst p) @ write_text_record (snd p)"

interpretation text_pair: code_pair write_text_record fits_u64 write_text_record fits_u64
  by unfold_locales

interpretation text_pair_code: prefix_code write_text_pair "\<lambda>p. fits_u64 (fst p) \<and> fits_u64 (snd p)"
  by unfold_locales (auto simp: write_text_pair_def prod_eq_iff dest!: text_pair.pair_unique[rotated 4])

interpretation text_pair_list_code: prefix_code "write_counted write_text_pair"
    "\<lambda>xs. fits_u64 xs \<and> (\<forall>p\<in>set xs. fits_u64 (fst p) \<and> fits_u64 (snd p))"
  by unfold_locales (use text_pair_code.counted_unique in blast)

lemmas text_pair_list_cancel [frame_simps] = text_pair_list_code.unique_iff text_pair_list_code.inj

text \<open>No two of the byte strings in \<open>S\<close> have the same digest.\<close>

definition collision_free :: "(string \<Rightarrow> string) \<Rightarrow> string set \<Rightarrow> bool" where
  "collision_free H S \<longleftrightarrow> inj_on H S"

lemma collision_freeD: "collision_free H S \<Longrightarrow> a \<in> S \<Longrightarrow> b \<in> S \<Longrightarrow> H a = H b \<Longrightarrow> a = b"
  by (auto simp: collision_free_def dest: inj_onD)

end
