(* ===== verification/Fidelity.thy ===== *)
theory Fidelity
  imports Identity Framing
begin

text \<open>
  \<open>kitrove-model/src/fidelity.rs\<close>: the categorical fidelity of an asset on a target harness, with the
  structured reasons, evidence and local requirements that must accompany each category.
\<close>

section \<open>Requirements and categories\<close>

datatype blocked_requirement = Binding string | ExecutableTrust

fun binding_name :: "blocked_requirement \<Rightarrow> string option" where
  "binding_name (Binding name) = Some name"
| "binding_name ExecutableTrust = None"

text \<open>The derived order: every binding, by name, before executable trust.\<close>

definition requirement_key :: "blocked_requirement \<Rightarrow> nat \<times> string" where
  "requirement_key r = (case r of Binding n \<Rightarrow> (0, n) | ExecutableTrust \<Rightarrow> (1, []))"

lemma requirement_key_inj: "requirement_key a = requirement_key b \<Longrightarrow> a = b"
  by (cases a; cases b) (simp_all add: requirement_key_def)

instantiation blocked_requirement :: linorder
begin

definition less_eq_blocked_requirement :: "blocked_requirement \<Rightarrow> blocked_requirement \<Rightarrow> bool" where
  "less_eq_blocked_requirement a b \<longleftrightarrow> fst (requirement_key a) < fst (requirement_key b)
     \<or> (fst (requirement_key a) = fst (requirement_key b) \<and> snd (requirement_key a) \<le> snd (requirement_key b))"

definition less_blocked_requirement :: "blocked_requirement \<Rightarrow> blocked_requirement \<Rightarrow> bool" where
  "less_blocked_requirement a b \<longleftrightarrow> fst (requirement_key a) < fst (requirement_key b)
     \<or> (fst (requirement_key a) = fst (requirement_key b) \<and> snd (requirement_key a) < snd (requirement_key b))"

instance
  by intro_classes
    (auto simp: less_eq_blocked_requirement_def less_blocked_requirement_def
      intro: requirement_key_inj[OF prod_eqI])

end

datatype fidelity = FNative | FPortable | FAdapted | FPartial | FUnsupported | FBlocked

definition fidelity_tag :: "fidelity \<Rightarrow> nat" where
  "fidelity_tag f = (case f of FNative \<Rightarrow> 0 | FPortable \<Rightarrow> 1 | FAdapted \<Rightarrow> 2 | FPartial \<Rightarrow> 3
     | FUnsupported \<Rightarrow> 4 | FBlocked \<Rightarrow> 5)"

lemma fidelity_tag_inj [simp]: "fidelity_tag a = fidelity_tag b \<longleftrightarrow> a = b"
  by (cases a; cases b) (simp_all add: fidelity_tag_def)

lemma fidelity_tag_bound: "fidelity_tag f < 256"
  by (cases f) (simp_all add: fidelity_tag_def)

instantiation fidelity :: linorder
begin

definition less_eq_fidelity :: "fidelity \<Rightarrow> fidelity \<Rightarrow> bool" where
  "less_eq_fidelity a b \<longleftrightarrow> fidelity_tag a \<le> fidelity_tag b"

definition less_fidelity :: "fidelity \<Rightarrow> fidelity \<Rightarrow> bool" where
  "less_fidelity a b \<longleftrightarrow> fidelity_tag a < fidelity_tag b"

instance
  by intro_classes (auto simp: less_eq_fidelity_def less_fidelity_def dest: antisym)

end

section \<open>Results\<close>

record fidelity_reason =
  reason_code :: string
  reason_message :: string

record fidelity_evidence =
  evidence_kind :: string
  evidence_detail :: string

record fidelity_result =
  fr_fidelity :: fidelity
  fr_reasons :: "fidelity_reason list"
  fr_evidence :: "fidelity_evidence list"
  fr_blocked_requirements :: "blocked_requirement list"
  fr_adapter_version :: string
  fr_harness_version :: "string option"

definition fidelity_result_new ::
  "fidelity \<Rightarrow> fidelity_reason list \<Rightarrow> fidelity_evidence list \<Rightarrow> blocked_requirement list \<Rightarrow> string \<Rightarrow> string option
   \<Rightarrow> fidelity_result result" where
  "fidelity_result_new f reasons evidence blocked adapter_version harness_version =
     (if (f = FPartial \<or> f = FUnsupported \<or> f = FBlocked) \<and> reasons = [] then Err ''fidelity.reason_required''
      else if list_ex (\<lambda>r. trim_is_empty (reason_code r) \<or> trim_is_empty (reason_message r)) reasons
      then Err ''fidelity.invalid_reason''
      else if f = FBlocked \<and> blocked = [] then Err ''fidelity.blocked_requirement_required''
      else if f \<noteq> FBlocked \<and> blocked \<noteq> [] then Err ''fidelity.unexpected_blocked_requirement''
      else if evidence = [] then Err ''fidelity.evidence_required''
      else if list_ex (\<lambda>e. trim_is_empty (evidence_kind e) \<or> trim_is_empty (evidence_detail e)) evidence
      then Err ''fidelity.invalid_evidence''
      else if trim_is_empty adapter_version then Err ''fidelity.adapter_version_required''
      else Ok \<lparr>fr_fidelity = f, fr_reasons = reasons, fr_evidence = evidence,
               fr_blocked_requirements = blocked, fr_adapter_version = adapter_version,
               fr_harness_version = harness_version\<rparr>)"

definition fidelity_result_exact ::
  "fidelity \<Rightarrow> fidelity_evidence list \<Rightarrow> string \<Rightarrow> string option \<Rightarrow> fidelity_result result" where
  "fidelity_result_exact f evidence adapter_version harness_version =
     (if \<not> (f = FNative \<or> f = FPortable \<or> f = FAdapted) then Err ''fidelity.not_exact''
      else fidelity_result_new f [] evidence [] adapter_version harness_version)"

text \<open>A value of \<open>FidelityResult\<close>: what the constructor and the deserializer let through.\<close>

definition wf_fidelity_result :: "fidelity_result \<Rightarrow> bool" where
  "wf_fidelity_result r \<longleftrightarrow>
     fidelity_result_new (fr_fidelity r) (fr_reasons r) (fr_evidence r) (fr_blocked_requirements r)
       (fr_adapter_version r) (fr_harness_version r) = Ok r"

lemma fidelity_result_new_Ok:
  "fidelity_result_new f rs ev bl av hv = Ok r \<Longrightarrow>
     r = \<lparr>fr_fidelity = f, fr_reasons = rs, fr_evidence = ev, fr_blocked_requirements = bl,
          fr_adapter_version = av, fr_harness_version = hv\<rparr>"
  by (auto simp: fidelity_result_new_def split: if_splits)

lemma fidelity_result_new_wf: "fidelity_result_new f rs ev bl av hv = Ok r \<Longrightarrow> wf_fidelity_result r"
  using fidelity_result_new_Ok[of f rs ev bl av hv r] by (simp add: wf_fidelity_result_def)

lemma fidelity_result_exact_wf: "fidelity_result_exact f ev av hv = Ok r \<Longrightarrow> wf_fidelity_result r"
  by (auto simp: fidelity_result_exact_def intro: fidelity_result_new_wf split: if_splits)

lemma wf_blocked_iff: "wf_fidelity_result r \<Longrightarrow> fr_fidelity r = FBlocked \<longleftrightarrow> fr_blocked_requirements r \<noteq> []"
  by (auto simp: wf_fidelity_result_def fidelity_result_new_def split: if_splits)

section \<open>Hashing\<close>

definition write_reason :: "fidelity_reason \<Rightarrow> string" where
  "write_reason r = write_text_record (reason_code r) @ write_text_record (reason_message r)"

definition write_evidence :: "fidelity_evidence \<Rightarrow> string" where
  "write_evidence e = write_text_record (evidence_kind e) @ write_text_record (evidence_detail e)"

definition write_requirement :: "blocked_requirement \<Rightarrow> string" where
  "write_requirement r =
     (case r of Binding name \<Rightarrow> [CHR 0x00] @ write_text_record name | ExecutableTrust \<Rightarrow> [CHR 0x01])"

text \<open>\<open>hash_fidelity\<close> of \<open>asset.rs\<close>.\<close>

definition hash_fidelity :: "fidelity_result \<Rightarrow> string" where
  "hash_fidelity r =
     [char_of (fidelity_tag (fr_fidelity r))]
     @ write_counted write_reason (fr_reasons r)
     @ write_counted write_evidence (fr_evidence r)
     @ write_counted write_requirement (fr_blocked_requirements r)
     @ write_text_record (fr_adapter_version r)
     @ write_optional_text (fr_harness_version r)"

definition reason_fits :: "fidelity_reason \<Rightarrow> bool" where
  "reason_fits r \<longleftrightarrow> fits_u64 (reason_code r) \<and> fits_u64 (reason_message r)"

definition evidence_fits :: "fidelity_evidence \<Rightarrow> bool" where
  "evidence_fits e \<longleftrightarrow> fits_u64 (evidence_kind e) \<and> fits_u64 (evidence_detail e)"

definition requirement_fits :: "blocked_requirement \<Rightarrow> bool" where
  "requirement_fits r \<longleftrightarrow> (case r of Binding n \<Rightarrow> fits_u64 n | ExecutableTrust \<Rightarrow> True)"

definition fidelity_fits :: "fidelity_result \<Rightarrow> bool" where
  "fidelity_fits r \<longleftrightarrow>
     fits_u64 (fr_reasons r) \<and> (\<forall>x\<in>set (fr_reasons r). reason_fits x)
     \<and> fits_u64 (fr_evidence r) \<and> (\<forall>x\<in>set (fr_evidence r). evidence_fits x)
     \<and> fits_u64 (fr_blocked_requirements r) \<and> (\<forall>x\<in>set (fr_blocked_requirements r). requirement_fits x)
     \<and> fits_u64 (fr_adapter_version r) \<and> (\<forall>s\<in>set_option (fr_harness_version r). fits_u64 s)"

interpretation reason_code_word: prefix_code write_reason reason_fits
  by unfold_locales (auto simp: write_reason_def reason_fits_def frame_simps)

interpretation evidence_code_word: prefix_code write_evidence evidence_fits
  by unfold_locales (auto simp: write_evidence_def evidence_fits_def frame_simps)

interpretation requirement_code_word: prefix_code write_requirement requirement_fits
  by unfold_locales
    (auto simp: write_requirement_def requirement_fits_def frame_simps split: blocked_requirement.splits)

interpretation reasons_code: prefix_code "write_counted write_reason" "\<lambda>xs. fits_u64 xs \<and> (\<forall>x\<in>set xs. reason_fits x)"
  by unfold_locales (use reason_code_word.counted_unique in blast)

interpretation evidences_code: prefix_code "write_counted write_evidence" "\<lambda>xs. fits_u64 xs \<and> (\<forall>x\<in>set xs. evidence_fits x)"
  by unfold_locales (use evidence_code_word.counted_unique in blast)

interpretation requirements_code: prefix_code "write_counted write_requirement" "\<lambda>xs. fits_u64 xs \<and> (\<forall>x\<in>set xs. requirement_fits x)"
  by unfold_locales (use requirement_code_word.counted_unique in blast)

lemmas fidelity_cancel [frame_simps] =
  reasons_code.unique_iff evidences_code.unique_iff requirements_code.unique_iff

lemma tag_byte_inj: "m < 256 \<Longrightarrow> n < 256 \<Longrightarrow> (char_of m :: char) = char_of (n :: nat) \<longleftrightarrow> m = n"
proof
  assume "m < 256" "n < 256" "(char_of m :: char) = char_of n"
  then have "of_char (char_of m :: char) = (of_char (char_of n :: char) :: nat)" by simp
  then show "m = n" using \<open>m < 256\<close> \<open>n < 256\<close> by (simp add: of_char_of)
qed simp

interpretation fidelity_code: prefix_code hash_fidelity fidelity_fits
proof unfold_locales
  fix x y :: fidelity_result and s t
  assume "fidelity_fits x" "fidelity_fits y" "hash_fidelity x @ s = hash_fidelity y @ t"
  then show "x = y \<and> s = t"
    by (auto simp: hash_fidelity_def fidelity_fits_def frame_simps tag_byte_inj fidelity_tag_bound
        intro!: fidelity_result.equality)
qed

lemmas hash_fidelity_cancel [frame_simps] = fidelity_code.unique_iff

end
