(* ===== verification/Ordered_Maps.thy ===== *)
theory Ordered_Maps
  imports Kit_Prelude
begin

text \<open>
  The ordered containers of the program.  A Rust \<open>BTreeMap\<close> is an association list in strictly
  increasing key order and a \<open>BTreeSet\<close> a strictly increasing list, so iterating is walking the list,
  in the order the program sees.  Two interfaces state what the clients rely on; the model's insertions
  are shown to meet them, and the clients' facts about \<open>collect\<close> are proved once from the interfaces.
\<close>

section \<open>The interfaces\<close>

text \<open>A finite map: what a lookup returns after an insertion, and that the contents fix the value.\<close>

locale key_map =
  fixes empty :: "'m"
    and put :: "'k \<Rightarrow> 'v \<Rightarrow> 'm \<Rightarrow> 'm"
    and get :: "'m \<Rightarrow> 'k \<Rightarrow> 'v option"
    and wf :: "'m \<Rightarrow> bool"
  assumes get_empty: "get empty k = None"
    and get_put: "wf m \<Longrightarrow> get (put k v m) = (get m)(k := Some v)"
    and wf_empty: "wf empty"
    and wf_put: "wf m \<Longrightarrow> wf (put k v m)"
    and ext: "wf m \<Longrightarrow> wf m' \<Longrightarrow> get m = get m' \<Longrightarrow> m = m'"
begin

lemma put_commute: "wf m \<Longrightarrow> k \<noteq> k' \<Longrightarrow> put k v (put k' v' m) = put k' v' (put k v m)"
  by (rule ext) (auto simp: wf_put get_put fun_upd_twist)

lemma put_overwrite: "wf m \<Longrightarrow> put k v (put k v' m) = put k v m"
  by (rule ext) (auto simp: wf_put get_put)

lemma put_present: "wf m \<Longrightarrow> get m k = Some v \<Longrightarrow> put k v m = m"
  by (rule ext) (auto simp: wf_put get_put)

lemma wf_collect: "wf m \<Longrightarrow> wf (fold (\<lambda>(k, v). put k v) xs m)"
proof (induction xs arbitrary: m)
  case (Cons x xs)
  then show ?case by (cases x) (simp add: wf_put)
qed simp

lemma get_collect: "wf m \<Longrightarrow> get (fold (\<lambda>(k, v). put k v) xs m) = get m ++ map_of (rev xs)"
proof (induction xs arbitrary: m)
  case (Cons x xs)
  obtain k v where x: "x = (k, v)" by (cases x)
  have "wf (put k v m)" using Cons.prems by (rule wf_put)
  with Cons x have "get (fold (\<lambda>(k, v). put k v) (x # xs) m) = get (put k v m) ++ map_of (rev xs)"
    by simp
  also have "\<dots> = get m ++ map_of (rev (x # xs))"
    using Cons.prems x by (simp add: get_put)
  finally show ?case .
qed simp

end

text \<open>A finite set of elements.\<close>

locale key_set =
  fixes empty :: "'s"
    and add :: "'a \<Rightarrow> 's \<Rightarrow> 's"
    and elems :: "'s \<Rightarrow> 'a set"
    and wf :: "'s \<Rightarrow> bool"
  assumes elems_empty: "elems empty = {}"
    and elems_add: "wf s \<Longrightarrow> elems (add x s) = insert x (elems s)"
    and wf_empty: "wf empty"
    and wf_add: "wf s \<Longrightarrow> wf (add x s)"
    and ext: "wf s \<Longrightarrow> wf s' \<Longrightarrow> elems s = elems s' \<Longrightarrow> s = s'"
begin

lemma wf_collect: "wf s \<Longrightarrow> wf (fold add xs s)"
  by (induction xs arbitrary: s) (simp_all add: wf_add)

lemma elems_collect: "wf s \<Longrightarrow> elems (fold add xs s) = elems s \<union> set xs"
  by (induction xs arbitrary: s) (auto simp: wf_add elems_add)

lemma collect_unique: "set xs = set ys \<Longrightarrow> fold add xs empty = fold add ys empty"
  by (rule ext) (simp_all add: wf_collect wf_empty elems_collect elems_empty)

lemma collect_id: "wf s \<Longrightarrow> set xs = elems s \<Longrightarrow> fold add xs empty = s"
  by (rule ext) (simp_all add: wf_collect wf_empty elems_collect elems_empty)

lemma add_absorb: "wf s \<Longrightarrow> x \<in> elems s \<Longrightarrow> add x s = s"
  by (rule ext) (auto simp: wf_add elems_add)

end

section \<open>\<open>BTreeMap\<close>\<close>

type_synonym ('k, 'v) btree_map = "('k \<times> 'v) list"

definition bt_wf :: "('k::linorder, 'v) btree_map \<Rightarrow> bool" where
  "bt_wf m \<longleftrightarrow> sorted_wrt (<) (map fst m)"

definition bt_get :: "('k, 'v) btree_map \<Rightarrow> 'k \<Rightarrow> 'v option" where
  "bt_get m k = map_of m k"

definition bt_has :: "('k, 'v) btree_map \<Rightarrow> 'k \<Rightarrow> bool" where
  "bt_has m k = (bt_get m k \<noteq> None)"

definition bt_keys :: "('k, 'v) btree_map \<Rightarrow> 'k list" where
  "bt_keys m = map fst m"

definition bt_values :: "('k, 'v) btree_map \<Rightarrow> 'v list" where
  "bt_values m = map snd m"

fun bt_insert :: "'k::linorder \<Rightarrow> 'v \<Rightarrow> ('k, 'v) btree_map \<Rightarrow> ('k, 'v) btree_map" where
  "bt_insert k v [] = [(k, v)]"
| "bt_insert k v ((k', v') # m) =
     (if k < k' then (k, v) # (k', v') # m
      else if k = k' then (k, v) # m
      else (k', v') # bt_insert k v m)"

text \<open>\<open>iter.collect::<BTreeMap<_, _>>()\<close>: a later pair replaces an earlier one with the same key.\<close>

definition bt_collect :: "('k::linorder \<times> 'v) list \<Rightarrow> ('k, 'v) btree_map" where
  "bt_collect xs = fold (\<lambda>(k, v). bt_insert k v) xs []"

definition bt_map :: "('v \<Rightarrow> 'w) \<Rightarrow> ('k, 'v) btree_map \<Rightarrow> ('k, 'w) btree_map" where
  "bt_map f m = map (\<lambda>(k, v). (k, f v)) m"

lemma bt_get_insert: "bt_get (bt_insert k v m) = (bt_get m)(k := Some v)"
  by (induction k v m rule: bt_insert.induct) (auto simp: bt_get_def fun_eq_iff)

lemma set_keys_insert: "set (map fst (bt_insert k v m)) = insert k (set (map fst m))"
  by (induction k v m rule: bt_insert.induct) auto

lemma bt_wf_insert: "bt_wf m \<Longrightarrow> bt_wf (bt_insert k v m)"
proof (induction k v m rule: bt_insert.induct)
  case (2 k v k' v' m)
  then show ?case
    using set_keys_insert[of k v m] by (auto simp: bt_wf_def)
qed (simp add: bt_wf_def)

lemma bt_wf_Nil [simp]: "bt_wf []"
  by (simp add: bt_wf_def)

lemma bt_wf_distinct: "bt_wf m \<Longrightarrow> distinct (map fst m)"
  by (auto simp: bt_wf_def strict_sorted_iff)

lemma bt_get_iff: "bt_wf m \<Longrightarrow> bt_get m k = Some v \<longleftrightarrow> (k, v) \<in> set m"
  by (simp add: bt_get_def bt_wf_distinct)

lemma bt_has_iff: "bt_has m k \<longleftrightarrow> k \<in> set (bt_keys m)"
  by (auto simp: bt_has_def bt_get_def bt_keys_def map_of_eq_None_iff)

lemma bt_ext:
  assumes "bt_wf m" "bt_wf m'" "bt_get m = bt_get m'"
  shows "m = m'"
proof -
  have "set m = set m'"
    using assms by (auto simp: bt_get_iff[symmetric])
  moreover have "sorted (map fst m)" "sorted (map fst m')" "distinct (map fst m)" "distinct (map fst m')"
    using assms by (auto simp: bt_wf_def strict_sorted_iff)
  ultimately show ?thesis
    by (intro map_sorted_distinct_set_unique[of fst]) (simp_all add: distinct_map)
qed

interpretation btm: key_map "[]" bt_insert bt_get bt_wf
  by unfold_locales (auto simp: bt_get_insert bt_wf_insert bt_ext, simp add: bt_get_def)

lemma bt_wf_collect [simp]: "bt_wf (bt_collect xs)"
  by (simp add: bt_collect_def btm.wf_collect)

lemma bt_get_collect: "bt_get (bt_collect xs) = map_of (rev xs)"
  by (simp add: bt_collect_def btm.get_collect) (simp add: fun_eq_iff bt_get_def map_add_def split: option.split)

lemma bt_collect_id: "bt_wf m \<Longrightarrow> bt_collect m = m"
proof (rule bt_ext)
  assume "bt_wf m"
  then have "map_of (rev m) = map_of m"
    by (subst map_of_inject_set) (simp_all add: bt_wf_distinct rev_map[symmetric])
  then show "bt_get (bt_collect m) = bt_get m"
    by (simp add: bt_get_collect bt_get_def fun_eq_iff)
qed simp_all

lemma bt_keys_map [simp]: "bt_keys (bt_map f m) = bt_keys m"
  by (induction m) (auto simp: bt_keys_def bt_map_def)

lemma bt_wf_map [simp]: "bt_wf (bt_map f m) = bt_wf m"
  using bt_keys_map[of f m] by (simp add: bt_wf_def bt_keys_def)

lemma bt_get_map: "bt_get (bt_map f m) k = map_option f (bt_get m k)"
  by (induction m) (auto simp: bt_get_def bt_map_def)

lemma bt_has_map [simp]: "bt_has (bt_map f m) k = bt_has m k"
  by (simp add: bt_has_iff)

section \<open>\<open>BTreeSet\<close>\<close>

type_synonym 'a btree_set = "'a list"

definition bs_wf :: "'a::linorder btree_set \<Rightarrow> bool" where
  "bs_wf s \<longleftrightarrow> sorted_wrt (<) s"

fun bs_insert :: "'a::linorder \<Rightarrow> 'a btree_set \<Rightarrow> 'a btree_set" where
  "bs_insert x [] = [x]"
| "bs_insert x (y # s) = (if x < y then x # y # s else if x = y then y # s else y # bs_insert x s)"

definition bs_collect :: "'a::linorder list \<Rightarrow> 'a btree_set" where
  "bs_collect xs = fold bs_insert xs []"

definition bs_has :: "'a btree_set \<Rightarrow> 'a \<Rightarrow> bool" where
  "bs_has s x \<longleftrightarrow> x \<in> set s"

definition bs_remove :: "'a \<Rightarrow> 'a btree_set \<Rightarrow> 'a btree_set" where
  "bs_remove x s = filter (\<lambda>y. y \<noteq> x) s"

text \<open>\<open>s.extend(xs)\<close> and \<open>a.difference(&b)\<close>.\<close>

definition bs_extend :: "'a::linorder btree_set \<Rightarrow> 'a list \<Rightarrow> 'a btree_set" where
  "bs_extend s xs = fold bs_insert xs s"

definition bs_difference :: "'a btree_set \<Rightarrow> 'a btree_set \<Rightarrow> 'a btree_set" where
  "bs_difference a b = filter (\<lambda>x. \<not> bs_has b x) a"

lemma set_bs_insert [simp]: "set (bs_insert x s) = insert x (set s)"
  by (induction x s rule: bs_insert.induct) auto

lemma bs_wf_insert: "bs_wf s \<Longrightarrow> bs_wf (bs_insert x s)"
  by (induction x s rule: bs_insert.induct) (auto simp: bs_wf_def)

lemma bs_wf_Nil [simp]: "bs_wf []"
  by (simp add: bs_wf_def)

lemma bs_ext: "bs_wf s \<Longrightarrow> bs_wf t \<Longrightarrow> set s = set t \<Longrightarrow> s = t"
  by (simp add: bs_wf_def strict_sorted_equal)

interpretation bts: key_set "[]" bs_insert set bs_wf
  by unfold_locales (auto simp: bs_wf_insert bs_ext)

lemma bs_wf_collect [simp]: "bs_wf (bs_collect xs)"
  by (simp add: bs_collect_def bts.wf_collect)

lemma set_bs_collect [simp]: "set (bs_collect xs) = set xs"
  by (simp add: bs_collect_def bts.elems_collect)

lemma set_bs_extend [simp]: "set (bs_extend s xs) = set s \<union> set xs"
  by (induction xs arbitrary: s) (auto simp: bs_extend_def)

lemma bs_wf_extend: "bs_wf s \<Longrightarrow> bs_wf (bs_extend s xs)"
  by (simp add: bs_extend_def bts.wf_collect)

lemma bs_collect_cong: "set xs = set ys \<Longrightarrow> bs_collect xs = bs_collect ys"
  unfolding bs_collect_def by (rule bts.collect_unique)

lemma bs_collect_id: "bs_wf s \<Longrightarrow> set xs = set s \<Longrightarrow> bs_collect xs = s"
  unfolding bs_collect_def by (rule bts.collect_id)

lemma bs_has_iff [simp]: "bs_has s x \<longleftrightarrow> x \<in> set s"
  by (simp add: bs_has_def)

lemma bs_wf_filter: "bs_wf s \<Longrightarrow> bs_wf (filter P s)"
  by (simp add: bs_wf_def sorted_wrt_filter)

lemma set_bs_difference [simp]: "set (bs_difference a b) = set a - set b"
  by (auto simp: bs_difference_def)

lemma set_bs_remove [simp]: "set (bs_remove x s) = set s - {x}"
  by (auto simp: bs_remove_def)

lemma bs_wf_keys: "bt_wf m \<Longrightarrow> bs_wf (bt_keys m)"
  by (simp add: bt_wf_def bs_wf_def bt_keys_def)

lemma bs_wf_distinct: "bs_wf s \<Longrightarrow> distinct s"
  by (simp add: bs_wf_def strict_sorted_iff)

lemma bs_collect_filter: "bs_wf s \<Longrightarrow> bs_collect (filter P s) = filter P s"
  by (rule bs_collect_id) (simp_all add: bs_wf_filter)

end
