(* ===== verification/Assets.thy ===== *)
theory Assets
  imports Fidelity Ordered_Maps
begin

text \<open>
  \<open>kitrove-model/src/asset.rs\<close>: assets, packs, the provenance of their components, and the content
  hashes that identify their revisions.  \<open>H\<close> is the hexadecimal BLAKE3 digest; a hashing routine is the
  bytes it feeds to the hasher (its \<open>preimage\<close>) and the digest of those bytes.
\<close>

section \<open>Data\<close>

datatype asset_kind = Skill | Instruction | Agent | Command | Hook | Mcp | Plugin | Extension | PackKind

definition asset_kind_tag :: "asset_kind \<Rightarrow> nat" where
  "asset_kind_tag k = (case k of Skill \<Rightarrow> 0 | Instruction \<Rightarrow> 1 | Agent \<Rightarrow> 2 | Command \<Rightarrow> 3 | Hook \<Rightarrow> 4
     | Mcp \<Rightarrow> 5 | Plugin \<Rightarrow> 6 | Extension \<Rightarrow> 7 | PackKind \<Rightarrow> 8)"

lemma asset_kind_tag_inj [simp]: "asset_kind_tag a = asset_kind_tag b \<longleftrightarrow> a = b"
  by (cases a; cases b) (simp_all add: asset_kind_tag_def)

lemma asset_kind_tag_bound: "asset_kind_tag k < 256"
  by (cases k) (simp_all add: asset_kind_tag_def)

lemma content_class_tag_bound: "content_class_tag c < 256"
  by (cases c) (simp_all add: content_class_tag_def)

datatype source =
    AuthoredPack
  | HarnessSource harness_id string
  | LocalSource string
  | GitSource string "string option"

record resolved_source =
  rs_source :: source
  rs_revision :: string
  rs_content_hash :: string

record component_provenance =
  cp_source :: source
  cp_revision :: string
  cp_exact_source_hash :: string
  cp_origin_scope :: "harness_scope option"

record portable_content =
  pc_format :: string
  pc_root :: string
  pc_object_hash :: string
  pc_provenance :: string

record native_variant =
  nv_harness :: harness_id
  nv_format :: string
  nv_root :: string
  nv_object_hash :: string
  nv_content_class :: content_class
  nv_provenance :: string

record asset =
  asset_id :: string
  asset_kind_of :: asset_kind
  asset_content_hash :: string
  asset_provenance :: "(string, component_provenance) btree_map"
  asset_portable :: "portable_content option"
  asset_native_variants :: "(harness_id, native_variant) btree_map"
  asset_compatibility :: "(harness_id, fidelity_result) btree_map"
  asset_content_class :: content_class
  asset_required_bindings :: "string btree_set"

record pack =
  pack_id :: string
  pack_source :: source
  pack_revision :: string
  pack_exact_source_hash :: string
  pack_content_hash :: string
  pack_members :: "(string, string) btree_map"
  pack_compatibility :: "(harness_id, fidelity_result) btree_map"
  pack_content_class :: content_class
  pack_required_bindings :: "string btree_set"

record locked_asset =
  la_id :: string
  la_kind :: asset_kind
  la_content_hash :: string
  la_portable_provenance :: "string option"
  la_native_provenance :: "(harness_id, string) btree_map"
  la_provenance :: "(string, component_provenance) btree_map"
  la_compatibility :: "(harness_id, fidelity_result) btree_map"

record locked_pack =
  lp_id :: string
  lp_resolved_source :: resolved_source
  lp_content_hash :: string
  lp_members :: "(string, string) btree_map"
  lp_compatibility :: "(harness_id, fidelity_result) btree_map"

section \<open>Hashing routines\<close>

definition hash_source :: "source \<Rightarrow> string" where
  "hash_source s =
     (case s of
        AuthoredPack \<Rightarrow> [CHR 0x03]
      | HarnessSource harness origin \<Rightarrow>
          [CHR 0x00] @ write_text_record (harness_id_as_str harness) @ write_text_record origin
      | LocalSource path \<Rightarrow> [CHR 0x01] @ write_text_record path
      | GitSource repository subdirectory \<Rightarrow>
          [CHR 0x02] @ write_text_record repository @ write_optional_text subdirectory)"

definition component_provenance_new ::
  "source \<Rightarrow> string \<Rightarrow> string \<Rightarrow> harness_scope option \<Rightarrow> component_provenance result" where
  "component_provenance_new src revision exact origin_scope =
     (let record = \<lparr>cp_source = src, cp_revision = revision, cp_exact_source_hash = exact,
                    cp_origin_scope = origin_scope\<rparr>
      in case (src, origin_scope) of
           (AuthoredPack, _) \<Rightarrow> Err ''provenance.authored_pack_not_component''
         | (HarnessSource _ _, None) \<Rightarrow> Err ''provenance.origin_scope_required''
         | (LocalSource _, Some _) \<Rightarrow> Err ''provenance.origin_scope_unexpected''
         | (GitSource _ _, Some _) \<Rightarrow> Err ''provenance.origin_scope_unexpected''
         | _ \<Rightarrow> Ok record)"

definition provenance_preimage :: "component_provenance \<Rightarrow> string" where
  "provenance_preimage p =
     ''kitrove-component-provenance-v1'' @ [CHR 0x00]
     @ hash_source (cp_source p)
     @ write_text_record (cp_revision p)
     @ write_text_record (cp_exact_source_hash p)
     @ (case cp_origin_scope p of
          Some scope \<Rightarrow> [CHR 0x01] @ write_text_record (harness_scope_as_str scope)
        | None \<Rightarrow> [CHR 0x00])"

definition provenance_id :: "(string \<Rightarrow> string) \<Rightarrow> component_provenance \<Rightarrow> string" where
  "provenance_id H p = ''provenance:blake3:'' @ H (provenance_preimage p)"

definition write_provenance_entry ::
  "(string \<Rightarrow> string) \<Rightarrow> string \<times> component_provenance \<Rightarrow> string" where
  "write_provenance_entry H e = write_text_record (fst e) @ write_text_record (provenance_id H (snd e))"

definition write_portable :: "portable_content option \<Rightarrow> string" where
  "write_portable m =
     (case m of
        Some p \<Rightarrow> [CHR 0x01] @ write_text_record (pc_format p) @ write_text_record (pc_root p)
                  @ write_text_record (pc_object_hash p) @ write_text_record (pc_provenance p)
      | None \<Rightarrow> [CHR 0x00])"

definition write_native_entry :: "harness_id \<times> native_variant \<Rightarrow> string" where
  "write_native_entry e =
     write_text_record (harness_id_as_str (fst e))
     @ write_text_record (harness_id_as_str (nv_harness (snd e)))
     @ write_text_record (nv_format (snd e))
     @ write_text_record (nv_root (snd e))
     @ write_text_record (nv_object_hash (snd e))
     @ [char_of (content_class_tag (nv_content_class (snd e)))]
     @ write_text_record (nv_provenance (snd e))"

definition write_compatibility_entry :: "harness_id \<times> fidelity_result \<Rightarrow> string" where
  "write_compatibility_entry e = write_text_record (harness_id_as_str (fst e)) @ hash_fidelity (snd e)"

definition asset_preimage :: "(string \<Rightarrow> string) \<Rightarrow> asset \<Rightarrow> string" where
  "asset_preimage H a =
     ''kitrove-asset-revision-v3'' @ [CHR 0x00]
     @ write_text_record (asset_id a)
     @ [char_of (asset_kind_tag (asset_kind_of a))]
     @ write_counted (write_provenance_entry H) (asset_provenance a)
     @ write_portable (asset_portable a)
     @ write_counted write_native_entry (asset_native_variants a)
     @ write_counted write_compatibility_entry (asset_compatibility a)
     @ [char_of (content_class_tag (asset_content_class a))]
     @ write_counted write_text_record (asset_required_bindings a)"

definition asset_expected_content_hash :: "(string \<Rightarrow> string) \<Rightarrow> asset \<Rightarrow> string" where
  "asset_expected_content_hash H a = ''blake3:'' @ H (asset_preimage H a)"

definition asset_refresh_content_hash :: "(string \<Rightarrow> string) \<Rightarrow> asset \<Rightarrow> asset" where
  "asset_refresh_content_hash H a = a\<lparr>asset_content_hash := asset_expected_content_hash H a\<rparr>"

definition authored_source_resolution :: "(string \<Rightarrow> string) \<Rightarrow> string \<Rightarrow> string \<times> string" where
  "authored_source_resolution H i =
     (''authored-pack-v1'',
      ''blake3:'' @ H (''kitrove-authored-pack-declaration-v1'' @ [CHR 0x00] @ write_text_record i))"

definition pack_preimage :: "pack \<Rightarrow> string" where
  "pack_preimage p =
     ''kitrove-pack-revision-v1'' @ [CHR 0x00]
     @ write_text_record (pack_id p)
     @ hash_source (pack_source p)
     @ write_text_record (pack_revision p)
     @ write_text_record (pack_exact_source_hash p)
     @ write_counted write_text_pair (pack_members p)
     @ write_counted write_compatibility_entry (pack_compatibility p)
     @ [char_of (content_class_tag (pack_content_class p))]
     @ write_counted write_text_record (pack_required_bindings p)"

definition pack_expected_content_hash :: "(string \<Rightarrow> string) \<Rightarrow> pack \<Rightarrow> string" where
  "pack_expected_content_hash H p = ''blake3:'' @ H (pack_preimage p)"

definition pack_refresh_content_hash :: "(string \<Rightarrow> string) \<Rightarrow> pack \<Rightarrow> pack" where
  "pack_refresh_content_hash H p = p\<lparr>pack_content_hash := pack_expected_content_hash H p\<rparr>"

section \<open>Constructed provenance\<close>

text \<open>A value of \<open>ComponentProvenance\<close>: its fields are private, so it came from the constructor.\<close>

definition wf_provenance :: "component_provenance \<Rightarrow> bool" where
  "wf_provenance p \<longleftrightarrow>
     component_provenance_new (cp_source p) (cp_revision p) (cp_exact_source_hash p) (cp_origin_scope p) = Ok p"

lemma wf_provenance_iff:
  "wf_provenance p \<longleftrightarrow> cp_source p \<noteq> AuthoredPack
     \<and> (cp_origin_scope p \<noteq> None \<longleftrightarrow> (\<exists>h o'. cp_source p = HarnessSource h o'))"
  by (cases p) (auto simp: wf_provenance_def component_provenance_new_def Let_def split: source.splits option.splits)

lemma component_provenance_new_Ok:
  "component_provenance_new s r x o' = Ok p \<Longrightarrow>
     wf_provenance p \<and> p = \<lparr>cp_source = s, cp_revision = r, cp_exact_source_hash = x, cp_origin_scope = o'\<rparr>"
  by (auto simp: wf_provenance_def component_provenance_new_def Let_def split: source.splits option.splits)

section \<open>The byte streams determine the records\<close>

definition harness_fits :: "harness_id \<Rightarrow> bool" where
  "harness_fits h \<longleftrightarrow> valid_harness_id h \<and> fits_u64 (harness_id_as_str h)"

definition source_fits :: "source \<Rightarrow> bool" where
  "source_fits s \<longleftrightarrow>
     (case s of AuthoredPack \<Rightarrow> True
      | HarnessSource h o' \<Rightarrow> harness_fits h \<and> fits_u64 o'
      | LocalSource p \<Rightarrow> fits_u64 p
      | GitSource r d \<Rightarrow> fits_u64 r \<and> (\<forall>x\<in>set_option d. fits_u64 x))"

definition provenance_fits :: "component_provenance \<Rightarrow> bool" where
  "provenance_fits p \<longleftrightarrow>
     source_fits (cp_source p) \<and> fits_u64 (cp_revision p) \<and> fits_u64 (cp_exact_source_hash p)"

lemma harness_cancel [frame_simps]:
  "harness_fits h \<Longrightarrow> harness_fits k \<Longrightarrow> harness_id_as_str h = harness_id_as_str k \<longleftrightarrow> h = k"
  by (auto simp: harness_fits_def dest: harness_id_as_str_inj)

lemma harness_fits_text [frame_simps]: "harness_fits h \<Longrightarrow> fits_u64 (harness_id_as_str h)"
  by (simp add: harness_fits_def)

lemma scope_fits [simp]: "fits_u64 (harness_scope_as_str s)"
  by (cases s) (simp_all add: harness_scope_as_str_def fits_u64_def)

interpretation source_code: prefix_code hash_source source_fits
  by unfold_locales (auto simp: hash_source_def source_fits_def frame_simps split: source.splits)

lemmas source_cancel [frame_simps] = source_code.unique_iff

lemma provenance_preimage_inj:
  assumes "provenance_fits p" "provenance_fits q" "provenance_preimage p = provenance_preimage q"
  shows "p = q"
  using assms
  by (auto simp: provenance_preimage_def provenance_fits_def frame_simps
      intro!: component_provenance.equality split: option.splits)

definition portable_fits :: "portable_content option \<Rightarrow> bool" where
  "portable_fits m \<longleftrightarrow>
     (\<forall>p\<in>set_option m. fits_u64 (pc_format p) \<and> fits_u64 (pc_root p) \<and> fits_u64 (pc_object_hash p)
        \<and> fits_u64 (pc_provenance p))"

definition native_fits :: "harness_id \<times> native_variant \<Rightarrow> bool" where
  "native_fits e \<longleftrightarrow> harness_fits (fst e) \<and> harness_fits (nv_harness (snd e)) \<and> fits_u64 (nv_format (snd e))
     \<and> fits_u64 (nv_root (snd e)) \<and> fits_u64 (nv_object_hash (snd e)) \<and> fits_u64 (nv_provenance (snd e))"

definition compatibility_fits :: "harness_id \<times> fidelity_result \<Rightarrow> bool" where
  "compatibility_fits e \<longleftrightarrow> harness_fits (fst e) \<and> fidelity_fits (snd e)"

interpretation portable_code: prefix_code write_portable portable_fits
  by unfold_locales (auto simp: write_portable_def portable_fits_def frame_simps
      intro!: portable_content.equality split: option.splits)

interpretation native_code: prefix_code write_native_entry native_fits
  by unfold_locales (auto simp: write_native_entry_def native_fits_def frame_simps tag_byte_inj
      content_class_tag_bound prod_eq_iff intro!: native_variant.equality)

interpretation compatibility_code: prefix_code write_compatibility_entry compatibility_fits
  by unfold_locales (auto simp: write_compatibility_entry_def compatibility_fits_def frame_simps prod_eq_iff)

interpretation natives_code: prefix_code "write_counted write_native_entry"
    "\<lambda>xs. fits_u64 xs \<and> (\<forall>x\<in>set xs. native_fits x)"
  by unfold_locales (use native_code.counted_unique in blast)

interpretation compatibilities_code: prefix_code "write_counted write_compatibility_entry"
    "\<lambda>xs. fits_u64 xs \<and> (\<forall>x\<in>set xs. compatibility_fits x)"
  by unfold_locales (use compatibility_code.counted_unique in blast)

lemmas asset_cancel [frame_simps] =
  portable_code.unique_iff natives_code.unique_iff compatibilities_code.unique_iff

text \<open>
  The provenance map is written through the identities of its records, so its code is self-delimiting
  when no two of the records it may hold collide.
\<close>

definition provenance_entry_fits ::
  "(string \<Rightarrow> string) \<Rightarrow> component_provenance set \<Rightarrow> string \<times> component_provenance \<Rightarrow> bool" where
  "provenance_entry_fits H S e \<longleftrightarrow> snd e \<in> S \<and> fits_u64 (fst e) \<and> provenance_fits (snd e)
     \<and> fits_u64 (provenance_id H (snd e))"

lemma provenance_entry_unique:
  assumes "inj_on H (provenance_preimage ` S)" "provenance_entry_fits H S d" "provenance_entry_fits H S e"
    and "write_provenance_entry H d @ s = write_provenance_entry H e @ t"
  shows "d = e \<and> s = t"
proof -
  have "fst d = fst e \<and> provenance_id H (snd d) = provenance_id H (snd e) \<and> s = t"
    using assms(2-4) by (simp add: write_provenance_entry_def provenance_entry_fits_def frame_simps)
  moreover have "provenance_preimage (snd d) = provenance_preimage (snd e)"
    using calculation assms(1-3) unfolding inj_on_def provenance_entry_fits_def provenance_id_def by blast
  then have "snd d = snd e"
    using provenance_preimage_inj assms(2,3) by (auto simp: provenance_entry_fits_def)
  ultimately show ?thesis by (simp add: prod_eq_iff)
qed

definition asset_fits :: "(string \<Rightarrow> string) \<Rightarrow> asset \<Rightarrow> bool" where
  "asset_fits H a \<longleftrightarrow>
     fits_u64 (asset_id a)
     \<and> fits_u64 (asset_provenance a)
     \<and> (\<forall>e\<in>set (asset_provenance a). fits_u64 (fst e) \<and> provenance_fits (snd e) \<and> fits_u64 (provenance_id H (snd e)))
     \<and> portable_fits (asset_portable a)
     \<and> fits_u64 (asset_native_variants a) \<and> (\<forall>e\<in>set (asset_native_variants a). native_fits e)
     \<and> fits_u64 (asset_compatibility a) \<and> (\<forall>e\<in>set (asset_compatibility a). compatibility_fits e)
     \<and> fits_u64 (asset_required_bindings a) \<and> (\<forall>x\<in>set (asset_required_bindings a). fits_u64 x)"

definition pack_fits :: "pack \<Rightarrow> bool" where
  "pack_fits p \<longleftrightarrow>
     fits_u64 (pack_id p) \<and> source_fits (pack_source p) \<and> fits_u64 (pack_revision p)
     \<and> fits_u64 (pack_exact_source_hash p)
     \<and> fits_u64 (pack_members p) \<and> (\<forall>e\<in>set (pack_members p). fits_u64 (fst e) \<and> fits_u64 (snd e))
     \<and> fits_u64 (pack_compatibility p) \<and> (\<forall>e\<in>set (pack_compatibility p). compatibility_fits e)
     \<and> fits_u64 (pack_required_bindings p) \<and> (\<forall>x\<in>set (pack_required_bindings p). fits_u64 x)"

text \<open>The byte strings that hashing an asset feeds to the hash function.\<close>

definition asset_preimages :: "(string \<Rightarrow> string) \<Rightarrow> asset \<Rightarrow> string set" where
  "asset_preimages H a = insert (asset_preimage H a) (provenance_preimage ` snd ` set (asset_provenance a))"

definition asset_tail :: "asset \<Rightarrow> string" where
  "asset_tail a =
     write_portable (asset_portable a)
     @ write_counted write_native_entry (asset_native_variants a)
     @ write_counted write_compatibility_entry (asset_compatibility a)
     @ [char_of (content_class_tag (asset_content_class a))]
     @ write_counted write_text_record (asset_required_bindings a)"

lemma asset_tail_inj:
  assumes "asset_fits H a" "asset_fits H b" "asset_tail a = asset_tail b"
  shows "asset_portable a = asset_portable b \<and> asset_native_variants a = asset_native_variants b
    \<and> asset_compatibility a = asset_compatibility b \<and> asset_content_class a = asset_content_class b
    \<and> asset_required_bindings a = asset_required_bindings b"
  using assms
  by (simp add: asset_tail_def asset_fits_def frame_simps tag_byte_inj content_class_tag_bound)

lemma asset_preimage_inj:
  assumes ab: "asset_fits H a" "asset_fits H b"
    and inj: "inj_on H (provenance_preimage ` (snd ` set (asset_provenance a) \<union> snd ` set (asset_provenance b)))"
    and eq: "asset_preimage H a = asset_preimage H b"
  shows "a\<lparr>asset_content_hash := h\<rparr> = b\<lparr>asset_content_hash := h\<rparr>"
proof -
  let ?S = "snd ` set (asset_provenance a) \<union> snd ` set (asset_provenance b)"
  have code: "prefix_code (write_provenance_entry H) (provenance_entry_fits H ?S)"
    by (rule prefix_code.intro) (rule provenance_entry_unique[OF inj])
  have fits: "\<forall>e\<in>set (asset_provenance a). provenance_entry_fits H ?S e"
    "\<forall>e\<in>set (asset_provenance b). provenance_entry_fits H ?S e"
    using ab by (auto simp: asset_fits_def provenance_entry_fits_def)
  have parts: "asset_id a = asset_id b \<and> asset_kind_of a = asset_kind_of b
      \<and> write_counted (write_provenance_entry H) (asset_provenance a) @ asset_tail a
        = write_counted (write_provenance_entry H) (asset_provenance b) @ asset_tail b"
    using ab eq
    by (simp add: asset_preimage_def asset_tail_def asset_fits_def frame_simps tag_byte_inj asset_kind_tag_bound)
  have "fits_u64 (asset_provenance a)" "fits_u64 (asset_provenance b)"
    using ab by (simp_all add: asset_fits_def)
  from prefix_code.counted_unique[OF code this fits parts[THEN conjunct2, THEN conjunct2]]
  have "asset_provenance a = asset_provenance b \<and> asset_tail a = asset_tail b" .
  with parts asset_tail_inj[OF ab] show ?thesis
    by (auto intro!: asset.equality)
qed

lemma pack_preimage_inj:
  assumes "pack_fits p" "pack_fits q" "pack_preimage p = pack_preimage q"
  shows "p\<lparr>pack_content_hash := h\<rparr> = q\<lparr>pack_content_hash := h\<rparr>"
  using assms
  by (auto simp: pack_preimage_def pack_fits_def frame_simps tag_byte_inj content_class_tag_bound
      intro!: pack.equality)

section \<open>Properties\<close>

text \<open>The content hash of an asset identifies its complete revision: if the hash function has no
  collision among the byte strings hashed for two assets, equal content hashes mean that the assets
  agree in every field but the stored hash, provenance records included.\<close>

theorem asset_hash_identifies_revision:
  assumes "asset_fits H a" "asset_fits H b" "collision_free H (asset_preimages H a \<union> asset_preimages H b)"
    and "asset_expected_content_hash H a = asset_expected_content_hash H b"
  shows "a\<lparr>asset_content_hash := h\<rparr> = b\<lparr>asset_content_hash := h\<rparr>"
proof -
  have inj: "inj_on H (asset_preimages H a \<union> asset_preimages H b)" using assms(3) by (simp add: collision_free_def)
  have "asset_preimage H a = asset_preimage H b"
    by (rule inj_onD[OF inj]) (use assms(4) in \<open>simp_all add: asset_expected_content_hash_def asset_preimages_def\<close>)
  moreover have "inj_on H (provenance_preimage ` (snd ` set (asset_provenance a) \<union> snd ` set (asset_provenance b)))"
    by (rule inj_on_subset[OF inj]) (auto simp: asset_preimages_def)
  ultimately show ?thesis using asset_preimage_inj assms(1,2) by blast
qed

definition sample_provenance :: component_provenance where
  "sample_provenance = \<lparr>cp_source = LocalSource ''kit'', cp_revision = ''r1'', cp_exact_source_hash = ''h'',
     cp_origin_scope = None\<rparr>"

definition sample_asset :: "string \<Rightarrow> asset" where
  "sample_asset hash = \<lparr>asset_id = ''lint'', asset_kind_of = Skill, asset_content_hash = hash,
     asset_provenance = [(provenance_id (\<lambda>b. b) sample_provenance, sample_provenance)],
     asset_portable = Some \<lparr>pc_format = ''skill'', pc_root = ''lint'', pc_object_hash = ''o'',
       pc_provenance = provenance_id (\<lambda>b. b) sample_provenance\<rparr>,
     asset_native_variants = [], asset_compatibility = [], asset_content_class = AgentActive,
     asset_required_bindings = [''token'']\<rparr>"

theorem asset_hash_identifies_revision_witness:
  "(sample_asset ''x'')\<lparr>asset_content_hash := []\<rparr> = (sample_asset ''y'')\<lparr>asset_content_hash := []\<rparr>"
proof (rule asset_hash_identifies_revision)
  have len: "length (provenance_id (\<lambda>b. b) sample_provenance) < 2 ^ 64"
    by (simp add: provenance_id_def provenance_preimage_def sample_provenance_def hash_source_def
        write_text_record_def)
  show "asset_fits (\<lambda>b. b) (sample_asset ''x'')" "asset_fits (\<lambda>b. b) (sample_asset ''y'')"
    using len by (simp_all add: asset_fits_def sample_asset_def fits_u64_def portable_fits_def provenance_fits_def
        source_fits_def, simp_all add: sample_provenance_def fits_u64_def)
  show "collision_free (\<lambda>b. b) (asset_preimages (\<lambda>b. b) (sample_asset ''x'') \<union> asset_preimages (\<lambda>b. b) (sample_asset ''y''))"
    by (simp add: collision_free_def)
  show "asset_expected_content_hash (\<lambda>b. b) (sample_asset ''x'') = asset_expected_content_hash (\<lambda>b. b) (sample_asset ''y'')"
    by (simp add: asset_expected_content_hash_def asset_preimage_def sample_asset_def)
qed

text \<open>The content hash of a pack identifies its complete aggregate: source, exact member revisions,
  compatibility, class and bindings.\<close>

theorem pack_hash_identifies_revision:
  assumes "pack_fits p" "pack_fits q" "collision_free H {pack_preimage p, pack_preimage q}"
    and "pack_expected_content_hash H p = pack_expected_content_hash H q"
  shows "p\<lparr>pack_content_hash := h\<rparr> = q\<lparr>pack_content_hash := h\<rparr>"
proof -
  have "pack_preimage p = pack_preimage q"
    by (rule inj_onD[of H "{pack_preimage p, pack_preimage q}"])
      (use assms(3,4) in \<open>simp_all add: collision_free_def pack_expected_content_hash_def\<close>)
  then show ?thesis using pack_preimage_inj assms(1,2) by blast
qed

definition sample_pack :: "string \<Rightarrow> pack" where
  "sample_pack hash = \<lparr>pack_id = ''tools'', pack_source = GitSource ''https://host/kit'' (Some ''packs''),
     pack_revision = ''r1'', pack_exact_source_hash = ''h'', pack_content_hash = hash,
     pack_members = [(''lint'', ''m'')], pack_compatibility = [], pack_content_class = DataOnly,
     pack_required_bindings = []\<rparr>"

theorem pack_hash_identifies_revision_witness:
  "(sample_pack ''x'')\<lparr>pack_content_hash := []\<rparr> = (sample_pack ''y'')\<lparr>pack_content_hash := []\<rparr>"
  by (rule pack_hash_identifies_revision[where H = "\<lambda>b. b"])
    (simp_all add: pack_fits_def sample_pack_def fits_u64_def source_fits_def collision_free_def
      pack_expected_content_hash_def pack_preimage_def)

end
