(* ===== verification/Manifests.thy ===== *)
theory Manifests
  imports Assets
begin

text \<open>
  \<open>kitrove-model/src/portable.rs\<close>: the portable environment manifest, the generated lockfile, and the
  derivation of a pack's aggregate fields from the exact revisions of its members.
\<close>

section \<open>Roots\<close>

definition MAX_PACK_MEMBER_EDGES :: nat where
  "MAX_PACK_MEMBER_EDGES = 4096"

definition MAX_PACK_GRAPH_DEPTH :: nat where
  "MAX_PACK_GRAPH_DEPTH = 64"

datatype schema_version = V1

definition schema_version_deserialize :: "nat \<Rightarrow> schema_version result" where
  "schema_version_deserialize n = (if n = 1 then Ok V1 else Err ''unsupported schema version'')"

record profile =
  profile_id :: string
  profile_extends :: "string option"
  profile_assets :: "string btree_set"
  profile_targets :: "harness_id btree_set"

record environment_manifest =
  em_schema_version :: schema_version
  em_assets :: "(string, asset) btree_map"
  em_packs :: "(string, pack) btree_map"
  em_profiles :: "(string, profile) btree_map"
  em_required_bindings :: "string btree_set"

record lockfile =
  lf_schema_version :: schema_version
  lf_assets :: "(string, locked_asset) btree_map"
  lf_packs :: "(string, locked_pack) btree_map"

section \<open>Aggregate fields of a pack\<close>

record pack_member_metadata =
  pm_id :: string
  pm_revision :: string
  pm_compatibility :: "(harness_id, fidelity_result) btree_map"
  pm_content_class :: content_class
  pm_required_bindings :: "string btree_set"

record derived_pack_fields =
  df_compatibility :: "(harness_id, fidelity_result) btree_map"
  df_content_class :: content_class
  df_required_bindings :: "string btree_set"

record harness_aggregate =
  ha_selected :: fidelity
  ha_missing :: bool
  ha_blocked :: "blocked_requirement btree_set"
  ha_versions :: "string option list"

text \<open>The body of the loop over the members, for one harness.\<close>

definition aggregate_member :: "harness_id \<Rightarrow> harness_aggregate \<Rightarrow> pack_member_metadata \<Rightarrow> harness_aggregate" where
  "aggregate_member harness s member =
     (case bt_get (pm_compatibility member) harness of
        Some r \<Rightarrow> \<lparr>ha_selected = max (ha_selected s) (fr_fidelity r), ha_missing = ha_missing s,
                   ha_blocked = bs_extend (ha_blocked s) (fr_blocked_requirements r),
                   ha_versions = ha_versions s @ [fr_harness_version r]\<rparr>
      | None \<Rightarrow> \<lparr>ha_selected = max (ha_selected s) FUnsupported, ha_missing = True,
                 ha_blocked = ha_blocked s, ha_versions = ha_versions s @ [None]\<rparr>)"

definition aggregate_harness :: "harness_id \<Rightarrow> pack_member_metadata list \<Rightarrow> harness_aggregate" where
  "aggregate_harness harness members =
     foldl (aggregate_member harness)
       \<lparr>ha_selected = FNative, ha_missing = False, ha_blocked = [], ha_versions = []\<rparr> members"

text \<open>\<open>first().cloned().filter(all equal).flatten()\<close>: the version all members agree on.\<close>

definition common_version :: "string option list \<Rightarrow> string option" where
  "common_version versions =
     (case versions of [] \<Rightarrow> None
      | first # _ \<Rightarrow> if list_all (\<lambda>candidate. candidate = first) versions then first else None)"

definition pack_aggregate_adapter :: string where
  "pack_aggregate_adapter = ''kitrove-pack-aggregate/v1''"

definition derive_harness_result :: "harness_id \<Rightarrow> pack_member_metadata list \<Rightarrow> fidelity_result result" where
  "derive_harness_result harness members =
     (let s = aggregate_harness harness members;
          harness_version = common_version (ha_versions s);
          evidence = [\<lparr>evidence_kind = ''pack.aggregate'',
                       evidence_detail = show_nat (length members) @ '' exact member revisions''\<rparr>];
          inexact = (\<lambda>code message blocked.
             fidelity_result_new (ha_selected s) [\<lparr>reason_code = code, reason_message = message\<rparr>]
               evidence blocked pack_aggregate_adapter harness_version)
      in case ha_selected s of
           FPartial \<Rightarrow> inexact ''pack.member_partial''
             ''at least one pack member has partial target fidelity'' []
         | FUnsupported \<Rightarrow>
             inexact (if ha_missing s then ''pack.member_fidelity_missing'' else ''pack.member_unsupported'')
               (if ha_missing s then ''at least one pack member lacks target fidelity evidence''
                else ''at least one pack member is unsupported on the target'') []
         | FBlocked \<Rightarrow> inexact ''pack.member_blocked''
             ''at least one pack member is blocked by a local requirement'' (ha_blocked s)
         | _ \<Rightarrow> fidelity_result_exact (ha_selected s) evidence pack_aggregate_adapter harness_version)"

definition member_harnesses :: "pack_member_metadata list \<Rightarrow> harness_id btree_set" where
  "member_harnesses members = bs_collect (concat (map (\<lambda>m. bt_keys (pm_compatibility m)) members))"

definition derive_compatibility ::
  "pack_member_metadata list \<Rightarrow> (harness_id, fidelity_result) btree_map result" where
  "derive_compatibility members =
     try_fold (\<lambda>compatibility harness.
         bind_result (derive_harness_result harness members) (\<lambda>r. Ok (bt_insert harness r compatibility)))
       [] (member_harnesses members)"

definition max_content_class :: "pack_member_metadata list \<Rightarrow> content_class" where
  "max_content_class members = foldr (\<lambda>m c. max (pm_content_class m) c) members DataOnly"

definition derive_pack_fields :: "pack_member_metadata list \<Rightarrow> derived_pack_fields result" where
  "derive_pack_fields members =
     (if members = [] then Err ''manifest.pack_empty''
      else bind_result (derive_compatibility members) (\<lambda>compatibility.
        Ok \<lparr>df_compatibility = compatibility,
            df_content_class = max_content_class members,
            df_required_bindings = bs_collect (concat (map pm_required_bindings members))\<rparr>))"

section \<open>The derivation is total and exact\<close>

text \<open>What a manifest that deserialized holds: ordered maps of constructed fidelity results.\<close>

definition wf_compatibility :: "(harness_id, fidelity_result) btree_map \<Rightarrow> bool" where
  "wf_compatibility c \<longleftrightarrow> bt_wf c \<and> (\<forall>e\<in>set c. wf_fidelity_result (snd e))"

definition fidelity_on :: "harness_id \<Rightarrow> pack_member_metadata \<Rightarrow> fidelity" where
  "fidelity_on harness m =
     (case bt_get (pm_compatibility m) harness of Some r \<Rightarrow> fr_fidelity r | None \<Rightarrow> FUnsupported)"

definition requirements_on :: "harness_id \<Rightarrow> pack_member_metadata \<Rightarrow> blocked_requirement set" where
  "requirements_on harness m =
     (case bt_get (pm_compatibility m) harness of Some r \<Rightarrow> set (fr_blocked_requirements r) | None \<Rightarrow> {})"

lemma wf_compatibility_get: "wf_compatibility c \<Longrightarrow> bt_get c h = Some r \<Longrightarrow> wf_fidelity_result r"
  by (auto simp: wf_compatibility_def bt_get_iff)

lemma fidelity_bounds [simp]: "FNative \<le> f" "f \<le> FBlocked"
  by (cases f; simp add: less_eq_fidelity_def fidelity_tag_def)+

lemma aggregate_fold:
  "ha_selected (foldl (aggregate_member h) s ms) = fold max (map (fidelity_on h) ms) (ha_selected s)
   \<and> set (ha_blocked (foldl (aggregate_member h) s ms)) = set (ha_blocked s) \<union> (\<Union>m\<in>set ms. requirements_on h m)
   \<and> length (ha_versions (foldl (aggregate_member h) s ms)) = length (ha_versions s) + length ms"
proof (induction ms arbitrary: s)
  case (Cons m ms)
  then show ?case
    by (auto simp: aggregate_member_def fidelity_on_def requirements_on_def max.commute split: option.splits)
qed simp

lemma fold_max_ge:
  fixes f :: "'a::linorder"
  shows "f \<le> fold max fs f" and "x \<in> set fs \<Longrightarrow> x \<le> fold max fs f"
  and "fold max fs f \<in> insert f (set fs)"
  by (induction fs arbitrary: f)
    (simp_all, (meson dual_order.trans max.cobounded1 max.cobounded2)+, metis insert_iff max_def)

lemma aggregate_selected:
  "m \<in> set ms \<Longrightarrow> fidelity_on h m \<le> ha_selected (aggregate_harness h ms)"
  "ms \<noteq> [] \<Longrightarrow> \<exists>m\<in>set ms. ha_selected (aggregate_harness h ms) = fidelity_on h m"
proof -
  have sel: "ha_selected (aggregate_harness h ms) = fold max (map (fidelity_on h) ms) FNative"
    using aggregate_fold[of h _ ms] by (simp add: aggregate_harness_def)
  show "m \<in> set ms \<Longrightarrow> fidelity_on h m \<le> ha_selected (aggregate_harness h ms)"
    unfolding sel by (rule fold_max_ge(2)) simp
  assume "ms \<noteq> []"
  then obtain m where m: "m \<in> set ms" by (cases ms) auto
  show "\<exists>m\<in>set ms. ha_selected (aggregate_harness h ms) = fidelity_on h m"
  proof (cases "ha_selected (aggregate_harness h ms) = FNative")
    case True
    moreover have "fidelity_on h m \<le> FNative"
      using m True fold_max_ge(2)[of "fidelity_on h m" "map (fidelity_on h) ms" FNative] sel by simp
    ultimately show ?thesis using m fidelity_bounds(1)[of "fidelity_on h m"] by (metis antisym)
  next
    case False
    then show ?thesis using fold_max_ge(3)[of "map (fidelity_on h) ms" FNative] sel by auto
  qed
qed

lemma aggregate_blocked: "set (ha_blocked (aggregate_harness h ms)) = (\<Union>m\<in>set ms. requirements_on h m)"
  using aggregate_fold[of h _ ms] by (simp add: aggregate_harness_def)

lemma aggregate_blocked_nonempty:
  assumes "\<forall>m\<in>set ms. wf_compatibility (pm_compatibility m)" "ha_selected (aggregate_harness h ms) = FBlocked"
  shows "ha_blocked (aggregate_harness h ms) \<noteq> []"
proof -
  have "ms \<noteq> []"
    using assms(2) by (auto simp: aggregate_harness_def)
  then obtain m where m: "m \<in> set ms" "fidelity_on h m = FBlocked"
    using aggregate_selected(2)[of ms h] assms(2) by auto
  then obtain r where r: "bt_get (pm_compatibility m) h = Some r" "fr_fidelity r = FBlocked"
    by (auto simp: fidelity_on_def split: option.splits)
  then have "fr_blocked_requirements r \<noteq> []"
    using assms(1) m(1) wf_blocked_iff wf_compatibility_get by blast
  then have "requirements_on h m \<noteq> {}" using r by (simp add: requirements_on_def)
  then show ?thesis using aggregate_blocked[of h ms] m(1) by auto
qed

lemma pack_aggregate_texts:
  "\<not> trim_is_empty pack_aggregate_adapter" "\<not> trim_is_empty ''pack.aggregate''"
  "\<not> trim_is_empty ''pack.member_partial''" "\<not> trim_is_empty ''pack.member_fidelity_missing''"
  "\<not> trim_is_empty ''pack.member_unsupported''" "\<not> trim_is_empty ''pack.member_blocked''"
  "\<not> trim_is_empty ''at least one pack member has partial target fidelity''"
  "\<not> trim_is_empty ''at least one pack member lacks target fidelity evidence''"
  "\<not> trim_is_empty ''at least one pack member is unsupported on the target''"
  "\<not> trim_is_empty ''at least one pack member is blocked by a local requirement''"
  unfolding pack_aggregate_adapter_def by (rule ascii_head_not_blank; simp add: char_is_whitespace_def)+

text \<open>Each harness result is constructed: none of the constructor's refusals applies.\<close>

lemma derive_harness_result_Ok:
  assumes "\<forall>m\<in>set ms. wf_compatibility (pm_compatibility m)"
  obtains r where "derive_harness_result h ms = Ok r"
    and "fr_fidelity r = ha_selected (aggregate_harness h ms)"
    and "fr_blocked_requirements r =
      (if ha_selected (aggregate_harness h ms) = FBlocked then ha_blocked (aggregate_harness h ms) else [])"
  using that aggregate_blocked_nonempty[OF assms, of h]
  by (cases "ha_selected (aggregate_harness h ms)"; cases "ha_missing (aggregate_harness h ms)")
    (simp_all add: derive_harness_result_def Let_def fidelity_result_new_def fidelity_result_exact_def
      pack_aggregate_texts)

lemma derive_harness_result_wf: "derive_harness_result h ms = Ok r \<Longrightarrow> wf_fidelity_result r"
  by (auto simp: derive_harness_result_def Let_def intro: fidelity_result_new_wf fidelity_result_exact_wf
      split: fidelity.splits)

text \<open>A loop that computes one value per key and inserts it.\<close>

definition try_insert_each ::
  "('k::linorder \<Rightarrow> 'v result) \<Rightarrow> ('k, 'v) btree_map \<Rightarrow> 'k list \<Rightarrow> ('k, 'v) btree_map result" where
  "try_insert_each g = try_fold (\<lambda>m k. bind_result (g k) (\<lambda>v. Ok (bt_insert k v m)))"

lemma try_insert_each_total:
  "(\<And>k. k \<in> set ks \<Longrightarrow> \<exists>v. g k = Ok v) \<Longrightarrow> \<exists>m'. try_insert_each g m ks = Ok m'"
proof (induction ks arbitrary: m)
  case (Cons k ks)
  from Cons.prems[of k] obtain v where "g k = Ok v" by auto
  moreover have "\<exists>m'. try_insert_each g (bt_insert k v m) ks = Ok m'"
    using Cons.prems by (intro Cons.IH) auto
  ultimately show ?case by (simp add: try_insert_each_def)
qed (simp add: try_insert_each_def)

lemma try_insert_each_get:
  "try_insert_each g m ks = Ok m' \<Longrightarrow> bt_wf m \<Longrightarrow>
     bt_wf m' \<and> (\<forall>k. if k \<in> set ks then \<exists>v. g k = Ok v \<and> bt_get m' k = Some v else bt_get m' k = bt_get m k)"
proof (induction ks arbitrary: m)
  case (Cons k ks)
  then obtain v where v: "g k = Ok v" "try_insert_each g (bt_insert k v m) ks = Ok m'"
    by (auto simp: try_insert_each_def bind_result_Ok_iff)
  have "bt_wf (bt_insert k v m)" using Cons.prems(2) by (rule bt_wf_insert)
  from Cons.IH[OF v(2) this] have ih: "bt_wf m'" "\<And>j. if j \<in> set ks
      then \<exists>v. g j = Ok v \<and> bt_get m' j = Some v else bt_get m' j = bt_get (bt_insert k v m) j"
    by simp_all
  show ?case
  proof (intro conjI allI ih(1))
    fix j
    show "if j \<in> set (k # ks) then \<exists>v. g j = Ok v \<and> bt_get m' j = Some v else bt_get m' j = bt_get m j"
      using ih(2)[of j] v(1) by (auto simp: bt_get_insert split: if_splits)
  qed
qed (simp add: try_insert_each_def)

lemma derive_compatibility_each: "derive_compatibility members =
    try_insert_each (\<lambda>h. derive_harness_result h members) [] (member_harnesses members)"
  by (simp add: derive_compatibility_def try_insert_each_def)

lemma derive_compatibility_get:
  assumes "derive_compatibility ms = Ok c"
  shows "wf_compatibility c"
    and "h \<in> set (member_harnesses ms) \<Longrightarrow> \<exists>r. derive_harness_result h ms = Ok r \<and> bt_get c h = Some r"
    and "h \<notin> set (member_harnesses ms) \<Longrightarrow> bt_get c h = None"
proof -
  have c: "bt_wf c" "\<And>h. if h \<in> set (member_harnesses ms)
      then \<exists>r. derive_harness_result h ms = Ok r \<and> bt_get c h = Some r else bt_get c h = None"
    using try_insert_each_get[of "\<lambda>h. derive_harness_result h ms" "[]" "member_harnesses ms" c] assms
    by (simp_all add: derive_compatibility_each btm.get_empty)
  show "h \<in> set (member_harnesses ms) \<Longrightarrow> \<exists>r. derive_harness_result h ms = Ok r \<and> bt_get c h = Some r"
    "h \<notin> set (member_harnesses ms) \<Longrightarrow> bt_get c h = None"
    using c(2)[of h] by auto
  show "wf_compatibility c"
    unfolding wf_compatibility_def
  proof (intro conjI ballI c(1))
    fix e assume "e \<in> set c"
    then have "bt_get c (fst e) = Some (snd e)" using c(1) by (simp add: bt_get_iff)
    then have "derive_harness_result (fst e) ms = Ok (snd e)"
      using c(2)[of "fst e"] by (auto split: if_splits)
    then show "wf_fidelity_result (snd e)" by (rule derive_harness_result_wf)
  qed
qed

lemma max_content_class_ge: "m \<in> set ms \<Longrightarrow> pm_content_class m \<le> max_content_class ms"
  by (induction ms) (auto simp: max_content_class_def intro: max.coboundedI2)

lemma derive_pack_fields_total:
  assumes "ms \<noteq> []" "\<forall>m\<in>set ms. wf_compatibility (pm_compatibility m)"
  shows "\<exists>d. derive_pack_fields ms = Ok d"
proof -
  have "\<exists>c. derive_compatibility ms = Ok c"
    unfolding derive_compatibility_each
    by (rule try_insert_each_total) (rule derive_harness_result_Ok[OF assms(2)], blast)
  then show ?thesis using assms(1) by (auto simp: derive_pack_fields_def)
qed

lemma derive_pack_fields_Ok:
  "derive_pack_fields ms = Ok d \<longleftrightarrow> ms \<noteq> [] \<and> derive_compatibility ms = Ok (df_compatibility d)
     \<and> df_content_class d = max_content_class ms
     \<and> df_required_bindings d = bs_collect (concat (map pm_required_bindings ms))"
  by (auto simp: derive_pack_fields_def bind_result_Ok_iff)

section \<open>Properties\<close>

lemma linorder_Max_eq: "finite A \<Longrightarrow> (x::'a::linorder) \<in> A \<Longrightarrow> (\<And>y. y \<in> A \<Longrightarrow> y \<le> x) \<Longrightarrow> Max A = x"
  by (rule Max_eqI)

lemma max_content_class_Max: "ms \<noteq> [] \<Longrightarrow> max_content_class ms = Max (pm_content_class ` set ms)"
proof (rule Max_eqI[symmetric])
  show "ms \<noteq> [] \<Longrightarrow> max_content_class ms \<in> pm_content_class ` set ms"
  proof (induction ms)
    case (Cons m ms)
    have "max c DataOnly = c" for c by (simp add: max_absorb1)
    then show ?case using Cons by (cases "ms = []") (auto simp: max_content_class_def max_def)
  qed simp
qed (auto intro: max_content_class_ge)

text \<open>The fidelity of an object on a harness; no evidence counts as unsupported.\<close>

definition compat_fidelity :: "(harness_id, fidelity_result) btree_map \<Rightarrow> harness_id \<Rightarrow> fidelity" where
  "compat_fidelity c h = (case bt_get c h of Some r \<Rightarrow> fr_fidelity r | None \<Rightarrow> FUnsupported)"

text \<open>C38: Deriving the aggregate of a nonempty member list never fails on constructed fidelity results,
  and is exact: the class is the maximum of the members' classes, the bindings are their union, and on
  every harness the fidelity is the worst of the members', where a member without evidence counts as
  unsupported.\<close>

theorem pack_derivation_is_exact:
  assumes "ms \<noteq> []" "\<forall>m\<in>set ms. wf_compatibility (pm_compatibility m)"
  shows "\<exists>d. derive_pack_fields ms = Ok d
    \<and> df_content_class d = Max (pm_content_class ` set ms)
    \<and> set (df_required_bindings d) = (\<Union>m\<in>set ms. set (pm_required_bindings m))
    \<and> (\<forall>h. compat_fidelity (df_compatibility d) h = Max (fidelity_on h ` set ms))"
proof -
  obtain d where d: "derive_pack_fields ms = Ok d" using derive_pack_fields_total[OF assms] by blast
  then have parts: "derive_compatibility ms = Ok (df_compatibility d)" "df_content_class d = max_content_class ms"
    "df_required_bindings d = bs_collect (concat (map pm_required_bindings ms))"
    by (simp_all add: derive_pack_fields_Ok)
  have "compat_fidelity (df_compatibility d) h = Max (fidelity_on h ` set ms)" for h
  proof (cases "h \<in> set (member_harnesses ms)")
    case True
    then obtain r where r: "derive_harness_result h ms = Ok r" "bt_get (df_compatibility d) h = Some r"
      using derive_compatibility_get(2)[OF parts(1)] by blast
    moreover obtain r' where "derive_harness_result h ms = Ok r'" "fr_fidelity r' = ha_selected (aggregate_harness h ms)"
      using derive_harness_result_Ok[OF assms(2)] by blast
    ultimately have sel: "compat_fidelity (df_compatibility d) h = ha_selected (aggregate_harness h ms)"
      by (simp add: compat_fidelity_def)
    show ?thesis
      unfolding sel using aggregate_selected(1)[of _ ms h] aggregate_selected(2)[OF assms(1), of h]
      by (intro Max_eqI[symmetric]) force+
  next
    case False
    then have none: "bt_get (pm_compatibility m) h = None" if "m \<in> set ms" for m
      using that by (auto simp: member_harnesses_def bt_has_iff[symmetric] bt_has_def)
    then have "fidelity_on h ` set ms = {FUnsupported}"
      using assms(1) by (auto simp: fidelity_on_def image_iff split: option.splits) (metis list.set_sel(1))
    then show ?thesis
      using derive_compatibility_get(3)[OF parts(1) False] by (simp add: compat_fidelity_def)
  qed
  then show ?thesis using d parts max_content_class_Max[OF assms(1)] by auto
qed

definition sample_member :: "content_class \<Rightarrow> string list \<Rightarrow> pack_member_metadata" where
  "sample_member c bs = \<lparr>pm_id = ''m'', pm_revision = ''h'', pm_compatibility = [], pm_content_class = c,
     pm_required_bindings = bs\<rparr>"

theorem pack_derivation_is_exact_witness:
  "\<exists>d. derive_pack_fields [sample_member DataOnly [''a''], sample_member Executable [''b'']] = Ok d
     \<and> df_content_class d = Max {DataOnly, Executable}"
proof -
  let ?ms = "[sample_member DataOnly [''a''], sample_member Executable [''b'']]"
  have "?ms \<noteq> []" "\<forall>m\<in>set ?ms. wf_compatibility (pm_compatibility m)"
    by (simp_all add: sample_member_def wf_compatibility_def)
  from pack_derivation_is_exact[OF this] show ?thesis by (force simp: sample_member_def)
qed

end
