(* ===== verification/Pack_Graph.thy ===== *)
theory Pack_Graph
  imports Manifests
begin

text \<open>
  The checks on the graph that pack membership forms, of \<open>portable.rs\<close> and \<open>validation.rs\<close>: the member
  budget, the memoising depth check and the cycle check.  The manifest and the lockfile run the same
  routines over their own pack records, so they take the record's \<open>members\<close> field and the stable codes
  as arguments.  All counts stay below 4097 + 64, so the code's saturating additions never saturate.
\<close>

section \<open>The routines\<close>

type_synonym 'p pack_map = "(string, 'p) btree_map"
type_synonym 'p members_of = "'p \<Rightarrow> (string, string) btree_map"

definition usize_checked_add :: "nat \<Rightarrow> nat \<Rightarrow> nat option" where
  "usize_checked_add a b = (if a + b < 2 ^ 64 then Some (a + b) else None)"

definition validate_pack_member_budget :: "'p members_of \<Rightarrow> 'p pack_map \<Rightarrow> string \<Rightarrow> unit result" where
  "validate_pack_member_budget members packs member_code =
     bind_result
       (try_fold (\<lambda>count p. ok_or member_code (usize_checked_add count (length (members p)))) 0 (bt_values packs))
       (\<lambda>count. ensure (\<not> count > MAX_PACK_MEMBER_EDGES) member_code)"

text \<open>The members of a pack that are packs themselves: \<open>members.keys().filter(|m| packs.contains_key(m))\<close>.\<close>

definition nested_members :: "'p members_of \<Rightarrow> 'p pack_map \<Rightarrow> string \<Rightarrow> string list" where
  "nested_members members packs i =
     (case bt_get packs i of None \<Rightarrow> [] | Some p \<Rightarrow> filter (bt_has packs) (bt_keys (members p)))"

type_synonym height_state = "string btree_set \<times> (string, nat) btree_map"

function height :: "'p members_of \<Rightarrow> 'p pack_map \<Rightarrow> string \<Rightarrow> string \<Rightarrow> nat \<Rightarrow> string \<Rightarrow> height_state
    \<Rightarrow> (height_state \<times> nat) result" where
  "height members packs depth_code cycle_code depth i (visiting, memo) =
     (if depth > MAX_PACK_GRAPH_DEPTH then Err depth_code
      else case bt_get memo i of
        Some h \<Rightarrow> if (depth - 1) + h > MAX_PACK_GRAPH_DEPTH then Err depth_code else Ok ((visiting, memo), h)
      | None \<Rightarrow>
          if bs_has visiting i then Err cycle_code
          else bind_result
            (try_fold (\<lambda>(st, res) member.
                bind_result (height members packs depth_code cycle_code (depth + 1) member st) (\<lambda>(st', h).
                  let res' = max res (h + 1)
                  in if res' > MAX_PACK_GRAPH_DEPTH then Err depth_code else Ok (st', res')))
              ((bs_insert i visiting, memo), 1) (nested_members members packs i))
            (\<lambda>((visiting', memo'), res). Ok ((bs_remove i visiting', bt_insert i res memo'), res)))"
  by pat_completeness auto
termination
  by (relation "measure (\<lambda>(_, _, _, _, depth, _, _). Suc MAX_PACK_GRAPH_DEPTH - depth)") auto

definition validate_pack_graph_depth :: "'p members_of \<Rightarrow> 'p pack_map \<Rightarrow> string \<Rightarrow> string \<Rightarrow> unit result" where
  "validate_pack_graph_depth members packs depth_code cycle_code =
     bind_result
       (try_fold (\<lambda>st i. bind_result (height members packs depth_code cycle_code 1 i st) (\<lambda>(st', _). Ok st'))
         ([], []) (bt_keys packs))
       (\<lambda>_. Ok ())"

type_synonym visit_state = "string btree_set \<times> string btree_set"

function visit :: "'p members_of \<Rightarrow> 'p pack_map \<Rightarrow> string \<Rightarrow> string \<Rightarrow> nat \<Rightarrow> string \<Rightarrow> visit_state
    \<Rightarrow> visit_state result" where
  "visit members packs depth_code cycle_code depth i (visiting, visited) =
     (if bs_has visited i then Ok (visiting, visited)
      else if bs_has visiting i then Err cycle_code
      else if depth > MAX_PACK_GRAPH_DEPTH then Err depth_code
      else bind_result
        (try_fold (\<lambda>st member. visit members packs depth_code cycle_code (depth + 1) member st)
          (bs_insert i visiting, visited) (nested_members members packs i))
        (\<lambda>(visiting', visited'). Ok (bs_remove i visiting', bs_insert i visited')))"
  by pat_completeness auto
termination
  by (relation "measure (\<lambda>(_, _, _, _, depth, _, _). Suc MAX_PACK_GRAPH_DEPTH - depth)") auto

definition reject_pack_cycles :: "'p members_of \<Rightarrow> 'p pack_map \<Rightarrow> string \<Rightarrow> string \<Rightarrow> unit result" where
  "reject_pack_cycles members packs depth_code cycle_code =
     bind_result
       (try_fold (\<lambda>st i. visit members packs depth_code cycle_code 1 i st) ([], []) (bt_keys packs))
       (\<lambda>_. Ok ())"

declare height.simps [simp del] visit.simps [simp del]

section \<open>Chains of nested packs\<close>

text \<open>
  What the checks promise, without the traversal: a chain is a sequence of packs in which each has the
  next as a member, and the check accepts the graphs with no chain longer than the limit.  A cycle has
  chains of every length, so an accepted graph is acyclic.
\<close>

definition nested_edge :: "'p members_of \<Rightarrow> 'p pack_map \<Rightarrow> string \<Rightarrow> string \<Rightarrow> bool" where
  "nested_edge members packs a b \<longleftrightarrow> b \<in> set (nested_members members packs a)"

fun pack_chain :: "'p members_of \<Rightarrow> 'p pack_map \<Rightarrow> string list \<Rightarrow> bool" where
  "pack_chain members packs [] = True"
| "pack_chain members packs [a] = bt_has packs a"
| "pack_chain members packs (a # b # xs) = (nested_edge members packs a b \<and> pack_chain members packs (b # xs))"

definition pack_chains_within :: "'p members_of \<Rightarrow> 'p pack_map \<Rightarrow> nat \<Rightarrow> bool" where
  "pack_chains_within members packs n \<longleftrightarrow> {xs. pack_chain members packs xs} \<subseteq> {xs. length xs \<le> n}"

lemma nested_edge_present: "nested_edge ms packs a b \<Longrightarrow> bt_has packs a \<and> bt_has packs b"
  by (cases "bt_get packs a") (auto simp: nested_edge_def nested_members_def bt_has_def)

lemma pack_chain_Cons:
  "xs \<noteq> [] \<Longrightarrow> pack_chain ms packs (a # xs) \<longleftrightarrow> nested_edge ms packs a (hd xs) \<and> pack_chain ms packs xs"
  by (cases xs) auto

lemma pack_chain_append:
  "xs \<noteq> [] \<Longrightarrow> ys \<noteq> [] \<Longrightarrow> pack_chain ms packs (xs @ ys) \<longleftrightarrow>
     pack_chain ms packs xs \<and> pack_chain ms packs ys \<and> nested_edge ms packs (last xs) (hd ys)"
proof (induction xs rule: induct_list012)
  case (2 x)
  then show ?case using nested_edge_present[of ms packs x "hd ys"] by (auto simp: pack_chain_Cons)
qed auto

lemma pack_chain_present: "pack_chain ms packs xs \<Longrightarrow> x \<in> set xs \<Longrightarrow> bt_has packs x"
  by (induction ms packs xs rule: pack_chain.induct) (auto dest: nested_edge_present)

text \<open>A cycle pumps: chains of every length.\<close>

lemma pack_cycle_pumps:
  assumes "pack_chain ms packs (i # xs @ [i])"
  shows "\<exists>ys. pack_chain ms packs (i # ys @ [i]) \<and> length ys \<ge> n"
proof (induction n)
  case (Suc n)
  then obtain ys where ys: "pack_chain ms packs (i # ys @ [i])" "length ys \<ge> n" by blast
  have "pack_chain ms packs ((i # xs) @ (i # ys @ [i]))"
    using assms ys(1) pack_chain_append[of "i # xs" "[i]" ms packs] pack_chain_append[of "i # xs" "i # ys @ [i]" ms packs]
    by simp
  then show ?case using ys(2) by (intro exI[of _ "xs @ i # ys"]) simp
qed (use assms in auto)

lemma bounded_chain_no_repeat:
  assumes "pack_chains_within ms packs n" "pack_chain ms packs (xs @ [i])"
  shows "i \<notin> set xs"
proof
  assume "i \<in> set xs"
  then obtain as bs where xs: "xs = as @ i # bs" by (auto simp: in_set_conv_decomp)
  have "pack_chain ms packs (i # bs @ [i])"
    using assms(2) xs pack_chain_append[of as "i # bs @ [i]" ms packs] by (cases as) auto
  then obtain ys where "pack_chain ms packs (i # ys @ [i])" "length ys \<ge> n"
    using pack_cycle_pumps by blast
  then show False using assms(1) by (force simp: pack_chains_within_def)
qed

section \<open>The depth check\<close>

definition longest_chain :: "'p members_of \<Rightarrow> 'p pack_map \<Rightarrow> string \<Rightarrow> nat \<Rightarrow> bool" where
  "longest_chain ms packs i h \<longleftrightarrow>
     (\<exists>xs. pack_chain ms packs (i # xs) \<and> Suc (length xs) = h)
     \<and> (\<forall>xs. pack_chain ms packs (i # xs) \<longrightarrow> Suc (length xs) \<le> h)"

definition memo_exact :: "'p members_of \<Rightarrow> 'p pack_map \<Rightarrow> (string, nat) btree_map \<Rightarrow> bool" where
  "memo_exact ms packs memo \<longleftrightarrow> (\<forall>j h. bt_get memo j = Some h \<longrightarrow> longest_chain ms packs j h)"

abbreviation within_limit :: "'p members_of \<Rightarrow> 'p pack_map \<Rightarrow> bool" where
  "within_limit ms packs \<equiv> pack_chains_within ms packs MAX_PACK_GRAPH_DEPTH"

lemma long_chain_exceeds: "pack_chain ms packs xs \<Longrightarrow> length xs > n \<Longrightarrow> \<not> pack_chains_within ms packs n"
  by (force simp: pack_chains_within_def)

definition height_post ::
  "'p members_of \<Rightarrow> 'p pack_map \<Rightarrow> string set \<Rightarrow> string \<Rightarrow> (height_state \<times> nat) result \<Rightarrow> bool" where
  "height_post ms packs W i r \<longleftrightarrow>
     (case r of Inl _ \<Rightarrow> \<not> within_limit ms packs
      | Inr ((V, M), h) \<Rightarrow> set V = W \<and> memo_exact ms packs M \<and> longest_chain ms packs i h
          \<and> h \<le> MAX_PACK_GRAPH_DEPTH)"

definition loop_post ::
  "'p members_of \<Rightarrow> 'p pack_map \<Rightarrow> string set \<Rightarrow> string \<Rightarrow> string list \<Rightarrow> nat \<Rightarrow> (height_state \<times> nat) result \<Rightarrow> bool" where
  "loop_post ms packs W i ns lo r \<longleftrightarrow>
     (case r of Inl _ \<Rightarrow> \<not> within_limit ms packs
      | Inr ((V, M), h) \<Rightarrow> set V = W \<and> memo_exact ms packs M \<and> lo \<le> h \<and> h \<le> MAX_PACK_GRAPH_DEPTH
          \<and> (\<exists>xs. pack_chain ms packs (i # xs) \<and> Suc (length xs) = h)
          \<and> (\<forall>b\<in>set ns. \<forall>xs. pack_chain ms packs (b # xs) \<longrightarrow> Suc (Suc (length xs)) \<le> h))"

lemma height_loop:
  assumes "\<And>b V M. b \<in> set ns \<Longrightarrow> set V = W \<Longrightarrow> memo_exact ms packs M \<Longrightarrow> height_post ms packs W b (g b (V, M))"
    and "\<forall>b\<in>set ns. nested_edge ms packs i b"
    and "set V = W" "memo_exact ms packs M" "\<exists>xs. pack_chain ms packs (i # xs) \<and> Suc (length xs) = res"
    and "res \<le> MAX_PACK_GRAPH_DEPTH"
  shows "loop_post ms packs W i ns res
    (try_fold (\<lambda>(st, res) b. bind_result (g b st) (\<lambda>(st', h).
        let res' = max res (h + 1) in if res' > MAX_PACK_GRAPH_DEPTH then Err dc else Ok (st', res')))
      ((V, M), res) ns)"
  using assms
proof (induction ns arbitrary: V M res)
  case Nil
  then show ?case by (simp add: loop_post_def)
next
  case (Cons b ns)
  have post: "height_post ms packs W b (g b (V, M))"
    using Cons.prems(3,4) by (intro Cons.prems(1)) auto
  show ?case
  proof (cases "g b (V, M)")
    case (Inl e)
    then show ?thesis using post by (simp add: loop_post_def height_post_def)
  next
    case (Inr r)
    obtain V1 M1 h where r: "r = ((V1, M1), h)" by (metis prod.collapse)
    have h: "set V1 = W" "memo_exact ms packs M1" "longest_chain ms packs b h"
      using post by (simp_all add: height_post_def Inr r)
    let ?res = "max res (h + 1)"
    obtain ys where ys: "pack_chain ms packs (b # ys)" "Suc (length ys) = h"
      using h(3) by (auto simp: longest_chain_def)
    have "pack_chain ms packs (i # b # ys)" using ys(1) Cons.prems(2) by simp
    then have ex: "\<exists>xs. pack_chain ms packs (i # xs) \<and> Suc (length xs) = ?res"
      using ys(2) Cons.prems(5) by (cases "res \<le> h + 1") (auto simp: max_def intro: exI[of _ "b # ys"])
    show ?thesis
    proof (cases "?res > MAX_PACK_GRAPH_DEPTH")
      case True
      then obtain xs where "pack_chain ms packs (i # xs)" "length (i # xs) > MAX_PACK_GRAPH_DEPTH"
        using ex by auto
      then have "\<not> within_limit ms packs" by (rule long_chain_exceeds)
      then show ?thesis using True by (simp add: Inr r loop_post_def Let_def)
    next
      case False
      have "loop_post ms packs W i ns ?res (try_fold (\<lambda>(st, res) b. bind_result (g b st) (\<lambda>(st', h).
          let res' = max res (h + 1) in if res' > MAX_PACK_GRAPH_DEPTH then Err dc else Ok (st', res')))
        ((V1, M1), ?res) ns)"
        using Cons.prems(1,2) h(1,2) ex False by (intro Cons.IH) auto
      moreover have "\<forall>xs. pack_chain ms packs (b # xs) \<longrightarrow> Suc (Suc (length xs)) \<le> ?res"
        using h(3) by (fastforce simp: longest_chain_def)
      ultimately show ?thesis
        using False by (force simp: Inr r loop_post_def Let_def split: sum.splits)
    qed
  qed
qed

lemma longest_from_loop:
  assumes "\<exists>xs. pack_chain ms packs (i # xs) \<and> Suc (length xs) = h" "1 \<le> h"
    and "\<forall>b\<in>set (nested_members ms packs i). \<forall>xs. pack_chain ms packs (b # xs) \<longrightarrow> Suc (Suc (length xs)) \<le> h"
  shows "longest_chain ms packs i h"
  unfolding longest_chain_def
proof (intro conjI allI impI assms(1))
  fix xs assume "pack_chain ms packs (i # xs)"
  then show "Suc (length xs) \<le> h"
    using assms(2,3) by (cases xs) (auto simp: nested_edge_def)
qed

lemma height_correct:
  assumes "pack_chain ms packs (path @ [i])" "depth = Suc (length path)" "set V = set path" "memo_exact ms packs M"
  shows "height_post ms packs (set V) i (height ms packs dc cc depth i (V, M))"
  using assms
proof (induction "Suc MAX_PACK_GRAPH_DEPTH - depth" arbitrary: path i depth V M rule: less_induct)
  case less
  let ?ns = "nested_members ms packs i"
  let ?W = "insert i (set V)"
  let ?loop = "try_fold (\<lambda>(st, res) b. bind_result (height ms packs dc cc (depth + 1) b st) (\<lambda>(st', h).
      let res' = max res (h + 1) in if res' > MAX_PACK_GRAPH_DEPTH then Err dc else Ok (st', res')))
    ((bs_insert i V, M), 1) ?ns"
  note unfold = height.simps[of ms packs dc cc depth i V M]
  have path: "length (path @ [i]) = depth" using less.prems(2) by simp
  consider (deep) "depth > MAX_PACK_GRAPH_DEPTH"
    | (memo) h where "\<not> depth > MAX_PACK_GRAPH_DEPTH" "bt_get M i = Some h"
    | (cycle) "\<not> depth > MAX_PACK_GRAPH_DEPTH" "bt_get M i = None" "i \<in> set V"
    | (descend) "\<not> depth > MAX_PACK_GRAPH_DEPTH" "bt_get M i = None" "i \<notin> set V"
    by fastforce
  then show ?case
  proof cases
    case deep
    then have "\<not> within_limit ms packs" using less.prems(1) path long_chain_exceeds by metis
    then show ?thesis using deep by (simp add: unfold height_post_def)
  next
    case (memo h)
    then have h: "longest_chain ms packs i h" using less.prems(4) by (auto simp: memo_exact_def)
    then obtain xs where xs: "pack_chain ms packs (i # xs)" "Suc (length xs) = h"
      by (auto simp: longest_chain_def)
    have "pack_chain ms packs (path @ i # xs)"
      using less.prems(1) xs(1) pack_chain_append[of path "i # xs" ms packs] pack_chain_append[of path "[i]" ms packs]
      by (cases path) auto
    then have "depth - 1 + h > MAX_PACK_GRAPH_DEPTH \<Longrightarrow> \<not> within_limit ms packs"
      using xs(2) path by (intro long_chain_exceeds) auto
    then show ?thesis using memo h less.prems(4) by (auto simp: unfold height_post_def)
  next
    case cycle
    then have "\<not> within_limit ms packs"
      using bounded_chain_no_repeat[OF _ less.prems(1)] less.prems(3) by auto
    then show ?thesis using cycle by (simp add: unfold height_post_def)
  next
    case descend
    have edges: "\<forall>b\<in>set ?ns. nested_edge ms packs i b" by (simp add: nested_edge_def)
    have sub: "height_post ms packs ?W b (height ms packs dc cc (depth + 1) b (V1, M1))"
      if b: "b \<in> set ?ns" and V1: "set V1 = ?W" and M1: "memo_exact ms packs M1" for b V1 M1
    proof -
      have "pack_chain ms packs ((path @ [i]) @ [b])"
        using less.prems(1) b edges pack_chain_append[of "path @ [i]" "[b]" ms packs] nested_edge_present by force
      then show ?thesis
        using less.hyps[of "depth + 1" "path @ [i]" b V1 M1] descend(1) V1 M1 less.prems(2,3) by simp
    qed
    have "pack_chain ms packs [i]"
      using pack_chain_present[OF less.prems(1), of i] by simp
    then have loop: "loop_post ms packs ?W i ?ns 1 ?loop"
      using less.prems(3,4) edges by (intro height_loop sub) (auto simp: MAX_PACK_GRAPH_DEPTH_def)
    show ?thesis
    proof (cases ?loop)
      case (Inl e)
      then show ?thesis using loop descend by (simp add: unfold height_post_def loop_post_def)
    next
      case (Inr r)
      obtain V1 M1 h where r: "r = ((V1, M1), h)" by (metis prod.collapse)
      have post: "set V1 = ?W" "memo_exact ms packs M1" "longest_chain ms packs i h" "h \<le> MAX_PACK_GRAPH_DEPTH"
        using loop[unfolded Inr r] longest_from_loop[of ms packs i h] by (simp_all add: loop_post_def)
      then have "memo_exact ms packs (bt_insert i h M1)"
        by (simp add: memo_exact_def bt_get_insert)
      then show ?thesis
        using descend post less.prems(3) by (auto simp: unfold Inr[simplified] r height_post_def)
    qed
  qed
qed

lemma graph_depth_roots:
  assumes "set V = {}" "memo_exact ms packs M" "\<forall>i\<in>set ks. bt_has packs i"
  shows "case try_fold (\<lambda>st i. bind_result (height ms packs dc cc 1 i st) (\<lambda>(st', _). Ok st')) (V, M) ks of
      Inl _ \<Rightarrow> \<not> within_limit ms packs
    | Inr _ \<Rightarrow> \<forall>i\<in>set ks. \<forall>xs. pack_chain ms packs (i # xs) \<longrightarrow> length (i # xs) \<le> MAX_PACK_GRAPH_DEPTH"
  using assms
proof (induction ks arbitrary: V M)
  case (Cons i ks)
  have post: "height_post ms packs {} i (height ms packs dc cc 1 i (V, M))"
    using height_correct[of ms packs "[]" i 1 V M dc cc] Cons.prems by simp
  show ?case
  proof (cases "height ms packs dc cc 1 i (V, M)")
    case (Inl e)
    then show ?thesis using post by (simp add: height_post_def)
  next
    case (Inr r)
    obtain V1 M1 h where r: "r = ((V1, M1), h)" by (metis prod.collapse)
    have h: "set V1 = {}" "memo_exact ms packs M1" "longest_chain ms packs i h" "h \<le> MAX_PACK_GRAPH_DEPTH"
      using post unfolding Inr r height_post_def by simp_all
    then have "\<forall>xs. pack_chain ms packs (i # xs) \<longrightarrow> length (i # xs) \<le> MAX_PACK_GRAPH_DEPTH"
      by (fastforce simp: longest_chain_def)
    then show ?thesis
      using Cons.IH[OF h(1,2)] Cons.prems(3) by (auto simp: Inr[simplified] r split: sum.splits)
  qed
qed simp

lemma graph_depth_iff:
  "validate_pack_graph_depth ms dc_packs dc cc = Ok () \<longleftrightarrow> within_limit ms dc_packs"
proof -
  let ?run = "try_fold (\<lambda>st i. bind_result (height ms dc_packs dc cc 1 i st) (\<lambda>(st', _). Ok st')) ([], []) (bt_keys dc_packs)"
  have roots: "case ?run of Inl _ \<Rightarrow> \<not> within_limit ms dc_packs
    | Inr _ \<Rightarrow> \<forall>i\<in>set (bt_keys dc_packs). \<forall>xs. pack_chain ms dc_packs (i # xs) \<longrightarrow> length (i # xs) \<le> MAX_PACK_GRAPH_DEPTH"
    by (rule graph_depth_roots) (simp_all add: memo_exact_def btm.get_empty bt_has_iff)
  show ?thesis
  proof (cases ?run)
    case (Inl e)
    then show ?thesis using roots by (simp add: validate_pack_graph_depth_def)
  next
    case (Inr st)
    have "length xs \<le> MAX_PACK_GRAPH_DEPTH" if "pack_chain ms dc_packs xs" for xs
      using that roots Inr pack_chain_present[OF that] by (cases xs) (auto simp: bt_has_iff)
    then show ?thesis using Inr by (auto simp: validate_pack_graph_depth_def pack_chains_within_def)
  qed
qed

section \<open>The cycle check\<close>

text \<open>On a graph within the limit the depth-first visit meets no pack of its own path and no depth above the limit.\<close>

lemma visit_within_limit:
  assumes "within_limit ms packs"
    and "pack_chain ms packs (path @ [i])" "depth = Suc (length path)" "set V = set path"
  shows "\<exists>V' D'. visit ms packs dc cc depth i (V, D) = Ok (V', D') \<and> set V' = set path \<and> i \<in> set D' \<and> set D \<subseteq> set D'"
  using assms
proof (induction "Suc MAX_PACK_GRAPH_DEPTH - depth" arbitrary: path i depth V D rule: less_induct)
  case less
  let ?ns = "nested_members ms packs i"
  have i: "i \<notin> set path" using bounded_chain_no_repeat less.prems(1,2) by blast
  have depth: "depth \<le> MAX_PACK_GRAPH_DEPTH"
    using less.prems(1,2,3) long_chain_exceeds[of ms packs "path @ [i]" MAX_PACK_GRAPH_DEPTH] by fastforce
  show ?case
  proof (cases "i \<in> set D")
    case True
    then show ?thesis using less.prems(4) by (auto simp: visit.simps)
  next
    case False
    have sub: "\<exists>V' D'. visit ms packs dc cc (depth + 1) b (V1, D1) = Ok (V', D')
        \<and> set V' = set (path @ [i]) \<and> b \<in> set D' \<and> set D1 \<subseteq> set D'"
      if b: "b \<in> set ?ns" and V1: "set V1 = set (path @ [i])" for b V1 D1
    proof -
      have "nested_edge ms packs i b" using b by (simp add: nested_edge_def)
      then have "pack_chain ms packs ((path @ [i]) @ [b])"
        using less.prems(2) pack_chain_append[of "path @ [i]" "[b]" ms packs] nested_edge_present by force
      then show ?thesis
        using less.hyps[of "depth + 1" "path @ [i]" b V1 D1] less.prems(1,3) depth V1 by simp
    qed
    have loop: "\<exists>V' D'. try_fold (\<lambda>st b. visit ms packs dc cc (depth + 1) b st) (V1, D1) ns = Ok (V', D')
        \<and> set V' = set (path @ [i]) \<and> set D1 \<subseteq> set D'"
      if "set ns \<subseteq> set ?ns" "set V1 = set (path @ [i])" for ns V1 D1
      using that
    proof (induction ns arbitrary: V1 D1)
      case (Cons b ns)
      then obtain V2 D2 where "visit ms packs dc cc (depth + 1) b (V1, D1) = Ok (V2, D2)"
        "set V2 = set (path @ [i])" "set D1 \<subseteq> set D2"
        using sub[of b V1 D1] by auto
      then show ?case using Cons.IH[of V2 D2] Cons.prems(1) by auto
    qed simp
    obtain V' D' where "try_fold (\<lambda>st b. visit ms packs dc cc (depth + 1) b st) (bs_insert i V, D) ?ns = Ok (V', D')"
      "set V' = set (path @ [i])" "set D \<subseteq> set D'"
      using loop[of ?ns "bs_insert i V" D] less.prems(4) by auto
    then show ?thesis using False i depth less.prems(4) by (auto simp: visit.simps)
  qed
qed

lemma reject_pack_cycles_within_limit:
  assumes "within_limit ms packs"
  shows "reject_pack_cycles ms packs dc cc = Ok ()"
proof -
  have "\<exists>V' D'. try_fold (\<lambda>st i. visit ms packs dc cc 1 i st) (V, D) ks = Ok (V', D')"
    if "set V = {}" "\<forall>i\<in>set ks. bt_has packs i" for V D ks
    using that
  proof (induction ks arbitrary: V D)
    case (Cons i ks)
    then obtain V1 D1 where "visit ms packs dc cc 1 i (V, D) = Ok (V1, D1)" "set V1 = {}"
      using visit_within_limit[OF assms, of "[]" i 1 V dc cc D] by auto
    then show ?case using Cons.IH[of V1 D1] Cons.prems(2) by auto
  qed simp
  from this[of "[]" "bt_keys packs" "[]"] show ?thesis
    by (auto simp: reject_pack_cycles_def bt_has_iff)
qed

section \<open>The member budget\<close>

lemma member_budget_Ok_iff:
  "validate_pack_member_budget ms packs c = Ok () \<longleftrightarrow> (\<Sum>p\<leftarrow>bt_values packs. length (ms p)) \<le> MAX_PACK_MEMBER_EDGES"
proof -
  have fold: "try_fold (\<lambda>count p. ok_or c (usize_checked_add count (length (ms p)))) n ps
      = (if n + (\<Sum>p\<leftarrow>ps. length (ms p)) < 2 ^ 64 \<or> ps = [] then Ok (n + (\<Sum>p\<leftarrow>ps. length (ms p))) else Err c)"
    if "n < 2 ^ 64" for n ps
    using that
  proof (induction ps arbitrary: n)
    case (Cons p ps)
    show ?case
    proof (cases "n + length (ms p) < 2 ^ 64")
      case True
      then show ?thesis using Cons.IH[OF True] by (auto simp: usize_checked_add_def)
    next
      case False
      then show ?thesis by (simp add: usize_checked_add_def)
    qed
  qed simp
  show ?thesis
    by (auto simp: validate_pack_member_budget_def fold ensure_Ok_iff MAX_PACK_MEMBER_EDGES_def)
qed

section \<open>Properties\<close>

text \<open>The memoising depth check accepts a pack graph exactly when no chain of nested packs is longer
  than 64, whatever the order of traversal and however members are shared; in particular it rejects
  every cycle.\<close>

theorem graph_depth_check_is_exact:
  "validate_pack_graph_depth ms packs dc cc = Ok () \<longleftrightarrow> pack_chains_within ms packs 64"
  using graph_depth_iff[of ms packs dc cc] by (simp add: MAX_PACK_GRAPH_DEPTH_def)

text \<open>A graph that passed the depth check always passes the separate cycle check, so on a manifest
  or lockfile the cycle check reports nothing new.\<close>

theorem cycle_check_follows_depth_check:
  assumes "validate_pack_graph_depth ms packs dc cc = Ok ()"
  shows "reject_pack_cycles ms packs dc' cc' = Ok ()"
  using assms by (intro reject_pack_cycles_within_limit) (simp add: graph_depth_iff)

theorem cycle_check_follows_depth_check_witness:
  "reject_pack_cycles (\<lambda>p. p) [(''a'', [(''b'', ''h'')]), (''b'', [(''c'', ''h'')])] ''depth'' ''cycle'' = Ok ()"
proof (rule cycle_check_follows_depth_check)
  show "validate_pack_graph_depth (\<lambda>p. p) [(''a'', [(''b'', ''h'')]), (''b'', [(''c'', ''h'')])] ''depth'' ''cycle'' = Ok ()"
    by code_simp
qed

end
