(* ===== verification/Validation.thy ===== *)
theory Validation
  imports Pack_Graph
begin

text \<open>
  \<open>kitrove-model/src/validation.rs\<close> and the refresh of \<open>portable.rs\<close>: the cross-record invariants of the
  manifest and the lockfile, and the re-derivation of every pack from its members.
\<close>

section \<open>Assets of a manifest\<close>

definition check :: "bool \<Rightarrow> string \<Rightarrow> unit result" where
  "check bad c = ensure (\<not> bad) c"

lemma check_Ok_iff [result_simps]: "check bad c = Inr u \<longleftrightarrow> \<not> bad"
  by (simp add: check_def ensure_Ok_iff)

definition referenced_provenance :: "asset \<Rightarrow> string btree_set" where
  "referenced_provenance a =
     bs_extend (case asset_portable a of Some p \<Rightarrow> bs_insert (pc_provenance p) [] | None \<Rightarrow> [])
       (map nv_provenance (bt_values (asset_native_variants a)))"

definition validate_manifest_asset ::
  "(string \<Rightarrow> string) \<Rightarrow> environment_manifest \<Rightarrow> string \<times> asset \<Rightarrow> unit result" where
  "validate_manifest_asset H m e =
     (let a = snd e
      in and_then (check (fst e \<noteq> asset_id a) ''manifest.asset_key_mismatch'')
        (and_then (check (asset_kind_of a = PackKind) ''manifest.pack_in_asset_map'')
        (and_then (try_each (\<lambda>b. check (\<not> bs_has (em_required_bindings m) b) ''manifest.undeclared_binding'')
                     (asset_required_bindings a))
        (and_then (try_each (\<lambda>v. check (fst v \<noteq> nv_harness (snd v)) ''manifest.native_variant_key_mismatch'')
                     (asset_native_variants a))
        (and_then (try_each (\<lambda>p. check (fst p \<noteq> provenance_id H (snd p)) ''manifest.provenance_key_mismatch'')
                     (asset_provenance a))
        (let referenced = referenced_provenance a
         in and_then (check (list_ex (\<lambda>i. \<not> bt_has (asset_provenance a) i) referenced) ''manifest.provenance_missing'')
           (and_then (check (list_ex (\<lambda>i. \<not> bs_has referenced i) (bt_keys (asset_provenance a)))
                       ''manifest.provenance_unreferenced'')
           (check (asset_content_hash a \<noteq> asset_expected_content_hash H a)
              ''manifest.asset_content_hash_mismatch''))))))))"

section \<open>Packs of a manifest\<close>

definition validate_manifest_pack ::
  "(string \<Rightarrow> string) \<Rightarrow> environment_manifest \<Rightarrow> string \<times> pack \<Rightarrow> unit result" where
  "validate_manifest_pack H m e =
     (let p = snd e
      in and_then (check (pack_source p = AuthoredPack
                    \<and> (pack_revision p, pack_exact_source_hash p) \<noteq> authored_source_resolution H (pack_id p))
                   ''manifest.authored_pack_resolution_invalid'')
        (and_then (check (fst e \<noteq> pack_id p) ''manifest.pack_key_mismatch'')
        (and_then (check (bt_has (em_assets m) (fst e)) ''manifest.duplicate_identity'')
        (and_then (try_each (\<lambda>b. check (\<not> bs_has (em_required_bindings m) b) ''manifest.undeclared_binding'')
                     (pack_required_bindings p))
        (and_then (check (pack_members p = []) ''manifest.pack_empty'')
        (try_each (\<lambda>i. check (\<not> bt_has (em_assets m) i \<and> \<not> bt_has (em_packs m) i) ''manifest.unknown_pack_member'')
           (bt_keys (pack_members p))))))))"

definition asset_metadata :: "string \<Rightarrow> string \<Rightarrow> asset \<Rightarrow> pack_member_metadata" where
  "asset_metadata member revision a =
     \<lparr>pm_id = member, pm_revision = revision, pm_compatibility = asset_compatibility a,
      pm_content_class = asset_content_class a, pm_required_bindings = asset_required_bindings a\<rparr>"

definition pack_metadata :: "string \<Rightarrow> string \<Rightarrow> pack \<Rightarrow> pack_member_metadata" where
  "pack_metadata member revision p =
     \<lparr>pm_id = member, pm_revision = revision, pm_compatibility = pack_compatibility p,
      pm_content_class = pack_content_class p, pm_required_bindings = pack_required_bindings p\<rparr>"

definition collect_exact_member ::
  "environment_manifest \<Rightarrow> pack_member_metadata list \<Rightarrow> string \<times> string \<Rightarrow> pack_member_metadata list result" where
  "collect_exact_member m members e =
     (case bt_get (em_assets m) (fst e) of
        Some a \<Rightarrow>
          if snd e \<noteq> asset_content_hash a then Err ''manifest.pack_member_revision_mismatch''
          else Ok (members @ [asset_metadata (fst e) (snd e) a])
      | None \<Rightarrow>
          (case bt_get (em_packs m) (fst e) of
             Some nested \<Rightarrow>
               if snd e \<noteq> pack_content_hash nested then Err ''manifest.pack_member_revision_mismatch''
               else Ok (members @ [pack_metadata (fst e) (snd e) nested])
           | None \<Rightarrow> Ok members))"

definition collect_exact_members ::
  "environment_manifest \<Rightarrow> (string, string) btree_map \<Rightarrow> pack_member_metadata list result" where
  "collect_exact_members m = try_fold (collect_exact_member m) []"

definition validate_pack_revision ::
  "(string \<Rightarrow> string) \<Rightarrow> environment_manifest \<Rightarrow> pack \<Rightarrow> unit result" where
  "validate_pack_revision H m p =
     bind_result (collect_exact_members m (pack_members p)) (\<lambda>members.
     bind_result (derive_pack_fields members) (\<lambda>derived.
       and_then (check (pack_compatibility p \<noteq> df_compatibility derived) ''manifest.pack_compatibility_mismatch'')
       (and_then (check (pack_content_class p \<noteq> df_content_class derived) ''manifest.pack_content_class_mismatch'')
       (and_then (check (pack_required_bindings p \<noteq> df_required_bindings derived) ''manifest.pack_bindings_mismatch'')
       (check (pack_content_hash p \<noteq> pack_expected_content_hash H p) ''manifest.pack_content_hash_mismatch'')))))"

definition validate_pack_revisions :: "(string \<Rightarrow> string) \<Rightarrow> environment_manifest \<Rightarrow> unit result" where
  "validate_pack_revisions H m = try_each (validate_pack_revision H m) (bt_values (em_packs m))"

section \<open>Profiles of a manifest\<close>

definition validate_manifest_profile :: "environment_manifest \<Rightarrow> string \<times> profile \<Rightarrow> unit result" where
  "validate_manifest_profile m e =
     (let p = snd e
      in and_then (check (fst e \<noteq> profile_id p) ''manifest.profile_key_mismatch'')
        (and_then (check (case profile_extends p of Some parent \<Rightarrow> \<not> bt_has (em_profiles m) parent | None \<Rightarrow> False)
                     ''manifest.unknown_profile_parent'')
        (try_each (\<lambda>i. check (\<not> bt_has (em_assets m) i \<and> \<not> bt_has (em_packs m) i) ''manifest.unknown_profile_asset'')
           (profile_assets p))))"

text \<open>\<open>profiles.get(id).and_then(|profile| profile.extends.as_ref())\<close>.\<close>

definition profile_parent :: "(string, profile) btree_map \<Rightarrow> string \<Rightarrow> string option" where
  "profile_parent profiles i = (case bt_get profiles i of Some p \<Rightarrow> profile_extends p | None \<Rightarrow> None)"

text \<open>The \<open>while let Some(id) = current\<close> loop: each round adds a profile to \<open>visiting\<close> or is the last.\<close>

function follow_profiles ::
  "(string, profile) btree_map \<Rightarrow> string btree_set \<Rightarrow> string btree_set \<Rightarrow> string option \<Rightarrow> string btree_set result" where
  "follow_profiles profiles visited visiting current =
     (case current of
        None \<Rightarrow> Ok visiting
      | Some i \<Rightarrow>
          if bs_has visited i then Ok visiting
          else if bs_has visiting i then Err ''manifest.profile_cycle''
          else follow_profiles profiles visited (bs_insert i visiting) (profile_parent profiles i))"
  by pat_completeness auto
termination
proof (relation "measures [\<lambda>(profiles, _, visiting, _). card (set (bt_keys profiles) - set visiting),
    \<lambda>(_, _, _, current). if current = None then 0 else 1]", simp)
  fix profiles :: "(string, profile) btree_map" and visited visiting :: "string btree_set" and current and i :: string
  assume i: "current = Some i" "\<not> bs_has visiting i"
  show "((profiles, visited, bs_insert i visiting, profile_parent profiles i), profiles, visited, visiting, current)
    \<in> measures [\<lambda>(profiles, _, visiting, _). card (set (bt_keys profiles) - set visiting),
        \<lambda>(_, _, _, current). if current = None then 0 else 1]"
  proof (cases "i \<in> set (bt_keys profiles)")
    case True
    then have "set (bt_keys profiles) - insert i (set visiting) \<subset> set (bt_keys profiles) - set visiting"
      using i(2) by auto
    then have "card (set (bt_keys profiles) - insert i (set visiting)) < card (set (bt_keys profiles) - set visiting)"
      by (intro psubset_card_mono) auto
    then show ?thesis by simp
  next
    case False
    then have "profile_parent profiles i = None"
      by (auto simp: profile_parent_def bt_has_iff[symmetric] bt_has_def split: option.split)
    moreover have "set (bt_keys profiles) - insert i (set visiting) = set (bt_keys profiles) - set visiting"
      using False by auto
    ultimately show ?thesis using i(1) by simp
  qed
qed

definition reject_profile_cycles :: "(string, profile) btree_map \<Rightarrow> unit result" where
  "reject_profile_cycles profiles =
     bind_result
       (try_fold (\<lambda>visited root.
          bind_result (follow_profiles profiles visited [] (Some root)) (\<lambda>visiting. Ok (bs_extend visited visiting)))
        [] (bt_keys profiles))
       (\<lambda>_. Ok ())"

declare follow_profiles.simps [simp del]

section \<open>The manifest\<close>

definition manifest_pack_graph_depth :: "environment_manifest \<Rightarrow> unit result" where
  "manifest_pack_graph_depth m =
     validate_pack_graph_depth pack_members (em_packs m) ''manifest.pack_depth_limit_exceeded'' ''manifest.pack_cycle''"

definition validate_manifest :: "(string \<Rightarrow> string) \<Rightarrow> environment_manifest \<Rightarrow> unit result" where
  "validate_manifest H m =
     and_then (try_each (validate_manifest_asset H m) (em_assets m))
     (and_then (validate_pack_member_budget pack_members (em_packs m) ''manifest.pack_member_limit_exceeded'')
     (and_then (try_each (validate_manifest_pack H m) (em_packs m))
     (and_then (manifest_pack_graph_depth m)
     (and_then (reject_pack_cycles pack_members (em_packs m) ''manifest.pack_depth_limit_exceeded'' ''manifest.pack_cycle'')
     (and_then (validate_pack_revisions H m)
     (and_then (try_each (validate_manifest_profile m) (em_profiles m))
     (reject_profile_cycles (em_profiles m))))))))"

section \<open>The lockfile\<close>

definition validate_locked_asset :: "(string \<Rightarrow> string) \<Rightarrow> string \<times> locked_asset \<Rightarrow> unit result" where
  "validate_locked_asset H e =
     (let a = snd e
      in and_then (check (fst e \<noteq> la_id a) ''lockfile.asset_key_mismatch'')
        (and_then (check (la_kind a = PackKind) ''lockfile.pack_in_asset_map'')
        (and_then (check ((case la_portable_provenance a of
                             Some i \<Rightarrow> \<not> bt_has (la_provenance a) i | None \<Rightarrow> False)
                          \<or> list_ex (\<lambda>i. \<not> bt_has (la_provenance a) i) (bt_values (la_native_provenance a)))
                     ''lockfile.provenance_missing'')
        (let referenced = bs_collect ((case la_portable_provenance a of Some i \<Rightarrow> [i] | None \<Rightarrow> [])
                            @ bt_values (la_native_provenance a))
         in check (list_ex (\<lambda>p. fst p \<noteq> provenance_id H (snd p) \<or> \<not> bs_has referenced (fst p)) (la_provenance a))
              ''lockfile.provenance_invalid''))))"

definition validate_locked_member :: "lockfile \<Rightarrow> string \<times> string \<Rightarrow> unit result" where
  "validate_locked_member l e =
     (case bt_get (lf_assets l) (fst e) of
        Some a \<Rightarrow> check (snd e \<noteq> la_content_hash a) ''lockfile.pack_member_revision_mismatch''
      | None \<Rightarrow>
          (case bt_get (lf_packs l) (fst e) of
             Some p \<Rightarrow> check (snd e \<noteq> lp_content_hash p) ''lockfile.pack_member_revision_mismatch''
           | None \<Rightarrow> Err ''lockfile.unknown_pack_member''))"

definition validate_locked_pack :: "(string \<Rightarrow> string) \<Rightarrow> lockfile \<Rightarrow> string \<times> locked_pack \<Rightarrow> unit result" where
  "validate_locked_pack H l e =
     (let p = snd e
      in and_then (check (rs_source (lp_resolved_source p) = AuthoredPack
                    \<and> (rs_revision (lp_resolved_source p), rs_content_hash (lp_resolved_source p))
                        \<noteq> authored_source_resolution H (lp_id p))
                   ''lockfile.authored_pack_resolution_invalid'')
        (and_then (check (fst e \<noteq> lp_id p) ''lockfile.pack_key_mismatch'')
        (and_then (check (bt_has (lf_assets l) (fst e)) ''lockfile.duplicate_identity'')
        (and_then (check (lp_members p = []) ''lockfile.pack_empty'')
        (try_each (validate_locked_member l) (lp_members p))))))"

definition validate_locked_pack_member_budget :: "lockfile \<Rightarrow> unit result" where
  "validate_locked_pack_member_budget l =
     validate_pack_member_budget lp_members (lf_packs l) ''lockfile.pack_member_limit_exceeded''"

definition validate_locked_pack_graph_depth :: "lockfile \<Rightarrow> unit result" where
  "validate_locked_pack_graph_depth l =
     validate_pack_graph_depth lp_members (lf_packs l) ''lockfile.pack_depth_limit_exceeded'' ''lockfile.pack_cycle''"

definition reject_lockfile_pack_cycles :: "lockfile \<Rightarrow> unit result" where
  "reject_lockfile_pack_cycles l =
     reject_pack_cycles lp_members (lf_packs l) ''lockfile.pack_depth_limit_exceeded'' ''lockfile.pack_cycle''"

definition validate_lockfile :: "(string \<Rightarrow> string) \<Rightarrow> lockfile \<Rightarrow> unit result" where
  "validate_lockfile H l =
     and_then (try_each (validate_locked_asset H) (lf_assets l))
     (and_then (validate_locked_pack_member_budget l)
     (and_then (try_each (validate_locked_pack H l) (lf_packs l))
     (and_then (validate_locked_pack_graph_depth l)
     (reject_lockfile_pack_cycles l))))"

section \<open>Refreshing pack revisions\<close>

type_synonym refresh_state = "environment_manifest \<times> string btree_set \<times> string btree_set"

text \<open>The current metadata of one member, read from the manifest being refreshed.\<close>

definition refresh_member ::
  "(string \<Rightarrow> string) \<Rightarrow> environment_manifest \<Rightarrow> string \<Rightarrow> pack_member_metadata result" where
  "refresh_member H m member =
     (case bt_get (em_assets m) member of
        Some a \<Rightarrow>
          if asset_content_hash a \<noteq> asset_expected_content_hash H a then Err ''manifest.pack_member_invalid''
          else Ok (asset_metadata member (asset_content_hash a) a)
      | None \<Rightarrow>
          (case bt_get (em_packs m) member of
             Some p \<Rightarrow> Ok (pack_metadata member (pack_content_hash p) p)
           | None \<Rightarrow> Err ''manifest.unknown_pack_member''))"

definition store_refreshed_pack ::
  "(string \<Rightarrow> string) \<Rightarrow> pack_member_metadata list \<Rightarrow> derived_pack_fields \<Rightarrow> pack \<Rightarrow> pack" where
  "store_refreshed_pack H members derived p =
     pack_refresh_content_hash H
       (p\<lparr>pack_members := bt_collect (map (\<lambda>x. (pm_id x, pm_revision x)) members),
          pack_compatibility := df_compatibility derived,
          pack_content_class := df_content_class derived,
          pack_required_bindings := df_required_bindings derived\<rparr>)"

function refresh :: "(string \<Rightarrow> string) \<Rightarrow> nat \<Rightarrow> string \<Rightarrow> refresh_state \<Rightarrow> refresh_state result" where
  "refresh H depth i (m, visiting, visited) =
     (if bs_has visited i then Ok (m, visiting, visited)
      else if depth > MAX_PACK_GRAPH_DEPTH then Err ''manifest.pack_depth_limit_exceeded''
      else if bs_has visiting i then Err ''manifest.pack_cycle''
      else case bt_get (em_packs m) i of
        None \<Rightarrow> Err ''manifest.pack_missing''
      | Some p0 \<Rightarrow>
          let member_ids = bt_keys (pack_members p0)
          in if member_ids = [] then Err ''manifest.pack_empty''
          else bind_result
            (try_fold (\<lambda>(m, st) member. if bt_has (em_packs m) member then refresh H (depth + 1) member (m, st)
                          else Ok (m, st))
              (m, bs_insert i visiting, visited) member_ids)
            (\<lambda>(m', visiting', visited').
              bind_result (try_map (refresh_member H m') member_ids) (\<lambda>members.
              bind_result (derive_pack_fields members) (\<lambda>derived.
              case bt_get (em_packs m') i of
                None \<Rightarrow> Err ''selected pack remains present while refreshing''
              | Some p \<Rightarrow>
                  Ok (m'\<lparr>em_packs := bt_insert i (store_refreshed_pack H members derived p) (em_packs m')\<rparr>,
                      bs_remove i visiting', bs_insert i visited')))))"
  by pat_completeness auto
termination
  by (relation "measure (\<lambda>(_, depth, _, _). Suc MAX_PACK_GRAPH_DEPTH - depth)") auto

declare refresh.simps [simp del]

definition refresh_pack_revisions ::
  "(string \<Rightarrow> string) \<Rightarrow> environment_manifest \<Rightarrow> environment_manifest result" where
  "refresh_pack_revisions H m =
     and_then (validate_pack_member_budget pack_members (em_packs m) ''manifest.pack_member_limit_exceeded'')
     (and_then (manifest_pack_graph_depth m)
     (bind_result
       (try_fold (\<lambda>st i. refresh H 1 i st) (m, [], []) (bt_keys (em_packs m)))
       (\<lambda>(m', _, _). and_then (validate_manifest H m') (Ok m'))))"

end
