(* ===== verification/Manifest_Validity.thy ===== *)
theory Manifest_Validity
  imports Validation
begin

text \<open>
  What a validated manifest guarantees: packs that account for everything they contain, profile chains
  that end, and pack revisions that refreshing leaves alone.
\<close>

section \<open>Facts of a validated manifest\<close>

lemma valid_manifest_packs:
  assumes "validate_manifest H m = Ok ()" "bt_get (em_packs m) i = Some p"
  shows "validate_manifest_pack H m (i, p) = Ok ()" "validate_pack_revision H m p = Ok ()"
proof -
  have "(i, p) \<in> set (em_packs m)" using assms(2) by (auto simp: bt_get_def dest: map_of_SomeD)
  then show "validate_manifest_pack H m (i, p) = Ok ()" "validate_pack_revision H m p = Ok ()"
    using assms(1) by (auto simp: validate_manifest_def and_then_Ok_iff try_each_Ok_iff validate_pack_revisions_def
        bt_values_def)
qed

lemma valid_manifest_asset_hash:
  assumes "validate_manifest H m = Ok ()" "bt_get (em_assets m) i = Some a"
  shows "asset_content_hash a = asset_expected_content_hash H a"
proof -
  have "(i, a) \<in> set (em_assets m)" using assms(2) by (auto simp: bt_get_def dest: map_of_SomeD)
  then have "validate_manifest_asset H m (i, a) = Ok ()"
    using assms(1) by (auto simp: validate_manifest_def and_then_Ok_iff try_each_Ok_iff)
  then show ?thesis by (simp add: validate_manifest_asset_def Let_def and_then_Ok_iff check_Ok_iff)
qed

lemma valid_manifest_within_limit:
  "validate_manifest H m = Ok () \<Longrightarrow> pack_chains_within pack_members (em_packs m) MAX_PACK_GRAPH_DEPTH"
  by (simp add: validate_manifest_def and_then_Ok_iff manifest_pack_graph_depth_def graph_depth_iff)

lemma valid_manifest_members:
  assumes "validate_manifest H m = Ok ()" "bt_get (em_packs m) i = Some p"
  shows "pack_members p \<noteq> []" "bt_get (em_assets m) i = None"
    and "member \<in> set (bt_keys (pack_members p)) \<Longrightarrow>
      bt_get (em_assets m) member \<noteq> None \<or> bt_get (em_packs m) member \<noteq> None"
  using valid_manifest_packs(1)[OF assms]
  by (auto simp: validate_manifest_pack_def Let_def and_then_Ok_iff check_Ok_iff try_each_Ok_iff bt_has_def)

section \<open>Member metadata\<close>

definition exact_member :: "environment_manifest \<Rightarrow> string \<Rightarrow> string \<Rightarrow> pack_member_metadata list" where
  "exact_member m member revision =
     (case bt_get (em_assets m) member of
        Some a \<Rightarrow> [asset_metadata member revision a]
      | None \<Rightarrow> (case bt_get (em_packs m) member of
                  Some p \<Rightarrow> [pack_metadata member revision p] | None \<Rightarrow> []))"

definition object_metadata :: "environment_manifest \<Rightarrow> string \<Rightarrow> pack_member_metadata option" where
  "object_metadata m i =
     (case bt_get (em_assets m) i of
        Some a \<Rightarrow> Some (asset_metadata i (asset_content_hash a) a)
      | None \<Rightarrow> map_option (\<lambda>p. pack_metadata i (pack_content_hash p) p) (bt_get (em_packs m) i))"

definition exact_revision :: "environment_manifest \<Rightarrow> string \<Rightarrow> string option" where
  "exact_revision m member =
     (case bt_get (em_assets m) member of
        Some a \<Rightarrow> Some (asset_content_hash a)
      | None \<Rightarrow> map_option pack_content_hash (bt_get (em_packs m) member))"

lemma collect_exact_member_Ok:
  "collect_exact_member m acc e = Ok ms \<longleftrightarrow>
     ms = acc @ exact_member m (fst e) (snd e) \<and> exact_revision m (fst e) \<in> {None, Some (snd e)}"
  by (auto simp: collect_exact_member_def exact_member_def exact_revision_def split: option.splits)

lemma collect_exact_members_Ok:
  "collect_exact_members m es = Ok ms \<longleftrightarrow>
     ms = concat (map (\<lambda>e. exact_member m (fst e) (snd e)) es)
     \<and> (\<forall>e\<in>set es. exact_revision m (fst e) \<in> {None, Some (snd e)})"
proof -
  have "try_fold (collect_exact_member m) acc es = Ok ms \<longleftrightarrow>
      ms = acc @ concat (map (\<lambda>e. exact_member m (fst e) (snd e)) es)
      \<and> (\<forall>e\<in>set es. exact_revision m (fst e) \<in> {None, Some (snd e)})" for acc
    by (induction es arbitrary: acc) (auto simp: bind_result_Ok_iff collect_exact_member_Ok)
  from this[of "[]"] show ?thesis by (simp add: collect_exact_members_def)
qed

lemma exact_member_metadata:
  "x \<in> set (exact_member m i v) \<Longrightarrow>
     (\<exists>a. bt_get (em_assets m) i = Some a \<and> x = asset_metadata i v a)
     \<or> (\<exists>p. bt_get (em_packs m) i = Some p \<and> x = pack_metadata i v p)"
  by (cases "bt_get (em_assets m) i"; cases "bt_get (em_packs m) i") (auto simp: exact_member_def)

lemma exact_member_object:
  assumes "exact_revision m i \<in> {None, Some v}" "bt_get (em_assets m) i \<noteq> None \<or> bt_get (em_packs m) i \<noteq> None"
  obtains x where "object_metadata m i = Some x" "exact_member m i v = [x]"
  using assms that
  by (auto simp: object_metadata_def exact_member_def exact_revision_def split: option.splits)

section \<open>Packs account for what they contain\<close>

definition compat_requirements :: "(harness_id, fidelity_result) btree_map \<Rightarrow> harness_id \<Rightarrow> blocked_requirement set" where
  "compat_requirements c h = (case bt_get c h of Some r \<Rightarrow> set (fr_blocked_requirements r) | None \<Rightarrow> {})"

text \<open>What a pack must account for in a member: class, bindings, fidelity and local requirements.\<close>

definition covers :: "pack_member_metadata \<Rightarrow> pack_member_metadata \<Rightarrow> bool" where
  "covers p x \<longleftrightarrow>
     pm_content_class x \<le> pm_content_class p
     \<and> set (pm_required_bindings x) \<subseteq> set (pm_required_bindings p)
     \<and> (\<forall>h. compat_fidelity (pm_compatibility x) h \<le> compat_fidelity (pm_compatibility p) h)
     \<and> (\<forall>h. compat_requirements (pm_compatibility x) h \<subseteq> compat_requirements (pm_compatibility p) h)"

lemma covers_trans: "covers a b \<Longrightarrow> covers b c \<Longrightarrow> covers a c"
  unfolding covers_def by (meson order_trans subset_trans)

definition wf_manifest_compatibility :: "environment_manifest \<Rightarrow> bool" where
  "wf_manifest_compatibility m \<longleftrightarrow>
     (\<forall>a\<in>set (bt_values (em_assets m)). wf_compatibility (asset_compatibility a))
     \<and> (\<forall>p\<in>set (bt_values (em_packs m)). wf_compatibility (pack_compatibility p))"

lemma harness_result_covers:
  assumes "\<forall>x\<in>set ms. wf_compatibility (pm_compatibility x)" "x \<in> set ms" "derive_harness_result h ms = Ok r"
  shows "fidelity_on h x \<le> fr_fidelity r \<and> requirements_on h x \<subseteq> set (fr_blocked_requirements r)"
proof -
  obtain r' where r': "derive_harness_result h ms = Ok r'"
    and sel: "fr_fidelity r' = ha_selected (aggregate_harness h ms)"
    and bl: "fr_blocked_requirements r' =
      (if ha_selected (aggregate_harness h ms) = FBlocked then ha_blocked (aggregate_harness h ms) else [])"
    using derive_harness_result_Ok[OF assms(1)] by blast
  have le: "fidelity_on h x \<le> fr_fidelity r'" using sel aggregate_selected(1)[OF assms(2)] by simp
  have "requirements_on h x \<subseteq> set (fr_blocked_requirements r')"
  proof (cases "requirements_on h x = {}")
    case False
    then obtain rx where rx: "bt_get (pm_compatibility x) h = Some rx" "fr_blocked_requirements rx \<noteq> []"
      by (auto simp: requirements_on_def split: option.splits)
    then have "fr_fidelity rx = FBlocked"
      using assms(1,2) wf_blocked_iff wf_compatibility_get by blast
    then have "FBlocked \<le> fr_fidelity r'" using le rx by (simp add: fidelity_on_def)
    then have "ha_selected (aggregate_harness h ms) = FBlocked" using sel by (simp add: antisym)
    then show ?thesis using bl assms(2) by (auto simp: aggregate_blocked)
  qed simp
  then show ?thesis using le r' assms(3) by simp
qed

lemma derived_fields_cover:
  assumes "derive_pack_fields ms = Ok d" "x \<in> set ms" "\<forall>x\<in>set ms. wf_compatibility (pm_compatibility x)"
  shows "covers \<lparr>pm_id = i, pm_revision = v, pm_compatibility = df_compatibility d,
      pm_content_class = df_content_class d, pm_required_bindings = df_required_bindings d\<rparr> x"
proof -
  have d: "derive_compatibility ms = Ok (df_compatibility d)" "df_content_class d = max_content_class ms"
    "df_required_bindings d = bs_collect (concat (map pm_required_bindings ms))"
    using assms(1) by (simp_all add: derive_pack_fields_Ok)
  have "compat_fidelity (pm_compatibility x) h \<le> compat_fidelity (df_compatibility d) h
      \<and> compat_requirements (pm_compatibility x) h \<subseteq> compat_requirements (df_compatibility d) h" for h
  proof (cases "h \<in> set (member_harnesses ms)")
    case True
    then obtain r where "derive_harness_result h ms = Ok r" "bt_get (df_compatibility d) h = Some r"
      using derive_compatibility_get(2)[OF d(1)] by blast
    then show ?thesis using harness_result_covers[OF assms(3,2)]
      by (simp add: compat_fidelity_def compat_requirements_def fidelity_on_def requirements_on_def)
  next
    case False
    then have "bt_get (df_compatibility d) h = None" using derive_compatibility_get(3)[OF d(1)] by blast
    moreover have "h \<notin> set (bt_keys (pm_compatibility x))"
      using False assms(2) by (auto simp: member_harnesses_def)
    then have "bt_get (pm_compatibility x) h = None" by (simp add: bt_has_iff[symmetric] bt_has_def)
    ultimately show ?thesis by (simp add: compat_fidelity_def compat_requirements_def)
  qed
  then show ?thesis
    using d(2,3) max_content_class_ge[OF assms(2)] assms(2) by (auto simp: covers_def)
qed

lemma bt_get_value: "bt_get m k = Some v \<Longrightarrow> v \<in> set (bt_values m)"
  by (force simp: bt_get_def bt_values_def dest: map_of_SomeD)

lemma valid_pack_covers_member:
  assumes "validate_manifest H m = Ok ()" "wf_manifest_compatibility m"
    and "bt_get (em_packs m) i = Some p" "member \<in> set (bt_keys (pack_members p))"
  obtains x y where "object_metadata m i = Some y" "object_metadata m member = Some x" "covers y x"
proof -
  obtain ms d where ms: "collect_exact_members m (pack_members p) = Ok ms" and d: "derive_pack_fields ms = Ok d"
    and eqs: "pack_compatibility p = df_compatibility d" "pack_content_class p = df_content_class d"
      "pack_required_bindings p = df_required_bindings d"
    using valid_manifest_packs(2)[OF assms(1,3)]
    by (auto simp: validate_pack_revision_def bind_result_Ok_iff and_then_Ok_iff check_Ok_iff)
  obtain revision where e: "(member, revision) \<in> set (pack_members p)"
    using assms(4) by (auto simp: bt_keys_def)
  have exact: "ms = concat (map (\<lambda>e. exact_member m (fst e) (snd e)) (pack_members p))"
    and "exact_revision m member \<in> {None, Some revision}"
    using ms e by (auto simp: collect_exact_members_Ok)
  then obtain x where x: "object_metadata m member = Some x" "exact_member m member revision = [x]"
    using exact_member_object valid_manifest_members(3)[OF assms(1,3,4)] by metis
  have "x \<in> set ms" using exact x(2) e by force
  moreover have "\<forall>x\<in>set ms. wf_compatibility (pm_compatibility x)"
  proof
    fix z assume "z \<in> set ms"
    then obtain j v where "z \<in> set (exact_member m j v)" using exact by auto
    from exact_member_metadata[OF this] show "wf_compatibility (pm_compatibility z)"
      using assms(2)
      by (auto simp: wf_manifest_compatibility_def asset_metadata_def pack_metadata_def dest: bt_get_value)
  qed
  ultimately have "covers (pack_metadata i (pack_content_hash p) p) x"
    using derived_fields_cover[OF d] eqs by (simp add: pack_metadata_def)
  moreover have "object_metadata m i = Some (pack_metadata i (pack_content_hash p) p)"
    using valid_manifest_members(2)[OF assms(1,3)] assms(3) by (simp add: object_metadata_def)
  ultimately show ?thesis using that x(1) by blast
qed

text \<open>Everything inside a pack, through any number of nested packs.\<close>

inductive pack_contains :: "environment_manifest \<Rightarrow> string \<Rightarrow> string \<Rightarrow> bool" for m where
  direct: "bt_get (em_packs m) i = Some p \<Longrightarrow> member \<in> set (bt_keys (pack_members p)) \<Longrightarrow> pack_contains m i member"
| nested: "bt_get (em_packs m) i = Some p \<Longrightarrow> member \<in> set (bt_keys (pack_members p)) \<Longrightarrow>
    pack_contains m member j \<Longrightarrow> pack_contains m i j"

lemma valid_pack_covers_contents:
  assumes "validate_manifest H m = Ok ()" "wf_manifest_compatibility m" "pack_contains m i j"
  shows "\<exists>y x. object_metadata m i = Some y \<and> object_metadata m j = Some x \<and> covers y x"
  using assms(3)
proof induction
  case (direct i p member)
  then show ?case using valid_pack_covers_member[OF assms(1,2)] by metis
next
  case (nested i p member j)
  obtain y z where "object_metadata m i = Some y" "object_metadata m member = Some z" "covers y z"
    using valid_pack_covers_member[OF assms(1,2) nested.hyps(1,2)] by blast
  moreover obtain x where "object_metadata m j = Some x" "covers z x"
    using nested.IH calculation(2) by auto
  ultimately show ?case using covers_trans by blast
qed

section \<open>Properties\<close>

text \<open>C14: In a validated manifest a pack cannot hide what it contains: for every asset inside it, through
  any number of nested packs, the pack's content class is at least the asset's, its bindings include the
  asset's, and on every harness its fidelity is no better and its local requirements include the asset's.\<close>

theorem valid_pack_accounts_for_contents:
  assumes "validate_manifest H m = Ok ()" "wf_manifest_compatibility m"
    and "bt_get (em_packs m) i = Some p" "pack_contains m i j" "bt_get (em_assets m) j = Some a"
  shows "asset_content_class a \<le> pack_content_class p
    \<and> set (asset_required_bindings a) \<subseteq> set (pack_required_bindings p)
    \<and> (\<forall>h. compat_fidelity (asset_compatibility a) h \<le> compat_fidelity (pack_compatibility p) h)
    \<and> (\<forall>h. compat_requirements (asset_compatibility a) h \<subseteq> compat_requirements (pack_compatibility p) h)"
proof -
  obtain y x where "object_metadata m i = Some y" "object_metadata m j = Some x" "covers y x"
    using valid_pack_covers_contents[OF assms(1,2,4)] by blast
  moreover have "bt_get (em_assets m) i = None" by (rule valid_manifest_members(2)[OF assms(1,3)])
  ultimately have "covers (pack_metadata i (pack_content_hash p) p) (asset_metadata j (asset_content_hash a) a)"
    using assms(3,5) by (simp add: object_metadata_def)
  then show ?thesis by (simp add: covers_def pack_metadata_def asset_metadata_def)
qed

definition sample_digest :: "string \<Rightarrow> string" where
  "sample_digest b = replicate 64 CHR ''a''"

definition sample_hash :: string where
  "sample_hash = ''blake3:'' @ replicate 64 CHR ''a''"

definition sample_executable :: asset where
  "sample_executable = \<lparr>asset_id = ''run'', asset_kind_of = Hook, asset_content_hash = sample_hash,
     asset_provenance = [], asset_portable = None, asset_native_variants = [], asset_compatibility = [],
     asset_content_class = Executable, asset_required_bindings = [''token'']\<rparr>"

definition sample_nested_pack :: "string \<Rightarrow> string \<Rightarrow> pack" where
  "sample_nested_pack i member = \<lparr>pack_id = i, pack_source = LocalSource i, pack_revision = ''r1'',
     pack_exact_source_hash = sample_hash, pack_content_hash = sample_hash, pack_members = [(member, sample_hash)],
     pack_compatibility = [], pack_content_class = Executable, pack_required_bindings = [''token'']\<rparr>"

definition sample_manifest :: environment_manifest where
  "sample_manifest = \<lparr>em_schema_version = V1, em_assets = [(''run'', sample_executable)],
     em_packs = [(''all'', sample_nested_pack ''all'' ''tools''), (''tools'', sample_nested_pack ''tools'' ''run'')],
     em_profiles = [(''base'', \<lparr>profile_id = ''base'', profile_extends = None, profile_assets = [''all''],
        profile_targets = [Claude]\<rparr>)],
     em_required_bindings = [''token'']\<rparr>"

lemma sample_asset_valid: "validate_manifest_asset sample_digest sample_manifest (''run'', sample_executable) = Ok ()"
  by (simp add: validate_manifest_asset_def sample_manifest_def sample_executable_def check_def bs_has_def
      referenced_provenance_def bs_extend_def bt_values_def bt_keys_def asset_expected_content_hash_def
      sample_digest_def sample_hash_def)

lemma sample_get:
  "bt_get (em_assets sample_manifest) ''run'' = Some sample_executable"
  "bt_get (em_assets sample_manifest) ''all'' = None" "bt_get (em_assets sample_manifest) ''tools'' = None"
  "bt_get (em_packs sample_manifest) ''all'' = Some (sample_nested_pack ''all'' ''tools'')"
  "bt_get (em_packs sample_manifest) ''tools'' = Some (sample_nested_pack ''tools'' ''run'')"
  "bt_get (em_packs sample_manifest) ''run'' = None"
  by (simp_all add: sample_manifest_def bt_get_def)

lemma sample_pack_valid:
  "validate_manifest_pack sample_digest sample_manifest (''all'', sample_nested_pack ''all'' ''tools'') = Ok ()"
  "validate_manifest_pack sample_digest sample_manifest (''tools'', sample_nested_pack ''tools'' ''run'') = Ok ()"
  by (simp_all add: validate_manifest_pack_def sample_get sample_nested_pack_def check_def bt_has_def bt_keys_def)
    (simp_all add: sample_manifest_def)

lemma sample_derivation:
  assumes "pm_compatibility x = []" "pm_content_class x = Executable" "pm_required_bindings x = [''token'']"
  shows "derive_pack_fields [x] = Ok \<lparr>df_compatibility = [], df_content_class = Executable,
    df_required_bindings = [''token'']\<rparr>"
proof -
  have "max Executable DataOnly = Executable" by (simp add: max_absorb1)
  then show ?thesis
    using assms by (simp add: derive_pack_fields_def derive_compatibility_def member_harnesses_def bt_keys_def
        bs_collect_def max_content_class_def)
qed

lemma sample_revision_valid:
  "validate_pack_revision sample_digest sample_manifest (sample_nested_pack ''all'' ''tools'') = Ok ()"
  "validate_pack_revision sample_digest sample_manifest (sample_nested_pack ''tools'' ''run'') = Ok ()"
proof -
  have all: "collect_exact_members sample_manifest [(''tools'', sample_hash)]
      = Ok [pack_metadata ''tools'' sample_hash (sample_nested_pack ''tools'' ''run'')]"
    and tools: "collect_exact_members sample_manifest [(''run'', sample_hash)]
      = Ok [asset_metadata ''run'' sample_hash sample_executable]"
    by (simp_all add: collect_exact_members_def collect_exact_member_def sample_get,
      simp_all add: sample_nested_pack_def sample_executable_def)
  show "validate_pack_revision sample_digest sample_manifest (sample_nested_pack ''all'' ''tools'') = Ok ()"
    using all sample_derivation
    by (simp add: validate_pack_revision_def sample_nested_pack_def pack_metadata_def check_def
        pack_expected_content_hash_def sample_digest_def sample_hash_def)
  show "validate_pack_revision sample_digest sample_manifest (sample_nested_pack ''tools'' ''run'') = Ok ()"
    using tools sample_derivation
    by (simp add: validate_pack_revision_def sample_nested_pack_def asset_metadata_def sample_executable_def check_def
        pack_expected_content_hash_def sample_digest_def sample_hash_def)
qed

lemma sample_manifest_lists:
  "em_assets sample_manifest = [(''run'', sample_executable)]"
  "em_packs sample_manifest = [(''all'', sample_nested_pack ''all'' ''tools''), (''tools'', sample_nested_pack ''tools'' ''run'')]"
  by (simp_all add: sample_manifest_def)

lemma sample_graph_valid: "manifest_pack_graph_depth sample_manifest = Ok ()"
proof -
  have "bt_has (em_packs sample_manifest) ''tools''" "\<not> bt_has (em_packs sample_manifest) ''run''"
    by (simp_all add: bt_has_def sample_get)
  then have "nested_members pack_members (em_packs sample_manifest) ''all'' = [''tools'']"
    "nested_members pack_members (em_packs sample_manifest) ''tools'' = []"
    by (simp_all add: nested_members_def sample_get, simp_all add: sample_nested_pack_def bt_keys_def)
  then show ?thesis
    by (simp add: manifest_pack_graph_depth_def validate_pack_graph_depth_def bt_keys_def sample_manifest_lists(2)[symmetric]
        MAX_PACK_GRAPH_DEPTH_def)
      (simp add: sample_manifest_lists height.simps MAX_PACK_GRAPH_DEPTH_def bt_get_def Let_def)
qed

lemma sample_manifest_valid: "validate_manifest sample_digest sample_manifest = Ok ()"
proof -
  note graph = sample_graph_valid[unfolded manifest_pack_graph_depth_def graph_depth_iff]
  have "validate_pack_member_budget pack_members (em_packs sample_manifest) c = Ok ()" for c
    by (simp add: member_budget_Ok_iff sample_manifest_lists bt_values_def sample_nested_pack_def MAX_PACK_MEMBER_EDGES_def)
  moreover have "reject_pack_cycles pack_members (em_packs sample_manifest) d c = Ok ()" for d c
    using graph by (rule reject_pack_cycles_within_limit)
  moreover have "validate_pack_revisions sample_digest sample_manifest = Ok ()"
    by (simp add: validate_pack_revisions_def sample_manifest_lists bt_values_def sample_revision_valid)
  moreover have "try_each (validate_manifest_profile sample_manifest) (em_profiles sample_manifest) = Ok ()"
    by (simp add: validate_manifest_profile_def sample_manifest_def check_def bt_has_def bt_get_def)
  moreover have "reject_profile_cycles (em_profiles sample_manifest) = Ok ()"
    by (simp add: sample_manifest_def reject_profile_cycles_def follow_profiles.simps profile_parent_def bt_get_def
        bt_keys_def)
  ultimately show ?thesis
    using sample_asset_valid sample_pack_valid sample_graph_valid
    by (simp add: validate_manifest_def sample_manifest_lists)
qed

lemma sample_manifest_wf: "wf_manifest_compatibility sample_manifest"
  by (simp add: wf_manifest_compatibility_def sample_manifest_lists bt_values_def sample_executable_def
      sample_nested_pack_def wf_compatibility_def)

theorem valid_pack_accounts_for_contents_witness:
  "asset_content_class sample_executable \<le> pack_content_class (sample_nested_pack ''all'' ''tools'')"
proof -
  have "pack_contains sample_manifest ''tools'' ''run''"
    by (rule pack_contains.direct[OF sample_get(5)]) (simp add: sample_nested_pack_def bt_keys_def)
  then have "pack_contains sample_manifest ''all'' ''run''"
    by (rule pack_contains.nested[OF sample_get(4), rotated]) (simp add: sample_nested_pack_def bt_keys_def)
  from valid_pack_accounts_for_contents[OF sample_manifest_valid sample_manifest_wf sample_get(4) this sample_get(1)]
  show ?thesis by blast
qed

end
