(* ===== verification/Manifest_Refresh.thy ===== *)
theory Manifest_Refresh
  imports Manifest_Validity
begin

text \<open>
  Refreshing pack revisions and following profile inheritance: refreshing changes only the derived
  fields of packs, a validated manifest is a fixed point of it, and the inheritance check accepts
  exactly the manifests whose inheritance chains end.
\<close>

section \<open>A validated manifest is a fixed point\<close>

definition wf_packs :: "environment_manifest \<Rightarrow> bool" where
  "wf_packs m \<longleftrightarrow> bt_wf (em_packs m) \<and> (\<forall>p\<in>set (bt_values (em_packs m)). bt_wf (pack_members p))"

lemma refresh_members_exact:
  assumes "validate_manifest H m = Ok ()" "\<forall>e\<in>set es. exact_revision m (fst e) = Some (snd e)"
  shows "try_map (refresh_member H m) (map fst es) = Ok (concat (map (\<lambda>e. exact_member m (fst e) (snd e)) es))"
  using assms(2)
proof (induction es)
  case (Cons e es)
  have "refresh_member H m (fst e) = Ok (hd (exact_member m (fst e) (snd e)))
      \<and> exact_member m (fst e) (snd e) = [hd (exact_member m (fst e) (snd e))]"
    using Cons.prems valid_manifest_asset_hash[OF assms(1), of "fst e"]
    by (auto simp: refresh_member_def exact_member_def exact_revision_def split: option.splits)
  then show ?case using Cons by (metis (no_types, lifting) append_Cons append_Nil bind_result_simps(2) concat.simps(2)
        list.set_intros(2) list.simps(9) try_map.simps(2))
qed simp

lemma exact_member_entry: "exact_member m i v = [x] \<Longrightarrow> (pm_id x, pm_revision x) = (i, v)"
  by (auto simp: exact_member_def asset_metadata_def pack_metadata_def split: option.splits)

lemma exact_members_entries:
  assumes "\<forall>e\<in>set es. exact_revision m (fst e) = Some (snd e)"
  shows "map (\<lambda>x. (pm_id x, pm_revision x)) (concat (map (\<lambda>e. exact_member m (fst e) (snd e)) es)) = es"
  using assms
proof (induction es)
  case (Cons e es)
  then obtain x where x: "exact_member m (fst e) (snd e) = [x]"
    by (auto simp: exact_member_def exact_revision_def split: option.splits)
  then show ?case using Cons exact_member_entry[OF x] by simp
qed simp

text \<open>The step of \<open>refresh\<close> that re-derives one pack leaves a validated pack as it is.\<close>

lemma valid_pack_rederived:
  assumes "validate_manifest H m = Ok ()" "wf_packs m" "bt_get (em_packs m) i = Some p"
  obtains members derived
  where "try_map (refresh_member H m) (bt_keys (pack_members p)) = Ok members"
    and "derive_pack_fields members = Ok derived"
    and "store_refreshed_pack H members derived p = p"
proof -
  obtain ms d where ms: "collect_exact_members m (pack_members p) = Ok ms" and d: "derive_pack_fields ms = Ok d"
    and eqs: "pack_compatibility p = df_compatibility d" "pack_content_class p = df_content_class d"
      "pack_required_bindings p = df_required_bindings d" "pack_content_hash p = pack_expected_content_hash H p"
    using valid_manifest_packs(2)[OF assms(1,3)]
    by (auto simp: validate_pack_revision_def bind_result_Ok_iff and_then_Ok_iff check_Ok_iff)
  have rev: "exact_revision m (fst e) = Some (snd e)" if "e \<in> set (pack_members p)" for e
  proof -
    have "fst e \<in> set (bt_keys (pack_members p))" using that by (auto simp: bt_keys_def)
    from valid_manifest_members(3)[OF assms(1,3) this]
    have "exact_revision m (fst e) \<noteq> None" by (auto simp: exact_revision_def split: option.splits)
    moreover have "exact_revision m (fst e) \<in> {None, Some (snd e)}"
      using ms that by (auto simp: collect_exact_members_Ok)
    ultimately show ?thesis by auto
  qed
  have ms_eq: "ms = concat (map (\<lambda>e. exact_member m (fst e) (snd e)) (pack_members p))"
    using ms by (simp add: collect_exact_members_Ok)
  have map: "try_map (refresh_member H m) (bt_keys (pack_members p)) = Ok ms"
    unfolding bt_keys_def ms_eq using refresh_members_exact[OF assms(1)] rev by blast
  have "bt_wf (pack_members p)" using assms(2) bt_get_value[OF assms(3)] by (simp add: wf_packs_def)
  moreover have "map (\<lambda>x. (pm_id x, pm_revision x)) ms = pack_members p"
    unfolding ms_eq using exact_members_entries rev by blast
  ultimately have "bt_collect (map (\<lambda>x. (pm_id x, pm_revision x)) ms) = pack_members p"
    by (simp add: bt_collect_id)
  then have "store_refreshed_pack H ms d p = pack_refresh_content_hash H p"
    by (simp add: store_refreshed_pack_def eqs(1-3)[symmetric])
  also have "\<dots> = p" using eqs(4) by (simp add: pack_refresh_content_hash_def)
  finally show ?thesis using that map d by blast
qed

lemma nested_members_of: "bt_get (em_packs m) i = Some p \<Longrightarrow>
    nested_members pack_members (em_packs m) i = filter (bt_has (em_packs m)) (bt_keys (pack_members p))"
  by (simp add: nested_members_def)

lemma refresh_fixed:
  assumes "validate_manifest H m = Ok ()" "wf_packs m"
    and "pack_chain pack_members (em_packs m) (path @ [i])" "depth = Suc (length path)" "set V = set path"
  shows "\<exists>V' D'. refresh H depth i (m, V, D) = Ok (m, V', D') \<and> set V' = set path"
  using assms(3-)
proof (induction "Suc MAX_PACK_GRAPH_DEPTH - depth" arbitrary: path i depth V D rule: less_induct)
  case less
  note within = valid_manifest_within_limit[OF assms(1)]
  have i: "i \<notin> set path" using bounded_chain_no_repeat[OF within] less.prems(1) by blast
  have depth: "depth \<le> MAX_PACK_GRAPH_DEPTH"
    using within less.prems(1,2) long_chain_exceeds[of pack_members "em_packs m" "path @ [i]" MAX_PACK_GRAPH_DEPTH]
    by fastforce
  obtain p where p: "bt_get (em_packs m) i = Some p"
    using pack_chain_present[OF less.prems(1), of i] by (auto simp: bt_has_def)
  have nonempty: "bt_keys (pack_members p) \<noteq> []"
    using valid_manifest_members(1)[OF assms(1) p] by (simp add: bt_keys_def)
  show ?case
  proof (cases "i \<in> set D")
    case True
    then show ?thesis using less.prems(3) by (auto simp: refresh.simps)
  next
    case False
    let ?step = "\<lambda>(m, st) member. if bt_has (em_packs m) member then refresh H (depth + 1) member (m, st) else Ok (m, st)"
    have sub: "\<exists>V' D'. ?step (m, V1, D1) b = Ok (m, V', D') \<and> set V' = set (path @ [i])"
      if b: "b \<in> set (bt_keys (pack_members p))" and V1: "set V1 = set (path @ [i])" for b V1 D1
    proof (cases "bt_has (em_packs m) b")
      case True
      then have "nested_edge pack_members (em_packs m) i b"
        using b p by (simp add: nested_edge_def nested_members_of)
      then have "pack_chain pack_members (em_packs m) ((path @ [i]) @ [b])"
        using less.prems(1) pack_chain_append[of "path @ [i]" "[b]" pack_members "em_packs m"] True by simp
      then show ?thesis
        using less.hyps[of "depth + 1" "path @ [i]" b V1 D1] less.prems(2) depth V1 True by simp
    qed (use V1 in simp)
    have loop: "\<exists>V' D'. try_fold ?step (m, V1, D1) ns = Ok (m, V', D') \<and> set V' = set (path @ [i])"
      if "set ns \<subseteq> set (bt_keys (pack_members p))" "set V1 = set (path @ [i])" for ns V1 D1
      using that
    proof (induction ns arbitrary: V1 D1)
      case (Cons b ns)
      then obtain V2 D2 where st: "?step (m, V1, D1) b = Ok (m, V2, D2)" and V2: "set V2 = set (path @ [i])"
        using sub[of b V1 D1] by auto
      obtain V' D' where "try_fold ?step (m, V2, D2) ns = Ok (m, V', D')" "set V' = set (path @ [i])"
        using Cons.IH[of V2 D2] Cons.prems(1) V2 by auto
      then show ?case using st by simp
    qed simp
    obtain V' D' where run: "try_fold ?step (m, bs_insert i V, D) (bt_keys (pack_members p)) = Ok (m, V', D')"
      and V': "set V' = set (path @ [i])"
      using loop[of "bt_keys (pack_members p)" "bs_insert i V" D] less.prems(3) by auto
    obtain members derived where "try_map (refresh_member H m) (bt_keys (pack_members p)) = Ok members"
      "derive_pack_fields members = Ok derived" "store_refreshed_pack H members derived p = p"
      using valid_pack_rederived[OF assms(1,2) p] by blast
    moreover have "bt_insert i p (em_packs m) = em_packs m"
      using assms(2) p by (auto simp: wf_packs_def intro: btm.put_present)
    moreover have "i \<notin> set V" using i less.prems(3) by simp
    ultimately show ?thesis
      using False depth p nonempty run V' i by (auto simp: refresh.simps)
  qed
qed

lemma refresh_valid_manifest:
  assumes "validate_manifest H m = Ok ()" "wf_packs m"
  shows "refresh_pack_revisions H m = Ok m"
proof -
  have "\<exists>V' D'. try_fold (\<lambda>st i. refresh H 1 i st) (m, V, D) ks = Ok (m, V', D')"
    if "set V = {}" "\<forall>i\<in>set ks. bt_has (em_packs m) i" for V D ks
    using that
  proof (induction ks arbitrary: V D)
    case (Cons i ks)
    then obtain V1 D1 where "refresh H 1 i (m, V, D) = Ok (m, V1, D1)" "set V1 = {}"
      using refresh_fixed[OF assms, of "[]" i 1 V D] by auto
    then show ?case using Cons.IH[of V1 D1] Cons.prems(2) by auto
  qed simp
  from this[of "[]" "bt_keys (em_packs m)" "[]"]
  obtain V' D' where "try_fold (\<lambda>st i. refresh H 1 i st) (m, [], []) (bt_keys (em_packs m)) = Ok (m, V', D')"
    by (auto simp: bt_has_iff)
  then show ?thesis
    using assms(1) by (simp add: refresh_pack_revisions_def validate_manifest_def and_then_Ok_iff)
qed

section \<open>Refreshing changes derived fields only\<close>

definition pack_shape :: "pack \<Rightarrow> string \<times> source \<times> string \<times> string \<times> string set" where
  "pack_shape p = (pack_id p, pack_source p, pack_revision p, pack_exact_source_hash p, set (bt_keys (pack_members p)))"

definition same_shape :: "environment_manifest \<Rightarrow> environment_manifest \<Rightarrow> bool" where
  "same_shape m m' \<longleftrightarrow>
     em_schema_version m' = em_schema_version m \<and> em_assets m' = em_assets m \<and> em_profiles m' = em_profiles m
     \<and> em_required_bindings m' = em_required_bindings m
     \<and> map_option pack_shape \<circ> bt_get (em_packs m') = map_option pack_shape \<circ> bt_get (em_packs m)"

lemma same_shape_refl: "same_shape m m"
  by (simp add: same_shape_def)

lemma same_shape_trans: "same_shape a b \<Longrightarrow> same_shape b c \<Longrightarrow> same_shape a c"
  by (simp add: same_shape_def)

lemma set_keys_collect: "set (bt_keys (bt_collect xs)) = fst ` set xs"
proof -
  have "k \<in> set (bt_keys (bt_collect xs)) \<longleftrightarrow> bt_get (bt_collect xs) k \<noteq> None" for k
    by (simp add: bt_has_iff[symmetric] bt_has_def)
  also have "\<dots> k \<longleftrightarrow> k \<in> fst ` set xs" for k
    by (simp add: bt_get_collect map_of_eq_None_iff)
  finally show ?thesis by blast
qed

lemma refresh_members_ids:
  assumes "try_map (refresh_member H m) ids = Ok ms"
  shows "map pm_id ms = ids"
proof -
  have id: "refresh_member H m i = Ok x \<Longrightarrow> pm_id x = i" for i x
    by (auto simp: refresh_member_def asset_metadata_def pack_metadata_def split: option.splits if_splits)
  show ?thesis
    using assms by (induction ids arbitrary: ms) (auto simp: bind_result_Ok_iff dest: id)
qed

lemma store_shape:
  assumes "map pm_id ms = ids" "set ids = set (bt_keys (pack_members p))"
  shows "pack_shape (store_refreshed_pack H ms d p) = pack_shape p"
proof -
  have "fst ` set (map (\<lambda>x. (pm_id x, pm_revision x)) ms) = set (map pm_id ms)"
    by (simp add: image_image)
  then have "set (bt_keys (bt_collect (map (\<lambda>x. (pm_id x, pm_revision x)) ms))) = set (bt_keys (pack_members p))"
    unfolding set_keys_collect assms(1) assms(2) by simp
  then show ?thesis
    by (simp add: pack_shape_def store_refreshed_pack_def pack_refresh_content_hash_def)
qed

lemma refresh_shape:
  assumes "refresh H depth i (m, V, D) = Ok (m', V', D')"
  shows "same_shape m m'"
  using assms
proof (induction "Suc MAX_PACK_GRAPH_DEPTH - depth" arbitrary: depth i m V D m' V' D' rule: less_induct)
  case less
  show ?case
  proof (cases "bs_has D i")
    case True
    then show ?thesis using less.prems by (simp add: refresh.simps same_shape_refl)
  next
    case False
    let ?step = "\<lambda>(m, st) member. if bt_has (em_packs m) member then refresh H (depth + 1) member (m, st) else Ok (m, st)"
    obtain p0 m1 V1 D1 ms d p where depth: "\<not> depth > MAX_PACK_GRAPH_DEPTH"
      and p0: "bt_get (em_packs m) i = Some p0"
      and loop: "try_fold ?step (m, bs_insert i V, D) (bt_keys (pack_members p0)) = Ok (m1, V1, D1)"
      and ms: "try_map (refresh_member H m1) (bt_keys (pack_members p0)) = Ok ms"
      and p: "bt_get (em_packs m1) i = Some p"
      and m': "m' = m1\<lparr>em_packs := bt_insert i (store_refreshed_pack H ms d p) (em_packs m1)\<rparr>"
      using less.prems False
      by (auto simp: refresh.simps[of H depth i m V D] bind_result_Ok_iff Let_def split: if_splits option.splits)
    have "case (m1, V1, D1) of (m1, _) \<Rightarrow> same_shape m m1"
    proof (rule try_fold_invariant[OF loop, where P = "\<lambda>s. case s of (m1, _) \<Rightarrow> same_shape m m1"])
      fix u x v assume u: "case u of (m1, _) \<Rightarrow> same_shape m m1" and step: "?step u x = Ok v"
      obtain mu Vu Du mv Vv Dv where uv: "u = (mu, Vu, Du)" "v = (mv, Vv, Dv)" by (metis prod.collapse)
      then have "same_shape mu mv"
        using step less.hyps[of "depth + 1" x mu Vu Du mv Vv Dv] depth by (auto simp: same_shape_refl split: if_splits)
      then show "case v of (m1, _) \<Rightarrow> same_shape m m1" using u uv same_shape_trans by auto
    qed (simp add: same_shape_refl)
    then have m1: "same_shape m m1" by simp
    then have "map_option pack_shape (bt_get (em_packs m1) i) = map_option pack_shape (bt_get (em_packs m) i)"
      unfolding same_shape_def by (metis comp_apply)
    then have "set (bt_keys (pack_members p0)) = set (bt_keys (pack_members p))"
      using p p0 by (simp add: pack_shape_def)
    then have "pack_shape (store_refreshed_pack H ms d p) = pack_shape p"
      using store_shape[OF refresh_members_ids[OF ms]] by simp
    then have "same_shape m1 m'"
      using p by (simp add: m' same_shape_def fun_eq_iff bt_get_insert)
    then show ?thesis using m1 same_shape_trans by blast
  qed
qed

lemma refresh_pack_revisions_shape:
  assumes "refresh_pack_revisions H m = Ok m'"
  shows "same_shape m m' \<and> validate_manifest H m' = Ok ()"
proof -
  obtain V D where run: "try_fold (\<lambda>st i. refresh H 1 i st) (m, [], []) (bt_keys (em_packs m)) = Ok (m', V, D)"
    and valid: "validate_manifest H m' = Ok ()"
    using assms by (auto simp: refresh_pack_revisions_def and_then_Ok_iff bind_result_Ok_iff)
  have "case (m', V, D) of (m', _) \<Rightarrow> same_shape m m'"
  proof (rule try_fold_invariant[OF run, where P = "\<lambda>s. case s of (m', _) \<Rightarrow> same_shape m m'"])
    fix u x v assume u: "case u of (m1, _) \<Rightarrow> same_shape m m1" and step: "refresh H 1 x u = Ok v"
    obtain mu Vu Du mv Vv Dv where uv: "u = (mu, Vu, Du)" "v = (mv, Vv, Dv)" by (metis prod.collapse)
    then show "case v of (m1, _) \<Rightarrow> same_shape m m1"
      using u step refresh_shape same_shape_trans by auto
  qed (simp add: same_shape_refl)
  then show ?thesis using valid by simp
qed

section \<open>Profile inheritance\<close>

text \<open>An inheritance chain that ends, and the inheritance relation itself.\<close>

inductive chain_ends :: "(string, profile) btree_map \<Rightarrow> string \<Rightarrow> bool" for ps where
  stop: "profile_parent ps i = None \<Longrightarrow> chain_ends ps i"
| step: "profile_parent ps i = Some j \<Longrightarrow> chain_ends ps j \<Longrightarrow> chain_ends ps i"

inductive_cases chain_ends_cases: "chain_ends ps i"

definition inherits :: "(string, profile) btree_map \<Rightarrow> (string \<times> string) set" where
  "inherits ps = {(a, b). profile_parent ps a = Some b}"

definition profile_chains_end :: "(string, profile) btree_map \<Rightarrow> bool" where
  "profile_chains_end ps \<longleftrightarrow> set (bt_keys ps) \<subseteq> {i. chain_ends ps i}"

lemma chain_ends_unfold:
  "profile_parent ps i = Some j \<Longrightarrow> chain_ends ps i \<longleftrightarrow> chain_ends ps j"
  by (auto intro: chain_ends.step elim: chain_ends_cases)

lemma chain_ends_trancl: "(i, j) \<in> (inherits ps)\<^sup>+ \<Longrightarrow> chain_ends ps i \<longleftrightarrow> chain_ends ps j"
  by (induction rule: trancl_induct) (auto simp: inherits_def chain_ends_unfold)

lemma chain_ends_no_cycle: "chain_ends ps i \<Longrightarrow> (i, i) \<notin> (inherits ps)\<^sup>+"
proof (induction rule: chain_ends.induct)
  case (stop i)
  then show ?case by (auto simp: inherits_def dest: tranclD)
next
  case (step i j)
  show ?case
  proof
    assume "(i, i) \<in> (inherits ps)\<^sup>+"
    then have "(j, i) \<in> (inherits ps)\<^sup>*"
      using step.hyps(1) by (auto simp: inherits_def dest: tranclD)
    moreover have "(i, j) \<in> inherits ps" using step.hyps(1) by (simp add: inherits_def)
    ultimately show False using step.IH by (meson rtrancl_into_trancl1)
  qed
qed

lemma follow_profiles_Ok:
  assumes "follow_profiles ps D V cur = Ok V'" "\<forall>d\<in>set D. chain_ends ps d"
  shows "(\<forall>i\<in>set_option cur. chain_ends ps i) \<and> set_option cur \<subseteq> set D \<union> set V'
    \<and> (\<forall>x\<in>set V'. x \<in> set V \<or> chain_ends ps x) \<and> set V \<subseteq> set V'"
  using assms
proof (induction ps D V cur rule: follow_profiles.induct)
  case (1 ps D V cur)
  show ?case
  proof (cases cur)
    case None
    then show ?thesis using "1.prems" by (simp add: follow_profiles.simps)
  next
    case (Some i)
    show ?thesis
    proof (cases "i \<in> set D")
      case True
      then show ?thesis using "1.prems" Some by (auto simp: follow_profiles.simps)
    next
      case False
      then have i: "i \<notin> set V" and rec: "follow_profiles ps D (bs_insert i V) (profile_parent ps i) = Ok V'"
        using "1.prems"(1) Some False by (auto simp: follow_profiles.simps[of ps D V "Some i"] split: if_splits)
      have ih: "(\<forall>j\<in>set_option (profile_parent ps i). chain_ends ps j)
          \<and> (\<forall>x\<in>set V'. x \<in> set (bs_insert i V) \<or> chain_ends ps x) \<and> set (bs_insert i V) \<subseteq> set V'"
        using "1.IH"[OF Some _ _ rec "1.prems"(2)] False i by auto
      then have "chain_ends ps i"
        by (cases "profile_parent ps i") (auto intro: chain_ends.intros)
      then show ?thesis using ih Some by auto
    qed
  qed
qed

lemma follow_profiles_Err:
  assumes "follow_profiles ps D V cur = Inl e" "\<forall>i\<in>set_option cur. \<forall>v\<in>set V. (v, i) \<in> (inherits ps)\<^sup>+"
  shows "\<exists>i\<in>set_option cur. \<not> chain_ends ps i"
  using assms
proof (induction ps D V cur rule: follow_profiles.induct)
  case (1 ps D V cur)
  obtain i where Some: "cur = Some i" "i \<notin> set D"
    using "1.prems"(1) by (auto simp: follow_profiles.simps[of ps D V cur] split: option.splits if_splits)
  show ?case
  proof (cases "i \<in> set V")
    case True
    then have "(i, i) \<in> (inherits ps)\<^sup>+" using "1.prems"(2) Some by simp
    then show ?thesis using chain_ends_no_cycle Some by fastforce
  next
    case False
    then have rec: "follow_profiles ps D (bs_insert i V) (profile_parent ps i) = Inl e"
      using "1.prems"(1) Some by (simp add: follow_profiles.simps[of ps D V "Some i"])
    have "\<forall>j\<in>set_option (profile_parent ps i). \<forall>v\<in>set (bs_insert i V). (v, j) \<in> (inherits ps)\<^sup>+"
    proof (intro ballI)
      fix j v assume "j \<in> set_option (profile_parent ps i)" "v \<in> set (bs_insert i V)"
      then have "(i, j) \<in> inherits ps" "v = i \<or> (v, i) \<in> (inherits ps)\<^sup>+"
        using "1.prems"(2) Some by (auto simp: inherits_def)
      then show "(v, j) \<in> (inherits ps)\<^sup>+" by (auto intro: trancl_into_trancl)
    qed
    then obtain j where "profile_parent ps i = Some j" "\<not> chain_ends ps j"
      using "1.IH"[OF Some(1) _ _ rec] Some(2) False by auto
    then show ?thesis using Some chain_ends_unfold by auto
  qed
qed

lemma reject_profile_cycles_iff:
  "reject_profile_cycles ps = Ok () \<longleftrightarrow> profile_chains_end ps"
proof -
  let ?step = "\<lambda>visited root. bind_result (follow_profiles ps visited [] (Some root))
      (\<lambda>visiting. Ok (bs_extend visited visiting))"
  have "case try_fold ?step D ks of Inl _ \<Rightarrow> \<exists>i\<in>set ks. \<not> chain_ends ps i
      | Inr _ \<Rightarrow> \<forall>i\<in>set ks. chain_ends ps i" if "\<forall>d\<in>set D. chain_ends ps d" for D ks
    using that
  proof (induction ks arbitrary: D)
    case (Cons i ks)
    show ?case
    proof (cases "follow_profiles ps D [] (Some i)")
      case (Inl e)
      then show ?thesis using follow_profiles_Err[OF Inl] by simp
    next
      case (Inr V')
      have "chain_ends ps i" "\<forall>d\<in>set (bs_extend D V'). chain_ends ps d"
        using follow_profiles_Ok[OF Inr Cons.prems] Cons.prems by auto
      then show ?thesis using Cons.IH[of "bs_extend D V'"] Inr by (auto split: sum.splits)
    qed
  qed simp
  from this[of "[]" "bt_keys ps"] show ?thesis
    by (cases "try_fold ?step [] (bt_keys ps)") (auto simp: reject_profile_cycles_def profile_chains_end_def)
qed

section \<open>Properties\<close>

text \<open>C25: Re-deriving the packs of a validated manifest changes nothing: the dependency-ordered refresh
  terminates within the depth limit, hits none of its errors and returns the manifest it was given.\<close>

theorem refresh_fixes_valid_manifests:
  assumes "validate_manifest H m = Ok ()" "wf_packs m"
  shows "refresh_pack_revisions H m = Ok m"
  using assms by (rule refresh_valid_manifest)

theorem refresh_fixes_valid_manifests_witness:
  "refresh_pack_revisions sample_digest sample_manifest = Ok sample_manifest"
proof (rule refresh_fixes_valid_manifests[OF sample_manifest_valid])
  have "''all'' < (''tools'' :: string)" by code_simp
  then show "wf_packs sample_manifest"
    by (simp add: wf_packs_def sample_manifest_lists bt_values_def sample_nested_pack_def bt_wf_def)
qed

text \<open>The inheritance check accepts exactly the profile maps in which every inheritance chain ends.\<close>

theorem profile_cycle_check_is_exact:
  "reject_profile_cycles ps = Ok () \<longleftrightarrow> profile_chains_end ps"
  by (rule reject_profile_cycles_iff)

end
