(* ===== verification/Destinations.thy ===== *)
theory Destinations
  imports Identity
begin

text \<open>
  The abstract reading of canonical destinations: a root (the Unix root or a drive) and a list of
  components.  \<open>destination_parse\<close> returns exactly the texts of well-formed pairs, and the operations on
  texts are the expected operations on component lists.
\<close>

datatype dest_root = UnixRoot | Drive char

definition root_text :: "dest_root \<Rightarrow> string" where
  "root_text r = (case r of UnixRoot \<Rightarrow> ''/'' | Drive d \<Rightarrow> [d, CHR '':'', CHR ''/''])"

definition dest_text :: "dest_root \<Rightarrow> string list \<Rightarrow> string" where
  "dest_text r cs = root_text r @ join_with ''/'' cs"

definition wf_component :: "dest_root \<Rightarrow> string \<Rightarrow> bool" where
  "wf_component r c \<longleftrightarrow> c \<noteq> [] \<and> c \<noteq> ''.'' \<and> c \<noteq> ''..'' \<and> CHR ''/'' \<notin> set c \<and> CHR 0x00 \<notin> set c
     \<and> (r \<noteq> UnixRoot \<longrightarrow> is_lossless_windows_component c)"

definition wf_root :: "dest_root \<Rightarrow> bool" where
  "wf_root r \<longleftrightarrow> (case r of UnixRoot \<Rightarrow> True
     | Drive d \<Rightarrow> is_ascii_alphabetic d \<and> to_ascii_uppercase d = d)"

definition wf_dest :: "dest_root \<Rightarrow> string list \<Rightarrow> bool" where
  "wf_dest r cs \<longleftrightarrow> wf_root r \<and> (\<forall>c\<in>set cs. wf_component r c)"

section \<open>The component loop\<close>

definition component_accepted :: "bool \<Rightarrow> string \<Rightarrow> bool" where
  "component_accepted w c \<longleftrightarrow> c \<noteq> ''.'' \<and> c \<noteq> ''..'' \<and> (w \<longrightarrow> is_lossless_windows_component c)"

lemma canonical_components_Ok_iff:
  "canonical_components w cs = Ok ds \<longleftrightarrow>
     ds = filter (\<lambda>c. c \<noteq> []) cs \<and> (\<forall>c\<in>set ds. component_accepted w c)"
proof (induction cs arbitrary: ds)
  case (Cons c cs)
  show ?case
  proof (cases "c = []")
    case False
    then have "canonical_components w (c # cs) = (if component_accepted w c
        then bind_result (canonical_components w cs) (\<lambda>ds. Ok (c # ds)) else Err ''destination.invalid'')"
      by (simp add: component_accepted_def)
    moreover have "bind_result (canonical_components w cs) (\<lambda>ds. Ok (c # ds)) = Ok ds \<longleftrightarrow>
        ds = c # filter (\<lambda>c. c \<noteq> []) cs \<and> (\<forall>c\<in>set (filter (\<lambda>c. c \<noteq> []) cs). component_accepted w c)"
      by (simp only: bind_result_Ok_iff Cons.IH sum.inject) blast
    ultimately show ?thesis using False by (cases "component_accepted w c") auto
  qed (simp add: Cons.IH)
qed auto

lemma join_not_Nil: "cs \<noteq> [] \<Longrightarrow> hd cs \<noteq> [] \<Longrightarrow> join_with sep cs \<noteq> []"
  by (cases "(sep, cs)" rule: join_with.cases) auto

lemma join_if_Nil: "(if cs = [] then p else p @ join_with sep cs) = p @ join_with sep cs"
  by simp

lemma join_hd: "cs \<noteq> [] \<Longrightarrow> hd cs \<noteq> [] \<Longrightarrow> hd (join_with sep cs) = hd (hd cs)"
  by (cases "(sep, cs)" rule: join_with.cases) auto

lemma join_set: "x \<in> set (join_with sep cs) \<Longrightarrow> x \<in> set sep \<or> (\<exists>c\<in>set cs. x \<in> set c)"
  by (induction sep cs rule: join_with.induct) auto

lemma split_join_filter:
  "\<forall>c\<in>set cs. CHR ''/'' \<notin> set c \<Longrightarrow> \<forall>c\<in>set cs. c \<noteq> [] \<Longrightarrow>
   filter (\<lambda>c. c \<noteq> []) (split_on CHR ''/'' (join_with ''/'' cs)) = cs"
  by (cases "cs = []") (simp_all add: split_on_join)

section \<open>Parsing produces well-formed destinations\<close>

lemma is_ascii_alphabetic_not_slash: "is_ascii_alphabetic d \<Longrightarrow> d \<noteq> CHR ''/'' \<and> d \<noteq> CHR 0x5C \<and> d \<noteq> CHR 0x00"
  by (auto simp: char_class_defs)

lemma is_ascii_alphabetic_bs [simp]: "is_ascii_alphabetic d \<Longrightarrow> backslash_to_slash d = d"
  by (simp add: backslash_to_slash_def is_ascii_alphabetic_not_slash)

lemma backslash_to_slash_colon [simp]: "backslash_to_slash CHR '':'' = CHR '':''" "backslash_to_slash CHR ''/'' = CHR ''/''"
  by (simp_all add: backslash_to_slash_def)

lemma map_backslash_id: "CHR 0x5C \<notin> set s \<Longrightarrow> map backslash_to_slash s = s"
  by (induction s) (auto simp: backslash_to_slash_def)

lemma null_map_backslash: "CHR 0x00 \<in> set (map backslash_to_slash s) \<longleftrightarrow> CHR 0x00 \<in> set s"
  by (auto simp: backslash_to_slash_def image_iff split: if_splits)

definition text_components :: "dest_root \<Rightarrow> string \<Rightarrow> string list result" where
  "text_components r s = canonical_components (r \<noteq> UnixRoot) (split_on CHR ''/'' s)"

text \<open>The parser on its two accepted forms, with the namespace already decided.\<close>

lemma destination_parse_unix:
  assumes "CHR 0x00 \<notin> set s" "\<not> starts_with ''/'' s"
  shows "destination_parse (CHR ''/'' # s) = bind_result (text_components UnixRoot s) (\<lambda>cs. Ok (dest_text UnixRoot cs))"
proof -
  have "destination_namespace (CHR ''/'' # s) = Ok (CHR ''/'' # s, False)"
    by (cases s) (auto simp: destination_namespace_def has_drive_def starts_with_def char_class_defs)
  moreover have "\<not> starts_with ''//'' (CHR ''/'' # s)"
    using assms(2) by (simp add: starts_with_def)
  moreover have "\<not> starts_with [CHR 0x5C, CHR 0x5C] (CHR ''/'' # s)"
    by (simp add: starts_with_def)
  ultimately show ?thesis
    using assms(1)
    by (auto simp: destination_parse_def text_components_def dest_text_def root_text_def Let_def
        join_if_Nil intro!: bind_result_cong)
qed

lemma destination_parse_drive:
  assumes "CHR 0x00 \<notin> set s" "is_ascii_alphabetic d" "sl = CHR ''/'' \<or> sl = CHR 0x5C"
  shows "destination_parse (d # CHR '':'' # sl # s) =
     bind_result (text_components (Drive (to_ascii_uppercase d)) (map backslash_to_slash s))
       (\<lambda>cs. Ok (dest_text (Drive (to_ascii_uppercase d)) cs))"
proof -
  have sl: "backslash_to_slash sl = CHR ''/''" "sl \<noteq> CHR 0x00"
    using assms(3) by (auto simp: backslash_to_slash_def)
  have "destination_namespace (d # CHR '':'' # sl # s) =
      Ok (to_ascii_uppercase d # CHR '':'' # CHR ''/'' # map backslash_to_slash s, True)"
    using assms sl by (auto simp: destination_namespace_def has_drive_def starts_with_def)
  moreover have "\<not> starts_with ''//'' (d # CHR '':'' # sl # s)"
    "\<not> starts_with [CHR 0x5C, CHR 0x5C] (d # CHR '':'' # sl # s)"
    by (simp_all add: starts_with_def)
  moreover have "d \<noteq> CHR 0x00" using is_ascii_alphabetic_not_slash[OF assms(2)] by blast
  ultimately show ?thesis
    using assms(1) sl
    by (auto simp: destination_parse_def text_components_def dest_text_def root_text_def Let_def
        join_if_Nil intro!: bind_result_cong)
qed

text \<open>Every accepted text has one of the two forms.\<close>

lemma destination_parse_cases:
  assumes "destination_parse v = Ok d"
  obtains (unix) s where "v = CHR ''/'' # s" "CHR 0x00 \<notin> set s" "\<not> starts_with ''/'' s"
    | (drive) c sl s where "v = c # CHR '':'' # sl # s" "CHR 0x00 \<notin> set s" "is_ascii_alphabetic c"
        "sl = CHR ''/'' \<or> sl = CHR 0x5C"
proof -
  have nul: "CHR 0x00 \<notin> set v" and nodouble: "\<not> starts_with ''//'' v"
    and ns: "\<exists>n w. destination_namespace v = Ok (n, w)"
    using assms by (auto simp: destination_parse_def bind_result_Ok_iff split: if_splits)
  show thesis
  proof (cases "has_drive v")
    case True
    then obtain c s where v: "v = c # CHR '':'' # s" "is_ascii_alphabetic c"
      by (auto simp: has_drive_def split: list.splits)
    moreover from ns True v have "starts_with ''/'' s \<or> starts_with [CHR 0x5C] s"
      by (auto simp: destination_namespace_def split: if_splits)
    then obtain sl r where "s = sl # r" "sl = CHR ''/'' \<or> sl = CHR 0x5C"
      by (cases s) (auto simp: starts_with_def)
    ultimately show ?thesis using nul drive by simp
  next
    case False
    with ns have "starts_with ''/'' v"
      by (auto simp: destination_namespace_def split: if_splits)
    then obtain s where "v = CHR ''/'' # s" by (cases v) (auto simp: starts_with_def)
    then show ?thesis using nul nodouble unix by (simp add: starts_with_def)
  qed
qed

lemma text_components_Ok_iff:
  "text_components r s = Ok cs \<longleftrightarrow>
     cs = filter (\<lambda>c. c \<noteq> []) (split_on CHR ''/'' s) \<and> (\<forall>c\<in>set cs. component_accepted (r \<noteq> UnixRoot) c)"
  by (simp add: text_components_def canonical_components_Ok_iff)

lemma text_components_wf:
  assumes "text_components r s = Ok cs" "CHR 0x00 \<notin> set s" "c \<in> set cs"
  shows "wf_component r c"
proof -
  have "c \<in> set (split_on CHR ''/'' s)" "c \<noteq> []" "component_accepted (r \<noteq> UnixRoot) c"
    using assms by (auto simp: text_components_Ok_iff)
  moreover have "CHR ''/'' \<notin> set c" "CHR 0x00 \<notin> set c"
    using calculation(1) split_on_pieces split_on_subset assms(2) by fastforce+
  ultimately show ?thesis by (auto simp: wf_component_def component_accepted_def)
qed

lemma destination_parse_sound:
  assumes "destination_parse v = Ok d"
  shows "\<exists>r cs. wf_dest r cs \<and> d = dest_text r cs"
  using assms
proof (cases rule: destination_parse_cases)
  case (unix s)
  then obtain cs where "text_components UnixRoot s = Ok cs" "d = dest_text UnixRoot cs"
    using assms destination_parse_unix by (auto simp: bind_result_Ok_iff)
  then show ?thesis using text_components_wf unix(2)
    by (auto simp: wf_dest_def wf_root_def intro!: exI[of _ UnixRoot] exI[of _ cs])
next
  case (drive c sl s)
  let ?r = "Drive (to_ascii_uppercase c)"
  obtain cs where "text_components ?r (map backslash_to_slash s) = Ok cs" "d = dest_text ?r cs"
    using assms drive destination_parse_drive by (auto simp: bind_result_Ok_iff)
  moreover have "CHR 0x00 \<notin> set (map backslash_to_slash s)" using drive(2) null_map_backslash by blast
  ultimately show ?thesis using text_components_wf[of ?r] drive(3)
    by (auto simp: wf_dest_def wf_root_def intro!: exI[of _ ?r] exI[of _ cs])
qed

text \<open>On a text whose components are nonempty, parsing either refuses or returns the text itself.\<close>

lemma lossless_components_no_backslash:
  "\<forall>c\<in>set cs. is_lossless_windows_component c \<Longrightarrow> CHR 0x5C \<notin> set (join_with ''/'' cs)"
  using join_set[of "CHR 0x5C" "''/''" cs] lossless_no_reserved(2) by auto

lemma destination_parse_complete:
  assumes "wf_dest r cs"
  shows "destination_parse (dest_text r cs) = Ok (dest_text r cs)"
proof -
  let ?s = "join_with ''/'' cs"
  have comps: "\<forall>c\<in>set cs. c \<noteq> [] \<and> CHR ''/'' \<notin> set c \<and> CHR 0x00 \<notin> set c"
    using assms by (auto simp: wf_dest_def wf_component_def)
  have nul: "CHR 0x00 \<notin> set ?s" using comps join_set[of "CHR 0x00" "''/''" cs] by auto
  have tc: "text_components r ?s = Ok cs"
    using assms comps split_join_filter[of cs]
    by (auto simp: text_components_Ok_iff wf_dest_def wf_component_def component_accepted_def)
  show ?thesis
  proof (cases r)
    case UnixRoot
    have "\<not> starts_with ''/'' ?s"
    proof (cases cs)
      case (Cons c cs')
      then have "?s \<noteq> []" "hd ?s = hd c" "hd c \<in> set c" using comps join_not_Nil join_hd by auto
      moreover have "CHR ''/'' \<notin> set c" using Cons comps by simp
      ultimately show ?thesis by (cases ?s) (auto simp: starts_with_def)
    qed (simp add: starts_with_def)
    then show ?thesis using UnixRoot nul tc destination_parse_unix by (simp add: dest_text_def root_text_def)
  next
    case (Drive d)
    have "map backslash_to_slash ?s = ?s"
      using assms Drive by (intro map_backslash_id lossless_components_no_backslash)
        (auto simp: wf_dest_def wf_component_def)
    moreover have "is_ascii_alphabetic d" "to_ascii_uppercase d = d"
      using assms Drive by (auto simp: wf_dest_def wf_root_def)
    ultimately show ?thesis
      using Drive nul tc destination_parse_drive[of ?s d "CHR ''/''"] by (simp add: dest_text_def root_text_def)
  qed
qed

text \<open>A value of \<open>NormalizedDestination\<close>.\<close>

definition is_destination :: "string \<Rightarrow> bool" where
  "is_destination d \<longleftrightarrow> destination_parse d = Ok d"

lemma is_destination_iff: "is_destination d \<longleftrightarrow> (\<exists>r cs. wf_dest r cs \<and> d = dest_text r cs)"
  using destination_parse_sound destination_parse_complete by (auto simp: is_destination_def)

interpretation destination: validated_text destination_parse
  by unfold_locales (use destination_parse_sound destination_parse_complete in blast)

section \<open>Joining and anchoring\<close>

text \<open>Parsing a text made of nonempty components accepts it unchanged or refuses it.\<close>

lemma dest_text_Nil [simp]: "dest_text r [] = root_text r"
  by (simp add: dest_text_def)

lemma dest_text_snoc:
  "cs \<noteq> [] \<Longrightarrow> ds \<noteq> [] \<Longrightarrow> dest_text r (cs @ ds) = dest_text r cs @ ''/'' @ join_with ''/'' ds"
  by (simp add: dest_text_def join_with_append)

lemma join_last:
  "cs \<noteq> [] \<Longrightarrow> last cs \<noteq> [] \<Longrightarrow> join_with sep cs \<noteq> [] \<and> last (join_with sep cs) = last (last cs)"
  by (induction sep cs rule: join_with.induct) auto

lemma ends_with_snoc: "ends_with [c] s \<longleftrightarrow> s \<noteq> [] \<and> last s = c"
  by (cases s rule: rev_cases) (auto simp: ends_with_def)

lemma dest_text_ends_slash: "wf_dest r cs \<Longrightarrow> ends_with ''/'' (dest_text r cs) \<longleftrightarrow> cs = []"
proof (cases "cs = []")
  case False
  assume "wf_dest r cs"
  then have c: "last cs \<noteq> []" "CHR ''/'' \<notin> set (last cs)"
    using False last_in_set[of cs] by (auto simp: wf_dest_def wf_component_def)
  then have "last (dest_text r cs) = last (last cs)" using join_last[OF False c(1), of "''/''"]
    by (simp add: dest_text_def)
  moreover have "last (last cs) \<noteq> CHR ''/''" using c last_in_set[of "last cs"] by metis
  ultimately show ?thesis using False by (simp add: ends_with_snoc)
qed (simp add: ends_with_snoc root_text_def split: dest_root.splits)

lemma dest_text_not_Nil [simp]: "dest_text r cs \<noteq> []"
  by (simp add: dest_text_def root_text_def split: dest_root.splits)

text \<open>The joined text is the text of the concatenated components.\<close>

lemma destination_join_text:
  assumes "wf_dest r cs" "rel \<noteq> []"
  shows "dest_text r cs @ (if ends_with ''/'' (dest_text r cs) then [] else ''/'') @ rel =
     dest_text r (cs @ split_on CHR ''/'' rel)"
proof (cases "cs = []")
  case True
  then show ?thesis using dest_text_ends_slash[OF assms(1)] by (simp add: dest_text_def)
next
  case False
  then show ?thesis using dest_text_ends_slash[OF assms(1)] by (simp add: dest_text_snoc)
qed

lemma wf_dest_prefix: "wf_dest r (cs @ ds) \<Longrightarrow> wf_dest r cs"
  by (auto simp: wf_dest_def)

lemma destination_parse_unchanged:
  assumes "wf_root r" "cs \<noteq> []" "\<forall>c\<in>set cs. c \<noteq> [] \<and> CHR ''/'' \<notin> set c \<and> CHR 0x5C \<notin> set c \<or> wf_component r c"
    and "destination_parse (dest_text r cs) = Ok d"
  shows "d = dest_text r cs \<and> wf_dest r cs"
proof -
  let ?s = "join_with ''/'' cs"
  have comps: "\<forall>c\<in>set cs. c \<noteq> [] \<and> CHR ''/'' \<notin> set c"
    using assms(3) by (auto simp: wf_component_def)
  have nul: "CHR 0x00 \<notin> set ?s"
    using assms(4) by (auto simp: destination_parse_def dest_text_def split: if_splits)
  have parse: "destination_parse (dest_text r cs) = bind_result (text_components r ?s) (\<lambda>es. Ok (dest_text r es))"
  proof (cases r)
    case UnixRoot
    have "?s \<noteq> []" "hd ?s = hd (hd cs)" "hd (hd cs) \<in> set (hd cs)" "CHR ''/'' \<notin> set (hd cs)"
      using assms(2) comps join_not_Nil join_hd by auto
    then have "\<not> starts_with ''/'' ?s" by (cases ?s) (auto simp: starts_with_def)
    then show ?thesis using UnixRoot nul destination_parse_unix[of ?s] by (simp add: dest_text_def root_text_def)
  next
    case (Drive d)
    have "\<forall>c\<in>set cs. CHR 0x5C \<notin> set c"
      using assms(3) Drive by (auto simp: wf_component_def dest: lossless_no_reserved(2))
    then have "map backslash_to_slash ?s = ?s"
      using join_set[of "CHR 0x5C" "''/''" cs] by (intro map_backslash_id) auto
    moreover have "is_ascii_alphabetic d" "to_ascii_uppercase d = d"
      using assms(1) Drive by (auto simp: wf_root_def)
    ultimately show ?thesis
      using Drive nul destination_parse_drive[of ?s d "CHR ''/''"] by (simp add: dest_text_def root_text_def)
  qed
  have "bind_result (text_components r ?s) (\<lambda>es. Ok (dest_text r es)) = Ok d"
    using assms(4) unfolding parse .
  then obtain es where es: "text_components r ?s = Ok es" "d = dest_text r es"
    by (auto simp: bind_result_Ok_iff)
  have "es = cs" using es(1) comps split_join_filter[of cs] by (simp add: text_components_Ok_iff)
  then show ?thesis using es text_components_wf[OF es(1) nul] assms(1) by (simp add: wf_dest_def)
qed

lemma portable_components:
  "is_portable_path rel \<Longrightarrow> c \<in> set (split_on CHR ''/'' rel) \<Longrightarrow> c \<noteq> [] \<and> CHR ''/'' \<notin> set c \<and> CHR 0x5C \<notin> set c"
  using split_on_pieces[of c "CHR ''/''" rel] split_on_subset[of c "CHR ''/''" rel]
  by (auto simp: is_portable_path_iff portable_segment_def)

text \<open>Joining appends the components of the relative path.\<close>

lemma destination_join_components:
  assumes "wf_dest r cs" "is_portable_path rel" "destination_join_portable (dest_text r cs) rel = Ok d"
  shows "d = dest_text r (cs @ split_on CHR ''/'' rel) \<and> wf_dest r (cs @ split_on CHR ''/'' rel)"
proof -
  have "destination_parse (dest_text r (cs @ split_on CHR ''/'' rel)) = Ok d"
    using assms is_portable_path_not_Nil destination_join_text[of r cs rel]
    by (simp add: destination_join_portable_def)
  then show ?thesis
    using assms(1) portable_components[OF assms(2)]
    by (intro destination_parse_unchanged) (auto simp: wf_dest_def)
qed

lemma destination_parse_trailing_slash:
  assumes "wf_dest r cs" "cs \<noteq> []"
  shows "destination_parse (dest_text r cs @ ''/'') = Ok (dest_text r cs)"
proof -
  let ?s = "join_with ''/'' cs @ ''/''"
  have comps: "\<forall>c\<in>set cs. c \<noteq> [] \<and> CHR ''/'' \<notin> set c \<and> CHR 0x00 \<notin> set c"
    using assms by (auto simp: wf_dest_def wf_component_def)
  have nul: "CHR 0x00 \<notin> set ?s" using comps join_set[of "CHR 0x00" "''/''" cs] by auto
  have "split_on CHR ''/'' ?s = split_on CHR ''/'' (join_with ''/'' cs) @ split_on CHR ''/'' []"
    using split_on_append_sep[of "CHR ''/''" "join_with ''/'' cs" "[]"] by simp
  then have tc: "text_components r ?s = Ok cs"
    using assms(1) comps split_join_filter[of cs]
    by (auto simp: text_components_Ok_iff wf_dest_def wf_component_def component_accepted_def)
  show ?thesis
  proof (cases r)
    case UnixRoot
    have "join_with ''/'' cs \<noteq> []" "hd (join_with ''/'' cs) = hd (hd cs)" "hd (hd cs) \<in> set (hd cs)" "CHR ''/'' \<notin> set (hd cs)"
      using assms(2) comps join_not_Nil join_hd by auto
    then have "\<not> starts_with ''/'' ?s" by (cases "join_with ''/'' cs") (auto simp: starts_with_def)
    then show ?thesis using UnixRoot nul tc destination_parse_unix[of ?s] by (simp add: dest_text_def root_text_def)
  next
    case (Drive d)
    have "map backslash_to_slash (join_with ''/'' cs) = join_with ''/'' cs"
      using assms(1) Drive by (intro map_backslash_id lossless_components_no_backslash)
        (auto simp: wf_dest_def wf_component_def)
    moreover have "is_ascii_alphabetic d" "to_ascii_uppercase d = d"
      using assms(1) Drive by (auto simp: wf_dest_def wf_root_def)
    ultimately show ?thesis
      using Drive nul tc destination_parse_drive[of ?s d "CHR ''/''"] by (simp add: dest_text_def root_text_def)
  qed
qed

lemma destination_anchor_components:
  assumes "wf_dest r (cs @ split_on CHR ''/'' rel)"
  shows "destination_anchor_for (dest_text r (cs @ split_on CHR ''/'' rel)) rel = Ok (dest_text r cs)"
proof -
  have wf: "wf_dest r cs" using assms by (rule wf_dest_prefix)
  let ?p = "dest_text r cs @ (if cs = [] then [] else ''/'')"
  have "dest_text r (cs @ split_on CHR ''/'' rel) = ?p @ rel"
    by (cases "cs = []") (simp_all add: dest_text_snoc, simp add: dest_text_def)
  then have strip: "strip_suffix rel (dest_text r (cs @ split_on CHR ''/'' rel)) = Some ?p"
    by (simp add: strip_suffix_Some_iff)
  have slash: "ends_with ''/'' ?p"
    by (simp add: ends_with_snoc root_text_def split: dest_root.splits)
  have keep: "destination_parse ?p = Ok (dest_text r cs)"
    using wf destination_parse_complete[of r cs] destination_parse_trailing_slash[of r cs]
    by (cases "cs = []") simp_all
  show ?thesis
  proof (cases "?p = ''/'' \<or> ends_with '':/'' ?p")
    case True
    then show ?thesis using strip slash keep by (simp add: destination_anchor_for_def)
  next
    case False
    then have "cs \<noteq> []"
      by (auto simp: root_text_def ends_with_def split: dest_root.splits)
    then have "strip_suffix ''/'' ?p = Some (dest_text r cs)" by (simp add: strip_suffix_Some_iff)
    then show ?thesis
      using False strip slash destination_parse_complete[OF wf] by (simp add: destination_anchor_for_def)
  qed
qed

section \<open>Ancestors\<close>

lemma cuts_before_append: "cuts_before c (a @ s) = cuts_before c a @ map (append a) (cuts_before c s)"
  by (induction a) auto

lemma cuts_before_notin [simp]: "c \<notin> set s \<Longrightarrow> cuts_before c s = []"
  by (induction s) auto

lemma cuts_before_join:
  assumes "\<forall>p\<in>set cs. c \<notin> set p"
  shows "cuts_before c (join_with [c] cs) = map (\<lambda>k. join_with [c] (take k cs)) [1..<length cs]"
  using assms
proof (induction cs)
  case (Cons p cs)
  show ?case
  proof (cases "cs = []")
    case False
    have "cuts_before c (p @ c # join_with [c] cs) = p # map (\<lambda>x. p @ c # x) (cuts_before c (join_with [c] cs))"
      using Cons.prems by (simp add: cuts_before_append)
    also have "\<dots> = p # map (\<lambda>k. p @ c # join_with [c] (take k cs)) [1..<length cs]"
      using Cons by simp
    also have "\<dots> = map (\<lambda>k. join_with [c] (take k (p # cs))) (1 # map Suc [1..<length cs])"
      using False by (auto simp: join_with_Cons)
    also have "1 # map Suc [1..<length cs] = [1..<length (p # cs)]"
      using False by (simp add: map_Suc_upt upt_conv_Cons del: upt_Suc)
    finally show ?thesis using False by (simp add: join_with_Cons)
  qed (use Cons.prems in simp)
qed simp

lemma dest_text_inj:
  assumes "wf_dest r cs" "wf_dest r' cs'" "dest_text r cs = dest_text r' cs'"
  shows "r = r' \<and> cs = cs'"
proof -
  have nonslash: "is_ascii_alphabetic d \<Longrightarrow> d \<noteq> CHR ''/''" for d
    using is_ascii_alphabetic_not_slash by blast
  have r: "r = r'"
    using assms by (auto simp: dest_text_def root_text_def wf_dest_def wf_root_def dest: nonslash split: dest_root.splits)
  have split: "filter (\<lambda>c. c \<noteq> []) (split_on CHR ''/'' (join_with ''/'' es)) = es" if "wf_dest r' es" for es
    using that by (intro split_join_filter) (auto simp: wf_dest_def wf_component_def)
  have "join_with ''/'' cs = join_with ''/'' cs'" using assms(3) r by (simp add: dest_text_def)
  then show ?thesis using split[of cs] split[of cs'] assms r by metis
qed

lemma strict_ancestors_components:
  assumes "wf_dest r cs"
  shows "strict_ancestor_strings (dest_text r cs) = map (\<lambda>k. dest_text r (take k cs)) [0..<length cs]"
proof (cases "cs = []")
  case True
  then show ?thesis
    using assms is_ascii_alphabetic_not_slash
    by (auto simp: strict_ancestor_strings_def root_text_def starts_with_def wf_dest_def wf_root_def
        char_class_defs split: dest_root.splits)
next
  case False
  let ?n = "length (root_text r)"
  let ?cut = "\<lambda>k. dest_text r (take k cs)"
  have comps: "\<forall>c\<in>set cs. c \<noteq> [] \<and> CHR ''/'' \<notin> set c"
    using assms by (auto simp: wf_dest_def wf_component_def)
  have len: "(if starts_with ''/'' (dest_text r cs) then 1 else 3) = ?n"
    using assms is_ascii_alphabetic_not_slash
    by (auto simp: dest_text_def root_text_def starts_with_def wf_dest_def wf_root_def char_class_defs split: dest_root.splits)
  have longer: "length (?cut k) > ?n" if "1 \<le> k" for k
    using that False comps join_not_Nil[of "take k cs" "''/''"] by (cases cs; cases k) (auto simp: dest_text_def)
  have root_cuts: "filter (\<lambda>x. length x > ?n) (cuts_before CHR ''/'' (root_text r)) = []"
    using assms is_ascii_alphabetic_not_slash
    by (auto simp: root_text_def wf_dest_def wf_root_def split: dest_root.splits)
  have "cuts_before CHR ''/'' (dest_text r cs) = cuts_before CHR ''/'' (root_text r) @ map ?cut [1..<length cs]"
    using comps cuts_before_join[of cs "CHR ''/''"] by (simp add: dest_text_def cuts_before_append)
  then have cuts: "filter (\<lambda>x. length x > ?n) (cuts_before CHR ''/'' (dest_text r cs)) = map ?cut [1..<length cs]"
    using root_cuts longer by (simp add: filter_map o_def)
  have "take ?n (dest_text r cs) = ?cut 0" by (simp add: dest_text_def)
  moreover have "length (dest_text r cs) > ?n" using longer[of "length cs"] False by (simp add: Suc_le_eq)
  moreover have "[0..<length cs] = 0 # [1..<length cs]" using False by (simp add: upt_conv_Cons)
  ultimately show ?thesis using cuts len by (simp add: strict_ancestor_strings_def Let_def)
qed

lemma is_ancestor_of_components:
  assumes "wf_dest r cs" "wf_dest r' cs'"
  shows "is_ancestor_of (dest_text r cs) (dest_text r' cs') \<longleftrightarrow> r = r' \<and> (\<exists>ds. ds \<noteq> [] \<and> cs' = cs @ ds)"
proof -
  have "is_ancestor_of (dest_text r cs) (dest_text r' cs') \<longleftrightarrow>
      (\<exists>k<length cs'. dest_text r' (take k cs') = dest_text r cs)"
    unfolding is_ancestor_of_def strict_ancestors_components[OF assms(2)] list_ex_iff set_map bex_simps(7)
    by auto
  also have "\<dots> \<longleftrightarrow> (\<exists>k<length cs'. r' = r \<and> take k cs' = cs)"
  proof -
    have "wf_dest r' (take k cs')" for k
      using assms(2) wf_dest_prefix[of r' "take k cs'" "drop k cs'"] by simp
    then show ?thesis using dest_text_inj[OF _ assms(1)] by metis
  qed
  also have "\<dots> \<longleftrightarrow> r = r' \<and> (\<exists>ds. ds \<noteq> [] \<and> cs' = cs @ ds)"
  proof
    assume "\<exists>k<length cs'. r' = r \<and> take k cs' = cs"
    then obtain k where "k < length cs'" "r' = r" "take k cs' = cs" by blast
    then show "r = r' \<and> (\<exists>ds. ds \<noteq> [] \<and> cs' = cs @ ds)"
      by (intro conjI exI[of _ "drop k cs'"]) auto
  qed (auto intro!: exI[of _ "length cs"])
  finally show ?thesis .
qed

section \<open>Properties\<close>

text \<open>Every accepted destination text has one canonical form, a root and lossless components, and
  the canonical form parses to itself; two accepted texts denote the same destination exactly when
  their roots and components agree.\<close>

theorem destination_parse_is_canonical:
  assumes "destination_parse v = Ok d"
  shows "destination_parse d = Ok d \<and> (\<exists>!(r, cs). wf_dest r cs \<and> d = dest_text r cs)"
proof -
  obtain r cs where d: "wf_dest r cs" "d = dest_text r cs"
    using destination_parse_sound[OF assms] by blast
  have "\<exists>!(r, cs). wf_dest r cs \<and> d = dest_text r cs"
    by (rule ex1I[of _ "(r, cs)"]) (use d dest_text_inj in fastforce)+
  then show ?thesis using destination.stable[OF assms] by blast
qed

theorem destination_parse_is_canonical_witness:
  "destination_parse ''C:/Users/dev/kit'' = Ok ''C:/Users/dev/kit''"
proof -
  have "destination_parse (''c:'' @ [CHR 0x5C] @ ''Users//dev'' @ [CHR 0x5C] @ ''kit/'') = Ok ''C:/Users/dev/kit''"
    by code_simp
  from destination_parse_is_canonical[OF this] show ?thesis by blast
qed

text \<open>Joining a portable path to a destination yields a canonical destination strictly below it,
  and anchoring the result at the same path gives the original destination back.\<close>

theorem destination_join_then_anchor:
  assumes "is_destination d" "is_portable_path rel" "destination_join_portable d rel = Ok e"
  shows "is_destination e \<and> is_ancestor_of d e \<and> destination_anchor_for e rel = Ok d"
proof -
  obtain r cs where d: "wf_dest r cs" "d = dest_text r cs"
    using assms(1) by (auto simp: is_destination_iff)
  then have e: "e = dest_text r (cs @ split_on CHR ''/'' rel)" "wf_dest r (cs @ split_on CHR ''/'' rel)"
    using destination_join_components assms(2,3) by blast+
  have "is_ancestor_of d e"
    unfolding d(2) e(1) is_ancestor_of_components[OF d(1) e(2)] by (intro conjI exI) simp_all
  then show ?thesis
    using e d destination_anchor_components[OF e(2)] by (auto simp: is_destination_iff)
qed

theorem destination_join_then_anchor_witness:
  "is_ancestor_of ''/home/dev'' ''/home/dev/skills/run'' \<and>
   destination_anchor_for ''/home/dev/skills/run'' ''skills/run'' = Ok ''/home/dev''"
proof -
  have "is_destination ''/home/dev''" "is_portable_path ''skills/run''"
    "destination_join_portable ''/home/dev'' ''skills/run'' = Ok ''/home/dev/skills/run''"
    unfolding is_destination_def is_portable_path_def by code_simp+
  from destination_join_then_anchor[OF this] show ?thesis by blast
qed

text \<open>The textual ancestor test on destinations is the prefix order of their components under the
  same root, so \<open>/a/bc\<close> is not below \<open>/a/b\<close> and no destination is its own ancestor.\<close>

theorem ancestor_test_is_component_prefix:
  assumes "wf_dest r cs" "wf_dest r' cs'"
  shows "is_ancestor_of (dest_text r cs) (dest_text r' cs') \<longleftrightarrow> r = r' \<and> (\<exists>ds. ds \<noteq> [] \<and> cs' = cs @ ds)"
  using assms by (rule is_ancestor_of_components)

theorem ancestor_test_is_component_prefix_witness:
  "is_ancestor_of (dest_text UnixRoot [''a'', ''b'']) (dest_text UnixRoot [''a'', ''b'', ''c''])
   \<and> \<not> is_ancestor_of (dest_text UnixRoot [''a'', ''b'']) (dest_text UnixRoot [''a'', ''bc''])"
proof -
  have "wf_dest UnixRoot [''a'', ''b'']" "wf_dest UnixRoot [''a'', ''b'', ''c'']" "wf_dest UnixRoot [''a'', ''bc'']"
    by (simp_all add: wf_dest_def wf_component_def wf_root_def)
  then show ?thesis by (simp add: ancestor_test_is_component_prefix)
qed

end
