(* ===== verification/Credential_Risk.thy ===== *)
theory Credential_Risk
  imports Text_Bytes
begin

text \<open>
  \<open>kitrove-risk/src/lib.rs\<close>: the shape of commonly issued provider credentials, and the tokenizer that
  looks for one anywhere in a document.
\<close>

definition credential_prefixes :: "(string \<times> nat) list" where
  "credential_prefixes =
     [(''sk-ant-'', 20), (''sk-live-'', 20), (''sk_live_'', 20), (''rk_live_'', 20), (''github_pat_'', 24),
      (''ghp_'', 20), (''gho_'', 20), (''ghu_'', 20), (''ghs_'', 20), (''ghr_'', 20), (''npm_'', 20),
      (''xoxb-'', 25), (''xoxp-'', 25)]"

text \<open>\<open>trim_matches(|c| !c.is_ascii_alphanumeric())\<close>.\<close>

definition trim_non_alphanumeric :: "string \<Rightarrow> string" where
  "trim_non_alphanumeric s =
     rev (dropWhile (\<lambda>c. \<not> is_ascii_alphanumeric c) (rev (dropWhile (\<lambda>c. \<not> is_ascii_alphanumeric c) s)))"

definition credential_shape :: "string \<Rightarrow> bool" where
  "credential_shape value \<longleftrightarrow>
     list_ex (\<lambda>(prefix, minimum). starts_with prefix value \<and> length value \<ge> minimum) credential_prefixes
     \<or> (starts_with ''AKIA'' value \<and> length value = 20
        \<and> list_all (\<lambda>b. is_ascii_uppercase b \<or> is_ascii_digit b) value)
     \<or> (starts_with ''AIza'' value \<and> length value \<ge> 30)
     \<or> (starts_with ''sk-'' value \<and> length value \<ge> 20)"

definition is_credential_shaped :: "string \<Rightarrow> bool" where
  "is_credential_shaped value = credential_shape (trim_non_alphanumeric value)"

definition token_byte :: "char \<Rightarrow> bool" where
  "token_byte b \<longleftrightarrow> is_ascii_alphanumeric b \<or> b = CHR ''_'' \<or> b = CHR ''-''"

text \<open>\<open>bytes.split(|byte| !token_byte(byte))\<close>; every piece is ASCII, so \<open>from_utf8\<close> keeps them all.\<close>

fun split_tokens :: "string \<Rightarrow> string list" where
  "split_tokens [] = [[]]"
| "split_tokens (b # bs) =
     (if \<not> token_byte b then [] # split_tokens bs
      else case split_tokens bs of [] \<Rightarrow> [[b]] | p # ps \<Rightarrow> (b # p) # ps)"

definition contains_credential_shaped_bytes :: "string \<Rightarrow> bool" where
  "contains_credential_shaped_bytes bytes = list_ex is_credential_shaped (split_tokens bytes)"

definition contains_credential_shaped_text :: "string \<Rightarrow> bool" where
  "contains_credential_shaped_text text_value = contains_credential_shaped_bytes text_value"

lemma split_tokens_not_Nil [simp]: "split_tokens s \<noteq> []"
  by (induction s) (auto split: list.splits)

lemma split_tokens_token: "\<forall>b\<in>set t. token_byte b \<Longrightarrow> split_tokens t = [t]"
  by (induction t) auto

lemma split_tokens_append:
  "\<not> token_byte b \<Longrightarrow> split_tokens (a @ b # c) = split_tokens a @ split_tokens c"
proof (induction a)
  case (Cons x xs)
  then show ?case by (cases "split_tokens xs") auto
qed simp

text \<open>A token between two delimiters (or the ends of the document) is one of the pieces.\<close>

definition delimited :: "string \<Rightarrow> string \<Rightarrow> string \<Rightarrow> bool" where
  "delimited before token after \<longleftrightarrow>
     (\<forall>b\<in>set token. token_byte b)
     \<and> (before = [] \<or> \<not> token_byte (last before)) \<and> (after = [] \<or> \<not> token_byte (hd after))"

lemma delimited_token:
  assumes "delimited before token after"
  shows "token \<in> set (split_tokens (before @ token @ after))"
proof -
  have tok: "\<forall>b\<in>set token. token_byte b" using assms by (simp add: delimited_def)
  have right: "token \<in> set (split_tokens (token @ after))"
  proof (cases after)
    case (Cons b c)
    then show ?thesis
      using assms split_tokens_append[of b token c] split_tokens_token[OF tok] by (simp add: delimited_def)
  qed (simp add: split_tokens_token[OF tok])
  show ?thesis
  proof (cases before rule: rev_cases)
    case (snoc a b)
    then show ?thesis
      using assms right split_tokens_append[of b a "token @ after"] by (simp add: delimited_def)
  qed (use right in simp)
qed

lemma token_trim:
  assumes "token \<noteq> []" "is_ascii_alphanumeric (hd token)" "is_ascii_alphanumeric (last token)"
  shows "trim_non_alphanumeric token = token"
proof -
  obtain x xs where x: "token = x # xs" using assms(1) by (cases token) auto
  obtain ys y where y: "token = ys @ [y]" using assms(1) by (cases token rule: rev_cases) auto
  have "dropWhile (\<lambda>c. \<not> is_ascii_alphanumeric c) token = token" using assms(2) x by simp
  moreover have "dropWhile (\<lambda>c. \<not> is_ascii_alphanumeric c) (rev token) = rev token"
    using assms(3) y by simp
  ultimately show ?thesis by (simp add: trim_non_alphanumeric_def)
qed

section \<open>Properties\<close>

text \<open>A token of credential shape is found wherever it stands in a document, as long as it is
  delimited by the ends of the document or by bytes that are not token bytes.\<close>

theorem delimited_credentials_are_found:
  assumes "delimited before token after" "credential_shape token"
    and "is_ascii_alphanumeric (hd token)" "is_ascii_alphanumeric (last token)"
  shows "contains_credential_shaped_text (before @ token @ after)"
proof -
  have "token \<noteq> []" using assms(2) by (auto simp: credential_shape_def credential_prefixes_def starts_with_def)
  then have "is_credential_shaped token"
    using assms(2-4) by (simp add: is_credential_shaped_def token_trim)
  then show ?thesis
    using delimited_token[OF assms(1)]
    by (auto simp: contains_credential_shaped_text_def contains_credential_shaped_bytes_def list_ex_iff)
qed

theorem delimited_credentials_are_found_witness:
  "contains_credential_shaped_text (''env: KEY=('' @ ''ghp_abcdefghijklmnop'' @ '')'')"
  by (rule delimited_credentials_are_found; code_simp)

end
