(* ===== verification/Local_State.thy ===== *)
theory Local_State
  imports Manifests
begin

text \<open>
  \<open>kitrove-model/src/local.rs\<close>: the machine-local root, deployment receipts with their identities and
  consumers, and pack application claims.
\<close>

section \<open>Data\<close>

definition MAX_ADDITIONAL_RECEIPT_CONSUMERS :: nat where
  "MAX_ADDITIONAL_RECEIPT_CONSUMERS = 3"

datatype binding_resolver = ResolveEnvironment string | ResolveCommand string "string list"

record machine_config =
  mc_id :: string
  mc_active_profile :: "string option"
  mc_enabled_targets :: "harness_id btree_set"
  mc_harness_roots :: "(harness_id, string) btree_map"

datatype receipt_target = WholeTarget | ManagedInstructionRegion | ManagedMcpEntry

record deployment_receipt =
  dr_asset_id :: string
  dr_harness :: harness_id
  dr_scope :: harness_scope
  dr_destination :: string
  dr_target :: receipt_target
  dr_logical_key :: "string option"
  dr_shared_with :: "harness_id btree_set"
  dr_shared_adapter_versions :: "(harness_id, string) btree_map"
  dr_source_hash :: string
  dr_rendered_hash :: string
  dr_document_hash :: "string option"
  dr_prior_hash :: "string option"
  dr_adapter_version :: string
  dr_environment_revision :: string

datatype trust_decision = Trusted string | Denied string

record scan_record =
  sr_harness :: harness_id
  sr_observed_at :: string
  sr_discovered_assets :: nat

record pack_application_claim =
  pa_pack_id :: string
  pa_pack_revision :: string
  pa_scope :: harness_scope
  pa_target_anchor :: string
  pa_targets :: "harness_id btree_set"
  pa_receipts :: "string btree_set"

record local_state =
  ls_schema_version :: schema_version
  ls_machine :: machine_config
  ls_bindings :: "(string, binding_resolver) btree_map"
  ls_receipts :: "(string, deployment_receipt) btree_map"
  ls_pack_applications :: "(string, pack_application_claim) btree_map"
  ls_trust :: "(string, trust_decision) btree_map"
  ls_scans :: "scan_record list"

section \<open>Receipts\<close>

definition receipt_checks :: "deployment_receipt \<Rightarrow> unit result" where
  "receipt_checks r =
     (let is_mcp_entry = (dr_target r = ManagedMcpEntry);
          has_structured_authority = (dr_logical_key r \<noteq> None \<or> dr_document_hash r \<noteq> None)
      in if (is_mcp_entry \<and> (dr_logical_key r = None \<or> dr_document_hash r = None))
             \<or> (\<not> is_mcp_entry \<and> has_structured_authority)
         then Err ''receipt.structured_authority_invalid''
         else if (case dr_logical_key r of Some key \<Rightarrow> \<not> is_portable_mcp_server_name key | None \<Rightarrow> False)
         then Err ''receipt.logical_key_invalid''
         else if is_mcp_entry \<and> (dr_shared_with r \<noteq> [] \<or> dr_shared_adapter_versions r \<noteq> [])
         then Err ''receipt.mcp_consumers_invalid''
         else if dr_target r = WholeTarget \<and> (dr_shared_with r \<noteq> [] \<or> dr_shared_adapter_versions r \<noteq> [])
         then Err ''receipt.shared_whole_target''
         else if length (dr_shared_with r) > MAX_ADDITIONAL_RECEIPT_CONSUMERS
         then Err ''receipt.consumer_limit''
         else if bt_keys (dr_shared_adapter_versions r) \<noteq> dr_shared_with r
             \<or> list_ex (\<lambda>v. v = []) (bt_values (dr_shared_adapter_versions r))
         then Err ''receipt.consumer_versions_invalid''
         else if bs_has (dr_shared_with r) (dr_harness r)
             \<or> (case dr_shared_with r of consumer # _ \<Rightarrow> consumer < dr_harness r | [] \<Rightarrow> False)
         then Err ''receipt.consumers_noncanonical''
         else Ok ())"

text \<open>The four identity fields that both receipt versions hash.\<close>

definition receipt_fields :: "deployment_receipt \<Rightarrow> string list" where
  "receipt_fields r =
     [dr_asset_id r, harness_id_as_str (dr_harness r), harness_scope_as_str (dr_scope r), dr_destination r]"

definition write_harnesses :: "harness_id list \<Rightarrow> string" where
  "write_harnesses hs = write_counted (\<lambda>h. write_text_record (harness_id_as_str h)) hs"

definition write_receipt_target :: "deployment_receipt \<Rightarrow> string" where
  "write_receipt_target r =
     (case dr_target r of
        ManagedInstructionRegion \<Rightarrow> ''managed_instruction_region'' @ [CHR 0x00]
      | ManagedMcpEntry \<Rightarrow>
          ''managed_mcp_entry'' @ [CHR 0x00]
          @ write_text_record (case dr_logical_key r of Some key \<Rightarrow> key | None \<Rightarrow> [])
      | WholeTarget \<Rightarrow> [])"

definition receipt_preimage :: "deployment_receipt \<Rightarrow> string" where
  "receipt_preimage r =
     (if dr_target r = WholeTarget
      then ''kitrove-receipt-id-v1'' @ [CHR 0x00] @ concat (map write_text_record (receipt_fields r))
      else ''kitrove-receipt-id-v2'' @ [CHR 0x00] @ concat (map write_text_record (receipt_fields r))
           @ write_receipt_target r @ write_harnesses (dr_shared_with r))"

definition receipt_id :: "(string \<Rightarrow> string) \<Rightarrow> deployment_receipt \<Rightarrow> string result" where
  "receipt_id H r =
     and_then (receipt_checks r) (identifier_parse (''receipt-'' @ H (receipt_preimage r)))"

definition receipt_consumers :: "deployment_receipt \<Rightarrow> harness_id list" where
  "receipt_consumers r = dr_harness r # dr_shared_with r"

definition adapter_version_for :: "deployment_receipt \<Rightarrow> harness_id \<Rightarrow> string option" where
  "adapter_version_for r harness =
     (if harness = dr_harness r then Some (dr_adapter_version r)
      else bt_get (dr_shared_adapter_versions r) harness)"

section \<open>Pack applications\<close>

definition application_preimage :: "pack_application_claim \<Rightarrow> string" where
  "application_preimage p =
     ''kitrove-pack-application-id-v1'' @ [CHR 0x00]
     @ concat (map write_text_record [pa_pack_id p, harness_scope_as_str (pa_scope p), pa_target_anchor p])
     @ write_harnesses (pa_targets p)"

definition application_id :: "(string \<Rightarrow> string) \<Rightarrow> pack_application_claim \<Rightarrow> string result" where
  "application_id H p =
     (if pa_targets p = [] then Err ''pack_application.empty''
      else identifier_parse (''pack-application-'' @ H (application_preimage p)))"

section \<open>The stored document\<close>

text \<open>\<open>serde_json\<close> is the pair of arguments; writing adds the final newline.\<close>

definition local_state_from_json :: "(string \<Rightarrow> local_state option) \<Rightarrow> string \<Rightarrow> local_state result" where
  "local_state_from_json decode input = ok_or ''local_state.invalid_json'' (decode input)"

definition local_state_to_json :: "(local_state \<Rightarrow> string option) \<Rightarrow> local_state \<Rightarrow> string result" where
  "local_state_to_json encode state =
     bind_result (ok_or ''local_state.serialize'' (encode state)) (\<lambda>encoded. Ok (encoded @ [CHR 0x0A]))"

section \<open>Identities\<close>

interpretation harness_text_code: prefix_code "\<lambda>h. write_text_record (harness_id_as_str h)" harness_fits
  by unfold_locales (auto simp: frame_simps)

interpretation harnesses_code: prefix_code write_harnesses "\<lambda>hs. fits_u64 hs \<and> (\<forall>h\<in>set hs. harness_fits h)"
  unfolding write_harnesses_def by unfold_locales (use harness_text_code.counted_unique in blast)

lemmas harnesses_cancel [frame_simps] = harnesses_code.inj harnesses_code.unique_iff

lemma hex_identifier: "blake3_hex H \<Longrightarrow> identifier_parse (''receipt-'' @ H b) = Ok (''receipt-'' @ H b)"
  "blake3_hex H \<Longrightarrow> identifier_parse (''pack-application-'' @ H b) = Ok (''pack-application-'' @ H b)"
proof -
  assume "blake3_hex H"
  then have hex: "list_all lower_hex_digit (H b)" by (auto simp: blake3_hex_def is_lower_hex_def)
  have "lower_hex_digit c \<Longrightarrow> identifier_tail_char c" for c
    by (auto simp: identifier_tail_char_def char_class_defs)
  then have "list_all identifier_tail_char (H b)" using hex by (auto simp: list_all_iff)
  moreover have "list_all identifier_tail_char ''eceipt-''" "list_all identifier_tail_char ''ack-application-''"
    by (simp_all add: identifier_tail_char_def is_ascii_lowercase_def)
  moreover have "is_ascii_lowercase CHR ''r''" "is_ascii_lowercase CHR ''p''" by (simp_all add: is_ascii_lowercase_def)
  ultimately show "identifier_parse (''receipt-'' @ H b) = Ok (''receipt-'' @ H b)"
    "identifier_parse (''pack-application-'' @ H b) = Ok (''pack-application-'' @ H b)"
    by (simp_all add: identifier_parse_Ok_iff validate_identifier_Ok_iff)
qed

definition receipt_fits :: "deployment_receipt \<Rightarrow> bool" where
  "receipt_fits r \<longleftrightarrow> fits_u64 (dr_asset_id r) \<and> harness_fits (dr_harness r) \<and> fits_u64 (dr_destination r)
     \<and> (\<forall>k\<in>set_option (dr_logical_key r). fits_u64 k)
     \<and> fits_u64 (dr_shared_with r) \<and> (\<forall>h\<in>set (dr_shared_with r). harness_fits h)"

text \<open>What a receipt is about: the fields its identity stands for.\<close>

definition receipt_subject :: "deployment_receipt \<Rightarrow>
    string \<times> harness_id \<times> harness_scope \<times> string \<times> receipt_target \<times> string option \<times> harness_id list" where
  "receipt_subject r = (dr_asset_id r, dr_harness r, dr_scope r, dr_destination r, dr_target r, dr_logical_key r,
     dr_shared_with r)"

lemma receipt_checks_key: "receipt_checks r = Ok () \<Longrightarrow> dr_logical_key r \<noteq> None \<longleftrightarrow> dr_target r = ManagedMcpEntry"
  by (auto simp: receipt_checks_def Let_def split: if_splits)

lemma receipt_checks_whole: "receipt_checks r = Ok () \<Longrightarrow> dr_target r = WholeTarget \<Longrightarrow> dr_shared_with r = []"
  by (auto simp: receipt_checks_def Let_def split: if_splits)

lemma receipt_preimage_inj:
  assumes "receipt_fits a" "receipt_fits b" "receipt_checks a = Ok ()" "receipt_checks b = Ok ()"
    and "receipt_preimage a = receipt_preimage b"
  shows "receipt_subject a = receipt_subject b"
proof -
  note keys = receipt_checks_key[OF assms(3)] receipt_checks_key[OF assms(4)]
  note whole = receipt_checks_whole[OF assms(3)] receipt_checks_whole[OF assms(4)]
  show ?thesis
    using assms(1,2,5) keys whole
    by (cases "dr_target a"; cases "dr_target b")
      (auto simp: receipt_preimage_def receipt_fields_def receipt_fits_def receipt_subject_def write_receipt_target_def
        frame_simps)
qed

lemma application_preimage_inj:
  assumes "fits_u64 (pa_pack_id p)" "fits_u64 (pa_target_anchor p)" "fits_u64 (pa_targets p)"
      "\<forall>h\<in>set (pa_targets p). harness_fits h"
    and "fits_u64 (pa_pack_id q)" "fits_u64 (pa_target_anchor q)" "fits_u64 (pa_targets q)"
      "\<forall>h\<in>set (pa_targets q). harness_fits h"
    and "application_preimage p = application_preimage q"
  shows "pa_pack_id p = pa_pack_id q \<and> pa_scope p = pa_scope q \<and> pa_target_anchor p = pa_target_anchor q
    \<and> pa_targets p = pa_targets q"
  using assms by (simp add: application_preimage_def frame_simps)

section \<open>Properties\<close>

text \<open>A receipt id identifies its subject: where the hash function has no collision between the two
  encodings, two receipts with one id are for the same asset, harness, scope, destination, kind of target,
  logical key and additional consumers, whichever encoding version each of them used.\<close>

theorem receipt_id_identifies_subject:
  assumes "receipt_id H a = Ok i" "receipt_id H b = Ok i" "receipt_fits a" "receipt_fits b"
    and "collision_free H {receipt_preimage a, receipt_preimage b}"
  shows "receipt_subject a = receipt_subject b"
proof -
  have ids: "''receipt-'' @ H (receipt_preimage a) = i" "''receipt-'' @ H (receipt_preimage b) = i"
    and checks: "receipt_checks a = Ok ()" "receipt_checks b = Ok ()"
    using assms(1,2) by (auto simp: receipt_id_def and_then_Ok_iff identifier_parse_Ok_iff)
  have "receipt_preimage a = receipt_preimage b"
    by (rule collision_freeD[OF assms(5)]) (use ids in auto)
  with assms(3,4) checks show ?thesis by (rule receipt_preimage_inj)
qed

definition sample_receipt :: deployment_receipt where
  "sample_receipt = \<lparr>dr_asset_id = ''review'', dr_harness = Claude, dr_scope = ScopeUser, dr_destination = ''/skills/review'',
     dr_target = WholeTarget, dr_logical_key = None, dr_shared_with = [], dr_shared_adapter_versions = [],
     dr_source_hash = [], dr_rendered_hash = [], dr_document_hash = None, dr_prior_hash = None,
     dr_adapter_version = ''1'', dr_environment_revision = []\<rparr>"

theorem receipt_id_identifies_subject_witness:
  "receipt_subject sample_receipt = receipt_subject (sample_receipt\<lparr>dr_adapter_version := ''2''\<rparr>)"
proof (rule receipt_id_identifies_subject)
  have hex: "blake3_hex (\<lambda>_. replicate 64 CHR ''a'')"
    by (simp add: blake3_hex_def is_lower_hex_def list_all_iff lower_hex_digit_def)
  show "receipt_id (\<lambda>_. replicate 64 CHR ''a'') sample_receipt = Ok (''receipt-'' @ replicate 64 CHR ''a'')"
    "receipt_id (\<lambda>_. replicate 64 CHR ''a'') (sample_receipt\<lparr>dr_adapter_version := ''2''\<rparr>)
      = Ok (''receipt-'' @ replicate 64 CHR ''a'')"
    unfolding receipt_id_def hex_identifier(1)[OF hex]
    by (simp_all add: receipt_checks_def sample_receipt_def bt_keys_def bt_values_def bs_has_def)
  show "receipt_fits sample_receipt" "receipt_fits (sample_receipt\<lparr>dr_adapter_version := ''2''\<rparr>)"
    by (simp_all add: receipt_fits_def sample_receipt_def fits_u64_def harness_fits_def valid_harness_id_def harness_id_as_str_def)
  show "collision_free (\<lambda>_. replicate 64 CHR ''a'')
      {receipt_preimage sample_receipt, receipt_preimage (sample_receipt\<lparr>dr_adapter_version := ''2''\<rparr>)}"
    by (simp add: collision_free_def receipt_preimage_def receipt_fields_def sample_receipt_def)
qed

end
