(* ===== verification/Lock_Authority.thy ===== *)
theory Lock_Authority
  imports Manifest_Validity
begin

text \<open>
  \<open>kitrove-core/src/authority.rs\<close>: the lockfile and the environment revision derived from a manifest, and
  the comparison with a stored lockfile.  The TOML and JSON texts are those of third-party crates, so
  the encoder of manifests and the decoder of lockfiles are arguments.
\<close>

section \<open>Derivation\<close>

definition lock_asset :: "asset \<Rightarrow> locked_asset" where
  "lock_asset a =
     \<lparr>la_id = asset_id a, la_kind = asset_kind_of a, la_content_hash = asset_content_hash a,
      la_portable_provenance = map_option pc_provenance (asset_portable a),
      la_native_provenance = bt_map nv_provenance (asset_native_variants a),
      la_provenance = asset_provenance a, la_compatibility = asset_compatibility a\<rparr>"

definition lock_pack :: "pack \<Rightarrow> locked_pack" where
  "lock_pack p =
     \<lparr>lp_id = pack_id p,
      lp_resolved_source = \<lparr>rs_source = pack_source p, rs_revision = pack_revision p,
                            rs_content_hash = pack_exact_source_hash p\<rparr>,
      lp_content_hash = pack_content_hash p, lp_members = pack_members p,
      lp_compatibility = pack_compatibility p\<rparr>"

definition derive_lockfile :: "(string \<Rightarrow> string) \<Rightarrow> environment_manifest \<Rightarrow> lockfile result" where
  "derive_lockfile H m =
     and_then (validate_manifest H m)
       (let l = \<lparr>lf_schema_version = V1, lf_assets = bt_map lock_asset (em_assets m),
                 lf_packs = bt_map lock_pack (em_packs m)\<rparr>
        in and_then (validate_lockfile H l) (Ok l))"

definition manifest_to_toml ::
  "(string \<Rightarrow> string) \<Rightarrow> (environment_manifest \<Rightarrow> string option) \<Rightarrow> environment_manifest \<Rightarrow> string result" where
  "manifest_to_toml H encode m =
     and_then (validate_manifest H m)
       (bind_result (ok_or ''manifest.serialize'' (encode m)) (\<lambda>encoded.
         Ok (if ends_with [CHR 0x0A] encoded then encoded else encoded @ [CHR 0x0A])))"

definition derive_manifest_revision ::
  "(string \<Rightarrow> string) \<Rightarrow> (environment_manifest \<Rightarrow> string option) \<Rightarrow> environment_manifest \<Rightarrow> string result" where
  "derive_manifest_revision H encode m =
     bind_result (manifest_to_toml H encode m) (\<lambda>encoded. revision_parse (''manifest:blake3:'' @ H encoded))"

datatype lock_status = LockMissing | LockInvalid | LockDrift | LockInSync

record lock_comparison =
  lc_status :: lock_status
  lc_expected :: lockfile

definition lockfile_from_json ::
  "(string \<Rightarrow> string) \<Rightarrow> (string \<Rightarrow> lockfile option) \<Rightarrow> string \<Rightarrow> lockfile result" where
  "lockfile_from_json H decode input =
     bind_result (ok_or ''lockfile.invalid_json'' (decode input)) (\<lambda>v. and_then (validate_lockfile H v) (Ok v))"

definition compare_lockfile ::
  "(string \<Rightarrow> string) \<Rightarrow> (string \<Rightarrow> lockfile option) \<Rightarrow> environment_manifest \<Rightarrow> string option \<Rightarrow> lock_comparison result" where
  "compare_lockfile H decode m stored_json =
     bind_result (derive_lockfile H m) (\<lambda>expected.
       Ok \<lparr>lc_status =
             (case stored_json of
                None \<Rightarrow> LockMissing
              | Some json \<Rightarrow>
                  (case lockfile_from_json H decode json of
                     Inl _ \<Rightarrow> LockInvalid
                   | Inr stored \<Rightarrow> if stored = expected then LockInSync else LockDrift)),
           lc_expected = expected\<rparr>)"

section \<open>The derived lockfile always validates\<close>

lemma set_referenced_provenance:
  "set (referenced_provenance a) =
     (case asset_portable a of Some p \<Rightarrow> {pc_provenance p} | None \<Rightarrow> {})
     \<union> nv_provenance ` set (bt_values (asset_native_variants a))"
  by (auto simp: referenced_provenance_def split: option.splits)

lemma bt_values_map [simp]: "bt_values (bt_map f m) = map f (bt_values m)"
  by (induction m) (auto simp: bt_values_def bt_map_def)

lemma set_bt_map: "set (bt_map f m) = (\<lambda>e. (fst e, f (snd e))) ` set m"
  by (force simp: bt_map_def)

lemma lock_asset_valid:
  assumes "validate_manifest_asset H m (i, a) = Ok ()"
  shows "validate_locked_asset H (i, lock_asset a) = Ok ()"
proof -
  have key: "i = asset_id a" "asset_kind_of a \<noteq> PackKind"
    and ids: "\<forall>e\<in>set (asset_provenance a). fst e = provenance_id H (snd e)"
    and present: "\<forall>j\<in>set (referenced_provenance a). bt_has (asset_provenance a) j"
    and referenced: "\<forall>j\<in>set (bt_keys (asset_provenance a)). j \<in> set (referenced_provenance a)"
    using assms
    by (auto simp: validate_manifest_asset_def Let_def and_then_Ok_iff check_Ok_iff try_each_Ok_iff list_ex_iff)
  have "\<forall>e\<in>set (asset_provenance a). fst e \<in> set (referenced_provenance a)"
    using referenced by (auto simp: bt_keys_def)
  then show ?thesis
    using key ids present
    by (auto simp: validate_locked_asset_def lock_asset_def Let_def and_then_Ok_iff check_Ok_iff list_ex_iff
        set_referenced_provenance split: option.splits)
qed

lemma nested_members_locked:
  "nested_members lp_members (bt_map lock_pack packs) = nested_members pack_members packs"
proof -
  have "bt_has (bt_map lock_pack packs) = bt_has packs" by (rule ext) simp
  then show ?thesis
    by (intro ext) (simp add: nested_members_def bt_get_map lock_pack_def split: option.split)
qed

lemma pack_chain_locked: "pack_chain lp_members (bt_map lock_pack packs) xs \<longleftrightarrow> pack_chain pack_members packs xs"
  by (induction xs rule: induct_list012) (simp_all add: nested_edge_def nested_members_locked)

lemma locked_member_valid:
  assumes "exact_revision m i \<in> {None, Some v}" "bt_get (em_assets m) i \<noteq> None \<or> bt_get (em_packs m) i \<noteq> None"
    and "lf_assets l = bt_map lock_asset (em_assets m)" "lf_packs l = bt_map lock_pack (em_packs m)"
  shows "validate_locked_member l (i, v) = Ok ()"
  using assms
  by (auto simp: validate_locked_member_def exact_revision_def bt_get_map lock_asset_def lock_pack_def check_Ok_iff
      split: option.splits)

lemma lock_pack_valid:
  assumes valid: "validate_manifest H m = Ok ()" and e: "(i, p) \<in> set (em_packs m)"
    and l: "lf_assets l = bt_map lock_asset (em_assets m)" "lf_packs l = bt_map lock_pack (em_packs m)"
  shows "validate_locked_pack H l (i, lock_pack p) = Ok ()"
proof -
  have pack: "validate_manifest_pack H m (i, p) = Ok ()" and rev: "validate_pack_revision H m p = Ok ()"
    using valid e by (auto simp: validate_manifest_def and_then_Ok_iff try_each_Ok_iff validate_pack_revisions_def
        bt_values_def)
  obtain ms where "collect_exact_members m (pack_members p) = Ok ms"
    using rev by (auto simp: validate_pack_revision_def bind_result_Ok_iff)
  then have exact: "\<forall>e\<in>set (pack_members p). exact_revision m (fst e) \<in> {None, Some (snd e)}"
    by (simp add: collect_exact_members_Ok)
  have known: "\<forall>j\<in>set (bt_keys (pack_members p)). bt_get (em_assets m) j \<noteq> None \<or> bt_get (em_packs m) j \<noteq> None"
    using pack by (auto simp: validate_manifest_pack_def Let_def and_then_Ok_iff check_Ok_iff try_each_Ok_iff bt_has_def)
  have "validate_locked_member l e = Ok ()" if "e \<in> set (pack_members p)" for e
    using locked_member_valid[of m "fst e" "snd e" l] exact known that l by (auto simp: bt_keys_def)
  then show ?thesis
    using pack l
    by (auto simp: validate_locked_pack_def validate_manifest_pack_def lock_pack_def Let_def and_then_Ok_iff
        check_Ok_iff try_each_Ok_iff)
qed

lemma derived_lockfile_valid:
  assumes "validate_manifest H m = Ok ()"
  shows "validate_lockfile H \<lparr>lf_schema_version = V1, lf_assets = bt_map lock_asset (em_assets m),
    lf_packs = bt_map lock_pack (em_packs m)\<rparr> = Ok ()" (is "validate_lockfile H ?l = _")
proof -
  have budget: "validate_locked_pack_member_budget ?l = Ok ()"
    using assms
    by (simp add: validate_manifest_def and_then_Ok_iff validate_locked_pack_member_budget_def member_budget_Ok_iff
        lock_pack_def o_def)
  have within: "pack_chains_within lp_members (lf_packs ?l) MAX_PACK_GRAPH_DEPTH"
    using valid_manifest_within_limit[OF assms] by (simp add: pack_chains_within_def pack_chain_locked)
  have "validate_locked_asset H e = Ok ()" if "e \<in> set (lf_assets ?l)" for e
    using that lock_asset_valid assms
    by (auto simp: set_bt_map validate_manifest_def and_then_Ok_iff try_each_Ok_iff)
  moreover have "validate_locked_pack H ?l e = Ok ()" if "e \<in> set (lf_packs ?l)" for e
    using that lock_pack_valid[OF assms] by (auto simp: set_bt_map)
  ultimately show ?thesis
    using budget within
    by (simp add: validate_lockfile_def and_then_Ok_iff try_each_Ok_iff validate_locked_pack_graph_depth_def
        reject_lockfile_pack_cycles_def graph_depth_iff reject_pack_cycles_within_limit)
qed

lemma derive_lockfile_Ok_iff:
  "derive_lockfile H m = Ok l \<longleftrightarrow> validate_manifest H m = Ok ()
     \<and> l = \<lparr>lf_schema_version = V1, lf_assets = bt_map lock_asset (em_assets m),
            lf_packs = bt_map lock_pack (em_packs m)\<rparr>"
  using derived_lockfile_valid[of H m]
  by (auto simp: derive_lockfile_def and_then_Ok_iff Let_def)

section \<open>Properties\<close>

text \<open>C26: Every validated manifest has a lockfile: the derivation's own validation of its result cannot
  fail, the result records each asset and pack under its identity with its revision, and a stored
  lockfile that decodes to it is reported in sync.\<close>

theorem validated_manifests_lock:
  assumes "validate_manifest H m = Ok ()"
  shows "\<exists>l. derive_lockfile H m = Ok l \<and> validate_lockfile H l = Ok ()
    \<and> map_option la_content_hash \<circ> bt_get (lf_assets l) = map_option asset_content_hash \<circ> bt_get (em_assets m)
    \<and> map_option lp_content_hash \<circ> bt_get (lf_packs l) = map_option pack_content_hash \<circ> bt_get (em_packs m)
    \<and> compare_lockfile H (\<lambda>_. Some l) m (Some json) = Ok \<lparr>lc_status = LockInSync, lc_expected = l\<rparr>"
proof -
  define l where "l = \<lparr>lf_schema_version = V1, lf_assets = bt_map lock_asset (em_assets m),
      lf_packs = bt_map lock_pack (em_packs m)\<rparr>"
  have l: "derive_lockfile H m = Ok l" "validate_lockfile H l = Ok ()"
    using assms derived_lockfile_valid[OF assms] by (simp_all add: derive_lockfile_Ok_iff l_def)
  moreover have "compare_lockfile H (\<lambda>_. Some l) m (Some json) = Ok \<lparr>lc_status = LockInSync, lc_expected = l\<rparr>"
    using l by (simp add: compare_lockfile_def lockfile_from_json_def)
  moreover have "map_option la_content_hash \<circ> bt_get (lf_assets l) = map_option asset_content_hash \<circ> bt_get (em_assets m)"
    "map_option lp_content_hash \<circ> bt_get (lf_packs l) = map_option pack_content_hash \<circ> bt_get (em_packs m)"
    by (simp_all add: l_def fun_eq_iff bt_get_map option.map_comp o_def lock_asset_def lock_pack_def)
  ultimately show ?thesis by blast
qed

theorem validated_manifests_lock_witness:
  "\<exists>l. derive_lockfile sample_digest sample_manifest = Ok l \<and> validate_lockfile sample_digest l = Ok ()"
  using validated_manifests_lock[OF sample_manifest_valid] by blast

section \<open>Sample manifests\<close>

definition manifest_requiring :: "string list \<Rightarrow> environment_manifest" where
  "manifest_requiring bindings = \<lparr>em_schema_version = V1, em_assets = [], em_packs = [], em_profiles = [],
     em_required_bindings = bindings\<rparr>"

lemma manifest_requiring_checks:
  "validate_pack_member_budget pack_members [] code = Ok ()"
  "manifest_pack_graph_depth (manifest_requiring bs) = Ok ()"
  by (simp_all add: validate_pack_member_budget_def bt_values_def MAX_PACK_MEMBER_EDGES_def manifest_pack_graph_depth_def
      validate_pack_graph_depth_def manifest_requiring_def bt_keys_def)

lemma manifest_requiring_valid: "validate_manifest H (manifest_requiring bs) = Ok ()"
  by (simp add: validate_manifest_def manifest_requiring_checks(2))
    (simp add: manifest_requiring_def manifest_requiring_checks(1) reject_pack_cycles_def validate_pack_revisions_def
      reject_profile_cycles_def bt_keys_def bt_values_def)

lemma manifest_requiring_lock:
  "derive_lockfile H (manifest_requiring bs) = Ok \<lparr>lf_schema_version = V1, lf_assets = [], lf_packs = []\<rparr>"
  using manifest_requiring_valid by (simp add: derive_lockfile_Ok_iff) (simp add: manifest_requiring_def bt_map_def)

end
