(* ===== verification/Sync_Records.thy ===== *)
theory Sync_Records
  imports Local_State "HOL-Library.Word" "HOL-Library.Product_Lexorder"
begin

text \<open>
  \<open>kitrove-model/src/sync.rs\<close> and \<open>sync_base_pointer.rs\<close>: synchronization identities, limits, object
  descriptors, retained bases and conflicts.  \<open>u64\<close> and \<open>usize\<close> are 64-bit words.  \<open>serde_json\<close> is not
  part of the repository: the two documents take its encoder and decoder as arguments.
\<close>

section \<open>Machine arithmetic\<close>

definition u64_checked_add :: "64 word \<Rightarrow> 64 word \<Rightarrow> 64 word option" where
  "u64_checked_add a b = (if a + b < a then None else Some (a + b))"

definition u64_saturating_add :: "64 word \<Rightarrow> 64 word \<Rightarrow> 64 word" where
  "u64_saturating_add a b = (if a + b < a then - 1 else a + b)"

lemma u64_bound: "unat (w :: 64 word) < 2 ^ 64"
  using unsigned_less[of w] by simp

lemma u64_add_wraps: "(a :: 64 word) + b < a \<longleftrightarrow> \<not> unat a + unat b < 2 ^ 64"
proof -
  have "a + b < a \<longleftrightarrow> \<not> a \<le> a + b" by auto
  also have "\<dots> \<longleftrightarrow> \<not> unat a + unat b < 2 ^ LENGTH(64)" by (simp only: no_olen_add_nat)
  finally show ?thesis by simp
qed

lemma u64_unat_add: "unat (a :: 64 word) + unat b < 2 ^ 64 \<Longrightarrow> unat (a + b) = unat a + unat b"
  by (simp add: unat_word_ariths)

lemma u64_checked_add_Some:
  "u64_checked_add a b = Some c \<longleftrightarrow> unat c = unat a + unat b"
proof (cases "unat a + unat b < 2 ^ 64")
  case True
  then show ?thesis
    using u64_unat_add[OF True] u64_add_wraps[of a b]
    by (auto simp: u64_checked_add_def word_unat_eq_iff)
next
  case False
  have "unat c < 2 ^ LENGTH(64)" by (rule unsigned_less)
  with False show ?thesis using u64_add_wraps[of a b] by (auto simp: u64_checked_add_def)
qed

lemma u64_checked_add_None: "u64_checked_add a b = None \<longleftrightarrow> \<not> unat a + unat b < 2 ^ 64"
  using u64_add_wraps[of a b] by (simp add: u64_checked_add_def)

lemma u64_saturating_add_unat: "unat (u64_saturating_add a b) = min (2 ^ 64 - 1) (unat a + unat b)"
proof (cases "unat a + unat b < 2 ^ 64")
  case True
  then show ?thesis using u64_add_wraps[of a b] u64_unat_add[OF True] by (simp add: u64_saturating_add_def)
next
  case False
  have "unat (- 1 :: 64 word) = 2 ^ 64 - 1" by (simp add: unsigned_minus_1_eq_mask mask_eq_exp_minus_1)
  with False show ?thesis using u64_add_wraps[of a b] by (simp add: u64_saturating_add_def)
qed

section \<open>Qualified digests and revisions\<close>

definition snapshot_digest_parse :: "string \<Rightarrow> string result" where
  "snapshot_digest_parse =
     qualified_digest_parse ''snapshot:blake3:'' ''snapshot_digest.unsupported_format'' ''snapshot_digest.invalid_digest''"

definition remote_key_parse :: "string \<Rightarrow> string result" where
  "remote_key_parse =
     qualified_digest_parse ''remote:blake3:'' ''remote_key.unsupported_format'' ''remote_key.invalid_digest''"

definition publication_id_parse :: "string \<Rightarrow> string result" where
  "publication_id_parse =
     qualified_digest_parse ''publication:blake3:'' ''publication_id.unsupported_format'' ''publication_id.invalid_digest''"

definition MAX_REMOTE_REVISION_BYTES :: nat where
  "MAX_REMOTE_REVISION_BYTES = 1024"

definition remote_revision_parse :: "string \<Rightarrow> string result" where
  "remote_revision_parse value =
     (if value = [] \<or> length value > MAX_REMOTE_REVISION_BYTES
         \<or> \<not> list_all (\<lambda>b. 0x20 \<le> byte b \<and> byte b \<le> 0x7E) value
      then Err ''remote_revision.invalid'' else Ok value)"

section \<open>Limits\<close>

definition MAX_SUPPORTED_SYNC_COMPONENTS :: "64 word" where
  "MAX_SUPPORTED_SYNC_COMPONENTS = 65536"

record git_sync_limits =
  gl_max_response_header_bytes :: "64 word"
  gl_http_input_buffer_bytes :: "64 word"
  gl_http_output_buffer_bytes :: "64 word"
  gl_max_response_body_bytes :: "64 word"
  gl_max_request_body_bytes :: "64 word"
  gl_max_advertisement_bytes :: "64 word"
  gl_max_advertisement_refs :: "64 word"
  gl_max_packet_lines :: "64 word"
  gl_max_received_pack_bytes :: "64 word"
  gl_max_decoded_objects :: "64 word"
  gl_max_decoded_object_bytes :: "64 word"
  gl_max_total_decoded_object_bytes :: "64 word"
  gl_max_delta_depth :: "64 word"
  gl_connect_timeout_ms :: "64 word"
  gl_response_header_timeout_ms :: "64 word"
  gl_body_read_timeout_ms :: "64 word"
  gl_exchange_deadline_ms :: "64 word"
  gl_operation_deadline_ms :: "64 word"

text \<open>The constructor, with its arguments gathered in the record it would return.\<close>

definition git_sync_limits_new :: "git_sync_limits \<Rightarrow> git_sync_limits result" where
  "git_sync_limits_new l =
     (if list_ex (\<lambda>x. x = 0)
           [gl_max_response_header_bytes l, gl_http_input_buffer_bytes l, gl_http_output_buffer_bytes l,
            gl_max_advertisement_refs l, gl_max_packet_lines l, gl_max_decoded_objects l, gl_max_delta_depth l]
         \<or> list_ex (\<lambda>x. x = 0)
           [gl_max_response_body_bytes l, gl_max_request_body_bytes l, gl_max_advertisement_bytes l,
            gl_max_received_pack_bytes l, gl_max_decoded_object_bytes l, gl_max_total_decoded_object_bytes l,
            gl_connect_timeout_ms l, gl_response_header_timeout_ms l, gl_body_read_timeout_ms l,
            gl_exchange_deadline_ms l, gl_operation_deadline_ms l]
         \<or> gl_max_response_body_bytes l < gl_max_received_pack_bytes l
         \<or> gl_max_total_decoded_object_bytes l < gl_max_decoded_object_bytes l
         \<or> gl_operation_deadline_ms l < gl_exchange_deadline_ms l
      then Err ''git_sync_limits.invalid'' else Ok l)"

definition git_sync_limits_default :: "git_sync_limits result" where
  "git_sync_limits_default = git_sync_limits_new
     \<lparr>gl_max_response_header_bytes = 32 * 1024, gl_http_input_buffer_bytes = 8 * 1024,
      gl_http_output_buffer_bytes = 8 * 1024, gl_max_response_body_bytes = 512 * 1024 * 1024,
      gl_max_request_body_bytes = 384 * 1024 * 1024, gl_max_advertisement_bytes = 4 * 1024 * 1024,
      gl_max_advertisement_refs = 4096, gl_max_packet_lines = MAX_SUPPORTED_SYNC_COMPONENTS,
      gl_max_received_pack_bytes = 384 * 1024 * 1024, gl_max_decoded_objects = 16384,
      gl_max_decoded_object_bytes = 32 * 1024 * 1024, gl_max_total_decoded_object_bytes = 512 * 1024 * 1024,
      gl_max_delta_depth = 64, gl_connect_timeout_ms = 10000, gl_response_header_timeout_ms = 15000,
      gl_body_read_timeout_ms = 15000, gl_exchange_deadline_ms = 120000, gl_operation_deadline_ms = 300000\<rparr>"

record sync_limits =
  sl_max_snapshot_bytes :: "64 word"
  sl_max_control_bytes :: "64 word"
  sl_max_manifest_bytes :: "64 word"
  sl_max_lock_bytes :: "64 word"
  sl_max_object_count :: "64 word"
  sl_max_object_bytes :: "64 word"
  sl_max_total_object_bytes :: "64 word"
  sl_max_conflicts :: "64 word"
  sl_max_components :: "64 word"
  sl_max_backend_history :: "64 word"
  sl_git :: "git_sync_limits"

text \<open>The ten arguments of \<open>SyncLimits::new\<close> are those of the code, in its order; \<open>expect\<close> is the failure of
  the Git default.\<close>

definition sync_limits_new ::
  "64 word \<Rightarrow> 64 word \<Rightarrow> 64 word \<Rightarrow> 64 word \<Rightarrow> 64 word \<Rightarrow> 64 word \<Rightarrow> 64 word \<Rightarrow> 64 word \<Rightarrow> 64 word \<Rightarrow> 64 word
   \<Rightarrow> sync_limits result" where
  "sync_limits_new snapshot control manifest lock count obj aggregate conflicts components history =
     (if list_ex (\<lambda>x. x = 0) [snapshot, control, manifest, lock, obj, aggregate]
         \<or> list_ex (\<lambda>x. x = 0) [count, conflicts, components, history]
         \<or> components > MAX_SUPPORTED_SYNC_COMPONENTS
         \<or> aggregate < obj
         \<or> snapshot < u64_saturating_add manifest lock
      then Err ''sync_limits.invalid''
      else bind_result git_sync_limits_default (\<lambda>git.
        Ok \<lparr>sl_max_snapshot_bytes = snapshot, sl_max_control_bytes = control, sl_max_manifest_bytes = manifest,
            sl_max_lock_bytes = lock, sl_max_object_count = count, sl_max_object_bytes = obj,
            sl_max_total_object_bytes = aggregate, sl_max_conflicts = conflicts, sl_max_components = components,
            sl_max_backend_history = history, sl_git = git\<rparr>))"

definition with_git_limits :: "sync_limits \<Rightarrow> git_sync_limits \<Rightarrow> sync_limits" where
  "with_git_limits l git = l\<lparr>sl_git := git\<rparr>"

definition sync_limits_default :: "sync_limits result" where
  "sync_limits_default =
     sync_limits_new (256 * 1024 * 1024) (4 * 1024 * 1024) (4 * 1024 * 1024) (4 * 1024 * 1024) 4096
       (16 * 1024 * 1024) (240 * 1024 * 1024) 1024 65536 4096"

section \<open>Object descriptors\<close>

datatype snapshot_object_kind =
    PortableSkillTree | NativeSkillObject | NativeExtensionObject | PortableInstruction | NativeInstruction
  | PortablePromptCommand | NativePromptCommand | PortableAgent | NativeAgent | PortableMcp | NativeMcp

definition is_tree_backed :: "snapshot_object_kind \<Rightarrow> bool" where
  "is_tree_backed k \<longleftrightarrow> k = PortableSkillTree \<or> k = NativeSkillObject \<or> k = NativeExtensionObject"

definition object_kind_index :: "snapshot_object_kind \<Rightarrow> nat" where
  "object_kind_index k = (case k of PortableSkillTree \<Rightarrow> 0 | NativeSkillObject \<Rightarrow> 1 | NativeExtensionObject \<Rightarrow> 2
     | PortableInstruction \<Rightarrow> 3 | NativeInstruction \<Rightarrow> 4 | PortablePromptCommand \<Rightarrow> 5 | NativePromptCommand \<Rightarrow> 6
     | PortableAgent \<Rightarrow> 7 | NativeAgent \<Rightarrow> 8 | PortableMcp \<Rightarrow> 9 | NativeMcp \<Rightarrow> 10)"

lemma object_kind_index_inj: "object_kind_index a = object_kind_index b \<Longrightarrow> a = b"
  by (cases a; cases b) (simp_all add: object_kind_index_def)

datatype object_descriptor =
  ObjectDescriptor (od_kind: snapshot_object_kind) (od_root: string) (od_object_hash: string) (od_encoded_len: "64 word")

text \<open>The derived order: the fields in declaration order.\<close>

definition descriptor_key :: "object_descriptor \<Rightarrow> nat \<times> string \<times> string \<times> 64 word" where
  "descriptor_key d = (object_kind_index (od_kind d), od_root d, od_object_hash d, od_encoded_len d)"

lemma descriptor_key_inj: "descriptor_key a = descriptor_key b \<Longrightarrow> a = b"
  by (cases a; cases b) (auto simp: descriptor_key_def dest: object_kind_index_inj)

instantiation object_descriptor :: linorder
begin

definition less_eq_object_descriptor :: "object_descriptor \<Rightarrow> object_descriptor \<Rightarrow> bool" where
  "less_eq_object_descriptor a b \<longleftrightarrow> descriptor_key a \<le> descriptor_key b"

definition less_object_descriptor :: "object_descriptor \<Rightarrow> object_descriptor \<Rightarrow> bool" where
  "less_object_descriptor a b \<longleftrightarrow> descriptor_key a < descriptor_key b"

instance
  by intro_classes
    (auto simp: less_eq_object_descriptor_def less_object_descriptor_def intro: descriptor_key_inj)

end

definition object_descriptor_new ::
  "snapshot_object_kind \<Rightarrow> string \<Rightarrow> string \<Rightarrow> 64 word \<Rightarrow> object_descriptor result" where
  "object_descriptor_new kind root object_hash encoded_len =
     (if encoded_len = 0 then Err ''sync_objects.empty_object''
      else Ok (ObjectDescriptor kind root object_hash encoded_len))"

definition check_descriptor ::
  "sync_limits \<Rightarrow> string btree_set \<times> 64 word \<Rightarrow> object_descriptor \<Rightarrow> (string btree_set \<times> 64 word) result" where
  "check_descriptor limits s d =
     (case s of (roots, sum_bytes) \<Rightarrow>
       if od_encoded_len d = 0 then Err ''sync_objects.empty_object''
       else if od_encoded_len d > sl_max_object_bytes limits then Err ''sync_objects.object_bytes_exceeded''
       else bind_result (ok_or ''sync_objects.total_bytes_exceeded'' (u64_checked_add sum_bytes (od_encoded_len d))) (\<lambda>sum_bytes'.
         if sum_bytes' > sl_max_total_object_bytes limits then Err ''sync_objects.total_bytes_exceeded''
         else if bs_has roots (od_root d) then Err ''sync_objects.duplicate_root''
         else Ok (bs_insert (od_root d) roots, sum_bytes')))"

definition validate_descriptors :: "object_descriptor btree_set \<Rightarrow> sync_limits \<Rightarrow> unit result" where
  "validate_descriptors objects limits =
     (if length objects > unat (sl_max_object_count limits) then Err ''sync_objects.count_exceeded''
      else bind_result (try_fold (check_descriptor limits) ([], 0) objects) (\<lambda>_. Ok ()))"

section \<open>Retained bases\<close>

record sync_base_record =
  sb_schema_version :: nat
  sb_remote_key :: string
  sb_snapshot_digest :: string
  sb_manifest_revision :: string
  sb_backend_revision :: string
  sb_objects :: "object_descriptor btree_set"

definition generation_id_for_json :: "(string \<Rightarrow> string) \<Rightarrow> string \<Rightarrow> string" where
  "generation_id_for_json H encoded =
     ''blake3:'' @ H (''kitrove-sync-base-generation-v1'' @ [CHR 0x00] @ write_text_record encoded)"

definition sync_base_record_new ::
  "string \<Rightarrow> string \<Rightarrow> string \<Rightarrow> string \<Rightarrow> object_descriptor btree_set \<Rightarrow> sync_limits \<Rightarrow> sync_base_record result" where
  "sync_base_record_new remote_key digest manifest_revision backend_revision objects limits =
     and_then (validate_descriptors objects limits)
       (Ok \<lparr>sb_schema_version = 1, sb_remote_key = remote_key, sb_snapshot_digest = digest,
            sb_manifest_revision = manifest_revision, sb_backend_revision = backend_revision, sb_objects = objects\<rparr>)"

definition over_control_limit :: "string \<Rightarrow> sync_limits \<Rightarrow> bool" where
  "over_control_limit text_value limits \<longleftrightarrow> length text_value > unat (sl_max_control_bytes limits)"

definition sync_base_record_from_json ::
  "(string \<Rightarrow> sync_base_record option) \<Rightarrow> string \<Rightarrow> sync_limits \<Rightarrow> sync_base_record result" where
  "sync_base_record_from_json decode input limits =
     (if over_control_limit input limits then Err ''sync_base.too_large''
      else bind_result (ok_or ''sync_base.invalid_json'' (decode input)) (\<lambda>v.
        if sb_schema_version v \<noteq> 1 then Err ''sync_base.unsupported_version''
        else sync_base_record_new (sb_remote_key v) (sb_snapshot_digest v) (sb_manifest_revision v)
               (sb_backend_revision v) (sb_objects v) limits))"

definition sync_base_record_to_json ::
  "(sync_base_record \<Rightarrow> string) \<Rightarrow> sync_base_record \<Rightarrow> sync_limits \<Rightarrow> string result" where
  "sync_base_record_to_json encode self limits =
     and_then (validate_descriptors (sb_objects self) limits)
       (let encoded = encode self @ [CHR 0x0A]
        in if over_control_limit encoded limits then Err ''sync_base.too_large'' else Ok encoded)"

record sync_base_pointer =
  sp_schema_version :: nat
  sp_remote_key :: string
  sp_generation :: string

definition sync_base_pointer_new :: "string \<Rightarrow> string \<Rightarrow> sync_base_pointer" where
  "sync_base_pointer_new remote_key generation =
     \<lparr>sp_schema_version = 1, sp_remote_key = remote_key, sp_generation = generation\<rparr>"

definition sync_base_pointer_to_json :: "(sync_base_pointer \<Rightarrow> string) \<Rightarrow> sync_base_pointer \<Rightarrow> string" where
  "sync_base_pointer_to_json encode self = encode self @ [CHR 0x0A]"

definition sync_base_pointer_from_json ::
  "(sync_base_pointer \<Rightarrow> string) \<Rightarrow> (string \<Rightarrow> sync_base_pointer option) \<Rightarrow> string \<Rightarrow> sync_limits
   \<Rightarrow> sync_base_pointer result" where
  "sync_base_pointer_from_json encode decode input limits =
     (if over_control_limit input limits then Err ''sync_base_pointer.invalid''
      else bind_result (ok_or ''sync_base_pointer.invalid'' (decode input)) (\<lambda>wire.
        if sp_schema_version wire \<noteq> 1 then Err ''sync_base_pointer.invalid''
        else let pointer = sync_base_pointer_new (sp_remote_key wire) (sp_generation wire)
             in if sync_base_pointer_to_json encode pointer \<noteq> input then Err ''sync_base_pointer.invalid''
                else Ok pointer))"

section \<open>Conflicts\<close>

datatype sync_conflict_code = DivergentComponent | DeletionUnsupported | ComponentUnsupported | BootstrapAmbiguous

definition sync_conflict_code_as_str :: "sync_conflict_code \<Rightarrow> string" where
  "sync_conflict_code_as_str c = (case c of
       DivergentComponent \<Rightarrow> ''sync.divergent_component''
     | DeletionUnsupported \<Rightarrow> ''sync.deletion_unsupported''
     | ComponentUnsupported \<Rightarrow> ''sync.component_unsupported''
     | BootstrapAmbiguous \<Rightarrow> ''sync.bootstrap_ambiguous'')"

datatype sync_conflict_subject =
    SubjectAssetKind string
  | SubjectPortable string
  | SubjectNative string harness_id
  | SubjectPack string
  | SubjectProfile string
  | SubjectRequiredBinding string
  | SubjectBootstrap

record sync_conflict =
  conflict_code :: sync_conflict_code
  conflict_subject :: sync_conflict_subject

end
