(* ===== verification/Semantic_Merge.thy ===== *)
theory Semantic_Merge
  imports Lock_Authority Sync_Records
begin

text \<open>
  \<open>kitrove-core/src/merge.rs\<close>: the pure three-way merge of environment manifests.  Objects of the Agent
  Skills formats enter the merge in two places only, the object budget of the catalog and the
  derivation of an asset from its merged draft; both are arguments here (\<open>check_objects\<close> and \<open>derive\<close>).
\<close>

section \<open>Conflicts\<close>

type_synonym conflicts = "sync_conflict list"

definition push_conflict ::
  "sync_limits \<Rightarrow> sync_conflict_code \<Rightarrow> sync_conflict_subject \<Rightarrow> conflicts \<Rightarrow> conflicts result" where
  "push_conflict limits code subject conflicts =
     (if length conflicts \<ge> unat (sl_max_conflicts limits) then Err ''sync_merge.conflict_limit_exceeded''
      else Ok (conflicts @ [\<lparr>conflict_code = code, conflict_subject = subject\<rparr>]))"

definition conflict_key :: "sync_conflict \<Rightarrow> string \<times> nat \<times> string \<times> string" where
  "conflict_key c =
     (case (case conflict_subject c of
              SubjectAssetKind a \<Rightarrow> (a, 0, [])
            | SubjectPortable a \<Rightarrow> (a, 1, [])
            | SubjectNative a h \<Rightarrow> (a, 2, harness_id_as_str h)
            | SubjectPack p \<Rightarrow> (p, 3, [])
            | SubjectProfile p \<Rightarrow> (p, 4, [])
            | SubjectRequiredBinding b \<Rightarrow> (b, 5, [])
            | SubjectBootstrap \<Rightarrow> ([], 6, []))
      of (identity, component, detail) \<Rightarrow>
        (identity, component, detail, sync_conflict_code_as_str (conflict_code c)))"

definition sort_conflicts :: "conflicts \<Rightarrow> conflicts" where
  "sort_conflicts conflicts = sort_key conflict_key conflicts"

section \<open>Three-way choice\<close>

definition choose3 :: "'a \<Rightarrow> 'a \<Rightarrow> 'a \<Rightarrow> 'a option" where
  "choose3 base local remote =
     (if local = remote then Some local
      else if local = base then Some remote
      else if remote = base then Some local
      else None)"

definition merge_set_membership ::
  "'a::linorder btree_set \<Rightarrow> 'a btree_set \<Rightarrow> 'a btree_set \<Rightarrow> 'a btree_set" where
  "merge_set_membership base local remote =
     bs_collect (filter (\<lambda>name.
         the (choose3 (bs_has base name) (bs_has local name) (bs_has remote name)))
       (bs_collect (base @ local @ remote)))"

section \<open>Assets\<close>

record asset_draft =
  ad_id :: string
  ad_kind :: asset_kind
  ad_provenance :: "(string, component_provenance) btree_map"
  ad_portable :: "portable_content option"
  ad_native_variants :: "(harness_id, native_variant) btree_map"
  ad_required_bindings :: "string btree_set"

definition draft_from_asset :: "asset \<Rightarrow> asset_draft" where
  "draft_from_asset a =
     \<lparr>ad_id = asset_id a, ad_kind = asset_kind_of a, ad_provenance = asset_provenance a,
      ad_portable = asset_portable a, ad_native_variants = asset_native_variants a,
      ad_required_bindings = asset_required_bindings a\<rparr>"

definition normalized_native :: "native_variant \<Rightarrow> native_variant" where
  "normalized_native v = v\<lparr>nv_content_class := DataOnly\<rparr>"

definition collect_one_provenance ::
  "asset list \<Rightarrow> (string, component_provenance) btree_map \<Rightarrow> string
   \<Rightarrow> (string, component_provenance) btree_map result" where
  "collect_one_provenance sources provenance i =
     (let records = List.map_filter (\<lambda>a. bt_get (asset_provenance a) i) sources
      in case records of
           [] \<Rightarrow> Err ''sync_merge.provenance_missing''
         | record # _ \<Rightarrow>
             if list_ex (\<lambda>candidate. candidate \<noteq> record) records then Err ''sync_merge.provenance_collision''
             else Ok (bt_insert i record provenance))"

definition collect_provenance ::
  "portable_content option \<Rightarrow> native_variant list \<Rightarrow> asset list
   \<Rightarrow> (string, component_provenance) btree_map result" where
  "collect_provenance portable native sources =
     try_fold (collect_one_provenance sources) []
       (bs_collect ((case portable of Some p \<Rightarrow> [pc_provenance p] | None \<Rightarrow> []) @ map nv_provenance native))"

text \<open>The three component merges of \<open>merge_existing_asset\<close>, each returning the conflicts extended.\<close>

definition merge_kind ::
  "sync_limits \<Rightarrow> asset \<Rightarrow> asset \<Rightarrow> asset \<Rightarrow> conflicts \<Rightarrow> (asset_kind \<times> conflicts) result" where
  "merge_kind limits base local remote conflicts =
     (case choose3 (asset_kind_of base) (asset_kind_of local) (asset_kind_of remote) of
        Some kind \<Rightarrow> Ok (kind, conflicts)
      | None \<Rightarrow>
          bind_result (push_conflict limits DivergentComponent (SubjectAssetKind (asset_id base)) conflicts)
            (\<lambda>conflicts'. Ok (asset_kind_of base, conflicts')))"

definition merge_portable ::
  "sync_limits \<Rightarrow> asset \<Rightarrow> asset \<Rightarrow> asset \<Rightarrow> conflicts \<Rightarrow> (portable_content option \<times> conflicts) result" where
  "merge_portable limits base local remote conflicts =
     (if asset_portable base \<noteq> None \<and> (asset_portable local = None \<or> asset_portable remote = None)
      then bind_result (push_conflict limits DeletionUnsupported (SubjectPortable (asset_id base)) conflicts)
             (\<lambda>conflicts'. Ok (asset_portable base, conflicts'))
      else case choose3 (asset_portable base) (asset_portable local) (asset_portable remote) of
        Some portable \<Rightarrow> Ok (portable, conflicts)
      | None \<Rightarrow>
          bind_result (push_conflict limits DivergentComponent (SubjectPortable (asset_id base)) conflicts)
            (\<lambda>conflicts'. Ok (asset_portable base, conflicts')))"

definition merge_native_value ::
  "sync_limits \<Rightarrow> asset \<Rightarrow> asset \<Rightarrow> asset \<Rightarrow> harness_id \<Rightarrow> conflicts
   \<Rightarrow> (native_variant option \<times> conflicts) result" where
  "merge_native_value limits base local remote harness conflicts =
     (let base_value = bt_get (asset_native_variants base) harness;
          local_value = bt_get (asset_native_variants local) harness;
          remote_value = bt_get (asset_native_variants remote) harness;
          base_component = map_option normalized_native base_value
      in if base_value \<noteq> None \<and> (local_value = None \<or> remote_value = None)
         then bind_result (push_conflict limits DeletionUnsupported (SubjectNative (asset_id base) harness) conflicts)
                (\<lambda>conflicts'. Ok (base_component, conflicts'))
         else case choose3 base_component (map_option normalized_native local_value)
                     (map_option normalized_native remote_value) of
             Some value \<Rightarrow> Ok (value, conflicts)
           | None \<Rightarrow>
               bind_result (push_conflict limits DivergentComponent (SubjectNative (asset_id base) harness) conflicts)
                 (\<lambda>conflicts'. Ok (base_component, conflicts')))"

definition merge_natives ::
  "sync_limits \<Rightarrow> asset \<Rightarrow> asset \<Rightarrow> asset \<Rightarrow> conflicts
   \<Rightarrow> ((harness_id, native_variant) btree_map \<times> conflicts) result" where
  "merge_natives limits base local remote conflicts =
     try_fold (\<lambda>(native_variants, conflicts) harness.
         bind_result (merge_native_value limits base local remote harness conflicts) (\<lambda>(selected, conflicts').
           Ok (case selected of Some value \<Rightarrow> bt_insert harness value native_variants | None \<Rightarrow> native_variants,
               conflicts')))
       ([], conflicts)
       (bs_collect (bt_keys (asset_native_variants base) @ bt_keys (asset_native_variants local)
                    @ bt_keys (asset_native_variants remote)))"

definition merge_existing_asset ::
  "sync_limits \<Rightarrow> asset \<Rightarrow> asset \<Rightarrow> asset \<Rightarrow> conflicts \<Rightarrow> (asset_draft \<times> conflicts) result" where
  "merge_existing_asset limits base local remote conflicts =
     bind_result (merge_kind limits base local remote conflicts) (\<lambda>(kind, c1).
     bind_result (merge_portable limits base local remote c1) (\<lambda>(portable, c2).
     bind_result (merge_natives limits base local remote c2) (\<lambda>(natives, c3).
     bind_result (collect_provenance portable (bt_values natives) [base, local, remote]) (\<lambda>provenance.
       Ok (\<lparr>ad_id = asset_id base, ad_kind = kind, ad_provenance = provenance, ad_portable = portable,
            ad_native_variants = natives,
            ad_required_bindings = merge_set_membership (asset_required_bindings base)
              (asset_required_bindings local) (asset_required_bindings remote)\<rparr>, c3)))))"

definition portable_skill_format :: string where
  "portable_skill_format = ''agent-skills/v1''"

definition native_skill_format :: string where
  "native_skill_format = ''kitrove-native-skill-object/v1''"

definition native_extension_format :: string where
  "native_extension_format = ''kitrove-native-pi-extension-object/v1''"

definition supported_shape :: "asset_draft \<Rightarrow> bool" where
  "supported_shape d =
     (case ad_kind d of
        Skill \<Rightarrow>
          (ad_portable d \<noteq> None \<or> ad_native_variants d \<noteq> [])
          \<and> (case ad_portable d of Some p \<Rightarrow> pc_format p = portable_skill_format | None \<Rightarrow> True)
          \<and> list_all (\<lambda>v. nv_format v = native_skill_format) (bt_values (ad_native_variants d))
      | Extension \<Rightarrow>
          ad_portable d = None \<and> length (ad_native_variants d) = 1
          \<and> (case bt_get (ad_native_variants d) Pi of
               Some v \<Rightarrow> nv_format v = native_extension_format | None \<Rightarrow> False)
      | _ \<Rightarrow> False)"

text \<open>The deletion subject of a base asset that one side no longer has.\<close>

definition deletion_subject :: "string \<Rightarrow> asset \<Rightarrow> sync_conflict_subject" where
  "deletion_subject i base =
     (if asset_kind_of base = Extension \<and> bt_has (asset_native_variants base) Pi
      then SubjectNative i Pi else SubjectAssetKind i)"

definition select_asset_draft ::
  "sync_limits \<Rightarrow> string \<Rightarrow> asset option \<Rightarrow> asset option \<Rightarrow> asset option \<Rightarrow> conflicts
   \<Rightarrow> (asset_draft option \<times> conflicts) result" where
  "select_asset_draft limits i base local remote conflicts =
     (case (base, local, remote) of
        (Some b, Some l, Some r) \<Rightarrow>
          bind_result (merge_existing_asset limits b l r conflicts) (\<lambda>(d, c). Ok (Some d, c))
      | (Some b, _, _) \<Rightarrow>
          bind_result (push_conflict limits DeletionUnsupported (deletion_subject i b) conflicts) (\<lambda>c. Ok (None, c))
      | (None, Some l, Some r) \<Rightarrow>
          if l \<noteq> r
          then bind_result (push_conflict limits DivergentComponent (SubjectAssetKind i) conflicts) (\<lambda>c. Ok (None, c))
          else Ok (Some (draft_from_asset l), conflicts)
      | (None, Some a, None) \<Rightarrow> Ok (Some (draft_from_asset a), conflicts)
      | (None, None, Some a) \<Rightarrow> Ok (Some (draft_from_asset a), conflicts)
      | (None, None, None) \<Rightarrow> Ok (None, conflicts))"

type_synonym asset_drafts = "(string, asset_draft) btree_map"

definition merge_one_asset ::
  "sync_limits \<Rightarrow> environment_manifest \<Rightarrow> environment_manifest \<Rightarrow> environment_manifest
   \<Rightarrow> asset_drafts \<times> conflicts \<Rightarrow> string \<Rightarrow> (asset_drafts \<times> conflicts) result" where
  "merge_one_asset limits base local remote s i =
     bind_result (select_asset_draft limits i (bt_get (em_assets base) i) (bt_get (em_assets local) i)
                    (bt_get (em_assets remote) i) (snd s)) (\<lambda>(draft, c).
       case draft of
         None \<Rightarrow> Ok (fst s, c)
       | Some d \<Rightarrow>
           bind_result (if supported_shape d then Ok c
                        else push_conflict limits ComponentUnsupported (SubjectAssetKind (ad_id d)) c)
             (\<lambda>c'. Ok (bt_insert i d (fst s), c')))"

definition key_union :: "('k::linorder, 'v) btree_map \<Rightarrow> ('k, 'v) btree_map \<Rightarrow> ('k, 'v) btree_map \<Rightarrow> 'k btree_set" where
  "key_union a b c = bs_collect (bt_keys a @ bt_keys b @ bt_keys c)"

definition merge_assets ::
  "sync_limits \<Rightarrow> environment_manifest \<Rightarrow> environment_manifest \<Rightarrow> environment_manifest \<Rightarrow> conflicts
   \<Rightarrow> (asset_drafts \<times> conflicts) result" where
  "merge_assets limits base local remote conflicts =
     try_fold (merge_one_asset limits base local remote) ([], conflicts)
       (key_union (em_assets base) (em_assets local) (em_assets remote))"

section \<open>Packs\<close>

record pack_source_draft =
  ps_source :: source
  ps_revision :: string
  ps_exact_source_hash :: string

record pack_draft =
  pd_id :: string
  pd_source :: pack_source_draft
  pd_members :: "string btree_set"

definition pack_source_of :: "pack \<Rightarrow> pack_source_draft" where
  "pack_source_of p =
     \<lparr>ps_source = pack_source p, ps_revision = pack_revision p, ps_exact_source_hash = pack_exact_source_hash p\<rparr>"

definition pack_member_ids :: "pack option \<Rightarrow> string btree_set" where
  "pack_member_ids p = (case p of Some q \<Rightarrow> bs_collect (bt_keys (pack_members q)) | None \<Rightarrow> [])"

text \<open>The source of a merged pack; \<open>None\<close> is the \<open>continue\<close> that skips the pack after its conflict.\<close>

definition select_pack_source ::
  "sync_limits \<Rightarrow> string \<Rightarrow> pack option \<Rightarrow> pack option \<Rightarrow> pack option \<Rightarrow> conflicts
   \<Rightarrow> (pack_source_draft option \<times> conflicts) result" where
  "select_pack_source limits i base local remote conflicts =
     (if base \<noteq> None \<and> (local = None \<or> remote = None)
      then bind_result (push_conflict limits DeletionUnsupported (SubjectPack i) conflicts) (\<lambda>c. Ok (None, c))
      else case (base, local, remote) of
        (None, Some l, Some r) \<Rightarrow>
          if pack_source_of l \<noteq> pack_source_of r \<or> pack_member_ids local \<noteq> pack_member_ids remote
          then bind_result (push_conflict limits DivergentComponent (SubjectPack i) conflicts) (\<lambda>c. Ok (None, c))
          else Ok (Some (pack_source_of l), conflicts)
      | (None, Some p, None) \<Rightarrow> Ok (Some (pack_source_of p), conflicts)
      | (None, None, Some p) \<Rightarrow> Ok (Some (pack_source_of p), conflicts)
      | (Some b, Some l, Some r) \<Rightarrow>
          (case choose3 (pack_source_of b) (pack_source_of l) (pack_source_of r) of
             Some selected \<Rightarrow> Ok (Some selected, conflicts)
           | None \<Rightarrow>
               bind_result (push_conflict limits DivergentComponent (SubjectPack i) conflicts) (\<lambda>c. Ok (None, c)))
      | _ \<Rightarrow> Ok (None, conflicts))"

type_synonym pack_drafts = "(string, pack_draft) btree_map"

definition merge_one_pack ::
  "sync_limits \<Rightarrow> environment_manifest \<Rightarrow> environment_manifest \<Rightarrow> environment_manifest
   \<Rightarrow> pack_drafts \<times> conflicts \<Rightarrow> string \<Rightarrow> (pack_drafts \<times> conflicts) result" where
  "merge_one_pack limits base local remote s i =
     (let b = bt_get (em_packs base) i; l = bt_get (em_packs local) i; r = bt_get (em_packs remote) i
      in bind_result (select_pack_source limits i b l r (snd s)) (\<lambda>(selected, c).
        case selected of
          None \<Rightarrow> Ok (fst s, c)
        | Some src \<Rightarrow>
            let base_members = pack_member_ids b; local_members = pack_member_ids l; remote_members = pack_member_ids r
            in if list_ex (\<lambda>member. \<not> bs_has local_members member \<or> \<not> bs_has remote_members member) base_members
               then bind_result (push_conflict limits DeletionUnsupported (SubjectPack i) c) (\<lambda>c'. Ok (fst s, c'))
               else Ok (bt_insert i \<lparr>pd_id = i, pd_source = src,
                                     pd_members = bs_collect (base_members @ local_members @ remote_members)\<rparr> (fst s), c)))"

definition merge_packs ::
  "sync_limits \<Rightarrow> environment_manifest \<Rightarrow> environment_manifest \<Rightarrow> environment_manifest \<Rightarrow> conflicts
   \<Rightarrow> (pack_drafts \<times> conflicts) result" where
  "merge_packs limits base local remote conflicts =
     try_fold (merge_one_pack limits base local remote) ([], conflicts)
       (key_union (em_packs base) (em_packs local) (em_packs remote))"

section \<open>Profiles, bindings and budgets\<close>

definition reject_changed_profile ::
  "sync_limits \<Rightarrow> environment_manifest \<Rightarrow> environment_manifest \<Rightarrow> environment_manifest \<Rightarrow> conflicts \<Rightarrow> string
   \<Rightarrow> conflicts result" where
  "reject_changed_profile limits base local remote conflicts i =
     (if bt_get (em_profiles base) i \<noteq> bt_get (em_profiles local) i
         \<or> bt_get (em_profiles base) i \<noteq> bt_get (em_profiles remote) i
      then push_conflict limits
             (if bt_has (em_profiles base) i
                 \<and> (\<not> bt_has (em_profiles local) i \<or> \<not> bt_has (em_profiles remote) i)
              then DeletionUnsupported else ComponentUnsupported)
             (SubjectProfile i) conflicts
      else Ok conflicts)"

definition reject_changed_profiles ::
  "sync_limits \<Rightarrow> environment_manifest \<Rightarrow> environment_manifest \<Rightarrow> environment_manifest \<Rightarrow> conflicts
   \<Rightarrow> conflicts result" where
  "reject_changed_profiles limits base local remote conflicts =
     try_fold (reject_changed_profile limits base local remote) conflicts
       (key_union (em_profiles base) (em_profiles local) (em_profiles remote))"

definition merge_bindings ::
  "environment_manifest \<Rightarrow> environment_manifest \<Rightarrow> environment_manifest \<Rightarrow> string btree_set" where
  "merge_bindings base local remote =
     merge_set_membership (em_required_bindings base) (em_required_bindings local) (em_required_bindings remote)"

text \<open>\<open>count.checked_add(n).ok_or_else(..)?\<close> followed by the comparison with \<open>max_components\<close>.\<close>

definition add_components :: "sync_limits \<Rightarrow> nat \<Rightarrow> nat \<Rightarrow> nat result" where
  "add_components limits count n =
     bind_result (ok_or ''sync_merge.component_limit_exceeded'' (usize_checked_add count n)) (\<lambda>count'.
       if count' > unat (sl_max_components limits) then Err ''sync_merge.component_limit_exceeded'' else Ok count')"

definition asset_component_count :: "asset option list \<Rightarrow> nat" where
  "asset_component_count assets =
     (let present = List.map_filter (\<lambda>a. a) assets
      in (if list_ex (\<lambda>a. asset_portable a \<noteq> None) present then 1 else 0)
         + length (bs_collect (concat (map (\<lambda>a. bt_keys (asset_native_variants a)) present))))"

definition pack_edges :: "environment_manifest \<Rightarrow> (string \<times> string) list" where
  "pack_edges m = concat (map (\<lambda>(i, p). map (Pair i) (bt_keys (pack_members p))) (em_packs m))"

definition validate_merged_component_budget ::
  "sync_limits \<Rightarrow> environment_manifest \<Rightarrow> environment_manifest \<Rightarrow> environment_manifest \<Rightarrow> unit result" where
  "validate_merged_component_budget limits base local remote =
     (let asset_ids = key_union (em_assets base) (em_assets local) (em_assets remote);
          pack_ids = key_union (em_packs base) (em_packs local) (em_packs remote);
          profile_ids = key_union (em_profiles base) (em_profiles local) (em_profiles remote);
          bindings = bs_collect (em_required_bindings base @ em_required_bindings local @ em_required_bindings remote)
      in bind_result (add_components limits 0 (length asset_ids + length pack_ids + length profile_ids + length bindings))
        (\<lambda>count.
      bind_result (try_fold (\<lambda>count i. add_components limits count
            (asset_component_count [bt_get (em_assets base) i, bt_get (em_assets local) i, bt_get (em_assets remote) i]))
          count asset_ids) (\<lambda>count'.
      bind_result (add_components limits count'
          (length (bs_collect (pack_edges base @ pack_edges local @ pack_edges remote)))) (\<lambda>_. Ok ()))))"

section \<open>The merge\<close>

record semantic_merge_result =
  sm_merged_manifest :: "environment_manifest option"
  sm_merged_lock :: "lockfile option"
  sm_conflicts :: conflicts

definition conflicted :: "conflicts \<Rightarrow> semantic_merge_result" where
  "conflicted conflicts = \<lparr>sm_merged_manifest = None, sm_merged_lock = None, sm_conflicts = conflicts\<rparr>"

definition pending_pack :: "(string \<Rightarrow> string) \<Rightarrow> pack_draft \<Rightarrow> pack" where
  "pending_pack H d =
     \<lparr>pack_id = pd_id d, pack_source = ps_source (pd_source d), pack_revision = ps_revision (pd_source d),
      pack_exact_source_hash = ps_exact_source_hash (pd_source d),
      pack_content_hash = content_hash_digest H ''pending-semantic-pack-merge'',
      pack_members = map (\<lambda>member. (member, content_hash_digest H ''pending-pack-member'')) (pd_members d),
      pack_compatibility = [], pack_content_class = DataOnly, pack_required_bindings = []\<rparr>"

type_synonym asset_derivation = "asset_draft \<Rightarrow> asset result"

definition derive_assets :: "asset_derivation \<Rightarrow> asset_drafts \<Rightarrow> (string, asset) btree_map result" where
  "derive_assets derive drafts =
     try_fold (\<lambda>assets (i, d). bind_result (derive d) (\<lambda>a. Ok (bt_insert i a assets))) [] drafts"

definition build_merged ::
  "(string \<Rightarrow> string) \<Rightarrow> asset_derivation \<Rightarrow> environment_manifest \<Rightarrow> string btree_set \<Rightarrow> asset_drafts \<Rightarrow> pack_drafts
   \<Rightarrow> semantic_merge_result result" where
  "build_merged H derive base bindings drafts packs =
     bind_result (derive_assets derive drafts) (\<lambda>assets.
     bind_result (map_err ''sync_merge.derived_manifest_invalid'' (refresh_pack_revisions H
         \<lparr>em_schema_version = V1, em_assets = assets, em_packs = bt_map (pending_pack H) packs,
          em_profiles = em_profiles base, em_required_bindings = bindings\<rparr>)) (\<lambda>manifest.
     bind_result (map_err ''sync_merge.derived_lock_invalid'' (derive_lockfile H manifest)) (\<lambda>lock.
       Ok \<lparr>sm_merged_manifest = Some manifest, sm_merged_lock = Some lock, sm_conflicts = []\<rparr>)))"

definition merge_manifests_with ::
  "(string \<Rightarrow> string) \<Rightarrow> (sync_limits \<Rightarrow> unit result) \<Rightarrow> asset_derivation \<Rightarrow> sync_limits
   \<Rightarrow> environment_manifest \<Rightarrow> environment_manifest \<Rightarrow> environment_manifest \<Rightarrow> semantic_merge_result result" where
  "merge_manifests_with H check_objects derive limits base local remote =
     and_then (check_objects limits)
     (and_then (try_each (\<lambda>m. map_err ''sync_merge.manifest_invalid'' (validate_manifest H m)) [base, local, remote])
     (and_then (validate_merged_component_budget limits base local remote)
     (bind_result (merge_assets limits base local remote []) (\<lambda>(drafts, c1).
      bind_result (merge_packs limits base local remote c1) (\<lambda>(packs, c2).
      bind_result (reject_changed_profiles limits base local remote c2) (\<lambda>conflicts.
        if conflicts \<noteq> [] then Ok (conflicted (sort_conflicts conflicts))
        else build_merged H derive base (merge_bindings base local remote) drafts packs))))))"

end
