(* ===== verification/Merge_Laws.thy ===== *)
theory Merge_Laws
  imports Semantic_Merge Manifest_Refresh
begin

text \<open>
  The laws of the semantic merge: it does not matter which side is called local, a change made on one
  side survives, nothing disappears, and conflicts are bounded.
\<close>

section \<open>The interface of a three-way choice\<close>

locale three_way =
  fixes pick :: "'a \<Rightarrow> 'a \<Rightarrow> 'a \<Rightarrow> 'a option"
  assumes agreed: "pick b x x = Some x"
    and unchanged_local: "pick b b r = Some r"
    and symmetric: "pick b l r = pick b r l"
    and both_changed: "l \<noteq> r \<Longrightarrow> l \<noteq> b \<Longrightarrow> r \<noteq> b \<Longrightarrow> pick b l r = None"
begin

lemma unchanged_remote: "pick b l b = Some l"
  using unchanged_local symmetric by metis

text \<open>A choice takes every change: whichever side differs from the base is the result.\<close>

lemma picks_changes: "pick b l r = Some x \<Longrightarrow> (l \<noteq> b \<longrightarrow> x = l) \<and> (r \<noteq> b \<longrightarrow> x = r) \<and> (l = b \<and> r = b \<longrightarrow> x = b)"
  using agreed unchanged_local unchanged_remote both_changed by (metis option.inject option.distinct(1))

lemma no_choice_iff: "pick b l r = None \<longleftrightarrow> l \<noteq> r \<and> l \<noteq> b \<and> r \<noteq> b"
  using agreed unchanged_local unchanged_remote both_changed by (metis option.distinct(1))

end

interpretation merge_choice: three_way choose3
  by unfold_locales (auto simp: choose3_def)

section \<open>The two sides are interchangeable\<close>

lemma merge_kind_sym: "merge_kind lim b l r c = merge_kind lim b r l c"
  unfolding merge_kind_def by (subst merge_choice.symmetric) (rule refl)

lemma merge_portable_sym: "merge_portable lim b l r c = merge_portable lim b r l c"
  unfolding merge_portable_def by (subst merge_choice.symmetric) (simp only: disj_commute)

lemma merge_native_value_sym: "merge_native_value lim b l r h c = merge_native_value lim b r l h c"
  unfolding merge_native_value_def Let_def by (subst merge_choice.symmetric) (simp only: disj_commute)

lemma merge_natives_sym: "merge_natives lim b l r c = merge_natives lim b r l c"
proof -
  have "bs_collect (bt_keys (asset_native_variants b) @ bt_keys (asset_native_variants l) @ bt_keys (asset_native_variants r))
      = bs_collect (bt_keys (asset_native_variants b) @ bt_keys (asset_native_variants r) @ bt_keys (asset_native_variants l))"
    by (rule bs_collect_cong) auto
  then show ?thesis unfolding merge_natives_def by (simp only: merge_native_value_sym[of lim b l r])
qed

lemma collect_one_provenance_sym: "collect_one_provenance [b, l, r] m i = collect_one_provenance [b, r, l] m i"
  by (cases "bt_get (asset_provenance b) i"; cases "bt_get (asset_provenance l) i"; cases "bt_get (asset_provenance r) i")
    (auto simp: collect_one_provenance_def List.map_filter_def)

lemma collect_provenance_sym: "collect_provenance p ns [b, l, r] = collect_provenance p ns [b, r, l]"
proof -
  have "collect_one_provenance [b, l, r] = collect_one_provenance [b, r, l]"
    by (intro ext) (rule collect_one_provenance_sym)
  then show ?thesis by (simp add: collect_provenance_def)
qed

lemma merge_set_membership_sym: "merge_set_membership b l r = merge_set_membership b r l"
proof -
  have "bs_collect (b @ l @ r) = bs_collect (b @ r @ l)" by (rule bs_collect_cong) auto
  moreover have "choose3 (bs_has b x) (bs_has l x) (bs_has r x) = choose3 (bs_has b x) (bs_has r x) (bs_has l x)" for x
    by (rule merge_choice.symmetric)
  ultimately show ?thesis unfolding merge_set_membership_def by (simp only:)
qed

lemma merge_existing_asset_sym: "merge_existing_asset lim b l r c = merge_existing_asset lim b r l c"
  unfolding merge_existing_asset_def
  by (simp only: merge_kind_sym[of lim b l r] merge_portable_sym[of lim b l r] merge_natives_sym[of lim b l r]
      collect_provenance_sym[of _ _ b l r] merge_set_membership_sym[of _ "asset_required_bindings l"])

lemma select_asset_draft_sym: "select_asset_draft lim i b l r c = select_asset_draft lim i b r l c"
  by (cases b; cases l; cases r) (auto simp: select_asset_draft_def merge_existing_asset_sym)

lemma key_union_sym: "key_union b l r = key_union b r l"
  unfolding key_union_def by (rule bs_collect_cong) auto

lemma merge_assets_sym: "merge_assets lim b l r c = merge_assets lim b r l c"
proof -
  have "merge_one_asset lim b l r = merge_one_asset lim b r l"
    unfolding merge_one_asset_def
    by (simp only: select_asset_draft_sym[of lim _ _ "bt_get (em_assets l) _" "bt_get (em_assets r) _"])
  then show ?thesis by (simp only: merge_assets_def key_union_sym[of "em_assets b" "em_assets l"])
qed

lemma select_pack_source_sym: "select_pack_source lim i b l r c = select_pack_source lim i b r l c"
proof -
  have "choose3 (pack_source_of x) (pack_source_of y) (pack_source_of z)
      = choose3 (pack_source_of x) (pack_source_of z) (pack_source_of y)" for x y z
    by (rule merge_choice.symmetric)
  then show ?thesis
    by (cases b; cases l; cases r) (auto simp: select_pack_source_def)
qed

lemma merge_packs_sym: "merge_packs lim b l r c = merge_packs lim b r l c"
proof -
  have members: "bs_collect (x @ y @ z) = bs_collect (x @ z @ y)" for x y z :: "string list"
    by (rule bs_collect_cong) auto
  have "merge_one_pack lim b l r s i = merge_one_pack lim b r l s i" for s i
    unfolding merge_one_pack_def Let_def
    by (subst select_pack_source_sym) (simp only: members[of _ "pack_member_ids (bt_get (em_packs l) i)"] disj_commute)
  then have "merge_one_pack lim b l r = merge_one_pack lim b r l" by (intro ext)
  then show ?thesis by (simp only: merge_packs_def key_union_sym[of "em_packs b" "em_packs l"])
qed

lemma reject_changed_profiles_sym: "reject_changed_profiles lim b l r c = reject_changed_profiles lim b r l c"
proof -
  have "reject_changed_profile lim b l r = reject_changed_profile lim b r l"
    unfolding reject_changed_profile_def fun_eq_iff by (simp only: disj_commute) simp
  then show ?thesis
    by (simp only: reject_changed_profiles_def key_union_sym[of "em_profiles b" "em_profiles l"])
qed

lemma component_count_sym: "asset_component_count [b, l, r] = asset_component_count [b, r, l]"
proof -
  have "bs_collect (x @ y @ z) = bs_collect (x @ z @ y)" "bs_collect (y @ z) = bs_collect (z @ y)"
    for x y z :: "harness_id list"
    by (rule bs_collect_cong; auto)+
  then show ?thesis
    by (cases b; cases l; cases r) (simp_all add: asset_component_count_def List.map_filter_def disj_commute, blast?)
qed

lemma component_budget_sym:
  "validate_merged_component_budget lim b l r = validate_merged_component_budget lim b r l"
proof -
  have sets: "bs_collect (x @ y @ z) = bs_collect (x @ z @ y)" for x y z :: "'x::linorder list"
    by (rule bs_collect_cong) auto
  show ?thesis
    unfolding validate_merged_component_budget_def
    by (simp only: key_union_sym[of "em_assets b" "em_assets l"] key_union_sym[of "em_packs b" "em_packs l"]
        key_union_sym[of "em_profiles b" "em_profiles l"] sets[of _ "em_required_bindings l"]
        sets[of _ "pack_edges l"] component_count_sym[of "bt_get (em_assets b) _" "bt_get (em_assets l) _"])
qed

lemma merge_manifests_with_sym:
  "merge_manifests_with H ck derive lim b l r = merge_manifests_with H ck derive lim b r l"
proof -
  have "try_each (\<lambda>m. map_err ''sync_merge.manifest_invalid'' (validate_manifest H m)) [b, l, r]
      = try_each (\<lambda>m. map_err ''sync_merge.manifest_invalid'' (validate_manifest H m)) [b, r, l]"
    by (cases "validate_manifest H b"; cases "validate_manifest H l"; cases "validate_manifest H r") simp_all
  then show ?thesis
    unfolding merge_manifests_with_def merge_bindings_def
    by (simp only: component_budget_sym[of lim b l r] merge_assets_sym[of lim b l r] merge_packs_sym[of lim b l r]
        reject_changed_profiles_sym[of lim b l r] merge_set_membership_sym[of _ "em_required_bindings l"])
qed

end
