(* ===== verification/Merge_Completeness.thy ===== *)
theory Merge_Completeness
  imports Merge_Laws
begin

text \<open>
  What a merge without conflicts contains.  The conflict list only grows, so an empty list at the end
  means that every step took its quiet branch; from there the merged drafts are computed exactly.
\<close>

section \<open>Quiet steps\<close>

lemma push_conflict_Ok:
  "push_conflict lim code s c = Ok c' \<Longrightarrow>
     c' = c @ [\<lparr>conflict_code = code, conflict_subject = s\<rparr>] \<and> length c' \<le> unat (sl_max_conflicts lim)"
  by (auto simp: push_conflict_def split: if_splits)

lemma push_conflict_loud [simp]: "push_conflict lim code s c \<noteq> Ok []"
  by (auto simp: push_conflict_def)

lemma merge_kind_quiet:
  "merge_kind lim b l r c = Ok (k, []) \<longleftrightarrow>
     c = [] \<and> choose3 (asset_kind_of b) (asset_kind_of l) (asset_kind_of r) = Some k"
  by (auto simp: merge_kind_def bind_result_Ok_iff split: option.splits)

lemma merge_portable_quiet:
  "merge_portable lim b l r c = Ok (p, []) \<longleftrightarrow>
     c = [] \<and> \<not> (asset_portable b \<noteq> None \<and> (asset_portable l = None \<or> asset_portable r = None))
     \<and> choose3 (asset_portable b) (asset_portable l) (asset_portable r) = Some p"
  by (auto simp: merge_portable_def bind_result_Ok_iff split: option.splits if_splits)

definition native_at :: "asset \<Rightarrow> harness_id \<Rightarrow> native_variant option" where
  "native_at a h = map_option normalized_native (bt_get (asset_native_variants a) h)"

lemma merge_native_value_quiet:
  "merge_native_value lim b l r h c = Ok (v, []) \<longleftrightarrow>
     c = [] \<and> \<not> (native_at b h \<noteq> None \<and> (native_at l h = None \<or> native_at r h = None))
     \<and> choose3 (native_at b h) (native_at l h) (native_at r h) = Some v"
  by (auto simp: merge_native_value_def native_at_def bind_result_Ok_iff Let_def split: option.splits if_splits)

text \<open>
  A loop over keys that threads a map and the conflicts: if it stays quiet and each quiet step inserts
  at most the value \<open>pick i\<close> at its own key \<open>i\<close>, the map is known afterwards.
\<close>

lemma quiet_fold:
  assumes "try_fold f (m, c) is = Ok (m', [])"
    and step: "\<And>i u d v. f (u, d) i = Ok (v, []) \<Longrightarrow> d = [] \<and> v = (case pick i of Some x \<Rightarrow> bt_insert i x u | None \<Rightarrow> u)"
  shows "c = [] \<and> (bt_wf m \<longrightarrow> bt_wf m')
    \<and> (\<forall>k. bt_get m' k = (if k \<in> set is \<and> pick k \<noteq> None then pick k else bt_get m k))
    \<and> (\<forall>i\<in>set is. \<exists>u v. f (u, []) i = Ok (v, []))"
  using assms(1)
proof (induction "is" arbitrary: m c)
  case (Cons i "is")
  then obtain u d where ud: "f (m, c) i = Ok (u, d)" "try_fold f (u, d) is = Ok (m', [])"
    by (auto simp: bind_result_Ok_iff)
  note ih = Cons.IH[OF ud(2)]
  then have "d = []" by blast
  with ud(1) have quiet: "f (m, []) i = Ok (u, [])" and st: "c = []" "u = (case pick i of Some x \<Rightarrow> bt_insert i x m | None \<Rightarrow> m)"
    using step by blast+
  have "bt_wf m \<Longrightarrow> bt_wf u" using st(2) by (simp add: bt_wf_insert split: option.split)
  moreover have "bt_get u k = (if k = i \<and> pick i \<noteq> None then pick i else bt_get m k)" for k
    using st(2) by (simp add: bt_get_insert split: option.split)
  ultimately show ?case using ih st(1) quiet by auto
qed simp

lemma merge_natives_quiet:
  assumes "merge_natives lim b l r c = Ok (ns, [])"
  shows "c = [] \<and> bt_wf ns \<and> (\<forall>h. choose3 (native_at b h) (native_at l h) (native_at r h) = Some (bt_get ns h)
    \<and> (native_at b h \<noteq> None \<longrightarrow> native_at l h \<noteq> None \<and> native_at r h \<noteq> None))"
proof -
  let ?f = "\<lambda>(ns, c) h. bind_result (merge_native_value lim b l r h c) (\<lambda>(selected, c').
      Ok (case selected of Some value \<Rightarrow> bt_insert h value ns | None \<Rightarrow> ns, c'))"
  let ?keys = "bs_collect (bt_keys (asset_native_variants b) @ bt_keys (asset_native_variants l)
      @ bt_keys (asset_native_variants r))"
  let ?pick = "\<lambda>h. case choose3 (native_at b h) (native_at l h) (native_at r h) of Some v \<Rightarrow> v | None \<Rightarrow> None"
  have run: "try_fold ?f ([], c) ?keys = Ok (ns, [])" using assms by (simp add: merge_natives_def)
  have step: "d = [] \<and> v = (case ?pick i of Some x \<Rightarrow> bt_insert i x u | None \<Rightarrow> u)"
    if "?f (u, d) i = Ok (v, [])" for i u d v
    using that by (auto simp: bind_result_Ok_iff merge_native_value_quiet)
  have fold: "c = [] \<and> (bt_wf ([] :: (harness_id, native_variant) btree_map) \<longrightarrow> bt_wf ns)
      \<and> (\<forall>k. bt_get ns k = (if k \<in> set ?keys \<and> ?pick k \<noteq> None then ?pick k else bt_get [] k))
      \<and> (\<forall>i\<in>set ?keys. \<exists>u v. ?f (u, []) i = Ok (v, []))"
    by (rule quiet_fold[where f = ?f and pick = ?pick, OF run]) (rule step)
  then have each: "\<forall>h\<in>set ?keys. choose3 (native_at b h) (native_at l h) (native_at r h) \<noteq> None
      \<and> (native_at b h \<noteq> None \<longrightarrow> native_at l h \<noteq> None \<and> native_at r h \<noteq> None)"
    by (fastforce simp: bind_result_Ok_iff merge_native_value_quiet)
  have absent: "native_at a h = None" if "h \<notin> set ?keys" "a = b \<or> a = l \<or> a = r" for a h
    using that by (auto simp: native_at_def bt_has_iff[symmetric] bt_has_def)
  have "choose3 (native_at b h) (native_at l h) (native_at r h) = Some (bt_get ns h)
      \<and> (native_at b h \<noteq> None \<longrightarrow> native_at l h \<noteq> None \<and> native_at r h \<noteq> None)" for h
  proof (cases "h \<in> set ?keys")
    case True
    then obtain v where v: "choose3 (native_at b h) (native_at l h) (native_at r h) = Some v" using each by auto
    moreover have "bt_get ns h = v" using fold True v by (auto simp: btm.get_empty split: if_splits)
    ultimately show ?thesis using each True by blast
  next
    case False
    then have "native_at b h = None" "native_at l h = None" "native_at r h = None" using absent by blast+
    moreover have "bt_get ns h = None" using fold False by (simp add: btm.get_empty)
    ultimately show ?thesis by (simp add: choose3_def)
  qed
  then show ?thesis using fold by simp
qed

section \<open>Merged assets take every change\<close>

text \<open>The value \<open>x\<close> takes the changes of both sides: a side that differs from the base is the result.\<close>

definition takes_changes :: "'a \<Rightarrow> 'a \<Rightarrow> 'a \<Rightarrow> 'a \<Rightarrow> bool" where
  "takes_changes b l r x \<longleftrightarrow> (l \<noteq> b \<longrightarrow> x = l) \<and> (r \<noteq> b \<longrightarrow> x = r) \<and> (l = b \<and> r = b \<longrightarrow> x = b)"

lemma choose3_takes_changes: "choose3 b l r = Some x \<Longrightarrow> takes_changes b l r x"
  unfolding takes_changes_def by (rule merge_choice.picks_changes)

lemma set_membership_iff:
  "x \<in> set (merge_set_membership b l r) \<longleftrightarrow> (if x \<in> set l \<longleftrightarrow> x \<in> set r then x \<in> set l else x \<notin> set b)"
  by (auto simp: merge_set_membership_def choose3_def split: if_splits)

lemma merge_existing_asset_quiet:
  assumes "merge_existing_asset lim b l r c = Ok (d, [])"
  shows "c = [] \<and> ad_id d = asset_id b
    \<and> takes_changes (asset_kind_of b) (asset_kind_of l) (asset_kind_of r) (ad_kind d)
    \<and> takes_changes (asset_portable b) (asset_portable l) (asset_portable r) (ad_portable d)
    \<and> (\<forall>h. takes_changes (native_at b h) (native_at l h) (native_at r h) (bt_get (ad_native_variants d) h))
    \<and> ad_required_bindings d = merge_set_membership (asset_required_bindings b) (asset_required_bindings l)
         (asset_required_bindings r)"
proof -
  obtain k c1 p c2 ns prov where parts: "merge_kind lim b l r c = Ok (k, c1)" "merge_portable lim b l r c1 = Ok (p, c2)"
    "merge_natives lim b l r c2 = Ok (ns, [])"
    and d: "d = \<lparr>ad_id = asset_id b, ad_kind = k, ad_provenance = prov, ad_portable = p, ad_native_variants = ns,
      ad_required_bindings = merge_set_membership (asset_required_bindings b) (asset_required_bindings l)
         (asset_required_bindings r)\<rparr>"
    using assms by (auto simp: merge_existing_asset_def bind_result_Ok_iff)
  have c2: "c2 = []" and ns: "\<forall>h. choose3 (native_at b h) (native_at l h) (native_at r h) = Some (bt_get ns h)"
    using merge_natives_quiet[OF parts(3)] by blast+
  have c1: "c1 = []" and p: "choose3 (asset_portable b) (asset_portable l) (asset_portable r) = Some p"
    using parts(2) c2 by (simp_all add: merge_portable_quiet)
  have "c = []" and k: "choose3 (asset_kind_of b) (asset_kind_of l) (asset_kind_of r) = Some k"
    using parts(1) c1 by (simp_all add: merge_kind_quiet)
  moreover note choose3_takes_changes[OF k] choose3_takes_changes[OF p]
  moreover have "takes_changes (native_at b h) (native_at l h) (native_at r h) (bt_get ns h)" for h
    using ns by (intro choose3_takes_changes) blast
  ultimately show ?thesis by (simp add: d)
qed

section \<open>Merged drafts\<close>

definition asset_merges :: "asset option \<Rightarrow> asset option \<Rightarrow> asset option \<Rightarrow> asset_draft \<Rightarrow> bool" where
  "asset_merges b l r d \<longleftrightarrow>
     (case b of
        Some ba \<Rightarrow> \<exists>la ra. l = Some la \<and> r = Some ra \<and> ad_id d = asset_id ba
          \<and> takes_changes (asset_kind_of ba) (asset_kind_of la) (asset_kind_of ra) (ad_kind d)
          \<and> takes_changes (asset_portable ba) (asset_portable la) (asset_portable ra) (ad_portable d)
          \<and> (\<forall>h. takes_changes (native_at ba h) (native_at la h) (native_at ra h) (bt_get (ad_native_variants d) h))
          \<and> ad_required_bindings d = merge_set_membership (asset_required_bindings ba) (asset_required_bindings la)
               (asset_required_bindings ra)
      | None \<Rightarrow> \<exists>a. d = draft_from_asset a \<and> (l = Some a \<and> r = None \<or> l = None \<and> r = Some a \<or> l = Some a \<and> r = Some a))"

lemma select_asset_draft_quiet:
  assumes "select_asset_draft lim i b l r c = Ok (s, [])"
  shows "c = [] \<and> (case s of None \<Rightarrow> b = None \<and> l = None \<and> r = None | Some d \<Rightarrow> asset_merges b l r d)"
proof (cases "b \<noteq> None \<and> l \<noteq> None \<and> r \<noteq> None")
  case True
  then obtain ba la ra where some: "b = Some ba" "l = Some la" "r = Some ra" by auto
  then obtain d where "merge_existing_asset lim ba la ra c = Ok (d, [])" "s = Some d"
    using assms by (auto simp: select_asset_draft_def bind_result_Ok_iff)
  then show ?thesis using merge_existing_asset_quiet by (simp add: some asset_merges_def)
next
  case False
  then show ?thesis using assms
    by (cases b; cases l; cases r)
      (auto simp: select_asset_draft_def bind_result_Ok_iff asset_merges_def split: if_splits)
qed

lemma merge_one_asset_quiet:
  assumes "merge_one_asset lim b l r (u, d) i = Ok (v, [])"
  shows "\<exists>s. select_asset_draft lim i (bt_get (em_assets b) i) (bt_get (em_assets l) i) (bt_get (em_assets r) i) d
      = Ok (s, []) \<and> d = [] \<and> v = (case s of Some x \<Rightarrow> bt_insert i x u | None \<Rightarrow> u)"
proof (cases "select_asset_draft lim i (bt_get (em_assets b) i) (bt_get (em_assets l) i) (bt_get (em_assets r) i) d")
  case (Inr p)
  obtain s e where p: "p = (s, e)" by (cases p)
  have "e = [] \<and> v = (case s of Some x \<Rightarrow> bt_insert i x u | None \<Rightarrow> u)"
    using assms by (cases s) (auto simp: merge_one_asset_def Inr p bind_result_Ok_iff split: if_splits)
  then show ?thesis using Inr p select_asset_draft_quiet by blast
qed (use assms in \<open>simp add: merge_one_asset_def\<close>)

lemma merge_assets_quiet:
  assumes "merge_assets lim b l r c = Ok (ds, [])"
  shows "c = [] \<and> bt_wf ds \<and> (\<forall>i. case bt_get ds i of
      None \<Rightarrow> bt_get (em_assets b) i = None \<and> bt_get (em_assets l) i = None \<and> bt_get (em_assets r) i = None
    | Some d \<Rightarrow> asset_merges (bt_get (em_assets b) i) (bt_get (em_assets l) i) (bt_get (em_assets r) i) d)"
proof -
  let ?f = "merge_one_asset lim b l r"
  let ?sel = "\<lambda>i. select_asset_draft lim i (bt_get (em_assets b) i) (bt_get (em_assets l) i) (bt_get (em_assets r) i) []"
  let ?pick = "\<lambda>i. case ?sel i of Inr (s, _) \<Rightarrow> s | Inl _ \<Rightarrow> None"
  let ?keys = "key_union (em_assets b) (em_assets l) (em_assets r)"
  have quiet: "d = [] \<and> (\<exists>s. ?sel i = Ok (s, []) \<and> v = (case s of Some x \<Rightarrow> bt_insert i x u | None \<Rightarrow> u))"
    if "?f (u, d) i = Ok (v, [])" for i u d v
    using merge_one_asset_quiet[OF that] select_asset_draft_quiet by blast
  have step: "d = [] \<and> v = (case ?pick i of Some x \<Rightarrow> bt_insert i x u | None \<Rightarrow> u)"
    if "?f (u, d) i = Ok (v, [])" for i u d v
    using quiet[OF that] by auto
  have run: "try_fold ?f ([], c) ?keys = Ok (ds, [])" using assms by (simp add: merge_assets_def)
  have fold: "c = [] \<and> (bt_wf ([] :: asset_drafts) \<longrightarrow> bt_wf ds)
      \<and> (\<forall>k. bt_get ds k = (if k \<in> set ?keys \<and> ?pick k \<noteq> None then ?pick k else bt_get [] k))
      \<and> (\<forall>i\<in>set ?keys. \<exists>u v. ?f (u, []) i = Ok (v, []))"
    by (rule quiet_fold[where f = ?f and pick = ?pick, OF run]) (rule step)
  have "case bt_get ds i of
      None \<Rightarrow> bt_get (em_assets b) i = None \<and> bt_get (em_assets l) i = None \<and> bt_get (em_assets r) i = None
    | Some d \<Rightarrow> asset_merges (bt_get (em_assets b) i) (bt_get (em_assets l) i) (bt_get (em_assets r) i) d" for i
  proof (cases "i \<in> set ?keys")
    case True
    then obtain s where "?sel i = Ok (s, [])" using fold quiet by blast
    moreover from this have "bt_get ds i = s" using fold True by (auto simp: btm.get_empty)
    ultimately show ?thesis using select_asset_draft_quiet by blast
  next
    case False
    then have "bt_get ds i = None" using fold by (simp add: btm.get_empty)
    then show ?thesis using False by (auto simp: key_union_def bt_has_iff[symmetric] bt_has_def)
  qed
  then show ?thesis using fold by simp
qed

definition pack_merges :: "pack option \<Rightarrow> pack option \<Rightarrow> pack option \<Rightarrow> pack_draft \<Rightarrow> bool" where
  "pack_merges b l r d \<longleftrightarrow>
     set (pd_members d) = set (pack_member_ids b) \<union> set (pack_member_ids l) \<union> set (pack_member_ids r)
     \<and> set (pack_member_ids b) \<subseteq> set (pack_member_ids l) \<inter> set (pack_member_ids r)
     \<and> (case b of
          Some bp \<Rightarrow> \<exists>lp rp. l = Some lp \<and> r = Some rp
            \<and> takes_changes (pack_source_of bp) (pack_source_of lp) (pack_source_of rp) (pd_source d)
        | None \<Rightarrow> \<exists>p. (l = Some p \<or> r = Some p) \<and> pd_source d = pack_source_of p)"

lemma select_pack_source_quiet:
  assumes "select_pack_source lim i b l r c = Ok (s, [])"
  shows "c = [] \<and> (case s of None \<Rightarrow> b = None \<and> l = None \<and> r = None
    | Some src \<Rightarrow> (case b of
          Some bp \<Rightarrow> \<exists>lp rp. l = Some lp \<and> r = Some rp
            \<and> takes_changes (pack_source_of bp) (pack_source_of lp) (pack_source_of rp) src
        | None \<Rightarrow> \<exists>p. (l = Some p \<or> r = Some p) \<and> src = pack_source_of p))"
proof (cases "b \<noteq> None \<and> l \<noteq> None \<and> r \<noteq> None")
  case True
  then obtain bp lp rp where some: "b = Some bp" "l = Some lp" "r = Some rp" by auto
  show ?thesis
  proof (cases "choose3 (pack_source_of bp) (pack_source_of lp) (pack_source_of rp)")
    case None
    then show ?thesis using assms by (auto simp: select_pack_source_def some bind_result_Ok_iff)
  next
    case (Some src)
    then have "s = Some src" "c = []" using assms by (auto simp: select_pack_source_def some)
    then show ?thesis using choose3_takes_changes[OF Some] some by simp
  qed
next
  case False
  then show ?thesis using assms
    by (cases b; cases l; cases r)
      (auto simp: select_pack_source_def bind_result_Ok_iff split: if_splits)
qed

lemma merge_one_pack_quiet:
  assumes "merge_one_pack lim b l r (u, d) i = Ok (v, [])"
  defines "B \<equiv> pack_member_ids (bt_get (em_packs b) i)"
    and "L \<equiv> pack_member_ids (bt_get (em_packs l) i)" and "R \<equiv> pack_member_ids (bt_get (em_packs r) i)"
  shows "\<exists>s. select_pack_source lim i (bt_get (em_packs b) i) (bt_get (em_packs l) i) (bt_get (em_packs r) i) d
      = Ok (s, []) \<and> d = []
    \<and> v = (case s of Some src \<Rightarrow> bt_insert i \<lparr>pd_id = i, pd_source = src, pd_members = bs_collect (B @ L @ R)\<rparr> u
          | None \<Rightarrow> u)
    \<and> (s \<noteq> None \<longrightarrow> set B \<subseteq> set L \<inter> set R)"
proof (cases "select_pack_source lim i (bt_get (em_packs b) i) (bt_get (em_packs l) i) (bt_get (em_packs r) i) d")
  case (Inr p)
  obtain s e where p: "p = (s, e)" by (cases p)
  have "e = [] \<and> v = (case s of
        Some src \<Rightarrow> bt_insert i \<lparr>pd_id = i, pd_source = src, pd_members = bs_collect (B @ L @ R)\<rparr> u
      | None \<Rightarrow> u) \<and> (s \<noteq> None \<longrightarrow> set B \<subseteq> set L \<inter> set R)"
    using assms(1) by (cases s)
      (auto simp: merge_one_pack_def Inr p bind_result_Ok_iff Let_def list_ex_iff B_def L_def R_def split: if_splits)
  then show ?thesis using Inr p select_pack_source_quiet by blast
qed (use assms(1) in \<open>simp add: merge_one_pack_def Let_def\<close>)

lemma merge_packs_quiet:
  assumes "merge_packs lim b l r c = Ok (ds, [])"
  shows "c = [] \<and> bt_wf ds \<and> (\<forall>i. case bt_get ds i of
      None \<Rightarrow> bt_get (em_packs b) i = None \<and> bt_get (em_packs l) i = None \<and> bt_get (em_packs r) i = None
    | Some d \<Rightarrow> pd_id d = i \<and> pack_merges (bt_get (em_packs b) i) (bt_get (em_packs l) i) (bt_get (em_packs r) i) d)"
proof -
  let ?f = "merge_one_pack lim b l r"
  let ?sel = "\<lambda>i. select_pack_source lim i (bt_get (em_packs b) i) (bt_get (em_packs l) i) (bt_get (em_packs r) i) []"
  let ?members = "\<lambda>i. bs_collect (pack_member_ids (bt_get (em_packs b) i) @ pack_member_ids (bt_get (em_packs l) i)
      @ pack_member_ids (bt_get (em_packs r) i))"
  let ?pick = "\<lambda>i. case ?sel i of Inr (Some src, _) \<Rightarrow> Some \<lparr>pd_id = i, pd_source = src, pd_members = ?members i\<rparr> | _ \<Rightarrow> None"
  let ?keys = "key_union (em_packs b) (em_packs l) (em_packs r)"
  have quiet: "d = [] \<and> (\<exists>s. ?sel i = Ok (s, []) \<and> v = (case ?pick i of Some x \<Rightarrow> bt_insert i x u | None \<Rightarrow> u)
      \<and> (s \<noteq> None \<longrightarrow> set (pack_member_ids (bt_get (em_packs b) i))
          \<subseteq> set (pack_member_ids (bt_get (em_packs l) i)) \<inter> set (pack_member_ids (bt_get (em_packs r) i))))"
    if "?f (u, d) i = Ok (v, [])" for i u d v
    using merge_one_pack_quiet[OF that] by (auto split: option.splits)
  have step: "d = [] \<and> v = (case ?pick i of Some x \<Rightarrow> bt_insert i x u | None \<Rightarrow> u)"
    if "?f (u, d) i = Ok (v, [])" for i u d v
    using quiet[OF that] by blast
  have run: "try_fold ?f ([], c) ?keys = Ok (ds, [])" using assms by (simp add: merge_packs_def)
  have fold: "c = [] \<and> (bt_wf ([] :: pack_drafts) \<longrightarrow> bt_wf ds)
      \<and> (\<forall>k. bt_get ds k = (if k \<in> set ?keys \<and> ?pick k \<noteq> None then ?pick k else bt_get [] k))
      \<and> (\<forall>i\<in>set ?keys. \<exists>u v. ?f (u, []) i = Ok (v, []))"
    by (rule quiet_fold[where f = ?f and pick = ?pick, OF run]) (rule step)
  have "case bt_get ds i of
      None \<Rightarrow> bt_get (em_packs b) i = None \<and> bt_get (em_packs l) i = None \<and> bt_get (em_packs r) i = None
    | Some d \<Rightarrow> pd_id d = i \<and> pack_merges (bt_get (em_packs b) i) (bt_get (em_packs l) i) (bt_get (em_packs r) i) d" for i
  proof (cases "i \<in> set ?keys")
    case True
    then obtain s where s: "?sel i = Ok (s, [])" and sub: "s \<noteq> None \<longrightarrow> set (pack_member_ids (bt_get (em_packs b) i))
          \<subseteq> set (pack_member_ids (bt_get (em_packs l) i)) \<inter> set (pack_member_ids (bt_get (em_packs r) i))"
      using fold quiet by blast
    show ?thesis
    proof (cases s)
      case None
      then have "bt_get ds i = None" using fold s by (auto simp: btm.get_empty)
      then show ?thesis using select_pack_source_quiet[OF s] None by simp
    next
      case (Some src)
      then have "bt_get ds i = Some \<lparr>pd_id = i, pd_source = src, pd_members = ?members i\<rparr>" using fold s True by auto
      then show ?thesis using select_pack_source_quiet[OF s] Some sub by (auto simp: pack_merges_def Un_assoc split: option.splits)
    qed
  next
    case False
    then have "bt_get ds i = None" using fold by (simp add: btm.get_empty)
    then show ?thesis using False by (auto simp: key_union_def bt_has_iff[symmetric] bt_has_def)
  qed
  then show ?thesis using fold by simp
qed

lemma reject_changed_profiles_quiet:
  assumes "reject_changed_profiles lim b l r c = Ok []"
  shows "c = [] \<and> bt_get (em_profiles l) = bt_get (em_profiles b) \<and> bt_get (em_profiles r) = bt_get (em_profiles b)"
proof -
  have fold: "try_fold (reject_changed_profile lim b l r) c ks = Ok [] \<Longrightarrow> c = [] \<and>
      (\<forall>i\<in>set ks. bt_get (em_profiles l) i = bt_get (em_profiles b) i \<and> bt_get (em_profiles r) i = bt_get (em_profiles b) i)"
    for c ks
  proof (induction ks arbitrary: c)
    case (Cons k ks)
    then obtain d where d: "reject_changed_profile lim b l r c k = Ok d" "try_fold (reject_changed_profile lim b l r) d ks = Ok []"
      by (auto simp: bind_result_Ok_iff)
    note ih = Cons.IH[OF d(2)]
    then have "reject_changed_profile lim b l r c k = Ok []" using d(1) by simp
    then show ?case using ih by (auto simp: reject_changed_profile_def split: if_splits)
  qed simp
  have "bt_get (em_profiles l) i = bt_get (em_profiles b) i \<and> bt_get (em_profiles r) i = bt_get (em_profiles b) i" for i
  proof (cases "i \<in> set (key_union (em_profiles b) (em_profiles l) (em_profiles r))")
    case True
    then show ?thesis using fold assms by (simp add: reject_changed_profiles_def)
  next
    case False
    then show ?thesis by (auto simp: key_union_def bt_has_iff[symmetric] bt_has_def)
  qed
  then show ?thesis using fold assms by (auto simp: reject_changed_profiles_def)
qed

end
