(* ===== verification/Skill_Trees.thy ===== *)
theory Skill_Trees
  imports Framing Ordered_Maps Portable_Content
begin

text \<open>
  \<open>kitrove-agent-skills/src\<close>: captured file trees and their content address (\<open>tree.rs\<close>), and the two
  storage envelopes of a skill, the portable tree (\<open>stored_tree.rs\<close>) and the origin-native object
  (\<open>native_object.rs\<close>).  The Unicode folding of a path and the JSON codec of the metadata are third-party
  code and arguments of the model.
\<close>

section \<open>Captured trees\<close>

datatype file_mode = RegularFile | ExecutableFile

record captured_file =
  cf_mode :: file_mode
  cf_bytes :: string

record captured_tree =
  ct_files :: "(string, captured_file) btree_map"
  ct_hash :: string

definition file_mode_byte :: "file_mode \<Rightarrow> char" where
  "file_mode_byte m = (case m of RegularFile \<Rightarrow> CHR 0x00 | ExecutableFile \<Rightarrow> CHR 0x01)"

definition write_tree_entry :: "string \<times> captured_file \<Rightarrow> string" where
  "write_tree_entry e =
     write_text_record (fst e) @ [file_mode_byte (cf_mode (snd e))] @ write_text_record (cf_bytes (snd e))"

definition tree_preimage :: "(string, captured_file) btree_map \<Rightarrow> string" where
  "tree_preimage files = ''kitrove-skill-tree-v1'' @ [CHR 0x00] @ concat (map write_tree_entry files)"

definition hash_tree :: "(string \<Rightarrow> string) \<Rightarrow> (string, captured_file) btree_map \<Rightarrow> string" where
  "hash_tree H files = ''blake3:'' @ H (tree_preimage files)"

text \<open>The directories above a file and the file itself, each as the text joined so far.\<close>

fun path_prefixes :: "string \<Rightarrow> string list \<Rightarrow> string list" where
  "path_prefixes prefix [] = []"
| "path_prefixes prefix (segment # segments) =
     (let next = (if prefix = [] then [] else prefix @ ''/'') @ segment in next # path_prefixes next segments)"

text \<open>Insert into the registry; \<open>None\<close> where a different text already holds the folded key.\<close>

fun register_prefixes ::
  "(string \<Rightarrow> string) \<Rightarrow> string list \<Rightarrow> (string, string) btree_map \<Rightarrow> (string, string) btree_map option" where
  "register_prefixes fold_key [] registered = Some registered"
| "register_prefixes fold_key (prefix # prefixes) registered =
     (case bt_get registered (fold_key prefix) of
        Some existing \<Rightarrow>
          if existing \<noteq> prefix then None
          else register_prefixes fold_key prefixes (bt_insert (fold_key prefix) prefix registered)
      | None \<Rightarrow> register_prefixes fold_key prefixes (bt_insert (fold_key prefix) prefix registered))"

definition all_prefixes :: "string list \<Rightarrow> string list" where
  "all_prefixes paths = concat (map (\<lambda>path. path_prefixes [] (split_on CHR ''/'' path)) paths)"

definition has_supported_platform_path_collision :: "(string \<Rightarrow> string) \<Rightarrow> string list \<Rightarrow> bool" where
  "has_supported_platform_path_collision fold_key paths = (register_prefixes fold_key (all_prefixes paths) [] = None)"

section \<open>Stored trees\<close>

definition MAX_STORED_METADATA_BYTES :: nat where
  "MAX_STORED_METADATA_BYTES = 4 * 1024 * 1024"

record stored_tree_metadata =
  stm_schema_version :: nat
  stm_files :: "(string, file_mode) btree_map"

type_synonym stored_skill_tree = captured_tree

definition tree_metadata :: "stored_skill_tree \<Rightarrow> stored_tree_metadata" where
  "tree_metadata t = \<lparr>stm_schema_version = 1, stm_files = bt_map cf_mode (ct_files t)\<rparr>"

definition stored_skill_tree_new ::
  "(string \<Rightarrow> string) \<Rightarrow> (string \<Rightarrow> string) \<Rightarrow> (stored_tree_metadata \<Rightarrow> string) \<Rightarrow> captured_tree
   \<Rightarrow> stored_skill_tree result" where
  "stored_skill_tree_new H fold_key encode tree =
     (if has_supported_platform_path_collision fold_key (bt_keys (ct_files tree))
      then Err ''stored_tree.path_collision''
      else if hash_tree H (ct_files tree) \<noteq> ct_hash tree then Err ''stored_tree.hash_mismatch''
      else if length (encode (tree_metadata tree)) > MAX_STORED_METADATA_BYTES
      then Err ''stored_tree.metadata_limit''
      else Ok tree)"

definition stored_tree_from_metadata ::
  "(string \<Rightarrow> string) \<Rightarrow> (string \<Rightarrow> string) \<Rightarrow> (stored_tree_metadata \<Rightarrow> string) \<Rightarrow> stored_tree_metadata
   \<Rightarrow> captured_tree \<Rightarrow> stored_skill_tree result" where
  "stored_tree_from_metadata H fold_key encode metadata payload =
     (if stm_schema_version metadata \<noteq> 1 then Err ''stored_tree.unsupported_version''
      else if length (stm_files metadata) \<noteq> length (ct_files payload)
              \<or> bt_keys (stm_files metadata) \<noteq> bt_keys (ct_files payload)
      then Err ''stored_tree.payload_mismatch''
      else let files = bt_collect (map (\<lambda>((path, mode), (_, file)).
                         (path, \<lparr>cf_mode = mode, cf_bytes = cf_bytes file\<rparr>)) (zip (stm_files metadata) (ct_files payload)))
           in stored_skill_tree_new H fold_key encode \<lparr>ct_files = files, ct_hash = hash_tree H files\<rparr>)"

definition stored_tree_from_stored ::
  "(string \<Rightarrow> string) \<Rightarrow> (string \<Rightarrow> string) \<Rightarrow> (stored_tree_metadata \<Rightarrow> string)
   \<Rightarrow> (string \<Rightarrow> stored_tree_metadata option) \<Rightarrow> string \<Rightarrow> captured_tree \<Rightarrow> stored_skill_tree result" where
  "stored_tree_from_stored H fold_key encode decode metadata_json payload =
     (if length metadata_json > MAX_STORED_METADATA_BYTES then Err ''stored_tree.metadata_limit''
      else bind_result (ok_or ''stored_tree.invalid_metadata'' (decode metadata_json)) (\<lambda>metadata.
        stored_tree_from_metadata H fold_key encode metadata payload))"

section \<open>Origin-native objects\<close>

datatype skill_source_layout = DirectoryLayout | StandaloneLayout

record native_skill_object =
  no_layout :: skill_source_layout
  no_original_document_name :: string
  no_native_id :: string
  no_tree :: captured_tree
  no_hash :: string

record native_stored_metadata =
  nsm_schema_version :: nat
  nsm_layout :: skill_source_layout
  nsm_original_document_name :: string
  nsm_native_id :: string
  nsm_tree :: stored_tree_metadata

definition invalid_native_id :: "string \<Rightarrow> bool" where
  "invalid_native_id native_id \<longleftrightarrow>
     native_id = [] \<or> length native_id > 256 \<or> list_ex char_is_control (str_chars native_id)"

definition validate_native_metadata :: "skill_source_layout \<Rightarrow> string \<Rightarrow> string \<Rightarrow> captured_tree \<Rightarrow> unit result" where
  "validate_native_metadata layout document_name native_id tree =
     bind_result (map_err ''native_object.invalid_document_name'' (portable_path_parse document_name)) (\<lambda>document.
       if CHR ''/'' \<in> set document_name then Err ''native_object.invalid_document_name''
       else if \<not> bt_has (ct_files tree) document then Err ''native_object.document_missing''
       else if invalid_native_id native_id then Err ''native_object.invalid_native_id''
       else if layout = StandaloneLayout \<and> length (ct_files tree) \<noteq> 1 then Err ''native_object.standalone_shape''
       else Ok ())"

definition layout_byte :: "skill_source_layout \<Rightarrow> char" where
  "layout_byte l = (case l of DirectoryLayout \<Rightarrow> CHR 0x00 | StandaloneLayout \<Rightarrow> CHR 0x01)"

definition native_object_preimage :: "skill_source_layout \<Rightarrow> string \<Rightarrow> string \<Rightarrow> string \<Rightarrow> string" where
  "native_object_preimage layout document_name native_id tree_hash =
     ''kitrove-native-skill-object-v1'' @ [CHR 0x00, layout_byte layout]
     @ write_text_record document_name @ write_text_record native_id @ write_text_record tree_hash"

definition hash_native_object ::
  "(string \<Rightarrow> string) \<Rightarrow> skill_source_layout \<Rightarrow> string \<Rightarrow> string \<Rightarrow> string \<Rightarrow> string" where
  "hash_native_object H layout document_name native_id tree_hash =
     ''blake3:'' @ H (native_object_preimage layout document_name native_id tree_hash)"

definition native_object_metadata :: "native_skill_object \<Rightarrow> native_stored_metadata" where
  "native_object_metadata obj =
     \<lparr>nsm_schema_version = 1, nsm_layout = no_layout obj, nsm_original_document_name = no_original_document_name obj,
      nsm_native_id = no_native_id obj, nsm_tree = tree_metadata (no_tree obj)\<rparr>"

definition native_skill_object_new ::
  "(string \<Rightarrow> string) \<Rightarrow> (string \<Rightarrow> string) \<Rightarrow> (stored_tree_metadata \<Rightarrow> string) \<Rightarrow> (native_stored_metadata \<Rightarrow> string)
   \<Rightarrow> skill_source_layout \<Rightarrow> string \<Rightarrow> string \<Rightarrow> captured_tree \<Rightarrow> native_skill_object result" where
  "native_skill_object_new H fold_key encode encode_object layout document_name native_id tree =
     bind_result (stored_skill_tree_new H fold_key encode tree) (\<lambda>stored.
     and_then (validate_native_metadata layout document_name native_id stored)
       (let obj = \<lparr>no_layout = layout, no_original_document_name = document_name, no_native_id = native_id,
                   no_tree = stored, no_hash = hash_native_object H layout document_name native_id (ct_hash stored)\<rparr>
        in if length (encode_object (native_object_metadata obj)) > MAX_STORED_METADATA_BYTES
           then Err ''native_object.metadata_limit'' else Ok obj))"

definition native_object_from_stored ::
  "(string \<Rightarrow> string) \<Rightarrow> (string \<Rightarrow> string) \<Rightarrow> (stored_tree_metadata \<Rightarrow> string) \<Rightarrow> (native_stored_metadata \<Rightarrow> string)
   \<Rightarrow> (string \<Rightarrow> native_stored_metadata option) \<Rightarrow> string \<Rightarrow> captured_tree \<Rightarrow> native_skill_object result" where
  "native_object_from_stored H fold_key encode encode_object decode_object metadata_json tree =
     (if length metadata_json > MAX_STORED_METADATA_BYTES then Err ''native_object.metadata_limit''
      else bind_result (ok_or ''native_object.invalid_metadata'' (decode_object metadata_json)) (\<lambda>metadata.
        if nsm_schema_version metadata \<noteq> 1 then Err ''native_object.unsupported_version''
        else bind_result (stored_tree_from_metadata H fold_key encode (nsm_tree metadata) tree) (\<lambda>stored.
          native_skill_object_new H fold_key encode encode_object (nsm_layout metadata)
            (nsm_original_document_name metadata) (nsm_native_id metadata) stored)))"

section \<open>Content addresses\<close>

definition file_fits :: "string \<times> captured_file \<Rightarrow> bool" where
  "file_fits e \<longleftrightarrow> fits_u64 (fst e) \<and> fits_u64 (cf_bytes (snd e))"

lemma file_mode_byte_inj [simp]: "file_mode_byte a = file_mode_byte b \<longleftrightarrow> a = b"
  by (cases a; cases b) (simp_all add: file_mode_byte_def)

lemma layout_byte_inj [simp]: "layout_byte a = layout_byte b \<longleftrightarrow> a = b"
  by (cases a; cases b) (simp_all add: layout_byte_def)

interpretation tree_entry_code: prefix_code write_tree_entry file_fits
  by unfold_locales (auto simp: write_tree_entry_def file_fits_def frame_simps prod_eq_iff intro!: captured_file.equality)

lemma tree_preimage_inj:
  assumes "list_all file_fits a" "list_all file_fits b" "tree_preimage a = tree_preimage b"
  shows "a = b"
proof (rule tree_entry_code.concat_inj)
  have nonempty: "write_tree_entry e \<noteq> []" for e by (simp add: write_tree_entry_def)
  show "\<forall>x\<in>set a. file_fits x \<and> write_tree_entry x \<noteq> []" "\<forall>x\<in>set b. file_fits x \<and> write_tree_entry x \<noteq> []"
    using assms(1,2) nonempty by (auto simp: list_all_iff)
  show "concat (map write_tree_entry a) = concat (map write_tree_entry b)"
    using assms(3) by (simp add: tree_preimage_def)
qed

lemma native_object_preimage_inj:
  assumes "fits_u64 d" "fits_u64 i" "fits_u64 h" "fits_u64 d'" "fits_u64 i'" "fits_u64 h'"
    and "native_object_preimage l d i h = native_object_preimage l' d' i' h'"
  shows "l = l' \<and> d = d' \<and> i = i' \<and> h = h'"
  using assms by (auto simp: native_object_preimage_def frame_simps)

section \<open>Path collisions\<close>

lemma register_prefixes_None:
  "register_prefixes K ps reg = None \<longleftrightarrow>
     (\<exists>p\<in>set ps. \<exists>q. q \<noteq> p \<and> K q = K p \<and> (q \<in> set ps \<or> bt_get reg (K p) = Some q))"
  if "\<forall>k q. bt_get reg k = Some q \<longrightarrow> K q = k"
  using that
proof (induction ps arbitrary: reg)
  case (Cons p ps)
  have reg': "\<forall>k q. bt_get (bt_insert (K p) p reg) k = Some q \<longrightarrow> K q = k" using Cons.prems by (simp add: bt_get_insert)
  show ?case
  proof (cases "\<exists>q. bt_get reg (K p) = Some q \<and> q \<noteq> p")
    case True
    then obtain q where q: "bt_get reg (K p) = Some q" "q \<noteq> p" by blast
    moreover have "K q = K p" using Cons.prems q by blast
    ultimately show ?thesis by auto
  next
    case False
    then have "register_prefixes K (p # ps) reg = register_prefixes K ps (bt_insert (K p) p reg)"
      by (auto split: option.splits)
    then show ?thesis using Cons.IH[OF reg'] False by (auto simp: bt_get_insert split: if_splits) metis+
  qed
qed simp

section \<open>Reloading\<close>

text \<open>A payload read back from storage: the same paths and bytes, whatever modes the file system gave.\<close>

definition same_payload :: "captured_tree \<Rightarrow> captured_tree \<Rightarrow> bool" where
  "same_payload a b \<longleftrightarrow>
     map (\<lambda>(p, f). (p, cf_bytes f)) (ct_files a) = map (\<lambda>(p, f). (p, cf_bytes f)) (ct_files b)"

lemma reload_files:
  "map (\<lambda>(p, f). (p, cf_bytes f)) fs = map (\<lambda>(p, f). (p, cf_bytes f)) gs \<Longrightarrow>
   map (\<lambda>((path, mode), (_, file)). (path, \<lparr>cf_mode = mode, cf_bytes = cf_bytes file\<rparr>)) (zip (bt_map cf_mode fs) gs) = fs
   \<and> bt_keys fs = bt_keys gs \<and> length fs = length gs"
proof (induction fs arbitrary: gs)
  case (Cons e fs)
  then obtain g hs where gs: "gs = g # hs" "map (\<lambda>(p, f). (p, cf_bytes f)) fs = map (\<lambda>(p, f). (p, cf_bytes f)) hs"
    "(\<lambda>(p, f). (p, cf_bytes f)) e = (\<lambda>(p, f). (p, cf_bytes f)) g" by (cases gs) auto
  note ih = Cons.IH[OF gs(2)]
  obtain p f where e: "e = (p, f)" by (cases e)
  obtain q k where g: "g = (q, k)" by (cases g)
  have "\<lparr>cf_mode = cf_mode f, cf_bytes = cf_bytes k\<rparr> = f" using gs(3) e g by simp
  then show ?case using ih gs e g by (simp add: bt_map_def bt_keys_def)
qed (simp add: bt_map_def bt_keys_def)

lemma stored_skill_tree_new_Ok:
  "stored_skill_tree_new H K encode tree = Ok t \<longleftrightarrow>
     t = tree \<and> \<not> has_supported_platform_path_collision K (bt_keys (ct_files tree))
     \<and> ct_hash tree = hash_tree H (ct_files tree) \<and> length (encode (tree_metadata tree)) \<le> MAX_STORED_METADATA_BYTES"
  by (auto simp: stored_skill_tree_new_def)

lemma stored_tree_reloads:
  assumes "stored_skill_tree_new H K encode tree = Ok t" "bt_wf (ct_files tree)" "same_payload payload tree"
  shows "stored_tree_from_metadata H K encode (tree_metadata t) payload = Ok t"
proof -
  have t: "t = tree" "ct_hash tree = hash_tree H (ct_files tree)" using assms(1) by (simp_all add: stored_skill_tree_new_Ok)
  have files: "map (\<lambda>((path, mode), (_, file)). (path, \<lparr>cf_mode = mode, cf_bytes = cf_bytes file\<rparr>))
        (zip (bt_map cf_mode (ct_files tree)) (ct_files payload)) = ct_files tree"
    and keys: "bt_keys (ct_files tree) = bt_keys (ct_files payload)" "length (ct_files tree) = length (ct_files payload)"
    using reload_files[of "ct_files tree" "ct_files payload"] assms(3) by (simp_all add: same_payload_def)
  have "\<lparr>ct_files = ct_files tree, ct_hash = hash_tree H (ct_files tree)\<rparr> = tree" using t(2) by simp
  then show ?thesis using assms(1,2) keys
    by (simp add: stored_tree_from_metadata_def tree_metadata_def t(1) files bt_collect_id)
      (simp add: bt_map_def)
qed

section \<open>Properties\<close>

text \<open>Paths are refused exactly when two different files or directories of the tree, every ancestor
  included, have the same name after the folding of the supported platforms.\<close>

theorem path_collision_check_is_exact:
  "has_supported_platform_path_collision fold_key paths \<longleftrightarrow>
     (\<exists>p q. {p, q} \<subseteq> set (all_prefixes paths) \<and> p \<noteq> q \<and> fold_key p = fold_key q)"
  unfolding has_supported_platform_path_collision_def
  by (subst register_prefixes_None) (auto simp: bt_get_def)

text \<open>The content address of a tree identifies it: where the hash function has no collision between
  the two byte streams, trees with the same address have the same paths, modes and bytes, although the
  stream carries no count of the files.\<close>

theorem tree_hash_identifies_tree:
  assumes "list_all file_fits a" "list_all file_fits b" "collision_free H {tree_preimage a, tree_preimage b}"
    and "hash_tree H a = hash_tree H b"
  shows "a = b"
proof -
  have "tree_preimage a = tree_preimage b"
    by (rule collision_freeD[OF assms(3)]) (use assms(4) in \<open>simp_all add: hash_tree_def\<close>)
  then show ?thesis using tree_preimage_inj assms(1,2) by blast
qed

definition sample_files :: "(string, captured_file) btree_map" where
  "sample_files = [(''SKILL.md'', \<lparr>cf_mode = RegularFile, cf_bytes = ''Run.''\<rparr>),
     (''scripts/a.sh'', \<lparr>cf_mode = ExecutableFile, cf_bytes = ''exit''\<rparr>)]"

theorem tree_hash_identifies_tree_witness: "bt_collect (rev sample_files) = sample_files"
proof (rule tree_hash_identifies_tree[where H = "\<lambda>b. b"])
  have "bt_collect (rev sample_files) = sample_files" by (simp add: sample_files_def bt_collect_def)
  then show "list_all file_fits (bt_collect (rev sample_files))" "list_all file_fits sample_files"
    "hash_tree (\<lambda>b. b) (bt_collect (rev sample_files)) = hash_tree (\<lambda>b. b) sample_files"
    by (simp_all add: sample_files_def file_fits_def fits_u64_def)
  show "collision_free (\<lambda>b. b) {tree_preimage (bt_collect (rev sample_files)), tree_preimage sample_files}"
    by (simp add: collision_free_def)
qed

text \<open>What is stored loads back: an origin-native object that was constructed is reconstructed from
  its metadata and the payload files with equal paths and bytes, whatever modes the file system reports,
  provided the JSON decoder inverts the encoder.\<close>

theorem native_objects_reload:
  assumes "native_skill_object_new H fold_key encode encode_object layout name native_id tree = Ok obj"
    and "bt_wf (ct_files tree)" "same_payload payload tree"
    and "decode_object (encode_object (native_object_metadata obj)) = Some (native_object_metadata obj)"
  shows "native_object_from_stored H fold_key encode encode_object decode_object
    (encode_object (native_object_metadata obj)) payload = Ok obj"
proof -
  have new: "stored_skill_tree_new H fold_key encode tree = Ok tree" "no_tree obj = tree"
    "length (encode_object (native_object_metadata obj)) \<le> MAX_STORED_METADATA_BYTES"
    "no_layout obj = layout" "no_original_document_name obj = name" "no_native_id obj = native_id"
    using assms(1) by (auto simp: native_skill_object_new_def bind_result_Ok_iff and_then_Ok_iff Let_def
        stored_skill_tree_new_Ok split: if_splits)
  have "stored_tree_from_metadata H fold_key encode (tree_metadata tree) payload = Ok tree"
    using stored_tree_reloads[OF new(1) assms(2,3)] .
  then show ?thesis using assms(1,4) new
    by (simp add: native_object_from_stored_def) (simp add: native_object_metadata_def)
qed

definition sample_tree :: "(string \<Rightarrow> string) \<Rightarrow> captured_tree" where
  "sample_tree H = \<lparr>ct_files = sample_files, ct_hash = hash_tree H sample_files\<rparr>"

theorem native_objects_reload_witness:
  "\<exists>obj. native_skill_object_new (\<lambda>b. b) (\<lambda>p. p) (\<lambda>_. []) (\<lambda>_. []) DirectoryLayout ''SKILL.md'' ''lint'' (sample_tree (\<lambda>b. b)) = Ok obj
     \<and> native_object_from_stored (\<lambda>b. b) (\<lambda>p. p) (\<lambda>_. []) (\<lambda>_. []) (\<lambda>_. Some (native_object_metadata obj)) []
        \<lparr>ct_files = bt_map (\<lambda>f. f\<lparr>cf_mode := RegularFile\<rparr>) sample_files, ct_hash = []\<rparr> = Ok obj"
proof -
  obtain obj where obj: "native_skill_object_new (\<lambda>b. b) (\<lambda>p. p) (\<lambda>_. []) (\<lambda>_. []) DirectoryLayout ''SKILL.md'' ''lint''
      (sample_tree (\<lambda>b. b)) = Ok obj"
  proof
    show "native_skill_object_new (\<lambda>b. b) (\<lambda>p. p) (\<lambda>_. []) (\<lambda>_. []) DirectoryLayout ''SKILL.md'' ''lint''
      (sample_tree (\<lambda>b. b)) = Ok \<lparr>no_layout = DirectoryLayout, no_original_document_name = ''SKILL.md'', no_native_id = ''lint'',
        no_tree = sample_tree (\<lambda>b. b),
        no_hash = hash_native_object (\<lambda>b. b) DirectoryLayout ''SKILL.md'' ''lint'' (ct_hash (sample_tree (\<lambda>b. b)))\<rparr>"
      by (simp add: native_skill_object_new_def stored_skill_tree_new_def sample_tree_def
          has_supported_platform_path_collision_def all_prefixes_def sample_files_def bt_keys_def bt_get_def
          validate_native_metadata_def portable_path_parse_def portable_segment_def starts_with_def ends_with_def
          invalid_native_id_def str_chars_def char_is_control_def bt_has_def char_class_defs)
  qed
  have "native_object_from_stored (\<lambda>b. b) (\<lambda>p. p) (\<lambda>_. []) (\<lambda>_. []) (\<lambda>_. Some (native_object_metadata obj)) []
        \<lparr>ct_files = bt_map (\<lambda>f. f\<lparr>cf_mode := RegularFile\<rparr>) sample_files, ct_hash = []\<rparr> = Ok obj"
    by (rule native_objects_reload[OF obj, where decode_object = "\<lambda>_. Some (native_object_metadata obj)", simplified])
      (simp_all add: sample_tree_def sample_files_def same_payload_def bt_map_def bt_wf_def)
  with obj show ?thesis by blast
qed

end
