(* ===== verification/Yaml_Frontmatter.thy ===== *)
theory Yaml_Frontmatter
  imports Ordered_Maps Text_Bytes
begin

text \<open>
  The bounded reader of \<open>kitrove-agent-skills/src/frontmatter.rs\<close>.  The YAML deserializer is a
  third-party crate; what it hands to the visitors of the source is a tree with its aliases expanded,
  and that tree is the input of the model.  The visitors charge a depth and node budget, refuse
  duplicate and non-string keys, and record the reason of a refusal.
\<close>

section \<open>Values and failures\<close>

datatype yaml_node =
    NodeNull
  | NodeBool bool
  | NodeNumber string
  | NodeText string
  | NodeSeq "yaml_node list"
  | NodeMap "(yaml_node \<times> yaml_node) list"
  | NodeTagged string yaml_node

datatype bounded_yaml_value =
    YamlNull
  | YamlBoolean bool
  | YamlNumber string
  | YamlString string
  | YamlSequence "bounded_yaml_value list"
  | YamlMapping "(string \<times> bounded_yaml_value) list"

datatype frontmatter_failure =
    DuplicateTopLevelKey | DuplicateMetadataKey | DuplicateMappingKey | NonStringTopLevelKey
  | InvalidMetadata | DepthLimit | NodeLimit | AliasLimit

definition MAX_YAML_DEPTH :: nat where
  "MAX_YAML_DEPTH = 64"

definition MAX_YAML_NODES :: nat where
  "MAX_YAML_NODES = 4096"

definition MAX_YAML_ALIAS_EXPANDED_NODES :: nat where
  "MAX_YAML_ALIAS_EXPANDED_NODES = 4096"

text \<open>
  A step of the reader runs with the number of nodes claimed so far (\<open>YamlBudget::nodes\<close>).  It fails
  with the content of \<open>YamlBudget::failure\<close>, which is \<open>None\<close> for an error the deserializer reports.
\<close>

type_synonym 'a yaml_step = "frontmatter_failure option + 'a \<times> nat"

definition yaml_bind :: "'a yaml_step \<Rightarrow> ('a \<Rightarrow> nat \<Rightarrow> 'b yaml_step) \<Rightarrow> 'b yaml_step" where
  "yaml_bind m f = (case m of Inl e \<Rightarrow> Inl e | Inr (x, nodes) \<Rightarrow> f x nodes)"

lemma yaml_bind_simps [simp]:
  "yaml_bind (Inl e) f = Inl e"
  "yaml_bind (Inr (x, n)) f = f x n"
  by (simp_all add: yaml_bind_def)

lemma yaml_bind_cong [fundef_cong]:
  "m = m' \<Longrightarrow> (\<And>x n. m' = Inr (x, n) \<Longrightarrow> f x n = g x n) \<Longrightarrow> yaml_bind m f = yaml_bind m' g"
  by (auto simp: yaml_bind_def split: sum.splits)

lemma yaml_bind_Inr_iff: "yaml_bind m f = Inr r \<longleftrightarrow> (\<exists>x n. m = Inr (x, n) \<and> f x n = Inr r)"
  by (cases m) auto

section \<open>The budget and the visitors\<close>

definition yaml_claim :: "bool \<Rightarrow> nat \<Rightarrow> nat \<Rightarrow> unit yaml_step" where
  "yaml_claim aliases_present depth nodes =
     (if depth > MAX_YAML_DEPTH then Inl (Some DepthLimit)
      else if nodes + 1 > (if aliases_present then MAX_YAML_ALIAS_EXPANDED_NODES else MAX_YAML_NODES)
      then Inl (Some (if aliases_present then AliasLimit else NodeLimit))
      else Inr ((), nodes + 1))"

text \<open>\<open>YamlStringSeed\<close>: a key must be presented as a string.\<close>

definition read_key :: "bool \<Rightarrow> nat \<Rightarrow> yaml_node \<Rightarrow> nat \<Rightarrow> string yaml_step" where
  "read_key aliases_present depth node nodes =
     yaml_bind (yaml_claim aliases_present depth nodes) (\<lambda>_ n.
       case node of NodeText s \<Rightarrow> Inr (s, n) | _ \<Rightarrow> Inl None)"

text \<open>An error with no failure recorded yet gets the one of the surrounding mapping.\<close>

definition key_failure :: "frontmatter_failure option \<Rightarrow> 'a yaml_step \<Rightarrow> 'a yaml_step" where
  "key_failure f m = (case m of Inl None \<Rightarrow> Inl f | _ \<Rightarrow> m)"

definition mapping_key_failure :: "frontmatter_failure \<Rightarrow> frontmatter_failure option" where
  "mapping_key_failure duplicate_failure =
     (if duplicate_failure = DuplicateMetadataKey then Some InvalidMetadata else None)"

function read_value :: "bool \<Rightarrow> nat \<Rightarrow> frontmatter_failure \<Rightarrow> yaml_node \<Rightarrow> nat \<Rightarrow> bounded_yaml_value yaml_step"
  and read_sequence :: "bool \<Rightarrow> nat \<Rightarrow> yaml_node list \<Rightarrow> nat \<Rightarrow> bounded_yaml_value list yaml_step"
  and read_mapping :: "bool \<Rightarrow> nat \<Rightarrow> frontmatter_failure \<Rightarrow> (yaml_node \<times> yaml_node) list
    \<Rightarrow> (string, bounded_yaml_value) btree_map \<Rightarrow> nat \<Rightarrow> (string, bounded_yaml_value) btree_map yaml_step" where
  "read_value al depth duplicate_failure node nodes =
     yaml_bind (yaml_claim al depth nodes) (\<lambda>_ n.
       case node of
         NodeNull \<Rightarrow> Inr (YamlNull, n)
       | NodeBool b \<Rightarrow> Inr (YamlBoolean b, n)
       | NodeNumber s \<Rightarrow> Inr (YamlNumber s, n)
       | NodeText s \<Rightarrow> Inr (YamlString s, n)
       | NodeSeq xs \<Rightarrow> yaml_bind (read_sequence al depth xs n) (\<lambda>vs n. Inr (YamlSequence vs, n))
       | NodeMap es \<Rightarrow> yaml_bind (read_mapping al depth duplicate_failure es [] n) (\<lambda>m n. Inr (YamlMapping m, n))
       | NodeTagged name x \<Rightarrow>
           yaml_bind (read_key al (depth + 1) (NodeText name) n) (\<lambda>key n.
           yaml_bind (read_value al (depth + 1) DuplicateMappingKey x n) (\<lambda>v n.
             Inr (YamlMapping (bt_collect [(key, v)]), n))))"
| "read_sequence al depth [] n = Inr ([], n)"
| "read_sequence al depth (x # xs) n =
     yaml_bind (read_value al (depth + 1) DuplicateMappingKey x n) (\<lambda>v n.
     yaml_bind (read_sequence al depth xs n) (\<lambda>vs n. Inr (v # vs, n)))"
| "read_mapping al depth duplicate_failure [] values n = Inr (values, n)"
| "read_mapping al depth duplicate_failure ((k, x) # es) values n =
     yaml_bind (key_failure (mapping_key_failure duplicate_failure) (read_key al (depth + 1) k n)) (\<lambda>key n.
       if bt_has values key then Inl (Some duplicate_failure)
       else yaml_bind (read_value al (depth + 1) DuplicateMappingKey x n) (\<lambda>v n.
         read_mapping al depth duplicate_failure es (bt_insert key v values) n))"
  by pat_completeness auto
termination
  by (relation "measure (\<lambda>s. case s of
        Inl (_, _, _, x, _) \<Rightarrow> size x
      | Inr (Inl (_, _, xs, _)) \<Rightarrow> size_list size xs
      | Inr (Inr (_, _, _, es, _, _)) \<Rightarrow> size_list (size_prod size size) es)") auto

declare read_value.simps [simp del]

section \<open>The top-level mapping\<close>

definition is_standard_field :: "string \<Rightarrow> bool" where
  "is_standard_field key \<longleftrightarrow>
     key \<in> set [''name'', ''description'', ''license'', ''compatibility'', ''metadata'', ''allowed-tools'']"

record frontmatter_state =
  fs_frontmatter :: "(string, bounded_yaml_value) btree_map"
  fs_native_fields :: "string btree_set"
  fs_keys :: "string btree_set"

fun read_fields ::
  "bool \<Rightarrow> (yaml_node \<times> yaml_node) list \<Rightarrow> frontmatter_state \<Rightarrow> nat \<Rightarrow> frontmatter_state yaml_step" where
  "read_fields al [] s n = Inr (s, n)"
| "read_fields al ((k, x) # es) s n =
     yaml_bind (key_failure (Some NonStringTopLevelKey) (read_key al 1 k n)) (\<lambda>key n.
       if bs_has (fs_keys s) key then Inl (Some DuplicateTopLevelKey)
       else yaml_bind (read_value al 1 (if key = ''metadata'' then DuplicateMetadataKey else DuplicateMappingKey) x n)
         (\<lambda>v n. read_fields al es
           \<lparr>fs_frontmatter = bt_insert key v (fs_frontmatter s),
            fs_native_fields = (if is_standard_field key then fs_native_fields s
                                else bs_insert key (fs_native_fields s)),
            fs_keys = bs_insert key (fs_keys s)\<rparr> n))"

definition read_frontmatter :: "bool \<Rightarrow> (yaml_node \<times> yaml_node) list \<Rightarrow> frontmatter_state yaml_step" where
  "read_frontmatter al entries =
     yaml_bind (yaml_claim al 0 0) (\<lambda>_ n.
       read_fields al entries \<lparr>fs_frontmatter = [], fs_native_fields = [], fs_keys = []\<rparr> n)"

definition frontmatter_error :: "frontmatter_failure option \<Rightarrow> string" where
  "frontmatter_error f =
     (case f of
        Some DuplicateTopLevelKey \<Rightarrow> ''skill.frontmatter_duplicate_key''
      | Some DuplicateMetadataKey \<Rightarrow> ''skill.metadata_duplicate_key''
      | Some DuplicateMappingKey \<Rightarrow> ''skill.frontmatter_duplicate_key''
      | Some InvalidMetadata \<Rightarrow> ''skill.metadata_invalid''
      | Some DepthLimit \<Rightarrow> ''skill.frontmatter_depth_limit''
      | Some NodeLimit \<Rightarrow> ''skill.frontmatter_node_limit''
      | Some AliasLimit \<Rightarrow> ''skill.frontmatter_alias_limit''
      | Some NonStringTopLevelKey \<Rightarrow> ''skill.frontmatter_invalid''
      | None \<Rightarrow> ''skill.frontmatter_invalid'')"

section \<open>What is accepted\<close>

text \<open>The nodes a tree costs, how deep it nests, and the value it stands for.\<close>

fun node_cost :: "yaml_node \<Rightarrow> nat" where
  "node_cost (NodeSeq xs) = 1 + sum_list (map node_cost xs)"
| "node_cost (NodeMap es) = 1 + sum_list (map (\<lambda>(k, x). 1 + node_cost x) es)"
| "node_cost (NodeTagged _ x) = 2 + node_cost x"
| "node_cost _ = 1"

fun node_within :: "nat \<Rightarrow> yaml_node \<Rightarrow> bool" where
  "node_within d (NodeSeq xs) \<longleftrightarrow> d \<le> MAX_YAML_DEPTH \<and> (\<forall>x\<in>set xs. node_within (d + 1) x)"
| "node_within d (NodeMap es) \<longleftrightarrow> d \<le> MAX_YAML_DEPTH
     \<and> (\<forall>(k, x)\<in>set es. d + 1 \<le> MAX_YAML_DEPTH \<and> node_within (d + 1) x)"
| "node_within d (NodeTagged _ x) \<longleftrightarrow> d + 1 \<le> MAX_YAML_DEPTH \<and> node_within (d + 1) x"
| "node_within d _ \<longleftrightarrow> d \<le> MAX_YAML_DEPTH"

fun node_text :: "yaml_node \<Rightarrow> string option" where
  "node_text (NodeText s) = Some s"
| "node_text _ = None"

fun unique_text_keys :: "yaml_node \<Rightarrow> bool" where
  "unique_text_keys (NodeSeq xs) \<longleftrightarrow> (\<forall>x\<in>set xs. unique_text_keys x)"
| "unique_text_keys (NodeMap es) \<longleftrightarrow>
     (\<forall>(k, x)\<in>set es. node_text k \<noteq> None \<and> unique_text_keys x) \<and> distinct (map (\<lambda>(k, x). node_text k) es)"
| "unique_text_keys (NodeTagged _ x) \<longleftrightarrow> unique_text_keys x"
| "unique_text_keys _ \<longleftrightarrow> True"

fun node_value :: "yaml_node \<Rightarrow> bounded_yaml_value" where
  "node_value NodeNull = YamlNull"
| "node_value (NodeBool b) = YamlBoolean b"
| "node_value (NodeNumber s) = YamlNumber s"
| "node_value (NodeText s) = YamlString s"
| "node_value (NodeSeq xs) = YamlSequence (map node_value xs)"
| "node_value (NodeMap es) = YamlMapping (bt_collect (map (\<lambda>(k, x). (the (node_text k), node_value x)) es))"
| "node_value (NodeTagged name x) = YamlMapping (bt_collect [(name, node_value x)])"

lemma yaml_claim_iff [simp]:
  "yaml_claim al d n = Inr (u, n') \<longleftrightarrow> d \<le> MAX_YAML_DEPTH \<and> n + 1 \<le> MAX_YAML_NODES \<and> n' = n + 1"
  by (auto simp: yaml_claim_def MAX_YAML_NODES_def MAX_YAML_ALIAS_EXPANDED_NODES_def)

lemma read_key_iff:
  "read_key al d k n = Inr (s, n') \<longleftrightarrow>
     node_text k = Some s \<and> d \<le> MAX_YAML_DEPTH \<and> n + 1 \<le> MAX_YAML_NODES \<and> n' = n + 1"
  by (cases k) (auto simp: read_key_def yaml_bind_Inr_iff)

lemma key_failure_Inr [simp]: "key_failure f m = Inr r \<longleftrightarrow> m = Inr r"
  by (auto simp: key_failure_def split: sum.splits option.splits)

definition value_exact :: "yaml_node \<Rightarrow> bool" where
  "value_exact x \<longleftrightarrow> (\<forall>al d dup n v n'. read_value al d dup x n = Inr (v, n') \<longleftrightarrow>
     unique_text_keys x \<and> node_within d x \<and> n + node_cost x \<le> MAX_YAML_NODES
     \<and> v = node_value x \<and> n' = n + node_cost x)"

lemma read_sequence_exact:
  assumes "\<forall>x\<in>set xs. value_exact x" "n \<le> MAX_YAML_NODES"
  shows "read_sequence al d xs n = Inr (vs, n') \<longleftrightarrow>
    (\<forall>x\<in>set xs. unique_text_keys x \<and> node_within (d + 1) x) \<and> n + sum_list (map node_cost xs) \<le> MAX_YAML_NODES
    \<and> vs = map node_value xs \<and> n' = n + sum_list (map node_cost xs)"
  using assms
proof (induction xs arbitrary: n vs)
  case (Cons x xs)
  have x: "\<And>v m. read_value al (d + 1) DuplicateMappingKey x n = Inr (v, m) \<longleftrightarrow>
      unique_text_keys x \<and> node_within (d + 1) x \<and> n + node_cost x \<le> MAX_YAML_NODES
      \<and> v = node_value x \<and> m = n + node_cost x"
    using Cons.prems(1) by (simp add: value_exact_def)
  show ?case
  proof (cases "n + node_cost x \<le> MAX_YAML_NODES")
    case True
    then show ?thesis using Cons.IH[of "n + node_cost x"] Cons.prems(1)
      by (auto simp: yaml_bind_Inr_iff x[simplified] add.assoc)
  qed (auto simp: yaml_bind_Inr_iff x[simplified])
qed auto

lemma read_mapping_exact:
  assumes "\<forall>(k, x)\<in>set es. value_exact x" "n \<le> MAX_YAML_NODES"
  shows "read_mapping al d dup es acc n = Inr (m, n') \<longleftrightarrow>
    (\<forall>(k, x)\<in>set es. node_text k \<noteq> None \<and> d + 1 \<le> MAX_YAML_DEPTH \<and> unique_text_keys x \<and> node_within (d + 1) x)
    \<and> distinct (map (\<lambda>(k, x). node_text k) es) \<and> (\<forall>s. Some s \<in> set (map (\<lambda>(k, x). node_text k) es) \<longrightarrow> \<not> bt_has acc s)
    \<and> n + sum_list (map (\<lambda>(k, x). 1 + node_cost x) es) \<le> MAX_YAML_NODES
    \<and> m = fold (\<lambda>(k, x). bt_insert (the (node_text k)) (node_value x)) es acc
    \<and> n' = n + sum_list (map (\<lambda>(k, x). 1 + node_cost x) es)"
  using assms
proof (induction es arbitrary: n acc)
  case (Cons e es)
  obtain k x where e: "e = (k, x)" by (cases e)
  have x: "\<And>c v m. read_value al (d + 1) DuplicateMappingKey x c = Inr (v, m) \<longleftrightarrow>
      unique_text_keys x \<and> node_within (d + 1) x \<and> c + node_cost x \<le> MAX_YAML_NODES
      \<and> v = node_value x \<and> m = c + node_cost x"
    using Cons.prems(1) by (simp add: value_exact_def e)
  have has: "bt_has (bt_insert j v acc) i \<longleftrightarrow> i = j \<or> bt_has acc i" for i j and v :: bounded_yaml_value
    by (auto simp: bt_has_def bt_get_insert)
  show ?case
  proof (cases "n + 1 + node_cost x \<le> MAX_YAML_NODES \<and> node_text k \<noteq> None")
    case True
    then obtain s where s: "node_text k = Some s" by auto
    show ?thesis using Cons.IH[of "n + 1 + node_cost x" "bt_insert s (node_value x) acc"] Cons.prems(1) True s
      by (auto simp: yaml_bind_Inr_iff x[simplified] e read_key_iff has add.assoc simp del: set_map)
  qed (auto simp: yaml_bind_Inr_iff x[simplified] e read_key_iff simp del: set_map)
qed auto


lemma mapping_value: "fold (\<lambda>(k, x). bt_insert (the (node_text k)) (node_value x)) es []
    = bt_collect (map (\<lambda>(k, x). (the (node_text k), node_value x)) es)"
  by (simp add: bt_collect_def fold_map comp_def split_def)

lemma value_exact_all: "value_exact x"
proof (induction x)
  case (NodeSeq xs)
  then have xs: "\<forall>x\<in>set xs. value_exact x" by blast
  show ?case unfolding value_exact_def
    by (subst read_value.simps) (auto simp: yaml_bind_Inr_iff read_sequence_exact[OF xs])
next
  case (NodeMap es)
  then have es: "\<forall>(k, x)\<in>set es. value_exact x" by (fastforce simp: snds.simps)
  show ?case unfolding value_exact_def
    by (subst read_value.simps)
      (auto simp: yaml_bind_Inr_iff read_mapping_exact[OF es] mapping_value bt_has_def bt_get_def)
next
  case (NodeTagged name x)
  then show ?case unfolding value_exact_def
    by (subst read_value.simps) (auto simp: yaml_bind_Inr_iff read_key_iff)
qed (auto simp: value_exact_def read_value.simps yaml_bind_Inr_iff)

lemma read_value_exact:
  "read_value al d dup x n = Inr (v, n') \<longleftrightarrow>
     unique_text_keys x \<and> node_within d x \<and> n + node_cost x \<le> MAX_YAML_NODES
     \<and> v = node_value x \<and> n' = n + node_cost x"
  using value_exact_all[of x] by (simp add: value_exact_def)

definition entry_keys :: "(yaml_node \<times> yaml_node) list \<Rightarrow> string list" where
  "entry_keys es = map (\<lambda>(k, x). the (node_text k)) es"

definition keys_read :: "(yaml_node \<times> yaml_node) list \<Rightarrow> frontmatter_state \<Rightarrow> frontmatter_state" where
  "keys_read es s =
     \<lparr>fs_frontmatter = fold (\<lambda>(k, x). bt_insert (the (node_text k)) (node_value x)) es (fs_frontmatter s),
      fs_native_fields = fold bs_insert (filter (\<lambda>k. \<not> is_standard_field k) (entry_keys es)) (fs_native_fields s),
      fs_keys = fold bs_insert (entry_keys es) (fs_keys s)\<rparr>"

lemma read_fields_exact:
  assumes "n \<le> MAX_YAML_NODES"
  shows "read_fields al es s n = Inr (s', n') \<longleftrightarrow>
    (\<forall>(k, x)\<in>set es. node_text k \<noteq> None \<and> unique_text_keys x \<and> node_within 1 x)
    \<and> distinct (map (\<lambda>(k, x). node_text k) es)
    \<and> (\<forall>t. Some t \<in> set (map (\<lambda>(k, x). node_text k) es) \<longrightarrow> t \<notin> set (fs_keys s))
    \<and> n + sum_list (map (\<lambda>(k, x). 1 + node_cost x) es) \<le> MAX_YAML_NODES
    \<and> s' = keys_read es s \<and> n' = n + sum_list (map (\<lambda>(k, x). 1 + node_cost x) es)"
  using assms
proof (induction es arbitrary: n s)
  case (Cons e es)
  obtain k x where e: "e = (k, x)" by (cases e)
  show ?case
  proof (cases "n + 1 + node_cost x \<le> MAX_YAML_NODES \<and> node_text k \<noteq> None")
    case True
    then obtain t where t: "node_text k = Some t" by auto
    show ?thesis
      using Cons.IH[of "n + 1 + node_cost x" "\<lparr>fs_frontmatter = bt_insert t (node_value x) (fs_frontmatter s),
            fs_native_fields = (if is_standard_field t then fs_native_fields s else bs_insert t (fs_native_fields s)),
            fs_keys = bs_insert t (fs_keys s)\<rparr>"] True t
      by (auto simp: e yaml_bind_Inr_iff read_key_iff read_value_exact keys_read_def entry_keys_def MAX_YAML_DEPTH_def
          add.assoc simp del: set_map)
  qed (auto simp: e yaml_bind_Inr_iff read_key_iff read_value_exact simp del: set_map)
qed (auto simp: keys_read_def entry_keys_def)

lemma read_frontmatter_Inr:
  "read_frontmatter al es = Inr (s, n) \<longleftrightarrow>
     unique_text_keys (NodeMap es) \<and> node_within 0 (NodeMap es) \<and> node_cost (NodeMap es) \<le> MAX_YAML_NODES
     \<and> s = keys_read es \<lparr>fs_frontmatter = [], fs_native_fields = [], fs_keys = []\<rparr> \<and> n = node_cost (NodeMap es)"
proof -
  have "read_frontmatter al es = Inr (s, n) \<longleftrightarrow>
      read_fields al es \<lparr>fs_frontmatter = [], fs_native_fields = [], fs_keys = []\<rparr> 1 = Inr (s, n)"
    by (simp add: read_frontmatter_def yaml_claim_def MAX_YAML_NODES_def MAX_YAML_ALIAS_EXPANDED_NODES_def)
  moreover have "(1 :: nat) \<le> MAX_YAML_NODES" "(1 :: nat) \<le> MAX_YAML_DEPTH"
    by (simp_all add: MAX_YAML_NODES_def MAX_YAML_DEPTH_def)
  ultimately show ?thesis unfolding read_fields_exact[OF \<open>1 \<le> MAX_YAML_NODES\<close>] by auto
qed

section \<open>Properties\<close>

text \<open>The reader accepts exactly the frontmatter within its limits: every key of every mapping is a
  string that occurs once there, no node lies deeper than the depth limit and the nodes, keys included,
  are within the node budget.  It then returns all of it, charges exactly its nodes and collects the
  keys outside the standard as native fields.\<close>

theorem frontmatter_budget_is_exact:
  "read_frontmatter al es = Inr (s, n) \<longleftrightarrow>
     unique_text_keys (NodeMap es) \<and> node_within 0 (NodeMap es) \<and> node_cost (NodeMap es) \<le> MAX_YAML_NODES
     \<and> YamlMapping (fs_frontmatter s) = node_value (NodeMap es)
     \<and> fs_native_fields s = bs_collect (filter (\<lambda>k. \<not> is_standard_field k) (entry_keys es))
     \<and> fs_keys s = bs_collect (entry_keys es) \<and> n = node_cost (NodeMap es)"
  by (cases s) (auto simp: read_frontmatter_Inr keys_read_def mapping_value bs_collect_def)

end
