(* ===== verification/Yaml_Aliases.thy ===== *)
theory Yaml_Aliases
  imports Text_Bytes
begin

text \<open>
  The scanner of \<open>kitrove-agent-skills/src/frontmatter.rs\<close> that decides, before the document is read,
  whether a YAML text uses an alias: line by line, with quotes carried across lines, comments and block
  scalars skipped.  A loop over byte positions is a recursion over the rest of the line with the byte
  before it.
\<close>

record yaml_block_header =
  bh_parent_indent :: nat
  bh_explicit_indent :: "nat option"

datatype yaml_line_scan = ScanAlias | ScanBlockScalar yaml_block_header | ScanNeither

text \<open>The scalar style indicators after \<open>|\<close> or \<open>>\<close>: at most one indentation digit and one chomping sign.\<close>

fun header_indicators :: "nat \<Rightarrow> string \<Rightarrow> nat option \<Rightarrow> bool \<Rightarrow> string \<times> nat option" where
  "header_indicators (Suc k) (c # cs) explicit_indent chomping =
     (if 49 \<le> byte c \<and> byte c \<le> (57::nat) \<and> explicit_indent = None
      then header_indicators k cs (Some (byte c - 48)) chomping
      else if (c = CHR ''+'' \<or> c = CHR ''-'') \<and> \<not> chomping
      then header_indicators k cs explicit_indent True
      else (c # cs, explicit_indent))"
| "header_indicators _ suffix explicit_indent _ = (suffix, explicit_indent)"

definition parse_yaml_block_header :: "string \<Rightarrow> nat \<Rightarrow> yaml_block_header option" where
  "parse_yaml_block_header suffix parent_indent =
     (case header_indicators 2 suffix None False of (rest, explicit_indent) \<Rightarrow>
        if (case rest of c # _ \<Rightarrow> \<not> is_ascii_whitespace c | [] \<Rightarrow> False) then None
        else let trimmed = dropWhile is_ascii_whitespace rest
             in if trimmed = [] \<or> starts_with ''#'' trimmed
                then Some \<lparr>bh_parent_indent = parent_indent, bh_explicit_indent = explicit_indent\<rparr>
                else None)"

function sequence_indents :: "nat \<Rightarrow> nat \<Rightarrow> string \<Rightarrow> nat \<times> nat" where
  "sequence_indents sequence_parent_indent cursor [] = (sequence_parent_indent, cursor)"
| "sequence_indents sequence_parent_indent cursor (b # bs) =
     (if b = CHR ''-'' \<and> (case bs of c # _ \<Rightarrow> is_ascii_whitespace c | [] \<Rightarrow> False)
      then sequence_indents cursor (cursor + 1 + length (takeWhile is_ascii_whitespace bs))
             (dropWhile is_ascii_whitespace bs)
      else (sequence_parent_indent, cursor))"
  by pat_completeness auto
termination
  by (relation "measure (\<lambda>(_, _, bs). length bs)") (auto simp: less_Suc_eq_le length_dropWhile_le)

definition yaml_line_indents :: "string \<Rightarrow> nat \<times> nat" where
  "yaml_line_indents bytes =
     (let line_indent = length (takeWhile (\<lambda>b. b = CHR '' '') bytes)
      in sequence_indents line_indent line_indent (drop line_indent bytes))"

definition at_boundary :: "char option \<Rightarrow> bool" where
  "at_boundary before = (case before of None \<Rightarrow> True | Some c \<Rightarrow> is_ascii_whitespace c)"

text \<open>
  The loop of \<open>scan_yaml_line\<close> at position \<open>index\<close> with the bytes left; \<open>before\<close> is the byte at
  \<open>index - 1\<close>.  The two flags are the quote states, returned for the next line.
\<close>

function scan_bytes :: "nat \<Rightarrow> nat \<Rightarrow> nat option \<Rightarrow> nat \<Rightarrow> char option \<Rightarrow> string \<Rightarrow> bool \<Rightarrow> bool
    \<Rightarrow> yaml_line_scan \<times> bool \<times> bool" where
  "scan_bytes sequence_parent mapping_key mapping_value index before [] single double = (ScanNeither, single, double)"
| "scan_bytes sequence_parent mapping_key mapping_value index before (b # bs) single double =
     (if single then
        if b = CHR 0x27 then
          (case bs of
             c # cs \<Rightarrow>
               if c = CHR 0x27
               then scan_bytes sequence_parent mapping_key mapping_value (index + 2) (Some c) cs single double
               else scan_bytes sequence_parent mapping_key mapping_value (index + 1) (Some b) bs False double
           | [] \<Rightarrow> scan_bytes sequence_parent mapping_key mapping_value (index + 1) (Some b) bs False double)
        else scan_bytes sequence_parent mapping_key mapping_value (index + 1) (Some b) bs single double
      else if double then
        if b = CHR 0x5C then
          (case bs of
             c # cs \<Rightarrow> scan_bytes sequence_parent mapping_key mapping_value (index + 2) (Some c) cs single double
           | [] \<Rightarrow> (ScanNeither, single, double))
        else scan_bytes sequence_parent mapping_key mapping_value (index + 1) (Some b) bs single (b \<noteq> CHR 0x22)
      else if b = CHR 0x27 then scan_bytes sequence_parent mapping_key mapping_value (index + 1) (Some b) bs True double
      else if b = CHR 0x22 then scan_bytes sequence_parent mapping_key mapping_value (index + 1) (Some b) bs single True
      else if b = CHR ''#'' \<and> at_boundary before then (ScanNeither, single, double)
      else if b = CHR '':'' \<and> mapping_key \<le> index \<and> (case bs of [] \<Rightarrow> True | next # _ \<Rightarrow> is_ascii_whitespace next)
      then scan_bytes sequence_parent mapping_key (Some mapping_key) (index + 1) (Some b) bs single double
      else if b = CHR ''*''
          \<and> (at_boundary before \<or> (case before of None \<Rightarrow> False | Some c \<Rightarrow> c \<in> set ''[{,:?-''))
          \<and> (case bs of [] \<Rightarrow> False | next # _ \<Rightarrow> \<not> is_ascii_whitespace next \<and> next \<notin> set '',[]{}'')
      then (ScanAlias, single, double)
      else if (b = CHR ''|'' \<or> b = CHR ''>'') \<and> at_boundary before then
        (case parse_yaml_block_header bs (case mapping_value of Some i \<Rightarrow> i | None \<Rightarrow> sequence_parent) of
           Some header \<Rightarrow> (ScanBlockScalar header, single, double)
         | None \<Rightarrow> scan_bytes sequence_parent mapping_key mapping_value (index + 1) (Some b) bs single double)
      else scan_bytes sequence_parent mapping_key mapping_value (index + 1) (Some b) bs single double)"
  by pat_completeness auto
termination by (relation "measure (\<lambda>(_, _, _, _, _, bs, _, _). length bs)") auto

definition scan_yaml_line :: "string \<Rightarrow> bool \<Rightarrow> bool \<Rightarrow> yaml_line_scan \<times> bool \<times> bool" where
  "scan_yaml_line bytes in_single_quote in_double_quote =
     (case yaml_line_indents bytes of (sequence_parent_indent, mapping_key_indent) \<Rightarrow>
        scan_bytes sequence_parent_indent mapping_key_indent None 0 None bytes in_single_quote in_double_quote)"

record yaml_block_scalar =
  ybs_parent_indent :: nat
  ybs_content_indent :: "nat option"

definition block_consumes :: "yaml_block_scalar \<Rightarrow> string \<Rightarrow> bool \<times> yaml_block_scalar" where
  "block_consumes s line =
     (if list_all is_ascii_whitespace line then (True, s)
      else let indent = length (takeWhile (\<lambda>b. b = CHR '' '') line)
           in case ybs_content_indent s of
                Some content_indent \<Rightarrow> (indent \<ge> content_indent, s)
              | None \<Rightarrow> if indent > ybs_parent_indent s then (True, s\<lparr>ybs_content_indent := Some indent\<rparr>)
                        else (False, s))"

definition strip_carriage_return :: "string \<Rightarrow> string" where
  "strip_carriage_return line = (case strip_suffix [CHR 0x0D] line of Some l \<Rightarrow> l | None \<Rightarrow> line)"

fun scan_yaml_lines :: "string list \<Rightarrow> bool \<Rightarrow> bool \<Rightarrow> yaml_block_scalar option \<Rightarrow> bool" where
  "scan_yaml_lines [] single double block = False"
| "scan_yaml_lines (l # ls) single double block =
     (let line = strip_carriage_return l;
          (consumed, block') = (case block of
             Some active \<Rightarrow> (case block_consumes active line of (c, s) \<Rightarrow> (c, Some s))
           | None \<Rightarrow> (False, None))
      in if consumed then scan_yaml_lines ls single double block'
         else case scan_yaml_line line single double of (scan, single', double') \<Rightarrow>
           (case scan of
              ScanAlias \<Rightarrow> True
            | ScanBlockScalar h \<Rightarrow>
                scan_yaml_lines ls single' double' (Some \<lparr>ybs_parent_indent = bh_parent_indent h,
                  ybs_content_indent = map_option (\<lambda>indent. bh_parent_indent h + indent) (bh_explicit_indent h)\<rparr>)
            | ScanNeither \<Rightarrow> scan_yaml_lines ls single' double' None))"

definition contains_yaml_alias_reference :: "string \<Rightarrow> bool" where
  "contains_yaml_alias_reference source = scan_yaml_lines (split_on CHR 0x0A source) False False None"

section \<open>Aliases need an asterisk\<close>

lemma scan_bytes_alias:
  "fst (scan_bytes sp mk mv i before bs single double) = ScanAlias \<Longrightarrow> CHR ''*'' \<in> set bs"
proof (induction "length bs" arbitrary: mv i before bs single double rule: less_induct)
  case less
  show ?case
  proof (cases bs)
    case (Cons b cs)
    have step: "fst (scan_bytes sp mk mv' i' before' ds single' double') = ScanAlias \<Longrightarrow> ds = cs \<or> ds = tl cs
        \<Longrightarrow> CHR ''*'' \<in> set bs" for mv' i' before' ds single' double'
    proof -
      assume scan: "fst (scan_bytes sp mk mv' i' before' ds single' double') = ScanAlias" and ds: "ds = cs \<or> ds = tl cs"
      have "length ds < length bs" "set ds \<subseteq> set bs" using ds Cons by (auto dest: list.set_sel(2) intro: list.set_sel(2))
      then show "CHR ''*'' \<in> set bs" using less.hyps[OF _ scan] by blast
    qed
    note unfolded = less.prems[unfolded Cons, unfolded scan_bytes.simps(2)]
    show ?thesis
    proof (cases "b = CHR ''*''")
      case False
      show ?thesis
        using unfolded step False
        by (simp only: HOL.simp_thms split: if_splits list.splits option.splits) (auto simp del: scan_bytes.simps)
    qed (simp add: Cons)
  qed (use less.prems in simp)
qed

lemma scan_yaml_line_alias: "fst (scan_yaml_line line single double) = ScanAlias \<Longrightarrow> CHR ''*'' \<in> set line"
  by (auto simp: scan_yaml_line_def dest: scan_bytes_alias split: prod.splits)

lemma scan_yaml_lines_alias: "scan_yaml_lines ls single double block \<Longrightarrow> \<exists>l\<in>set ls. CHR ''*'' \<in> set l"
proof (induction ls arbitrary: single double block)
  case (Cons l ls)
  have "set (strip_carriage_return l) \<subseteq> set l"
    by (auto simp: strip_carriage_return_def strip_suffix_Some_iff split: option.splits)
  then show ?case using Cons scan_yaml_line_alias[of "strip_carriage_return l" single double]
    by (auto simp: Let_def split: prod.splits if_splits yaml_line_scan.splits option.splits)
qed simp

lemma alias_reference_asterisk: "contains_yaml_alias_reference s \<Longrightarrow> CHR ''*'' \<in> set s"
  using split_on_subset scan_yaml_lines_alias by (fastforce simp: contains_yaml_alias_reference_def)

end
