(* ===== verification/Skill_Documents.thy ===== *)
theory Skill_Documents
  imports Yaml_Frontmatter Yaml_Aliases Identity Portable_Content
begin

text \<open>
  \<open>kitrove-agent-skills/src/frontmatter.rs\<close>: a \<open>SKILL.md\<close> document is split into its frontmatter and its
  body, the frontmatter is read within the budget of the YAML reader, and the portable parser then
  requires the standard fields.  The YAML parser is the argument \<open>yaml\<close>: it maps a text to the entries
  of its top-level mapping, or to \<open>None\<close> where it reports an error.
\<close>

definition MAX_SKILL_DOCUMENT_BYTES :: nat where
  "MAX_SKILL_DOCUMENT_BYTES = 4 * 1024 * 1024"

type_synonym yaml_parser = "string \<Rightarrow> (yaml_node \<times> yaml_node) list option"

section \<open>UTF-8\<close>

text \<open>\<open>std::str::from_utf8\<close>: shortest forms, no surrogates, nothing above U+10FFFF.\<close>

definition continuation :: "nat \<Rightarrow> bool" where
  "continuation b \<longleftrightarrow> 0x80 \<le> b \<and> b \<le> 0xBF"

fun utf8_wf :: "nat list \<Rightarrow> bool" where
  "utf8_wf [] = True"
| "utf8_wf (a # bs) =
     (if a < 0x80 then utf8_wf bs
      else case bs of [] \<Rightarrow> False
        | b # cs \<Rightarrow> (if 0xC2 \<le> a \<and> a \<le> 0xDF then continuation b \<and> utf8_wf cs
          else case cs of [] \<Rightarrow> False
            | c # ds \<Rightarrow>
                (if 0xE0 \<le> a \<and> a \<le> 0xEF
                 then (if a = 0xE0 then 0xA0 \<le> b \<and> b \<le> 0xBF else if a = 0xED then 0x80 \<le> b \<and> b \<le> 0x9F
                       else continuation b) \<and> continuation c \<and> utf8_wf ds
                 else case ds of [] \<Rightarrow> False
                   | d # es \<Rightarrow>
                       0xF0 \<le> a \<and> a \<le> 0xF4
                       \<and> (if a = 0xF0 then 0x90 \<le> b \<and> b \<le> 0xBF else if a = 0xF4 then 0x80 \<le> b \<and> b \<le> 0x8F
                          else continuation b) \<and> continuation c \<and> continuation d \<and> utf8_wf es)))"

definition is_utf8 :: "string \<Rightarrow> bool" where
  "is_utf8 s = utf8_wf (map byte s)"

section \<open>Splitting\<close>

definition starts_frontmatter_delimiter :: "string \<Rightarrow> bool" where
  "starts_frontmatter_delimiter bytes \<longleftrightarrow>
     starts_with (''---'' @ [CHR 0x0A]) bytes \<or> starts_with (''---'' @ [CHR 0x0D, CHR 0x0A]) bytes"

lemma split_once_length: "split_once c s = Some (a, b) \<Longrightarrow> length b < length s"
  by (auto simp: split_once_Some_iff)

text \<open>The search for the closing delimiter, with the text before the current line.\<close>

function find_closing :: "string \<Rightarrow> string \<Rightarrow> (string \<times> string) result" where
  "find_closing before rest =
     (case split_once CHR 0x0A rest of
        Some (line, after) \<Rightarrow>
          if strip_carriage_return line = ''---'' then Ok (before, after)
          else find_closing (before @ line @ [CHR 0x0A]) after
      | None \<Rightarrow> if strip_carriage_return rest = ''---'' then Ok (before, []) else Err ''skill.frontmatter_missing'')"
  by pat_completeness auto
termination by (relation "measure (\<lambda>(_, rest). length rest)") (auto dest: split_once_length)

declare find_closing.simps [simp del]

definition split_frontmatter :: "string \<Rightarrow> (string \<times> string) result" where
  "split_frontmatter source =
     (if starts_with (''---'' @ [CHR 0x0A]) source then find_closing [] (drop 4 source)
      else if starts_with (''---'' @ [CHR 0x0D, CHR 0x0A]) source then find_closing [] (drop 5 source)
      else Err ''skill.frontmatter_missing'')"

section \<open>Observed documents\<close>

definition string_field :: "(string, bounded_yaml_value) btree_map \<Rightarrow> string \<Rightarrow> string option" where
  "string_field frontmatter key = (case bt_get frontmatter key of Some (YamlString v) \<Rightarrow> Some v | _ \<Rightarrow> None)"

fun yaml_string :: "bounded_yaml_value \<Rightarrow> string option" where
  "yaml_string (YamlString v) = Some v"
| "yaml_string _ = None"

definition string_mapping_field ::
  "(string, bounded_yaml_value) btree_map \<Rightarrow> string \<Rightarrow> (string, string) btree_map option" where
  "string_mapping_field frontmatter key =
     (case bt_get frontmatter key of
        Some (YamlMapping mapping) \<Rightarrow>
          if list_all (\<lambda>(_, v). yaml_string v \<noteq> None) mapping
          then Some (map (\<lambda>(k, v). (k, the (yaml_string v))) mapping) else None
      | _ \<Rightarrow> None)"

record observed_skill_document =
  od_frontmatter :: "(string, bounded_yaml_value) btree_map"
  od_declared_name :: "string option"
  od_description :: "string option"
  od_license :: "string option"
  od_compatibility :: "string option"
  od_metadata :: "(string, string) btree_map option"
  od_allowed_tools :: "string option"
  od_body :: string
  od_native_fields :: "string btree_set"

definition observe_fields :: "frontmatter_state \<Rightarrow> observed_skill_document" where
  "observe_fields s =
     \<lparr>od_frontmatter = fs_frontmatter s,
      od_declared_name = string_field (fs_frontmatter s) ''name'',
      od_description = string_field (fs_frontmatter s) ''description'',
      od_license = string_field (fs_frontmatter s) ''license'',
      od_compatibility = string_field (fs_frontmatter s) ''compatibility'',
      od_metadata = string_mapping_field (fs_frontmatter s) ''metadata'',
      od_allowed_tools = string_field (fs_frontmatter s) ''allowed-tools'',
      od_body = [], od_native_fields = fs_native_fields s\<rparr>"

definition parse_frontmatter :: "yaml_parser \<Rightarrow> string \<Rightarrow> observed_skill_document result" where
  "parse_frontmatter yaml source =
     (case yaml source of
        None \<Rightarrow> Err (frontmatter_error None)
      | Some entries \<Rightarrow>
          (case read_frontmatter (contains_yaml_alias_reference source) entries of
             Inl f \<Rightarrow> Err (frontmatter_error f)
           | Inr (s, _) \<Rightarrow> Ok (observe_fields s)))"

definition undelimited_document :: "string \<Rightarrow> observed_skill_document" where
  "undelimited_document source =
     \<lparr>od_frontmatter = [], od_declared_name = None, od_description = None, od_license = None,
      od_compatibility = None, od_metadata = None, od_allowed_tools = None, od_body = source,
      od_native_fields = []\<rparr>"

definition parse_observed_skill_document :: "yaml_parser \<Rightarrow> string \<Rightarrow> observed_skill_document result" where
  "parse_observed_skill_document yaml bytes =
     (if length bytes > MAX_SKILL_DOCUMENT_BYTES then Err ''skill.document_size_limit''
      else if \<not> is_utf8 bytes then Err ''skill.frontmatter_invalid''
      else case split_frontmatter bytes of
        Inl e \<Rightarrow>
          if failure_code e = ''skill.frontmatter_missing'' \<and> \<not> starts_frontmatter_delimiter bytes
          then Ok (undelimited_document bytes) else Inl e
      | Inr (frontmatter, body) \<Rightarrow>
          bind_result (parse_frontmatter yaml frontmatter) (\<lambda>observed. Ok (observed\<lparr>od_body := body\<rparr>)))"

section \<open>Field grammars\<close>

definition is_standard_skill_name :: "string \<Rightarrow> bool" where
  "is_standard_skill_name value \<longleftrightarrow>
     value \<noteq> [] \<and> length value \<le> 64 \<and> hd value \<noteq> CHR ''-'' \<and> last value \<noteq> CHR ''-''
     \<and> \<not> contains_double_hyphen value
     \<and> list_all (\<lambda>b. is_ascii_lowercase b \<or> is_ascii_digit b \<or> b = CHR ''-'') value"

definition is_standard_skill_description :: "string \<Rightarrow> bool" where
  "is_standard_skill_description value \<longleftrightarrow> 1 \<le> length (str_chars value) \<and> length (str_chars value) \<le> 1024"

definition terminal_credential_concept :: "string \<Rightarrow> bool" where
  "terminal_credential_concept component \<longleftrightarrow>
     component \<in> set [''token'', ''tokens'', ''secret'', ''secrets'', ''password'', ''passwords'',
                      ''credential'', ''credentials'']"

definition key_components :: "string \<Rightarrow> string list" where
  "key_components key =
     map (map to_ascii_lowercase)
       (filter (\<lambda>c. c \<noteq> []) (split_where (\<lambda>c. is_ascii_whitespace c \<or> c = CHR ''-'' \<or> c = CHR ''_'') key))"

definition secret_metadata_key :: "string \<Rightarrow> bool" where
  "secret_metadata_key key =
     (let components = key_components key; compact = concat components
      in if compact \<in> set [''token'', ''tokens'', ''secret'', ''secrets'', ''password'', ''passwords'',
                           ''credential'', ''credentials'', ''privatekey'', ''privatekeys'', ''apikey'', ''apikeys'']
         then True
         else if components \<noteq> [] \<and> terminal_credential_concept (last components) then True
         else case rev components of
             key # qualifier # _ \<Rightarrow> qualifier \<in> set [''api'', ''private''] \<and> key \<in> set [''key'', ''keys'']
           | _ \<Rightarrow> False)"

definition reject_secret_metadata_keys :: "(string, string) btree_map \<Rightarrow> unit result" where
  "reject_secret_metadata_keys metadata =
     (if list_ex secret_metadata_key (bt_keys metadata) then Err ''skill.credential_metadata'' else Ok ())"

section \<open>Portable documents\<close>

record skill_manifest =
  sk_name :: string
  sk_description :: string
  sk_license :: "string option"
  sk_compatibility :: "string option"
  sk_metadata :: "(string, string) btree_map"
  sk_allowed_tools :: "string option"

record parsed_skill_document =
  psd_manifest :: skill_manifest
  psd_body :: string
  psd_native_fields :: "string btree_set"

definition parsed_name :: "observed_skill_document \<Rightarrow> string result" where
  "parsed_name observed =
     bind_result (ok_or ''skill.name_invalid'' (od_declared_name observed)) (\<lambda>name.
       if \<not> is_standard_skill_name name then Err ''skill.name_invalid''
       else map_err ''skill.name_invalid'' (identifier_parse name))"

definition parsed_description :: "observed_skill_document \<Rightarrow> string result" where
  "parsed_description observed =
     bind_result (ok_or ''skill.description_invalid'' (od_description observed)) (\<lambda>description.
       if \<not> is_standard_skill_description description then Err ''skill.description_invalid'' else Ok description)"

definition parsed_compatibility :: "observed_skill_document \<Rightarrow> string option result" where
  "parsed_compatibility observed =
     (if bt_has (od_frontmatter observed) ''compatibility'' \<and> od_compatibility observed = None
      then Err ''skill.compatibility_invalid''
      else if (case od_compatibility observed of
                 Some v \<Rightarrow> v = [] \<or> length (str_chars v) > 500 | None \<Rightarrow> False)
      then Err ''skill.compatibility_invalid''
      else Ok (od_compatibility observed))"

definition parsed_metadata :: "observed_skill_document \<Rightarrow> (string, string) btree_map result" where
  "parsed_metadata observed =
     bind_result
       (case od_metadata observed of
          Some metadata \<Rightarrow> Ok metadata
        | None \<Rightarrow> if bt_has (od_frontmatter observed) ''metadata'' then Err ''skill.metadata_invalid'' else Ok [])
       (\<lambda>metadata. and_then (reject_secret_metadata_keys metadata) (Ok metadata))"

definition parse_skill_document :: "yaml_parser \<Rightarrow> string \<Rightarrow> parsed_skill_document result" where
  "parse_skill_document yaml bytes =
     bind_result (parse_observed_skill_document yaml bytes) (\<lambda>observed.
       if \<not> starts_frontmatter_delimiter bytes then Err ''skill.frontmatter_missing''
       else bind_result (parsed_name observed) (\<lambda>name.
       bind_result (parsed_description observed) (\<lambda>description.
       if bt_has (od_frontmatter observed) ''license'' \<and> od_license observed = None
       then Err ''skill.frontmatter_invalid''
       else bind_result (parsed_compatibility observed) (\<lambda>compatibility.
       bind_result (parsed_metadata observed) (\<lambda>metadata.
       if bt_has (od_frontmatter observed) ''allowed-tools'' \<and> od_allowed_tools observed = None
       then Err ''skill.frontmatter_invalid''
       else Ok \<lparr>psd_manifest = \<lparr>sk_name = name, sk_description = description, sk_license = od_license observed,
                  sk_compatibility = compatibility, sk_metadata = metadata,
                  sk_allowed_tools = od_allowed_tools observed\<rparr>,
                psd_body = od_body observed, psd_native_fields = od_native_fields observed\<rparr>)))))"

section \<open>Splitting is exact\<close>

definition unlines :: "string list \<Rightarrow> string" where
  "unlines ls = concat (map (\<lambda>l. l @ [CHR 0x0A]) ls)"

definition delimiter_line :: "string \<Rightarrow> bool" where
  "delimiter_line l \<longleftrightarrow> l = ''---'' \<or> l = ''---'' @ [CHR 0x0D]"

definition content_line :: "string \<Rightarrow> bool" where
  "content_line l \<longleftrightarrow> CHR 0x0A \<notin> set l \<and> \<not> delimiter_line l"

lemma unlines_simps [simp]: "unlines [] = []" "unlines (l # ls) = l @ CHR 0x0A # unlines ls"
  by (simp_all add: unlines_def)

lemma strip_delimiter: "strip_carriage_return l = ''---'' \<longleftrightarrow> delimiter_line l"
proof (cases "strip_suffix [CHR 0x0D] l")
  case None
  then have "l \<noteq> ''---'' @ [CHR 0x0D]" using strip_suffix_Some_iff[of "[CHR 0x0D]" l "''---''"] by auto
  then show ?thesis using None by (simp add: strip_carriage_return_def delimiter_line_def)
next
  case (Some r)
  then have "l = r @ [CHR 0x0D]" by (simp add: strip_suffix_Some_iff)
  then show ?thesis using Some by (simp add: strip_carriage_return_def delimiter_line_def)
qed

definition closes :: "string \<Rightarrow> string \<Rightarrow> string \<Rightarrow> bool" where
  "closes rest f b \<longleftrightarrow> (\<exists>ls l. f = unlines ls \<and> list_all content_line ls \<and> delimiter_line l
     \<and> (rest = f @ l @ CHR 0x0A # b \<or> rest = f @ l \<and> b = []))"

lemma delimiter_no_newline: "delimiter_line l \<Longrightarrow> CHR 0x0A \<notin> set l"
  by (auto simp: delimiter_line_def)

lemma split_once_line: "CHR 0x0A \<notin> set l \<Longrightarrow> split_once CHR 0x0A (l @ CHR 0x0A # r) = Some (l, r)"
  by (simp add: split_once_Some_iff)

lemma closes_line:
  assumes "split_once CHR 0x0A rest = Some (line, after)"
  shows "closes rest f b \<longleftrightarrow>
    (if delimiter_line line then f = [] \<and> b = after else \<exists>g. f = line @ CHR 0x0A # g \<and> closes after g b)"
proof -
  have rest: "rest = line @ CHR 0x0A # after" "CHR 0x0A \<notin> set line"
    using assms by (auto simp: split_once_Some_iff)
  have head: "line = l \<and> after = r" if "rest = l @ CHR 0x0A # r" "CHR 0x0A \<notin> set l" for l r
    using split_once_line[OF that(2), of r] that(1) assms by simp
  show ?thesis
  proof
    assume "closes rest f b"
    then obtain ls l where c: "f = unlines ls" "list_all content_line ls" "delimiter_line l"
      "rest = f @ l @ CHR 0x0A # b \<or> rest = f @ l \<and> b = []" by (auto simp: closes_def)
    show "if delimiter_line line then f = [] \<and> b = after else \<exists>g. f = line @ CHR 0x0A # g \<and> closes after g b"
    proof (cases ls)
      case Nil
      have "rest \<noteq> l" using rest(1) delimiter_no_newline[OF c(3)] by auto
      then have "rest = l @ CHR 0x0A # b" using c Nil by auto
      then show ?thesis using head[of l b] c(1,3) Nil delimiter_no_newline by auto
    next
      case (Cons k ks)
      then have k: "CHR 0x0A \<notin> set k" "\<not> delimiter_line k" using c(2) by (auto simp: content_line_def)
      from c(1,4) Cons have "rest = k @ CHR 0x0A # (unlines ks @ l @ CHR 0x0A # b)
          \<or> rest = k @ CHR 0x0A # (unlines ks @ l) \<and> b = []" by auto
      then have "line = k \<and> (after = unlines ks @ l @ CHR 0x0A # b \<or> after = unlines ks @ l \<and> b = [])"
        using head k(1) by blast
      then show ?thesis using c Cons k by (auto simp: closes_def)
    qed
  next
    assume r: "if delimiter_line line then f = [] \<and> b = after else \<exists>g. f = line @ CHR 0x0A # g \<and> closes after g b"
    show "closes rest f b"
    proof (cases "delimiter_line line")
      case True
      then show ?thesis unfolding closes_def using r rest by (intro exI[of _ "[]"] exI[of _ line]) simp
    next
      case False
      then obtain g ls l where "f = line @ CHR 0x0A # g" "g = unlines ls" "list_all content_line ls" "delimiter_line l"
        "after = g @ l @ CHR 0x0A # b \<or> after = g @ l \<and> b = []" using r by (auto simp: closes_def)
      then show ?thesis unfolding closes_def using rest False
        by (intro exI[of _ "line # ls"] exI[of _ l]) (auto simp: content_line_def)
    qed
  qed
qed

lemma closes_last_line:
  assumes "split_once CHR 0x0A rest = None"
  shows "closes rest f b \<longleftrightarrow> delimiter_line rest \<and> f = [] \<and> b = []"
proof -
  have no: "CHR 0x0A \<notin> set rest" using assms by (simp add: split_once_None_iff)
  show ?thesis
  proof
    assume "closes rest f b"
    then obtain ls l where c: "f = unlines ls" "delimiter_line l"
      "rest = f @ l @ CHR 0x0A # b \<or> rest = f @ l \<and> b = []" by (auto simp: closes_def)
    then have "ls = []" using no by (cases ls) auto
    then show "delimiter_line rest \<and> f = [] \<and> b = []" using c no by auto
  next
    assume "delimiter_line rest \<and> f = [] \<and> b = []"
    then show "closes rest f b" unfolding closes_def by (intro exI[of _ "[]"] exI[of _ rest]) simp
  qed
qed

lemma find_closing_exact: "find_closing before rest = Ok (g, b) \<longleftrightarrow> (\<exists>f. g = before @ f \<and> closes rest f b)"
proof (induction "length rest" arbitrary: before rest rule: less_induct)
  case less
  show ?case
  proof (cases "split_once CHR 0x0A rest")
    case None
    then show ?thesis by (subst find_closing.simps) (auto simp: closes_last_line strip_delimiter)
  next
    case (Some p)
    obtain line after where p: "p = (line, after)" by (cases p)
    have "length after < length rest" using split_once_length Some p by blast
    then have "find_closing (before @ line @ [CHR 0x0A]) after = Ok (g, b) \<longleftrightarrow>
        (\<exists>f. g = (before @ line @ [CHR 0x0A]) @ f \<and> closes after f b)" by (rule less)
    then show ?thesis using closes_line[OF Some[unfolded p]] Some p
      by (subst find_closing.simps) (auto simp: strip_delimiter)
  qed
qed

lemma split_frontmatter_delimiter: "split_frontmatter s = Ok (f, b) \<Longrightarrow> starts_frontmatter_delimiter s"
  by (auto simp: split_frontmatter_def starts_frontmatter_delimiter_def split: if_splits)

lemma parse_skill_document_Ok:
  assumes "parse_skill_document yaml bytes = Ok d"
  shows "\<exists>observed. parse_observed_skill_document yaml bytes = Ok observed \<and> starts_frontmatter_delimiter bytes
    \<and> parsed_name observed = Ok (sk_name (psd_manifest d))
    \<and> parsed_description observed = Ok (sk_description (psd_manifest d))
    \<and> parsed_compatibility observed = Ok (sk_compatibility (psd_manifest d))
    \<and> parsed_metadata observed = Ok (sk_metadata (psd_manifest d))
    \<and> psd_body d = od_body observed \<and> psd_native_fields d = od_native_fields observed"
  using assms by (auto simp: parse_skill_document_def bind_result_Ok_iff split: if_splits)

lemma standard_name_identifier: "is_standard_skill_name v \<Longrightarrow> validate_identifier v = Ok ()"
  by (cases v) (auto simp: is_standard_skill_name_def validate_identifier_def identifier_tail_char_def list_all_iff)

lemma observed_parts:
  assumes "parse_observed_skill_document yaml bytes = Ok observed" "starts_frontmatter_delimiter bytes"
  shows "length bytes \<le> MAX_SKILL_DOCUMENT_BYTES \<and> is_utf8 bytes \<and>
    (\<exists>f es n s. split_frontmatter bytes = Ok (f, od_body observed) \<and> yaml f = Some es
      \<and> read_frontmatter (contains_yaml_alias_reference f) es = Inr (s, n)
      \<and> od_native_fields observed = fs_native_fields s)"
  using assms
  by (auto simp: parse_observed_skill_document_def parse_frontmatter_def observe_fields_def bind_result_Ok_iff
      split: if_splits sum.splits option.splits)

section \<open>Properties\<close>

text \<open>A document splits into frontmatter and body exactly when it opens with a delimiter line, the
  frontmatter consists of whole lines none of which is a delimiter, and a delimiter line follows; the
  body is everything after that line, or empty where the document ends with it.\<close>

theorem frontmatter_split_is_exact:
  "split_frontmatter source = Ok (f, b) \<longleftrightarrow>
     (\<exists>opening ls closing. delimiter_line opening \<and> delimiter_line closing \<and> list_all content_line ls \<and> f = unlines ls
        \<and> (source = opening @ CHR 0x0A # f @ closing @ CHR 0x0A # b
           \<or> source = opening @ CHR 0x0A # f @ closing \<and> b = []))"
proof -
  have rest: "split_frontmatter source = Ok (f, b) \<longleftrightarrow>
      (\<exists>opening rest. delimiter_line opening \<and> source = opening @ CHR 0x0A # rest \<and> closes rest f b)"
    by (auto simp: split_frontmatter_def starts_with_iff delimiter_line_def find_closing_exact)
  show ?thesis unfolding rest closes_def by blast
qed

text \<open>A portable skill name is at most 64 bytes of nonempty words of lowercase letters and digits
  joined by single hyphens, and every such name is an asset identifier.\<close>

theorem skill_names_are_hyphenated_identifiers:
  "(is_standard_skill_name v \<longleftrightarrow> length v \<le> 64 \<and> (\<exists>ws. ws \<noteq> [] \<and> list_all mcp_word ws \<and> v = join_with ''-'' ws))
   \<and> (is_standard_skill_name v \<longrightarrow> identifier_parse v = Ok v)"
proof (intro conjI iffI impI)
  assume v: "is_standard_skill_name v"
  then show "length v \<le> 64" by (simp add: is_standard_skill_name_def)
  have "list_all mcp_word (split_on CHR ''-'' v)"
    using v by (intro mcp_chars_words) (simp_all add: is_standard_skill_name_def)
  then show "\<exists>ws. ws \<noteq> [] \<and> list_all mcp_word ws \<and> v = join_with ''-'' ws"
    using join_split_on[of "CHR ''-''" v] by (intro exI[of _ "split_on CHR ''-'' v"]) simp
  show "identifier_parse v = Ok v" using standard_name_identifier[OF v] by (simp add: identifier_parse_Ok_iff)
next
  assume "length v \<le> 64 \<and> (\<exists>ws. ws \<noteq> [] \<and> list_all mcp_word ws \<and> v = join_with ''-'' ws)"
  then show "is_standard_skill_name v" using mcp_words_chars by (auto simp: is_standard_skill_name_def)
qed

theorem skill_names_are_hyphenated_identifiers_witness:
  "is_standard_skill_name ''code-review-2'' \<and> identifier_parse ''code-review-2'' = Ok ''code-review-2''"
proof -
  have "is_standard_skill_name ''code-review-2''" by code_simp
  then show ?thesis using skill_names_are_hyphenated_identifiers[of "''code-review-2''"] by blast
qed

text \<open>A document the portable parser accepts is valid UTF-8 within the size limit and opens with a
  delimiter; its name is a standard name, its description has 1 to 1024 characters, its compatibility
  note 1 to 500, no metadata key names a secret, its body is the text after the frontmatter, unchanged,
  and the frontmatter was within the depth and node budget of the reader.\<close>

theorem portable_documents_meet_the_standard:
  assumes "parse_skill_document yaml bytes = Ok d"
  shows "length bytes \<le> MAX_SKILL_DOCUMENT_BYTES \<and> is_utf8 bytes \<and> starts_frontmatter_delimiter bytes
    \<and> is_standard_skill_name (sk_name (psd_manifest d)) \<and> is_standard_skill_description (sk_description (psd_manifest d))
    \<and> list_all (\<lambda>k. \<not> secret_metadata_key k) (bt_keys (sk_metadata (psd_manifest d)))
    \<and> (\<forall>c. sk_compatibility (psd_manifest d) = Some c \<longrightarrow> c \<noteq> [] \<and> length (str_chars c) \<le> 500)
    \<and> (\<exists>f es. split_frontmatter bytes = Ok (f, psd_body d) \<and> yaml f = Some es
        \<and> node_within 0 (NodeMap es) \<and> node_cost (NodeMap es) \<le> MAX_YAML_NODES
        \<and> psd_native_fields d = bs_collect (filter (\<lambda>k. \<not> is_standard_field k) (entry_keys es)))"
proof -
  obtain o' where o': "parse_observed_skill_document yaml bytes = Ok o'" "starts_frontmatter_delimiter bytes"
    and name: "parsed_name o' = Ok (sk_name (psd_manifest d))"
    and description: "parsed_description o' = Ok (sk_description (psd_manifest d))"
    and compatibility: "parsed_compatibility o' = Ok (sk_compatibility (psd_manifest d))"
    and metadata: "parsed_metadata o' = Ok (sk_metadata (psd_manifest d))"
    and body: "psd_body d = od_body o'" "psd_native_fields d = od_native_fields o'"
    using parse_skill_document_Ok[OF assms] by blast
  obtain f es n s where f: "split_frontmatter bytes = Ok (f, od_body o')" "yaml f = Some es"
    and s: "read_frontmatter (contains_yaml_alias_reference f) es = Inr (s, n)" "od_native_fields o' = fs_native_fields s"
    and size: "length bytes \<le> MAX_SKILL_DOCUMENT_BYTES" "is_utf8 bytes"
    using observed_parts[OF o'] by blast
  have "is_standard_skill_name (sk_name (psd_manifest d))"
    using name by (auto simp: parsed_name_def bind_result_Ok_iff map_err_Ok_iff identifier_parse_Ok_iff split: if_splits)
  moreover have "is_standard_skill_description (sk_description (psd_manifest d))"
    using description by (auto simp: parsed_description_def bind_result_Ok_iff split: if_splits)
  moreover have "list_all (\<lambda>k. \<not> secret_metadata_key k) (bt_keys (sk_metadata (psd_manifest d)))"
    using metadata by (auto simp: parsed_metadata_def reject_secret_metadata_keys_def bind_result_Ok_iff and_then_Ok_iff
        list_all_iff list_ex_iff split: if_splits)
  moreover have "\<forall>c. sk_compatibility (psd_manifest d) = Some c \<longrightarrow> c \<noteq> [] \<and> length (str_chars c) \<le> 500"
    using compatibility by (auto simp: parsed_compatibility_def split: if_splits)
  ultimately show ?thesis using o'(2) f s size body by (auto simp: read_frontmatter_Inr keys_read_def bs_collect_def)
qed

definition sample_yaml :: yaml_parser where
  "sample_yaml source = Some [(NodeText ''name'', NodeText ''lint''), (NodeText ''description'', NodeText ''Lints''),
     (NodeText ''model'', NodeNull)]"

definition sample_document :: string where
  "sample_document = ''---'' @ [CHR 0x0A] @ ''name: lint'' @ [CHR 0x0A] @ ''---'' @ [CHR 0x0A] @ ''Run.''"

definition sample_parsed :: parsed_skill_document where
  "sample_parsed =
     \<lparr>psd_manifest = \<lparr>sk_name = ''lint'', sk_description = ''Lints'', sk_license = None, sk_compatibility = None,
        sk_metadata = [], sk_allowed_tools = None\<rparr>, psd_body = ''Run.'', psd_native_fields = [''model'']\<rparr>"

theorem portable_documents_meet_the_standard_witness:
  "is_standard_skill_name ''lint'' \<and> node_cost (NodeMap (the (sample_yaml []))) \<le> MAX_YAML_NODES"
proof -
  have "split_frontmatter sample_document = Ok (''name: lint'' @ [CHR 0x0A], ''Run.'')"
    by (simp add: split_frontmatter_def sample_document_def starts_with_def find_closing.simps
        strip_carriage_return_def strip_suffix_def ends_with_def)
  moreover have "length sample_document \<le> MAX_SKILL_DOCUMENT_BYTES" "is_utf8 sample_document"
    "starts_frontmatter_delimiter sample_document"
    by (simp_all add: sample_document_def MAX_SKILL_DOCUMENT_BYTES_def is_utf8_def starts_frontmatter_delimiter_def
        starts_with_def)
  moreover have "\<not> contains_yaml_alias_reference (''name: lint'' @ [CHR 0x0A])"
    using alias_reference_asterisk by fastforce
  moreover have "read_frontmatter False (the (sample_yaml [])) = Inr
      (\<lparr>fs_frontmatter = [(''description'', YamlString ''Lints''), (''model'', YamlNull), (''name'', YamlString ''lint'')],
        fs_native_fields = [''model''], fs_keys = [''description'', ''model'', ''name'']\<rparr>, 7)"
    by (simp add: sample_yaml_def read_frontmatter_def read_key_def read_value.simps yaml_claim_def MAX_YAML_DEPTH_def
        MAX_YAML_NODES_def key_failure_def is_standard_field_def bs_has_def)
  ultimately have "parse_observed_skill_document sample_yaml sample_document = Ok
      ((observe_fields \<lparr>fs_frontmatter = [(''description'', YamlString ''Lints''), (''model'', YamlNull), (''name'', YamlString ''lint'')],
        fs_native_fields = [''model''], fs_keys = [''description'', ''model'', ''name'']\<rparr>)\<lparr>od_body := ''Run.''\<rparr>)"
    by (simp add: parse_observed_skill_document_def parse_frontmatter_def sample_yaml_def)
  then have "parse_skill_document sample_yaml sample_document = Ok sample_parsed"
    using \<open>starts_frontmatter_delimiter sample_document\<close>
    by (simp add: parse_skill_document_def observe_fields_def string_field_def string_mapping_field_def parsed_name_def
        parsed_description_def parsed_compatibility_def parsed_metadata_def reject_secret_metadata_keys_def sample_parsed_def
        is_standard_skill_name_def is_standard_skill_description_def str_chars_def bt_get_def bt_has_def bt_keys_def
        identifier_parse_def validate_identifier_def identifier_tail_char_def char_class_defs)
  from portable_documents_meet_the_standard[OF this] show ?thesis
    by (auto simp: sample_parsed_def sample_yaml_def)
qed

end
