(* ===== verification/Skill_Risk.thy ===== *)
theory Skill_Risk
  imports Skill_Trees Skill_Documents Credential_Risk
begin

text \<open>
  \<open>kitrove-agent-skills/src/risk.rs\<close>: which captured trees are refused because they carry credentials,
  and which are executable.
\<close>

section \<open>Credential artifacts\<close>

definition private_key_markers :: "string list" where
  "private_key_markers =
     [''BEGIN PRIVATE KEY'', ''BEGIN ENCRYPTED PRIVATE KEY'', ''BEGIN RSA PRIVATE KEY'', ''BEGIN EC PRIVATE KEY'',
      ''BEGIN OPENSSH PRIVATE KEY'']"

definition executable_extensions :: "string list" where
  "executable_extensions =
     [''.sh'', ''.bash'', ''.zsh'', ''.fish'', ''.ps1'', ''.bat'', ''.cmd'', ''.exe'', ''.dll'', ''.dylib'', ''.so'',
      ''.wasm'', ''.bin'', ''.py'', ''.js'', ''.mjs'', ''.cjs'', ''.ts'', ''.jar'']"

definition executable_magics :: "string list" where
  "executable_magics =
     [[CHR 0x7F, CHR ''E'', CHR ''L'', CHR ''F''], ''MZ'',
      [CHR 0xFE, CHR 0xED, CHR 0xFA, CHR 0xCE], [CHR 0xCE, CHR 0xFA, CHR 0xED, CHR 0xFE],
      [CHR 0xFE, CHR 0xED, CHR 0xFA, CHR 0xCF], [CHR 0xCF, CHR 0xFA, CHR 0xED, CHR 0xFE],
      [CHR 0xCA, CHR 0xFE, CHR 0xBA, CHR 0xBE], [CHR 0xBE, CHR 0xBA, CHR 0xFE, CHR 0xCA],
      [CHR 0x00, CHR ''a'', CHR ''s'', CHR ''m'']]"

definition lowercase :: "string \<Rightarrow> string" where
  "lowercase s = map to_ascii_lowercase s"

text \<open>\<open>path.rsplit('/').next()\<close>: the text after the last slash.\<close>

definition path_basename :: "string \<Rightarrow> string" where
  "path_basename path = last (split_on CHR ''/'' path)"

text \<open>\<open>windows(2).any(|pair| pair == [a, b])\<close>.\<close>

fun adjacent :: "'a \<Rightarrow> 'a \<Rightarrow> 'a list \<Rightarrow> bool" where
  "adjacent a b (x # y # zs) = ((x = a \<and> y = b) \<or> adjacent a b (y # zs))"
| "adjacent a b _ = False"

definition credential_like_path :: "string \<Rightarrow> bool" where
  "credential_like_path path =
     (let components = map lowercase (split_on CHR ''/'' path); basename = lowercase (path_basename path)
      in basename = ''.env'' \<or> starts_with ''.env.'' basename
         \<or> basename \<in> set [''auth.json'', ''.credentials.json'', ''credentials.json'', ''id_rsa'', ''id_ed25519'',
                           ''.netrc'', ''.git-credentials'', ''.npmrc'', ''.pypirc'']
         \<or> adjacent ''.aws'' ''credentials'' components)"

text \<open>\<open>windows(marker.len()).any(|window| window == marker)\<close> for a nonempty marker.\<close>

fun contains_window :: "string \<Rightarrow> string \<Rightarrow> bool" where
  "contains_window marker [] = False"
| "contains_window marker (b # bs) = (starts_with marker (b # bs) \<or> contains_window marker bs)"

definition contains_private_key_marker :: "string \<Rightarrow> bool" where
  "contains_private_key_marker bytes = list_ex (\<lambda>marker. contains_window marker bytes) private_key_markers"

definition reject_credential_artifact :: "string \<times> captured_file \<Rightarrow> unit result" where
  "reject_credential_artifact e =
     (case e of (path, file) \<Rightarrow>
        if credential_like_path path then Err ''skill.credential_artifact''
        else if contains_private_key_marker (cf_bytes file) then Err ''skill.credential_artifact''
        else if contains_credential_shaped_bytes (cf_bytes file) then Err ''skill.credential_artifact''
        else Ok ())"

definition reject_credential_artifacts :: "captured_tree \<Rightarrow> unit result" where
  "reject_credential_artifacts exact = try_each reject_credential_artifact (ct_files exact)"

section \<open>Executable content\<close>

definition executable_extension :: "string \<Rightarrow> bool" where
  "executable_extension path = list_ex (\<lambda>extension. ends_with extension (lowercase (path_basename path))) executable_extensions"

definition executable_signature :: "string \<Rightarrow> bool" where
  "executable_signature bytes \<longleftrightarrow> starts_with ''#!'' bytes \<or> list_ex (\<lambda>magic. starts_with magic bytes) executable_magics"

definition executable_file :: "string \<times> captured_file \<Rightarrow> bool" where
  "executable_file e =
     (case e of (path, file) \<Rightarrow>
        cf_mode file = ExecutableFile \<or> starts_with ''scripts/'' path \<or> executable_extension path
        \<or> executable_signature (cf_bytes file))"

definition executable_field :: "string \<Rightarrow> bool" where
  "executable_field field \<longleftrightarrow>
     lowercase field \<in> set [''plugin'', ''plugins'', ''extension'', ''extensions'', ''setup'', ''install'', ''installer'',
                            ''command'', ''commands'', ''hook'', ''hooks'', ''lifecycle'']"

definition classify_tree :: "captured_tree \<Rightarrow> string btree_set \<Rightarrow> content_class" where
  "classify_tree exact native_fields =
     (if list_ex executable_file (ct_files exact) \<or> list_ex executable_field native_fields
      then Executable else AgentActive)"

section \<open>Assessments\<close>

definition assess_portable_tree_risk :: "captured_tree \<Rightarrow> content_class result" where
  "assess_portable_tree_risk exact = and_then (reject_credential_artifacts exact) (Ok (classify_tree exact []))"

definition assess_native_executable_tree_risk :: "captured_tree \<Rightarrow> content_class result" where
  "assess_native_executable_tree_risk exact = and_then (reject_credential_artifacts exact) (Ok Executable)"

definition assess_native_skill_object_risk :: "yaml_parser \<Rightarrow> native_skill_object \<Rightarrow> content_class result" where
  "assess_native_skill_object_risk yaml obj =
     and_then (reject_credential_artifacts (no_tree obj))
     (bind_result (map_err ''native_object.document_invalid'' (portable_path_parse (no_original_document_name obj)))
        (\<lambda>document_path.
      bind_result (ok_or ''native_object.document_missing'' (bt_get (ct_files (no_tree obj)) document_path)) (\<lambda>document.
      bind_result (parse_observed_skill_document yaml (cf_bytes document)) (\<lambda>observed.
        if bt_has (od_frontmatter observed) ''metadata'' \<and> od_metadata observed = None then Err ''skill.metadata_invalid''
        else and_then (case od_metadata observed of Some m \<Rightarrow> reject_secret_metadata_keys m | None \<Rightarrow> Ok ())
               (Ok (classify_tree (no_tree obj) (od_native_fields observed)))))))"

section \<open>What the assessments say\<close>

definition credential_free :: "captured_tree \<Rightarrow> bool" where
  "credential_free t \<longleftrightarrow> (\<forall>(path, file)\<in>set (ct_files t).
     \<not> credential_like_path path \<and> \<not> contains_private_key_marker (cf_bytes file)
     \<and> \<not> contains_credential_shaped_bytes (cf_bytes file))"

lemma reject_credential_artifacts_iff: "reject_credential_artifacts t = Ok () \<longleftrightarrow> credential_free t"
  unfolding reject_credential_artifacts_def credential_free_def try_each_Ok_iff
  by (rule ball_cong) (auto simp: reject_credential_artifact_def split: if_splits)

lemma reject_credential_artifacts_Err:
  "reject_credential_artifacts t = (if credential_free t then Ok () else Err ''skill.credential_artifact'')"
proof -
  have "try_each reject_credential_artifact es = Ok () \<or> try_each reject_credential_artifact es = Err ''skill.credential_artifact''" for es
    by (induction es) (auto simp: reject_credential_artifact_def split: prod.splits)
  then show ?thesis using reject_credential_artifacts_iff[of t] by (fastforce simp: reject_credential_artifacts_def)
qed

lemma portable_risk_iff:
  "assess_portable_tree_risk t = Ok c \<longleftrightarrow> credential_free t \<and> c = classify_tree t []"
  by (auto simp: assess_portable_tree_risk_def reject_credential_artifacts_Err)

lemma executable_risk_iff:
  "assess_native_executable_tree_risk t = Ok c \<longleftrightarrow> credential_free t \<and> c = Executable"
  by (auto simp: assess_native_executable_tree_risk_def reject_credential_artifacts_Err)

lemma native_risk_Ok:
  "assess_native_skill_object_risk yaml obj = Ok c \<Longrightarrow>
     credential_free (no_tree obj) \<and> (\<exists>native. c = classify_tree (no_tree obj) native)"
  by (auto simp: assess_native_skill_object_risk_def reject_credential_artifacts_Err bind_result_Ok_iff and_then_Ok_iff
      split: if_splits)

lemma classify_tree_monotone:
  "list_ex executable_file (ct_files t) \<Longrightarrow> classify_tree t native = Executable"
  "classify_tree t native \<noteq> DataOnly"
  by (simp_all add: classify_tree_def)

lemma contains_window_iff: "m \<noteq> [] \<Longrightarrow> contains_window m s \<longleftrightarrow> (\<exists>a b. s = a @ m @ b)"
proof (induction s)
  case (Cons x s)
  show ?case
  proof
    assume "contains_window m (x # s)"
    then show "\<exists>a b. x # s = a @ m @ b"
      using Cons by (auto simp: starts_with_iff intro: exI[of _ "[]"]) (metis append_Cons)
  next
    assume "\<exists>a b. x # s = a @ m @ b"
    then obtain a b where ab: "x # s = a @ m @ b" by blast
    show "contains_window m (x # s)"
    proof (cases a)
      case Nil
      then have "starts_with m (x # s)" using ab starts_with_iff[of m "x # s"] by auto
      then show ?thesis by simp
    next
      case (Cons y ys)
      then have "s = ys @ m @ b" using ab by simp
      then show ?thesis using Cons.IH Cons.prems by auto
    qed
  qed
qed simp

section \<open>Properties\<close>

text \<open>C39: The assessment of a portable tree is exact: it is refused, with one code, exactly when some file
  has a credential-like path or contains, at any offset, a private key marker or a token of credential
  shape; otherwise it is executable exactly when some file is, and agent-active in every other case.\<close>

theorem portable_tree_assessment_is_exact:
  "assess_portable_tree_risk t =
     (if \<exists>(path, file)\<in>set (ct_files t). credential_like_path path
         \<or> (\<exists>marker\<in>set private_key_markers. \<exists>a b. cf_bytes file = a @ marker @ b)
         \<or> (\<exists>token\<in>set (split_tokens (cf_bytes file)). is_credential_shaped token)
      then Err ''skill.credential_artifact''
      else Ok (if \<exists>e\<in>set (ct_files t). executable_file e then Executable else AgentActive))"
proof -
  have "contains_private_key_marker s \<longleftrightarrow> (\<exists>marker\<in>set private_key_markers. \<exists>a b. s = a @ marker @ b)" for s
  proof -
    have "marker \<noteq> []" if "marker \<in> set private_key_markers" for marker
      using that by (auto simp: private_key_markers_def)
    then show ?thesis by (auto simp: contains_private_key_marker_def list_ex_iff contains_window_iff)
  qed
  then have "credential_free t \<longleftrightarrow> \<not> (\<exists>(path, file)\<in>set (ct_files t). credential_like_path path
         \<or> (\<exists>marker\<in>set private_key_markers. \<exists>a b. cf_bytes file = a @ marker @ b)
         \<or> (\<exists>token\<in>set (split_tokens (cf_bytes file)). is_credential_shaped token))"
    by (simp add: credential_free_def contains_credential_shaped_bytes_def list_ex_iff split_def)
  then show ?thesis
    by (simp add: assess_portable_tree_risk_def reject_credential_artifacts_Err classify_tree_def list_ex_iff)
qed

end
