(* ===== verification/Native_Extensions.thy ===== *)
theory Native_Extensions
  imports Skill_Risk
begin

text \<open>
  \<open>kitrove-core/src/native_extension.rs\<close>: the storage envelope of an origin-native extension, whose
  payload is never parsed or executed.
\<close>

definition MAX_METADATA_BYTES :: nat where
  "MAX_METADATA_BYTES = 4 * 1024 * 1024"

datatype native_extension_layout = StandaloneExtension | DirectoryExtension

definition valid_native_extension_identity ::
  "native_extension_layout \<Rightarrow> string \<Rightarrow> string \<Rightarrow> string \<Rightarrow> bool" where
  "valid_native_extension_identity layout entrypoint native_id destination_leaf =
     (if (case identifier_parse native_id of Inl _ \<Rightarrow> True | Inr _ \<Rightarrow> False) then False
      else case layout of
        StandaloneExtension \<Rightarrow> entrypoint = native_id @ ''.ts'' \<and> destination_leaf = entrypoint
      | DirectoryExtension \<Rightarrow> entrypoint = ''index.ts'' \<and> destination_leaf = native_id)"

record native_extension_object =
  ne_harness :: harness_id
  ne_layout :: native_extension_layout
  ne_entrypoint :: string
  ne_native_id :: string
  ne_tree :: captured_tree
  ne_hash :: string

record extension_stored_metadata =
  esm_schema_version :: nat
  esm_harness :: harness_id
  esm_layout :: native_extension_layout
  esm_entrypoint :: string
  esm_native_id :: string
  esm_tree_metadata :: string

definition validate_extension_shape :: "native_extension_layout \<Rightarrow> string \<Rightarrow> captured_tree \<Rightarrow> unit result" where
  "validate_extension_shape layout entrypoint tree =
     bind_result (map_err ''native_extension.invalid_entrypoint'' (portable_path_parse entrypoint)) (\<lambda>entry.
       if CHR ''/'' \<in> set entrypoint \<or> \<not> ends_with ''.ts'' entrypoint \<or> entrypoint = ''index.d.ts''
       then Err ''native_extension.invalid_entrypoint''
       else if \<not> bt_has (ct_files tree) entry then Err ''native_extension.entrypoint_missing''
       else if layout = StandaloneExtension \<and> length (ct_files tree) \<noteq> 1
       then Err ''native_extension.standalone_shape''
       else if layout = DirectoryExtension \<and> entrypoint \<noteq> ''index.ts''
       then Err ''native_extension.directory_entrypoint''
       else Ok ())"

definition validate_native_id :: "string \<Rightarrow> unit result" where
  "validate_native_id native_id = (if invalid_native_id native_id then Err ''native_extension.invalid_native_id'' else Ok ())"

definition extension_layout_byte :: "native_extension_layout \<Rightarrow> char" where
  "extension_layout_byte l = (case l of StandaloneExtension \<Rightarrow> CHR 0x00 | DirectoryExtension \<Rightarrow> CHR 0x01)"

definition extension_preimage ::
  "harness_id \<Rightarrow> native_extension_layout \<Rightarrow> string \<Rightarrow> string \<Rightarrow> string \<Rightarrow> string" where
  "extension_preimage harness layout entrypoint native_id tree_hash =
     ''kitrove-native-pi-extension-object-v1'' @ [CHR 0x00]
     @ write_text_record (harness_id_as_str harness) @ [extension_layout_byte layout]
     @ write_text_record entrypoint @ write_text_record native_id @ write_text_record tree_hash"

definition hash_native_extension ::
  "(string \<Rightarrow> string) \<Rightarrow> harness_id \<Rightarrow> native_extension_layout \<Rightarrow> string \<Rightarrow> string \<Rightarrow> string \<Rightarrow> string" where
  "hash_native_extension H harness layout entrypoint native_id tree_hash =
     ''blake3:'' @ H (extension_preimage harness layout entrypoint native_id tree_hash)"

definition extension_metadata :: "(stored_tree_metadata \<Rightarrow> string) \<Rightarrow> native_extension_object \<Rightarrow> extension_stored_metadata" where
  "extension_metadata encode obj =
     \<lparr>esm_schema_version = 1, esm_harness = ne_harness obj, esm_layout = ne_layout obj,
      esm_entrypoint = ne_entrypoint obj, esm_native_id = ne_native_id obj,
      esm_tree_metadata = encode (tree_metadata (ne_tree obj))\<rparr>"

definition native_extension_object_new ::
  "(string \<Rightarrow> string) \<Rightarrow> (string \<Rightarrow> string) \<Rightarrow> (stored_tree_metadata \<Rightarrow> string) \<Rightarrow> (extension_stored_metadata \<Rightarrow> string)
   \<Rightarrow> harness_id \<Rightarrow> native_extension_layout \<Rightarrow> string \<Rightarrow> string \<Rightarrow> captured_tree \<Rightarrow> native_extension_object result" where
  "native_extension_object_new H fold_key encode encode_extension harness layout entrypoint native_id tree =
     (if harness \<noteq> Pi then Err ''native_extension.unsupported_harness''
      else bind_result (stored_skill_tree_new H fold_key encode tree) (\<lambda>stored.
      and_then (validate_extension_shape layout entrypoint stored)
      (and_then (validate_native_id native_id)
      (bind_result (assess_native_executable_tree_risk stored) (\<lambda>_.
        let obj = \<lparr>ne_harness = harness, ne_layout = layout, ne_entrypoint = entrypoint, ne_native_id = native_id,
                   ne_tree = stored,
                   ne_hash = hash_native_extension H harness layout entrypoint native_id (ct_hash stored)\<rparr>
        in if length (encode_extension (extension_metadata encode obj)) > MAX_METADATA_BYTES
           then Err ''native_extension.metadata_limit'' else Ok obj)))))"

definition native_extension_from_stored ::
  "(string \<Rightarrow> string) \<Rightarrow> (string \<Rightarrow> string) \<Rightarrow> (stored_tree_metadata \<Rightarrow> string) \<Rightarrow> (string \<Rightarrow> stored_tree_metadata option)
   \<Rightarrow> (extension_stored_metadata \<Rightarrow> string) \<Rightarrow> (string \<Rightarrow> extension_stored_metadata option)
   \<Rightarrow> string \<Rightarrow> captured_tree \<Rightarrow> native_extension_object result" where
  "native_extension_from_stored H fold_key encode decode encode_extension decode_extension metadata_json tree =
     (if length metadata_json > MAX_METADATA_BYTES then Err ''native_extension.metadata_limit''
      else bind_result (ok_or ''native_extension.invalid_metadata'' (decode_extension metadata_json)) (\<lambda>metadata.
        if esm_schema_version metadata \<noteq> 1 then Err ''native_extension.unsupported_version''
        else bind_result (stored_tree_from_stored H fold_key encode decode (esm_tree_metadata metadata) tree) (\<lambda>stored.
          native_extension_object_new H fold_key encode encode_extension (esm_harness metadata) (esm_layout metadata)
            (esm_entrypoint metadata) (esm_native_id metadata) stored)))"

text \<open>\<open>finish_capture\<close>: a captured source becomes evidence only when its shape and contents are accepted.\<close>

record captured_native_extension =
  cne_layout :: native_extension_layout
  cne_entrypoint :: string
  cne_exact :: captured_tree
  cne_content_class :: content_class

definition finish_capture :: "native_extension_layout \<Rightarrow> string \<Rightarrow> captured_tree \<Rightarrow> captured_native_extension result" where
  "finish_capture layout entrypoint exact =
     and_then (validate_extension_shape layout entrypoint exact)
     (bind_result (assess_native_executable_tree_risk exact) (\<lambda>content_class.
       Ok \<lparr>cne_layout = layout, cne_entrypoint = entrypoint, cne_exact = exact, cne_content_class = content_class\<rparr>))"

section \<open>Extension objects\<close>

lemma native_extension_object_new_Ok:
  assumes "native_extension_object_new H fold_key encode encode_extension harness layout entrypoint native_id tree = Ok obj"
  shows "harness = Pi \<and> stored_skill_tree_new H fold_key encode tree = Ok tree
    \<and> credential_free tree \<and> ne_tree obj = tree \<and> ne_harness obj = Pi \<and> ne_layout obj = layout
    \<and> ne_entrypoint obj = entrypoint \<and> ne_native_id obj = native_id
    \<and> ne_hash obj = hash_native_extension H Pi layout entrypoint native_id (ct_hash tree)
    \<and> length (encode_extension (extension_metadata encode obj)) \<le> MAX_METADATA_BYTES
    \<and> validate_extension_shape layout entrypoint tree = Ok ()"
  using assms by (auto simp: native_extension_object_new_def bind_result_Ok_iff and_then_Ok_iff Let_def
      stored_skill_tree_new_Ok executable_risk_iff split: if_splits)

section \<open>Properties\<close>

text \<open>An extension object that was constructed for Pi is free of credentials, its entrypoint is a file of
  its payload, and it is reconstructed from its metadata and a payload of equal paths and bytes, provided
  the two JSON decoders invert their encoders.\<close>

theorem extension_objects_reload:
  assumes "native_extension_object_new H fold_key encode encode_extension harness layout entrypoint native_id tree = Ok obj"
    and "bt_wf (ct_files tree)" "same_payload payload tree"
    and "decode (encode (tree_metadata tree)) = Some (tree_metadata tree)"
    and "decode_extension (encode_extension (extension_metadata encode obj)) = Some (extension_metadata encode obj)"
  shows "credential_free (ne_tree obj) \<and> bt_has (ct_files (ne_tree obj)) (ne_entrypoint obj)
    \<and> native_extension_from_stored H fold_key encode decode encode_extension decode_extension
        (encode_extension (extension_metadata encode obj)) payload = Ok obj"
proof -
  note new = native_extension_object_new_Ok[OF assms(1)]
  have tree: "stored_skill_tree_new H fold_key encode tree = Ok tree" using new by blast
  then have "stored_tree_from_metadata H fold_key encode (tree_metadata tree) payload = Ok tree"
    by (rule stored_tree_reloads[OF _ assms(2,3)])
  then have "stored_tree_from_stored H fold_key encode decode (encode (tree_metadata tree)) payload = Ok tree"
    using tree assms(4) by (simp add: stored_tree_from_stored_def stored_skill_tree_new_Ok)
  then have "native_extension_from_stored H fold_key encode decode encode_extension decode_extension
      (encode_extension (extension_metadata encode obj)) payload = Ok obj"
    using assms(1,5) new by (simp add: native_extension_from_stored_def) (simp add: extension_metadata_def)
  moreover have "bt_has (ct_files tree) entrypoint"
    using new by (auto simp: validate_extension_shape_def bind_result_Ok_iff map_err_Ok_iff portable_path_parse_iff
        split: if_splits)
  ultimately show ?thesis using new by simp
qed

definition sample_extension_tree :: captured_tree where
  "sample_extension_tree =
     \<lparr>ct_files = [(''index.ts'', \<lparr>cf_mode = RegularFile, cf_bytes = ''export''\<rparr>)],
      ct_hash = hash_tree (\<lambda>b. b) [(''index.ts'', \<lparr>cf_mode = RegularFile, cf_bytes = ''export''\<rparr>)]\<rparr>"

definition sample_extension :: native_extension_object where
  "sample_extension =
     \<lparr>ne_harness = Pi, ne_layout = DirectoryExtension, ne_entrypoint = ''index.ts'', ne_native_id = ''review'',
      ne_tree = sample_extension_tree,
      ne_hash = hash_native_extension (\<lambda>b. b) Pi DirectoryExtension ''index.ts'' ''review'' (ct_hash sample_extension_tree)\<rparr>"

lemma sample_extension_credentials: "credential_free sample_extension_tree"
proof -
  have "\<not> credential_like_path ''index.ts''" by code_simp
  moreover have "\<not> contains_private_key_marker ''export''" by code_simp
  moreover have "\<not> contains_credential_shaped_bytes ''export''" by code_simp
  ultimately show ?thesis by (simp add: credential_free_def sample_extension_tree_def)
qed

theorem extension_objects_reload_witness:
  "native_extension_from_stored (\<lambda>b. b) (\<lambda>p. p) (\<lambda>_. []) (\<lambda>_. Some (tree_metadata sample_extension_tree)) (\<lambda>_. [])
     (\<lambda>_. Some (extension_metadata (\<lambda>_. []) sample_extension)) [] sample_extension_tree = Ok sample_extension"
proof -
  have new: "native_extension_object_new (\<lambda>b. b) (\<lambda>p. p) (\<lambda>_. []) (\<lambda>_. []) Pi DirectoryExtension ''index.ts'' ''review''
      sample_extension_tree = Ok sample_extension"
    using sample_extension_credentials
    by (simp add: native_extension_object_new_def stored_skill_tree_new_def has_supported_platform_path_collision_def
        all_prefixes_def bt_keys_def bt_get_def validate_extension_shape_def portable_path_parse_def portable_segment_def
        starts_with_def ends_with_def bt_has_def validate_native_id_def invalid_native_id_def str_chars_def
        char_is_control_def assess_native_executable_tree_risk_def reject_credential_artifacts_Err)
      (simp add: sample_extension_def sample_extension_tree_def starts_with_def bt_get_def)
  show ?thesis
    using extension_objects_reload[OF new, of sample_extension_tree "\<lambda>_. Some (tree_metadata sample_extension_tree)"
        "\<lambda>_. Some (extension_metadata (\<lambda>_. []) sample_extension)"]
    by (simp add: same_payload_def sample_extension_tree_def bt_wf_def)
qed

end
