(* ===== verification/Tier_One.thy ===== *)
theory Tier_One
  imports Fidelity Skill_Risk Assets
begin

text \<open>
  The four tier-one harnesses and the capability catalog that adoption and merging consult
  (\<open>kitrove-core/src/adoption.rs\<close>), with the logical identifiers and capability declarations of
  \<open>kitrove-adapter-api\<close> they rest on.
\<close>

section \<open>Adapter declarations\<close>

definition validate_logical_id :: "string \<Rightarrow> string \<Rightarrow> unit result" where
  "validate_logical_id value code =
     (if value = [] \<or> length value > 128
         \<or> \<not> list_all (\<lambda>b. is_ascii_lowercase b \<or> is_ascii_digit b \<or> b \<in> set ''.:_-'') value
      then Err code else Ok ())"

text \<open>The parsers made by \<open>logical_id!\<close>.\<close>

definition logical_id_parse :: "string \<Rightarrow> string \<Rightarrow> string result" where
  "logical_id_parse code value = and_then (validate_logical_id value code) (Ok value)"

definition root_id_parse :: "string \<Rightarrow> string result" where
  "root_id_parse = logical_id_parse ''adapter.root_id_invalid''"

definition source_relative_path_parse :: "string \<Rightarrow> string result" where
  "source_relative_path_parse value =
     (let has_windows_drive_prefix =
            (case value of a # b # _ \<Rightarrow> is_ascii_alphabetic a \<and> b = CHR '':'' | _ \<Rightarrow> False)
      in if value = [] \<or> starts_with ''/'' value \<or> CHR 0x5C \<in> set value \<or> CHR '':'' \<in> set value
            \<or> has_windows_drive_prefix \<or> list_ex char_is_control (str_chars value)
            \<or> list_ex (\<lambda>component. component = [] \<or> component = ''.'' \<or> component = ''..'') (split_on CHR ''/'' value)
         then Err ''adapter.source_relative_path_invalid'' else Ok value)"

record capability_support =
  cs_result :: fidelity_result
  cs_notes :: "string list"

record capability_matrix =
  cm_capabilities :: "(asset_kind \<times> capability_support) list"

definition capability_matrix_empty :: capability_matrix where
  "capability_matrix_empty = \<lparr>cm_capabilities = []\<rparr>"

section \<open>Portable capability evidence\<close>

definition portable_version :: "string \<Rightarrow> bool" where
  "portable_version value \<longleftrightarrow>
     value \<noteq> [] \<and> length value \<le> 128 \<and> list_all (\<lambda>b. is_ascii_alphanumeric b \<or> b \<in> set ''._-/+'') value"

definition portable_evidence_kind :: "string \<Rightarrow> bool" where
  "portable_evidence_kind value \<longleftrightarrow>
     value \<noteq> [] \<and> length value \<le> 128 \<and> list_all (\<lambda>b. is_ascii_alphanumeric b \<or> b \<in> set ''._-'') value"

definition trim_punctuation :: "string \<Rightarrow> string" where
  "trim_punctuation s =
     (let outer = set (''()[]{}'' @ [CHR 0x22, CHR 0x27] @ '',;'')
      in rev (dropWhile (\<lambda>c. c \<in> outer) (rev (dropWhile (\<lambda>c. c \<in> outer) s))))"

text \<open>A word that reads as an absolute path.\<close>

definition absolute_word :: "string \<Rightarrow> bool" where
  "absolute_word w \<longleftrightarrow> starts_with ''/'' w
     \<or> (case w of a # b # c # _ \<Rightarrow> is_ascii_alphabetic a \<and> b = CHR '':'' \<and> c = CHR ''/'' | _ \<Rightarrow> False)"

definition portable_evidence_detail :: "string \<Rightarrow> bool" where
  "portable_evidence_detail value =
     (if value = [] \<or> length value > 2048 \<or> list_ex char_is_control (str_chars value) \<or> CHR 0x5C \<in> set value
         \<or> list_ex (\<lambda>marker. contains_window marker value)
             [''~/'', ''$HOME'', ''${HOME}'', ''%USERPROFILE%'', ''file://'']
      then False
      else \<not> list_ex (\<lambda>w. absolute_word (trim_punctuation w))
             (filter (\<lambda>w. w \<noteq> []) (split_where is_ascii_whitespace value)))"

section \<open>The tier-one catalog\<close>

definition tier_one_harnesses :: "harness_id list" where
  "tier_one_harnesses = [Claude, Codex, Pi, OpenCode]"

text \<open>The variants of \<open>CapabilityCatalogFailure\<close> are the failure codes here.\<close>

definition portable_support :: "capability_support \<Rightarrow> bool" where
  "portable_support s \<longleftrightarrow>
     (let r = cs_result s
      in \<not> (fr_evidence r = [] \<or> \<not> portable_version (fr_adapter_version r)
            \<or> (case fr_harness_version r of Some v \<Rightarrow> \<not> portable_version v | None \<Rightarrow> False)
            \<or> list_ex (\<lambda>e. \<not> portable_evidence_kind (evidence_kind e) \<or> \<not> portable_evidence_detail (evidence_detail e))
                (fr_evidence r)
            \<or> list_ex (\<lambda>e. \<not> portable_evidence_kind (reason_code e) \<or> \<not> portable_evidence_detail (reason_message e))
                (fr_reasons r)))"

definition validate_tier_one_capabilities ::
  "(harness_id, capability_matrix) btree_map \<Rightarrow> asset_kind \<Rightarrow> (harness_id, capability_support) btree_map result" where
  "validate_tier_one_capabilities matrices kind =
     (if length matrices \<noteq> length tier_one_harnesses \<or> bt_keys matrices \<noteq> tier_one_harnesses then Err ''Incomplete''
      else bind_result (try_map (\<lambda>harness.
          bind_result (ok_or ''Missing'' (case bt_get matrices harness of
              Some m \<Rightarrow> map_of (cm_capabilities m) kind | None \<Rightarrow> None)) (\<lambda>support.
            if portable_support support then Ok (harness, support) else Err ''Invalid'')) tier_one_harnesses)
        (\<lambda>entries. Ok (bt_collect entries)))"

definition validate_tier_one_portable_capabilities ::
  "(harness_id, capability_matrix) btree_map \<Rightarrow> asset_kind \<Rightarrow> (harness_id, capability_support) btree_map result" where
  "validate_tier_one_portable_capabilities matrices kind =
     bind_result (validate_tier_one_capabilities matrices kind) (\<lambda>capabilities.
       if list_ex (\<lambda>s. fr_fidelity (cs_result s) \<noteq> FPortable) (bt_values capabilities) then Err ''Invalid''
       else Ok capabilities)"

type_synonym tier_one_capabilities = "(harness_id, capability_support) btree_map"

definition catalog_failure_code :: "failure \<Rightarrow> string" where
  "catalog_failure_code f =
     (if f = Failure ''Incomplete'' then ''adoption.incomplete_target_catalog''
      else if f = Failure ''Missing'' then ''adoption.skill_capability_missing''
      else ''adoption.skill_capability_invalid'')"

definition tier_one_capabilities_new ::
  "(harness_id, capability_matrix) btree_map \<Rightarrow> tier_one_capabilities result" where
  "tier_one_capabilities_new matrices =
     (case validate_tier_one_portable_capabilities matrices Skill of
        Inl f \<Rightarrow> Err (catalog_failure_code f)
      | Inr skills \<Rightarrow> Ok skills)"

text \<open>\<open>&self.skills[harness]\<close>: indexing panics on a missing key.\<close>

definition skill_support :: "tier_one_capabilities \<Rightarrow> harness_id \<Rightarrow> capability_support result" where
  "skill_support capabilities harness = ok_or ''panic.index'' (bt_get capabilities harness)"

section \<open>Catalogs are complete\<close>

definition complete_catalog :: "tier_one_capabilities \<Rightarrow> bool" where
  "complete_catalog c \<longleftrightarrow> (\<forall>h\<in>set tier_one_harnesses. \<exists>s. bt_get c h = Some s \<and> portable_support s
     \<and> fr_fidelity (cs_result s) = FPortable)"

lemma tier_one_capabilities_complete:
  assumes "tier_one_capabilities_new matrices = Ok c"
  shows "complete_catalog c"
proof -
  let ?step = "\<lambda>harness. bind_result (ok_or ''Missing'' (case bt_get matrices harness of
              Some m \<Rightarrow> map_of (cm_capabilities m) Skill | None \<Rightarrow> None)) (\<lambda>support.
            if portable_support support then Ok (harness, support) else Err ''Invalid'')"
  obtain entries where entries: "list_all2 (\<lambda>h e. ?step h = Ok e) tier_one_harnesses entries" "c = bt_collect entries"
    and fidelity: "\<not> list_ex (\<lambda>s. fr_fidelity (cs_result s) \<noteq> FPortable) (bt_values c)"
    using assms
    by (auto simp: tier_one_capabilities_new_def validate_tier_one_portable_capabilities_def
        validate_tier_one_capabilities_def bind_result_Ok_iff try_map_Ok_iff split: sum.splits if_splits)
  have step: "fst e = h \<and> portable_support (snd e)" if "?step h = Ok e" for h e
    using that by (auto simp: bind_result_Ok_iff split: if_splits)
  have supported: "list_all2 (\<lambda>h e. fst e = h \<and> portable_support (snd e)) tier_one_harnesses entries"
    by (rule list_all2_mono[OF entries(1)]) (rule step)
  obtain a b d e where four: "entries = [(Claude, a), (Codex, b), (Pi, d), (OpenCode, e)]"
    and ok: "portable_support a" "portable_support b" "portable_support d" "portable_support e"
    using supported by (auto simp: tier_one_harnesses_def list_all2_Cons1)
  have get: "bt_get c = map_of (rev entries)" using entries(2) by (simp add: bt_get_collect)
  have portable: "fr_fidelity (cs_result s) = FPortable" if "bt_get c h = Some s" for h s
  proof -
    have "(h, s) \<in> set c" using that bt_get_iff[of c h s] entries(2) by simp
    then have "s \<in> set (bt_values c)" by (auto simp: bt_values_def image_iff intro: bexI[of _ "(h, s)"])
    then show ?thesis using fidelity by (auto simp: list_ex_iff)
  qed
  have "bt_get c Claude = Some a" "bt_get c Codex = Some b" "bt_get c Pi = Some d" "bt_get c OpenCode = Some e"
    by (simp_all add: get four)
  then show ?thesis using ok portable[of Claude a] portable[of Codex b] portable[of Pi d] portable[of OpenCode e]
    by (simp add: complete_catalog_def tier_one_harnesses_def)
qed

end
