(* ===== verification/Extension_Observations.thy ===== *)
theory Extension_Observations
  imports Native_Extensions Tier_One
begin

text \<open>
  \<open>kitrove-core/src/native_extension_adoption.rs\<close>: the identity of an observed Pi extension, its
  recomputation from the provenance and the stored object, and the fidelity recorded for an extension.
\<close>

datatype root_tier = TierUser | TierProject | TierAdmin | TierSystem | TierCompatibility | TierExplicit

definition root_tier_byte :: "root_tier \<Rightarrow> char" where
  "root_tier_byte t = (case t of TierUser \<Rightarrow> CHR 0x00 | TierProject \<Rightarrow> CHR 0x01 | TierAdmin \<Rightarrow> CHR 0x02
     | TierSystem \<Rightarrow> CHR 0x03 | TierCompatibility \<Rightarrow> CHR 0x04 | TierExplicit \<Rightarrow> CHR 0x05)"

definition scope_byte :: "harness_scope \<Rightarrow> char" where
  "scope_byte s = (case s of ScopeUser \<Rightarrow> CHR 0x00 | ScopeProject \<Rightarrow> CHR 0x01)"

definition observation_preimage ::
  "harness_scope \<Rightarrow> root_tier \<Rightarrow> nat \<Rightarrow> string \<Rightarrow> string \<Rightarrow> native_extension_layout \<Rightarrow> string \<Rightarrow> string \<Rightarrow> string \<Rightarrow> string" where
  "observation_preimage scope tier policy_rank logical_root source_path layout entrypoint native_id exact_hash =
     ''kitrove-native-observation-v1'' @ [CHR 0x00]
     @ write_text_record ''extension'' @ write_text_record (harness_id_as_str Pi)
     @ [scope_byte scope] @ [root_tier_byte tier] @ be_bytes 4 (policy_rank mod 2 ^ 32)
     @ write_text_record logical_root @ write_text_record source_path @ [extension_layout_byte layout]
     @ write_text_record entrypoint @ write_text_record native_id @ write_text_record exact_hash"

definition native_extension_observation_identity ::
  "(string \<Rightarrow> string) \<Rightarrow> harness_scope \<Rightarrow> root_tier \<Rightarrow> nat \<Rightarrow> string \<Rightarrow> string \<Rightarrow> native_extension_layout \<Rightarrow> string
   \<Rightarrow> string \<Rightarrow> string \<Rightarrow> string result" where
  "native_extension_observation_identity H scope tier policy_rank logical_root source_path layout entrypoint native_id exact_hash =
     map_err ''native_extension.observation_invalid'' (content_hash_parse (''blake3:'' @ H
       (observation_preimage scope tier policy_rank logical_root source_path layout entrypoint native_id exact_hash)))"

definition pi_extension_authority :: "harness_scope \<Rightarrow> string \<times> root_tier \<times> nat" where
  "pi_extension_authority scope =
     (case scope of
        ScopeUser \<Rightarrow> (''pi.user.native.extensions'', TierUser, 15)
      | ScopeProject \<Rightarrow> (''pi.project.native.extensions'', TierProject, 35))"

definition expected_source :: "native_extension_layout \<Rightarrow> string \<Rightarrow> string" where
  "expected_source layout native_id =
     (case layout of StandaloneExtension \<Rightarrow> native_id @ ''.ts'' | DirectoryExtension \<Rightarrow> native_id)"

definition observation_prefix :: "harness_scope \<Rightarrow> string \<Rightarrow> string" where
  "observation_prefix scope logical_root =
     ''observations/pi/'' @ harness_scope_as_str scope @ ''/'' @ logical_root @ ''/''"

text \<open>The \<open>Option\<close> of the code: every \<open>?\<close> and \<open>return None\<close> is the branch \<open>None\<close>.\<close>

definition verified_native_extension_observation_identity ::
  "(string \<Rightarrow> string) \<Rightarrow> component_provenance \<Rightarrow> native_extension_object \<Rightarrow> string option" where
  "verified_native_extension_observation_identity H provenance obj =
     (case cp_origin_scope provenance of
        None \<Rightarrow> None
      | Some scope \<Rightarrow>
          (case pi_extension_authority scope of (logical_root, tier, policy_rank) \<Rightarrow>
          (case cp_source provenance of
             HarnessSource Pi origin \<Rightarrow>
               (case strip_prefix (observation_prefix scope logical_root) origin of
                  None \<Rightarrow> None
                | Some source_text \<Rightarrow>
                    if source_text = [] \<or> CHR ''/'' \<in> set source_text then None
                    else (case portable_path_parse source_text of
                       Inl _ \<Rightarrow> None
                     | Inr source_relative \<Rightarrow>
                         if source_relative \<noteq> expected_source (ne_layout obj) (ne_native_id obj) then None
                         else if ne_layout obj = StandaloneExtension \<and> ne_entrypoint obj \<noteq> source_relative then None
                         else (case root_id_parse logical_root of
                            Inl _ \<Rightarrow> None
                          | Inr root \<Rightarrow>
                              (case native_extension_observation_identity H scope tier policy_rank root source_relative
                                      (ne_layout obj) (ne_entrypoint obj) (ne_native_id obj) (ct_hash (ne_tree obj)) of
                                 Inl _ \<Rightarrow> None | Inr identity \<Rightarrow> Some identity))))
           | _ \<Rightarrow> None)))"

record native_extension_observation =
  neo_scope :: harness_scope
  neo_logical_origin :: string
  neo_native_id :: string
  neo_captured :: captured_native_extension
  neo_identity :: string

text \<open>\<open>NativeExtensionObservation::new\<close>; the first argument of the constructors is the content of the object built first.\<close>

definition native_extension_observation_new ::
  "(string \<Rightarrow> string) \<Rightarrow> (string \<Rightarrow> string) \<Rightarrow> (stored_tree_metadata \<Rightarrow> string) \<Rightarrow> (extension_stored_metadata \<Rightarrow> string)
   \<Rightarrow> harness_scope \<Rightarrow> root_tier \<Rightarrow> string \<Rightarrow> nat \<Rightarrow> string \<Rightarrow> string \<Rightarrow> captured_native_extension
   \<Rightarrow> native_extension_observation result" where
  "native_extension_observation_new H fold_key encode encode_extension scope tier logical_root policy_rank source_path
     native_id captured =
     bind_result (map_err ''native_extension.observation_invalid''
       (native_extension_object_new H fold_key encode encode_extension Pi (cne_layout captured) (cne_entrypoint captured)
          native_id (cne_exact captured))) (\<lambda>obj.
     case pi_extension_authority scope of (root, expected_tier, expected_rank) \<Rightarrow>
       if logical_root \<noteq> root \<or> tier \<noteq> expected_tier \<or> policy_rank \<noteq> expected_rank
          \<or> CHR ''/'' \<in> set source_path \<or> source_path \<noteq> expected_source (cne_layout captured) native_id
          \<or> (cne_layout captured = StandaloneExtension
             \<and> cne_entrypoint captured \<noteq> expected_source (cne_layout captured) native_id)
          \<or> ct_hash (ne_tree obj) \<noteq> ct_hash (cne_exact captured)
       then Err ''native_extension.observation_invalid''
       else bind_result (map_err ''native_extension.observation_invalid''
              (portable_path_parse (observation_prefix scope logical_root @ source_path))) (\<lambda>logical_origin.
       bind_result (native_extension_observation_identity H scope tier policy_rank logical_root source_path
              (cne_layout captured) (cne_entrypoint captured) native_id (ct_hash (cne_exact captured))) (\<lambda>identity.
       Ok \<lparr>neo_scope = scope, neo_logical_origin = logical_origin, neo_native_id = native_id,
           neo_captured = captured, neo_identity = identity\<rparr>)))"

section \<open>Fidelity of an extension\<close>

definition NATIVE_EXTENSION_FORMAT :: string where
  "NATIVE_EXTENSION_FORMAT = ''kitrove-native-pi-extension-object/v1''"

definition extension_fidelity :: "string \<Rightarrow> harness_id \<Rightarrow> fidelity_result result" where
  "extension_fidelity native_hash harness =
     (if harness = Pi
      then fidelity_result_new FBlocked
        [\<lparr>reason_code = ''extension.executable_trust_required'',
          reason_message = ''native extension installation requires explicit machine-local executable trust''\<rparr>]
        [\<lparr>evidence_kind = ''native.object_hash'', evidence_detail = native_hash\<rparr>]
        [ExecutableTrust] ''pi-native-extensions/1'' None
      else fidelity_result_new FUnsupported
        [\<lparr>reason_code = ''extension.native_only'',
          reason_message = ''the native Pi extension has no reviewed representation for this harness''\<rparr>]
        [\<lparr>evidence_kind = ''native.format'', evidence_detail = NATIVE_EXTENSION_FORMAT\<rparr>]
        [] ''kitrove-native-extension-matrix/1'' None)"

definition extension_compatibility :: "string \<Rightarrow> (harness_id, fidelity_result) btree_map result" where
  "extension_compatibility native_hash =
     try_fold (\<lambda>compatibility harness.
         bind_result (map_err ''native_extension.fidelity_invalid'' (extension_fidelity native_hash harness))
           (\<lambda>r. Ok (bt_insert harness r compatibility)))
       [] [Claude, Codex, Pi, OpenCode]"

section \<open>Properties\<close>

text \<open>What an observation records can be recomputed later: for an observation that was constructed and
  the object stored for it, the identity recomputed from the provenance, which names the observed origin
  and scope, is the identity of the observation.\<close>

theorem observations_are_verifiable:
  assumes "native_extension_observation_new H fold_key encode encode_extension scope tier logical_root policy_rank
      source_path native_id captured = Ok observation"
    and "native_extension_object_new H fold_key encode encode_extension Pi (cne_layout captured)
      (cne_entrypoint captured) native_id (cne_exact captured) = Ok obj"
    and "cp_source provenance = HarnessSource Pi (neo_logical_origin observation)"
    and "cp_origin_scope provenance = Some (neo_scope observation)"
  shows "verified_native_extension_observation_identity H provenance obj = Some (neo_identity observation)"
proof -
  obtain root expected_tier expected_rank where authority: "pi_extension_authority scope = (root, expected_tier, expected_rank)"
    by (cases "pi_extension_authority scope")
  note obj = native_extension_object_new_Ok[OF assms(2)]
  obtain origin where o': "portable_path_parse (observation_prefix scope logical_root @ source_path) = Ok origin"
    and id: "native_extension_observation_identity H scope tier policy_rank logical_root source_path
              (cne_layout captured) (cne_entrypoint captured) native_id (ct_hash (cne_exact captured)) = Ok (neo_identity observation)"
    and same: "logical_root = root" "tier = expected_tier" "policy_rank = expected_rank" "CHR ''/'' \<notin> set source_path"
      "source_path = expected_source (cne_layout captured) native_id"
      "cne_layout captured = StandaloneExtension \<Longrightarrow> cne_entrypoint captured = source_path"
      "neo_scope observation = scope" "neo_logical_origin observation = origin"
    using assms(1,2) by (auto simp: native_extension_observation_new_def authority bind_result_Ok_iff map_err_Ok_iff
        split: if_splits)
  have origin: "origin = observation_prefix scope root @ source_path" using o' same(1) by (simp add: portable_path_parse_iff)
  have "split_on CHR ''/'' (observation_prefix scope root @ source_path)
      = split_on CHR ''/'' (''observations/pi/'' @ harness_scope_as_str scope @ ''/'' @ root) @ split_on CHR ''/'' source_path"
    using split_on_append_sep[of "CHR ''/''" "''observations/pi/'' @ harness_scope_as_str scope @ ''/'' @ root" source_path]
    by (simp add: observation_prefix_def)
  then have segments: "set (split_on CHR ''/'' source_path) \<subseteq> set (split_on CHR ''/'' origin)" unfolding origin by auto
  have path: "portable_path_parse source_path = Ok source_path"
    using o' origin segments same(1) by (auto simp: portable_path_parse_iff)
  then have "source_path \<noteq> []" by (auto simp: portable_path_parse_def)
  moreover have "root_id_parse root = Ok root"
    using authority by (cases scope) (auto simp: pi_extension_authority_def root_id_parse_def logical_id_parse_def
        validate_logical_id_def char_class_defs)
  moreover have "strip_prefix (observation_prefix scope root) origin = Some source_path"
    by (simp add: origin strip_prefix_Some_iff)
  ultimately show ?thesis using assms(3,4) same obj id path
    by (auto simp: verified_native_extension_observation_identity_def authority)
qed

definition sample_observed_tree :: captured_tree where
  "sample_observed_tree =
     \<lparr>ct_files = [(''index.ts'', \<lparr>cf_mode = RegularFile, cf_bytes = ''export''\<rparr>)],
      ct_hash = hash_tree (\<lambda>_. replicate 64 CHR ''a'') [(''index.ts'', \<lparr>cf_mode = RegularFile, cf_bytes = ''export''\<rparr>)]\<rparr>"

definition sample_observed_object :: native_extension_object where
  "sample_observed_object =
     \<lparr>ne_harness = Pi, ne_layout = DirectoryExtension, ne_entrypoint = ''index.ts'', ne_native_id = ''review'',
      ne_tree = sample_observed_tree,
      ne_hash = hash_native_extension (\<lambda>_. replicate 64 CHR ''a'') Pi DirectoryExtension ''index.ts'' ''review''
        (ct_hash sample_observed_tree)\<rparr>"

definition sample_observation :: native_extension_observation where
  "sample_observation =
     \<lparr>neo_scope = ScopeUser, neo_logical_origin = ''observations/pi/user/pi.user.native.extensions/review'',
      neo_native_id = ''review'',
      neo_captured = \<lparr>cne_layout = DirectoryExtension, cne_entrypoint = ''index.ts'', cne_exact = sample_observed_tree,
        cne_content_class = Executable\<rparr>,
      neo_identity = ''blake3:'' @ replicate 64 CHR ''a''\<rparr>"

lemma sample_observed_new:
  "native_extension_object_new (\<lambda>_. replicate 64 CHR ''a'') (\<lambda>p. p) (\<lambda>_. []) (\<lambda>_. []) Pi DirectoryExtension
     ''index.ts'' ''review'' sample_observed_tree = Ok sample_observed_object"
proof -
  have "credential_free sample_observed_tree"
    using sample_extension_credentials by (simp add: credential_free_def sample_observed_tree_def sample_extension_tree_def)
  then show ?thesis
    by (simp add: native_extension_object_new_def stored_skill_tree_new_def has_supported_platform_path_collision_def
        all_prefixes_def bt_keys_def bt_get_def validate_extension_shape_def portable_path_parse_def portable_segment_def
        starts_with_def ends_with_def bt_has_def validate_native_id_def invalid_native_id_def str_chars_def
        char_is_control_def assess_native_executable_tree_risk_def reject_credential_artifacts_Err)
      (simp add: sample_observed_object_def sample_observed_tree_def starts_with_def bt_get_def)
qed

lemma sample_observation_new:
  "native_extension_observation_new (\<lambda>_. replicate 64 CHR ''a'') (\<lambda>p. p) (\<lambda>_. []) (\<lambda>_. []) ScopeUser TierUser
     ''pi.user.native.extensions'' 15 ''review'' ''review'' (neo_captured sample_observation) = Ok sample_observation"
proof -
  have path: "portable_path_parse (observation_prefix ScopeUser ''pi.user.native.extensions'' @ ''review'')
      = Ok (neo_logical_origin sample_observation)"
    by (simp add: observation_prefix_def harness_scope_as_str_def portable_path_parse_def portable_segment_def starts_with_def str_chars_def
        char_is_control_def sample_observation_def)
  have "content_hash_parse (''blake3:'' @ replicate 64 CHR ''a'') = Ok (neo_identity sample_observation)"
    unfolding sample_observation_def
    by (auto simp: content_hash_parse_def qualified_digest_parse_Ok is_lower_hex_def list_all_iff lower_hex_digit_def)
  then have identity: "native_extension_observation_identity (\<lambda>_. replicate 64 CHR ''a'') s t k r p l e i h = Ok (neo_identity sample_observation)"
      for s t k r p l e i h
    by (simp only: native_extension_observation_identity_def map_err_simps)
  show ?thesis
    using sample_observed_new path identity
    by (simp add: native_extension_observation_new_def pi_extension_authority_def expected_source_def)
      (simp add: sample_observation_def sample_observed_object_def)
qed

theorem observations_are_verifiable_witness:
  "verified_native_extension_observation_identity (\<lambda>_. replicate 64 CHR ''a'')
     \<lparr>cp_source = HarnessSource Pi (neo_logical_origin sample_observation), cp_revision = [], cp_exact_source_hash = [],
      cp_origin_scope = Some ScopeUser\<rparr> sample_observed_object = Some (''blake3:'' @ replicate 64 CHR ''a'')"
  using observations_are_verifiable[OF sample_observation_new, of sample_observed_object] sample_observed_new
  by (simp add: sample_observation_def)

end
