(* ===== verification/Merge_Derivation.thy ===== *)
theory Merge_Derivation
  imports Merge_Completeness Extension_Observations
begin

text \<open>
  The object catalog of \<open>kitrove-core/src/merge.rs\<close> and what is recomputed from it: the object budget, the
  asset of a merged draft and the risk of every object-backed asset of a snapshot.  The encoders of the
  stored metadata and the YAML parser are gathered in \<open>object_codec\<close>; the eight document object types of
  the other crates are a type argument with the four methods used here.
\<close>

section \<open>The catalog\<close>

record object_codec =
  oc_tree :: "stored_tree_metadata \<Rightarrow> string"
  oc_native :: "native_stored_metadata \<Rightarrow> string"
  oc_extension :: "extension_stored_metadata \<Rightarrow> string"
  oc_yaml :: yaml_parser

record 'd document_view =
  dv_kind :: "'d \<Rightarrow> snapshot_object_kind"
  dv_object_hash :: "'d \<Rightarrow> string"
  dv_to_json :: "'d \<Rightarrow> string result"
  dv_text :: "'d \<Rightarrow> string option"

record 'd skill_object_catalog =
  soc_portable :: "(string, stored_skill_tree) btree_map"
  soc_native :: "(string, native_skill_object) btree_map"
  soc_native_extensions :: "(string, native_extension_object) btree_map"
  soc_documents :: "(string, 'd) btree_map"

definition insert_object :: "('a \<Rightarrow> string) \<Rightarrow> (string, 'a) btree_map \<Rightarrow> 'a \<Rightarrow> (string, 'a) btree_map result" where
  "insert_object hash_of objects obj =
     (if (case bt_get objects (hash_of obj) of Some prior \<Rightarrow> prior \<noteq> obj | None \<Rightarrow> False)
      then Err ''sync_merge.object_hash_collision''
      else Ok (bt_insert (hash_of obj) obj objects))"

definition catalog_new ::
  "'d document_view \<Rightarrow> stored_skill_tree list \<Rightarrow> native_skill_object list \<Rightarrow> native_extension_object list \<Rightarrow> 'd list
   \<Rightarrow> 'd skill_object_catalog result" where
  "catalog_new view portable native extensions documents =
     bind_result (try_fold (insert_object ct_hash) [] portable) (\<lambda>portable_objects.
     bind_result (try_fold (insert_object no_hash) [] native) (\<lambda>native_objects.
     bind_result (try_fold (insert_object ne_hash) [] extensions) (\<lambda>extension_objects.
     bind_result (try_fold (insert_object (dv_object_hash view)) [] documents) (\<lambda>document_objects.
       Ok \<lparr>soc_portable = portable_objects, soc_native = native_objects,
           soc_native_extensions = extension_objects, soc_documents = document_objects\<rparr>))))"

definition catalog_portable :: "'d skill_object_catalog \<Rightarrow> string \<Rightarrow> stored_skill_tree result" where
  "catalog_portable objects h = ok_or ''sync_merge.object_missing'' (bt_get (soc_portable objects) h)"

definition catalog_native :: "'d skill_object_catalog \<Rightarrow> string \<Rightarrow> native_skill_object result" where
  "catalog_native objects h = ok_or ''sync_merge.object_missing'' (bt_get (soc_native objects) h)"

definition catalog_native_extension :: "'d skill_object_catalog \<Rightarrow> string \<Rightarrow> native_extension_object result" where
  "catalog_native_extension objects h = ok_or ''sync_merge.object_missing'' (bt_get (soc_native_extensions objects) h)"

definition catalog_document :: "'d skill_object_catalog \<Rightarrow> string \<Rightarrow> 'd result" where
  "catalog_document objects h = ok_or ''sync_merge.object_missing'' (bt_get (soc_documents objects) h)"

section \<open>The object budget\<close>

definition object_bytes :: "nat \<Rightarrow> captured_tree \<Rightarrow> 64 word result" where
  "object_bytes metadata_bytes tree =
     try_fold (\<lambda>sum_bytes file.
         ok_or ''sync_objects.total_bytes_exceeded'' (u64_checked_add sum_bytes (of_nat (length (cf_bytes file)))))
       (of_nat metadata_bytes) (bt_values (ct_files tree))"

definition portable_object_bytes :: "object_codec \<Rightarrow> stored_skill_tree \<Rightarrow> 64 word result" where
  "portable_object_bytes codec obj = object_bytes (length (oc_tree codec (tree_metadata obj))) obj"

definition native_object_bytes :: "object_codec \<Rightarrow> native_skill_object \<Rightarrow> 64 word result" where
  "native_object_bytes codec obj = object_bytes (length (oc_native codec (native_object_metadata obj))) (no_tree obj)"

definition native_extension_object_bytes :: "object_codec \<Rightarrow> native_extension_object \<Rightarrow> 64 word result" where
  "native_extension_object_bytes codec obj =
     object_bytes (length (oc_extension codec (extension_metadata (oc_tree codec) obj))) (ne_tree obj)"

definition document_object_bytes :: "'d document_view \<Rightarrow> 'd \<Rightarrow> 64 word result" where
  "document_object_bytes view obj =
     map_err ''sync_merge.object_invalid'' (bind_result (dv_to_json view obj) (\<lambda>encoded. Ok (of_nat (length encoded))))"

definition charge_object :: "sync_limits \<Rightarrow> 64 word \<Rightarrow> 64 word result \<Rightarrow> 64 word result" where
  "charge_object limits sum_bytes measured =
     bind_result measured (\<lambda>bytes.
       if bytes > sl_max_object_bytes limits then Err ''sync_objects.object_bytes_exceeded''
       else bind_result (ok_or ''sync_objects.total_bytes_exceeded'' (u64_checked_add sum_bytes bytes)) (\<lambda>sum_bytes'.
         if sum_bytes' > sl_max_total_object_bytes limits then Err ''sync_objects.total_bytes_exceeded''
         else Ok sum_bytes'))"

definition catalog_sizes :: "object_codec \<Rightarrow> 'd document_view \<Rightarrow> 'd skill_object_catalog \<Rightarrow> 64 word result list" where
  "catalog_sizes codec view objects =
     map (portable_object_bytes codec) (bt_values (soc_portable objects))
     @ map (native_object_bytes codec) (bt_values (soc_native objects))
     @ map (native_extension_object_bytes codec) (bt_values (soc_native_extensions objects))
     @ map (document_object_bytes view) (bt_values (soc_documents objects))"

definition catalog_count :: "'d skill_object_catalog \<Rightarrow> nat result" where
  "catalog_count objects =
     bind_result (ok_or ''sync_objects.count_exceeded'' (usize_checked_add (length (soc_portable objects)) (length (soc_native objects)))) (\<lambda>a.
     bind_result (ok_or ''sync_objects.count_exceeded'' (usize_checked_add a (length (soc_native_extensions objects)))) (\<lambda>b.
       ok_or ''sync_objects.count_exceeded'' (usize_checked_add b (length (soc_documents objects)))))"

definition validate_limits ::
  "object_codec \<Rightarrow> 'd document_view \<Rightarrow> 'd skill_object_catalog \<Rightarrow> sync_limits \<Rightarrow> unit result" where
  "validate_limits codec view objects limits =
     bind_result (catalog_count objects) (\<lambda>count.
       if count > unat (sl_max_object_count limits) then Err ''sync_objects.count_exceeded''
       else bind_result (try_fold (charge_object limits) 0 (catalog_sizes codec view objects)) (\<lambda>_. Ok ()))"

definition with_additional ::
  "object_codec \<Rightarrow> 'd document_view \<Rightarrow> 'd skill_object_catalog \<Rightarrow> stored_skill_tree \<Rightarrow> native_skill_object \<Rightarrow> sync_limits
   \<Rightarrow> 'd skill_object_catalog result" where
  "with_additional codec view objects portable native limits =
     bind_result (catalog_new view (bt_values (soc_portable objects) @ [portable]) (bt_values (soc_native objects) @ [native])
         (bt_values (soc_native_extensions objects)) (bt_values (soc_documents objects))) (\<lambda>catalog.
       and_then (validate_limits codec view catalog limits) (Ok catalog))"

section \<open>Extension authority\<close>

definition validate_extension_snapshot_asset ::
  "(string \<Rightarrow> string) \<Rightarrow> asset \<Rightarrow> 'd skill_object_catalog \<Rightarrow> unit result" where
  "validate_extension_snapshot_asset H a objects =
     (if asset_portable a \<noteq> None \<or> length (asset_native_variants a) \<noteq> 1 \<or> asset_required_bindings a \<noteq> []
         \<or> length (asset_provenance a) \<noteq> 1
      then Err ''sync_merge.extension_shape_invalid''
      else bind_result (ok_or ''sync_merge.extension_shape_invalid'' (bt_get (asset_native_variants a) Pi)) (\<lambda>native.
        if nv_format native \<noteq> native_extension_format \<or> nv_harness native \<noteq> Pi
        then Err ''sync_merge.extension_format_invalid''
        else bind_result (catalog_native_extension objects (nv_object_hash native)) (\<lambda>obj.
          if ne_harness obj \<noteq> Pi \<or> ne_hash obj \<noteq> nv_object_hash native then Err ''sync_merge.native_harness_mismatch''
          else bind_result (ok_or ''sync_merge.extension_shape_invalid'' (strip_prefix ''blake3:'' (ne_hash obj))) (\<lambda>suffix.
          bind_result (map_err ''sync_merge.extension_shape_invalid''
              (portable_path_parse (''assets/'' @ asset_id a @ ''/native/pi/'' @ suffix))) (\<lambda>expected_root.
          if nv_root native \<noteq> expected_root then Err ''sync_merge.extension_shape_invalid''
          else bind_result (ok_or ''sync_merge.extension_provenance_invalid'' (bt_get (asset_provenance a) (nv_provenance native)))
            (\<lambda>provenance.
          if cp_exact_source_hash provenance \<noteq> ct_hash (ne_tree obj)
             \<or> (case verified_native_extension_observation_identity H provenance obj of
                  None \<Rightarrow> True | Some identity \<Rightarrow> identity \<noteq> cp_revision provenance)
          then Err ''sync_merge.extension_provenance_invalid''
          else bind_result (map_err ''sync_merge.derived_risk_invalid'' (assess_native_executable_tree_risk (ne_tree obj)))
            (\<lambda>class.
          if nv_content_class native \<noteq> Executable \<or> asset_content_class a \<noteq> Executable \<or> class \<noteq> Executable
          then Err ''sync_merge.derived_risk_mismatch''
          else bind_result (map_err ''sync_merge.derived_fidelity_invalid'' (extension_compatibility (ne_hash obj)))
            (\<lambda>expected.
          if asset_compatibility a \<noteq> expected then Err ''sync_merge.derived_fidelity_mismatch'' else Ok ()))))))))"

section \<open>Derived assets\<close>

definition recompute_class :: "content_class \<Rightarrow> (harness_id, native_variant) btree_map \<Rightarrow> harness_id
    \<Rightarrow> (harness_id, native_variant) btree_map" where
  "recompute_class class variants harness =
     (case bt_get variants harness of
        Some v \<Rightarrow> bt_insert harness (v\<lparr>nv_content_class := class\<rparr>) variants
      | None \<Rightarrow> variants)"

definition derive_extension_asset ::
  "(string \<Rightarrow> string) \<Rightarrow> 'd skill_object_catalog \<Rightarrow> asset_draft \<Rightarrow> asset result" where
  "derive_extension_asset H objects d =
     (if ad_portable d \<noteq> None \<or> length (ad_native_variants d) \<noteq> 1 then Err ''sync_merge.extension_shape_invalid''
      else bind_result (ok_or ''sync_merge.extension_shape_invalid'' (bt_get (ad_native_variants d) Pi)) (\<lambda>component.
        if nv_format component \<noteq> native_extension_format then Err ''sync_merge.extension_format_invalid''
        else bind_result (catalog_native_extension objects (nv_object_hash component)) (\<lambda>obj.
          if ne_harness obj \<noteq> Pi then Err ''sync_merge.native_harness_mismatch''
          else bind_result (map_err ''sync_merge.derived_risk_invalid'' (assess_native_executable_tree_risk (ne_tree obj))) (\<lambda>_.
          bind_result (map_err ''sync_merge.derived_fidelity_invalid'' (extension_compatibility (ne_hash obj))) (\<lambda>compatibility.
          let a = asset_refresh_content_hash H
                \<lparr>asset_id = ad_id d, asset_kind_of = Extension,
                 asset_content_hash = content_hash_digest H ''pending-native-extension-merge'',
                 asset_provenance = ad_provenance d, asset_portable = None,
                 asset_native_variants = recompute_class Executable (ad_native_variants d) Pi,
                 asset_compatibility = compatibility, asset_content_class = Executable,
                 asset_required_bindings = ad_required_bindings d\<rparr>
          in and_then (validate_extension_snapshot_asset H a objects) (Ok a))))))"

text \<open>The risk of a portable object; the same checks guard the derivation and the snapshot.\<close>

definition portable_object_class :: "yaml_parser \<Rightarrow> stored_skill_tree \<Rightarrow> content_class result" where
  "portable_object_class yaml obj =
     bind_result (ok_or ''sync_merge.portable_document_missing'' (bt_get (ct_files obj) ''SKILL.md'')) (\<lambda>document.
     bind_result (map_err ''sync_merge.portable_document_invalid'' (parse_skill_document yaml (cf_bytes document))) (\<lambda>parsed.
       if psd_native_fields parsed \<noteq> [] then Err ''sync_merge.portable_document_invalid''
       else map_err ''sync_merge.derived_risk_invalid'' (assess_portable_tree_risk obj)))"

definition derive_target ::
  "stored_skill_tree option \<Rightarrow> bool \<Rightarrow> (harness_id, native_variant) btree_map \<Rightarrow> capability_support \<Rightarrow> harness_id
   \<Rightarrow> fidelity_result result" where
  "derive_target portable portable_exact native_components support harness =
     (let r = cs_result support
      in case bt_get native_components harness of
        Some native \<Rightarrow>
          fidelity_result_exact FNative
            (fr_evidence r @ [\<lparr>evidence_kind = ''native.object_hash'', evidence_detail = nv_object_hash native\<rparr>])
            (fr_adapter_version r) (fr_harness_version r)
      | None \<Rightarrow>
          (case portable of
             Some p \<Rightarrow>
               let evidence = fr_evidence r @ [\<lparr>evidence_kind = ''portable.object_hash'', evidence_detail = ct_hash p\<rparr>]
               in if portable_exact
                  then fidelity_result_exact FPortable evidence (fr_adapter_version r) (fr_harness_version r)
                  else fidelity_result_new FPartial
                    [\<lparr>reason_code = ''sync.native_difference'',
                      reason_message = ''origin-native bytes differ from the portable representation''\<rparr>]
                    evidence [] (fr_adapter_version r) (fr_harness_version r)
           | None \<Rightarrow>
               fidelity_result_new FUnsupported
                 [\<lparr>reason_code = ''sync.portable_missing'',
                   reason_message = ''the merged asset has no portable representation for this target''\<rparr>]
                 (fr_evidence r) [] (fr_adapter_version r) (fr_harness_version r)))"

definition derive_target_compatibility ::
  "stored_skill_tree option \<Rightarrow> (harness_id, native_skill_object) btree_map \<Rightarrow> (harness_id, native_variant) btree_map
   \<Rightarrow> tier_one_capabilities \<Rightarrow> (harness_id, fidelity_result) btree_map result" where
  "derive_target_compatibility portable native_objects native_components capabilities =
     (let portable_exact = (case portable of
            Some p \<Rightarrow> list_all (\<lambda>native. ct_hash (no_tree native) = ct_hash p) (bt_values native_objects) | None \<Rightarrow> False)
      in try_fold (\<lambda>results harness.
           bind_result (skill_support capabilities harness) (\<lambda>support.
           bind_result (map_err ''sync_merge.derived_fidelity_invalid''
               (derive_target portable portable_exact native_components support harness)) (\<lambda>r.
             Ok (bt_insert harness r results)))) [] tier_one_harnesses)"

definition assess_natives ::
  "yaml_parser \<Rightarrow> content_class \<Rightarrow> (harness_id, native_skill_object) btree_map
   \<Rightarrow> (content_class \<times> (harness_id, content_class) btree_map) result" where
  "assess_natives yaml class native_objects =
     try_fold (\<lambda>(class, classes) (harness, obj).
         bind_result (map_err ''sync_merge.derived_risk_invalid'' (assess_native_skill_object_risk yaml obj)) (\<lambda>native_class.
           Ok (max class native_class, bt_insert harness native_class classes)))
       (class, []) native_objects"

definition collect_natives ::
  "'d skill_object_catalog \<Rightarrow> (harness_id, native_variant) btree_map \<Rightarrow> (harness_id, native_skill_object) btree_map result" where
  "collect_natives objects variants =
     try_fold (\<lambda>m (harness, component).
         bind_result (catalog_native objects (nv_object_hash component)) (\<lambda>obj. Ok (bt_insert harness obj m))) [] variants"

definition derive_asset ::
  "(string \<Rightarrow> string) \<Rightarrow> object_codec \<Rightarrow> 'd skill_object_catalog \<Rightarrow> tier_one_capabilities \<Rightarrow> asset_draft \<Rightarrow> asset result" where
  "derive_asset H codec objects capabilities d =
     (if ad_kind d = Extension then derive_extension_asset H objects d
      else bind_result (case ad_portable d of
             None \<Rightarrow> Ok None
           | Some component \<Rightarrow> bind_result (catalog_portable objects (pc_object_hash component)) (\<lambda>obj. Ok (Some obj)))
        (\<lambda>portable_object.
      bind_result (collect_natives objects (ad_native_variants d)) (\<lambda>native_objects.
      bind_result (case portable_object of
             None \<Rightarrow> Ok DataOnly
           | Some obj \<Rightarrow> bind_result (portable_object_class (oc_yaml codec) obj) (\<lambda>c. Ok (max DataOnly c)))
        (\<lambda>portable_class.
      bind_result (assess_natives (oc_yaml codec) portable_class native_objects) (\<lambda>(content_class, native_classes).
      let variants = fold (\<lambda>(harness, class) vs. recompute_class class vs harness) native_classes (ad_native_variants d)
      in bind_result (derive_target_compatibility portable_object native_objects variants capabilities) (\<lambda>compatibility.
         Ok (asset_refresh_content_hash H
           \<lparr>asset_id = ad_id d, asset_kind_of = ad_kind d,
            asset_content_hash = content_hash_digest H ''pending-semantic-merge'',
            asset_provenance = ad_provenance d, asset_portable = ad_portable d, asset_native_variants = variants,
            asset_compatibility = compatibility, asset_content_class = content_class,
            asset_required_bindings = ad_required_bindings d\<rparr>)))))))"

definition rederive_skill_asset ::
  "(string \<Rightarrow> string) \<Rightarrow> object_codec \<Rightarrow> 'd skill_object_catalog \<Rightarrow> tier_one_capabilities \<Rightarrow> string
   \<Rightarrow> (string, component_provenance) btree_map \<Rightarrow> portable_content \<Rightarrow> (harness_id, native_variant) btree_map
   \<Rightarrow> asset result" where
  "rederive_skill_asset H codec objects capabilities i provenance portable variants =
     derive_asset H codec objects capabilities
       \<lparr>ad_id = i, ad_kind = Skill, ad_provenance = provenance, ad_portable = Some portable,
        ad_native_variants = variants, ad_required_bindings = []\<rparr>"

section \<open>The merge over a catalog\<close>

definition merge_manifests ::
  "(string \<Rightarrow> string) \<Rightarrow> object_codec \<Rightarrow> 'd document_view \<Rightarrow> environment_manifest \<Rightarrow> environment_manifest
   \<Rightarrow> environment_manifest \<Rightarrow> 'd skill_object_catalog \<Rightarrow> tier_one_capabilities \<Rightarrow> sync_limits
   \<Rightarrow> semantic_merge_result result" where
  "merge_manifests H codec view base local remote objects capabilities limits =
     merge_manifests_with H (validate_limits codec view objects) (derive_asset H codec objects capabilities)
       limits base local remote"

end
