(* ===== verification/Sync_Laws.thy ===== *)
theory Sync_Laws
  imports Sync_Records
begin

text \<open>
  What the records of synchronization promise: the descriptor check in unbounded arithmetic, the limits
  that can be constructed, and the canonical text of retained bases and of the pointer to them.
\<close>

section \<open>Descriptors\<close>

lemma check_descriptors_Ok:
  "(\<exists>roots' n'. try_fold (check_descriptor limits) (roots, n) ds = Ok (roots', n')) \<longleftrightarrow>
     (\<forall>d\<in>set ds. 0 < unat (od_encoded_len d) \<and> unat (od_encoded_len d) \<le> unat (sl_max_object_bytes limits))
     \<and> (ds \<noteq> [] \<longrightarrow> unat n + sum_list (map (unat \<circ> od_encoded_len) ds) \<le> unat (sl_max_total_object_bytes limits))
     \<and> distinct (map od_root ds) \<and> set (map od_root ds) \<inter> set roots = {}"
proof (induction ds arbitrary: roots n)
  case (Cons d ds)
  have bound: "unat (sl_max_total_object_bytes limits) < 2 ^ 64"
    using unsigned_less[of "sl_max_total_object_bytes limits"] by simp
  show ?case
  proof (cases "unat n + unat (od_encoded_len d) < 2 ^ 64")
    case True
    then have "u64_checked_add n (od_encoded_len d) = Some (n + od_encoded_len d)"
      and "unat (n + od_encoded_len d) = unat n + unat (od_encoded_len d)"
      using u64_checked_add_Some u64_unat_add by simp_all
    then show ?thesis using Cons.IH[of "bs_insert (od_root d) roots" "n + od_encoded_len d"]
      by (auto simp: check_descriptor_def bind_result_Ok_iff bs_has_def word_less_nat_alt word_le_nat_alt unat_gt_0
          split: if_splits)
  next
    case False
    then have "u64_checked_add n (od_encoded_len d) = None" by (simp add: u64_checked_add_None)
    then show ?thesis using False bound by (auto simp: check_descriptor_def split: if_splits)
  qed
qed simp

section \<open>The default limits\<close>

definition default_limits :: "git_sync_limits \<Rightarrow> sync_limits" where
  "default_limits git =
     \<lparr>sl_max_snapshot_bytes = 268435456, sl_max_control_bytes = 4194304, sl_max_manifest_bytes = 4194304,
      sl_max_lock_bytes = 4194304, sl_max_object_count = 4096, sl_max_object_bytes = 16777216,
      sl_max_total_object_bytes = 251658240, sl_max_conflicts = 1024, sl_max_components = 65536,
      sl_max_backend_history = 4096, sl_git = git\<rparr>"

lemma default_limits_Ok:
  "\<exists>git. git_sync_limits_default = Ok git \<and> sync_limits_default = Ok (default_limits git)
     \<and> unat (gl_max_received_pack_bytes git) \<le> unat (gl_max_response_body_bytes git)
     \<and> unat (gl_exchange_deadline_ms git) \<le> unat (gl_operation_deadline_ms git)"
proof -
  obtain git where git: "git_sync_limits_default = Ok git"
    "unat (gl_max_received_pack_bytes git) \<le> unat (gl_max_response_body_bytes git)"
    "unat (gl_exchange_deadline_ms git) \<le> unat (gl_operation_deadline_ms git)"
    by (simp add: git_sync_limits_default_def git_sync_limits_new_def MAX_SUPPORTED_SYNC_COMPONENTS_def)
  have "u64_saturating_add 4194304 4194304 = 8388608"
    by (rule word_unat_eq_iff[THEN iffD2]) (simp add: u64_saturating_add_unat)
  then have "sync_limits_default = Ok (default_limits git)"
    unfolding sync_limits_default_def sync_limits_new_def git(1)
    by (simp add: default_limits_def MAX_SUPPORTED_SYNC_COMPONENTS_def)
  then show ?thesis using git by blast
qed

section \<open>Properties\<close>

text \<open>The descriptor check is exact: it accepts precisely when the count, every encoded length, which is
  not zero, and the true sum of the lengths are within the limits and no two descriptors claim one root; an
  aggregate that overflows 64 bits is never accepted.\<close>

theorem descriptor_check_is_exact:
  "validate_descriptors objects limits = Ok () \<longleftrightarrow>
     length objects \<le> unat (sl_max_object_count limits)
     \<and> list_all (\<lambda>d. 0 < unat (od_encoded_len d) \<and> unat (od_encoded_len d) \<le> unat (sl_max_object_bytes limits)) objects
     \<and> sum_list (map (unat \<circ> od_encoded_len) objects) \<le> unat (sl_max_total_object_bytes limits)
     \<and> distinct (map od_root objects)"
  using check_descriptors_Ok[of limits "[]" 0 objects]
  by (auto simp: validate_descriptors_def bind_result_Ok_iff list_all_iff)

text \<open>Limits can be constructed exactly when none of them is zero, the component limit is supported, one
  object fits the aggregate, and the manifest and the lockfile together, their sum capped at the largest
  64-bit value, fit the snapshot; the constructor returns them as given, with the default Git limits.\<close>

theorem sync_limits_are_consistent:
  "sync_limits_new snapshot control manifest lock count obj aggregate conflicts components history = Ok l \<longleftrightarrow>
     0 \<notin> {snapshot, control, manifest, lock, count, obj, aggregate, conflicts, components, history}
     \<and> unat components \<le> 65536 \<and> unat obj \<le> unat aggregate
     \<and> min (2 ^ 64 - 1) (unat manifest + unat lock) \<le> unat snapshot
     \<and> git_sync_limits_default = Ok (sl_git l)
     \<and> l = \<lparr>sl_max_snapshot_bytes = snapshot, sl_max_control_bytes = control, sl_max_manifest_bytes = manifest,
         sl_max_lock_bytes = lock, sl_max_object_count = count, sl_max_object_bytes = obj,
         sl_max_total_object_bytes = aggregate, sl_max_conflicts = conflicts, sl_max_components = components,
         sl_max_backend_history = history, sl_git = sl_git l\<rparr>"
  by (cases l) (auto simp: sync_limits_new_def bind_result_Ok_iff word_less_nat_alt u64_saturating_add_unat
      MAX_SUPPORTED_SYNC_COMPONENTS_def)

text \<open>The defaults construct: neither \<open>expect\<close> on the default limits can panic, and the result has the
  documented values, with a snapshot limit the largest manifest, lockfile and object catalog fit together.\<close>

theorem default_limits_construct:
  "\<exists>git l. git_sync_limits_default = Ok git \<and> sync_limits_default = Ok l \<and> sl_git l = git
     \<and> unat (sl_max_components l) = 65536 \<and> unat (sl_max_conflicts l) = 1024 \<and> unat (sl_max_object_count l) = 4096
     \<and> unat (sl_max_manifest_bytes l) + unat (sl_max_lock_bytes l) + unat (sl_max_total_object_bytes l)
         \<le> unat (sl_max_snapshot_bytes l)
     \<and> unat (gl_max_received_pack_bytes git) \<le> unat (gl_max_response_body_bytes git)
     \<and> unat (gl_exchange_deadline_ms git) \<le> unat (gl_operation_deadline_ms git)"
proof -
  obtain git l where "git_sync_limits_default = Ok git" "sync_limits_default = Ok l" and l: "l = default_limits git"
    "unat (gl_max_received_pack_bytes git) \<le> unat (gl_max_response_body_bytes git)"
    "unat (gl_exchange_deadline_ms git) \<le> unat (gl_operation_deadline_ms git)"
    using default_limits_Ok by blast
  then show ?thesis by (intro exI[of _ git] exI[of _ l]) (simp add: default_limits_def)
qed

text \<open>A base pointer has one text: what \<open>from_json\<close> accepts, within the control limit, is exactly the text
  that \<open>to_json\<close> writes for the pointer it returns, so an altered byte anywhere is refused, and the text of a
  pointer the JSON decoder reads back loads as that pointer.\<close>

theorem base_pointer_text_is_canonical:
  assumes "decode (sync_base_pointer_to_json encode (sync_base_pointer_new remote_key generation))
      = Some (sync_base_pointer_new remote_key generation)"
  shows "sync_base_pointer_from_json encode decode input limits = Ok (sync_base_pointer_new remote_key generation) \<longleftrightarrow>
      input = sync_base_pointer_to_json encode (sync_base_pointer_new remote_key generation)
      \<and> length input \<le> unat (sl_max_control_bytes limits)"
proof
  assume "sync_base_pointer_from_json encode decode input limits = Ok (sync_base_pointer_new remote_key generation)"
  then show "input = sync_base_pointer_to_json encode (sync_base_pointer_new remote_key generation)
      \<and> length input \<le> unat (sl_max_control_bytes limits)"
    by (auto simp: sync_base_pointer_from_json_def bind_result_Ok_iff Let_def over_control_limit_def split: if_splits)
next
  assume "input = sync_base_pointer_to_json encode (sync_base_pointer_new remote_key generation)
      \<and> length input \<le> unat (sl_max_control_bytes limits)"
  then show "sync_base_pointer_from_json encode decode input limits = Ok (sync_base_pointer_new remote_key generation)"
    using assms by (auto simp: sync_base_pointer_from_json_def over_control_limit_def Let_def sync_base_pointer_new_def)
qed

theorem base_pointer_text_is_canonical_witness:
  "sync_base_pointer_from_json (\<lambda>p. ''{}'') (\<lambda>t. Some (sync_base_pointer_new ''r'' ''g'')) (''{}'' @ [CHR 0x0A])
     (projr sync_limits_default) = Ok (sync_base_pointer_new ''r'' ''g'')
   \<and> sync_base_pointer_from_json (\<lambda>p. ''{}'') (\<lambda>t. Some (sync_base_pointer_new ''r'' ''g'')) ''{}''
     (projr sync_limits_default) \<noteq> Ok (sync_base_pointer_new ''r'' ''g'')"
proof -
  obtain git where default: "sync_limits_default = Ok (default_limits git)" using default_limits_Ok by blast
  show ?thesis unfolding default
    using base_pointer_text_is_canonical[of "\<lambda>t. Some (sync_base_pointer_new ''r'' ''g'')" "\<lambda>p. ''{}''" "''r''" "''g''"]
    by (simp add: sync_base_pointer_to_json_def default_limits_def)
qed

end
