(* ===== verification/Merge_Contents.thy ===== *)
theory Merge_Contents
  imports Merge_Derivation Sync_Laws
begin

text \<open>
  The contract of the semantic merge over a catalog: what its outcome is, that the two sides may be
  exchanged, and that a ready merge contains every change of both sides and loses nothing of either.
\<close>

section \<open>Derived assets keep what was authored\<close>

text \<open>
  What the merge takes over from its inputs: everything of an asset but its derived fields, which are the
  compatibility, the content classes and the content hash.
\<close>

definition authored :: "asset \<Rightarrow> asset_draft \<Rightarrow> bool" where
  "authored a d \<longleftrightarrow>
     asset_id a = ad_id d \<and> asset_kind_of a = ad_kind d \<and> asset_provenance a = ad_provenance d
     \<and> asset_portable a = ad_portable d \<and> asset_required_bindings a = ad_required_bindings d
     \<and> native_at a = map_option normalized_native \<circ> bt_get (ad_native_variants d)"

lemma recompute_class_normalized:
  "map_option normalized_native (bt_get (recompute_class c vs h) k) = map_option normalized_native (bt_get vs k)"
  by (auto simp: recompute_class_def bt_get_insert normalized_native_def split: option.split)

lemma recompute_classes_normalized:
  "map_option normalized_native (bt_get (fold (\<lambda>(h, c) vs. recompute_class c vs h) cs vs) k)
     = map_option normalized_native (bt_get vs k)"
proof (induction cs arbitrary: vs)
  case (Cons x cs)
  then show ?case by (cases x) (simp add: recompute_class_normalized)
qed simp

lemma derive_extension_asset_authored:
  "derive_extension_asset H objects d = Ok a \<Longrightarrow> ad_kind d = Extension \<Longrightarrow> authored a d"
  by (auto simp: derive_extension_asset_def bind_result_Ok_iff and_then_Ok_iff Let_def authored_def native_at_def
      asset_refresh_content_hash_def fun_eq_iff recompute_class_normalized split: if_splits)

lemma derive_asset_authored:
  assumes "derive_asset H codec objects capabilities d = Ok a"
  shows "authored a d"
proof (cases "ad_kind d = Extension")
  case True
  then show ?thesis using assms derive_extension_asset_authored by (simp add: derive_asset_def)
next
  case False
  then show ?thesis using assms
    by (auto simp: derive_asset_def bind_result_Ok_iff Let_def authored_def native_at_def
        asset_refresh_content_hash_def fun_eq_iff recompute_classes_normalized split: prod.splits)
qed

lemma derive_assets_fold:
  assumes "try_fold (\<lambda>assets (i, d). bind_result (derive d) (\<lambda>a. Ok (bt_insert i a assets))) acc ds = Ok as"
    and "distinct (map fst ds)"
  shows "case map_of ds i of None \<Rightarrow> bt_get as i = bt_get acc i | Some d \<Rightarrow> \<exists>a. derive d = Ok a \<and> bt_get as i = Some a"
  using assms
proof (induction ds arbitrary: acc)
  case (Cons e ds)
  obtain j d where e: "e = (j, d)" by (cases e)
  obtain a where a: "derive d = Ok a"
    and run: "try_fold (\<lambda>assets (i, d). bind_result (derive d) (\<lambda>a. Ok (bt_insert i a assets))) (bt_insert j a acc) ds = Ok as"
    using Cons.prems(1) by (auto simp: e bind_result_Ok_iff)
  have "distinct (map fst ds)" "j \<notin> fst ` set ds" using Cons.prems(2) by (auto simp: e)
  then show ?case
  proof (cases "i = j")
    case True
    then have "map_of ds i = None" using \<open>j \<notin> fst ` set ds\<close> by (simp add: map_of_eq_None_iff)
    then show ?thesis using Cons.IH[OF run] a True Cons.prems(2) by (simp add: e bt_get_insert)
  next
    case False
    then show ?thesis using Cons.IH[OF run] \<open>distinct (map fst ds)\<close>
      by (cases "map_of ds i") (simp_all add: e bt_get_insert)
  qed
qed simp

lemma derive_assets_get:
  "derive_assets derive ds = Ok as \<Longrightarrow> bt_wf ds \<Longrightarrow>
     case bt_get ds i of None \<Rightarrow> bt_get as i = None | Some d \<Rightarrow> \<exists>a. derive d = Ok a \<and> bt_get as i = Some a"
  using derive_assets_fold[of derive "[]" ds as i] unfolding derive_assets_def bt_get_def[of ds]
  by (cases "map_of ds i") (auto simp: bt_wf_distinct btm.get_empty)

section \<open>Conflicts are bounded\<close>

definition conflicts_within :: "sync_limits \<Rightarrow> conflicts \<Rightarrow> bool" where
  "conflicts_within lim c \<longleftrightarrow> length c \<le> unat (sl_max_conflicts lim)"

lemma conflicts_pushed: "push_conflict lim code s c = Ok c' \<Longrightarrow> conflicts_within lim c'"
  by (auto dest: push_conflict_Ok simp: conflicts_within_def)

lemma bounded_fold:
  assumes "try_fold f (m, c) xs = Ok (m', c')" and "conflicts_within lim c"
    and "\<And>u x v e e'. f (u, e) x = Ok (v, e') \<Longrightarrow> conflicts_within lim e \<Longrightarrow> conflicts_within lim e'"
  shows "conflicts_within lim c'"
  using try_fold_invariant[OF assms(1), where P = "\<lambda>s. conflicts_within lim (snd s)"] assms(2,3) by fastforce

lemma merge_existing_asset_bounded:
  assumes "merge_existing_asset lim b l r c = Ok (d, c')" "conflicts_within lim c"
  shows "conflicts_within lim c'"
proof -
  obtain k c1 p c2 ns where parts: "merge_kind lim b l r c = Ok (k, c1)" "merge_portable lim b l r c1 = Ok (p, c2)"
    "merge_natives lim b l r c2 = Ok (ns, c')"
    using assms(1) by (auto simp: merge_existing_asset_def bind_result_Ok_iff)
  have "conflicts_within lim c1" using parts(1) assms(2)
    by (auto simp: merge_kind_def bind_result_Ok_iff conflicts_pushed split: option.splits)
  then have c2: "conflicts_within lim c2" using parts(2)
    by (auto simp: merge_portable_def bind_result_Ok_iff conflicts_pushed split: option.splits if_splits)
  have native: "conflicts_within lim e'" if "merge_native_value lim b l r h e = Ok (v, e')" "conflicts_within lim e" for h e e' v
    using that by (auto simp: merge_native_value_def bind_result_Ok_iff conflicts_pushed Let_def split: option.splits if_splits)
  from parts(3) show ?thesis
    unfolding merge_natives_def by (rule bounded_fold) (auto simp: c2 bind_result_Ok_iff intro: native)
qed

lemma select_asset_draft_bounded:
  "select_asset_draft lim i b l r c = Ok (d, c') \<Longrightarrow> conflicts_within lim c \<Longrightarrow> conflicts_within lim c'"
  by (cases b; cases l; cases r)
    (auto simp: select_asset_draft_def bind_result_Ok_iff conflicts_pushed intro: merge_existing_asset_bounded split: if_splits)

lemma merge_assets_bounded:
  assumes "merge_assets lim b l r c = Ok (ds, c')" "conflicts_within lim c"
  shows "conflicts_within lim c'"
  using assms(1) unfolding merge_assets_def
proof (rule bounded_fold)
  fix u i v e e' assume "merge_one_asset lim b l r (u, e) i = Ok (v, e')" "conflicts_within lim e"
  then show "conflicts_within lim e'"
    by (auto simp: merge_one_asset_def bind_result_Ok_iff conflicts_pushed dest: select_asset_draft_bounded
        split: option.splits if_splits)
qed (rule assms(2))

lemma select_pack_source_bounded:
  "select_pack_source lim i b l r c = Ok (d, c') \<Longrightarrow> conflicts_within lim c \<Longrightarrow> conflicts_within lim c'"
  by (cases b; cases l; cases r)
    (auto simp: select_pack_source_def bind_result_Ok_iff conflicts_pushed split: option.splits if_splits)

lemma merge_packs_bounded:
  assumes "merge_packs lim b l r c = Ok (ds, c')" "conflicts_within lim c"
  shows "conflicts_within lim c'"
  using assms(1) unfolding merge_packs_def
proof (rule bounded_fold)
  fix u i v e e' assume "merge_one_pack lim b l r (u, e) i = Ok (v, e')" "conflicts_within lim e"
  then show "conflicts_within lim e'"
    by (auto simp: merge_one_pack_def bind_result_Ok_iff conflicts_pushed Let_def dest: select_pack_source_bounded
        split: option.splits if_splits)
qed (rule assms(2))

lemma reject_changed_profiles_bounded:
  assumes "reject_changed_profiles lim b l r c = Ok c'" "conflicts_within lim c"
  shows "conflicts_within lim c'"
  using assms(1) unfolding reject_changed_profiles_def
  by (rule try_fold_invariant) (auto simp: assms(2) reject_changed_profile_def conflicts_pushed split: if_splits)

section \<open>A ready merge\<close>

text \<open>The merged asset and the merged pack at an identity, in terms of the three inputs at that identity.\<close>

definition asset_merged :: "asset option \<Rightarrow> asset option \<Rightarrow> asset option \<Rightarrow> asset option \<Rightarrow> bool" where
  "asset_merged b l r m \<longleftrightarrow> (case m of
     None \<Rightarrow> b = None \<and> l = None \<and> r = None
   | Some a \<Rightarrow> (case b of
        Some ba \<Rightarrow> \<exists>la ra. l = Some la \<and> r = Some ra \<and> asset_id a = asset_id ba
          \<and> takes_changes (asset_kind_of ba) (asset_kind_of la) (asset_kind_of ra) (asset_kind_of a)
          \<and> takes_changes (asset_portable ba) (asset_portable la) (asset_portable ra) (asset_portable a)
          \<and> (\<forall>h. takes_changes (native_at ba h) (native_at la h) (native_at ra h) (native_at a h))
          \<and> asset_required_bindings a = merge_set_membership (asset_required_bindings ba) (asset_required_bindings la)
               (asset_required_bindings ra)
      | None \<Rightarrow> \<exists>x. (l = Some x \<and> r = None \<or> l = None \<and> r = Some x \<or> l = Some x \<and> r = Some x)
          \<and> authored a (draft_from_asset x)))"

definition pack_merged :: "pack option \<Rightarrow> pack option \<Rightarrow> pack option \<Rightarrow> pack option \<Rightarrow> bool" where
  "pack_merged b l r m \<longleftrightarrow> (case m of
     None \<Rightarrow> b = None \<and> l = None \<and> r = None
   | Some p \<Rightarrow>
       set (bt_keys (pack_members p)) = set (pack_member_ids b) \<union> set (pack_member_ids l) \<union> set (pack_member_ids r)
       \<and> set (pack_member_ids b) \<subseteq> set (pack_member_ids l) \<inter> set (pack_member_ids r)
       \<and> (case b of
            Some bp \<Rightarrow> \<exists>lp rp. l = Some lp \<and> r = Some rp
              \<and> takes_changes (pack_source_of bp) (pack_source_of lp) (pack_source_of rp) (pack_source_of p)
          | None \<Rightarrow> \<exists>q. (l = Some q \<or> r = Some q) \<and> pack_source_of p = pack_source_of q))"

lemma native_at_normalized: "map_option normalized_native (native_at a h) = native_at a h"
  by (cases "bt_get (asset_native_variants a) h") (simp_all add: native_at_def normalized_native_def)

lemma takes_changes_normalized:
  "takes_changes (native_at b h) (native_at l h) (native_at r h) x \<Longrightarrow> map_option normalized_native x = x"
  unfolding takes_changes_def using native_at_normalized by metis

lemma asset_merged_derived:
  assumes "asset_merges b l r d" "authored a d"
  shows "asset_merged b l r (Some a)"
proof (cases b)
  case None
  then show ?thesis using assms by (auto simp: asset_merges_def asset_merged_def)
next
  case (Some ba)
  then obtain la ra where sides: "l = Some la" "r = Some ra"
    and natives: "\<forall>h. takes_changes (native_at ba h) (native_at la h) (native_at ra h) (bt_get (ad_native_variants d) h)"
    using assms(1) by (auto simp: asset_merges_def)
  have "native_at a h = bt_get (ad_native_variants d) h" for h
    using takes_changes_normalized natives assms(2) by (simp add: authored_def fun_eq_iff) blast
  then show ?thesis using assms by (auto simp: asset_merges_def asset_merged_def authored_def Some sides)
qed

lemma pack_merged_shape:
  assumes "pack_merges b l r d" "pack_shape p = pack_shape (pending_pack H d)"
  shows "pack_merged b l r (Some p)"
proof -
  have "pack_source_of p = pd_source d" "set (bt_keys (pack_members p)) = set (pd_members d)"
    using assms(2) by (auto simp: pack_shape_def pending_pack_def pack_source_of_def bt_keys_def image_image)
  then show ?thesis using assms(1) by (auto simp: pack_merges_def pack_merged_def split: option.splits)
qed

lemma merged_assets_at:
  assumes "merge_assets lim b l r [] = Ok (ds, [])" "derive_assets (derive_asset H codec objects capabilities) ds = Ok as"
  shows "asset_merged (bt_get (em_assets b) i) (bt_get (em_assets l) i) (bt_get (em_assets r) i) (bt_get as i)"
proof -
  have wf: "bt_wf ds" and merges: "case bt_get ds i of
      None \<Rightarrow> bt_get (em_assets b) i = None \<and> bt_get (em_assets l) i = None \<and> bt_get (em_assets r) i = None
    | Some d \<Rightarrow> asset_merges (bt_get (em_assets b) i) (bt_get (em_assets l) i) (bt_get (em_assets r) i) d"
    using merge_assets_quiet[OF assms(1)] by blast+
  note derived = derive_assets_get[OF assms(2) wf, of i]
  show ?thesis
  proof (cases "bt_get ds i")
    case None
    then show ?thesis using merges derived by (simp add: asset_merged_def)
  next
    case (Some d)
    then obtain a where "derive_asset H codec objects capabilities d = Ok a" "bt_get as i = Some a"
      using derived by auto
    then show ?thesis using merges Some by (auto intro: asset_merged_derived derive_asset_authored)
  qed
qed

lemma merged_packs_at:
  assumes "merge_packs lim b l r c = Ok (ps, [])"
    and "map_option pack_shape (bt_get packs i) = map_option (pack_shape \<circ> pending_pack H) (bt_get ps i)"
  shows "pack_merged (bt_get (em_packs b) i) (bt_get (em_packs l) i) (bt_get (em_packs r) i) (bt_get packs i)"
proof -
  have merges: "case bt_get ps i of
      None \<Rightarrow> bt_get (em_packs b) i = None \<and> bt_get (em_packs l) i = None \<and> bt_get (em_packs r) i = None
    | Some d \<Rightarrow> pd_id d = i \<and> pack_merges (bt_get (em_packs b) i) (bt_get (em_packs l) i) (bt_get (em_packs r) i) d"
    using merge_packs_quiet[OF assms(1)] by blast
  show ?thesis
  proof (cases "bt_get ps i")
    case None
    then show ?thesis using merges assms(2) by (simp add: pack_merged_def)
  next
    case (Some d)
    then obtain p where "bt_get packs i = Some p" "pack_shape p = pack_shape (pending_pack H d)"
      using assms(2) by auto
    then show ?thesis using merges Some by (auto intro: pack_merged_shape)
  qed
qed

lemma merge_manifests_with_Ok:
  assumes "merge_manifests_with H ck derive lim b l r = Ok out"
  obtains ds c1 ps c2 cs where "merge_assets lim b l r [] = Ok (ds, c1)" "merge_packs lim b l r c1 = Ok (ps, c2)"
    "reject_changed_profiles lim b l r c2 = Ok cs"
    "if cs \<noteq> [] then out = conflicted (sort_conflicts cs)
     else build_merged H derive b (merge_bindings b l r) ds ps = Ok out"
  using assms by (force simp: merge_manifests_with_def and_then_Ok_iff bind_result_Ok_iff split: if_splits)

lemma build_merged_Ok:
  assumes "build_merged H derive b bs ds ps = Ok out"
  obtains as m k where "derive_assets derive ds = Ok as"
    "same_shape \<lparr>em_schema_version = V1, em_assets = as, em_packs = bt_map (pending_pack H) ps,
       em_profiles = em_profiles b, em_required_bindings = bs\<rparr> m" "validate_manifest H m = Ok ()"
    "derive_lockfile H m = Ok k" "out = \<lparr>sm_merged_manifest = Some m, sm_merged_lock = Some k, sm_conflicts = []\<rparr>"
  using assms by (auto simp: build_merged_def bind_result_Ok_iff map_err_Ok_iff dest: refresh_pack_revisions_shape)

section \<open>Properties\<close>

text \<open>C24: The two sides of a merge are interchangeable: swapping local and remote gives the same error, the
  same conflicts or the same merged manifest and lockfile.\<close>

theorem merge_sides_are_interchangeable:
  "merge_manifests H codec view base local remote objects capabilities limits
     = merge_manifests H codec view base remote local objects capabilities limits"
  unfolding merge_manifests_def by (rule merge_manifests_with_sym)

text \<open>C2: The outcome of a merge is either ready or conflicted.  The conflicts are sorted and within the
  limit; without any there is a merged manifest, which validates, and the lockfile derived from it, which
  validates too; with conflicts there is neither.\<close>

theorem merge_outcome_is_ready_or_conflicted:
  assumes "merge_manifests H codec view base local remote objects capabilities limits = Ok out"
  shows "length (sm_conflicts out) \<le> unat (sl_max_conflicts limits) \<and> sorted (map conflict_key (sm_conflicts out))
    \<and> (case sm_merged_manifest out of
         None \<Rightarrow> sm_conflicts out \<noteq> [] \<and> sm_merged_lock out = None
       | Some m \<Rightarrow> sm_conflicts out = [] \<and> validate_manifest H m = Ok ()
           \<and> (\<exists>k. sm_merged_lock out = Some k \<and> derive_lockfile H m = Ok k \<and> validate_lockfile H k = Ok ()))"
proof -
  obtain ds c1 ps c2 cs where parts: "merge_assets limits base local remote [] = Ok (ds, c1)"
      "merge_packs limits base local remote c1 = Ok (ps, c2)" "reject_changed_profiles limits base local remote c2 = Ok cs"
    and out: "if cs \<noteq> [] then out = conflicted (sort_conflicts cs)
      else build_merged H (derive_asset H codec objects capabilities) base (merge_bindings base local remote) ds ps = Ok out"
    using assms unfolding merge_manifests_def by (rule merge_manifests_with_Ok)
  have "conflicts_within limits []" by (simp add: conflicts_within_def)
  then have within: "conflicts_within limits cs"
    using parts merge_assets_bounded merge_packs_bounded reject_changed_profiles_bounded by blast
  show ?thesis
  proof (cases "cs = []")
    case False
    have "sorted (map conflict_key (sort_conflicts cs))" unfolding sort_conflicts_def by (rule sorted_sort_key)
    moreover have "sort_key conflict_key cs \<noteq> []" using False by (metis set_empty set_sort)
    ultimately show ?thesis using out within False by (simp add: conflicted_def conflicts_within_def sort_conflicts_def)
  next
    case True
    then have "build_merged H (derive_asset H codec objects capabilities) base (merge_bindings base local remote) ds ps = Ok out"
      using out by simp
    then show ?thesis by (rule build_merged_Ok) (auto simp: derive_lockfile_Ok_iff intro: derived_lockfile_valid)
  qed
qed

text \<open>C1: A ready merge contains both sides and loses nothing.  At every identity the merged asset has the
  kind, the portable component, the native component of each harness and the bindings that take the change
  of whichever side changed them, an asset added on one side is there as that side authored it, a merged
  pack has every member of both sides, and the profiles are those all three manifests agree on.\<close>

theorem ready_merge_contains_both_sides:
  assumes "merge_manifests H codec view base local remote objects capabilities limits = Ok out"
    and "sm_merged_manifest out = Some m"
  shows "(\<forall>i. asset_merged (bt_get (em_assets base) i) (bt_get (em_assets local) i) (bt_get (em_assets remote) i)
        (bt_get (em_assets m) i))
    \<and> (\<forall>i. pack_merged (bt_get (em_packs base) i) (bt_get (em_packs local) i) (bt_get (em_packs remote) i)
        (bt_get (em_packs m) i))
    \<and> bt_get (em_profiles local) = bt_get (em_profiles m) \<and> bt_get (em_profiles remote) = bt_get (em_profiles m)
    \<and> em_required_bindings m = merge_bindings base local remote"
proof -
  let ?derive = "derive_asset H codec objects capabilities"
  obtain ds c1 ps c2 cs where parts: "merge_assets limits base local remote [] = Ok (ds, c1)"
      "merge_packs limits base local remote c1 = Ok (ps, c2)" "reject_changed_profiles limits base local remote c2 = Ok cs"
    and out: "if cs \<noteq> [] then out = conflicted (sort_conflicts cs)
      else build_merged H ?derive base (merge_bindings base local remote) ds ps = Ok out"
    using assms(1) unfolding merge_manifests_def by (rule merge_manifests_with_Ok)
  have "cs = []" using out assms(2) by (auto simp: conflicted_def split: if_splits)
  then have built: "build_merged H ?derive base (merge_bindings base local remote) ds ps = Ok out" using out by simp
  note profiles = reject_changed_profiles_quiet[OF parts(3)[unfolded \<open>cs = []\<close>]]
  then have packs: "merge_packs limits base local remote c1 = Ok (ps, [])" using parts(2) by simp
  then have assets: "merge_assets limits base local remote [] = Ok (ds, [])" using parts(1) merge_packs_quiet by blast
  obtain as m' k where as: "derive_assets ?derive ds = Ok as"
    and shape': "same_shape \<lparr>em_schema_version = V1, em_assets = as, em_packs = bt_map (pending_pack H) ps,
       em_profiles = em_profiles base, em_required_bindings = merge_bindings base local remote\<rparr> m'"
    and "out = \<lparr>sm_merged_manifest = Some m', sm_merged_lock = Some k, sm_conflicts = []\<rparr>"
    using built by (rule build_merged_Ok)
  then have "m' = m" using assms(2) by simp
  note shape = shape'[unfolded this]
  have "asset_merged (bt_get (em_assets base) i) (bt_get (em_assets local) i) (bt_get (em_assets remote) i) (bt_get as i)" for i
    using assets as by (rule merged_assets_at)
  moreover have "pack_merged (bt_get (em_packs base) i) (bt_get (em_packs local) i) (bt_get (em_packs remote) i)
      (bt_get (em_packs m) i)" for i
    using packs by (rule merged_packs_at) (use shape in \<open>simp add: same_shape_def fun_eq_iff bt_get_map option.map_comp\<close>)
  ultimately show ?thesis using shape profiles by (simp add: same_shape_def)
qed

text \<open>A sample merge: both sides start from an empty manifest and each requires a binding of its own.\<close>

definition sample_codec :: object_codec where
  "sample_codec = \<lparr>oc_tree = (\<lambda>_. []), oc_native = (\<lambda>_. []), oc_extension = (\<lambda>_. []), oc_yaml = (\<lambda>_. None)\<rparr>"

definition sample_view :: "unit document_view" where
  "sample_view = \<lparr>dv_kind = (\<lambda>_. PortableInstruction), dv_object_hash = (\<lambda>_. []), dv_to_json = (\<lambda>_. Ok []),
     dv_text = (\<lambda>_. None)\<rparr>"

definition empty_catalog :: "unit skill_object_catalog" where
  "empty_catalog = \<lparr>soc_portable = [], soc_native = [], soc_native_extensions = [], soc_documents = []\<rparr>"

definition sample_outcome :: semantic_merge_result where
  "sample_outcome = \<lparr>sm_merged_manifest = Some (manifest_requiring [''A'', ''B'']),
     sm_merged_lock = Some \<lparr>lf_schema_version = V1, lf_assets = [], lf_packs = []\<rparr>, sm_conflicts = []\<rparr>"

lemma sample_merge:
  "merge_manifests sample_digest sample_codec sample_view (manifest_requiring []) (manifest_requiring [''A''])
     (manifest_requiring [''B'']) empty_catalog [] (default_limits git) = Ok sample_outcome"
proof -
  have limits: "validate_limits sample_codec sample_view empty_catalog (default_limits git) = Ok ()"
    by (simp add: validate_limits_def catalog_count_def usize_checked_add_def catalog_sizes_def empty_catalog_def bt_values_def)
  have budget: "validate_merged_component_budget (default_limits git) (manifest_requiring []) (manifest_requiring [''A''])
      (manifest_requiring [''B'']) = Ok ()"
    by (simp add: validate_merged_component_budget_def manifest_requiring_def key_union_def bs_collect_def bt_keys_def
        add_components_def usize_checked_add_def pack_edges_def default_limits_def)
  have bindings: "merge_bindings (manifest_requiring []) (manifest_requiring [''A'']) (manifest_requiring [''B'']) = [''A'', ''B'']"
    by (simp add: merge_bindings_def manifest_requiring_def merge_set_membership_def bs_collect_def choose3_def bs_has_def)
  have refreshed: "refresh_pack_revisions sample_digest (manifest_requiring bs) = Ok (manifest_requiring bs)" for bs
    using manifest_requiring_valid[of sample_digest bs] unfolding refresh_pack_revisions_def
    by (simp add: manifest_requiring_checks) (simp add: manifest_requiring_def manifest_requiring_checks bt_keys_def)
  have merged: "merge_assets (default_limits git) (manifest_requiring []) (manifest_requiring [''A'']) (manifest_requiring [''B'']) [] = Ok ([], [])"
    "merge_packs (default_limits git) (manifest_requiring []) (manifest_requiring [''A'']) (manifest_requiring [''B'']) [] = Ok ([], [])"
    "reject_changed_profiles (default_limits git) (manifest_requiring []) (manifest_requiring [''A'']) (manifest_requiring [''B'']) [] = Ok []"
    by (simp_all add: merge_assets_def merge_packs_def reject_changed_profiles_def key_union_def manifest_requiring_def
        bt_keys_def bs_collect_def)
  have built: "build_merged sample_digest derive (manifest_requiring []) [''A'', ''B''] [] [] = Ok sample_outcome" for derive
    using refreshed[of "[''A'', ''B'']"] manifest_requiring_lock[of sample_digest "[''A'', ''B'']"]
    by (simp add: build_merged_def derive_assets_def bt_map_def sample_outcome_def) (simp add: manifest_requiring_def)
  show ?thesis
    unfolding merge_manifests_def merge_manifests_with_def limits budget merged bindings
    by (simp add: manifest_requiring_valid merged bindings built)
qed

theorem merge_outcome_is_ready_or_conflicted_witness:
  "merge_manifests sample_digest sample_codec sample_view (manifest_requiring []) (manifest_requiring [''A''])
     (manifest_requiring [''B'']) empty_catalog [] (projr sync_limits_default) = Ok sample_outcome
   \<and> validate_manifest sample_digest (manifest_requiring [''A'', ''B'']) = Ok ()"
proof -
  obtain git where default: "sync_limits_default = Ok (default_limits git)" using default_limits_Ok by blast
  show ?thesis unfolding default
    using merge_outcome_is_ready_or_conflicted[OF sample_merge] sample_merge by (simp add: sample_outcome_def)
qed

theorem ready_merge_contains_both_sides_witness:
  "em_required_bindings (manifest_requiring [''A'', ''B''])
     = merge_bindings (manifest_requiring []) (manifest_requiring [''A'']) (manifest_requiring [''B''])"
  using ready_merge_contains_both_sides[OF sample_merge, of "manifest_requiring [''A'', ''B'']"]
  by (simp add: sample_outcome_def)

end
