(* ===== verification/Snapshots.thy ===== *)
theory Snapshots
  imports Lock_Authority Sync_Records
begin

text \<open>
  \<open>kitrove-core/src/snapshot.rs\<close>: the portable synchronization envelope, its object catalog, its digest
  and its canonical JSON form.  The TOML and JSON codecs of the third-party crates are arguments,
  gathered in \<open>snapshot_codec\<close>.
\<close>

section \<open>Object formats\<close>

definition portable_snapshot_object_kind :: "string \<Rightarrow> snapshot_object_kind option" where
  "portable_snapshot_object_kind format =
     (if format = ''agent-skills/v1'' then Some PortableSkillTree
      else if format = ''kitrove-instruction/v1'' then Some PortableInstruction
      else if format = ''kitrove-prompt-command/v1'' then Some PortablePromptCommand
      else if format = ''kitrove-agent/v1'' then Some PortableAgent
      else if format = ''kitrove-mcp-server/v1'' then Some PortableMcp
      else None)"

definition native_snapshot_object_kind :: "string \<Rightarrow> snapshot_object_kind option" where
  "native_snapshot_object_kind format =
     (if format = ''kitrove-native-skill-object/v1'' then Some NativeSkillObject
      else if format = ''kitrove-native-pi-extension-object/v1'' then Some NativeExtensionObject
      else if format = ''kitrove-native-instruction-region/v1'' then Some NativeInstruction
      else if format = ''kitrove-native-prompt-command/v1'' then Some NativePromptCommand
      else if format = ''kitrove-native-agent/v1'' then Some NativeAgent
      else if format = ''kitrove-native-mcp-entry/v1'' then Some NativeMcp
      else None)"

section \<open>The object catalog\<close>

definition validate_component_count :: "environment_manifest \<Rightarrow> sync_limits \<Rightarrow> unit result" where
  "validate_component_count m limits =
     (let code = ''sync_snapshot.component_limit_exceeded'';
          plus = (\<lambda>count n. ok_or code (usize_checked_add count n))
      in bind_result (plus (length (em_assets m)) (length (em_packs m))) (\<lambda>a.
         bind_result (plus a (length (em_profiles m))) (\<lambda>b.
         bind_result (plus b (length (em_required_bindings m))) (\<lambda>c.
         bind_result (try_fold (\<lambda>count asset.
             bind_result (plus count (if asset_portable asset \<noteq> None then 1 else 0)) (\<lambda>count'.
               plus count' (length (asset_native_variants asset)))) c (bt_values (em_assets m))) (\<lambda>count.
         if count > unat (sl_max_components limits) then Err code else Ok ())))))"

type_synonym expected_objects = "(string, snapshot_object_kind \<times> string) btree_map"

definition insert_expected_object ::
  "expected_objects \<Rightarrow> string \<Rightarrow> snapshot_object_kind \<Rightarrow> string \<Rightarrow> expected_objects result" where
  "insert_expected_object expected root kind hash =
     (if bt_has expected root then Err ''sync_snapshot.duplicate_object_root''
      else Ok (bt_insert root (kind, hash) expected))"

text \<open>The references of an asset in the order of the code: portable first, then the native variants.\<close>

definition object_references :: "asset \<Rightarrow> (snapshot_object_kind option \<times> string \<times> string) list" where
  "object_references a =
     (case asset_portable a of
        Some p \<Rightarrow> [(portable_snapshot_object_kind (pc_format p), pc_root p, pc_object_hash p)] | None \<Rightarrow> [])
     @ map (\<lambda>v. (native_snapshot_object_kind (nv_format v), nv_root v, nv_object_hash v))
         (bt_values (asset_native_variants a))"

definition expect_reference ::
  "expected_objects \<Rightarrow> snapshot_object_kind option \<times> string \<times> string \<Rightarrow> expected_objects result" where
  "expect_reference expected ref =
     (case ref of (kind, root, hash) \<Rightarrow>
        bind_result (ok_or ''sync_snapshot.object_format_unsupported'' kind) (\<lambda>k.
          insert_expected_object expected root k hash))"

definition expected_catalog :: "environment_manifest \<Rightarrow> expected_objects result" where
  "expected_catalog m = try_fold (\<lambda>expected a. try_fold expect_reference expected (object_references a)) [] (bt_values (em_assets m))"

definition bt_remove :: "'k \<Rightarrow> ('k, 'v) btree_map \<Rightarrow> ('k, 'v) btree_map" where
  "bt_remove k m = filter (\<lambda>e. fst e \<noteq> k) m"

definition match_descriptor ::
  "sync_limits \<Rightarrow> expected_objects \<times> 64 word \<Rightarrow> object_descriptor \<Rightarrow> (expected_objects \<times> 64 word) result" where
  "match_descriptor limits s d =
     (case s of (expected, sum_bytes) \<Rightarrow>
        if od_encoded_len d > sl_max_object_bytes limits then Err ''sync_objects.object_bytes_exceeded''
        else bind_result (ok_or ''sync_objects.total_bytes_exceeded'' (u64_checked_add sum_bytes (od_encoded_len d))) (\<lambda>sum_bytes'.
          if sum_bytes' > sl_max_total_object_bytes limits then Err ''sync_objects.total_bytes_exceeded''
          else if bt_get expected (od_root d) = Some (od_kind d, od_object_hash d)
          then Ok (bt_remove (od_root d) expected, sum_bytes')
          else Err ''sync_snapshot.object_catalog_mismatch''))"

definition validate_object_catalog ::
  "environment_manifest \<Rightarrow> object_descriptor btree_set \<Rightarrow> sync_limits \<Rightarrow> unit result" where
  "validate_object_catalog m objects limits =
     (if length objects > unat (sl_max_object_count limits) then Err ''sync_objects.count_exceeded''
      else bind_result (expected_catalog m) (\<lambda>expected.
        bind_result (try_fold (match_descriptor limits) (expected, 0) objects) (\<lambda>(left, _).
          if left \<noteq> [] then Err ''sync_snapshot.object_catalog_mismatch'' else Ok ())))"

section \<open>The digest\<close>

text \<open>\<open>to_le_bytes\<close> of a \<open>u64\<close>.\<close>

definition write_le :: "nat \<Rightarrow> string" where
  "write_le n = rev (write_count n)"

definition hash_text :: "string \<Rightarrow> string" where
  "hash_text s = write_le (length s) @ s"

definition write_descriptor :: "object_descriptor \<Rightarrow> string" where
  "write_descriptor d =
     [char_of (object_kind_index (od_kind d) + 1)] @ hash_text (od_root d) @ hash_text (od_object_hash d)
     @ write_le (unat (od_encoded_len d))"

definition snapshot_preimage ::
  "string \<Rightarrow> string \<Rightarrow> string \<Rightarrow> string \<Rightarrow> object_descriptor btree_set \<Rightarrow> string" where
  "snapshot_preimage manifest_toml manifest_revision lock_json lock_digest objects =
     ''kitrove-portable-snapshot-v1'' @ [CHR 0x00]
     @ hash_text manifest_toml @ hash_text manifest_revision @ hash_text lock_json @ hash_text lock_digest
     @ write_le (length objects) @ concat (map write_descriptor objects)"

definition calculate_snapshot_digest ::
  "(string \<Rightarrow> string) \<Rightarrow> string \<Rightarrow> string \<Rightarrow> string \<Rightarrow> string \<Rightarrow> object_descriptor btree_set \<Rightarrow> string" where
  "calculate_snapshot_digest H manifest_toml manifest_revision lock_json lock_digest objects =
     ''snapshot:blake3:'' @ H (snapshot_preimage manifest_toml manifest_revision lock_json lock_digest objects)"

section \<open>Envelopes\<close>

record portable_snapshot =
  ps_manifest :: environment_manifest
  ps_manifest_toml :: string
  ps_manifest_revision :: string
  ps_lockfile :: lockfile
  ps_lock_json :: string
  ps_lock_digest :: string
  ps_objects :: "object_descriptor btree_set"
  ps_snapshot_digest :: string

text \<open>The persisted form.  The objects are a list that may hold duplicates on the way in.\<close>

record persisted_snapshot =
  ns_schema_version :: nat
  ns_manifest_toml :: string
  ns_manifest_revision :: string
  ns_lock_json :: string
  ns_lock_digest :: string
  ns_objects :: "object_descriptor list"
  ns_snapshot_digest :: string

record snapshot_codec =
  sc_encode_manifest :: "environment_manifest \<Rightarrow> string option"
  sc_decode_manifest :: "string \<Rightarrow> environment_manifest option"
  sc_encode_lock :: "lockfile \<Rightarrow> string option"
  sc_decode_lock :: "string \<Rightarrow> lockfile option"
  sc_encode_snapshot :: "persisted_snapshot \<Rightarrow> string option"
  sc_decode_snapshot :: "string \<Rightarrow> persisted_snapshot option"

definition manifest_from_toml ::
  "(string \<Rightarrow> string) \<Rightarrow> (string \<Rightarrow> environment_manifest option) \<Rightarrow> string \<Rightarrow> environment_manifest result" where
  "manifest_from_toml H decode input =
     bind_result (ok_or ''manifest.invalid_toml'' (decode input)) (\<lambda>v. and_then (validate_manifest H v) (Ok v))"

definition lockfile_to_json ::
  "(string \<Rightarrow> string) \<Rightarrow> (lockfile \<Rightarrow> string option) \<Rightarrow> lockfile \<Rightarrow> string result" where
  "lockfile_to_json H encode l =
     and_then (validate_lockfile H l)
       (bind_result (ok_or ''lockfile.serialize'' (encode l)) (\<lambda>encoded. Ok (encoded @ [CHR 0x0A])))"

definition over_limit :: "string \<Rightarrow> 64 word \<Rightarrow> bool" where
  "over_limit text_value limit \<longleftrightarrow> length text_value > unat limit"

definition persisted_form :: "portable_snapshot \<Rightarrow> persisted_snapshot" where
  "persisted_form s =
     \<lparr>ns_schema_version = 1, ns_manifest_toml = ps_manifest_toml s, ns_manifest_revision = ps_manifest_revision s,
      ns_lock_json = ps_lock_json s, ns_lock_digest = ps_lock_digest s, ns_objects = ps_objects s,
      ns_snapshot_digest = ps_snapshot_digest s\<rparr>"

definition snapshot_to_json :: "snapshot_codec \<Rightarrow> portable_snapshot \<Rightarrow> sync_limits \<Rightarrow> string result" where
  "snapshot_to_json codec s limits =
     and_then (validate_object_catalog (ps_manifest s) (ps_objects s) limits)
       (bind_result (ok_or ''sync_snapshot.serialize'' (sc_encode_snapshot codec (persisted_form s))) (\<lambda>text_value.
         let encoded = text_value @ [CHR 0x0A]
         in if over_limit encoded (sl_max_snapshot_bytes limits) then Err ''sync_snapshot.too_large'' else Ok encoded))"

definition snapshot_new ::
  "(string \<Rightarrow> string) \<Rightarrow> snapshot_codec \<Rightarrow> environment_manifest \<Rightarrow> object_descriptor btree_set \<Rightarrow> sync_limits
   \<Rightarrow> portable_snapshot result" where
  "snapshot_new H codec m objects limits =
     and_then (map_err ''sync_snapshot.manifest_invalid'' (validate_manifest H m))
     (and_then (validate_component_count m limits)
     (bind_result (map_err ''sync_snapshot.manifest_invalid'' (manifest_to_toml H (sc_encode_manifest codec) m)) (\<lambda>toml.
      if over_limit toml (sl_max_manifest_bytes limits) then Err ''sync_snapshot.manifest_too_large''
      else bind_result (map_err ''sync_snapshot.manifest_invalid'' (derive_manifest_revision H (sc_encode_manifest codec) m))
        (\<lambda>revision.
      bind_result (map_err ''sync_snapshot.lock_derivation_failed'' (derive_lockfile H m)) (\<lambda>lockfile.
      bind_result (map_err ''sync_snapshot.lock_derivation_failed'' (lockfile_to_json H (sc_encode_lock codec) lockfile))
        (\<lambda>lock_json.
      if over_limit lock_json (sl_max_lock_bytes limits) then Err ''sync_snapshot.lock_too_large''
      else and_then (validate_object_catalog m objects limits)
        (let lock_digest = content_hash_digest H lock_json;
             s = \<lparr>ps_manifest = m, ps_manifest_toml = toml, ps_manifest_revision = revision, ps_lockfile = lockfile,
                  ps_lock_json = lock_json, ps_lock_digest = lock_digest, ps_objects = objects,
                  ps_snapshot_digest = calculate_snapshot_digest H toml revision lock_json lock_digest objects\<rparr>
         in bind_result (snapshot_to_json codec s limits) (\<lambda>_. Ok s))))))))"

text \<open>The comparisons of \<open>from_json\<close> after the envelope has been rebuilt from its manifest.\<close>

definition check_persisted ::
  "(string \<Rightarrow> string) \<Rightarrow> snapshot_codec \<Rightarrow> string \<Rightarrow> persisted_snapshot \<Rightarrow> portable_snapshot \<Rightarrow> sync_limits
   \<Rightarrow> portable_snapshot result" where
  "check_persisted H codec input p s limits =
     (if ps_manifest_revision s \<noteq> ns_manifest_revision p then Err ''sync_snapshot.manifest_revision_mismatch''
      else bind_result (map_err ''sync_snapshot.lock_invalid'' (lockfile_from_json H (sc_decode_lock codec) (ns_lock_json p)))
        (\<lambda>supplied.
      bind_result (map_err ''sync_snapshot.lock_invalid'' (lockfile_to_json H (sc_encode_lock codec) supplied)) (\<lambda>canonical.
      if canonical \<noteq> ns_lock_json p then Err ''sync_snapshot.lock_noncanonical''
      else if ps_lockfile s \<noteq> supplied then Err ''sync_snapshot.lock_mismatch''
      else if ps_lock_digest s \<noteq> ns_lock_digest p then Err ''sync_snapshot.lock_digest_mismatch''
      else if ps_snapshot_digest s \<noteq> ns_snapshot_digest p then Err ''sync_snapshot.digest_mismatch''
      else bind_result (snapshot_to_json codec s limits) (\<lambda>encoded.
        if encoded \<noteq> input then Err ''sync_snapshot.noncanonical'' else Ok s))))"

definition snapshot_from_json ::
  "(string \<Rightarrow> string) \<Rightarrow> snapshot_codec \<Rightarrow> string \<Rightarrow> sync_limits \<Rightarrow> portable_snapshot result" where
  "snapshot_from_json H codec input limits =
     (if over_limit input (sl_max_snapshot_bytes limits) then Err ''sync_snapshot.too_large''
      else bind_result (ok_or ''sync_snapshot.invalid_json'' (sc_decode_snapshot codec input)) (\<lambda>p.
        if ns_schema_version p \<noteq> 1 then Err ''sync_snapshot.unsupported_version''
        else if over_limit (ns_manifest_toml p) (sl_max_manifest_bytes limits) then Err ''sync_snapshot.manifest_too_large''
        else if over_limit (ns_lock_json p) (sl_max_lock_bytes limits) then Err ''sync_snapshot.lock_too_large''
        else if length (ns_objects p) > unat (sl_max_object_count limits) then Err ''sync_objects.count_exceeded''
        else let objects = bs_collect (ns_objects p)
          in if length objects \<noteq> length (ns_objects p) then Err ''sync_objects.duplicate_descriptor''
             else bind_result (map_err ''sync_snapshot.manifest_invalid''
                 (manifest_from_toml H (sc_decode_manifest codec) (ns_manifest_toml p))) (\<lambda>m.
             bind_result (map_err ''sync_snapshot.manifest_invalid'' (manifest_to_toml H (sc_encode_manifest codec) m)) (\<lambda>toml.
             if toml \<noteq> ns_manifest_toml p then Err ''sync_snapshot.manifest_noncanonical''
             else bind_result (snapshot_new H codec m objects limits) (\<lambda>s.
               check_persisted H codec input p s limits)))))"

end
