(* ===== verification/Snapshot_Catalogs.thy ===== *)
theory Snapshot_Catalogs
  imports Snapshots
begin

text \<open>What the object catalog check of a snapshot accepts, and what its digest and JSON form promise.\<close>

section \<open>Expected objects\<close>

lemma try_fold_concat: "try_fold f s (concat xss) = try_fold (\<lambda>s xs. try_fold f s xs) s xss"
  by (induction xss arbitrary: s) (simp_all add: try_fold_append)

definition manifest_references :: "environment_manifest \<Rightarrow> (snapshot_object_kind option \<times> string \<times> string) list" where
  "manifest_references m = concat (map object_references (bt_values (em_assets m)))"

definition reference_entry :: "snapshot_object_kind option \<times> string \<times> string \<Rightarrow> string \<times> snapshot_object_kind \<times> string" where
  "reference_entry ref = (case ref of (kind, root, hash) \<Rightarrow> (root, the kind, hash))"

lemma try_fold_map: "try_fold f s (map g xs) = try_fold (\<lambda>s x. f s (g x)) s xs"
  by (induction xs arbitrary: s) (simp_all add: bind_result_def split: sum.split)

lemma expected_catalog_fold: "expected_catalog m = try_fold expect_reference [] (manifest_references m)"
  by (simp add: expected_catalog_def manifest_references_def try_fold_concat try_fold_map)

lemma expect_references_Ok:
  "try_fold expect_reference e refs = Ok e' \<longleftrightarrow>
     (\<forall>r\<in>set refs. fst r \<noteq> None) \<and> distinct (map (fst \<circ> reference_entry) refs)
     \<and> (\<forall>r\<in>set refs. \<not> bt_has e (fst (reference_entry r)))
     \<and> e' = fold (\<lambda>(k, v). bt_insert k v) (map reference_entry refs) e"
proof (induction refs arbitrary: e)
  case (Cons r refs)
  obtain k root h where r: "r = (k, root, h)" by (cases r)
  have has: "bt_has (bt_insert root v e) i \<longleftrightarrow> i = root \<or> bt_has e i" for i v
    by (auto simp: bt_has_def bt_get_insert)
  show ?case
  proof (cases "k \<noteq> None \<and> \<not> bt_has e root")
    case True
    then have "try_fold expect_reference e (r # refs)
        = try_fold expect_reference (bt_insert root (the k, h) e) refs"
      by (auto simp: r expect_reference_def insert_expected_object_def)
    then show ?thesis using True Cons.IH[of "bt_insert root (the k, h) e"]
      by (auto simp: r reference_entry_def has image_iff)
  next
    case False
    then show ?thesis
      by (auto simp: r expect_reference_def insert_expected_object_def reference_entry_def bind_result_Ok_iff split: if_splits)
  qed
qed auto

section \<open>Matching descriptors\<close>

definition descriptor_entry :: "object_descriptor \<Rightarrow> string \<times> snapshot_object_kind \<times> string" where
  "descriptor_entry d = (od_root d, od_kind d, od_object_hash d)"

lemma bt_get_remove: "bt_get (bt_remove k m) i = (if i = k then None else bt_get m i)"
  by (induction m) (auto simp: bt_remove_def bt_get_def)

lemma bt_remove_all: "fold bt_remove ks m = filter (\<lambda>e. fst e \<notin> set ks) m"
proof (induction ks arbitrary: m)
  case (Cons k ks)
  show ?case by (simp add: Cons.IH) (simp add: bt_remove_def)
qed simp

lemma match_descriptors_Ok:
  assumes "unat n \<le> unat (sl_max_total_object_bytes lim)"
  shows "try_fold (match_descriptor lim) (e, n) ds = Ok (left, n') \<longleftrightarrow>
    (\<forall>d\<in>set ds. unat (od_encoded_len d) \<le> unat (sl_max_object_bytes lim))
    \<and> unat n + sum_list (map (unat \<circ> od_encoded_len) ds) \<le> unat (sl_max_total_object_bytes lim)
    \<and> distinct (map od_root ds) \<and> (\<forall>d\<in>set ds. bt_get e (od_root d) = Some (snd (descriptor_entry d)))
    \<and> left = fold bt_remove (map od_root ds) e
    \<and> unat n' = unat n + sum_list (map (unat \<circ> od_encoded_len) ds)"
  using assms
proof (induction ds arbitrary: e n)
  case Nil
  then show ?case by (auto simp: word_unat_eq_iff)
next
  case (Cons d ds)
  let ?ok = "unat (od_encoded_len d) \<le> unat (sl_max_object_bytes lim)
      \<and> unat n + unat (od_encoded_len d) \<le> unat (sl_max_total_object_bytes lim)
      \<and> bt_get e (od_root d) = Some (snd (descriptor_entry d))"
  have bound: "unat (sl_max_total_object_bytes lim) < 2 ^ 64"
    using unsigned_less[of "sl_max_total_object_bytes lim"] by simp
  show ?case
  proof (cases ?ok)
    case True
    then have sum: "unat (n + od_encoded_len d) = unat n + unat (od_encoded_len d)"
      using bound by (intro u64_unat_add) simp
    then have checked: "u64_checked_add n (od_encoded_len d) = Some (n + od_encoded_len d)"
      by (simp add: u64_checked_add_Some)
    have "match_descriptor lim (e, n) d = Ok (bt_remove (od_root d) e, n + od_encoded_len d)"
      using True by (simp add: match_descriptor_def checked word_less_nat_alt sum descriptor_entry_def)
    then have step: "try_fold (match_descriptor lim) (e, n) (d # ds)
        = try_fold (match_descriptor lim) (bt_remove (od_root d) e, n + od_encoded_len d) ds" by simp
    show ?thesis unfolding step using Cons.IH[of "n + od_encoded_len d" "bt_remove (od_root d) e"] True
      by (auto simp: sum bt_get_remove add.assoc image_iff split: if_splits)
  next
    case False
    have "match_descriptor lim (e, n) d \<noteq> Ok s" for s
    proof
      assume ok: "match_descriptor lim (e, n) d = Ok s"
      then obtain t where t: "u64_checked_add n (od_encoded_len d) = Some t" "\<not> t > sl_max_total_object_bytes lim"
        "\<not> od_encoded_len d > sl_max_object_bytes lim" "bt_get e (od_root d) = Some (od_kind d, od_object_hash d)"
        by (auto simp: match_descriptor_def bind_result_Ok_iff ok_or_Ok_iff split: if_splits)
      then show False using False by (auto simp: u64_checked_add_Some word_less_nat_alt descriptor_entry_def)
    qed
    then show ?thesis using False by (auto simp: bind_result_Ok_iff)
  qed
qed

lemma fold_insert_collect: "fold (\<lambda>(k, v). bt_insert k v) xs [] = bt_collect xs"
  by (simp add: bt_collect_def)

lemma filter_nothing: "filter (\<lambda>e. fst e \<notin> A) m = [] \<longleftrightarrow> set (bt_keys m) \<subseteq> A"
  by (auto simp: filter_empty_conv bt_keys_def)

text \<open>The two ways to say that the catalog is exactly the references.\<close>

lemma entries_agree:
  assumes "distinct (map fst xs)" "distinct (map od_root ds)"
  shows "(\<forall>d\<in>set ds. bt_get (bt_collect xs) (od_root d) = Some (snd (descriptor_entry d)))
      \<and> fold bt_remove (map od_root ds) (bt_collect xs) = []
    \<longleftrightarrow> descriptor_entry ` set ds = set xs"
proof -
  have get: "bt_get (bt_collect xs) k = Some v \<longleftrightarrow> (k, v) \<in> set xs" for k v
    using assms(1) by (simp add: bt_get_collect rev_map[symmetric])
  have keys: "set (bt_keys (bt_collect xs)) = fst ` set xs"
  proof -
    have "k \<in> set (bt_keys (bt_collect xs)) \<longleftrightarrow> (\<exists>v. (k, v) \<in> set xs)" for k
    proof -
      have "k \<in> set (bt_keys (bt_collect xs)) \<longleftrightarrow> (\<exists>v. bt_get (bt_collect xs) k = Some v)"
        unfolding bt_has_iff[symmetric] by (auto simp: bt_has_def)
      then show ?thesis by (simp only: get)
    qed
    then show ?thesis by force
  qed
  have root: "fst (descriptor_entry d) = od_root d" for d by (simp add: descriptor_entry_def)
  have entry: "(od_root d, snd (descriptor_entry d)) = descriptor_entry d" for d by (simp add: descriptor_entry_def)
  have "(\<forall>d\<in>set ds. bt_get (bt_collect xs) (od_root d) = Some (snd (descriptor_entry d)))
      \<longleftrightarrow> descriptor_entry ` set ds \<subseteq> set xs" by (auto simp: get entry)
  moreover have "fold bt_remove (map od_root ds) (bt_collect xs) = [] \<longleftrightarrow> fst ` set xs \<subseteq> od_root ` set ds"
    by (simp add: bt_remove_all filter_nothing keys)
  moreover have "descriptor_entry ` set ds \<subseteq> set xs \<Longrightarrow> fst ` set xs \<subseteq> od_root ` set ds \<Longrightarrow>
      set xs \<subseteq> descriptor_entry ` set ds"
  proof
    fix x assume sub: "descriptor_entry ` set ds \<subseteq> set xs" "fst ` set xs \<subseteq> od_root ` set ds" and x: "x \<in> set xs"
    then obtain d where d: "d \<in> set ds" "od_root d = fst x" by (metis imageE imageI subset_iff)
    then have "descriptor_entry d \<in> set xs" "fst (descriptor_entry d) = fst x" using sub(1) root by auto
    then have "descriptor_entry d = x" using x assms(1) by (metis eq_key_imp_eq_value prod.collapse)
    then show "x \<in> descriptor_entry ` set ds" using d(1) by blast
  qed
  moreover have "set xs \<subseteq> descriptor_entry ` set ds \<Longrightarrow> fst ` set xs \<subseteq> od_root ` set ds"
  proof
    fix k assume "set xs \<subseteq> descriptor_entry ` set ds" "k \<in> fst ` set xs"
    then obtain d where "d \<in> set ds" "k = fst (descriptor_entry d)" by blast
    then show "k \<in> od_root ` set ds" using root by simp
  qed
  ultimately show ?thesis by blast
qed

lemma descriptors_are_references:
  assumes "\<forall>r\<in>set refs. fst r \<noteq> None"
  shows "descriptor_entry ` set objects = reference_entry ` set refs \<longleftrightarrow>
      {(Some (od_kind d), od_root d, od_object_hash d) |d. d \<in> set objects} = set refs"
proof -
  let ?entry = "\<lambda>(root, kind, hash). (Some kind, root, hash)"
  have undo: "?entry (reference_entry r) = r" if "r \<in> set refs" for r
    using assms that by (cases r) (force simp: reference_entry_def)
  have set: "{(Some (od_kind d), od_root d, od_object_hash d) |d. d \<in> set objects} = ?entry ` descriptor_entry ` set objects"
    by (auto simp: descriptor_entry_def image_iff)
  have "inj ?entry" by (auto simp: inj_on_def)
  from inj_image_eq_iff[OF this, of "descriptor_entry ` set objects" "reference_entry ` set refs"]
  have "descriptor_entry ` set objects = reference_entry ` set refs
      \<longleftrightarrow> ?entry ` descriptor_entry ` set objects = ?entry ` reference_entry ` set refs"
    by (rule sym)
  also have "?entry ` reference_entry ` set refs = (\<lambda>r. ?entry (reference_entry r)) ` set refs" by (simp only: image_image)
  also have "\<dots> = (\<lambda>r. r) ` set refs" by (rule image_cong[OF refl]) (rule undo)
  finally show ?thesis by (simp add: set)
qed

lemma match_descriptors_exist:
  "(\<exists>n'. try_fold (match_descriptor limits) (e, 0) objects = Ok ([], n')) \<longleftrightarrow>
     (\<forall>d\<in>set objects. unat (od_encoded_len d) \<le> unat (sl_max_object_bytes limits))
     \<and> sum_list (map (unat \<circ> od_encoded_len) objects) \<le> unat (sl_max_total_object_bytes limits)
     \<and> distinct (map od_root objects) \<and> (\<forall>d\<in>set objects. bt_get e (od_root d) = Some (snd (descriptor_entry d)))
     \<and> fold bt_remove (map od_root objects) e = []"
proof -
  have "sl_max_total_object_bytes limits \<le> sl_max_total_object_bytes limits"
    and "unat (sl_max_total_object_bytes limits) < 2 ^ 64"
    using unsigned_less[of "sl_max_total_object_bytes limits"] by simp_all
  then have "\<exists>n' :: 64 word. unat n' = sum_list (map (unat \<circ> od_encoded_len) objects)"
    if "sum_list (map (unat \<circ> od_encoded_len) objects) \<le> unat (sl_max_total_object_bytes limits)"
    using that by (intro exI[of _ "of_nat (sum_list (map (unat \<circ> od_encoded_len) objects))"]) (simp add: unat_of_nat)
  then show ?thesis by (subst match_descriptors_Ok) (auto simp: eq_commute[of "[]"])
qed

section \<open>Properties\<close>

text \<open>C23: The catalog check of a snapshot is exact: it accepts precisely when every object reference of the
  manifest has a supported format and a root of its own, the descriptors are exactly the references with
  the kind of their format, no root is described twice, and the count, every encoded length and the sum
  of the lengths, taken without wrap-around, are within the limits.\<close>

theorem snapshot_catalog_check_is_exact:
  "validate_object_catalog m objects limits = Ok () \<longleftrightarrow>
     length objects \<le> unat (sl_max_object_count limits)
     \<and> list_all (\<lambda>(kind, root, hash). kind \<noteq> None) (manifest_references m)
     \<and> distinct (map (\<lambda>(kind, root, hash). root) (manifest_references m))
     \<and> list_all (\<lambda>d. unat (od_encoded_len d) \<le> unat (sl_max_object_bytes limits)) objects
     \<and> sum_list (map (unat \<circ> od_encoded_len) objects) \<le> unat (sl_max_total_object_bytes limits)
     \<and> distinct (map od_root objects)
     \<and> {(Some (od_kind d), od_root d, od_object_hash d) |d. d \<in> set objects} = set (manifest_references m)"
proof -
  let ?refs = "manifest_references m"
  let ?xs = "map reference_entry ?refs"
  have roots: "map fst ?xs = map (\<lambda>(kind, root, hash). root) ?refs"
    by (simp add: reference_entry_def split_def comp_def)
  have catalog: "expected_catalog m = Ok e \<longleftrightarrow>
      (\<forall>r\<in>set ?refs. fst r \<noteq> None) \<and> distinct (map fst ?xs) \<and> e = bt_collect ?xs" for e
    by (simp add: expected_catalog_fold expect_references_Ok bt_has_def bt_get_def fold_insert_collect)
  have "validate_object_catalog m objects limits = Ok () \<longleftrightarrow>
      length objects \<le> unat (sl_max_object_count limits)
      \<and> (\<exists>e. expected_catalog m = Ok e \<and> (\<exists>n'. try_fold (match_descriptor limits) (e, 0) objects = Ok ([], n')))"
    by (auto simp: validate_object_catalog_def bind_result_Ok_iff split: if_splits)
  also have "\<dots> \<longleftrightarrow> length objects \<le> unat (sl_max_object_count limits) \<and> (\<forall>r\<in>set ?refs. fst r \<noteq> None)
      \<and> distinct (map fst ?xs)
      \<and> (\<forall>d\<in>set objects. unat (od_encoded_len d) \<le> unat (sl_max_object_bytes limits))
      \<and> sum_list (map (unat \<circ> od_encoded_len) objects) \<le> unat (sl_max_total_object_bytes limits)
      \<and> distinct (map od_root objects) \<and> descriptor_entry ` set objects = set ?xs"
    unfolding match_descriptors_exist catalog using entries_agree[of ?xs objects] by blast
  finally show ?thesis using descriptors_are_references[of ?refs objects] unfolding roots
    by (auto simp: split_def list_all_iff)
qed

end
