(* ===== verification/Snapshot_Laws.thy ===== *)
theory Snapshot_Laws
  imports Snapshot_Catalogs Sync_Laws
begin

text \<open>
  The contract of the snapshot envelope: it reloads, what loads is authentic and canonical, and its digest
  identifies its content.
\<close>

section \<open>The digest frame\<close>

interpretation le_code: prefix_code write_le "\<lambda>n. n < 2 ^ 64"
proof unfold_locales
  fix m n :: nat and s t
  assume mn: "m < 2 ^ 64" "n < 2 ^ 64" and "write_le m @ s = write_le n @ t"
  then have "write_count m = write_count n" "s = t" by (auto simp: write_le_def)
  then show "m = n \<and> s = t" using write_count_inj[OF mn] by blast
qed

lemma le_length_cancel [frame_simps]:
  "length xs < 2 ^ 64 \<Longrightarrow> length ys < 2 ^ 64 \<Longrightarrow>
   write_le (length xs) @ s = write_le (length ys) @ t \<longleftrightarrow> length xs = length ys \<and> s = t"
  by (rule le_code.unique_iff)

interpretation hash_text_code: prefix_code hash_text fits_u64
  by unfold_locales (auto simp: hash_text_def fits_u64_def frame_simps)

lemma le_word_cancel [frame_simps]:
  "write_le (unat a) @ s = write_le (unat b) @ t \<longleftrightarrow> a = b \<and> s = t" for a b :: "64 word"
proof -
  have "unat a < 2 ^ 64" "unat b < 2 ^ 64"
    by (rule u64_bound)+
  then show ?thesis using le_code.unique_iff[of "unat a" "unat b"] by (auto simp: word_unat_eq_iff)
qed

lemmas hash_text_cancel [frame_simps] = hash_text_code.unique_iff hash_text_code.inj

definition descriptor_fits :: "object_descriptor \<Rightarrow> bool" where
  "descriptor_fits d \<longleftrightarrow> fits_u64 (od_root d) \<and> fits_u64 (od_object_hash d)"

lemma kind_byte_inj: "char_of (object_kind_index a + 1) = (char_of (object_kind_index b + 1) :: char) \<longleftrightarrow> a = b"
  by (cases a; cases b) (simp_all add: object_kind_index_def char_of_eq_iff numeral_2_eq_2[symmetric])

interpretation descriptor_code: prefix_code write_descriptor descriptor_fits
  by unfold_locales
    (auto simp: write_descriptor_def descriptor_fits_def frame_simps kind_byte_inj[simplified] intro: object_descriptor.expand)

lemma snapshot_preimage_inj:
  assumes "snapshot_preimage t r l d os = snapshot_preimage t' r' l' d' os'"
    and "fits_u64 t" "fits_u64 r" "fits_u64 l" "fits_u64 d" "fits_u64 os" "\<forall>x\<in>set os. descriptor_fits x"
    and "fits_u64 t'" "fits_u64 r'" "fits_u64 l'" "fits_u64 d'" "fits_u64 os'" "\<forall>x\<in>set os'. descriptor_fits x"
  shows "t = t' \<and> r = r' \<and> l = l' \<and> d = d' \<and> os = os'"
proof -
  have head: "t = t'" "r = r'" "l = l'" "d = d'"
    and tail: "write_le (length os) @ concat (map write_descriptor os)
      = write_le (length os') @ concat (map write_descriptor os')"
    using assms by (auto simp: snapshot_preimage_def frame_simps)
  then have "length os = length os'" "concat (map write_descriptor os) = concat (map write_descriptor os')"
    using assms(6,12) by (auto simp: fits_u64_def frame_simps)
  then have "os = os'" using descriptor_code.concat_unique[of os os' "[]" "[]"] assms(7,13) by simp
  then show ?thesis using head by simp
qed

section \<open>Envelopes\<close>

lemma snapshot_new_Ok:
  assumes "snapshot_new H codec m objects limits = Ok s"
  shows "ps_manifest s = m \<and> ps_objects s = objects \<and> validate_manifest H m = Ok ()
    \<and> validate_object_catalog m objects limits = Ok ()
    \<and> derive_lockfile H m = Ok (ps_lockfile s)
    \<and> manifest_to_toml H (sc_encode_manifest codec) m = Ok (ps_manifest_toml s)
    \<and> lockfile_to_json H (sc_encode_lock codec) (ps_lockfile s) = Ok (ps_lock_json s)
    \<and> length (ps_manifest_toml s) \<le> unat (sl_max_manifest_bytes limits)
    \<and> length (ps_lock_json s) \<le> unat (sl_max_lock_bytes limits)
    \<and> ps_lock_digest s = content_hash_digest H (ps_lock_json s)
    \<and> ps_snapshot_digest s = calculate_snapshot_digest H (ps_manifest_toml s) (ps_manifest_revision s) (ps_lock_json s)
        (ps_lock_digest s) objects
    \<and> (\<exists>t. snapshot_to_json codec s limits = Ok t)"
  using assms by (auto simp: snapshot_new_def and_then_Ok_iff bind_result_Ok_iff map_err_Ok_iff Let_def over_limit_def
      split: if_splits)

lemma snapshot_from_json_Ok:
  assumes "snapshot_from_json H codec input limits = Ok s"
  shows "snapshot_to_json codec s limits = Ok input \<and> (\<exists>m objects. snapshot_new H codec m objects limits = Ok s
    \<and> bs_wf objects)"
  using assms by (auto simp: snapshot_from_json_def check_persisted_def bind_result_Ok_iff map_err_Ok_iff Let_def
      split: if_splits) (use bs_wf_collect in blast)

lemma constructed_snapshot_loads:
  assumes "snapshot_new H codec m objects limits = Ok s" "bs_wf objects"
    and "snapshot_to_json codec s limits = Ok t"
    and "sc_decode_snapshot codec t = Some (persisted_form s)"
    and "sc_decode_manifest codec (ps_manifest_toml s) = Some m"
    and "sc_decode_lock codec (ps_lock_json s) = Some (ps_lockfile s)"
  shows "snapshot_from_json H codec t limits = Ok s"
proof -
  note parts = snapshot_new_Ok[OF assms(1)]
  have "validate_lockfile H (ps_lockfile s) = Ok ()"
    using parts by (auto simp: lockfile_to_json_def and_then_Ok_iff)
  then have lock: "lockfile_from_json H (sc_decode_lock codec) (ps_lock_json s) = Ok (ps_lockfile s)"
    using assms(6) by (simp add: lockfile_from_json_def)
  have checked: "check_persisted H codec t (persisted_form s) s limits = Ok s"
    using parts lock assms(3) by (simp add: check_persisted_def persisted_form_def)
  have "length objects \<le> unat (sl_max_object_count limits)"
    using parts by (auto simp: validate_object_catalog_def split: if_splits)
  moreover have "length t \<le> unat (sl_max_snapshot_bytes limits)"
    using assms(3) by (auto simp: snapshot_to_json_def and_then_Ok_iff bind_result_Ok_iff Let_def over_limit_def split: if_splits)
  moreover have "manifest_from_toml H (sc_decode_manifest codec) (ps_manifest_toml s) = Ok m"
    using parts assms(5) by (simp add: manifest_from_toml_def)
  ultimately show ?thesis using parts assms(1,2,4) checked
    by (simp add: snapshot_from_json_def over_limit_def persisted_form_def bs_collect_id)
qed

section \<open>Properties\<close>

text \<open>C20: What loads is authentic: a snapshot accepted from a text is the one the constructor builds for its
  manifest and objects, so its manifest validates, its lockfile is the derived one, its digest is
  recomputed from the content, and the text is the one \<open>to_json\<close> writes for it, byte for byte.\<close>

theorem loaded_snapshots_are_authentic:
  assumes "snapshot_from_json H codec input limits = Ok s"
  shows "snapshot_to_json codec s limits = Ok input
    \<and> snapshot_new H codec (ps_manifest s) (ps_objects s) limits = Ok s
    \<and> validate_manifest H (ps_manifest s) = Ok () \<and> derive_lockfile H (ps_manifest s) = Ok (ps_lockfile s)
    \<and> ps_snapshot_digest s = calculate_snapshot_digest H (ps_manifest_toml s) (ps_manifest_revision s) (ps_lock_json s)
        (content_hash_digest H (ps_lock_json s)) (ps_objects s)
    \<and> length input \<le> unat (sl_max_snapshot_bytes limits)"
proof -
  obtain m objects where json: "snapshot_to_json codec s limits = Ok input"
    and new: "snapshot_new H codec m objects limits = Ok s"
    using snapshot_from_json_Ok[OF assms] by blast
  note parts = snapshot_new_Ok[OF new]
  have "length input \<le> unat (sl_max_snapshot_bytes limits)"
    using assms by (auto simp: snapshot_from_json_def over_limit_def split: if_splits)
  then show ?thesis using json new parts by auto
qed

text \<open>C21: A snapshot that was constructed reloads: its text loads as the same snapshot, provided the three
  decoders invert their encoders on what was written.\<close>

theorem snapshots_reload:
  assumes "snapshot_new H codec m objects limits = Ok s" "bs_wf objects"
    and "snapshot_to_json codec s limits = Ok t"
    and "sc_decode_snapshot codec t = Some (persisted_form s)"
    and "sc_decode_manifest codec (ps_manifest_toml s) = Some m"
    and "sc_decode_lock codec (ps_lock_json s) = Some (ps_lockfile s)"
  shows "snapshot_from_json H codec t limits = Ok s"
  using assms by (rule constructed_snapshot_loads)

text \<open>C22: The snapshot digest identifies what is synchronized: where the hash function has no collision between
  the two encodings, two snapshots with one digest have the same manifest text, the same lockfile text and
  the same object descriptors.\<close>

theorem snapshot_digest_identifies_content:
  assumes "snapshot_new H codec m objects limits = Ok s" "snapshot_new H codec m' objects' limits = Ok s'"
    and "ps_snapshot_digest s = ps_snapshot_digest s'"
    and "collision_free H {snapshot_preimage (ps_manifest_toml x) (ps_manifest_revision x) (ps_lock_json x)
          (ps_lock_digest x) (ps_objects x) |x. x \<in> {s, s'}}"
    and "\<forall>x\<in>{s, s'}. fits_u64 (ps_manifest_revision x) \<and> fits_u64 (ps_lock_digest x)
        \<and> (\<forall>d\<in>set (ps_objects x). descriptor_fits d)"
  shows "ps_manifest_toml s = ps_manifest_toml s' \<and> ps_lock_json s = ps_lock_json s' \<and> objects = objects'"
proof -
  note new = snapshot_new_Ok[OF assms(1)] snapshot_new_Ok[OF assms(2)]
  have fits: "fits_u64 (ps_manifest_toml x) \<and> fits_u64 (ps_lock_json x) \<and> fits_u64 (ps_objects x)" if "x \<in> {s, s'}" for x
  proof -
    have "length (ps_manifest_toml x) \<le> unat (sl_max_manifest_bytes limits)"
      "length (ps_lock_json x) \<le> unat (sl_max_lock_bytes limits)" "length (ps_objects x) \<le> unat (sl_max_object_count limits)"
      using that new by (auto simp: validate_object_catalog_def split: if_splits)
    then show ?thesis
      using u64_bound[of "sl_max_manifest_bytes limits"] u64_bound[of "sl_max_lock_bytes limits"]
        u64_bound[of "sl_max_object_count limits"] by (simp add: fits_u64_def)
  qed
  let ?pre = "\<lambda>x. snapshot_preimage (ps_manifest_toml x) (ps_manifest_revision x) (ps_lock_json x) (ps_lock_digest x) (ps_objects x)"
  have "H (?pre s) = H (?pre s')"
    using new assms(3) by (simp add: calculate_snapshot_digest_def)
  moreover have "?pre s \<in> {?pre x |x. x \<in> {s, s'}}" "?pre s' \<in> {?pre x |x. x \<in> {s, s'}}" by blast+
  ultimately have "?pre s = ?pre s'" using collision_freeD[OF assms(4)] by blast
  from snapshot_preimage_inj[OF this] show ?thesis using fits assms(5) new by auto
qed

text \<open>A sample snapshot: no assets, one required binding, and codecs that write one letter.\<close>

definition sample_snapshot :: portable_snapshot where
  "sample_snapshot = \<lparr>ps_manifest = manifest_requiring [''A''], ps_manifest_toml = [CHR ''m'', CHR 0x0A],
     ps_manifest_revision = ''manifest:'' @ sample_hash,
     ps_lockfile = \<lparr>lf_schema_version = V1, lf_assets = [], lf_packs = []\<rparr>, ps_lock_json = [CHR ''l'', CHR 0x0A],
     ps_lock_digest = sample_hash, ps_objects = [], ps_snapshot_digest = ''snapshot:'' @ sample_hash\<rparr>"

definition sample_snapshot_codec :: snapshot_codec where
  "sample_snapshot_codec = \<lparr>sc_encode_manifest = (\<lambda>_. Some ''m''), sc_decode_manifest = (\<lambda>_. Some (manifest_requiring [''A''])),
     sc_encode_lock = (\<lambda>_. Some ''l''), sc_decode_lock = (\<lambda>_. Some (ps_lockfile sample_snapshot)),
     sc_encode_snapshot = (\<lambda>_. Some ''s''), sc_decode_snapshot = (\<lambda>_. Some (persisted_form sample_snapshot))\<rparr>"

text \<open>The same snapshot with other bindings; its texts are those of the sample codecs.\<close>

definition sample_side :: "string list \<Rightarrow> portable_snapshot" where
  "sample_side bs = sample_snapshot\<lparr>ps_manifest := manifest_requiring bs\<rparr>"

lemma sample_side_json:
  "snapshot_to_json sample_snapshot_codec (sample_side bs) (default_limits git) = Ok [CHR ''s'', CHR 0x0A]"
  by (simp add: snapshot_to_json_def validate_object_catalog_def sample_side_def sample_snapshot_def manifest_requiring_def
      expected_catalog_def bt_values_def sample_snapshot_codec_def over_limit_def default_limits_def)

lemma sample_side_new:
  assumes "length bs \<le> 65536"
  shows "snapshot_new sample_digest sample_snapshot_codec (manifest_requiring bs) [] (default_limits git) = Ok (sample_side bs)"
proof -
  have toml: "manifest_to_toml sample_digest (sc_encode_manifest sample_snapshot_codec) (manifest_requiring bs)
      = Ok [CHR ''m'', CHR 0x0A]"
    by (simp add: manifest_to_toml_def manifest_requiring_valid sample_snapshot_codec_def ends_with_def)
  have revision: "derive_manifest_revision sample_digest (sc_encode_manifest sample_snapshot_codec) (manifest_requiring bs)
      = Ok (''manifest:'' @ sample_hash)"
    using toml ascii_head_not_blank[of "CHR ''m''"]
    by (simp add: derive_manifest_revision_def revision_parse_def sample_digest_def sample_hash_def char_is_whitespace_def)
  have "validate_lockfile sample_digest (ps_lockfile sample_snapshot) = Ok ()"
    using derived_lockfile_valid[OF manifest_requiring_valid, of sample_digest "[]"]
    by (simp add: sample_snapshot_def manifest_requiring_def bt_map_def)
  then have lock: "lockfile_to_json sample_digest (sc_encode_lock sample_snapshot_codec) (ps_lockfile sample_snapshot)
      = Ok [CHR ''l'', CHR 0x0A]"
    by (simp add: lockfile_to_json_def sample_snapshot_codec_def)
  have components: "validate_component_count (manifest_requiring bs) (default_limits git) = Ok ()"
    using assms by (simp add: validate_component_count_def usize_checked_add_def manifest_requiring_def bt_values_def default_limits_def Let_def)
  have catalog: "validate_object_catalog (manifest_requiring bs) [] (default_limits git) = Ok ()"
    by (simp add: validate_object_catalog_def expected_catalog_def manifest_requiring_def bt_values_def)
  have s: "\<lparr>ps_manifest = manifest_requiring bs, ps_manifest_toml = [CHR ''m'', CHR 0x0A],
      ps_manifest_revision = ''manifest:'' @ sample_hash, ps_lockfile = ps_lockfile sample_snapshot,
      ps_lock_json = [CHR ''l'', CHR 0x0A], ps_lock_digest = content_hash_digest sample_digest [CHR ''l'', CHR 0x0A],
      ps_objects = [], ps_snapshot_digest = calculate_snapshot_digest sample_digest [CHR ''m'', CHR 0x0A]
        (''manifest:'' @ sample_hash) [CHR ''l'', CHR 0x0A] (content_hash_digest sample_digest [CHR ''l'', CHR 0x0A]) []\<rparr>
      = sample_side bs"
    by (simp add: sample_side_def sample_snapshot_def calculate_snapshot_digest_def content_hash_digest_def sample_digest_def sample_hash_def)
  have lockfile: "derive_lockfile sample_digest (manifest_requiring bs) = Ok (ps_lockfile sample_snapshot)"
    by (simp add: manifest_requiring_lock sample_snapshot_def)
  show ?thesis
    unfolding snapshot_new_def toml revision lockfile
    by (simp only: manifest_requiring_valid map_err_simps and_then_simps bind_result_simps components catalog lock s
        Let_def sample_side_json) (simp add: over_limit_def default_limits_def)
qed

lemma sample_snapshot_side: "sample_snapshot = sample_side [''A'']"
  by (simp add: sample_side_def sample_snapshot_def)

lemma sample_snapshot_json:
  "snapshot_to_json sample_snapshot_codec sample_snapshot (default_limits git) = Ok [CHR ''s'', CHR 0x0A]"
  unfolding sample_snapshot_side by (rule sample_side_json)

lemma sample_snapshot_new:
  "snapshot_new sample_digest sample_snapshot_codec (manifest_requiring [''A'']) [] (default_limits git) = Ok sample_snapshot"
  unfolding sample_snapshot_side by (rule sample_side_new) simp

theorem snapshots_reload_witness:
  "snapshot_from_json sample_digest sample_snapshot_codec [CHR ''s'', CHR 0x0A] (projr sync_limits_default) = Ok sample_snapshot"
proof -
  obtain git where default: "sync_limits_default = Ok (default_limits git)" using default_limits_Ok by blast
  show ?thesis unfolding default sum.sel
    by (rule snapshots_reload[OF sample_snapshot_new _ sample_snapshot_json])
      (simp_all add: sample_snapshot_codec_def sample_snapshot_def)
qed

theorem loaded_snapshots_are_authentic_witness:
  "derive_lockfile sample_digest (manifest_requiring [''A'']) = Ok (ps_lockfile sample_snapshot)
   \<and> snapshot_to_json sample_snapshot_codec sample_snapshot (projr sync_limits_default) = Ok [CHR ''s'', CHR 0x0A]"
proof -
  obtain git where default: "sync_limits_default = Ok (default_limits git)" using default_limits_Ok by blast
  have "snapshot_from_json sample_digest sample_snapshot_codec [CHR ''s'', CHR 0x0A] (default_limits git) = Ok sample_snapshot"
    by (rule constructed_snapshot_loads[OF sample_snapshot_new _ sample_snapshot_json])
      (simp_all add: sample_snapshot_codec_def sample_snapshot_def)
  moreover have "ps_manifest sample_snapshot = manifest_requiring [''A'']" by (simp add: sample_snapshot_def)
  ultimately show ?thesis unfolding default using loaded_snapshots_are_authentic by fastforce
qed

theorem snapshot_digest_identifies_content_witness:
  "ps_manifest_toml sample_snapshot = [CHR ''m'', CHR 0x0A] \<and> ps_objects sample_snapshot = ([] :: object_descriptor list)"
proof -
  obtain git where "sync_limits_default = Ok (default_limits git)" using default_limits_Ok by blast
  show ?thesis
    using snapshot_digest_identifies_content[OF sample_snapshot_new[of git] sample_snapshot_new[of git]]
    by (simp add: sample_snapshot_def)
qed

end
