(* ===== verification/Snapshot_Risk.thy ===== *)
theory Snapshot_Risk
  imports Merge_Derivation Snapshots
begin

text \<open>
  The risk check of \<open>kitrove-core/src/merge.rs\<close> that guards every snapshot before it is merged or
  published: the class of every asset is recomputed from its verified objects and compared with what the
  manifest says.  A document object is seen through the view of the catalog.
\<close>

definition reject_document_credentials :: "'d document_view \<Rightarrow> 'd \<Rightarrow> unit result" where
  "reject_document_credentials view obj =
     (if (case dv_text view obj of Some t \<Rightarrow> contains_credential_shaped_text t | None \<Rightarrow> False)
      then Err ''sync_merge.credential_content'' else Ok ())"

text \<open>The two \<open>matches!\<close> on the kind of the asset and the variant of the object.\<close>

definition portable_document_kind :: "asset_kind \<Rightarrow> snapshot_object_kind option" where
  "portable_document_kind k = (case k of
       Instruction \<Rightarrow> Some PortableInstruction | Command \<Rightarrow> Some PortablePromptCommand
     | Agent \<Rightarrow> Some PortableAgent | Mcp \<Rightarrow> Some PortableMcp | _ \<Rightarrow> None)"

definition native_document_kind :: "asset_kind \<Rightarrow> snapshot_object_kind option" where
  "native_document_kind k = (case k of
       Instruction \<Rightarrow> Some NativeInstruction | Command \<Rightarrow> Some NativePromptCommand
     | Agent \<Rightarrow> Some NativeAgent | Mcp \<Rightarrow> Some NativeMcp | _ \<Rightarrow> None)"

definition check_document_object ::
  "'d document_view \<Rightarrow> 'd skill_object_catalog \<Rightarrow> snapshot_object_kind option \<Rightarrow> snapshot_object_kind option
   \<Rightarrow> string \<Rightarrow> unit result" where
  "check_document_object view objects expected format_kind object_hash =
     bind_result (catalog_document objects object_hash) (\<lambda>obj.
       if expected \<noteq> Some (dv_kind view obj) \<or> format_kind \<noteq> Some (dv_kind view obj)
       then Err ''sync_merge.document_format_invalid'' else reject_document_credentials view obj)"

definition validate_document_snapshot_asset ::
  "'d document_view \<Rightarrow> asset \<Rightarrow> 'd skill_object_catalog \<Rightarrow> unit result" where
  "validate_document_snapshot_asset view a objects =
     (if asset_kind_of a \<in> {Instruction, Command, Agent, Mcp} then
        (if asset_content_class a \<noteq> AgentActive
            \<or> list_ex (\<lambda>n. nv_content_class n \<noteq> AgentActive) (bt_values (asset_native_variants a))
         then Err ''sync_merge.derived_risk_mismatch''
         else and_then (case asset_portable a of
                Some p \<Rightarrow> check_document_object view objects (portable_document_kind (asset_kind_of a))
                  (portable_snapshot_object_kind (pc_format p)) (pc_object_hash p)
              | None \<Rightarrow> Ok ())
           (try_each (\<lambda>n. check_document_object view objects (native_document_kind (asset_kind_of a))
                (native_snapshot_object_kind (nv_format n)) (nv_object_hash n)) (bt_values (asset_native_variants a))))
      else if asset_portable a = None \<and> asset_native_variants a = [] then
        (if asset_content_class a = DataOnly then Ok () else Err ''sync_merge.derived_risk_mismatch'')
      else Err ''sync_merge.document_format_invalid'')"

text \<open>The body of the loop for a skill: the portable object first, then the native ones in key order.\<close>

definition check_native_skill ::
  "yaml_parser \<Rightarrow> 'd skill_object_catalog \<Rightarrow> content_class \<Rightarrow> native_variant \<Rightarrow> content_class result" where
  "check_native_skill yaml objects class native =
     bind_result (catalog_native objects (nv_object_hash native)) (\<lambda>obj.
     bind_result (map_err ''sync_merge.derived_risk_invalid'' (assess_native_skill_object_risk yaml obj)) (\<lambda>native_class.
       if nv_content_class native \<noteq> native_class then Err ''sync_merge.derived_risk_mismatch''
       else Ok (max class native_class)))"

definition validate_skill_snapshot_asset ::
  "yaml_parser \<Rightarrow> asset \<Rightarrow> 'd skill_object_catalog \<Rightarrow> unit result" where
  "validate_skill_snapshot_asset yaml a objects =
     bind_result (case asset_portable a of
         None \<Rightarrow> Ok DataOnly
       | Some p \<Rightarrow> bind_result (catalog_portable objects (pc_object_hash p)) (\<lambda>obj.
           bind_result (portable_object_class yaml obj) (\<lambda>c. Ok (max DataOnly c)))) (\<lambda>portable_class.
     bind_result (try_fold (check_native_skill yaml objects) portable_class (bt_values (asset_native_variants a))) (\<lambda>class.
       if asset_content_class a \<noteq> class then Err ''sync_merge.derived_risk_mismatch'' else Ok ()))"

definition validate_asset_object_risk ::
  "(string \<Rightarrow> string) \<Rightarrow> yaml_parser \<Rightarrow> 'd document_view \<Rightarrow> 'd skill_object_catalog \<Rightarrow> asset \<Rightarrow> unit result" where
  "validate_asset_object_risk H yaml view objects a =
     (if asset_kind_of a = Extension then validate_extension_snapshot_asset H a objects
      else if list_ex (\<lambda>n. nv_format n = native_extension_format) (bt_values (asset_native_variants a))
      then Err ''sync_merge.extension_kind_invalid''
      else if asset_kind_of a \<noteq> Skill then validate_document_snapshot_asset view a objects
      else validate_skill_snapshot_asset yaml a objects)"

definition validate_manifest_object_risk ::
  "(string \<Rightarrow> string) \<Rightarrow> object_codec \<Rightarrow> 'd document_view \<Rightarrow> environment_manifest \<Rightarrow> 'd skill_object_catalog
   \<Rightarrow> sync_limits \<Rightarrow> unit result" where
  "validate_manifest_object_risk H codec view m objects limits =
     and_then (validate_limits codec view objects limits)
     (and_then (map_err ''sync_merge.manifest_invalid'' (validate_manifest H m))
     (try_each (validate_asset_object_risk H (oc_yaml codec) view objects) (bt_values (em_assets m))))"

end
