(* ===== verification/Sync_Backends.thy ===== *)
theory Sync_Backends
  imports Snapshot_Risk
begin

text \<open>
  The transport-neutral part of \<open>kitrove-core/src/sync_backend.rs\<close>: descriptor budgets, verified object
  envelopes, remote observations and publication intents.  The backends themselves move bytes over file
  systems and git and are not modelled.
\<close>

section \<open>Descriptor budgets\<close>

definition charge_descriptor :: "sync_limits \<Rightarrow> nat \<times> 64 word \<Rightarrow> object_descriptor \<Rightarrow> (nat \<times> 64 word) result" where
  "charge_descriptor limits s d =
     (case s of (count, sum_bytes) \<Rightarrow>
       bind_result (ok_or ''budget'' (usize_checked_add count 1)) (\<lambda>count'.
         if count' > unat (sl_max_object_count limits) \<or> od_encoded_len d > sl_max_object_bytes limits then Err ''budget''
         else bind_result (ok_or ''budget'' (u64_checked_add sum_bytes (od_encoded_len d))) (\<lambda>sum_bytes'.
           if sum_bytes' > sl_max_total_object_bytes limits then Err ''budget'' else Ok (count', sum_bytes'))))"

definition validate_descriptor_budget :: "object_descriptor list \<Rightarrow> sync_limits \<Rightarrow> unit result" where
  "validate_descriptor_budget descriptors limits =
     bind_result (try_fold (charge_descriptor limits) (0, 0) descriptors) (\<lambda>_. Ok ())"

section \<open>Envelopes\<close>

datatype 'd verified_object_envelope =
    EnvelopePortable object_descriptor stored_skill_tree
  | EnvelopeNative object_descriptor native_skill_object
  | EnvelopeNativeExtension object_descriptor native_extension_object
  | EnvelopeDocument object_descriptor 'd

definition u64_length :: "'a list \<Rightarrow> 64 word" where
  "u64_length xs = of_nat (length xs)"

definition charge_file :: "64 word \<Rightarrow> string \<times> captured_file \<Rightarrow> 64 word result" where
  "charge_file encoded_len e =
     (case e of (path, file) \<Rightarrow>
       ok_or ''sync_backend.object_too_large''
         (Option.bind (u64_checked_add encoded_len (u64_length path)) (\<lambda>a.
          Option.bind (u64_checked_add a 1) (\<lambda>b. u64_checked_add b (u64_length (cf_bytes file))))))"

definition descriptor_for ::
  "snapshot_object_kind \<Rightarrow> string \<Rightarrow> string \<Rightarrow> string \<Rightarrow> captured_tree \<Rightarrow> object_descriptor result" where
  "descriptor_for kind root object_hash metadata tree =
     bind_result (try_fold charge_file (u64_length metadata) (ct_files tree)) (\<lambda>encoded_len.
       map_err ''sync_backend.object_invalid'' (object_descriptor_new kind root object_hash encoded_len))"

definition envelope_portable :: "object_codec \<Rightarrow> string \<Rightarrow> stored_skill_tree \<Rightarrow> 'd verified_object_envelope result" where
  "envelope_portable codec root obj =
     bind_result (descriptor_for PortableSkillTree root (ct_hash obj) (oc_tree codec (tree_metadata obj)) obj)
       (\<lambda>d. Ok (EnvelopePortable d obj))"

definition envelope_native :: "object_codec \<Rightarrow> string \<Rightarrow> native_skill_object \<Rightarrow> 'd verified_object_envelope result" where
  "envelope_native codec root obj =
     bind_result (descriptor_for NativeSkillObject root (no_hash obj) (oc_native codec (native_object_metadata obj)) (no_tree obj))
       (\<lambda>d. Ok (EnvelopeNative d obj))"

definition envelope_native_extension ::
  "object_codec \<Rightarrow> string \<Rightarrow> native_extension_object \<Rightarrow> 'd verified_object_envelope result" where
  "envelope_native_extension codec root obj =
     bind_result (descriptor_for NativeExtensionObject root (ne_hash obj)
         (oc_extension codec (extension_metadata (oc_tree codec) obj)) (ne_tree obj))
       (\<lambda>d. Ok (EnvelopeNativeExtension d obj))"

definition envelope_document ::
  "(string \<Rightarrow> string) \<Rightarrow> 'd document_view \<Rightarrow> string \<Rightarrow> 'd \<Rightarrow> 'd verified_object_envelope result" where
  "envelope_document H view root obj =
     bind_result (dv_to_json view obj) (\<lambda>metadata.
     bind_result (descriptor_for (dv_kind view obj) root (dv_object_hash view obj) metadata
         \<lparr>ct_files = [], ct_hash = hash_tree H []\<rparr>)
       (\<lambda>d. Ok (EnvelopeDocument d obj)))"

definition envelope_descriptor :: "'d verified_object_envelope \<Rightarrow> object_descriptor" where
  "envelope_descriptor e = (case e of
       EnvelopePortable d _ \<Rightarrow> d | EnvelopeNative d _ \<Rightarrow> d | EnvelopeNativeExtension d _ \<Rightarrow> d | EnvelopeDocument d _ \<Rightarrow> d)"

section \<open>Remote observations and publication\<close>

record remote_snapshot =
  rm_revision :: string
  rm_snapshot :: "portable_snapshot option"

definition remote_absent :: "string \<Rightarrow> remote_snapshot" where
  "remote_absent revision = \<lparr>rm_revision = revision, rm_snapshot = None\<rparr>"

definition remote_present :: "string \<Rightarrow> portable_snapshot \<Rightarrow> remote_snapshot" where
  "remote_present revision snapshot = \<lparr>rm_revision = revision, rm_snapshot = Some snapshot\<rparr>"

record publication_intent =
  pi_encoded :: string
  pi_proposed_revision :: string

definition publication_intent_from_persisted :: "string \<Rightarrow> string \<Rightarrow> sync_limits \<Rightarrow> publication_intent result" where
  "publication_intent_from_persisted encoded proposed_revision limits =
     (if encoded = [] \<or> length encoded > unat (sl_max_control_bytes limits) \<or> CHR 0x00 \<in> set encoded
      then Err ''sync_backend.intent_invalid''
      else Ok \<lparr>pi_encoded = encoded, pi_proposed_revision = proposed_revision\<rparr>)"

datatype publication_status = Published string | Ready | Uncertain

section \<open>Measures agree\<close>

text \<open>
  The length an envelope declares dominates the bytes the catalog of the merge charges for the same
  object: the envelope also counts the paths and one byte of mode per file.
\<close>

definition sum_files :: "(string \<times> captured_file) list \<Rightarrow> nat" where
  "sum_files fs = sum_list (map (\<lambda>(p, f). length p + 1 + length (cf_bytes f)) fs)"

lemma charge_file_unat:
  assumes "charge_file n (p, f) = Ok n'" "length p < 2 ^ 64" "length (cf_bytes f) < 2 ^ 64"
  shows "unat n' = unat n + (length p + 1 + length (cf_bytes f))"
  using assms by (auto simp: charge_file_def u64_length_def u64_checked_add_Some unat_of_nat ok_or_Ok_iff
      bind_eq_Some_conv)

definition tree_lengths_fit :: "captured_tree \<Rightarrow> bool" where
  "tree_lengths_fit t \<longleftrightarrow> list_all (\<lambda>(p, f). length p < 2 ^ 64 \<and> length (cf_bytes f) < 2 ^ 64) (ct_files t)"

lemma charge_files_unat:
  assumes "try_fold charge_file n fs = Ok n'" "list_all (\<lambda>(p, f). length p < 2 ^ 64 \<and> length (cf_bytes f) < 2 ^ 64) fs"
  shows "unat n' = unat n + sum_files fs"
  using assms
proof (induction fs arbitrary: n)
  case (Cons e fs)
  obtain p f where e: "e = (p, f)" by (cases e)
  obtain k where "charge_file n (p, f) = Ok k" "try_fold charge_file k fs = Ok n'"
    using Cons.prems(1) by (auto simp: e bind_result_Ok_iff)
  then show ?case using Cons.IH[of k] Cons.prems(2) charge_file_unat[of n p f k] by (simp add: e sum_files_def)
qed (simp add: sum_files_def)

lemma descriptor_for_Ok:
  assumes "descriptor_for kind root object_hash metadata tree = Ok d" "tree_lengths_fit tree" "length metadata < 2 ^ 64"
  shows "d = ObjectDescriptor kind root object_hash (od_encoded_len d)
    \<and> unat (od_encoded_len d) = length metadata + sum_files (ct_files tree) \<and> od_encoded_len d \<noteq> 0"
proof -
  obtain n where n: "try_fold charge_file (u64_length metadata) (ct_files tree) = Ok n" "n \<noteq> 0"
    "d = ObjectDescriptor kind root object_hash n"
    using assms(1) by (auto simp: descriptor_for_def bind_result_Ok_iff map_err_Ok_iff object_descriptor_new_def split: if_splits)
  have "unat (u64_length metadata) = length metadata" using assms(3) by (simp add: u64_length_def unat_of_nat)
  then show ?thesis using charge_files_unat[OF n(1)] assms(2) n(2,3) by (simp add: tree_lengths_fit_def)
qed

lemma object_bytes_unat:
  assumes "object_bytes metadata_bytes tree = Ok n" "tree_lengths_fit tree" "metadata_bytes < 2 ^ 64"
  shows "unat n = metadata_bytes + sum_list (map (length \<circ> cf_bytes) (bt_values (ct_files tree)))"
proof -
  let ?f = "\<lambda>s file. ok_or ''sync_objects.total_bytes_exceeded'' (u64_checked_add s (of_nat (length (cf_bytes file))))"
  have fold: "try_fold ?f k fs = Ok n \<Longrightarrow> \<forall>f\<in>set fs. length (cf_bytes f) < 2 ^ 64
      \<Longrightarrow> unat n = unat k + sum_list (map (length \<circ> cf_bytes) fs)" for k fs
  proof (induction fs arbitrary: k)
    case (Cons f fs)
    obtain k' where k': "u64_checked_add k (of_nat (length (cf_bytes f))) = Some k'" "try_fold ?f k' fs = Ok n"
      using Cons.prems(1) by (auto simp: bind_result_Ok_iff ok_or_Ok_iff)
    have "unat (of_nat (length (cf_bytes f)) :: 64 word) = length (cf_bytes f)" using Cons.prems(2) by (simp add: unat_of_nat)
    then have "unat k' = unat k + length (cf_bytes f)" using k'(1) by (simp add: u64_checked_add_Some)
    then show ?case using Cons.IH[OF k'(2)] Cons.prems(2) by simp
  qed simp
  have "\<forall>f\<in>set (bt_values (ct_files tree)). length (cf_bytes f) < 2 ^ 64"
    using assms(2) by (auto simp: tree_lengths_fit_def list_all_iff bt_values_def)
  then show ?thesis
    using fold[of "of_nat metadata_bytes" "bt_values (ct_files tree)"] assms(1,3) by (simp add: object_bytes_def unat_of_nat)
qed

lemma charged_below_declared:
  assumes "object_bytes (length metadata) tree = Ok n" "descriptor_for kind root h metadata tree = Ok d"
    and "tree_lengths_fit tree" "length metadata < 2 ^ 64"
  shows "n \<le> od_encoded_len d"
proof -
  have "sum_list (map (length \<circ> cf_bytes) (bt_values fs)) \<le> sum_files fs" for fs
    by (induction fs) (auto simp: sum_files_def bt_values_def)
  then show ?thesis
    using object_bytes_unat[OF assms(1,3,4)] descriptor_for_Ok[OF assms(2-4)] by (simp add: word_le_nat_alt)
qed

section \<open>Properties\<close>

text \<open>The two measures of an object agree: for a skill tree that can be put in an envelope, the bytes that
  the catalog of the merge charges are at most the length its descriptor declares, so an object within the
  per-object limit of the descriptor check never exceeds the same limit in the catalog.\<close>

theorem declared_length_covers_charged_bytes:
  assumes "envelope_portable codec root obj = Ok e" "portable_object_bytes codec obj = Ok n"
    and "tree_lengths_fit obj" "length (oc_tree codec (tree_metadata obj)) < 2 ^ 64"
    and "od_encoded_len (envelope_descriptor e) \<le> sl_max_object_bytes limits"
  shows "n \<le> sl_max_object_bytes limits \<and> od_object_hash (envelope_descriptor e) = ct_hash obj"
proof -
  obtain d where d: "descriptor_for PortableSkillTree root (ct_hash obj) (oc_tree codec (tree_metadata obj)) obj = Ok d"
    and e: "envelope_descriptor e = d"
    using assms(1) by (auto simp: envelope_portable_def bind_result_Ok_iff envelope_descriptor_def)
  have "n \<le> od_encoded_len d"
    using assms(2) d assms(3,4) unfolding portable_object_bytes_def by (rule charged_below_declared)
  moreover have "od_object_hash d = ct_hash obj"
    using descriptor_for_Ok[OF d assms(3,4)] by (metis object_descriptor.sel(3))
  ultimately show ?thesis using assms(5) by (simp add: e)
qed

theorem declared_length_covers_charged_bytes_witness:
  "\<exists>e n. envelope_portable \<lparr>oc_tree = (\<lambda>_. ''{}''), oc_native = (\<lambda>_. []), oc_extension = (\<lambda>_. []), oc_yaml = (\<lambda>_. None)\<rparr>
       ''skills/review'' sample_extension_tree = Ok (e :: unit verified_object_envelope)
     \<and> unat (od_encoded_len (envelope_descriptor e)) = 17 \<and> n \<le> od_encoded_len (envelope_descriptor e) \<and> unat n = 8"
proof -
  let ?codec = "\<lparr>oc_tree = (\<lambda>_. ''{}''), oc_native = (\<lambda>_. []), oc_extension = (\<lambda>_. []), oc_yaml = (\<lambda>_. None)\<rparr>"
  let ?d = "ObjectDescriptor PortableSkillTree ''skills/review'' (ct_hash sample_extension_tree) 17"
  have e: "envelope_portable ?codec ''skills/review'' sample_extension_tree
      = Ok (EnvelopePortable ?d sample_extension_tree :: unit verified_object_envelope)"
    by (simp add: envelope_portable_def descriptor_for_def sample_extension_tree_def charge_file_def u64_length_def
        u64_checked_add_def object_descriptor_new_def)
  have n: "portable_object_bytes ?codec sample_extension_tree = Ok 8"
    by (simp add: portable_object_bytes_def object_bytes_def sample_extension_tree_def bt_values_def u64_checked_add_def)
  have "(8 :: 64 word) \<le> sl_max_object_bytes ((undefined :: sync_limits)\<lparr>sl_max_object_bytes := 17\<rparr>)"
    by (rule declared_length_covers_charged_bytes[OF e n, THEN conjunct1])
      (simp_all add: tree_lengths_fit_def sample_extension_tree_def envelope_descriptor_def)
  then show ?thesis using e by (intro exI[of _ "EnvelopePortable ?d sample_extension_tree"] exI[of _ 8])
      (simp add: envelope_descriptor_def)
qed

end
