(* ===== verification/Sync_Plans.thy ===== *)
theory Sync_Plans
  imports Sync_Backends
begin

text \<open>
  \<open>kitrove-core/src/sync_plan.rs\<close>: the pure plan of one synchronization, over the local snapshot, the
  retained base and the remote observation.  The JSON text of a descriptor is a parameter.
\<close>

datatype sync_disposition = Publish | Receive | Merge | EstablishBase | Unchanged

record sync_base_input =
  bi_snapshot :: portable_snapshot
  bi_backend_revision :: string

record sync_plan =
  pl_disposition :: sync_disposition
  pl_local :: portable_snapshot
  pl_base :: "sync_base_input option"
  pl_remote_revision :: string
  pl_remote_snapshot :: "portable_snapshot option"
  pl_merged :: portable_snapshot
  pl_upload :: "object_descriptor btree_set"
  pl_download :: "object_descriptor btree_set"
  pl_digest :: string

datatype sync_plan_outcome = PlanReady sync_plan | PlanBlocked conflicts

definition manifest_empty :: "environment_manifest \<Rightarrow> bool" where
  "manifest_empty m \<longleftrightarrow> em_assets m = [] \<and> em_packs m = [] \<and> em_profiles m = [] \<and> em_required_bindings m = []"

definition disposition_of :: "portable_snapshot \<Rightarrow> portable_snapshot \<Rightarrow> portable_snapshot \<Rightarrow> sync_disposition" where
  "disposition_of local remote merged =
     (let local_changed = (ps_snapshot_digest local \<noteq> ps_snapshot_digest merged);
          remote_changed = (ps_snapshot_digest remote \<noteq> ps_snapshot_digest merged)
      in if \<not> local_changed \<and> \<not> remote_changed then Unchanged
         else if \<not> local_changed then Publish
         else if \<not> remote_changed then Receive
         else Merge)"

section \<open>Merged descriptors\<close>

definition offer_descriptor ::
  "(string, object_descriptor) btree_map \<Rightarrow> object_descriptor \<Rightarrow> (string, object_descriptor) btree_map result" where
  "offer_descriptor available d =
     (if (case bt_get available (od_root d) of Some prior \<Rightarrow> prior \<noteq> d | None \<Rightarrow> False)
      then Err ''sync.plan_invalid'' else Ok (bt_insert (od_root d) d available))"

definition select_descriptor ::
  "(string, object_descriptor) btree_map \<Rightarrow> object_descriptor btree_set \<Rightarrow> string \<times> string \<Rightarrow> object_descriptor btree_set result" where
  "select_descriptor available selected e =
     (case e of (root, object_hash) \<Rightarrow>
       bind_result (ok_or ''sync.plan_invalid''
           (case bt_get available root of Some d \<Rightarrow> if od_object_hash d = object_hash then Some d else None | None \<Rightarrow> None))
         (\<lambda>d. Ok (bs_insert d selected)))"

definition asset_objects :: "asset \<Rightarrow> (string \<times> string) list" where
  "asset_objects a =
     (case asset_portable a of Some p \<Rightarrow> [(pc_root p, pc_object_hash p)] | None \<Rightarrow> [])
     @ map (\<lambda>n. (nv_root n, nv_object_hash n)) (bt_values (asset_native_variants a))"

definition merged_descriptors ::
  "environment_manifest \<Rightarrow> portable_snapshot list \<Rightarrow> object_descriptor btree_set result" where
  "merged_descriptors m snapshots =
     bind_result (try_fold (\<lambda>available s. try_fold offer_descriptor available (ps_objects s)) [] snapshots) (\<lambda>available.
       try_fold (\<lambda>selected a. try_fold (select_descriptor available) selected (asset_objects a)) [] (bt_values (em_assets m)))"

section \<open>The plan digest\<close>

definition disposition_tag :: "sync_disposition \<Rightarrow> string" where
  "disposition_tag d = (case d of Publish \<Rightarrow> ''publish'' | Receive \<Rightarrow> ''receive'' | Merge \<Rightarrow> ''merge''
     | EstablishBase \<Rightarrow> ''establish-base'' | Unchanged \<Rightarrow> ''unchanged'')"

definition descriptor_texts ::
  "(object_descriptor \<Rightarrow> string option) \<Rightarrow> object_descriptor btree_set \<Rightarrow> string list result" where
  "descriptor_texts encode ds = try_map (\<lambda>d. ok_or ''sync.plan_invalid'' (encode d)) ds"

text \<open>The texts that \<open>plan_digest\<close> writes, in order; each is written with its length.\<close>

definition plan_texts ::
  "snapshot_codec \<Rightarrow> (object_descriptor \<Rightarrow> string option) \<Rightarrow> sync_limits \<Rightarrow> sync_disposition \<Rightarrow> portable_snapshot
   \<Rightarrow> sync_base_input option \<Rightarrow> string \<Rightarrow> portable_snapshot option \<Rightarrow> portable_snapshot
   \<Rightarrow> object_descriptor btree_set \<Rightarrow> object_descriptor btree_set \<Rightarrow> string list result" where
  "plan_texts codec encode limits disposition local base remote_revision remote merged upload download =
     (let json = (\<lambda>s. map_err ''sync.plan_invalid'' (snapshot_to_json codec s limits))
      in bind_result (json local) (\<lambda>local_json.
         bind_result (case base of
             Some b \<Rightarrow> bind_result (json (bi_snapshot b)) (\<lambda>t. Ok [''base-present'', t, bi_backend_revision b])
           | None \<Rightarrow> Ok [''base-absent'']) (\<lambda>base_texts.
         bind_result (case remote of
             Some r \<Rightarrow> bind_result (json r) (\<lambda>t. Ok [''remote-present'', t])
           | None \<Rightarrow> Ok [''remote-absent'']) (\<lambda>remote_texts.
         bind_result (json merged) (\<lambda>merged_json.
         bind_result (descriptor_texts encode upload) (\<lambda>upload_texts.
         bind_result (descriptor_texts encode download) (\<lambda>download_texts.
           Ok ([disposition_tag disposition, ''local'', local_json] @ base_texts
               @ [''remote-revision'', remote_revision] @ remote_texts @ [''merged'', merged_json]
               @ [''upload''] @ upload_texts @ [''download''] @ download_texts))))))))"

definition plan_digest ::
  "(string \<Rightarrow> string) \<Rightarrow> snapshot_codec \<Rightarrow> (object_descriptor \<Rightarrow> string option) \<Rightarrow> sync_limits \<Rightarrow> sync_disposition
   \<Rightarrow> portable_snapshot \<Rightarrow> sync_base_input option \<Rightarrow> string \<Rightarrow> portable_snapshot option \<Rightarrow> portable_snapshot
   \<Rightarrow> object_descriptor btree_set \<Rightarrow> object_descriptor btree_set \<Rightarrow> string result" where
  "plan_digest H codec encode limits disposition local base remote_revision remote merged upload download =
     bind_result (plan_texts codec encode limits disposition local base remote_revision remote merged upload download) (\<lambda>texts.
       Ok (''blake3:'' @ H (''kitrove-sync-plan-v1'' @ [CHR 0x00] @ concat (map write_text_record texts))))"

section \<open>Planning\<close>

text \<open>The outcome of the \<open>match\<close>: the early return with conflicts, or the merged snapshot.\<close>

datatype plan_selection = SelectionBlocked conflicts | SelectionMerged portable_snapshot sync_disposition

definition bootstrap_conflict :: sync_conflict where
  "bootstrap_conflict = \<lparr>conflict_code = BootstrapAmbiguous, conflict_subject = SubjectBootstrap\<rparr>"

definition plan_merge ::
  "(string \<Rightarrow> string) \<Rightarrow> object_codec \<Rightarrow> snapshot_codec \<Rightarrow> 'd document_view \<Rightarrow> portable_snapshot \<Rightarrow> sync_base_input
   \<Rightarrow> string \<Rightarrow> portable_snapshot \<Rightarrow> 'd skill_object_catalog \<Rightarrow> tier_one_capabilities \<Rightarrow> sync_limits
   \<Rightarrow> plan_selection result" where
  "plan_merge H codec scodec view local base remote_revision remote catalog capabilities limits =
     (if bi_backend_revision base = remote_revision
         \<and> ps_snapshot_digest (bi_snapshot base) \<noteq> ps_snapshot_digest remote
      then Err ''sync.plan_invalid''
      else bind_result (map_err ''sync.plan_invalid'' (merge_manifests H codec view (ps_manifest (bi_snapshot base))
              (ps_manifest local) (ps_manifest remote) catalog capabilities limits)) (\<lambda>merge.
        if sm_conflicts merge \<noteq> [] then Ok (SelectionBlocked (sm_conflicts merge))
        else bind_result (ok_or ''sync.plan_invalid'' (sm_merged_manifest merge)) (\<lambda>m.
             bind_result (merged_descriptors m [local, bi_snapshot base, remote]) (\<lambda>descriptors.
             bind_result (map_err ''sync.plan_invalid'' (snapshot_new H scodec m descriptors limits)) (\<lambda>merged.
               Ok (SelectionMerged merged (disposition_of local remote merged)))))))"

definition plan_selection_for ::
  "(string \<Rightarrow> string) \<Rightarrow> object_codec \<Rightarrow> snapshot_codec \<Rightarrow> 'd document_view \<Rightarrow> portable_snapshot
   \<Rightarrow> sync_base_input option \<Rightarrow> remote_snapshot \<Rightarrow> 'd skill_object_catalog \<Rightarrow> tier_one_capabilities \<Rightarrow> sync_limits
   \<Rightarrow> plan_selection result" where
  "plan_selection_for H codec scodec view local base remote catalog capabilities limits =
     (case (base, rm_snapshot remote) of
        (None, None) \<Rightarrow>
          if manifest_empty (ps_manifest local) then Err ''sync.nothing_to_sync'' else Ok (SelectionMerged local Publish)
      | (None, Some r) \<Rightarrow>
          if manifest_empty (ps_manifest local) then Ok (SelectionMerged r Receive)
          else if ps_snapshot_digest r = ps_snapshot_digest local then Ok (SelectionMerged local EstablishBase)
          else Ok (SelectionBlocked [bootstrap_conflict])
      | (Some b, None) \<Rightarrow> Err ''sync.remote_history_missing''
      | (Some b, Some r) \<Rightarrow>
          plan_merge H codec scodec view local b (rm_revision remote) r catalog capabilities limits)"

definition plan_risk ::
  "(string \<Rightarrow> string) \<Rightarrow> object_codec \<Rightarrow> 'd document_view \<Rightarrow> 'd skill_object_catalog \<Rightarrow> sync_limits \<Rightarrow> portable_snapshot
   \<Rightarrow> unit result" where
  "plan_risk H codec view catalog limits s =
     map_err ''sync.plan_invalid'' (validate_manifest_object_risk H codec view (ps_manifest s) catalog limits)"

definition plan_sync ::
  "(string \<Rightarrow> string) \<Rightarrow> object_codec \<Rightarrow> snapshot_codec \<Rightarrow> 'd document_view \<Rightarrow> (object_descriptor \<Rightarrow> string option)
   \<Rightarrow> portable_snapshot \<Rightarrow> sync_base_input option \<Rightarrow> remote_snapshot \<Rightarrow> 'd skill_object_catalog
   \<Rightarrow> tier_one_capabilities \<Rightarrow> sync_limits \<Rightarrow> sync_plan_outcome result" where
  "plan_sync H codec scodec view encode local base remote catalog capabilities limits =
     and_then (plan_risk H codec view catalog limits local)
     (and_then (case base of Some b \<Rightarrow> plan_risk H codec view catalog limits (bi_snapshot b) | None \<Rightarrow> Ok ())
     (and_then (case rm_snapshot remote of Some r \<Rightarrow> plan_risk H codec view catalog limits r | None \<Rightarrow> Ok ())
     (bind_result (plan_selection_for H codec scodec view local base remote catalog capabilities limits) (\<lambda>selection.
      case selection of
        SelectionBlocked conflicts \<Rightarrow> Ok (PlanBlocked conflicts)
      | SelectionMerged merged disposition \<Rightarrow>
          let remote_objects = (case rm_snapshot remote of Some r \<Rightarrow> ps_objects r | None \<Rightarrow> []);
              upload = bs_difference (ps_objects merged) remote_objects;
              download = bs_difference (ps_objects merged) (ps_objects local)
          in bind_result (plan_digest H scodec encode limits disposition local base (rm_revision remote)
                 (rm_snapshot remote) merged upload download) (\<lambda>digest.
               Ok (PlanReady
                 \<lparr>pl_disposition = disposition, pl_local = local, pl_base = base, pl_remote_revision = rm_revision remote,
                  pl_remote_snapshot = rm_snapshot remote, pl_merged = merged, pl_upload = upload,
                  pl_download = download, pl_digest = digest\<rparr>))))))"

end
