(* ===== verification/Risk_Laws.thy ===== *)
theory Risk_Laws
  imports Snapshot_Risk Merge_Contents
begin

text \<open>
  What the risk check promises, and that the merge keeps it: what an accepted manifest references is free of
  credentials and accounted for, and a ready merge passes the check that its inputs had to pass.
\<close>

section \<open>Maps built in key order\<close>

lemma bt_wf_map_key: "bt_wf (map (\<lambda>(k, v). (k, g k v)) xs) = bt_wf xs"
proof -
  have "map fst (map (\<lambda>(k, v). (k, g k v)) xs) = map fst xs" by (induction xs) auto
  then show ?thesis unfolding bt_wf_def by (rule arg_cong)
qed

lemma bt_get_map_key: "bt_get (map (\<lambda>(k, v). (k, g k v)) xs) k = map_option (g k) (bt_get xs k)"
  by (induction xs) (auto simp: bt_get_def)

lemma try_fold_insert:
  "try_fold (\<lambda>m (k, v). bind_result (f k v) (\<lambda>x. Ok (bt_insert k x m))) m0 xs = Ok m \<longleftrightarrow>
     (\<forall>(k, v)\<in>set xs. \<exists>x. f k v = Ok x) \<and> m = fold (\<lambda>(k, v). bt_insert k (projr (f k v))) xs m0"
proof (induction xs arbitrary: m0)
  case (Cons e xs)
  obtain k v where e: "e = (k, v)" by (cases e)
  show ?case using Cons.IH by (cases "f k v") (auto simp: e)
qed auto

lemma try_fold_insert_wf:
  assumes "bt_wf xs"
    and "try_fold (\<lambda>m (k, v). bind_result (f k v) (\<lambda>x. Ok (bt_insert k x m))) [] xs = Ok m"
  shows "(\<forall>(k, v)\<in>set xs. \<exists>x. f k v = Ok x) \<and> m = map (\<lambda>(k, v). (k, projr (f k v))) xs"
proof -
  let ?ys = "map (\<lambda>(k, v). (k, projr (f k v))) xs"
  have "bt_wf ?ys" using assms(1) by (simp add: bt_wf_map_key)
  moreover have "fold (\<lambda>(k, v). bt_insert k (projr (f k v))) xs [] = bt_collect ?ys"
    by (simp add: bt_collect_def fold_map comp_def split_def)
  ultimately show ?thesis using assms(2) by (simp add: try_fold_insert bt_collect_id)
qed

section \<open>Derived skills\<close>

lemma collect_natives_Ok:
  assumes "bt_wf vs" "collect_natives objects vs = Ok os"
  shows "(\<forall>(h, v)\<in>set vs. \<exists>x. catalog_native objects (nv_object_hash v) = Ok x)
    \<and> os = map (\<lambda>(h, v). (h, projr (catalog_native objects (nv_object_hash v)))) vs"
  using try_fold_insert_wf[where f = "\<lambda>h v. catalog_native objects (nv_object_hash v)", OF assms(1)] assms(2)
  by (simp add: collect_natives_def)

lemma assess_natives_split:
  "try_fold (\<lambda>(class, classes) (harness, obj).
       bind_result (map_err e (assess_native_skill_object_risk yaml obj)) (\<lambda>native_class.
         Ok (max class native_class, bt_insert harness native_class classes))) (c0, m0) os = Ok (c, m) \<longleftrightarrow>
     try_fold (\<lambda>m (h, obj). bind_result (map_err e (assess_native_skill_object_risk yaml obj)) (\<lambda>x. Ok (bt_insert h x m)))
       m0 os = Ok m
     \<and> c = fold (\<lambda>(h, obj). \<lambda>c. max c (projr (assess_native_skill_object_risk yaml obj))) os c0"
proof (induction os arbitrary: c0 m0)
  case (Cons e os)
  obtain h obj where e: "e = (h, obj)" by (cases e)
  show ?case using Cons.IH by (cases "assess_native_skill_object_risk yaml obj") (simp_all add: e)
qed auto

text \<open>The variants after their classes have been written back.\<close>

lemma recompute_get:
  "bt_get (recompute_class c vs h) k = (if k = h then map_option (nv_content_class_update (\<lambda>_. c)) (bt_get vs k) else bt_get vs k)"
  by (auto simp: recompute_class_def bt_get_insert split: option.split)

lemma recompute_wf: "bt_wf vs \<Longrightarrow> bt_wf (recompute_class c vs h)"
  by (auto simp: recompute_class_def bt_wf_insert split: option.split)

lemma recompute_classes_get:
  "distinct (map fst cs) \<Longrightarrow>
   bt_get (fold (\<lambda>(h, c) vs. recompute_class c vs h) cs vs) k =
     (case map_of cs k of Some c \<Rightarrow> map_option (nv_content_class_update (\<lambda>_. c)) (bt_get vs k) | None \<Rightarrow> bt_get vs k)"
proof (induction cs arbitrary: vs)
  case (Cons e cs)
  obtain h c where e: "e = (h, c)" by (cases e)
  have "map_of cs h = None" using Cons.prems by (simp add: e map_of_eq_None_iff)
  then show ?case using Cons.IH Cons.prems by (auto simp: e recompute_get split: option.split)
qed simp

lemma recompute_classes_wf: "bt_wf vs \<Longrightarrow> bt_wf (fold (\<lambda>(h, c) vs. recompute_class c vs h) cs vs)"
proof (induction cs arbitrary: vs)
  case (Cons e cs)
  then show ?case by (cases e) (simp add: recompute_wf)
qed simp

lemma recompute_classes_map:
  assumes "bt_wf vs"
  shows "fold (\<lambda>(h, c) vs. recompute_class c vs h) (map (\<lambda>(h, v). (h, g v)) vs) vs
    = map (\<lambda>(h, v). (h, v\<lparr>nv_content_class := g v\<rparr>)) vs"
proof (rule bt_ext)
  let ?cs = "map (\<lambda>(h, v). (h, g v)) vs" and ?ws = "map (\<lambda>(h, v). (h, v\<lparr>nv_content_class := g v\<rparr>)) vs"
  show "bt_wf (fold (\<lambda>(h, c) vs. recompute_class c vs h) ?cs vs)" using assms by (rule recompute_classes_wf)
  show "bt_wf ?ws" using assms by (simp add: bt_wf_map_key)
  have "distinct (map fst ?cs)" using assms by (intro bt_wf_distinct) (simp add: bt_wf_map_key)
  from recompute_classes_get[OF this]
  have "bt_get (fold (\<lambda>(h, c) vs. recompute_class c vs h) ?cs vs) k = bt_get ?ws k" for k
    unfolding bt_get_map_key bt_get_def[of ?cs, symmetric]
    by (cases "bt_get vs k") (simp_all add: bt_get_map_key)
  then show "bt_get (fold (\<lambda>(h, c) vs. recompute_class c vs h) ?cs vs) = bt_get ?ws" by blast
qed

lemma assess_natives_Ok:
  assumes "bt_wf os" "assess_natives yaml c0 os = Ok (c, m)"
  shows "(\<forall>(h, obj)\<in>set os. \<exists>x. assess_native_skill_object_risk yaml obj = Ok x)
    \<and> m = map (\<lambda>(h, obj). (h, projr (assess_native_skill_object_risk yaml obj))) os
    \<and> c = fold (\<lambda>(h, obj) c. max c (projr (assess_native_skill_object_risk yaml obj))) os c0"
proof -
  let ?f = "\<lambda>h obj. map_err ''sync_merge.derived_risk_invalid'' (assess_native_skill_object_risk yaml obj)"
  have run: "try_fold (\<lambda>m (h, obj). bind_result (?f h obj) (\<lambda>x. Ok (bt_insert h x m))) [] os = Ok m"
    and c: "c = fold (\<lambda>(h, obj) c. max c (projr (assess_native_skill_object_risk yaml obj))) os c0"
    using assms(2) unfolding assess_natives_def assess_natives_split by simp_all
  have all: "\<forall>(h, obj)\<in>set os. \<exists>x. ?f h obj = Ok x" and m: "m = map (\<lambda>(h, obj). (h, projr (?f h obj))) os"
    using try_fold_insert_wf[where f = ?f, OF assms(1) run] by simp_all
  have "m = map (\<lambda>(h, obj). (h, projr (assess_native_skill_object_risk yaml obj))) os"
    unfolding m using all by (intro map_cong refl) (force simp: map_err_Ok_iff)
  then show ?thesis using all c by (auto simp: map_err_Ok_iff)
qed

text \<open>The classes written back are the ones the check recomputes.\<close>

lemma check_native_skills_pass:
  assumes "\<forall>(h, v)\<in>set vs. \<exists>obj x. catalog_native objects (nv_object_hash v) = Ok obj
      \<and> assess_native_skill_object_risk yaml obj = Ok x \<and> g v = x"
  shows "try_fold (check_native_skill yaml objects) c0 (map (\<lambda>(h, v). v\<lparr>nv_content_class := g v\<rparr>) vs)
    = Ok (fold (\<lambda>(h, v) c. max c (g v)) vs c0)"
  using assms
proof (induction vs arbitrary: c0)
  case (Cons e vs)
  then show ?case by (cases e) (auto simp: check_native_skill_def)
qed simp

lemma derived_skill_passes:
  assumes "derive_asset H codec objects capabilities d = Ok a" "ad_kind d = Skill" "bt_wf (ad_native_variants d)"
    and "list_all (\<lambda>v. nv_format v = native_skill_format) (bt_values (ad_native_variants d))"
  shows "validate_asset_object_risk H (oc_yaml codec) view objects a = Ok ()"
proof -
  let ?vs = "ad_native_variants d"
  let ?obj = "\<lambda>v. projr (catalog_native objects (nv_object_hash v))"
  let ?g = "\<lambda>v. projr (assess_native_skill_object_risk (oc_yaml codec) (?obj v))"
  obtain pobj os c0 c m where portable: "(case ad_portable d of None \<Rightarrow> Ok None
      | Some p \<Rightarrow> bind_result (catalog_portable objects (pc_object_hash p)) (\<lambda>obj. Ok (Some obj))) = Ok pobj"
    and natives: "collect_natives objects ?vs = Ok os"
    and risk: "(case pobj of None \<Rightarrow> Ok DataOnly
      | Some obj \<Rightarrow> bind_result (portable_object_class (oc_yaml codec) obj) (\<lambda>c. Ok (max DataOnly c))) = Ok c0"
    and assessed: "assess_natives (oc_yaml codec) c0 os = Ok (c, m)"
    and a: "asset_kind_of a = Skill" "asset_portable a = ad_portable d" "asset_content_class a = c"
      "asset_native_variants a = fold (\<lambda>(h, c) vs. recompute_class c vs h) m ?vs"
    using assms(1,2) by (auto simp: derive_asset_def bind_result_Ok_iff asset_refresh_content_hash_def Let_def)
  note collected = collect_natives_Ok[OF assms(3) natives]
  have "bt_wf os" using collected assms(3) by (simp add: bt_wf_map_key)
  note classes = assess_natives_Ok[OF this assessed]
  have "m = map (\<lambda>(h, v). (h, ?g v)) ?vs" using collected classes by (simp add: split_def comp_def)
  then have variants: "asset_native_variants a = map (\<lambda>(h, v). (h, v\<lparr>nv_content_class := ?g v\<rparr>)) ?vs"
    using recompute_classes_map[OF assms(3)] a(4) by simp
  then have vals: "bt_values (asset_native_variants a) = map (\<lambda>(h, v). v\<lparr>nv_content_class := ?g v\<rparr>) ?vs"
    by (simp add: bt_values_def split_def comp_def)
  have "\<forall>(h, v)\<in>set ?vs. \<exists>obj x. catalog_native objects (nv_object_hash v) = Ok obj
      \<and> assess_native_skill_object_risk (oc_yaml codec) obj = Ok x \<and> ?g v = x"
    using collected classes by fastforce
  from check_native_skills_pass[OF this]
  have "try_fold (check_native_skill (oc_yaml codec) objects) c0 (bt_values (asset_native_variants a))
      = Ok (fold (\<lambda>(h, v) c. max c (?g v)) ?vs c0)" unfolding vals by blast
  moreover have "c = fold (\<lambda>(h, v) c. max c (?g v)) ?vs c0"
    using collected classes by (simp add: fold_map comp_def split_def)
  moreover have "\<not> list_ex (\<lambda>n. nv_format n = native_extension_format) (bt_values (asset_native_variants a))"
    using assms(4) unfolding vals
    by (auto simp: list_ex_iff list_all_iff bt_values_def native_skill_format_def native_extension_format_def)
  moreover have "(case ad_portable d of None \<Rightarrow> Ok DataOnly
      | Some p \<Rightarrow> bind_result (catalog_portable objects (pc_object_hash p)) (\<lambda>obj.
          bind_result (portable_object_class (oc_yaml codec) obj) (\<lambda>c. Ok (max DataOnly c)))) = Ok c0"
    using portable risk by (cases "ad_portable d") (auto simp: bind_result_Ok_iff)
  ultimately show ?thesis using a(1,2,3) by (simp add: validate_asset_object_risk_def validate_skill_snapshot_asset_def)
qed

section \<open>Merged drafts have a supported shape\<close>

lemma set_bt_insert: "set (bt_insert k v m) \<subseteq> insert (k, v) (set m)"
  by (induction k v m rule: bt_insert.induct) auto

text \<open>The maps of an asset are \<open>BTreeMap\<close>s, which keep their keys in order.\<close>

definition ordered_natives :: "environment_manifest \<Rightarrow> bool" where
  "ordered_natives m \<longleftrightarrow> (\<forall>a\<in>set (bt_values (em_assets m)). bt_wf (asset_native_variants a))"

lemma ordered_natives_get: "ordered_natives m \<Longrightarrow> bt_get (em_assets m) i = Some a \<Longrightarrow> bt_wf (asset_native_variants a)"
  by (force simp: ordered_natives_def bt_get_def bt_values_def dest: map_of_SomeD)

lemma merge_natives_wf:
  assumes "merge_natives lim b l r c = Ok (ns, c')"
  shows "bt_wf ns"
proof -
  have "case (ns, c') of (ns, _) \<Rightarrow> bt_wf ns"
    using assms unfolding merge_natives_def
    by (rule try_fold_invariant[where P = "\<lambda>s. case s of (ns, _) \<Rightarrow> bt_wf ns"])
      (auto simp: bind_result_Ok_iff bt_wf_insert split: option.splits)
  then show ?thesis by simp
qed

lemma merge_existing_asset_wf: "merge_existing_asset lim b l r c = Ok (d, c') \<Longrightarrow> bt_wf (ad_native_variants d)"
  by (auto simp: merge_existing_asset_def bind_result_Ok_iff dest: merge_natives_wf)

lemma select_asset_draft_wf:
  assumes "select_asset_draft lim i b l r c = Ok (Some d, c')"
    and "\<And>a. l = Some a \<or> r = Some a \<Longrightarrow> bt_wf (asset_native_variants a)"
  shows "bt_wf (ad_native_variants d)"
  using assms by (cases b; cases l; cases r)
    (auto simp: select_asset_draft_def bind_result_Ok_iff draft_from_asset_def dest: merge_existing_asset_wf split: if_splits)

lemma merge_assets_supported:
  assumes "merge_assets lim b l r [] = Ok (ds, [])" "ordered_natives l" "ordered_natives r"
  shows "\<forall>d\<in>snd ` set ds. supported_shape d \<and> bt_wf (ad_native_variants d)"
proof -
  define P where "P s \<longleftrightarrow> (snd s = [] \<longrightarrow> (\<forall>d\<in>snd ` set (fst s). supported_shape d \<and> bt_wf (ad_native_variants d)))"
    for s :: "asset_drafts \<times> conflicts"
  have "P (ds, [])"
    using assms(1) unfolding merge_assets_def
  proof (rule try_fold_invariant[where P = P])
    fix s i t assume IH: "P s" and step: "merge_one_asset lim b l r s i = Ok t"
    obtain u e v e' where st: "s = (u, e)" "t = (v, e')" by (metis prod.collapse)
    show "P t"
    proof (cases "e' = []")
      case True
      then obtain x where x: "select_asset_draft lim i (bt_get (em_assets b) i) (bt_get (em_assets l) i) (bt_get (em_assets r) i) e
          = Ok (x, [])" "e = []" "v = (case x of Some y \<Rightarrow> bt_insert i y u | None \<Rightarrow> u)"
        using merge_one_asset_quiet step st by blast
      show ?thesis
      proof (cases x)
        case None
        then show ?thesis using IH x st by (simp add: P_def)
      next
        case (Some d)
        have "bt_wf (ad_native_variants d)"
          by (rule select_asset_draft_wf[OF x(1)[unfolded Some]]) (use assms(2,3) ordered_natives_get in blast)
        moreover have "supported_shape d"
          using step True by (auto simp: st merge_one_asset_def x(1) Some bind_result_Ok_iff split: if_splits)
        moreover have "snd ` set (bt_insert i d u) \<subseteq> insert d (snd ` set u)"
          using image_mono[OF set_bt_insert, of snd i d u] by simp
        moreover have "\<forall>d\<in>snd ` set u. supported_shape d \<and> bt_wf (ad_native_variants d)"
          using IH x(2) unfolding P_def st by simp
        moreover have "v = bt_insert i d u" using x(3) Some by simp
        ultimately show ?thesis unfolding P_def st fst_conv by blast
      qed
    qed (simp add: st P_def)
  qed (simp add: P_def)
  then show ?thesis by (simp add: P_def)
qed

lemma derived_asset_passes:
  assumes "derive_asset H codec objects capabilities d = Ok a" "supported_shape d" "bt_wf (ad_native_variants d)"
  shows "validate_asset_object_risk H (oc_yaml codec) view objects a = Ok ()"
proof (cases "ad_kind d = Extension")
  case True
  then show ?thesis using assms(1)
    by (auto simp: derive_asset_def derive_extension_asset_def bind_result_Ok_iff and_then_Ok_iff Let_def
        asset_refresh_content_hash_def validate_asset_object_risk_def split: if_splits)
next
  case False
  then have "ad_kind d = Skill" "list_all (\<lambda>v. nv_format v = native_skill_format) (bt_values (ad_native_variants d))"
    using assms(2) by (auto simp: supported_shape_def split: asset_kind.splits)
  then show ?thesis using derived_skill_passes assms(1,3) by blast
qed

lemma derive_assets_from:
  assumes "derive_assets derive ds = Ok as" "a \<in> set (bt_values as)"
  shows "\<exists>d\<in>snd ` set ds. derive d = Ok a"
proof -
  have "\<forall>a\<in>snd ` set as. \<exists>d\<in>snd ` set ds. derive d = Ok a"
    using assms(1) unfolding derive_assets_def
  proof (rule try_fold_invariant[where P = "\<lambda>as. \<forall>a\<in>snd ` set as. \<exists>d\<in>snd ` set ds. derive d = Ok a"])
    fix u e v assume e: "e \<in> set ds" and IH: "\<forall>a\<in>snd ` set u. \<exists>d\<in>snd ` set ds. derive d = Ok a"
      and step: "(case e of (i, d) \<Rightarrow> bind_result (derive d) (\<lambda>a. Ok (bt_insert i a u))) = Ok v"
    obtain i d a where id: "e = (i, d)" "derive d = Ok a" "v = bt_insert i a u"
      using step by (auto simp: bind_result_Ok_iff split: prod.splits)
    have "d \<in> snd ` set ds" using e id(1) by force
    moreover have "snd ` set v \<subseteq> insert a (snd ` set u)"
      unfolding id(3) using image_mono[OF set_bt_insert, of snd i a u] by simp
    ultimately show "\<forall>a\<in>snd ` set v. \<exists>d\<in>snd ` set ds. derive d = Ok a" using IH id(2) by blast
  qed simp
  then show ?thesis using assms(2) unfolding bt_values_def set_map by blast
qed

lemma ready_merge_parts:
  assumes "merge_manifests H codec view base local remote objects capabilities limits = Ok out"
    and "sm_merged_manifest out = Some m"
  shows "\<exists>ds as. merge_assets limits base local remote [] = Ok (ds, [])
    \<and> derive_assets (derive_asset H codec objects capabilities) ds = Ok as \<and> em_assets m = as
    \<and> validate_manifest H m = Ok () \<and> validate_limits codec view objects limits = Ok ()"
proof -
  have limits: "validate_limits codec view objects limits = Ok ()"
    using assms(1) by (auto simp: merge_manifests_def merge_manifests_with_def and_then_Ok_iff)
  obtain ds c1 ps c2 cs where parts: "merge_assets limits base local remote [] = Ok (ds, c1)"
      "merge_packs limits base local remote c1 = Ok (ps, c2)" "reject_changed_profiles limits base local remote c2 = Ok cs"
    and out: "if cs \<noteq> [] then out = conflicted (sort_conflicts cs)
      else build_merged H (derive_asset H codec objects capabilities) base (merge_bindings base local remote) ds ps = Ok out"
    using assms(1) unfolding merge_manifests_def by (rule merge_manifests_with_Ok)
  have "cs = []" using out assms(2) by (auto simp: conflicted_def split: if_splits)
  have "c2 = []" using reject_changed_profiles_quiet[OF parts(3)[unfolded \<open>cs = []\<close>]] by blast
  then have "c1 = []" using merge_packs_quiet parts(2) by blast
  have built: "build_merged H (derive_asset H codec objects capabilities) base (merge_bindings base local remote) ds ps = Ok out"
    using out \<open>cs = []\<close> by simp
  obtain as m' k where as: "derive_assets (derive_asset H codec objects capabilities) ds = Ok as"
    and shape: "same_shape \<lparr>em_schema_version = V1, em_assets = as, em_packs = bt_map (pending_pack H) ps,
       em_profiles = em_profiles base, em_required_bindings = merge_bindings base local remote\<rparr> m'"
    and valid: "validate_manifest H m' = Ok ()"
    and "out = \<lparr>sm_merged_manifest = Some m', sm_merged_lock = Some k, sm_conflicts = []\<rparr>"
    using built by (rule build_merged_Ok)
  then have "m' = m" using assms(2) by simp
  moreover have "em_assets m' = as" using shape by (simp add: same_shape_def)
  ultimately show ?thesis using parts(1) \<open>c1 = []\<close> as valid limits by blast
qed

section \<open>What an accepted asset references\<close>

text \<open>The trees and the documents of the catalog that an asset stands for.\<close>

definition asset_trees :: "'d skill_object_catalog \<Rightarrow> asset \<Rightarrow> captured_tree set" where
  "asset_trees objects a =
     (let natives = set (bt_values (asset_native_variants a))
      in if asset_kind_of a = Extension
         then {ne_tree x |x n. n \<in> natives \<and> bt_get (soc_native_extensions objects) (nv_object_hash n) = Some x}
         else if asset_kind_of a = Skill
         then {t |t p. asset_portable a = Some p \<and> bt_get (soc_portable objects) (pc_object_hash p) = Some t}
              \<union> {no_tree x |x n. n \<in> natives \<and> bt_get (soc_native objects) (nv_object_hash n) = Some x}
         else {})"

definition asset_documents :: "'d skill_object_catalog \<Rightarrow> asset \<Rightarrow> 'd set" where
  "asset_documents objects a =
     (if asset_kind_of a = Extension \<or> asset_kind_of a = Skill then {}
      else {x |x p. asset_portable a = Some p \<and> bt_get (soc_documents objects) (pc_object_hash p) = Some x}
           \<union> {x |x n. n \<in> set (bt_values (asset_native_variants a)) \<and> bt_get (soc_documents objects) (nv_object_hash n) = Some x})"

definition accounted :: "asset \<Rightarrow> captured_tree \<Rightarrow> bool" where
  "accounted a t \<longleftrightarrow> credential_free t \<and> (list_ex executable_file (ct_files t) \<longrightarrow> asset_content_class a = Executable)
     \<and> asset_content_class a \<noteq> DataOnly"

lemma accounted_class:
  assumes "credential_free t" "classify_tree t fs \<le> asset_content_class a"
  shows "accounted a t"
  using assms unfolding accounted_def
  by (cases "asset_content_class a")
    (simp_all add: classify_tree_def less_eq_content_class_def content_class_tag_def split: if_splits)

lemma check_native_skills_Ok:
  assumes "try_fold (check_native_skill yaml objects) c0 ns = Ok c"
  shows "c0 \<le> c \<and> (\<forall>n\<in>set ns. \<exists>x. bt_get (soc_native objects) (nv_object_hash n) = Some x \<and> credential_free (no_tree x)
    \<and> (\<exists>fs. classify_tree (no_tree x) fs \<le> c))"
  using assms
proof (induction ns arbitrary: c0)
  case (Cons n ns)
  obtain c1 where c1: "check_native_skill yaml objects c0 n = Ok c1"
    and run: "try_fold (check_native_skill yaml objects) c1 ns = Ok c"
    using Cons.prems by (auto simp: bind_result_Ok_iff)
  obtain x k where x: "bt_get (soc_native objects) (nv_object_hash n) = Some x"
    and k: "assess_native_skill_object_risk yaml x = Ok k" "c1 = max c0 k"
    using c1 by (auto simp: check_native_skill_def bind_result_Ok_iff map_err_Ok_iff catalog_native_def ok_or_Ok_iff
        split: if_splits)
  note ih = Cons.IH[OF run, unfolded k(2)]
  moreover have "credential_free (no_tree x)" "\<exists>fs. k = classify_tree (no_tree x) fs" using native_risk_Ok[OF k(1)] by blast+
  ultimately show ?case using x by (auto intro: order_trans)
qed simp

lemma skill_objects_accounted:
  assumes "validate_skill_snapshot_asset yaml a objects = Ok ()" "asset_kind_of a = Skill" "t \<in> asset_trees objects a"
  shows "accounted a t"
proof -
  obtain c0 where portable: "(case asset_portable a of
         None \<Rightarrow> Ok DataOnly
       | Some p \<Rightarrow> bind_result (catalog_portable objects (pc_object_hash p)) (\<lambda>obj.
           bind_result (portable_object_class yaml obj) (\<lambda>c. Ok (max DataOnly c)))) = Ok c0"
    and natives: "try_fold (check_native_skill yaml objects) c0 (bt_values (asset_native_variants a)) = Ok (asset_content_class a)"
    using assms(1) by (auto simp: validate_skill_snapshot_asset_def bind_result_Ok_iff split: if_splits)
  note checked = check_native_skills_Ok[OF natives]
  consider p where "asset_portable a = Some p" "bt_get (soc_portable objects) (pc_object_hash p) = Some t"
    | x n where "n \<in> set (bt_values (asset_native_variants a))" "t = no_tree x"
      "bt_get (soc_native objects) (nv_object_hash n) = Some x"
    using assms(2,3) by (auto simp: asset_trees_def Let_def)
  then show ?thesis
  proof cases
    case 1
    then obtain c where "portable_object_class yaml t = Ok c" "c0 = max DataOnly c"
      using portable by (auto simp: bind_result_Ok_iff catalog_portable_def)
    then have "credential_free t" "classify_tree t [] \<le> c0"
      by (auto simp: portable_object_class_def bind_result_Ok_iff map_err_Ok_iff portable_risk_iff split: if_splits)
    then show ?thesis using checked by (auto intro: accounted_class order_trans)
  next
    case 2
    then obtain fs where "credential_free t" "classify_tree t fs \<le> asset_content_class a" using checked by fastforce
    then show ?thesis by (rule accounted_class)
  qed
qed

lemma extension_objects_accounted:
  assumes "validate_extension_snapshot_asset H a objects = Ok ()" "asset_kind_of a = Extension" "t \<in> asset_trees objects a"
  shows "accounted a t"
proof -
  obtain native x where one: "length (asset_native_variants a) = 1" "bt_get (asset_native_variants a) Pi = Some native"
    and x: "bt_get (soc_native_extensions objects) (nv_object_hash native) = Some x" "credential_free (ne_tree x)"
      "asset_content_class a = Executable"
    using assms(1) by (auto simp: validate_extension_snapshot_asset_def bind_result_Ok_iff ok_or_Ok_iff map_err_Ok_iff
        catalog_native_extension_def executable_risk_iff split: if_splits)
  have "asset_native_variants a = [(Pi, native)]"
    using one by (auto simp: length_Suc_conv bt_get_def split: if_splits)
  then have "t = ne_tree x" using assms(2,3) x(1) by (auto simp: asset_trees_def Let_def bt_values_def)
  then show ?thesis using x by (simp add: accounted_def)
qed

lemma document_objects_clean:
  assumes "validate_document_snapshot_asset view a objects = Ok ()" "asset_kind_of a \<noteq> Extension" "asset_kind_of a \<noteq> Skill"
    and "x \<in> asset_documents objects a" "dv_text view x = Some t"
  shows "\<not> contains_credential_shaped_text t \<and> asset_content_class a = AgentActive"
proof -
  have clean: "check_document_object view objects e f h = Ok () \<Longrightarrow> bt_get (soc_documents objects) h = Some x
      \<Longrightarrow> \<not> contains_credential_shaped_text t" for e f h
    using assms(5) by (auto simp: check_document_object_def catalog_document_def reject_document_credentials_def split: if_splits)
  show ?thesis
    using assms(1-4) clean
    by (auto simp: validate_document_snapshot_asset_def asset_documents_def and_then_Ok_iff try_each_Ok_iff bt_values_def
        split: if_splits option.splits)
qed

section \<open>Properties\<close>

lemma ready_merge_risk:
  assumes "merge_manifests H codec view base local remote objects capabilities limits = Ok out"
    and "sm_merged_manifest out = Some m" "ordered_natives local" "ordered_natives remote"
  shows "validate_manifest_object_risk H codec view m objects limits = Ok ()"
proof -
  obtain ds as where assets: "merge_assets limits base local remote [] = Ok (ds, [])"
    and as: "derive_assets (derive_asset H codec objects capabilities) ds = Ok as" "em_assets m = as"
    and valid: "validate_manifest H m = Ok ()" and limits: "validate_limits codec view objects limits = Ok ()"
    using ready_merge_parts[OF assms(1,2)] by blast
  have "validate_asset_object_risk H (oc_yaml codec) view objects a = Ok ()" if a: "a \<in> set (bt_values as)" for a
  proof -
    obtain d where d: "d \<in> snd ` set ds" and derived: "derive_asset H codec objects capabilities d = Ok a"
      using derive_assets_from[OF as(1) a] by blast
    have "supported_shape d" "bt_wf (ad_native_variants d)"
      using merge_assets_supported[OF assets assms(3,4)] d by blast+
    with derived show ?thesis by (rule derived_asset_passes)
  qed
  then show ?thesis using valid limits as(2)
    by (simp add: validate_manifest_object_risk_def and_then_Ok_iff map_err_Ok_iff try_each_Ok_iff)
qed

text \<open>C13: A ready merge keeps the risk authority of its inputs: the merged manifest passes the object risk check
  that every snapshot has to pass before it is merged or published, against the same catalog and limits.\<close>

theorem ready_merges_pass_the_risk_check:
  assumes "merge_manifests H codec view base local remote objects capabilities limits = Ok out"
    and "sm_merged_manifest out = Some m" "ordered_natives local" "ordered_natives remote"
  shows "validate_manifest_object_risk H codec view m objects limits = Ok ()"
  using assms by (rule ready_merge_risk)

theorem ready_merges_pass_the_risk_check_witness:
  "validate_manifest_object_risk sample_digest sample_codec sample_view (manifest_requiring [''A'', ''B'']) empty_catalog
     (projr sync_limits_default) = Ok ()"
proof -
  obtain git where default: "sync_limits_default = Ok (default_limits git)" using default_limits_Ok by blast
  show ?thesis unfolding default sum.sel
    by (rule ready_merges_pass_the_risk_check[OF sample_merge])
      (simp_all add: sample_outcome_def ordered_natives_def manifest_requiring_def bt_values_def)
qed

text \<open>C12: A manifest that passes the risk check hides nothing that its objects contain: every skill and
  extension tree an asset stands for is free of credential artifacts, an executable file in it makes the
  class of the asset executable, and the text of every document is free of credential-shaped tokens.\<close>

theorem risk_checked_manifests_hide_nothing:
  assumes "validate_manifest_object_risk H codec view m objects limits = Ok ()" "a \<in> set (bt_values (em_assets m))"
  shows "(\<forall>t\<in>asset_trees objects a. credential_free t \<and> asset_content_class a \<noteq> DataOnly
        \<and> (list_ex executable_file (ct_files t) \<longrightarrow> asset_content_class a = Executable))
    \<and> (\<forall>x\<in>asset_documents objects a. \<forall>t. dv_text view x = Some t \<longrightarrow> \<not> contains_credential_shaped_text t)"
proof -
  have checked: "validate_asset_object_risk H (oc_yaml codec) view objects a = Ok ()"
    using assms by (simp add: validate_manifest_object_risk_def and_then_Ok_iff try_each_Ok_iff)
  consider "asset_kind_of a = Extension" "validate_extension_snapshot_asset H a objects = Ok ()"
    | "asset_kind_of a = Skill" "validate_skill_snapshot_asset (oc_yaml codec) a objects = Ok ()"
    | "asset_kind_of a \<noteq> Extension" "asset_kind_of a \<noteq> Skill" "validate_document_snapshot_asset view a objects = Ok ()"
    using checked by (auto simp: validate_asset_object_risk_def split: if_splits)
  then have "(\<forall>t\<in>asset_trees objects a. accounted a t)
    \<and> (\<forall>x\<in>asset_documents objects a. \<forall>t. dv_text view x = Some t \<longrightarrow> \<not> contains_credential_shaped_text t)"
  proof cases
    case 1
    then have "\<forall>t\<in>asset_trees objects a. accounted a t" using extension_objects_accounted by blast
    then show ?thesis using 1(1) by (simp add: asset_documents_def)
  next
    case 2
    then have "\<forall>t\<in>asset_trees objects a. accounted a t" using skill_objects_accounted by blast
    then show ?thesis using 2(1) by (simp add: asset_documents_def)
  next
    case 3
    then have "asset_trees objects a = {}" by (simp add: asset_trees_def Let_def)
    then show ?thesis using document_objects_clean[OF 3(3,1,2)] by blast
  qed
  then show ?thesis unfolding accounted_def by blast
qed

text \<open>A sample manifest with one instruction, whose document the catalog holds.\<close>

definition sample_note_provenance :: component_provenance where
  "sample_note_provenance = \<lparr>cp_source = LocalSource ''note'', cp_revision = ''r'', cp_exact_source_hash = sample_hash,
     cp_origin_scope = None\<rparr>"

definition sample_note :: asset where
  "sample_note = \<lparr>asset_id = ''note'', asset_kind_of = Instruction, asset_content_hash = sample_hash,
     asset_provenance = [(provenance_id sample_digest sample_note_provenance, sample_note_provenance)],
     asset_portable = Some \<lparr>pc_format = ''kitrove-instruction/v1'', pc_root = ''assets/note'', pc_object_hash = ''h'',
       pc_provenance = provenance_id sample_digest sample_note_provenance\<rparr>,
     asset_native_variants = [], asset_compatibility = [], asset_content_class = AgentActive, asset_required_bindings = []\<rparr>"

definition sample_note_manifest :: environment_manifest where
  "sample_note_manifest = (manifest_requiring [])\<lparr>em_assets := [(''note'', sample_note)]\<rparr>"

definition sample_note_view :: "unit document_view" where
  "sample_note_view = sample_view\<lparr>dv_text := (\<lambda>_. Some ''be brief'')\<rparr>"

definition sample_note_catalog :: "unit skill_object_catalog" where
  "sample_note_catalog = empty_catalog\<lparr>soc_documents := [(''h'', ())]\<rparr>"

lemma sample_note_manifest_valid: "validate_manifest sample_digest sample_note_manifest = Ok ()"
proof -
  have lists: "em_assets sample_note_manifest = [(''note'', sample_note)]" "em_packs sample_note_manifest = []"
    "em_profiles sample_note_manifest = []" "em_required_bindings sample_note_manifest = []"
    by (simp_all add: sample_note_manifest_def manifest_requiring_def)
  have "validate_manifest_asset sample_digest sample_note_manifest (''note'', sample_note) = Ok ()"
    by (simp add: validate_manifest_asset_def sample_note_def check_def referenced_provenance_def bs_extend_def
        bt_values_def bt_keys_def bt_has_def bt_get_def bs_has_def bs_collect_def asset_expected_content_hash_def)
      (simp add: sample_digest_def sample_hash_def)
  moreover have "manifest_pack_graph_depth sample_note_manifest = Ok ()"
    using manifest_requiring_checks(2)[of "[]"] by (simp add: manifest_pack_graph_depth_def lists manifest_requiring_def)
  ultimately show ?thesis
    by (simp add: validate_manifest_def lists manifest_requiring_checks(1) reject_pack_cycles_def validate_pack_revisions_def
        reject_profile_cycles_def bt_keys_def bt_values_def)
qed

lemma sample_note_clean: "\<not> contains_credential_shaped_text ''be brief''"
  by code_simp

lemma sample_note_risk:
  "validate_manifest_object_risk sample_digest sample_codec sample_note_view sample_note_manifest sample_note_catalog
     (default_limits git) = Ok ()"
proof -
  have "validate_limits sample_codec sample_note_view sample_note_catalog (default_limits git) = Ok ()"
    by (simp add: validate_limits_def catalog_count_def usize_checked_add_def catalog_sizes_def sample_note_catalog_def
        empty_catalog_def bt_values_def charge_object_def document_object_bytes_def sample_note_view_def sample_view_def
        default_limits_def u64_checked_add_def)
  moreover have "validate_asset_object_risk sample_digest (oc_yaml sample_codec) sample_note_view sample_note_catalog sample_note = Ok ()"
    using sample_note_clean
    by (simp add: validate_asset_object_risk_def sample_note_def validate_document_snapshot_asset_def bt_values_def
        check_document_object_def catalog_document_def sample_note_catalog_def bt_get_def portable_document_kind_def
        portable_snapshot_object_kind_def sample_note_view_def sample_view_def reject_document_credentials_def)
  ultimately show ?thesis
    using sample_note_manifest_valid
    by (simp add: validate_manifest_object_risk_def sample_note_manifest_def bt_values_def)
qed

theorem risk_checked_manifests_hide_nothing_witness:
  "asset_documents sample_note_catalog sample_note = {()} \<and> dv_text sample_note_view () = Some ''be brief''
   \<and> \<not> contains_credential_shaped_text ''be brief''"
proof (intro conjI)
  show documents: "asset_documents sample_note_catalog sample_note = {()}"
    by (auto simp: asset_documents_def sample_note_def sample_note_catalog_def bt_get_def)
  have "sample_note \<in> set (bt_values (em_assets sample_note_manifest))"
    by (simp add: sample_note_manifest_def bt_values_def)
  with sample_note_risk have "\<forall>x\<in>asset_documents sample_note_catalog sample_note. \<forall>t. dv_text sample_note_view x = Some t
       \<longrightarrow> \<not> contains_credential_shaped_text t"
    by (rule risk_checked_manifests_hide_nothing[THEN conjunct2])
  moreover show "dv_text sample_note_view () = Some ''be brief''" by (simp add: sample_note_view_def)
  ultimately show "\<not> contains_credential_shaped_text ''be brief''" by (simp add: documents)
qed

end
