(* ===== verification/Sync_Plan_Laws.thy ===== *)
theory Sync_Plan_Laws
  imports Sync_Plans Risk_Laws Snapshot_Laws
begin

text \<open>
  The contract of the synchronization planner: what a ready plan transfers, that the two devices agree on
  the outcome, and what the confirmed digest stands for.
\<close>

section \<open>The merged object set\<close>

definition known_objects :: "portable_snapshot list \<Rightarrow> object_descriptor set" where
  "known_objects ss = (\<Union>s\<in>set ss. set (ps_objects s))"

definition available_as :: "(string, object_descriptor) btree_map \<Rightarrow> object_descriptor set \<Rightarrow> bool" where
  "available_as m A \<longleftrightarrow> (\<forall>r d. bt_get m r = Some d \<longleftrightarrow> d \<in> A \<and> od_root d = r)"

lemma available_get: "available_as m A \<Longrightarrow> d \<in> A \<Longrightarrow> bt_get m (od_root d) = Some d"
  by (simp add: available_as_def)

lemma available_from: "available_as m A \<Longrightarrow> bt_get m r = Some d \<Longrightarrow> d \<in> A \<and> od_root d = r"
  by (simp add: available_as_def)

lemma available_as_inj: "available_as m A \<Longrightarrow> inj_on od_root A"
  by (rule inj_onI) (metis available_get option.inject)

lemma offer_descriptor_Ok:
  assumes "available_as m A"
  shows "offer_descriptor m d = Ok m' \<longleftrightarrow> inj_on od_root (insert d A) \<and> m' = bt_insert (od_root d) d m"
proof -
  have "(case bt_get m (od_root d) of Some prior \<Rightarrow> prior \<noteq> d | None \<Rightarrow> False) \<longleftrightarrow> (\<exists>x\<in>A. od_root x = od_root d \<and> x \<noteq> d)"
  proof (cases "bt_get m (od_root d)")
    case None
    then show ?thesis using available_get[OF assms] by fastforce
  next
    case (Some x)
    then show ?thesis using available_from[OF assms Some] available_get[OF assms] by fastforce
  qed
  moreover have "inj_on od_root (insert d A) \<longleftrightarrow> \<not> (\<exists>x\<in>A. od_root x = od_root d \<and> x \<noteq> d)"
    using available_as_inj[OF assms] by (auto simp: inj_on_def)
  ultimately have "(case bt_get m (od_root d) of Some prior \<Rightarrow> prior \<noteq> d | None \<Rightarrow> False) \<longleftrightarrow> \<not> inj_on od_root (insert d A)"
    by blast
  then show ?thesis by (auto simp: offer_descriptor_def)
qed

lemma available_as_insert:
  "available_as m A \<Longrightarrow> inj_on od_root (insert d A) \<Longrightarrow> available_as (bt_insert (od_root d) d m) (insert d A)"
proof (unfold available_as_def bt_get_insert, intro allI)
  fix r x
  assume known: "\<forall>r d. bt_get m r = Some d \<longleftrightarrow> d \<in> A \<and> od_root d = r" and inj: "inj_on od_root (insert d A)"
  have "x = d" if "x \<in> A" "od_root x = od_root d" using inj_onD[OF inj that(2)] that(1) by simp
  then show "((bt_get m)(od_root d := Some d)) r = Some x \<longleftrightarrow> x \<in> insert d A \<and> od_root x = r"
    using known by (cases "r = od_root d") auto
qed

lemma offer_descriptors_Ok:
  "available_as m A \<Longrightarrow>
   try_fold offer_descriptor m ds = Ok m' \<longleftrightarrow>
     inj_on od_root (set ds \<union> A) \<and> m' = fold (\<lambda>d. bt_insert (od_root d) d) ds m"
proof (induction ds arbitrary: m A)
  case Nil
  then show ?case using available_as_inj[OF Nil] by auto
next
  case (Cons d ds)
  have "try_fold offer_descriptor m (d # ds) = Ok m' \<longleftrightarrow>
      inj_on od_root (insert d A) \<and> try_fold offer_descriptor (bt_insert (od_root d) d m) ds = Ok m'"
    by (auto simp: bind_result_Ok_iff offer_descriptor_Ok[OF Cons.prems])
  also have "\<dots> \<longleftrightarrow> inj_on od_root (insert d A) \<and> inj_on od_root (set ds \<union> insert d A)
      \<and> m' = fold (\<lambda>d. bt_insert (od_root d) d) ds (bt_insert (od_root d) d m)"
    using Cons.IH[OF available_as_insert[OF Cons.prems]] by blast
  also have "\<dots> \<longleftrightarrow> inj_on od_root (set (d # ds) \<union> A) \<and> m' = fold (\<lambda>d. bt_insert (od_root d) d) (d # ds) m"
    by (auto intro: inj_on_subset)
  finally show ?case .
qed

lemma offered_available:
  "available_as m A \<Longrightarrow> inj_on od_root (set ds \<union> A) \<Longrightarrow>
   available_as (fold (\<lambda>d. bt_insert (od_root d) d) ds m) (set ds \<union> A)"
proof (induction ds arbitrary: m A)
  case (Cons d ds)
  have "inj_on od_root (insert d A)" using Cons.prems(2) by (rule inj_on_subset) auto
  with Cons.prems show ?case using Cons.IH[of "bt_insert (od_root d) d m" "insert d A"] available_as_insert by simp
qed simp

lemma select_descriptor_Ok:
  assumes "available_as m A"
  shows "select_descriptor m s (root, h) = Ok s' \<longleftrightarrow>
    (\<exists>d\<in>A. od_root d = root \<and> od_object_hash d = h \<and> s' = bs_insert d s)"
proof (cases "bt_get m root")
  case None
  then have "\<not> (\<exists>d\<in>A. od_root d = root)" using available_get[OF assms] by fastforce
  then show ?thesis using None by (auto simp: select_descriptor_def)
next
  case (Some x)
  then have "x \<in> A" "od_root x = root" using available_from[OF assms] by blast+
  moreover have "d = x" if "d \<in> A" "od_root d = root" for d using available_get[OF assms that(1)] that(2) Some by simp
  moreover have "select_descriptor m s (root, h) = Ok s' \<longleftrightarrow> od_object_hash x = h \<and> s' = bs_insert x s"
    using Some by (auto simp: select_descriptor_def)
  ultimately show ?thesis by blast
qed

lemma select_descriptors_Ok:
  assumes "available_as m A"
  shows "try_fold (select_descriptor m) s refs = Ok s' \<Longrightarrow>
    (\<forall>e\<in>set refs. \<exists>d\<in>A. (od_root d, od_object_hash d) = e)
    \<and> set s' = set s \<union> {d \<in> A. (od_root d, od_object_hash d) \<in> set refs} \<and> (bs_wf s \<longrightarrow> bs_wf s')"
proof (induction refs arbitrary: s)
  case (Cons e refs)
  obtain root h where e: "e = (root, h)" by (cases e)
  obtain d where d: "d \<in> A" "od_root d = root" "od_object_hash d = h" "try_fold (select_descriptor m) (bs_insert d s) refs = Ok s'"
    using Cons.prems by (auto simp: e bind_result_Ok_iff select_descriptor_Ok[OF assms])
  have "d' = d" if "d' \<in> A" "od_root d' = root" for d'
    using inj_onD[OF available_as_inj[OF assms]] that d(1,2) by metis
  then have "x \<in> A \<and> (od_root x, od_object_hash x) \<in> set (e # refs)
      \<longleftrightarrow> x = d \<or> x \<in> A \<and> (od_root x, od_object_hash x) \<in> set refs" for x
    using d(1-3) unfolding e list.set(2) insert_iff prod.inject by metis
  then have here: "{d \<in> A. (od_root d, od_object_hash d) \<in> set (e # refs)}
      = insert d {d \<in> A. (od_root d, od_object_hash d) \<in> set refs}"
    by blast
  from Cons.IH[OF d(4)] have IH: "\<forall>e\<in>set refs. \<exists>d\<in>A. (od_root d, od_object_hash d) = e"
    "set s' = set (bs_insert d s) \<union> {d \<in> A. (od_root d, od_object_hash d) \<in> set refs}"
    "bs_wf (bs_insert d s) \<longrightarrow> bs_wf s'" by blast+
  have "\<forall>e\<in>set (e # refs). \<exists>d\<in>A. (od_root d, od_object_hash d) = e" using IH(1) d(1-3) by (auto simp: e)
  moreover have "set s' = set s \<union> {d \<in> A. (od_root d, od_object_hash d) \<in> set (e # refs)}"
    unfolding here using IH(2) by simp
  moreover have "bs_wf s \<longrightarrow> bs_wf s'" using IH(3) bs_wf_insert by blast
  ultimately show ?case by blast
qed simp

lemma select_descriptors_exist:
  assumes "available_as m A"
  shows "\<forall>e\<in>set refs. \<exists>d\<in>A. (od_root d, od_object_hash d) = e \<Longrightarrow> \<exists>s'. try_fold (select_descriptor m) s refs = Ok s'"
proof (induction refs arbitrary: s)
  case (Cons e refs)
  then obtain d where "d \<in> A" "(od_root d, od_object_hash d) = e" by auto
  then have "select_descriptor m s e = Ok (bs_insert d s)" using select_descriptor_Ok[OF assms] by blast
  then show ?case using Cons by simp
qed simp

definition manifest_objects :: "environment_manifest \<Rightarrow> (string \<times> string) list" where
  "manifest_objects m = concat (map asset_objects (bt_values (em_assets m)))"

lemma merged_descriptors_Ok_iff:
  "merged_descriptors m ss = Ok ds \<longleftrightarrow>
     inj_on od_root (known_objects ss)
     \<and> (\<forall>e\<in>set (manifest_objects m). \<exists>d\<in>known_objects ss. (od_root d, od_object_hash d) = e)
     \<and> bs_wf ds \<and> set ds = {d \<in> known_objects ss. (od_root d, od_object_hash d) \<in> set (manifest_objects m)}"
proof -
  let ?all = "concat (map ps_objects ss)"
  let ?available = "fold (\<lambda>d. bt_insert (od_root d) d) ?all []"
  have empty: "available_as [] {}" by (simp add: available_as_def bt_get_def)
  have known: "known_objects ss = set ?all" by (auto simp: known_objects_def)
  have flat: "merged_descriptors m ss =
      bind_result (try_fold offer_descriptor [] ?all) (\<lambda>available. try_fold (select_descriptor available) [] (manifest_objects m))"
    by (simp add: merged_descriptors_def manifest_objects_def try_fold_concat try_fold_map)
  have split: "merged_descriptors m ss = Ok ds \<longleftrightarrow>
      inj_on od_root (set ?all) \<and> try_fold (select_descriptor ?available) [] (manifest_objects m) = Ok ds"
    by (auto simp: flat bind_result_Ok_iff offer_descriptors_Ok[OF empty])
  show ?thesis
  proof (cases "inj_on od_root (set ?all)")
    case True
    then have available: "available_as ?available (set ?all)" using offered_available[OF empty, of ?all] by simp
    note select = select_descriptors_Ok[OF available, of "[]" "manifest_objects m"]
    show ?thesis unfolding split known
    proof (intro iffI conjI True; (elim conjE)?)
      assume "try_fold (select_descriptor ?available) [] (manifest_objects m) = Ok ds"
      from select[OF this]
      show "\<forall>e\<in>set (manifest_objects m). \<exists>d\<in>set ?all. (od_root d, od_object_hash d) = e" "bs_wf ds"
        "set ds = {d \<in> set ?all. (od_root d, od_object_hash d) \<in> set (manifest_objects m)}" by simp_all
    next
      assume refs: "\<forall>e\<in>set (manifest_objects m). \<exists>d\<in>set ?all. (od_root d, od_object_hash d) = e"
        and ds: "bs_wf ds" "set ds = {d \<in> set ?all. (od_root d, od_object_hash d) \<in> set (manifest_objects m)}"
      obtain s where s: "try_fold (select_descriptor ?available) [] (manifest_objects m) = Ok s"
        using select_descriptors_exist[OF available refs] by blast
      from select[OF s] have "s = ds" using ds by (intro bs_ext) simp_all
      with s show "try_fold (select_descriptor ?available) [] (manifest_objects m) = Ok ds" by simp
    qed
  qed (use split known in simp)
qed

section \<open>Ready plans\<close>

definition remote_objects :: "remote_snapshot \<Rightarrow> object_descriptor set" where
  "remote_objects remote = (case rm_snapshot remote of Some r \<Rightarrow> set (ps_objects r) | None \<Rightarrow> {})"

definition base_objects :: "sync_base_input option \<Rightarrow> object_descriptor set" where
  "base_objects base = (case base of Some b \<Rightarrow> set (ps_objects (bi_snapshot b)) | None \<Rightarrow> {})"

text \<open>The plan that \<open>plan_sync\<close> builds from a merged snapshot and a digest.\<close>

definition planned ::
  "portable_snapshot \<Rightarrow> sync_base_input option \<Rightarrow> remote_snapshot \<Rightarrow> portable_snapshot \<Rightarrow> sync_disposition \<Rightarrow> string \<Rightarrow> sync_plan" where
  "planned local base remote merged disposition digest =
     \<lparr>pl_disposition = disposition, pl_local = local, pl_base = base, pl_remote_revision = rm_revision remote,
      pl_remote_snapshot = rm_snapshot remote, pl_merged = merged,
      pl_upload = bs_difference (ps_objects merged) (case rm_snapshot remote of Some r \<Rightarrow> ps_objects r | None \<Rightarrow> []),
      pl_download = bs_difference (ps_objects merged) (ps_objects local), pl_digest = digest\<rparr>"

lemma plan_sync_Ok:
  assumes "plan_sync H codec scodec view encode local base remote catalog capabilities limits = Ok out"
  obtains selection where
    "plan_risk H codec view catalog limits local = Ok ()"
    "\<And>r. rm_snapshot remote = Some r \<Longrightarrow> plan_risk H codec view catalog limits r = Ok ()"
    "plan_selection_for H codec scodec view local base remote catalog capabilities limits = Ok selection"
    "case selection of SelectionBlocked conflicts \<Rightarrow> out = PlanBlocked conflicts
     | SelectionMerged merged disposition \<Rightarrow>
         \<exists>digest. out = PlanReady (planned local base remote merged disposition digest)
           \<and> plan_digest H scodec encode limits disposition local base (rm_revision remote) (rm_snapshot remote) merged
               (pl_upload (planned local base remote merged disposition digest))
               (pl_download (planned local base remote merged disposition digest)) = Ok digest"
proof -
  from assms obtain selection where
    risk: "plan_risk H codec view catalog limits local = Ok ()"
      "(case rm_snapshot remote of Some r \<Rightarrow> plan_risk H codec view catalog limits r | None \<Rightarrow> Ok ()) = Ok ()"
    and selection: "plan_selection_for H codec scodec view local base remote catalog capabilities limits = Ok selection"
    and ready: "(case selection of SelectionBlocked conflicts \<Rightarrow> Ok (PlanBlocked conflicts)
      | SelectionMerged merged disposition \<Rightarrow>
          let remote_objects = (case rm_snapshot remote of Some r \<Rightarrow> ps_objects r | None \<Rightarrow> []);
              upload = bs_difference (ps_objects merged) remote_objects;
              download = bs_difference (ps_objects merged) (ps_objects local)
          in bind_result (plan_digest H scodec encode limits disposition local base (rm_revision remote)
                 (rm_snapshot remote) merged upload download) (\<lambda>digest.
               Ok (PlanReady
                 \<lparr>pl_disposition = disposition, pl_local = local, pl_base = base, pl_remote_revision = rm_revision remote,
                  pl_remote_snapshot = rm_snapshot remote, pl_merged = merged, pl_upload = upload,
                  pl_download = download, pl_digest = digest\<rparr>))) = Ok out"
    unfolding plan_sync_def and_then_Ok_iff bind_result_Ok_iff by blast
  have "plan_risk H codec view catalog limits r = Ok ()" if "rm_snapshot remote = Some r" for r
    using risk(2) that by simp
  then show thesis using risk(1) selection ready
    by (intro that[of selection]) (auto simp: Let_def bind_result_Ok_iff planned_def split: plan_selection.splits)
qed

lemma plan_sync_ReadyE:
  assumes "plan_sync H codec scodec view encode local base remote catalog capabilities limits = Ok (PlanReady p)"
  obtains disposition where
    "plan_selection_for H codec scodec view local base remote catalog capabilities limits = Ok (SelectionMerged (pl_merged p) disposition)"
    "p = planned local base remote (pl_merged p) disposition (pl_digest p)"
    "plan_digest H scodec encode limits disposition local base (rm_revision remote) (rm_snapshot remote) (pl_merged p)
       (pl_upload p) (pl_download p) = Ok (pl_digest p)"
    "plan_risk H codec view catalog limits local = Ok ()"
    "\<And>r. rm_snapshot remote = Some r \<Longrightarrow> plan_risk H codec view catalog limits r = Ok ()"
  using assms
proof (rule plan_sync_Ok)
  fix selection
  assume risk: "plan_risk H codec view catalog limits local = Ok ()"
      "\<And>r. rm_snapshot remote = Some r \<Longrightarrow> plan_risk H codec view catalog limits r = Ok ()"
    and selection: "plan_selection_for H codec scodec view local base remote catalog capabilities limits = Ok selection"
    and outcome: "case selection of SelectionBlocked conflicts \<Rightarrow> PlanReady p = PlanBlocked conflicts
     | SelectionMerged merged disposition \<Rightarrow>
         \<exists>digest. PlanReady p = PlanReady (planned local base remote merged disposition digest)
           \<and> plan_digest H scodec encode limits disposition local base (rm_revision remote) (rm_snapshot remote) merged
               (pl_upload (planned local base remote merged disposition digest))
               (pl_download (planned local base remote merged disposition digest)) = Ok digest"
  then obtain merged disposition digest where "selection = SelectionMerged merged disposition"
      "p = planned local base remote merged disposition digest"
      "plan_digest H scodec encode limits disposition local base (rm_revision remote) (rm_snapshot remote) merged
         (pl_upload p) (pl_download p) = Ok digest"
    by (auto split: plan_selection.splits)
  then show thesis using that[of disposition] risk selection by (simp add: planned_def)
qed

lemma planned_transfers:
  "set (pl_upload (planned local base remote merged disposition digest)) = set (ps_objects merged) - remote_objects remote"
  "set (pl_download (planned local base remote merged disposition digest)) = set (ps_objects merged) - set (ps_objects local)"
  by (cases "rm_snapshot remote") (simp_all add: planned_def remote_objects_def)

lemma plan_merge_MergedE:
  assumes "plan_merge H codec scodec view local b revision r catalog capabilities limits = Ok (SelectionMerged merged disposition)"
  obtains out m where
    "merge_manifests H codec view (ps_manifest (bi_snapshot b)) (ps_manifest local) (ps_manifest r) catalog capabilities limits = Ok out"
    "sm_conflicts out = []" "sm_merged_manifest out = Some m"
    "merged_descriptors m [local, bi_snapshot b, r] = Ok (ps_objects merged)"
    "snapshot_new H scodec m (ps_objects merged) limits = Ok merged" "ps_manifest merged = m"
    "disposition = disposition_of local r merged"
proof -
  from assms obtain out m ds where parts:
    "merge_manifests H codec view (ps_manifest (bi_snapshot b)) (ps_manifest local) (ps_manifest r) catalog capabilities limits = Ok out"
    "sm_conflicts out = []" "sm_merged_manifest out = Some m" "merged_descriptors m [local, bi_snapshot b, r] = Ok ds"
    "snapshot_new H scodec m ds limits = Ok merged" "disposition = disposition_of local r merged"
    by (auto simp: plan_merge_def bind_result_Ok_iff map_err_Ok_iff ok_or_Ok_iff split: if_splits)
  moreover have "ps_objects merged = ds" "ps_manifest merged = m" using snapshot_new_Ok[OF parts(5)] by simp_all
  ultimately show thesis using that by simp
qed

lemma merged_objects_known:
  "merged_descriptors m ss = Ok ds \<Longrightarrow> set ds \<subseteq> known_objects ss"
  unfolding merged_descriptors_Ok_iff by blast

text \<open>The sources of a merged snapshot, case by case.\<close>

lemma plan_selection_sources:
  assumes "plan_selection_for H codec scodec view local base remote catalog capabilities limits = Ok (SelectionMerged merged disposition)"
  shows "set (ps_objects merged) \<subseteq> set (ps_objects local) \<union> base_objects base \<union> remote_objects remote"
proof (cases base)
  case None
  then show ?thesis
    using assms by (auto simp: plan_selection_for_def remote_objects_def split: option.splits if_splits)
next
  case (Some b)
  with assms obtain r where r: "rm_snapshot remote = Some r"
    "plan_merge H codec scodec view local b (rm_revision remote) r catalog capabilities limits = Ok (SelectionMerged merged disposition)"
    by (auto simp: plan_selection_for_def split: option.splits)
  from r(2) obtain m where "merged_descriptors m [local, bi_snapshot b, r] = Ok (ps_objects merged)"
    by (rule plan_merge_MergedE)
  from merged_objects_known[OF this] show ?thesis
    by (auto simp: known_objects_def remote_objects_def base_objects_def r(1) Some)
qed

lemma plan_selection_risk:
  assumes "plan_selection_for H codec scodec view local base remote catalog capabilities limits = Ok (SelectionMerged merged disposition)"
    and "plan_risk H codec view catalog limits local = Ok ()"
    and "\<And>r. rm_snapshot remote = Some r \<Longrightarrow> plan_risk H codec view catalog limits r = Ok ()"
    and "ordered_natives (ps_manifest local)" "\<And>r. rm_snapshot remote = Some r \<Longrightarrow> ordered_natives (ps_manifest r)"
  shows "validate_manifest_object_risk H codec view (ps_manifest merged) catalog limits = Ok ()"
proof (cases base)
  case None
  then have "merged = local \<or> rm_snapshot remote = Some merged"
    using assms(1) by (auto simp: plan_selection_for_def split: option.splits if_splits)
  then show ?thesis using assms(2,3) by (auto simp: plan_risk_def map_err_Ok_iff)
next
  case (Some b)
  with assms(1) obtain r where r: "rm_snapshot remote = Some r"
    "plan_merge H codec scodec view local b (rm_revision remote) r catalog capabilities limits = Ok (SelectionMerged merged disposition)"
    by (auto simp: plan_selection_for_def split: option.splits)
  from r(2) obtain out m where
    "merge_manifests H codec view (ps_manifest (bi_snapshot b)) (ps_manifest local) (ps_manifest r) catalog capabilities limits = Ok out"
    "sm_merged_manifest out = Some m" "ps_manifest merged = m"
    by (rule plan_merge_MergedE)
  then show ?thesis using ready_merge_risk assms(4) assms(5)[OF r(1)] by metis
qed

text \<open>C5: A ready plan is executable and safe: it uploads exactly the merged objects the remote lacks, all held by
  the local snapshot or the retained base, downloads exactly those the local side lacks, all held by the
  remote or the base, and the merged snapshot passes the object risk check against the verified catalog.\<close>

theorem ready_plans_transfer_what_is_missing:
  assumes "plan_sync H codec scodec view encode local base remote catalog capabilities limits = Ok (PlanReady p)"
    and "ordered_natives (ps_manifest local)" "\<And>r. rm_snapshot remote = Some r \<Longrightarrow> ordered_natives (ps_manifest r)"
  shows "set (ps_objects (pl_merged p)) = (set (ps_objects (pl_merged p)) \<inter> remote_objects remote) \<union> set (pl_upload p)
    \<and> set (pl_upload p) \<inter> remote_objects remote = {}
    \<and> set (pl_upload p) \<subseteq> set (ps_objects local) \<union> base_objects base
    \<and> set (ps_objects (pl_merged p)) = (set (ps_objects (pl_merged p)) \<inter> set (ps_objects local)) \<union> set (pl_download p)
    \<and> set (pl_download p) \<inter> set (ps_objects local) = {}
    \<and> set (pl_download p) \<subseteq> remote_objects remote \<union> base_objects base
    \<and> validate_manifest_object_risk H codec view (ps_manifest (pl_merged p)) catalog limits = Ok ()"
proof -
  from assms(1) obtain disposition where
    selection: "plan_selection_for H codec scodec view local base remote catalog capabilities limits = Ok (SelectionMerged (pl_merged p) disposition)"
    and plan: "p = planned local base remote (pl_merged p) disposition (pl_digest p)"
    and risk: "plan_risk H codec view catalog limits local = Ok ()"
      "\<And>r. rm_snapshot remote = Some r \<Longrightarrow> plan_risk H codec view catalog limits r = Ok ()"
    by (rule plan_sync_ReadyE) blast
  note transfers = planned_transfers[of local base remote "pl_merged p" disposition "pl_digest p", folded plan]
  have "validate_manifest_object_risk H codec view (ps_manifest (pl_merged p)) catalog limits = Ok ()"
    using selection risk assms(2,3) by (rule plan_selection_risk)
  then show ?thesis using plan_selection_sources[OF selection] transfers by blast
qed

section \<open>Two devices\<close>

fun mirror_disposition :: "sync_disposition \<Rightarrow> sync_disposition" where
  "mirror_disposition Publish = Receive"
| "mirror_disposition Receive = Publish"
| "mirror_disposition d = d"

fun mirror_selection :: "plan_selection \<Rightarrow> plan_selection" where
  "mirror_selection (SelectionBlocked conflicts) = SelectionBlocked conflicts"
| "mirror_selection (SelectionMerged merged disposition) = SelectionMerged merged (mirror_disposition disposition)"

lemma disposition_of_mirror: "disposition_of r l m = mirror_disposition (disposition_of l r m)"
  by (simp add: disposition_of_def Let_def)

lemma merge_manifests_mirror:
  "merge_manifests H codec view b r l catalog capabilities limits = merge_manifests H codec view b l r catalog capabilities limits"
  unfolding merge_manifests_def by (rule merge_manifests_with_sym)

lemma merged_descriptors_unique:
  assumes "merged_descriptors m ss = Ok ds" "merged_descriptors m ss' = Ok ds'" "set ss = set ss'"
  shows "ds = ds'"
proof -
  have "known_objects ss = known_objects ss'" using assms(3) by (simp add: known_objects_def)
  then show ?thesis using assms(1,2) unfolding merged_descriptors_Ok_iff by (intro bs_ext) simp_all
qed

lemma plan_merge_mirror:
  assumes "plan_merge H codec scodec view l b revision r catalog capabilities limits = Ok s"
    and "plan_merge H codec scodec view r b' revision' l catalog capabilities limits = Ok s'"
    and "bi_snapshot b' = bi_snapshot b"
  shows "s' = mirror_selection s"
proof -
  obtain out where out: "merge_manifests H codec view (ps_manifest (bi_snapshot b)) (ps_manifest l) (ps_manifest r) catalog capabilities limits = Ok out"
    using assms(1) by (auto simp: plan_merge_def bind_result_Ok_iff map_err_Ok_iff split: if_splits)
  have swapped: "merge_manifests H codec view (ps_manifest (bi_snapshot b)) (ps_manifest r) (ps_manifest l) catalog capabilities limits = Ok out"
    by (subst merge_manifests_mirror) (rule out)
  show ?thesis
  proof (cases "sm_conflicts out = []")
    case False
    then show ?thesis using assms out swapped by (auto simp: plan_merge_def split: if_splits)
  next
    case True
    obtain m ds merged where one: "sm_merged_manifest out = Some m" "merged_descriptors m [l, bi_snapshot b, r] = Ok ds"
      "snapshot_new H scodec m ds limits = Ok merged" "s = SelectionMerged merged (disposition_of l r merged)"
      using assms(1) out True by (auto simp: plan_merge_def bind_result_Ok_iff map_err_Ok_iff ok_or_Ok_iff split: if_splits)
    obtain ds' merged' where two: "merged_descriptors m [r, bi_snapshot b, l] = Ok ds'"
      "snapshot_new H scodec m ds' limits = Ok merged'" "s' = SelectionMerged merged' (disposition_of r l merged')"
      using assms(2,3) swapped True one(1)
      by (auto simp: plan_merge_def bind_result_Ok_iff map_err_Ok_iff ok_or_Ok_iff split: if_splits)
    have "ds' = ds" by (rule merged_descriptors_unique[OF two(1) one(2)]) auto
    then show ?thesis using one two by (simp add: disposition_of_mirror[of r l])
  qed
qed

text \<open>C11: Two devices that plan against each other's snapshot with the same retained base agree: both are blocked
  with the same conflicts, or both are ready with the same merged snapshot, what one uploads the other
  downloads, and one publishes where the other receives.\<close>

theorem devices_plan_the_same_merge:
  assumes "plan_sync H codec scodec view encode l (Some b) (remote_present revision r) catalog capabilities limits = Ok out"
    and "plan_sync H codec scodec view encode r (Some b') (remote_present revision' l) catalog capabilities limits = Ok out'"
    and "bi_snapshot b' = bi_snapshot b"
  shows "case out of
      PlanBlocked conflicts \<Rightarrow> out' = PlanBlocked conflicts
    | PlanReady p \<Rightarrow> \<exists>p'. out' = PlanReady p' \<and> pl_merged p' = pl_merged p
        \<and> pl_upload p' = pl_download p \<and> pl_download p' = pl_upload p
        \<and> pl_disposition p' = mirror_disposition (pl_disposition p)"
proof -
  obtain s where s: "plan_merge H codec scodec view l b revision r catalog capabilities limits = Ok s"
    and out: "case s of SelectionBlocked conflicts \<Rightarrow> out = PlanBlocked conflicts
      | SelectionMerged merged disposition \<Rightarrow>
          \<exists>digest. out = PlanReady (planned l (Some b) (remote_present revision r) merged disposition digest)"
    using assms(1)
    by (rule plan_sync_Ok) (auto simp: plan_selection_for_def remote_present_def split: plan_selection.splits)
  obtain s' where s': "plan_merge H codec scodec view r b' revision' l catalog capabilities limits = Ok s'"
    and out': "case s' of SelectionBlocked conflicts \<Rightarrow> out' = PlanBlocked conflicts
      | SelectionMerged merged disposition \<Rightarrow>
          \<exists>digest. out' = PlanReady (planned r (Some b') (remote_present revision' l) merged disposition digest)"
    using assms(2)
    by (rule plan_sync_Ok) (auto simp: plan_selection_for_def remote_present_def split: plan_selection.splits)
  have "s' = mirror_selection s" using s s' assms(3) by (rule plan_merge_mirror)
  then show ?thesis using out out'
    by (cases s) (auto simp: planned_def remote_present_def)
qed

text \<open>A sample: the first publication of a snapshot with one instruction.\<close>

definition sample_note_descriptor :: object_descriptor where
  "sample_note_descriptor = ObjectDescriptor PortableInstruction ''assets/note'' ''h'' 9"

definition sample_note_snapshot :: portable_snapshot where
  "sample_note_snapshot = sample_snapshot\<lparr>ps_manifest := sample_note_manifest, ps_objects := [sample_note_descriptor]\<rparr>"

definition sample_note_plan :: "string \<Rightarrow> sync_plan" where
  "sample_note_plan digest = \<lparr>pl_disposition = Publish, pl_local = sample_note_snapshot, pl_base = None,
     pl_remote_revision = ''absent'', pl_remote_snapshot = None, pl_merged = sample_note_snapshot,
     pl_upload = [sample_note_descriptor], pl_download = [], pl_digest = digest\<rparr>"

lemma sample_note_objects: "validate_object_catalog sample_note_manifest [sample_note_descriptor] (default_limits git) = Ok ()"
  by (simp add: validate_object_catalog_def default_limits_def expected_catalog_def sample_note_manifest_def bt_values_def
      object_references_def sample_note_def portable_snapshot_object_kind_def expect_reference_def insert_expected_object_def
      bt_get_def bt_has_def match_descriptor_def sample_note_descriptor_def u64_checked_add_def bt_remove_def)

lemma sample_note_text:
  "snapshot_to_json sample_snapshot_codec sample_note_snapshot (default_limits git) = Ok [CHR ''s'', CHR 0x0A]"
  using sample_note_objects[of git]
  by (simp add: snapshot_to_json_def sample_snapshot_codec_def over_limit_def sample_note_snapshot_def)
    (simp add: default_limits_def)

lemma sample_note_planned:
  assumes "encode sample_note_descriptor = Some t"
  shows "\<exists>digest. plan_sync sample_digest sample_codec sample_snapshot_codec sample_note_view encode sample_note_snapshot None
     (remote_absent ''absent'') sample_note_catalog capabilities (default_limits git) = Ok (PlanReady (sample_note_plan digest))"
proof -
  have snapshot: "ps_manifest sample_note_snapshot = sample_note_manifest" "ps_objects sample_note_snapshot = [sample_note_descriptor]"
    by (simp_all add: sample_note_snapshot_def)
  have "\<not> manifest_empty sample_note_manifest" by (simp add: manifest_empty_def sample_note_manifest_def)
  moreover have "bs_difference [sample_note_descriptor] [sample_note_descriptor] = []"
    "bs_difference [sample_note_descriptor] [] = [sample_note_descriptor]" by (simp_all add: bs_difference_def bs_has_def)
  ultimately show ?thesis
    using sample_note_risk[of git] assms
    by (simp add: plan_sync_def plan_risk_def remote_absent_def snapshot plan_selection_for_def plan_digest_def plan_texts_def
        sample_note_text descriptor_texts_def sample_note_plan_def)
qed

theorem ready_plans_transfer_what_is_missing_witness:
  "validate_manifest_object_risk sample_digest sample_codec sample_note_view (ps_manifest (pl_merged (sample_note_plan []))) 
     sample_note_catalog (projr sync_limits_default) = Ok ()
   \<and> set (pl_upload (sample_note_plan [])) = {sample_note_descriptor}"
proof -
  obtain git where default: "sync_limits_default = Ok (default_limits git)" using default_limits_Ok by blast
  obtain digest where plan: "plan_sync sample_digest sample_codec sample_snapshot_codec sample_note_view (\<lambda>_. Some ''d'')
      sample_note_snapshot None (remote_absent ''absent'') sample_note_catalog [] (default_limits git)
      = Ok (PlanReady (sample_note_plan digest))"
    using sample_note_planned[of "\<lambda>_. Some ''d''"] by blast
  have "ordered_natives (ps_manifest sample_note_snapshot)"
    by (simp add: ordered_natives_def sample_note_snapshot_def sample_note_manifest_def sample_note_def bt_values_def)
  from ready_plans_transfer_what_is_missing[OF plan this] show ?thesis
    unfolding default sum.sel by (simp add: remote_absent_def sample_note_plan_def)
qed

text \<open>A sample of two devices: each added a binding of its own to the base.\<close>

definition sample_base :: "string \<Rightarrow> sync_base_input" where
  "sample_base revision = \<lparr>bi_snapshot = sample_side [], bi_backend_revision = revision\<rparr>"

lemma sample_side_risk:
  "validate_manifest_object_risk sample_digest sample_codec sample_view (ps_manifest (sample_side bs)) empty_catalog (default_limits git)
     = Ok ()"
proof -
  have "validate_limits sample_codec sample_view empty_catalog (default_limits git) = Ok ()"
    by (simp add: validate_limits_def catalog_count_def usize_checked_add_def catalog_sizes_def empty_catalog_def bt_values_def)
  then show ?thesis
    by (simp add: validate_manifest_object_risk_def sample_side_def manifest_requiring_valid)
      (simp add: manifest_requiring_def bt_values_def)
qed

lemma sample_merged_descriptors: "merged_descriptors (manifest_requiring bs) [sample_side bs1, sample_side bs2, sample_side bs3] = Ok []"
  by (simp add: merged_descriptors_def sample_side_def sample_snapshot_def manifest_requiring_def bt_values_def)

lemma sample_devices_plan:
  assumes "merge_manifests sample_digest sample_codec sample_view (manifest_requiring []) (manifest_requiring ls)
     (manifest_requiring rs) empty_catalog [] (default_limits git) = Ok sample_outcome"
  shows "\<exists>digest disposition. plan_sync sample_digest sample_codec sample_snapshot_codec sample_view (\<lambda>_. Some ''d'') (sample_side ls)
     (Some (sample_base ''first'')) (remote_present ''second'' (sample_side rs)) empty_catalog [] (default_limits git)
     = Ok (PlanReady (planned (sample_side ls) (Some (sample_base ''first'')) (remote_present ''second'' (sample_side rs))
         (sample_side [''A'', ''B'']) disposition digest))"
proof -
  have manifests: "ps_manifest (sample_side bs) = manifest_requiring bs" "ps_objects (sample_side bs) = []" for bs
    by (simp_all add: sample_side_def sample_snapshot_def)
  have merged: "snapshot_new sample_digest sample_snapshot_codec (manifest_requiring [''A'', ''B'']) [] (default_limits git)
      = Ok (sample_side [''A'', ''B''])"
    by (rule sample_side_new) simp
  have "plan_selection_for sample_digest sample_codec sample_snapshot_codec sample_view (sample_side ls) (Some (sample_base ''first''))
      (remote_present ''second'' (sample_side rs)) empty_catalog [] (default_limits git)
      = Ok (SelectionMerged (sample_side [''A'', ''B''])
          (disposition_of (sample_side ls) (sample_side rs) (sample_side [''A'', ''B''])))"
    using assms sample_merged_descriptors[of "[''A'', ''B'']" ls "[]" rs] merged
    by (simp add: plan_selection_for_def remote_present_def plan_merge_def sample_base_def manifests sample_outcome_def)
  then show ?thesis
    using sample_side_risk[of _ git]
    by (simp add: plan_sync_def plan_risk_def planned_def Let_def plan_digest_def plan_texts_def descriptor_texts_def manifests
        bs_difference_def sample_side_json remote_present_def sample_base_def)
qed

theorem devices_plan_the_same_merge_witness:
  "\<exists>p p'. plan_sync sample_digest sample_codec sample_snapshot_codec sample_view (\<lambda>_. Some ''d'') (sample_side [''A''])
       (Some (sample_base ''first'')) (remote_present ''second'' (sample_side [''B''])) empty_catalog [] (projr sync_limits_default)
       = Ok (PlanReady p)
     \<and> plan_sync sample_digest sample_codec sample_snapshot_codec sample_view (\<lambda>_. Some ''d'') (sample_side [''B''])
       (Some (sample_base ''first'')) (remote_present ''second'' (sample_side [''A''])) empty_catalog [] (projr sync_limits_default)
       = Ok (PlanReady p')
     \<and> pl_merged p' = pl_merged p \<and> ps_manifest (pl_merged p) = manifest_requiring [''A'', ''B'']"
proof -
  obtain git where default: "sync_limits_default = Ok (default_limits git)" using default_limits_Ok by blast
  obtain p where p: "plan_sync sample_digest sample_codec sample_snapshot_codec sample_view (\<lambda>_. Some ''d'') (sample_side [''A''])
       (Some (sample_base ''first'')) (remote_present ''second'' (sample_side [''B''])) empty_catalog [] (default_limits git) = Ok (PlanReady p)"
      "pl_merged p = sample_side [''A'', ''B'']"
    using sample_devices_plan[OF sample_merge] by (fastforce simp: planned_def)
  obtain p' where p': "plan_sync sample_digest sample_codec sample_snapshot_codec sample_view (\<lambda>_. Some ''d'') (sample_side [''B''])
       (Some (sample_base ''first'')) (remote_present ''second'' (sample_side [''A''])) empty_catalog [] (default_limits git) = Ok (PlanReady p')"
    using sample_devices_plan[OF trans[OF merge_manifests_mirror sample_merge]] by blast
  have "pl_merged p' = pl_merged p"
    using devices_plan_the_same_merge[OF p(1) p'] by simp
  then show ?thesis unfolding default sum.sel using p p' by (auto simp: sample_side_def)
qed

end
