(* ===== verification/Sync_Plan_Digests.thy ===== *)
theory Sync_Plan_Digests
  imports Sync_Plan_Laws
begin

text \<open>
  What the digest of a plan stands for: it is the value the user confirms and the journal stores, so it must
  determine everything the plan would do.
\<close>

definition plan_preimage :: "string list \<Rightarrow> string" where
  "plan_preimage texts = ''kitrove-sync-plan-v1'' @ [CHR 0x00] @ concat (map write_text_record texts)"

lemma plan_preimage_inj:
  assumes "plan_preimage ts = plan_preimage ts'" "list_all fits_u64 ts" "list_all fits_u64 ts'"
  shows "ts = ts'"
proof (rule text_code.concat_inj)
  have words: "write_text_record t \<noteq> []" for t
    using length_write_count[of "length t"] by (auto simp: write_text_record_def simp del: length_write_count)
  show "\<forall>t\<in>set ts. fits_u64 t \<and> write_text_record t \<noteq> []" "\<forall>t\<in>set ts'. fits_u64 t \<and> write_text_record t \<noteq> []"
    using assms(2,3) words by (simp_all add: list_all_iff)
  show "concat (map write_text_record ts) = concat (map write_text_record ts')"
    using assms(1) by (simp add: plan_preimage_def)
qed

definition plan_texts_of ::
  "snapshot_codec \<Rightarrow> (object_descriptor \<Rightarrow> string option) \<Rightarrow> sync_limits \<Rightarrow> sync_plan \<Rightarrow> string list result" where
  "plan_texts_of codec encode limits p =
     plan_texts codec encode limits (pl_disposition p) (pl_local p) (pl_base p) (pl_remote_revision p)
       (pl_remote_snapshot p) (pl_merged p) (pl_upload p) (pl_download p)"

text \<open>Everything a plan would do, with every snapshot as the text it is stored as.\<close>

definition plan_evidence ::
  "snapshot_codec \<Rightarrow> sync_limits \<Rightarrow> sync_plan \<Rightarrow>
   sync_disposition \<times> string result \<times> (string result \<times> string) option \<times> string \<times> string result option \<times> string result
   \<times> object_descriptor btree_set \<times> object_descriptor btree_set" where
  "plan_evidence codec limits p =
     (pl_disposition p, snapshot_to_json codec (pl_local p) limits,
      map_option (\<lambda>b. (snapshot_to_json codec (bi_snapshot b) limits, bi_backend_revision b)) (pl_base p),
      pl_remote_revision p, map_option (\<lambda>r. snapshot_to_json codec r limits) (pl_remote_snapshot p),
      snapshot_to_json codec (pl_merged p) limits, pl_upload p, pl_download p)"

text \<open>What the planner relies on of the JSON text of a descriptor: it determines the descriptor, it is not the
  bare word that ends the list, and its length fits a word.\<close>

definition descriptor_encoder :: "(object_descriptor \<Rightarrow> string option) \<Rightarrow> bool" where
  "descriptor_encoder encode \<longleftrightarrow>
     (\<forall>x y t. encode x = Some t \<longrightarrow> (encode y = Some t \<longrightarrow> x = y) \<and> t \<noteq> ''download'' \<and> fits_u64 t)"

lemma descriptor_texts_Ok:
  "descriptor_texts encode ds = Ok ts \<longleftrightarrow> map encode ds = map Some ts"
  by (induction ds arbitrary: ts) (auto simp: descriptor_texts_def bind_result_Ok_iff ok_or_Ok_iff Cons_eq_map_conv)

lemma descriptor_texts_inj:
  assumes "descriptor_encoder encode"
  shows "descriptor_texts encode ds = Ok ts \<Longrightarrow> descriptor_texts encode ds' = Ok ts \<Longrightarrow> ds = ds'"
  unfolding descriptor_texts_Ok
proof (induction ds arbitrary: ds' ts)
  case (Cons d ds)
  obtain t us where ts: "ts = t # us" "encode d = Some t" "map encode ds = map Some us"
    using Cons.prems(1) by (cases ts) auto
  obtain d' es where ds': "ds' = d' # es" "encode d' = Some t" "map encode es = map Some us"
    using Cons.prems(2) ts(1) by (cases ds') auto
  have "d = d'" using assms ts(2) ds'(2) unfolding descriptor_encoder_def by blast
  then show ?case using Cons.IH[OF ts(3) ds'(3)] by (simp add: ds'(1))
qed auto

lemma descriptor_texts_clean:
  assumes "descriptor_encoder encode" "descriptor_texts encode ds = Ok ts" "t \<in> set ts"
  shows "t \<noteq> ''download'' \<and> fits_u64 t"
proof -
  have "map encode ds = map Some ts" using assms(2) by (simp add: descriptor_texts_Ok)
  then have "Some t \<in> encode ` set ds" using assms(3) by (metis image_eqI list.set_map)
  then show ?thesis using assms(1) unfolding descriptor_encoder_def by (metis imageE)
qed

lemma plan_texts_OkE:
  assumes "plan_texts_of codec encode limits p = Ok ts"
  obtains lj mj bt rt us ds where
    "ts = [disposition_tag (pl_disposition p), ''local'', lj] @ bt @ [''remote-revision'', pl_remote_revision p] @ rt
       @ [''merged'', mj, ''upload''] @ us @ ''download'' # ds"
    "snapshot_to_json codec (pl_local p) limits = Ok lj" "snapshot_to_json codec (pl_merged p) limits = Ok mj"
    "case pl_base p of None \<Rightarrow> bt = [''base-absent'']
     | Some b \<Rightarrow> \<exists>t. snapshot_to_json codec (bi_snapshot b) limits = Ok t \<and> bt = [''base-present'', t, bi_backend_revision b]"
    "case pl_remote_snapshot p of None \<Rightarrow> rt = [''remote-absent'']
     | Some r \<Rightarrow> \<exists>t. snapshot_to_json codec r limits = Ok t \<and> rt = [''remote-present'', t]"
    "descriptor_texts encode (pl_upload p) = Ok us" "descriptor_texts encode (pl_download p) = Ok ds"
  using assms
  by (auto simp: plan_texts_of_def plan_texts_def Let_def bind_result_Ok_iff map_err_Ok_iff split: option.splits intro: that)

lemma disposition_tag_inj: "disposition_tag d = disposition_tag d' \<longleftrightarrow> d = d'"
  by (cases d; cases d') (simp_all add: disposition_tag_def)

lemma plan_texts_inj:
  assumes "plan_texts_of codec encode limits p = Ok ts" "plan_texts_of codec encode limits q = Ok ts" "descriptor_encoder encode"
  shows "plan_evidence codec limits p = plan_evidence codec limits q"
proof -
  obtain lj mj bt rt us ds where p: "ts = [disposition_tag (pl_disposition p), ''local'', lj] @ bt
        @ [''remote-revision'', pl_remote_revision p] @ rt @ [''merged'', mj, ''upload''] @ us @ ''download'' # ds"
      "snapshot_to_json codec (pl_local p) limits = Ok lj" "snapshot_to_json codec (pl_merged p) limits = Ok mj"
      "case pl_base p of None \<Rightarrow> bt = [''base-absent'']
       | Some b \<Rightarrow> \<exists>t. snapshot_to_json codec (bi_snapshot b) limits = Ok t \<and> bt = [''base-present'', t, bi_backend_revision b]"
      "case pl_remote_snapshot p of None \<Rightarrow> rt = [''remote-absent'']
       | Some r \<Rightarrow> \<exists>t. snapshot_to_json codec r limits = Ok t \<and> rt = [''remote-present'', t]"
      "descriptor_texts encode (pl_upload p) = Ok us" "descriptor_texts encode (pl_download p) = Ok ds"
    using assms(1) by (rule plan_texts_OkE)
  obtain lj' mj' bt' rt' us' ds' where q: "ts = [disposition_tag (pl_disposition q), ''local'', lj'] @ bt'
        @ [''remote-revision'', pl_remote_revision q] @ rt' @ [''merged'', mj', ''upload''] @ us' @ ''download'' # ds'"
      "snapshot_to_json codec (pl_local q) limits = Ok lj'" "snapshot_to_json codec (pl_merged q) limits = Ok mj'"
      "case pl_base q of None \<Rightarrow> bt' = [''base-absent'']
       | Some b \<Rightarrow> \<exists>t. snapshot_to_json codec (bi_snapshot b) limits = Ok t \<and> bt' = [''base-present'', t, bi_backend_revision b]"
      "case pl_remote_snapshot q of None \<Rightarrow> rt' = [''remote-absent'']
       | Some r \<Rightarrow> \<exists>t. snapshot_to_json codec r limits = Ok t \<and> rt' = [''remote-present'', t]"
      "descriptor_texts encode (pl_upload q) = Ok us'" "descriptor_texts encode (pl_download q) = Ok ds'"
    using assms(2) by (rule plan_texts_OkE)
  from p(1) q(1) have head: "disposition_tag (pl_disposition p) = disposition_tag (pl_disposition q)" "lj = lj'"
    and tail: "bt @ [''remote-revision'', pl_remote_revision p] @ rt @ [''merged'', mj, ''upload''] @ us @ ''download'' # ds
      = bt' @ [''remote-revision'', pl_remote_revision q] @ rt' @ [''merged'', mj', ''upload''] @ us' @ ''download'' # ds'"
    by simp_all
  have bases: "bt = bt'" and tail: "pl_remote_revision p = pl_remote_revision q"
      "rt @ [''merged'', mj, ''upload''] @ us @ ''download'' # ds = rt' @ [''merged'', mj', ''upload''] @ us' @ ''download'' # ds'"
    using tail p(4) q(4) by (auto split: option.splits)
  have remotes: "rt = rt'" and merged: "mj = mj'" and lists: "us @ ''download'' # ds = us' @ ''download'' # ds'"
    using tail(2) p(5) q(5) by (auto split: option.splits)
  have "us = us' \<and> ds = ds'"
  proof -
    have "''download'' \<notin> set us" "''download'' \<notin> set us'"
      using descriptor_texts_clean[OF assms(3)] p(6) q(6) by blast+
    then show ?thesis using lists by (auto simp: append_eq_append_conv2 append_eq_Cons_conv Cons_eq_append_conv)
  qed
  then have "pl_upload p = pl_upload q" "pl_download p = pl_download q"
    using descriptor_texts_inj[OF assms(3)] p(6,7) q(6,7) by simp_all
  moreover have "map_option (\<lambda>b. (snapshot_to_json codec (bi_snapshot b) limits, bi_backend_revision b)) (pl_base p)
      = map_option (\<lambda>b. (snapshot_to_json codec (bi_snapshot b) limits, bi_backend_revision b)) (pl_base q)"
    using p(4) q(4) bases by (auto split: option.splits)
  moreover have "map_option (\<lambda>r. snapshot_to_json codec r limits) (pl_remote_snapshot p)
      = map_option (\<lambda>r. snapshot_to_json codec r limits) (pl_remote_snapshot q)"
    using p(5) q(5) remotes by (auto split: option.splits)
  ultimately show ?thesis
    using head merged tail(1) p(2,3) q(2,3) by (simp add: plan_evidence_def disposition_tag_inj)
qed

lemma snapshot_text_fits: "snapshot_to_json codec s limits = Ok t \<Longrightarrow> fits_u64 t"
  using u64_bound[of "sl_max_snapshot_bytes limits"]
  by (auto simp: snapshot_to_json_def and_then_Ok_iff bind_result_Ok_iff Let_def over_limit_def fits_u64_def split: if_splits)

lemma short_text_fits: "length t < 100 \<Longrightarrow> fits_u64 t"
  by (simp add: fits_u64_def)

lemma plan_texts_fit:
  assumes "plan_texts_of codec encode limits p = Ok ts" "descriptor_encoder encode" "fits_u64 (pl_remote_revision p)"
    and "case pl_base p of None \<Rightarrow> True | Some b \<Rightarrow> fits_u64 (bi_backend_revision b)"
  shows "list_all fits_u64 ts"
proof -
  have tag: "fits_u64 (disposition_tag d)" for d by (cases d) (simp_all add: disposition_tag_def short_text_fits)
  from assms(1) show ?thesis
  proof (rule plan_texts_OkE)
    fix lj mj bt rt us ds
    assume ts: "ts = [disposition_tag (pl_disposition p), ''local'', lj] @ bt @ [''remote-revision'', pl_remote_revision p] @ rt
       @ [''merged'', mj, ''upload''] @ us @ ''download'' # ds"
      and texts: "snapshot_to_json codec (pl_local p) limits = Ok lj" "snapshot_to_json codec (pl_merged p) limits = Ok mj"
      and base: "case pl_base p of None \<Rightarrow> bt = [''base-absent'']
        | Some b \<Rightarrow> \<exists>t. snapshot_to_json codec (bi_snapshot b) limits = Ok t \<and> bt = [''base-present'', t, bi_backend_revision b]"
      and remote: "case pl_remote_snapshot p of None \<Rightarrow> rt = [''remote-absent'']
        | Some r \<Rightarrow> \<exists>t. snapshot_to_json codec r limits = Ok t \<and> rt = [''remote-present'', t]"
      and lists: "descriptor_texts encode (pl_upload p) = Ok us" "descriptor_texts encode (pl_download p) = Ok ds"
    have "list_all fits_u64 bt" "list_all fits_u64 rt"
      using base remote assms(4) by (auto simp: short_text_fits dest: snapshot_text_fits split: option.splits)
    moreover have "list_all fits_u64 us" "list_all fits_u64 ds"
      using descriptor_texts_clean[OF assms(2)] lists by (auto simp: list_all_iff)
    ultimately show ?thesis
      using texts assms(3) by (auto simp: ts tag short_text_fits dest: snapshot_text_fits)
  qed
qed

lemma ready_plan_texts:
  assumes "plan_sync H codec scodec view encode local base remote catalog capabilities limits = Ok (PlanReady p)"
  shows "\<exists>ts. plan_texts_of scodec encode limits p = Ok ts \<and> pl_digest p = ''blake3:'' @ H (plan_preimage ts)"
  using assms
proof (rule plan_sync_ReadyE)
  fix disposition
  assume p: "p = planned local base remote (pl_merged p) disposition (pl_digest p)"
    and digest: "plan_digest H scodec encode limits disposition local base (rm_revision remote) (rm_snapshot remote) (pl_merged p)
       (pl_upload p) (pl_download p) = Ok (pl_digest p)"
  have "pl_disposition p = disposition" "pl_local p = local" "pl_base p = base" "pl_remote_revision p = rm_revision remote"
    "pl_remote_snapshot p = rm_snapshot remote"
    by (subst p; simp add: planned_def)+
  then show ?thesis using digest
    by (auto simp: plan_digest_def bind_result_Ok_iff plan_texts_of_def plan_preimage_def)
qed

text \<open>C19: The digest a user confirms identifies the plan: two ready plans with the same digest, under a hash without
  a collision between their two byte strings, have the same disposition, the same stored texts of the local,
  base, remote and merged snapshots, the same revisions and the same lists of transfers.\<close>

theorem plan_digest_identifies_plan:
  assumes "plan_sync H codec scodec view encode l b r catalog capabilities limits = Ok (PlanReady p)"
    and "plan_sync H codec scodec view encode l' b' r' catalog' capabilities' limits = Ok (PlanReady q)"
    and "pl_digest p = pl_digest q" "descriptor_encoder encode"
    and "collision_free H {plan_preimage ts |ts. plan_texts_of scodec encode limits p = Ok ts \<or> plan_texts_of scodec encode limits q = Ok ts}"
    and "\<forall>x\<in>{p, q}. fits_u64 (pl_remote_revision x) \<and> (\<forall>y\<in>set_option (pl_base x). fits_u64 (bi_backend_revision y))"
  shows "plan_evidence scodec limits p = plan_evidence scodec limits q"
proof -
  obtain ts where ts: "plan_texts_of scodec encode limits p = Ok ts" "pl_digest p = ''blake3:'' @ H (plan_preimage ts)"
    using ready_plan_texts[OF assms(1)] by blast
  obtain us where us: "plan_texts_of scodec encode limits q = Ok us" "pl_digest q = ''blake3:'' @ H (plan_preimage us)"
    using ready_plan_texts[OF assms(2)] by blast
  have "plan_preimage ts = plan_preimage us"
    by (rule collision_freeD[OF assms(5)]) (use ts us assms(3) in auto)
  moreover have "list_all fits_u64 ts" "list_all fits_u64 us"
    using plan_texts_fit[OF ts(1) assms(4)] plan_texts_fit[OF us(1) assms(4)] assms(6) by (auto split: option.split)
  ultimately have "ts = us" by (rule plan_preimage_inj)
  then show ?thesis using plan_texts_inj[OF ts(1) _ assms(4)] us(1) by simp
qed

theorem plan_digest_identifies_plan_witness:
  "\<exists>digest. plan_evidence sample_snapshot_codec (projr sync_limits_default) (sample_note_plan digest)
       = (Publish, Ok [CHR ''s'', CHR 0x0A], None, ''absent'', None, Ok [CHR ''s'', CHR 0x0A], [sample_note_descriptor], [])
     \<and> plan_evidence sample_snapshot_codec (projr sync_limits_default) (sample_note_plan digest)
       = plan_evidence sample_snapshot_codec (projr sync_limits_default) (sample_note_plan digest)"
proof -
  obtain git where default: "sync_limits_default = Ok (default_limits git)" using default_limits_Ok by blast
  let ?encode = "\<lambda>d. if d = sample_note_descriptor then Some ''{}'' else None"
  obtain digest where plan: "plan_sync sample_digest sample_codec sample_snapshot_codec sample_note_view ?encode
      sample_note_snapshot None (remote_absent ''absent'') sample_note_catalog [] (default_limits git)
      = Ok (PlanReady (sample_note_plan digest))"
    using sample_note_planned[of ?encode "''{}''"] by auto
  have "descriptor_encoder ?encode" by (auto simp: descriptor_encoder_def short_text_fits)
  moreover obtain ts where "plan_texts_of sample_snapshot_codec ?encode (default_limits git) (sample_note_plan digest) = Ok ts"
    using ready_plan_texts[OF plan] by blast
  then have "collision_free sample_digest {plan_preimage ts |ts.
      plan_texts_of sample_snapshot_codec ?encode (default_limits git) (sample_note_plan digest) = Ok ts
      \<or> plan_texts_of sample_snapshot_codec ?encode (default_limits git) (sample_note_plan digest) = Ok ts}"
    by (simp add: collision_free_def)
  ultimately have "plan_evidence sample_snapshot_codec (default_limits git) (sample_note_plan digest)
      = plan_evidence sample_snapshot_codec (default_limits git) (sample_note_plan digest)"
    by (intro plan_digest_identifies_plan[OF plan plan]) (simp_all add: sample_note_plan_def short_text_fits)
  then show ?thesis unfolding default sum.sel
    by (intro exI[of _ digest]) (simp add: plan_evidence_def sample_note_plan_def sample_note_text)
qed

end
