(* ===== verification/Sync_Journals.thy ===== *)
theory Sync_Journals
  imports Sync_Plans
begin

text \<open>
  \<open>kitrove-core/src/sync_journal.rs\<close>: the durable journal of one confirmed synchronization, its phases and
  the only transitions between them.  The JSON codec is a parameter.
\<close>

datatype sync_journal_phase =
    Prepared | Publishing | RemotePublished | LocalCommitting | LocalCommitted | BaseCommitting | BaseCommitted | Complete

text \<open>\<open>phase as u8\<close>.\<close>

definition phase_index :: "sync_journal_phase \<Rightarrow> nat" where
  "phase_index p = (case p of Prepared \<Rightarrow> 0 | Publishing \<Rightarrow> 1 | RemotePublished \<Rightarrow> 2 | LocalCommitting \<Rightarrow> 3
     | LocalCommitted \<Rightarrow> 4 | BaseCommitting \<Rightarrow> 5 | BaseCommitted \<Rightarrow> 6 | Complete \<Rightarrow> 7)"

record sync_journal =
  jr_schema_version :: nat
  jr_phase :: sync_journal_phase
  jr_plan_digest :: string
  jr_remote_key :: string
  jr_publication_id :: "string option"
  jr_prior_remote_revision :: string
  jr_publication_intent :: "string option"
  jr_proposed_remote_revision :: string
  jr_local_snapshot_digest :: string
  jr_merged_snapshot_digest :: string
  jr_old_manifest_hash :: string
  jr_old_lock_hash :: string
  jr_new_manifest_hash :: string
  jr_new_lock_hash :: string
  jr_prior_base_generation :: "string option"
  jr_proposed_base_generation :: string
  jr_staging_snapshot :: string
  jr_staging_manifest :: string
  jr_staging_lock :: string
  jr_staging_base :: string

section \<open>Staging paths and validation\<close>

definition last_colon_piece :: "string \<Rightarrow> string" where
  "last_colon_piece s = last (split_on CHR '':'' s)"

definition staging_prefix :: "string \<Rightarrow> string \<Rightarrow> string result" where
  "staging_prefix remote plan =
     map_err ''sync.journal_invalid''
       (portable_path_parse (''sync/'' @ last_colon_piece remote @ ''/staging/'' @ last_colon_piece plan))"

definition joined :: "string \<Rightarrow> string \<Rightarrow> string result" where
  "joined prefix suffix = map_err ''sync.journal_invalid'' (portable_path_parse (prefix @ ''/'' @ suffix))"

definition framed_hash :: "(string \<Rightarrow> string) \<Rightarrow> string \<Rightarrow> string \<Rightarrow> string" where
  "framed_hash H frame v = ''blake3:'' @ H (frame @ write_text_record v)"

definition journal_publication_intent :: "sync_journal \<Rightarrow> sync_limits \<Rightarrow> publication_intent option result" where
  "journal_publication_intent j limits =
     (case jr_publication_intent j of
        None \<Rightarrow> Ok None
      | Some encoded \<Rightarrow> bind_result (map_err ''sync.journal_invalid''
            (publication_intent_from_persisted encoded (jr_proposed_remote_revision j) limits)) (\<lambda>intent. Ok (Some intent)))"

definition journal_validate :: "sync_journal \<Rightarrow> sync_limits \<Rightarrow> unit result" where
  "journal_validate j limits =
     (if jr_schema_version j \<noteq> 1 then Err ''sync.journal_invalid''
      else bind_result (journal_publication_intent j limits) (\<lambda>_.
        if (jr_publication_id j \<noteq> None) \<noteq> (jr_publication_intent j \<noteq> None) then Err ''sync.journal_invalid''
        else bind_result (staging_prefix (jr_remote_key j) (jr_plan_digest j)) (\<lambda>prefix.
        bind_result (joined prefix ''snapshot.json'') (\<lambda>snapshot.
        if jr_staging_snapshot j \<noteq> snapshot then Err ''sync.journal_invalid''
        else bind_result (joined prefix ''manifest.toml'') (\<lambda>manifest.
        if jr_staging_manifest j \<noteq> manifest then Err ''sync.journal_invalid''
        else bind_result (joined prefix ''lock.json'') (\<lambda>lock.
        if jr_staging_lock j \<noteq> lock then Err ''sync.journal_invalid''
        else bind_result (joined prefix ''base'') (\<lambda>base.
        if jr_staging_base j \<noteq> base then Err ''sync.journal_invalid'' else Ok ())))))))"

definition journal_to_json :: "(sync_journal \<Rightarrow> string option) \<Rightarrow> sync_journal \<Rightarrow> sync_limits \<Rightarrow> string result" where
  "journal_to_json encode j limits =
     and_then (journal_validate j limits)
       (bind_result (ok_or ''sync.journal_invalid'' (encode j)) (\<lambda>text_value.
         let encoded = text_value @ [CHR 0x0A]
         in if length encoded > unat (sl_max_control_bytes limits) then Err ''sync.journal_invalid'' else Ok encoded))"

definition journal_from_json ::
  "(sync_journal \<Rightarrow> string option) \<Rightarrow> (string \<Rightarrow> sync_journal option) \<Rightarrow> string \<Rightarrow> sync_limits \<Rightarrow> sync_journal result" where
  "journal_from_json encode decode input limits =
     (if length input > unat (sl_max_control_bytes limits) then Err ''sync.journal_invalid''
      else bind_result (ok_or ''sync.journal_invalid'' (decode input)) (\<lambda>journal.
        and_then (journal_validate journal limits)
        (bind_result (journal_to_json encode journal limits) (\<lambda>encoded.
           if encoded \<noteq> input then Err ''sync.journal_invalid'' else Ok journal))))"

section \<open>Preparation\<close>

definition journal_prepared ::
  "(string \<Rightarrow> string) \<Rightarrow> (sync_base_record \<Rightarrow> string) \<Rightarrow> sync_plan \<Rightarrow> string \<Rightarrow> (string \<times> publication_intent) option
   \<Rightarrow> string option \<Rightarrow> sync_limits \<Rightarrow> sync_journal result" where
  "journal_prepared H encode_base plan remote_key publication prior_base_generation limits =
     (let publication_required = (case pl_remote_snapshot plan of
            None \<Rightarrow> True | Some r \<Rightarrow> ps_snapshot_digest r \<noteq> ps_snapshot_digest (pl_merged plan));
          proposed = (case publication of None \<Rightarrow> pl_remote_revision plan | Some (_, intent) \<Rightarrow> pi_proposed_revision intent)
      in if publication_required \<noteq> (publication \<noteq> None) then Err ''sync.journal_invalid''
         else if publication_required \<and> proposed = pl_remote_revision plan then Err ''sync.journal_invalid''
         else
           bind_result (map_err ''sync.journal_invalid'' (sync_base_record_new remote_key
               (ps_snapshot_digest (pl_merged plan)) (ps_manifest_revision (pl_merged plan)) proposed
               (ps_objects (pl_merged plan)) limits)) (\<lambda>base.
           bind_result (map_err ''sync.journal_invalid'' (sync_base_record_to_json encode_base base limits)) (\<lambda>base_json.
           bind_result (staging_prefix remote_key (pl_digest plan)) (\<lambda>prefix.
           bind_result (joined prefix ''snapshot.json'') (\<lambda>snapshot.
           bind_result (joined prefix ''manifest.toml'') (\<lambda>manifest.
           bind_result (joined prefix ''lock.json'') (\<lambda>lock.
           bind_result (joined prefix ''base'') (\<lambda>staging_base.
             let journal =
               \<lparr>jr_schema_version = 1, jr_phase = Prepared, jr_plan_digest = pl_digest plan, jr_remote_key = remote_key,
                jr_publication_id = map_option fst publication, jr_prior_remote_revision = pl_remote_revision plan,
                jr_publication_intent = map_option (pi_encoded \<circ> snd) publication,
                jr_proposed_remote_revision = proposed,
                jr_local_snapshot_digest = ps_snapshot_digest (pl_local plan),
                jr_merged_snapshot_digest = ps_snapshot_digest (pl_merged plan),
                jr_old_manifest_hash = content_hash_digest H (ps_manifest_toml (pl_local plan)),
                jr_old_lock_hash = content_hash_digest H (ps_lock_json (pl_local plan)),
                jr_new_manifest_hash = content_hash_digest H (ps_manifest_toml (pl_merged plan)),
                jr_new_lock_hash = content_hash_digest H (ps_lock_json (pl_merged plan)),
                jr_prior_base_generation = prior_base_generation,
                jr_proposed_base_generation = framed_hash H (''kitrove-sync-base-generation-v1'' @ [CHR 0x00]) base_json,
                jr_staging_snapshot = snapshot, jr_staging_manifest = manifest, jr_staging_lock = lock,
                jr_staging_base = staging_base\<rparr>
             in and_then (journal_validate journal limits) (Ok journal)))))))))"

section \<open>Transitions\<close>

definition journal_advance :: "sync_journal \<Rightarrow> sync_journal_phase \<Rightarrow> sync_journal result" where
  "journal_advance j next_phase =
     (let valid = (if jr_phase j = Prepared then
            (case jr_publication_intent j of Some _ \<Rightarrow> next_phase = Publishing | None \<Rightarrow> next_phase = RemotePublished)
          else phase_index next_phase = phase_index (jr_phase j) + 1)
      in if \<not> valid then Err ''sync.journal_transition_invalid'' else Ok (j\<lparr>jr_phase := next_phase\<rparr>))"

inductive journal_step :: "sync_journal \<Rightarrow> sync_journal \<Rightarrow> bool" where
  advance: "journal_advance j p = Ok j' \<Longrightarrow> journal_step j j'"

inductive_cases journal_step_cases: "journal_step j j'"
inductive_simps journal_step_iff: "journal_step j j'"

end
