(* ===== verification/Step_Machines.thy ===== *)
theory Step_Machines
  imports Kit_Prelude
begin

text \<open>
  The contracts shared by the durable journals of the program: a step relation whose every step uses up
  some of the work that is left; one that is never stuck before a final state; and one with a rank that
  every step raises and that is stuck only at the top.
\<close>

section \<open>Steps that use up work\<close>

locale falling_steps =
  fixes step :: "'s \<Rightarrow> 's \<Rightarrow> bool" and left :: "'s \<Rightarrow> nat"
  assumes falls: "step s t \<Longrightarrow> left t < left s"
begin

lemma one_way: "step s t \<Longrightarrow> \<not> step t s"
  using falls[of s t] falls[of t s] by auto

lemma terminates: "wfp (\<lambda>t s. step s t)"
proof -
  have "{(t, s). step s t} \<subseteq> measure left" using falls by auto
  then show ?thesis unfolding wfp_def by (rule wf_subset[OF wf_measure])
qed

lemma run_length: "(step ^^ n) s t \<Longrightarrow> n + left t \<le> left s"
proof (induction n arbitrary: t)
  case (Suc n)
  then obtain u where "(step ^^ n) s u" "step u t" by auto
  then show ?case using Suc.IH[of u] falls[of u t] by simp
qed simp

end

section \<open>Steps that are never stuck\<close>

locale live_steps = falling_steps +
  fixes good final :: "'s \<Rightarrow> bool"
  assumes keeps: "good s \<Longrightarrow> step s t \<Longrightarrow> good t"
    and progress: "good s \<Longrightarrow> \<not> final s \<Longrightarrow> \<exists>t. step s t"
begin

lemma keeps_run: "good s \<Longrightarrow> step\<^sup>*\<^sup>* s t \<Longrightarrow> good t"
  by (rotate_tac, induction rule: rtranclp_induct) (auto intro: keeps)

lemma reaches_final: "good s \<Longrightarrow> \<exists>n t. n \<le> left s \<and> (step ^^ n) s t \<and> final t \<and> good t"
proof (induction "left s" arbitrary: s rule: less_induct)
  case less
  show ?case
  proof (cases "final s")
    case True
    then show ?thesis using less.prems by (intro exI[of _ 0] exI[of _ s]) simp
  next
    case False
    then obtain u where u: "step s u" using progress less.prems by blast
    obtain n t where "n \<le> left u" "(step ^^ n) u t" "final t" "good t"
      using less.hyps[OF falls[OF u] keeps[OF less.prems u]] by blast
    moreover have "(step ^^ Suc n) s t" using u calculation(2) by (rule relpowp_Suc_I2)
    ultimately show ?thesis using falls[OF u] by (intro exI[of _ "Suc n"] exI[of _ t]) simp
  qed
qed

end

section \<open>Steps that climb to the top\<close>

locale ranked_steps =
  fixes step :: "'s \<Rightarrow> 's \<Rightarrow> bool" and rank :: "'s \<Rightarrow> nat" and top_rank :: nat
  assumes rises: "step s t \<Longrightarrow> rank s < rank t"
    and capped: "rank s \<le> top_rank"
    and climbs: "rank s < top_rank \<Longrightarrow> \<exists>t. step s t"

sublocale ranked_steps \<subseteq> live_steps step "\<lambda>s. top_rank - rank s" "\<lambda>s. True" "\<lambda>s. rank s = top_rank"
proof unfold_locales
  fix s t
  show "top_rank - rank t < top_rank - rank s" if "step s t" using rises[OF that] capped[of t] by simp
  show "\<exists>t. step s t" if "rank s \<noteq> top_rank" using that capped[of s] by (intro climbs) simp
qed simp

context ranked_steps begin

lemma stuck_iff: "(\<exists>t. step s t) \<longleftrightarrow> rank s < top_rank"
proof
  assume "\<exists>t. step s t"
  then obtain t where "rank s < rank t" using rises by blast
  then show "rank s < top_rank" using capped[of t] by simp
qed (rule climbs)

lemma run_to_top: "\<exists>n t. n \<le> top_rank - rank s \<and> (step ^^ n) s t \<and> rank t = top_rank"
  using reaches_final[of s] by simp

end

end
