(* ===== verification/Sync_Journal_Laws.thy ===== *)
theory Sync_Journal_Laws
  imports Sync_Journals Step_Machines Snapshot_Laws
begin

text \<open>
  The contract of the synchronization journal: its phases follow one protocol to the end, a step changes
  nothing but the phase, a prepared journal is bound to its plan, and the stored text is canonical.
\<close>

section \<open>Phases\<close>

lemma phase_index_inj: "phase_index p = phase_index q \<longleftrightarrow> p = q"
  by (cases p; cases q) (simp_all add: phase_index_def)

lemma phase_index_bound: "phase_index p \<le> 7"
  by (cases p) (simp_all add: phase_index_def)

text \<open>The phase that follows, as a function.\<close>

definition next_journal_phase :: "sync_journal \<Rightarrow> sync_journal_phase option" where
  "next_journal_phase j = (case jr_phase j of
       Prepared \<Rightarrow> Some (if jr_publication_intent j = None then RemotePublished else Publishing)
     | Publishing \<Rightarrow> Some RemotePublished | RemotePublished \<Rightarrow> Some LocalCommitting
     | LocalCommitting \<Rightarrow> Some LocalCommitted | LocalCommitted \<Rightarrow> Some BaseCommitting
     | BaseCommitting \<Rightarrow> Some BaseCommitted | BaseCommitted \<Rightarrow> Some Complete | Complete \<Rightarrow> None)"

lemma journal_advance_Ok_iff:
  "journal_advance (j :: sync_journal) p = Ok j' \<longleftrightarrow> next_journal_phase j = Some p \<and> j' = j\<lparr>jr_phase := p\<rparr>"
  by (cases "jr_phase j"; cases p; cases "jr_publication_intent j")
    (auto simp: journal_advance_def next_journal_phase_def phase_index_def)

lemma journal_step_next: "journal_step j j' \<longleftrightarrow> (\<exists>p. next_journal_phase j = Some p \<and> j' = j\<lparr>jr_phase := p\<rparr>)"
  by (auto simp: journal_step_iff journal_advance_Ok_iff)

lemma next_journal_phase_rises: "next_journal_phase j = Some p \<Longrightarrow> phase_index (jr_phase j) < phase_index p"
  by (cases "jr_phase j") (auto simp: next_journal_phase_def phase_index_def split: if_splits)

lemma next_journal_phase_None: "next_journal_phase j = None \<longleftrightarrow> jr_phase j = Complete"
  by (cases "jr_phase j") (simp_all add: next_journal_phase_def)

interpretation journal_run: ranked_steps journal_step "\<lambda>j. phase_index (jr_phase j)" 7
proof
  fix j j' :: sync_journal
  show "phase_index (jr_phase j) \<le> 7" by (rule phase_index_bound)
  show "journal_step j j' \<Longrightarrow> phase_index (jr_phase j) < phase_index (jr_phase j')"
    by (auto simp: journal_step_next next_journal_phase_rises)
  assume "phase_index (jr_phase j) < 7"
  then have "jr_phase j \<noteq> Complete" by (auto simp: phase_index_def)
  then show "\<exists>j'. journal_step j j'" using next_journal_phase_None[of j] by (auto simp: journal_step_next)
qed

lemma top_phase: "phase_index p = 7 \<longleftrightarrow> p = Complete"
  by (cases p) (simp_all add: phase_index_def)

lemma journal_steps_keep:
  "journal_step\<^sup>*\<^sup>* j j' \<Longrightarrow> j' = j\<lparr>jr_phase := jr_phase j'\<rparr>"
proof (induction rule: rtranclp_induct)
  case (step k l)
  then obtain p where l: "l = k\<lparr>jr_phase := p\<rparr>" by (auto simp: journal_step_next)
  have "k\<lparr>jr_phase := p\<rparr> = j\<lparr>jr_phase := p\<rparr>" by (subst step.IH) simp
  then show ?case by (simp add: l)
qed simp

lemma journal_intent_phase:
  "journal_publication_intent ((j :: sync_journal)\<lparr>jr_phase := p\<rparr>) limits = journal_publication_intent j limits"
  unfolding journal_publication_intent_def
  by (cases j) (simp only: sync_journal.select_convs sync_journal.update_convs cong: if_cong option.case_cong)

lemma journal_validate_phase: "journal_validate ((j :: sync_journal)\<lparr>jr_phase := p\<rparr>) limits = journal_validate j limits"
  unfolding journal_validate_def journal_publication_intent_def
  by (cases j) (simp only: sync_journal.select_convs sync_journal.update_convs cong: if_cong option.case_cong)

section \<open>The protocol\<close>

text \<open>The order of the phases of one transaction, as the documentation of the journal gives it.\<close>

definition journal_protocol :: "bool \<Rightarrow> sync_journal_phase list" where
  "journal_protocol publishes =
     Prepared # (if publishes then [Publishing] else [])
     @ [RemotePublished, LocalCommitting, LocalCommitted, BaseCommitting, BaseCommitted, Complete]"

lemma protocol_successors:
  assumes "jr_publication_intent j \<noteq> None \<longleftrightarrow> publishes" "i < length (journal_protocol publishes)"
    and "jr_phase j = journal_protocol publishes ! i"
  shows "next_journal_phase j = (if Suc i < length (journal_protocol publishes) then Some (journal_protocol publishes ! Suc i) else None)"
proof -
  have "i < 8" using assms(2) by (auto simp: journal_protocol_def split: if_splits)
  then consider "i = 0" | "i = 1" | "i = 2" | "i = 3" | "i = 4" | "i = 5" | "i = 6" | "i = 7" by linarith
  then show ?thesis
    using assms by cases (auto simp: journal_protocol_def next_journal_phase_def)
qed

lemma journal_run_along:
  assumes "jr_publication_intent j \<noteq> None \<longleftrightarrow> publishes" "jr_phase j = Prepared"
  shows "(journal_step ^^ n) j j' \<longleftrightarrow>
    n < length (journal_protocol publishes) \<and> j' = j\<lparr>jr_phase := journal_protocol publishes ! n\<rparr>"
proof (induction n arbitrary: j')
  case 0
  have "j\<lparr>jr_phase := journal_protocol publishes ! 0\<rparr> = j" using assms(2) by (simp add: journal_protocol_def)
  moreover have "0 < length (journal_protocol publishes)" by (simp add: journal_protocol_def)
  ultimately show ?case by auto
next
  case (Suc n)
  let ?k = "j\<lparr>jr_phase := journal_protocol publishes ! n\<rparr>"
  have next_phase: "next_journal_phase ?k = (if Suc n < length (journal_protocol publishes)
      then Some (journal_protocol publishes ! Suc n) else None)" if "n < length (journal_protocol publishes)"
    by (rule protocol_successors) (use assms(1) that in simp_all)
  have "(journal_step ^^ Suc n) j j' \<longleftrightarrow> (\<exists>k. (journal_step ^^ n) j k \<and> journal_step k j')" by auto
  also have "\<dots> \<longleftrightarrow> n < length (journal_protocol publishes) \<and> journal_step ?k j'" by (auto simp: Suc.IH)
  also have "\<dots> \<longleftrightarrow> Suc n < length (journal_protocol publishes) \<and> j' = j\<lparr>jr_phase := journal_protocol publishes ! Suc n\<rparr>"
    using next_phase by (auto simp: journal_step_next split: if_splits)
  finally show ?case .
qed

section \<open>Properties\<close>

text \<open>C6: The transitions refine the documented protocol: started as prepared, a journal is after n steps in
  exactly the n-th phase of the order prepared, publishing (only with a publication intent), remote
  published, local committing, local committed, base committing, base committed, complete, with every other
  field unchanged; no other journal can be reached.\<close>

theorem journal_follows_protocol:
  "(journal_step ^^ n) (j\<lparr>jr_phase := Prepared\<rparr>) j' \<longleftrightarrow>
     n < length (journal_protocol (jr_publication_intent j \<noteq> None))
     \<and> j' = j\<lparr>jr_phase := journal_protocol (jr_publication_intent j \<noteq> None) ! n\<rparr>"
  by (subst journal_run_along[where publishes = "jr_publication_intent j \<noteq> None"]) simp_all

text \<open>C18: Transactions complete: from every journal, whatever its phase, a run of at most seven steps reaches the
  complete phase, there is no infinite run, and a journal has no successor exactly when it is complete.\<close>

theorem journals_run_to_completion:
  "(\<exists>n. n \<le> 7 - phase_index (jr_phase j) \<and> (journal_step ^^ n) j (j\<lparr>jr_phase := Complete\<rparr>))
   \<and> wfp (\<lambda>k i. journal_step i k) \<and> ((\<exists>k. journal_step j k) \<longleftrightarrow> jr_phase j \<noteq> Complete)"
proof (intro conjI)
  obtain n k where run: "n \<le> 7 - phase_index (jr_phase j)" "(journal_step ^^ n) j k" "phase_index (jr_phase k) = 7"
    using journal_run.run_to_top by blast
  from run(3) have "jr_phase k = Complete" by (simp add: top_phase)
  moreover have "journal_step\<^sup>*\<^sup>* j k" using run(2) by (rule relpowp_imp_rtranclp)
  ultimately have "k = j\<lparr>jr_phase := Complete\<rparr>" using journal_steps_keep[of j k] by simp
  then show "\<exists>n. n \<le> 7 - phase_index (jr_phase j) \<and> (journal_step ^^ n) j (j\<lparr>jr_phase := Complete\<rparr>)"
    using run(1,2) by blast
  show "wfp (\<lambda>k i. journal_step i k)" by (rule journal_run.terminates)
  show "(\<exists>k. journal_step j k) \<longleftrightarrow> jr_phase j \<noteq> Complete"
    unfolding journal_run.stuck_iff using phase_index_bound[of "jr_phase j"] by (auto simp: top_phase[symmetric])
qed

section \<open>Stored journals\<close>

text \<open>Stored journals are canonical: under a JSON codec whose parser reads back what its printer wrote, a text
  loads as a journal exactly when it is the text that the journal is stored as, so no second text loads as
  the same journal and nothing invalid or over the control limit loads at all.\<close>

theorem journals_reload:
  assumes "\<And>v t. encode v = Some t \<Longrightarrow> decode (t @ [CHR 0x0A]) = Some v"
  shows "journal_from_json encode decode input limits = Ok j \<longleftrightarrow> journal_to_json encode j limits = Ok input"
proof
  assume "journal_from_json encode decode input limits = Ok j"
  then show "journal_to_json encode j limits = Ok input"
    by (auto simp: journal_from_json_def bind_result_Ok_iff ok_or_Ok_iff and_then_Ok_iff split: if_splits)
next
  assume stored: "journal_to_json encode j limits = Ok input"
  then obtain t where t: "encode j = Some t" "input = t @ [CHR 0x0A]" "journal_validate j limits = Ok ()"
    "length input \<le> unat (sl_max_control_bytes limits)"
    by (auto simp: journal_to_json_def bind_result_Ok_iff ok_or_Ok_iff and_then_Ok_iff Let_def split: if_splits)
  then have "decode input = Some j" using assms by simp
  then show "journal_from_json encode decode input limits = Ok j"
    using t(3,4) stored by (simp add: journal_from_json_def)
qed

section \<open>Prepared journals\<close>

lemma framed_hash_generation:
  "framed_hash H (''kitrove-sync-base-generation-v1'' @ [CHR 0x00]) t = generation_id_for_json H t"
  by (simp add: framed_hash_def generation_id_for_json_def)

text \<open>What a journal says of the plan it was prepared for, whatever its phase.\<close>

definition bound_to_plan ::
  "(string \<Rightarrow> string) \<Rightarrow> sync_plan \<Rightarrow> string \<Rightarrow> string option \<Rightarrow> sync_journal \<Rightarrow> bool" where
  "bound_to_plan H plan remote_key prior_base j \<longleftrightarrow>
     jr_plan_digest j = pl_digest plan \<and> jr_remote_key j = remote_key
     \<and> jr_prior_remote_revision j = pl_remote_revision plan \<and> jr_prior_base_generation j = prior_base
     \<and> jr_local_snapshot_digest j = ps_snapshot_digest (pl_local plan)
     \<and> jr_merged_snapshot_digest j = ps_snapshot_digest (pl_merged plan)
     \<and> jr_old_manifest_hash j = content_hash_digest H (ps_manifest_toml (pl_local plan))
     \<and> jr_old_lock_hash j = content_hash_digest H (ps_lock_json (pl_local plan))
     \<and> jr_new_manifest_hash j = content_hash_digest H (ps_manifest_toml (pl_merged plan))
     \<and> jr_new_lock_hash j = content_hash_digest H (ps_lock_json (pl_merged plan))"

lemma bound_to_plan_phase: "bound_to_plan H plan key prior (j\<lparr>jr_phase := p\<rparr>) = bound_to_plan H plan key prior j"
  by (simp add: bound_to_plan_def)

definition publication_required :: "sync_plan \<Rightarrow> bool" where
  "publication_required plan \<longleftrightarrow>
     (case pl_remote_snapshot plan of None \<Rightarrow> True | Some r \<Rightarrow> ps_snapshot_digest r \<noteq> ps_snapshot_digest (pl_merged plan))"

lemma journal_prepared_Ok:
  assumes "journal_prepared H encode_base plan key publication prior limits = Ok j"
  shows "journal_validate j limits = Ok () \<and> bound_to_plan H plan key prior j \<and> jr_phase j = Prepared
    \<and> (publication \<noteq> None \<longleftrightarrow> publication_required plan)
    \<and> jr_publication_id j = map_option fst publication
    \<and> jr_publication_intent j = map_option (pi_encoded \<circ> snd) publication
    \<and> jr_proposed_remote_revision j =
        (case publication of None \<Rightarrow> pl_remote_revision plan | Some (_, intent) \<Rightarrow> pi_proposed_revision intent)
    \<and> (publication \<noteq> None \<longrightarrow> jr_proposed_remote_revision j \<noteq> jr_prior_remote_revision j)
    \<and> (\<exists>base text_value.
        sync_base_record_new key (ps_snapshot_digest (pl_merged plan)) (ps_manifest_revision (pl_merged plan))
          (jr_proposed_remote_revision j) (ps_objects (pl_merged plan)) limits = Ok base
        \<and> sync_base_record_to_json encode_base base limits = Ok text_value
        \<and> jr_proposed_base_generation j = generation_id_for_json H text_value)"
proof -
  let ?proposed = "case publication of None \<Rightarrow> pl_remote_revision plan | Some (_, intent) \<Rightarrow> pi_proposed_revision intent"
  note prepared = assms[unfolded journal_prepared_def Let_def publication_required_def[symmetric]]
  have required: "publication_required plan \<longleftrightarrow> publication \<noteq> None"
    and moved: "publication_required plan \<Longrightarrow> ?proposed \<noteq> pl_remote_revision plan"
    using prepared by (auto split: if_splits)
  obtain base text_value where base: "sync_base_record_new key (ps_snapshot_digest (pl_merged plan))
        (ps_manifest_revision (pl_merged plan)) ?proposed (ps_objects (pl_merged plan)) limits = Ok base"
      "sync_base_record_to_json encode_base base limits = Ok text_value"
    and valid: "journal_validate j limits = Ok ()"
    and fields: "jr_proposed_remote_revision j = ?proposed" "jr_phase j = Prepared"
      "jr_publication_id j = map_option fst publication" "jr_publication_intent j = map_option (pi_encoded \<circ> snd) publication"
      "jr_prior_remote_revision j = pl_remote_revision plan" "bound_to_plan H plan key prior j"
      "jr_proposed_base_generation j = generation_id_for_json H text_value"
    using prepared
    by (auto simp: bind_result_Ok_iff map_err_Ok_iff and_then_Ok_iff framed_hash_generation[simplified]
        bound_to_plan_def split: if_splits)
  show ?thesis
    using required moved base valid fields by auto
qed

text \<open>C17: A prepared journal is bound to its plan for the whole transaction: in every phase it reaches it still
  validates, names the digests, hashes and revisions of the plan, reconstructs exactly the publication
  intent it was given, which is present exactly when the remote does not already hold the merged snapshot and
  then proposes a new revision, and its base generation is the identity of the base record of the merged snapshot.\<close>

theorem prepared_journals_stay_bound:
  assumes "journal_prepared H encode_base plan key publication prior limits = Ok j" "journal_step\<^sup>*\<^sup>* j j'"
  shows "journal_validate j' limits = Ok () \<and> bound_to_plan H plan key prior j'
    \<and> journal_publication_intent j' limits = Ok (map_option snd publication)
    \<and> (publication \<noteq> None \<longleftrightarrow> publication_required plan)
    \<and> (jr_proposed_remote_revision j' \<noteq> jr_prior_remote_revision j' \<longleftrightarrow> publication \<noteq> None)
    \<and> (\<exists>base text_value.
        sync_base_record_new key (ps_snapshot_digest (pl_merged plan)) (ps_manifest_revision (pl_merged plan))
          (jr_proposed_remote_revision j') (ps_objects (pl_merged plan)) limits = Ok base
        \<and> sync_base_record_to_json encode_base base limits = Ok text_value
        \<and> jr_proposed_base_generation j' = generation_id_for_json H text_value)"
proof -
  note j = journal_prepared_Ok[OF assms(1)]
  obtain p where j': "j' = j\<lparr>jr_phase := p\<rparr>" using journal_steps_keep[OF assms(2)] by metis
  have "journal_publication_intent j limits = Ok (map_option snd publication)"
  proof (cases publication)
    case (Some e)
    have "journal_validate j limits = Ok ()" using j by blast
    then have "\<exists>i. journal_publication_intent j limits = Ok i"
      by (auto simp: journal_validate_def bind_result_Ok_iff split: if_splits)
    then show ?thesis using j Some
      by (cases e) (auto simp: journal_publication_intent_def bind_result_Ok_iff map_err_Ok_iff
          publication_intent_from_persisted_def split: if_splits)
  qed (use j in \<open>simp add: journal_publication_intent_def\<close>)
  then have "journal_publication_intent j' limits = Ok (map_option snd publication)"
    by (simp add: j' journal_intent_phase)
  moreover have "jr_prior_remote_revision j = pl_remote_revision plan" using j by (simp add: bound_to_plan_def)
  then have "jr_proposed_remote_revision j \<noteq> jr_prior_remote_revision j \<longleftrightarrow> publication \<noteq> None"
    using j by (cases publication) auto
  moreover have "jr_proposed_remote_revision j' = jr_proposed_remote_revision j"
    "jr_prior_remote_revision j' = jr_prior_remote_revision j"
    "jr_proposed_base_generation j' = jr_proposed_base_generation j"
    "journal_validate j' limits = journal_validate j limits" "bound_to_plan H plan key prior j' = bound_to_plan H plan key prior j"
    by (simp_all add: j' journal_validate_phase bound_to_plan_phase)
  ultimately show ?thesis using j by metis
qed

text \<open>A sample plan: the first publication of the sample snapshot to an empty remote.\<close>

definition sample_plan :: sync_plan where
  "sample_plan = \<lparr>pl_disposition = Publish, pl_local = sample_snapshot, pl_base = None, pl_remote_revision = ''absent'',
     pl_remote_snapshot = None, pl_merged = sample_snapshot, pl_upload = [], pl_download = [], pl_digest = ''blake3:p''\<rparr>"

definition sample_intent :: "string \<times> publication_intent" where
  "sample_intent = (''publication:i'', \<lparr>pi_encoded = ''intent'', pi_proposed_revision = ''first''\<rparr>)"

definition sample_journal :: sync_journal where
  "sample_journal =
     \<lparr>jr_schema_version = 1, jr_phase = Prepared, jr_plan_digest = ''blake3:p'', jr_remote_key = ''remote:blake3:k'',
      jr_publication_id = Some ''publication:i'', jr_prior_remote_revision = ''absent'',
      jr_publication_intent = Some ''intent'', jr_proposed_remote_revision = ''first'',
      jr_local_snapshot_digest = ps_snapshot_digest sample_snapshot,
      jr_merged_snapshot_digest = ps_snapshot_digest sample_snapshot,
      jr_old_manifest_hash = content_hash_digest sample_digest (ps_manifest_toml sample_snapshot),
      jr_old_lock_hash = content_hash_digest sample_digest (ps_lock_json sample_snapshot),
      jr_new_manifest_hash = content_hash_digest sample_digest (ps_manifest_toml sample_snapshot),
      jr_new_lock_hash = content_hash_digest sample_digest (ps_lock_json sample_snapshot),
      jr_prior_base_generation = None,
      jr_proposed_base_generation = generation_id_for_json sample_digest [CHR ''b'', CHR 0x0A],
      jr_staging_snapshot = ''sync/k/staging/p/snapshot.json'', jr_staging_manifest = ''sync/k/staging/p/manifest.toml'',
      jr_staging_lock = ''sync/k/staging/p/lock.json'', jr_staging_base = ''sync/k/staging/p/base''\<rparr>"

lemma sample_staging:
  "staging_prefix ''remote:blake3:k'' ''blake3:p'' = Ok ''sync/k/staging/p''"
  "joined ''sync/k/staging/p'' ''snapshot.json'' = Ok ''sync/k/staging/p/snapshot.json''"
  "joined ''sync/k/staging/p'' ''manifest.toml'' = Ok ''sync/k/staging/p/manifest.toml''"
  "joined ''sync/k/staging/p'' ''lock.json'' = Ok ''sync/k/staging/p/lock.json''"
  "joined ''sync/k/staging/p'' ''base'' = Ok ''sync/k/staging/p/base''"
  by code_simp+

lemma sample_journal_valid: "journal_validate sample_journal (default_limits git) = Ok ()"
  by (simp add: journal_validate_def sample_journal_def sample_staging journal_publication_intent_def
      publication_intent_from_persisted_def default_limits_def)

lemma sample_journal_prepared:
  "journal_prepared sample_digest (\<lambda>_. ''b'') sample_plan ''remote:blake3:k'' (Some sample_intent) None (default_limits git)
     = Ok sample_journal"
proof -
  have staging: "staging_prefix ''remote:blake3:k'' (pl_digest sample_plan) = Ok ''sync/k/staging/p''"
    by (simp add: sample_plan_def sample_staging)
  have base: "sync_base_record_new key digest revision proposed (ps_objects (pl_merged sample_plan)) (default_limits git)
      = Ok \<lparr>sb_schema_version = 1, sb_remote_key = key, sb_snapshot_digest = digest, sb_manifest_revision = revision,
          sb_backend_revision = proposed, sb_objects = []\<rparr>" for key digest revision proposed
    by (simp add: sync_base_record_new_def sample_plan_def sample_snapshot_def validate_descriptors_def default_limits_def)
  have json: "sync_base_record_to_json (\<lambda>_. ''b'') r (default_limits git) = Ok [CHR ''b'', CHR 0x0A]" if "sb_objects r = []" for r
    by (simp add: that sync_base_record_to_json_def validate_descriptors_def default_limits_def over_control_limit_def)
  have generation: "framed_hash sample_digest (''kitrove-sync-base-generation-v1'' @ [CHR 0x00]) v = generation_id_for_json sample_digest v" for v
    by (rule framed_hash_generation)
  show ?thesis
    unfolding journal_prepared_def Let_def staging base bind_result_simps map_err_simps generation sample_staging
    using sample_journal_valid[of git]
    by (simp add: json sample_staging sample_plan_def sample_intent_def sample_journal_def generation)
qed

theorem prepared_journals_stay_bound_witness:
  "journal_step sample_journal (sample_journal\<lparr>jr_phase := Publishing\<rparr>)
   \<and> journal_publication_intent (sample_journal\<lparr>jr_phase := Publishing\<rparr>) (projr sync_limits_default) = Ok (Some (snd sample_intent))
   \<and> bound_to_plan sample_digest sample_plan ''remote:blake3:k'' None (sample_journal\<lparr>jr_phase := Publishing\<rparr>)"
proof -
  obtain git where default: "sync_limits_default = Ok (default_limits git)" using default_limits_Ok by blast
  have step: "journal_step sample_journal (sample_journal\<lparr>jr_phase := Publishing\<rparr>)"
    unfolding journal_step_next next_journal_phase_def by (simp add: sample_journal_def)
  then have "journal_step\<^sup>*\<^sup>* sample_journal (sample_journal\<lparr>jr_phase := Publishing\<rparr>)" by blast
  from prepared_journals_stay_bound[OF sample_journal_prepared this, of git] step show ?thesis
    unfolding default sum.sel by simp
qed

theorem journals_reload_witness:
  "journal_from_json (\<lambda>j. if j = sample_journal then Some ''j'' else None)
     (\<lambda>t. if t = [CHR ''j'', CHR 0x0A] then Some sample_journal else None) [CHR ''j'', CHR 0x0A] (projr sync_limits_default)
   = Ok sample_journal"
proof -
  obtain git where default: "sync_limits_default = Ok (default_limits git)" using default_limits_Ok by blast
  show ?thesis unfolding default sum.sel
    by (subst journals_reload)
      (use sample_journal_valid[of git] in \<open>auto simp: journal_to_json_def default_limits_def split: if_splits\<close>)
qed

end
