(* ===== verification/Pack_Inspection.thy ===== *)
theory Pack_Inspection
  imports Manifest_Refresh "HOL-Library.Product_Lexorder"
begin

text \<open>
  \<open>kitrove-core/src/pack_inspection.rs\<close> and \<open>profile_resolution.rs\<close>: the components reachable from packs,
  the ownership of leaf assets per selected pack, and the selection of a profile with its ancestors.  The
  three work lists are recursive functions whose termination is proved, with no fuel.
\<close>

section \<open>Components of packs\<close>

definition MAX_PACK_APPLICATION_GRAPH_VISITS :: nat where
  "MAX_PACK_APPLICATION_GRAPH_VISITS = 4096"

definition MAX_PACK_APPLICATION_MEMBERSHIPS :: nat where
  "MAX_PACK_APPLICATION_MEMBERSHIPS = 4096"

datatype pack_component_kind = AssetComponent asset_kind | PackComponent

record pack_component =
  pk_id :: string
  pk_revision :: string
  pk_kind :: pack_component_kind
  pk_direct :: bool
  pk_parents :: "string btree_set"

record pack_inspection =
  in_pack :: pack
  in_components :: "pack_component list"

text \<open>What a member identity names: the kind and current revision of an asset, else of a pack.\<close>

definition member_object :: "environment_manifest \<Rightarrow> string \<Rightarrow> (pack_component_kind \<times> string) option" where
  "member_object m member =
     (case bt_get (em_assets m) member of
        Some a \<Rightarrow> Some (AssetComponent (asset_kind_of a), asset_content_hash a)
      | None \<Rightarrow> map_option (\<lambda>p. (PackComponent, pack_content_hash p)) (bt_get (em_packs m) member))"

type_synonym component_map = "(string, pack_component) btree_map"

text \<open>The body of the loop over the members of one parent.\<close>

definition add_component ::
  "environment_manifest \<Rightarrow> string btree_set \<Rightarrow> string \<Rightarrow> string btree_set \<times> component_map \<Rightarrow> string \<times> string
   \<Rightarrow> (string btree_set \<times> component_map) result" where
  "add_component m roots parent_id s e =
     (case s of (pending, components) \<Rightarrow> case e of (member_id, revision) \<Rightarrow>
       bind_result (ok_or ''pack.manifest_invalid'' (member_object m member_id)) (\<lambda>(kind, actual_revision).
         let pending' = (if kind = PackComponent then bs_insert member_id pending else pending);
             component = (case bt_get components member_id of Some c \<Rightarrow> c
               | None \<Rightarrow> \<lparr>pk_id = member_id, pk_revision = revision, pk_kind = kind, pk_direct = False, pk_parents = []\<rparr>)
         in if actual_revision \<noteq> revision then Err ''pack.manifest_invalid''
            else if pk_revision component \<noteq> revision \<or> pk_kind component \<noteq> kind then Err ''pack.manifest_invalid''
            else Ok (pending', bt_insert member_id
              (component\<lparr>pk_direct := pk_direct component \<or> bs_has roots parent_id,
                 pk_parents := bs_insert parent_id (pk_parents component)\<rparr>) components)))"

text \<open>The work list: \<open>pop_first\<close> takes the head of the ordered set.\<close>

function component_loop ::
  "environment_manifest \<Rightarrow> string btree_set \<Rightarrow> string btree_set \<Rightarrow> string btree_set \<Rightarrow> component_map \<Rightarrow> component_map result" where
  "component_loop m roots [] visited components = Ok components"
| "component_loop m roots (parent_id # pending) visited components =
     (if bs_has visited parent_id then component_loop m roots pending visited components
      else case bt_get (em_packs m) parent_id of
          None \<Rightarrow> Err ''pack.missing''
        | Some parent \<Rightarrow>
            bind_result (try_fold (add_component m roots parent_id) (pending, components) (pack_members parent)) (\<lambda>(pending', components').
              component_loop m roots pending' (bs_insert parent_id visited) components'))"
  by pat_completeness auto

text \<open>Every round either drops a visited parent or visits a pack of the manifest for the first time.\<close>

lemma unvisited_decreases:
  assumes "bt_get m i = Some x" "i \<notin> set visited"
  shows "card (set (bt_keys m) - insert i (set visited)) < card (set (bt_keys m) - set visited)"
proof (rule psubset_card_mono)
  have "i \<in> set (bt_keys m)" using assms(1) by (simp add: bt_has_iff[symmetric] bt_has_def)
  then show "set (bt_keys m) - insert i (set visited) \<subset> set (bt_keys m) - set visited" using assms(2) by auto
qed simp

termination component_loop
proof (relation "measures [\<lambda>(m, roots, pending, visited, components). card (set (bt_keys (em_packs m)) - set visited),
    \<lambda>(m, roots, pending, visited, components). length pending]")
qed (auto simp: unvisited_decreases)

definition resolve_pack_components :: "environment_manifest \<Rightarrow> string btree_set \<Rightarrow> pack_component list result" where
  "resolve_pack_components m roots =
     bind_result (component_loop m roots roots [] []) (\<lambda>components. Ok (bt_values components))"

definition inspect_pack :: "(string \<Rightarrow> string) \<Rightarrow> environment_manifest \<Rightarrow> string \<Rightarrow> pack_inspection result" where
  "inspect_pack H m root_pack =
     and_then (map_err ''pack.manifest_invalid'' (validate_manifest H m))
     (bind_result (ok_or ''pack.missing'' (bt_get (em_packs m) root_pack)) (\<lambda>p.
      bind_result (resolve_pack_components m [root_pack]) (\<lambda>components.
        Ok \<lparr>in_pack = p, in_components = components\<rparr>)))"

definition asset_component :: "pack_component \<Rightarrow> bool" where
  "asset_component c = (case pk_kind c of AssetComponent _ \<Rightarrow> True | PackComponent \<Rightarrow> False)"

definition resolve_pack_assets :: "(string \<Rightarrow> string) \<Rightarrow> environment_manifest \<Rightarrow> string btree_set \<Rightarrow> string btree_set result" where
  "resolve_pack_assets H m roots =
     and_then (map_err ''pack.manifest_invalid'' (validate_manifest H m))
     (bind_result (resolve_pack_components m roots) (\<lambda>components.
        Ok (bs_collect (map pk_id (filter asset_component components)))))"

section \<open>Memberships per selected pack\<close>

type_synonym memberships = "(string, string btree_set) btree_map"

text \<open>The state of the loop over the members of one pack: pending work, memberships and their count.\<close>

definition add_membership ::
  "environment_manifest \<Rightarrow> string \<Rightarrow> (string \<times> string) btree_set \<times> memberships \<times> nat \<Rightarrow> string
   \<Rightarrow> ((string \<times> string) btree_set \<times> memberships \<times> nat) result" where
  "add_membership m root s member_id =
     (case s of (pending, memberships, count) \<Rightarrow>
        if bt_has (em_assets m) member_id then
          bind_result (ok_or ''pack.manifest_invalid'' (bt_get memberships root)) (\<lambda>owned.
            if bs_has owned member_id then Ok s
            else if count + 1 > MAX_PACK_APPLICATION_MEMBERSHIPS then Err ''pack.application_limit''
            else Ok (pending, bt_insert root (bs_insert member_id owned) memberships, count + 1))
        else if bt_has (em_packs m) member_id then Ok (bs_insert (root, member_id) pending, memberships, count)
        else Err ''pack.manifest_invalid'')"

lemma length_bs_insert: "x \<notin> set s \<Longrightarrow> length (bs_insert x s) = Suc (length s)"
  by (induction x s rule: bs_insert.induct) auto

function membership_loop ::
  "environment_manifest \<Rightarrow> (string \<times> string) btree_set \<Rightarrow> (string \<times> string) btree_set \<Rightarrow> memberships \<Rightarrow> nat \<Rightarrow> memberships result" where
  "membership_loop m [] visited memberships count = Ok memberships"
| "membership_loop m ((root, root_pack) # pending) visited memberships count =
     (if bs_has visited (root, root_pack) then membership_loop m pending visited memberships count
      else if length (bs_insert (root, root_pack) visited) > MAX_PACK_APPLICATION_GRAPH_VISITS then Err ''pack.application_limit''
      else case bt_get (em_packs m) root_pack of
          None \<Rightarrow> Err ''pack.missing''
        | Some p \<Rightarrow>
            bind_result (try_fold (add_membership m root) (pending, memberships, count) (bt_keys (pack_members p)))
              (\<lambda>(pending', memberships', count').
                membership_loop m pending' (bs_insert (root, root_pack) visited) memberships' count'))"
  by pat_completeness auto

termination membership_loop
proof (relation "measures [\<lambda>(m, pending, visited, memberships, count). MAX_PACK_APPLICATION_GRAPH_VISITS - length visited,
    \<lambda>(m, pending, visited, memberships, count). length pending]")
qed (auto simp: length_bs_insert)

definition resolve_pack_asset_memberships ::
  "(string \<Rightarrow> string) \<Rightarrow> environment_manifest \<Rightarrow> string btree_set \<Rightarrow> memberships result" where
  "resolve_pack_asset_memberships H m roots =
     and_then (map_err ''pack.manifest_invalid'' (validate_manifest H m))
       (membership_loop m (bs_collect (map (\<lambda>r. (r, r)) roots)) [] (bt_collect (map (\<lambda>r. (r, [])) roots)) 0)"

section \<open>Profiles\<close>

record resolved_profile =
  rp_profile_id :: string
  rp_assets :: "string btree_set"
  rp_targets :: "harness_id btree_set"

function profile_loop ::
  "environment_manifest \<Rightarrow> string btree_set \<Rightarrow> string btree_set \<Rightarrow> harness_id btree_set \<Rightarrow> string option
   \<Rightarrow> (string btree_set \<times> harness_id btree_set) result" where
  "profile_loop m visited selected targets None = Ok (selected, targets)"
| "profile_loop m visited selected targets (Some i) =
     (if bs_has visited i then Err ''profile.manifest_invalid''
      else case bt_get (em_profiles m) i of
          None \<Rightarrow> Err ''profile.missing''
        | Some p \<Rightarrow> profile_loop m (bs_insert i visited) (bs_extend selected (profile_assets p))
            (bs_extend targets (profile_targets p)) (profile_extends p))"
  by pat_completeness auto

termination profile_loop
proof (relation "measure (\<lambda>(m, visited, selected, targets, current). card (set (bt_keys (em_profiles m)) - set visited))")
qed (auto simp: unvisited_decreases)

text \<open>The loop that parts the selection into assets and packs.\<close>

definition split_selected ::
  "environment_manifest \<Rightarrow> string btree_set \<times> string btree_set \<Rightarrow> string \<Rightarrow> (string btree_set \<times> string btree_set) result" where
  "split_selected m s i =
     (case s of (assets, pack_roots) \<Rightarrow>
        if bt_has (em_assets m) i then Ok (bs_insert i assets, pack_roots)
        else if bt_has (em_packs m) i then Ok (assets, bs_insert i pack_roots)
        else Err ''profile.manifest_invalid'')"

definition resolve_profile :: "(string \<Rightarrow> string) \<Rightarrow> environment_manifest \<Rightarrow> string \<Rightarrow> resolved_profile result" where
  "resolve_profile H m root_profile =
     and_then (map_err ''profile.manifest_invalid'' (validate_manifest H m))
     (bind_result (profile_loop m [] [] [] (Some root_profile)) (\<lambda>(selected, targets).
      bind_result (try_fold (split_selected m) ([], []) selected) (\<lambda>(assets, pack_roots).
      bind_result (map_err ''profile.manifest_invalid'' (resolve_pack_assets H m pack_roots)) (\<lambda>leaves.
        Ok \<lparr>rp_profile_id = root_profile, rp_assets = bs_extend assets leaves, rp_targets = targets\<rparr>))))"

end
