(* ===== verification/Pack_Inspection_Laws.thy ===== *)
theory Pack_Inspection_Laws
  imports Pack_Inspection
begin

text \<open>
  What inspection promises on a validated manifest: it never fails on present packs, and the components it
  returns are exactly what the packs contain, through any number of nested packs.
\<close>

section \<open>Facts of a validated manifest\<close>

definition has_member :: "environment_manifest \<Rightarrow> string \<Rightarrow> string \<Rightarrow> bool" where
  "has_member m v j \<longleftrightarrow> (case bt_get (em_packs m) v of Some p \<Rightarrow> j \<in> set (bt_keys (pack_members p)) | None \<Rightarrow> False)"

definition exact_members :: "environment_manifest \<Rightarrow> bool" where
  "exact_members m \<longleftrightarrow> (\<forall>v p j revision. bt_get (em_packs m) v = Some p \<longrightarrow> (j, revision) \<in> set (pack_members p) \<longrightarrow>
     (\<exists>kind. member_object m j = Some (kind, revision)))"

lemma member_object_pack:
  "member_object m j = Some (kind, revision) \<Longrightarrow> bt_get (em_packs m) j \<noteq> None \<Longrightarrow> bt_get (em_assets m) j = None \<Longrightarrow>
   kind = PackComponent"
  by (auto simp: member_object_def split: option.splits)

lemma valid_manifest_exact_members:
  assumes "validate_manifest H m = Ok ()"
  shows "exact_members m"
  unfolding exact_members_def
proof (intro allI impI)
  fix v p j revision
  assume p: "bt_get (em_packs m) v = Some p" and member: "(j, revision) \<in> set (pack_members p)"
  then have "j \<in> set (bt_keys (pack_members p))" by (auto simp: bt_keys_def intro: rev_image_eqI)
  then have present: "bt_get (em_assets m) j \<noteq> None \<or> bt_get (em_packs m) j \<noteq> None"
    using valid_manifest_members(3)[OF assms p] by blast
  obtain ms where "collect_exact_members m (pack_members p) = Ok ms"
    using valid_manifest_packs(2)[OF assms p] by (auto simp: validate_pack_revision_def bind_result_Ok_iff and_then_Ok_iff)
  then have "exact_revision m j \<in> {None, Some revision}" using member by (fastforce simp: collect_exact_members_Ok)
  then show "\<exists>kind. member_object m j = Some (kind, revision)"
    using present by (auto simp: exact_revision_def member_object_def split: option.splits)
qed

section \<open>One parent\<close>

text \<open>The component that inspection should have for a member once the packs \<open>visited\<close> are done.\<close>

definition component_at :: "environment_manifest \<Rightarrow> string btree_set \<Rightarrow> string btree_set \<Rightarrow> string \<Rightarrow> pack_component option" where
  "component_at m roots visited j =
     (if \<exists>v\<in>set visited. has_member m v j then
        map_option (\<lambda>(kind, revision).
          \<lparr>pk_id = j, pk_revision = revision, pk_kind = kind,
           pk_direct = (\<exists>v\<in>set visited. v \<in> set roots \<and> has_member m v j),
           pk_parents = filter (\<lambda>v. has_member m v j) visited\<rparr>) (member_object m j)
      else None)"

lemma filter_bs_insert:
  assumes "bs_wf s" "P x"
  shows "filter P (bs_insert x s) = bs_insert x (filter P s)"
  by (rule bs_ext) (use assms in \<open>auto simp: bs_wf_filter bs_wf_insert\<close>)

lemma bs_insert_present: "bs_wf s \<Longrightarrow> x \<in> set s \<Longrightarrow> bs_insert x s = s"
  by (rule bs_ext) (auto simp: bs_wf_insert)

text \<open>Members \<open>D\<close> of the parent are done already; doing one twice changes nothing.\<close>

definition partly_at ::
  "environment_manifest \<Rightarrow> string btree_set \<Rightarrow> string btree_set \<Rightarrow> string \<Rightarrow> string set \<Rightarrow> string \<Rightarrow> pack_component option" where
  "partly_at m roots visited parent D j = component_at m roots (if j \<in> D then bs_insert parent visited else visited) j"

lemma add_component_step:
  assumes "bs_wf visited" "has_member m parent j" "member_object m j = Some (kind, revision)"
    and "bt_wf components" "bt_get components = partly_at m roots visited parent D"
  shows "\<exists>components'. add_component m roots parent (pending, components) (j, revision)
      = Ok (if kind = PackComponent then bs_insert j pending else pending, components')
    \<and> bt_wf components' \<and> bt_get components' = partly_at m roots visited parent (insert j D)"
proof -
  let ?new = "\<lparr>pk_id = j, pk_revision = revision, pk_kind = kind, pk_direct = False, pk_parents = []\<rparr>"
  let ?c = "case bt_get components j of Some c \<Rightarrow> c | None \<Rightarrow> ?new"
  let ?c' = "?c\<lparr>pk_direct := pk_direct ?c \<or> bs_has roots parent, pk_parents := bs_insert parent (pk_parents ?c)\<rparr>"
  have same: "pk_revision ?c = revision" "pk_kind ?c = kind"
    using assms(3) by (auto simp: assms(5) partly_at_def component_at_def)
  have "Some ?c' = component_at m roots (bs_insert parent visited) j"
  proof (cases "j \<in> D")
    case True
    have "bs_insert parent (bs_insert parent visited) = bs_insert parent visited"
      using assms(1) by (intro bs_insert_present) (simp_all add: bs_wf_insert)
    then have "bs_insert parent (filter (\<lambda>v. has_member m v j) (bs_insert parent visited)) = filter (\<lambda>v. has_member m v j) (bs_insert parent visited)"
      using filter_bs_insert[of "bs_insert parent visited" "\<lambda>v. has_member m v j" parent] assms(1,2) by (simp add: bs_wf_insert)
    then show ?thesis using True assms(2,3) by (auto simp: assms(5) partly_at_def component_at_def)
  next
    case False
    note insert = filter_bs_insert[of visited "\<lambda>v. has_member m v j" parent, OF assms(1,2)]
    show ?thesis
    proof (cases "\<exists>v\<in>set visited. has_member m v j")
      case True
      then show ?thesis using False assms(2,3) insert by (auto simp: assms(5) partly_at_def component_at_def)
    next
      case none: False
      then have "filter (\<lambda>v. has_member m v j) visited = []" by (auto simp: filter_empty_conv)
      then show ?thesis using False none assms(2,3) insert by (auto simp: assms(5) partly_at_def component_at_def)
    qed
  qed
  then have "bt_get (bt_insert j ?c' components) = partly_at m roots visited parent (insert j D)"
    by (auto simp: bt_get_insert assms(5) partly_at_def fun_eq_iff)
  moreover have "bt_wf (bt_insert j ?c' components)" using assms(4) by (rule bt_wf_insert)
  moreover have "add_component m roots parent (pending, components) (j, revision)
      = Ok (if kind = PackComponent then bs_insert j pending else pending, bt_insert j ?c' components)"
    using same assms(3) by (simp add: add_component_def Let_def)
  ultimately show ?thesis by blast
qed

lemma add_components_run:
  assumes "bs_wf visited" "bt_get (em_packs m) parent = Some p" "exact_members m" "set es \<subseteq> set (pack_members p)"
    and "bt_wf components" "bt_get components = partly_at m roots visited parent D" "bs_wf pending"
  shows "\<exists>pending' components'. try_fold (add_component m roots parent) (pending, components) es = Ok (pending', components')
    \<and> bs_wf pending' \<and> set pending' = set pending \<union> {j \<in> fst ` set es. \<exists>revision. member_object m j = Some (PackComponent, revision)}
    \<and> bt_wf components' \<and> bt_get components' = partly_at m roots visited parent (fst ` set es \<union> D)"
  using assms(4-7)
proof (induction es arbitrary: pending components D)
  case (Cons e es)
  obtain j revision where e: "e = (j, revision)" by (cases e)
  then have "(j, revision) \<in> set (pack_members p)" using Cons.prems(1) by auto
  then have member: "has_member m parent j" and "\<exists>kind. member_object m j = Some (kind, revision)"
    using assms(2,3) by (auto simp: has_member_def bt_keys_def exact_members_def intro: rev_image_eqI)
  then obtain kind where kind: "member_object m j = Some (kind, revision)" by blast
  obtain components1 where one: "add_component m roots parent (pending, components) (j, revision)
        = Ok (if kind = PackComponent then bs_insert j pending else pending, components1)"
      "bt_wf components1" "bt_get components1 = partly_at m roots visited parent (insert j D)"
    using add_component_step[OF assms(1) member kind Cons.prems(2,3)] by blast
  have "set es \<subseteq> set (pack_members p)" "bs_wf (if kind = PackComponent then bs_insert j pending else pending)"
    using Cons.prems(1,4) by (auto simp: bs_wf_insert)
  from Cons.IH[OF this(1) one(2,3) this(2)] obtain pending' components' where rest:
      "try_fold (add_component m roots parent) (if kind = PackComponent then bs_insert j pending else pending, components1) es = Ok (pending', components')"
      "bs_wf pending'" "set pending' = set (if kind = PackComponent then bs_insert j pending else pending)
        \<union> {j \<in> fst ` set es. \<exists>revision. member_object m j = Some (PackComponent, revision)}"
      "bt_wf components'" "bt_get components' = partly_at m roots visited parent (fst ` set es \<union> insert j D)"
    by blast
  then show ?case using one(1) kind by (auto simp: e)
qed auto

section \<open>The work list\<close>

definition is_pack :: "environment_manifest \<Rightarrow> string \<Rightarrow> bool" where
  "is_pack m i \<longleftrightarrow> bt_get (em_packs m) i \<noteq> None"

definition disjoint_objects :: "environment_manifest \<Rightarrow> bool" where
  "disjoint_objects m \<longleftrightarrow> (\<forall>i. is_pack m i \<longrightarrow> bt_get (em_assets m) i = None)"

lemma valid_manifest_disjoint: "validate_manifest H m = Ok () \<Longrightarrow> disjoint_objects m"
  using valid_manifest_members(2) by (auto simp: disjoint_objects_def is_pack_def)

lemma pack_object: "disjoint_objects m \<Longrightarrow> (\<exists>revision. member_object m j = Some (PackComponent, revision)) \<longleftrightarrow> is_pack m j"
  by (auto simp: member_object_def disjoint_objects_def is_pack_def split: option.splits)

text \<open>Sets of packs that contain their own nested packs.\<close>

definition nested_closed :: "environment_manifest \<Rightarrow> string set \<Rightarrow> string set \<Rightarrow> bool" where
  "nested_closed m V S \<longleftrightarrow> (\<forall>v\<in>V. \<forall>j. has_member m v j \<and> is_pack m j \<longrightarrow> j \<in> S)"

lemma component_loop_run:
  assumes "exact_members m" "disjoint_objects m"
    and "bs_wf pending" "bs_wf visited" "list_all (is_pack m) pending"
    and "bt_wf components" "bt_get components = component_at m roots visited"
    and "nested_closed m (set visited) (set visited \<union> set pending)"
  shows "\<exists>components' visited'. component_loop m roots pending visited components = Ok components'
    \<and> bs_wf visited' \<and> bt_wf components' \<and> bt_get components' = component_at m roots visited'
    \<and> set visited \<union> set pending \<subseteq> set visited' \<and> nested_closed m (set visited') (set visited')
    \<and> (\<forall>S. set visited \<union> set pending \<subseteq> S \<and> nested_closed m S S \<longrightarrow> set visited' \<subseteq> S)"
  using assms
proof (induction m roots pending visited components rule: component_loop.induct)
  case (1 m roots visited components)
  then show ?case by auto
next
  case (2 m roots parent pending visited components)
  have pending: "bs_wf pending" using "2.prems"(3) by (simp add: bs_wf_def)
  show ?case
  proof (cases "bs_has visited parent")
    case True
    then have known: "set visited \<union> set (parent # pending) = set visited \<union> set pending" by auto
    have "list_all (is_pack m) pending" using "2.prems"(5) by simp
    from "2.IH"(1)[OF True "2.prems"(1,2) pending "2.prems"(4) this "2.prems"(6,7)] "2.prems"(8)
    show ?thesis using True unfolding known by simp
  next
    case False
    obtain p where p: "bt_get (em_packs m) parent = Some p" using "2.prems"(5) by (auto simp: is_pack_def)
    have start: "bt_get components = partly_at m roots visited parent {}"
      by (simp add: "2.prems"(7) partly_at_def fun_eq_iff)
    obtain pending1 components1 where run: "try_fold (add_component m roots parent) (pending, components) (pack_members p) = Ok (pending1, components1)"
        "bs_wf pending1" "set pending1 = set pending \<union> {j \<in> fst ` set (pack_members p). is_pack m j}"
        "bt_wf components1" "bt_get components1 = partly_at m roots visited parent (fst ` set (pack_members p))"
      using add_components_run[OF "2.prems"(4) p "2.prems"(1) subset_refl "2.prems"(6) start pending]
      by (auto simp: pack_object[OF "2.prems"(2)])
    have members: "has_member m parent j \<longleftrightarrow> j \<in> fst ` set (pack_members p)" for j
      by (simp add: has_member_def p bt_keys_def)
    have "component_at m roots (bs_insert parent visited) j = component_at m roots visited j" if "\<not> has_member m parent j" for j
    proof -
      have "filter (\<lambda>v. has_member m v j) (bs_insert parent visited) = filter (\<lambda>v. has_member m v j) visited"
        using that "2.prems"(4) by (intro bs_ext) (auto simp: bs_wf_filter bs_wf_insert)
      then show ?thesis using that by (auto simp: component_at_def)
    qed
    then have done_parent: "bt_get components1 = component_at m roots (bs_insert parent visited)"
      by (auto simp: run(5) partly_at_def fun_eq_iff members)
    have packs: "list_all (is_pack m) pending1" using run(3) "2.prems"(5) by (auto simp: list_all_iff)
    have closed: "nested_closed m (set (bs_insert parent visited)) (set (bs_insert parent visited) \<union> set pending1)"
      using "2.prems"(8) run(3) members by (auto simp: nested_closed_def)
    from "2.IH"(2)[OF False p run(1) refl "2.prems"(1,2) run(2) bs_wf_insert[OF "2.prems"(4)] packs run(4) done_parent closed]
    obtain components' visited' where rest: "component_loop m roots pending1 (bs_insert parent visited) components1 = Ok components'"
        "bs_wf visited'" "bt_wf components'" "bt_get components' = component_at m roots visited'"
        "set (bs_insert parent visited) \<union> set pending1 \<subseteq> set visited'" "nested_closed m (set visited') (set visited')"
        "\<forall>S. set (bs_insert parent visited) \<union> set pending1 \<subseteq> S \<and> nested_closed m S S \<longrightarrow> set visited' \<subseteq> S"
      by blast
    have least: "set visited' \<subseteq> S" if S: "set visited \<union> set (parent # pending) \<subseteq> S" "nested_closed m S S" for S
    proof -
      have "{j \<in> fst ` set (pack_members p). is_pack m j} \<subseteq> S" using S members by (auto simp: nested_closed_def)
      then show ?thesis using rest(7) S run(3) by auto
    qed
    have "component_loop m roots (parent # pending) visited components = Ok components'" using False p run(1) rest(1) by simp
    moreover have "set visited \<union> set (parent # pending) \<subseteq> set visited'" using rest(5) run(3) by auto
    ultimately show ?thesis using rest(2-4,6) least by blast
  qed
qed

text \<open>The packs a selection reaches.\<close>

definition selected_packs :: "environment_manifest \<Rightarrow> string list \<Rightarrow> string set" where
  "selected_packs m roots = {v. is_pack m v \<and> (\<exists>r\<in>set roots. r = v \<or> pack_contains m r v)}"

lemma pack_contains_member: "pack_contains m i j \<Longrightarrow> \<exists>v. (i = v \<or> pack_contains m i v) \<and> is_pack m v \<and> has_member m v j"
proof (induction rule: pack_contains.induct)
  case (direct i p member)
  then show ?case by (intro exI[of _ i]) (simp add: is_pack_def has_member_def)
next
  case (nested i p member j)
  then show ?case using pack_contains.intros by metis
qed

lemma pack_contains_extend:
  "pack_contains m i v \<Longrightarrow> has_member m v j \<Longrightarrow> pack_contains m i j"
proof (induction rule: pack_contains.induct)
  case (direct i p member)
  then show ?case by (auto simp: has_member_def intro: pack_contains.intros split: option.splits)
next
  case (nested i p member j')
  then show ?case by (auto intro: pack_contains.nested)
qed

lemma has_member_contains: "has_member m v j \<Longrightarrow> pack_contains m v j"
  by (auto simp: has_member_def intro: pack_contains.direct split: option.splits)

lemma selected_packs_closed: "nested_closed m (selected_packs m roots) (selected_packs m roots)"
  by (auto simp: nested_closed_def selected_packs_def intro: has_member_contains pack_contains_extend)

lemma selected_packs_least:
  assumes "set roots \<subseteq> S" "nested_closed m S S"
  shows "selected_packs m roots \<subseteq> S"
proof -
  have "pack_contains m i j \<Longrightarrow> i \<in> S \<Longrightarrow> is_pack m j \<Longrightarrow> j \<in> S" for i j
  proof (induction rule: pack_contains.induct)
    case (direct i p member)
    then show ?case using assms(2) by (auto simp: nested_closed_def has_member_def)
  next
    case (nested i p member j)
    from nested.hyps(3) have "is_pack m member" by cases (simp_all add: is_pack_def)
    then have "member \<in> S" using nested.hyps(1,2) nested.prems(1) assms(2) by (auto simp: nested_closed_def has_member_def)
    then show ?case using nested.IH nested.prems(2) by blast
  qed
  then show ?thesis using assms(1) by (auto simp: selected_packs_def)
qed

lemma resolve_components_run:
  assumes "validate_manifest H m = Ok ()" "bs_wf roots" "list_all (is_pack m) roots"
  shows "\<exists>components visited. component_loop m roots roots [] [] = Ok components \<and> bt_wf components
    \<and> bt_get components = component_at m roots visited \<and> set visited = selected_packs m roots"
proof -
  have empty: "bt_get [] = component_at m roots []" by (simp add: component_at_def fun_eq_iff bt_get_def)
  have "nested_closed m (set []) (set [] \<union> set roots)" by (simp add: nested_closed_def)
  from component_loop_run[OF valid_manifest_exact_members[OF assms(1)] valid_manifest_disjoint[OF assms(1)] assms(2) bs_wf_Nil assms(3) bt_wf_Nil empty this]
  obtain components visited where run: "component_loop m roots roots [] [] = Ok components" "bt_wf components"
      "bt_get components = component_at m roots visited" "set roots \<subseteq> set visited"
      "nested_closed m (set visited) (set visited)"
      "\<forall>S. set roots \<subseteq> S \<and> nested_closed m S S \<longrightarrow> set visited \<subseteq> S" by auto
  have "set roots \<subseteq> selected_packs m roots" using assms(3) by (auto simp: selected_packs_def list_all_iff)
  then have "set visited \<subseteq> selected_packs m roots" using run(6) selected_packs_closed by metis
  moreover have "selected_packs m roots \<subseteq> set visited" by (rule selected_packs_least[OF run(4,5)])
  ultimately have "set visited = selected_packs m roots" by (rule equalityI)
  with run(1-3) show ?thesis by metis
qed

section \<open>Components\<close>

lemma component_at_Some:
  "component_at m roots visited j = Some c \<longleftrightarrow>
     (\<exists>v\<in>set visited. has_member m v j) \<and>
     (\<exists>kind revision. member_object m j = Some (kind, revision) \<and>
       c = \<lparr>pk_id = j, pk_revision = revision, pk_kind = kind,
            pk_direct = (\<exists>v\<in>set visited. v \<in> set roots \<and> has_member m v j),
            pk_parents = filter (\<lambda>v. has_member m v j) visited\<rparr>)"
  by (auto simp: component_at_def)

text \<open>What the component of a member should say, over the packs the selection reaches.\<close>

definition describes_member :: "environment_manifest \<Rightarrow> string list \<Rightarrow> pack_component \<Rightarrow> bool" where
  "describes_member m roots c \<longleftrightarrow>
     member_object m (pk_id c) = Some (pk_kind c, pk_revision c)
     \<and> (pk_direct c \<longleftrightarrow> (\<exists>r\<in>set roots. has_member m r (pk_id c)))
     \<and> set (pk_parents c) = {v \<in> selected_packs m roots. has_member m v (pk_id c)}"

lemma contents_of_selection:
  assumes "list_all (is_pack m) roots"
  shows "(\<exists>v\<in>selected_packs m roots. has_member m v j) \<longleftrightarrow> (\<exists>r\<in>set roots. pack_contains m r j)"
proof
  assume "\<exists>v\<in>selected_packs m roots. has_member m v j"
  then show "\<exists>r\<in>set roots. pack_contains m r j"
    by (auto simp: selected_packs_def intro: has_member_contains pack_contains_extend)
next
  assume "\<exists>r\<in>set roots. pack_contains m r j"
  then obtain r v where "r \<in> set roots" "r = v \<or> pack_contains m r v" "is_pack m v" "has_member m v j"
    using pack_contains_member by blast
  then show "\<exists>v\<in>selected_packs m roots. has_member m v j" by (auto simp: selected_packs_def)
qed

lemma resolve_pack_components_run:
  assumes "validate_manifest H m = Ok ()" "bs_wf roots" "list_all (is_pack m) roots"
  shows "\<exists>cs. resolve_pack_components m roots = Ok cs \<and> sorted_wrt (<) (map pk_id cs)
    \<and> set (map pk_id cs) = {j. \<exists>r\<in>set roots. pack_contains m r j} \<and> list_all (describes_member m roots) cs"
proof -
  obtain components visited where run: "component_loop m roots roots [] [] = Ok components" "bt_wf components"
      "bt_get components = component_at m roots visited" "set visited = selected_packs m roots"
    using resolve_components_run[OF assms] by blast
  let ?cs = "bt_values components"
  have exact: "exact_members m" using assms(1) by (rule valid_manifest_exact_members)
  have here: "component_at m roots visited j = Some c" if "(j, c) \<in> set components" for j c
    using that run(2) by (simp add: bt_get_iff[symmetric] run(3))
  have keys: "map pk_id ?cs = bt_keys components"
  proof -
    have "pk_id c = j" if "(j, c) \<in> set components" for j c using here[OF that] by (auto simp: component_at_Some)
    then show ?thesis by (auto simp: bt_values_def bt_keys_def)
  qed
  have "j \<in> set (bt_keys components) \<longleftrightarrow> (\<exists>r\<in>set roots. pack_contains m r j)" for j
  proof -
    have "j \<in> set (bt_keys components) \<longleftrightarrow> component_at m roots visited j \<noteq> None"
      by (simp add: bt_has_iff[symmetric] bt_has_def run(3))
    also have "\<dots> \<longleftrightarrow> (\<exists>v\<in>set visited. has_member m v j)"
    proof -
      have "member_object m j \<noteq> None" if "has_member m v j" for v
        using that exact by (fastforce simp: has_member_def exact_members_def bt_keys_def split: option.splits)
      then show ?thesis by (auto simp: component_at_def)
    qed
    also have "\<dots> \<longleftrightarrow> (\<exists>r\<in>set roots. pack_contains m r j)"
      unfolding run(4) by (rule contents_of_selection[OF assms(3)])
    finally show ?thesis .
  qed
  moreover have "list_all (describes_member m roots) ?cs"
  proof -
    have "set roots \<subseteq> set visited" using assms(3) by (auto simp: run(4) selected_packs_def list_all_iff)
    then have "describes_member m roots c" if "(j, c) \<in> set components" for j c
      using here[OF that] unfolding component_at_Some describes_member_def run(4)[symmetric]
      by (elim conjE exE) (simp, blast)
    then show ?thesis by (auto simp: list_all_iff bt_values_def)
  qed
  moreover have "sorted_wrt (<) (bt_keys components)" using run(2) by (simp add: bt_wf_def bt_keys_def)
  moreover have "resolve_pack_components m roots = Ok ?cs" using run(1) by (simp add: resolve_pack_components_def)
  ultimately show ?thesis unfolding keys[symmetric] by (intro exI[of _ ?cs]) blast
qed

lemma resolve_pack_assets_run:
  assumes "validate_manifest H m = Ok ()" "bs_wf roots" "list_all (is_pack m) roots"
  shows "\<exists>as. resolve_pack_assets H m roots = Ok as \<and> bs_wf as
    \<and> set as = {j. bt_has (em_assets m) j \<and> (\<exists>r\<in>set roots. pack_contains m r j)}"
proof -
  obtain cs where cs: "resolve_pack_components m roots = Ok cs" "set (map pk_id cs) = {j. \<exists>r\<in>set roots. pack_contains m r j}"
      "list_all (describes_member m roots) cs"
    using resolve_pack_components_run[OF assms] by blast
  let ?as = "bs_collect (map pk_id (filter asset_component cs))"
  have "asset_component c \<longleftrightarrow> bt_has (em_assets m) (pk_id c)" if "c \<in> set cs" for c
  proof -
    have "member_object m (pk_id c) = Some (pk_kind c, pk_revision c)"
      using cs(3) that by (simp add: list_all_iff describes_member_def)
    then show ?thesis
      by (cases "bt_get (em_assets m) (pk_id c)"; cases "pk_kind c")
        (auto simp: member_object_def asset_component_def bt_has_def)
  qed
  then have "set ?as = {j \<in> set (map pk_id cs). bt_has (em_assets m) j}" by auto
  then have "set ?as = {j. bt_has (em_assets m) j \<and> (\<exists>r\<in>set roots. pack_contains m r j)}" unfolding cs(2) by auto
  then show ?thesis using assms(1) cs(1) by (simp add: resolve_pack_assets_def)
qed

section \<open>Profiles\<close>

text \<open>The profile and its ancestors.\<close>

inductive profile_line :: "environment_manifest \<Rightarrow> string \<Rightarrow> string \<Rightarrow> bool" for m where
  self: "profile_line m i i"
| ancestor: "profile_parent (em_profiles m) i = Some j \<Longrightarrow> profile_line m j k \<Longrightarrow> profile_line m i k"

inductive_simps profile_line_iff: "profile_line m i k"

definition line_assets :: "environment_manifest \<Rightarrow> string \<Rightarrow> string set" where
  "line_assets m i = {a. \<exists>k p. profile_line m i k \<and> bt_get (em_profiles m) k = Some p \<and> a \<in> set (profile_assets p)}"

definition line_targets :: "environment_manifest \<Rightarrow> string \<Rightarrow> harness_id set" where
  "line_targets m i = {h. \<exists>k p. profile_line m i k \<and> bt_get (em_profiles m) k = Some p \<and> h \<in> set (profile_targets p)}"

lemma line_contents:
  assumes "bt_get (em_profiles m) i = Some p"
  shows "line_assets m i = set (profile_assets p) \<union> (case profile_extends p of Some j \<Rightarrow> line_assets m j | None \<Rightarrow> {})"
    and "line_targets m i = set (profile_targets p) \<union> (case profile_extends p of Some j \<Rightarrow> line_targets m j | None \<Rightarrow> {})"
proof -
  have parent: "profile_parent (em_profiles m) i = profile_extends p" using assms by (simp add: profile_parent_def)
  have line: "profile_line m i k \<longleftrightarrow> k = i \<or> (\<exists>j. profile_extends p = Some j \<and> profile_line m j k)" for k
    by (subst profile_line_iff) (auto simp: parent)
  show "line_assets m i = set (profile_assets p) \<union> (case profile_extends p of Some j \<Rightarrow> line_assets m j | None \<Rightarrow> {})"
    "line_targets m i = set (profile_targets p) \<union> (case profile_extends p of Some j \<Rightarrow> line_targets m j | None \<Rightarrow> {})"
    using assms by (auto simp: line_assets_def line_targets_def line split: option.splits)
qed

lemma profile_loop_run:
  assumes "chain_ends (em_profiles m) i"
  shows "bt_has (em_profiles m) i \<Longrightarrow>
    (\<forall>k p j. bt_get (em_profiles m) k = Some p \<longrightarrow> profile_extends p = Some j \<longrightarrow> bt_has (em_profiles m) j) \<Longrightarrow>
    (\<forall>v\<in>set visited. (v, i) \<in> (inherits (em_profiles m))\<^sup>+) \<Longrightarrow>
    \<exists>selected' targets'. profile_loop m visited selected targets (Some i) = Ok (selected', targets')
      \<and> set selected' = set selected \<union> line_assets m i \<and> set targets' = set targets \<union> line_targets m i
      \<and> (bs_wf selected \<longrightarrow> bs_wf selected') \<and> (bs_wf targets \<longrightarrow> bs_wf targets')"
  using assms
proof (induction arbitrary: visited selected targets rule: chain_ends.induct)
  case (stop i)
  then obtain p where p: "bt_get (em_profiles m) i = Some p" by (auto simp: bt_has_def)
  then have "profile_extends p = None" using stop.hyps by (simp add: profile_parent_def)
  moreover have "i \<notin> set visited" using stop chain_ends_no_cycle[OF chain_ends.stop[OF stop.hyps]] by blast
  ultimately show ?case using p line_contents[OF p] by (auto intro: bs_wf_extend)
next
  case (step i j)
  then obtain p where p: "bt_get (em_profiles m) i = Some p" by (auto simp: bt_has_def)
  then have parent: "profile_extends p = Some j" using step.hyps(1) by (simp add: profile_parent_def)
  have edge: "(i, j) \<in> inherits (em_profiles m)" using step.hyps(1) by (simp add: inherits_def)
  have fresh: "i \<notin> set visited"
    using step.prems(3) chain_ends_no_cycle[OF chain_ends.step[OF step.hyps(1,2)]] by blast
  have "\<forall>v\<in>set (bs_insert i visited). (v, j) \<in> (inherits (em_profiles m))\<^sup>+"
    using step.prems(3) edge by (auto intro: trancl_into_trancl)
  from step.IH[OF _ step.prems(2) this, of "bs_extend selected (profile_assets p)" "bs_extend targets (profile_targets p)"]
  obtain selected' targets' where
    "profile_loop m (bs_insert i visited) (bs_extend selected (profile_assets p)) (bs_extend targets (profile_targets p)) (Some j) = Ok (selected', targets')"
    "set selected' = set (bs_extend selected (profile_assets p)) \<union> line_assets m j"
    "set targets' = set (bs_extend targets (profile_targets p)) \<union> line_targets m j"
    "bs_wf (bs_extend selected (profile_assets p)) \<longrightarrow> bs_wf selected'" "bs_wf (bs_extend targets (profile_targets p)) \<longrightarrow> bs_wf targets'"
    using step.prems(2) p parent by blast
  then show ?case using p parent fresh line_contents[OF p] by (auto simp: bs_wf_extend)
qed

lemma split_selected_run:
  assumes "list_all (\<lambda>i. bt_has (em_assets m) i \<or> bt_has (em_packs m) i) is"
  shows "\<exists>as roots. try_fold (split_selected m) (as0, roots0) is = Ok (as, roots)
    \<and> set as = set as0 \<union> {i \<in> set is. bt_has (em_assets m) i}
    \<and> set roots = set roots0 \<union> {i \<in> set is. \<not> bt_has (em_assets m) i}
    \<and> (bs_wf as0 \<longrightarrow> bs_wf as) \<and> (bs_wf roots0 \<longrightarrow> bs_wf roots)"
  using assms
proof (induction "is" arbitrary: as0 roots0)
  case (Cons i "is")
  show ?case
  proof (cases "bt_has (em_assets m) i")
    case True
    then show ?thesis using Cons.IH[of "bs_insert i as0" roots0] Cons.prems by (auto simp: split_selected_def bs_wf_insert)
  next
    case False
    then show ?thesis using Cons.IH[of as0 "bs_insert i roots0"] Cons.prems by (auto simp: split_selected_def bs_wf_insert)
  qed
qed auto

lemma valid_manifest_profiles:
  assumes "validate_manifest H m = Ok ()" "bt_get (em_profiles m) i = Some p"
  shows "profile_extends p = Some j \<Longrightarrow> bt_has (em_profiles m) j"
    and "a \<in> set (profile_assets p) \<Longrightarrow> bt_has (em_assets m) a \<or> bt_has (em_packs m) a"
    and "chain_ends (em_profiles m) i"
proof -
  have "(i, p) \<in> set (em_profiles m)" using assms(2) by (auto simp: bt_get_def dest: map_of_SomeD)
  then have checked: "validate_manifest_profile m (i, p) = Ok ()"
    using assms(1) by (auto simp: validate_manifest_def and_then_Ok_iff try_each_Ok_iff)
  show "profile_extends p = Some j \<Longrightarrow> bt_has (em_profiles m) j"
    using checked by (auto simp: validate_manifest_profile_def Let_def and_then_Ok_iff check_Ok_iff)
  show "a \<in> set (profile_assets p) \<Longrightarrow> bt_has (em_assets m) a \<or> bt_has (em_packs m) a"
    using checked by (auto simp: validate_manifest_profile_def Let_def and_then_Ok_iff check_Ok_iff try_each_Ok_iff)
  have "profile_chains_end (em_profiles m)"
    using assms(1) by (simp add: validate_manifest_def and_then_Ok_iff reject_profile_cycles_iff)
  moreover have "i \<in> set (bt_keys (em_profiles m))"
    using assms(2) by (simp add: bt_has_iff[symmetric] bt_has_def)
  ultimately show "chain_ends (em_profiles m) i" by (auto simp: profile_chains_end_def)
qed

lemma line_assets_known:
  assumes "validate_manifest H m = Ok ()" "a \<in> line_assets m i"
  shows "bt_has (em_assets m) a \<or> bt_has (em_packs m) a"
proof -
  obtain k p where "bt_get (em_profiles m) k = Some p" "a \<in> set (profile_assets p)"
    using assms(2) by (auto simp: line_assets_def)
  then show ?thesis using valid_manifest_profiles(2)[OF assms(1)] by blast
qed

section \<open>Properties\<close>

text \<open>C36: Inspecting a pack of a validated manifest never fails and is exact: the components come in key order,
  each once; they are precisely what the pack contains through any number of nested packs; and each one
  carries its current kind and revision, whether the pack holds it directly, and every parent.  An identity
  that is no pack is refused as missing.\<close>

theorem inspect_pack_is_exact:
  assumes "validate_manifest H m = Ok ()"
  shows "case bt_get (em_packs m) i of
      None \<Rightarrow> inspect_pack H m i = Err ''pack.missing''
    | Some p \<Rightarrow> \<exists>cs. inspect_pack H m i = Ok \<lparr>in_pack = p, in_components = cs\<rparr>
        \<and> sorted_wrt (<) (map pk_id cs) \<and> set (map pk_id cs) = {j. pack_contains m i j}
        \<and> list_all (describes_member m [i]) cs"
proof (cases "bt_get (em_packs m) i")
  case None
  then show ?thesis using assms by (simp add: inspect_pack_def)
next
  case (Some p)
  then have "list_all (is_pack m) [i]" by (simp add: is_pack_def)
  moreover have "bs_wf [i]" by (simp add: bs_wf_def)
  ultimately obtain cs where "resolve_pack_components m [i] = Ok cs" "sorted_wrt (<) (map pk_id cs)"
      "set (map pk_id cs) = {j. pack_contains m i j}" "list_all (describes_member m [i]) cs"
    using resolve_pack_components_run[OF assms, of "[i]"] by auto
  then show ?thesis using assms Some by (simp add: inspect_pack_def)
qed

theorem inspect_pack_is_exact_witness:
  "\<exists>cs. inspect_pack sample_digest sample_manifest ''all'' = Ok \<lparr>in_pack = sample_nested_pack ''all'' ''tools'', in_components = cs\<rparr>
     \<and> set (map pk_id cs) = {j. pack_contains sample_manifest ''all'' j}"
  using inspect_pack_is_exact[OF sample_manifest_valid, of "''all''"] unfolding sample_get(4) by auto

text \<open>C37: A profile of a validated manifest always resolves, to exactly the assets that it or an ancestor selects,
  directly or inside a selected pack, and to the targets of the whole line of ancestors.\<close>

theorem resolve_profile_is_exact:
  assumes "validate_manifest H m = Ok ()" "bt_has (em_profiles m) i"
  shows "\<exists>r. resolve_profile H m i = Ok r \<and> rp_profile_id r = i \<and> bs_wf (rp_assets r) \<and> bs_wf (rp_targets r)
    \<and> set (rp_targets r) = line_targets m i
    \<and> set (rp_assets r) = {a. bt_has (em_assets m) a \<and> (a \<in> line_assets m i \<or> (\<exists>k\<in>line_assets m i. pack_contains m k a))}"
proof -
  obtain p where "bt_get (em_profiles m) i = Some p" using assms(2) by (auto simp: bt_has_def)
  then have ends: "chain_ends (em_profiles m) i" using valid_manifest_profiles(3)[OF assms(1)] by blast
  have "\<forall>k p j. bt_get (em_profiles m) k = Some p \<longrightarrow> profile_extends p = Some j \<longrightarrow> bt_has (em_profiles m) j"
    using valid_manifest_profiles(1)[OF assms(1)] by blast
  then obtain selected targets where line: "profile_loop m [] [] [] (Some i) = Ok (selected, targets)"
      "set selected = line_assets m i" "set targets = line_targets m i" "bs_wf selected" "bs_wf targets"
    using profile_loop_run[OF ends assms(2), of "[]" "[]" "[]"] by auto
  have "list_all (\<lambda>i. bt_has (em_assets m) i \<or> bt_has (em_packs m) i) selected"
    using line_assets_known[OF assms(1)] line(2) by (auto simp: list_all_iff)
  then obtain as roots where parts: "try_fold (split_selected m) ([], []) selected = Ok (as, roots)"
      "set as = {i \<in> set selected. bt_has (em_assets m) i}" "set roots = {i \<in> set selected. \<not> bt_has (em_assets m) i}"
      "bs_wf as" "bs_wf roots"
    using split_selected_run[of m selected "[]" "[]"] by auto
  have packs: "list_all (is_pack m) roots"
  proof (unfold list_all_iff, intro ballI)
    fix k assume "k \<in> set roots"
    then have "k \<in> line_assets m i" "\<not> bt_has (em_assets m) k" by (simp_all add: parts(3) line(2))
    then have "bt_has (em_packs m) k" using line_assets_known[OF assms(1)] by blast
    then show "is_pack m k" by (simp add: is_pack_def bt_has_def)
  qed
  obtain leaves where leaves: "resolve_pack_assets H m roots = Ok leaves"
      "set leaves = {j. bt_has (em_assets m) j \<and> (\<exists>r\<in>set roots. pack_contains m r j)}"
    using resolve_pack_assets_run[OF assms(1) parts(5) packs] by blast
  have "is_pack m k" if "pack_contains m k a" for k a using that by cases (simp_all add: is_pack_def)
  then have "\<not> bt_has (em_assets m) k" if "pack_contains m k a" for k a
    using that valid_manifest_disjoint[OF assms(1)] by (auto simp: disjoint_objects_def bt_has_def)
  then have "set as \<union> set leaves = {a. bt_has (em_assets m) a \<and> (a \<in> line_assets m i \<or> (\<exists>k\<in>line_assets m i. pack_contains m k a))}"
    unfolding parts(2) leaves(2) parts(3) line(2) by blast
  then show ?thesis
    using assms(1) line parts(1,4) leaves(1) by (simp add: resolve_profile_def bs_wf_extend)
qed

theorem resolve_profile_is_exact_witness:
  "\<exists>r. resolve_profile sample_digest sample_manifest ''base'' = Ok r \<and> ''run'' \<in> set (rp_assets r) \<and> set (rp_targets r) = {Claude}"
proof -
  have base: "bt_get (em_profiles sample_manifest) ''base'' = Some \<lparr>profile_id = ''base'', profile_extends = None,
      profile_assets = [''all''], profile_targets = [Claude]\<rparr>"
    by (simp add: sample_manifest_def bt_get_def)
  have "pack_contains sample_manifest ''tools'' ''run''"
    by (rule pack_contains.direct[OF sample_get(5)]) (simp add: sample_nested_pack_def bt_keys_def)
  then have "pack_contains sample_manifest ''all'' ''run''"
    by (rule pack_contains.nested[OF sample_get(4), rotated]) (simp add: sample_nested_pack_def bt_keys_def)
  moreover have "line_assets sample_manifest ''base'' = {''all''}" "line_targets sample_manifest ''base'' = {Claude}"
    using line_contents[OF base] by simp_all
  moreover have "bt_has (em_assets sample_manifest) ''run''" by (simp add: bt_has_def sample_get)
  moreover have "bt_has (em_profiles sample_manifest) ''base''" by (simp add: bt_has_def base)
  then obtain r where "resolve_profile sample_digest sample_manifest ''base'' = Ok r"
    "set (rp_targets r) = line_targets sample_manifest ''base''"
    "set (rp_assets r) = {a. bt_has (em_assets sample_manifest) a
      \<and> (a \<in> line_assets sample_manifest ''base'' \<or> (\<exists>k\<in>line_assets sample_manifest ''base''. pack_contains sample_manifest k a))}"
    using resolve_profile_is_exact[OF sample_manifest_valid, of "''base''"] by blast
  ultimately show ?thesis by (intro exI[of _ r]) simp
qed

end
