(* ===== verification/Guarded_Files.thy ===== *)
theory Guarded_Files
  imports Portable_Content
begin

text \<open>
  The control files of \<open>kitrove-core/src/object_mutation.rs\<close> and their guarded replacement, under crashes.
  A store maps portable paths to the bytes of their regular files.  Every durable effect is one step of a
  budget, and a program whose budget is spent stops where it is: a new file may then hold any prefix of its
  text, while renames, exchanges and removals either happened or did not.
\<close>

section \<open>Effects on a store that may crash\<close>

type_synonym text_store = "string \<Rightarrow> string option"

datatype ('e, 'a) outcome = Crashed text_store | Finished nat text_store "'e + 'a"

text \<open>
  The crash point of a run: how many durable effects it completes, and how many bytes the file has that was
  being written then, when it has been created at all.
\<close>

type_synonym ('e, 'a) effect = "nat option \<Rightarrow> nat \<Rightarrow> text_store \<Rightarrow> ('e, 'a) outcome"

definition returning :: "'e + 'a \<Rightarrow> ('e, 'a) effect" where
  "returning r = (\<lambda>torn n s. Finished n s r)"

definition bind_effect :: "('e, 'a) effect \<Rightarrow> ('a \<Rightarrow> ('e, 'b) effect) \<Rightarrow> ('e, 'b) effect" where
  "bind_effect m k = (\<lambda>torn n s. case m torn n s of
       Crashed s' \<Rightarrow> Crashed s'
     | Finished n' s' (Inl e) \<Rightarrow> Finished n' s' (Inl e)
     | Finished n' s' (Inr x) \<Rightarrow> k x torn n' s')"

definition map_effect_err :: "('e \<Rightarrow> 'f) \<Rightarrow> ('e, 'a) effect \<Rightarrow> ('f, 'a) effect" where
  "map_effect_err f m = (\<lambda>torn n s. case m torn n s of
       Crashed s' \<Rightarrow> Crashed s'
     | Finished n' s' (Inl e) \<Rightarrow> Finished n' s' (Inl (f e))
     | Finished n' s' (Inr x) \<Rightarrow> Finished n' s' (Inr x))"

definition durable :: "(text_store \<Rightarrow> text_store) \<Rightarrow> 'a \<Rightarrow> ('e, 'a) effect" where
  "durable f x = (\<lambda>torn n s. case n of 0 \<Rightarrow> Crashed s | Suc n' \<Rightarrow> Finished n' (f s) (Inr x))"

abbreviation failing :: "string \<Rightarrow> (failure, 'a) effect" where
  "failing code \<equiv> returning (Err code)"

abbreviation succeeding :: "'a \<Rightarrow> ('e, 'a) effect" where
  "succeeding x \<equiv> returning (Inr x)"

lemma returning_run: "returning r torn n s = Finished n s r"
  by (simp add: returning_def)

lemma effect_simps [simp]:
  "bind_effect (returning (Inl e)) k = returning (Inl e)"
  "bind_effect (returning (Inr x)) k = k x"
  by (simp_all add: returning_def bind_effect_def fun_eq_iff)

section \<open>Control files\<close>

definition read_text :: "string \<Rightarrow> nat \<Rightarrow> (failure, string option) effect" where
  "read_text path max_bytes = (\<lambda>torn n s. Finished n s
     (case s path of None \<Rightarrow> Ok None
      | Some bytes \<Rightarrow> if length bytes > max_bytes then Err ''object.control_file_invalid''
          else if is_text bytes then Ok (Some bytes) else Err ''object.control_file_invalid''))"

text \<open>A file created and then filled: a crash in between leaves a prefix.\<close>

definition write_new_file :: "string \<Rightarrow> string \<Rightarrow> (failure, unit) effect" where
  "write_new_file path contents = (\<lambda>torn n s. case s path of
       Some _ \<Rightarrow> Finished n s (Err ''object.io'')
     | None \<Rightarrow> (case n of
         0 \<Rightarrow> Crashed (case torn of None \<Rightarrow> s | Some t \<Rightarrow> s(path \<mapsto> take t contents))
       | Suc n' \<Rightarrow> Finished n' (s(path \<mapsto> contents)) (Ok ())))"

definition stage_text :: "string \<Rightarrow> string \<Rightarrow> nat \<Rightarrow> (failure, unit) effect" where
  "stage_text path contents max_bytes =
     bind_effect (read_text path max_bytes) (\<lambda>existing. case existing of
         Some e \<Rightarrow> if e = contents then succeeding () else failing ''object.existing_conflict''
       | None \<Rightarrow> write_new_file path contents)"

text \<open>Renames that never replace, and exchanges: whether they succeeded.\<close>

definition move_noreplace :: "string \<Rightarrow> string \<Rightarrow> ('e, bool) effect" where
  "move_noreplace source destination = (\<lambda>torn n s.
     if s source = None \<or> s destination \<noteq> None then Finished n s (Inr False)
     else durable (\<lambda>s. s(destination := s source, source := None)) True torn n s)"

definition exchange :: "string \<Rightarrow> string \<Rightarrow> ('e, bool) effect" where
  "exchange first second = (\<lambda>torn n s.
     if s first = None \<or> s second = None then Finished n s (Inr False)
     else durable (\<lambda>s. s(first := s second, second := s first)) True torn n s)"

definition remove_regular_file_if_present :: "string \<Rightarrow> ('e, unit) effect" where
  "remove_regular_file_if_present path = (\<lambda>torn n s.
     if s path = None then Finished n s (Inr ()) else durable (\<lambda>s. s(path := None)) () torn n s)"

definition guarded_backup_path :: "string \<Rightarrow> string result" where
  "guarded_backup_path staging_path =
     map_err ''object.invalid_install'' (portable_path_parse (staging_path @ ''.previous''))"

definition require_moved :: "(failure, bool) effect \<Rightarrow> (failure, unit) effect" where
  "require_moved m = bind_effect m (\<lambda>moved. if moved then succeeding () else failing ''object.precondition_failed'')"

definition restore_guarded_backup :: "string \<Rightarrow> string \<Rightarrow> nat \<Rightarrow> (failure, unit) effect" where
  "restore_guarded_backup backup_path destination_path max_bytes =
     bind_effect (read_text destination_path max_bytes) (\<lambda>destination.
       if destination \<noteq> None then failing ''object.precondition_failed''
       else require_moved (move_noreplace backup_path destination_path))"

definition resume_guarded_text_install ::
  "string \<Rightarrow> string \<Rightarrow> string \<Rightarrow> string option \<Rightarrow> string \<Rightarrow> nat \<Rightarrow> (failure, unit) effect" where
  "resume_guarded_text_install staging_path backup_path destination_path expected_current expected_new max_bytes =
     bind_effect (if expected_current = None then succeeding True
         else bind_effect (read_text backup_path max_bytes) (\<lambda>backup. succeeding (backup \<noteq> expected_current))) (\<lambda>refused.
     if refused then failing ''object.precondition_failed''
     else bind_effect (read_text destination_path max_bytes) (\<lambda>destination. case destination of
         Some current \<Rightarrow>
           if current = expected_new then
             bind_effect (remove_regular_file_if_present staging_path) (\<lambda>_. remove_regular_file_if_present backup_path)
           else failing ''object.precondition_failed''
       | None \<Rightarrow>
           bind_effect (require_moved (move_noreplace staging_path destination_path)) (\<lambda>_.
           bind_effect (read_text destination_path max_bytes) (\<lambda>written.
             if written \<noteq> Some expected_new then failing ''object.verification_failed''
             else remove_regular_file_if_present backup_path))))"

text \<open>
  The installation of a staged text.  \<open>exchange_supported\<close> is the platform constant \<open>atomic_exchange_supported\<close>;
  the two hooks of the source do nothing outside its tests.
\<close>

definition install_by_exchange :: "string \<Rightarrow> string \<Rightarrow> string option \<Rightarrow> string \<Rightarrow> nat \<Rightarrow> (failure, unit) effect" where
  "install_by_exchange staging_path destination_path expected_current expected_new max_bytes =
     bind_effect (require_moved (exchange staging_path destination_path)) (\<lambda>_.
     bind_effect (read_text staging_path max_bytes) (\<lambda>displaced.
     if displaced \<noteq> expected_current then
       bind_effect (read_text destination_path max_bytes) (\<lambda>destination.
       bind_effect (if destination = Some expected_new then require_moved (exchange staging_path destination_path)
         else succeeding ()) (\<lambda>_. failing ''object.precondition_failed''))
     else bind_effect (read_text destination_path max_bytes) (\<lambda>destination.
       if destination \<noteq> Some expected_new then failing ''object.verification_failed''
       else remove_regular_file_if_present staging_path)))"

definition install_by_backup :: "string \<Rightarrow> string \<Rightarrow> string \<Rightarrow> string option \<Rightarrow> string \<Rightarrow> nat \<Rightarrow> (failure, unit) effect" where
  "install_by_backup staging_path backup_path destination_path expected_current expected_new max_bytes =
     bind_effect (if expected_current = None then succeeding ()
       else bind_effect (require_moved (move_noreplace destination_path backup_path)) (\<lambda>_.
            bind_effect (read_text backup_path max_bytes) (\<lambda>backup.
              if backup \<noteq> expected_current then
                bind_effect (restore_guarded_backup backup_path destination_path max_bytes) (\<lambda>_. failing ''object.precondition_failed'')
              else succeeding ()))) (\<lambda>_.
     bind_effect (move_noreplace staging_path destination_path) (\<lambda>moved.
     if \<not> moved then
       bind_effect (if expected_current = None then succeeding ()
         else bind_effect (read_text destination_path max_bytes) (\<lambda>destination.
           if destination = None then restore_guarded_backup backup_path destination_path max_bytes else succeeding ()))
         (\<lambda>_. failing ''object.precondition_failed'')
     else bind_effect (read_text destination_path max_bytes) (\<lambda>destination.
       if destination \<noteq> Some expected_new then failing ''object.verification_failed''
       else remove_regular_file_if_present backup_path)))"

definition install_staged_text ::
  "bool \<Rightarrow> string \<Rightarrow> string \<Rightarrow> string option \<Rightarrow> string \<Rightarrow> nat \<Rightarrow> bool \<Rightarrow> (failure, unit) effect" where
  "install_staged_text exchange_supported staging_path destination_path expected_current expected_new max_bytes accept_already_new =
     bind_effect (read_text staging_path max_bytes) (\<lambda>staged.
     if staged \<noteq> Some expected_new then failing ''object.invalid_stage''
     else bind_effect (returning (guarded_backup_path staging_path)) (\<lambda>backup_path.
     bind_effect (read_text backup_path max_bytes) (\<lambda>backup.
     if backup \<noteq> None then
       resume_guarded_text_install staging_path backup_path destination_path expected_current expected_new max_bytes
     else bind_effect (read_text destination_path max_bytes) (\<lambda>current.
       if current = Some expected_new then
         (if \<not> accept_already_new then failing ''object.precondition_failed''
          else remove_regular_file_if_present staging_path)
       else if current \<noteq> expected_current then failing ''object.precondition_failed''
       else if expected_current \<noteq> None \<and> exchange_supported then
         install_by_exchange staging_path destination_path expected_current expected_new max_bytes
       else install_by_backup staging_path backup_path destination_path expected_current expected_new max_bytes))))"

definition install_staged_text_guarded ::
  "bool \<Rightarrow> string \<Rightarrow> string \<Rightarrow> string option \<Rightarrow> string \<Rightarrow> nat \<Rightarrow> (failure, unit) effect" where
  "install_staged_text_guarded exchange_supported staging_path destination_path expected_current expected_new max_bytes =
     install_staged_text exchange_supported staging_path destination_path expected_current expected_new max_bytes True"

definition replace_text_atomically_guarded ::
  "bool \<Rightarrow> string \<Rightarrow> string \<Rightarrow> string option \<Rightarrow> string \<Rightarrow> nat \<Rightarrow> (failure, unit) effect" where
  "replace_text_atomically_guarded exchange_supported staging_path destination_path expected_current contents max_bytes =
     bind_effect (stage_text staging_path contents max_bytes) (\<lambda>_.
       install_staged_text_guarded exchange_supported staging_path destination_path expected_current contents max_bytes)"

end
