(* ===== verification/Guarded_Journals.thy ===== *)
theory Guarded_Journals
  imports Guarded_Files
begin

text \<open>
  \<open>kitrove-core/src/guarded_journal.rs\<close>: reading and repairing a journal kept in a live file, a pending file
  and the backup of an interrupted replacement.  The parser, the transition relation and the error of the
  journal are arguments, as in the source.
\<close>

datatype guarded_journal_error = Storage | Authority failure

datatype 'j journal_expectation = Absent | Present 'j

definition expectation_from_option :: "'j option \<Rightarrow> 'j journal_expectation" where
  "expectation_from_option value = (case value of Some j \<Rightarrow> Present j | None \<Rightarrow> Absent)"

definition expectation_is_absent :: "'j journal_expectation \<Rightarrow> bool" where
  "expectation_is_absent e = (case e of Absent \<Rightarrow> True | Present _ \<Rightarrow> False)"

fun expectation_matches :: "'j journal_expectation \<Rightarrow> 'j option \<Rightarrow> bool" where
  "expectation_matches Absent None = True"
| "expectation_matches (Present expected) (Some actual) = (expected = actual)"
| "expectation_matches Absent (Some _) = False"
| "expectation_matches (Present _) None = False"

record guarded_journal_texts =
  gt_current :: "string option"
  gt_pending :: "string option"
  gt_backup :: "string option"

abbreviation storage :: "(failure, 'a) effect \<Rightarrow> (guarded_journal_error, 'a) effect" where
  "storage \<equiv> map_effect_err (\<lambda>_. Storage)"

definition authority :: "'a result \<Rightarrow> (guarded_journal_error, 'a) effect" where
  "authority r = returning (case r of Inl e \<Rightarrow> Inl (Authority e) | Inr x \<Rightarrow> Inr x)"

definition read_texts :: "string \<Rightarrow> string \<Rightarrow> nat \<Rightarrow> (guarded_journal_error, guarded_journal_texts) effect" where
  "read_texts live_path pending_path max_bytes =
     bind_effect (storage (returning (guarded_backup_path pending_path))) (\<lambda>backup_path.
     bind_effect (storage (read_text live_path max_bytes)) (\<lambda>current.
     bind_effect (storage (read_text pending_path max_bytes)) (\<lambda>pending.
     bind_effect (storage (read_text backup_path max_bytes)) (\<lambda>backup.
       succeeding \<lparr>gt_current = current, gt_pending = pending, gt_backup = backup\<rparr>))))"

definition require_transition :: "('j \<Rightarrow> 'j \<Rightarrow> bool) \<Rightarrow> string \<Rightarrow> 'j \<Rightarrow> 'j \<Rightarrow> (guarded_journal_error, unit) effect" where
  "require_transition valid_transition invalid old next_j =
     (if valid_transition old next_j then succeeding () else authority (Err invalid))"

definition inspect_journal ::
  "string \<Rightarrow> string \<Rightarrow> nat \<Rightarrow> (string \<Rightarrow> 'j result) \<Rightarrow> ('j \<Rightarrow> 'j \<Rightarrow> bool) \<Rightarrow> string
   \<Rightarrow> (guarded_journal_error, 'j option) effect" where
  "inspect_journal live_path pending_path max_bytes parse valid_transition invalid =
     bind_effect (read_texts live_path pending_path max_bytes) (\<lambda>texts. case gt_backup texts of
         Some backup \<Rightarrow> bind_effect (authority (parse backup)) (\<lambda>old.
           case (gt_current texts, gt_pending texts) of
             (None, pending) \<Rightarrow>
               bind_effect (case pending of Some text \<Rightarrow> bind_effect (authority (parse text)) (\<lambda>next_j.
                     require_transition valid_transition invalid old next_j)
                 | None \<Rightarrow> succeeding ()) (\<lambda>_. succeeding (Some old))
           | (Some text, None) \<Rightarrow> bind_effect (authority (parse text)) (\<lambda>next_j.
               bind_effect (require_transition valid_transition invalid old next_j) (\<lambda>_. succeeding (Some next_j)))
           | (Some _, Some _) \<Rightarrow> authority (Err invalid))
       | None \<Rightarrow> (case (gt_current texts, gt_pending texts) of
             (None, Some text) \<Rightarrow> bind_effect (authority (parse text)) (\<lambda>next_j. succeeding (Some next_j))
           | (Some old_text, Some text) \<Rightarrow>
               bind_effect (authority (parse old_text)) (\<lambda>old.
               bind_effect (authority (parse text)) (\<lambda>next_j.
                 if valid_transition old next_j then succeeding (Some next_j)
                 else if valid_transition next_j old then succeeding (Some old)
                 else authority (Err invalid)))
           | (Some current, None) \<Rightarrow> bind_effect (authority (parse current)) (\<lambda>j. succeeding (Some j))
           | (None, None) \<Rightarrow> succeeding None))"

definition reconcile_journal ::
  "bool \<Rightarrow> string \<Rightarrow> string \<Rightarrow> nat \<Rightarrow> (string \<Rightarrow> 'j result) \<Rightarrow> ('j \<Rightarrow> 'j \<Rightarrow> bool) \<Rightarrow> string
   \<Rightarrow> (guarded_journal_error, unit) effect" where
  "reconcile_journal exchange_supported live_path pending_path max_bytes parse valid_transition invalid =
     bind_effect (read_texts live_path pending_path max_bytes) (\<lambda>texts.
     bind_effect (storage (returning (guarded_backup_path pending_path))) (\<lambda>backup_path. case gt_backup texts of
         Some backup \<Rightarrow> bind_effect (authority (parse backup)) (\<lambda>old.
           case (gt_current texts, gt_pending texts) of
             (None, pending) \<Rightarrow>
               bind_effect (case pending of Some text \<Rightarrow> bind_effect (authority (parse text)) (\<lambda>next_j.
                     require_transition valid_transition invalid old next_j)
                 | None \<Rightarrow> succeeding ()) (\<lambda>_.
               bind_effect (storage (restore_guarded_backup backup_path live_path max_bytes)) (\<lambda>_.
                 storage (remove_regular_file_if_present pending_path)))
           | (Some text, None) \<Rightarrow> bind_effect (authority (parse text)) (\<lambda>next_j.
               bind_effect (require_transition valid_transition invalid old next_j) (\<lambda>_.
                 storage (remove_regular_file_if_present backup_path)))
           | (Some _, Some _) \<Rightarrow> authority (Err invalid))
       | None \<Rightarrow> (case (gt_current texts, gt_pending texts) of
             (None, Some text) \<Rightarrow> bind_effect (authority (parse text)) (\<lambda>_.
               storage (install_staged_text_guarded exchange_supported pending_path live_path None text max_bytes))
           | (Some old_text, Some text) \<Rightarrow>
               bind_effect (authority (parse old_text)) (\<lambda>old.
               bind_effect (authority (parse text)) (\<lambda>next_j.
                 if valid_transition old next_j then
                   storage (install_staged_text_guarded exchange_supported pending_path live_path (Some old_text) text max_bytes)
                 else if valid_transition next_j old then storage (remove_regular_file_if_present pending_path)
                 else authority (Err invalid)))
           | (Some current, None) \<Rightarrow> bind_effect (authority (parse current)) (\<lambda>_. succeeding ())
           | (None, None) \<Rightarrow> succeeding ())))"

end
