(* ===== verification/Batch_Digests.thy ===== *)
theory Batch_Digests
  imports Framing Portable_Content "HOL-Library.Word"
begin

text \<open>
  The identity of an atomic apply batch: the tags and records of \<open>kitrove-core/src/apply_batch.rs\<close> that
  \<open>derive_batch_digest_from_authority\<close> hashes.
\<close>

definition MAX_BATCH_PARTICIPANTS :: nat where "MAX_BATCH_PARTICIPANTS = 4096"
definition SKILL_BATCH_ITEM_TAG :: nat where "SKILL_BATCH_ITEM_TAG = 0"
definition EXTENSION_BATCH_ITEM_TAG :: nat where "EXTENSION_BATCH_ITEM_TAG = 1"
definition INSTRUCTION_BATCH_ITEM_TAG :: nat where "INSTRUCTION_BATCH_ITEM_TAG = 2"
definition PROMPT_COMMAND_BATCH_ITEM_TAG :: nat where "PROMPT_COMMAND_BATCH_ITEM_TAG = 3"
definition AGENT_BATCH_ITEM_TAG :: nat where "AGENT_BATCH_ITEM_TAG = 4"
definition MCP_BATCH_ITEM_TAG :: nat where "MCP_BATCH_ITEM_TAG = 5"
definition INSTALL_DISPOSITION_TAG :: nat where "INSTALL_DISPOSITION_TAG = 0"
definition NO_OP_DISPOSITION_TAG :: nat where "NO_OP_DISPOSITION_TAG = 1"
definition RESTORE_DISPOSITION_TAG :: nat where "RESTORE_DISPOSITION_TAG = 2"
definition MANAGED_UPDATE_DISPOSITION_TAG :: nat where "MANAGED_UPDATE_DISPOSITION_TAG = 3"
definition REMOVE_DISPOSITION_TAG :: nat where "REMOVE_DISPOSITION_TAG = 4"
definition STANDALONE_EXTENSION_LAYOUT_TAG :: nat where "STANDALONE_EXTENSION_LAYOUT_TAG = 0"
definition DIRECTORY_EXTENSION_LAYOUT_TAG :: nat where "DIRECTORY_EXTENSION_LAYOUT_TAG = 1"

lemmas batch_tag_defs = SKILL_BATCH_ITEM_TAG_def EXTENSION_BATCH_ITEM_TAG_def INSTRUCTION_BATCH_ITEM_TAG_def
  PROMPT_COMMAND_BATCH_ITEM_TAG_def AGENT_BATCH_ITEM_TAG_def MCP_BATCH_ITEM_TAG_def INSTALL_DISPOSITION_TAG_def
  NO_OP_DISPOSITION_TAG_def RESTORE_DISPOSITION_TAG_def MANAGED_UPDATE_DISPOSITION_TAG_def REMOVE_DISPOSITION_TAG_def
  STANDALONE_EXTENSION_LAYOUT_TAG_def DIRECTORY_EXTENSION_LAYOUT_TAG_def

record batch_extension_authority =
  be_layout_tag :: nat
  be_old_layout_tag :: "nat option"
  be_native_id :: string

record batch_exact_file_authority =
  bf_unix_mode :: "32 word option"
  bf_readonly :: bool
  bf_max_bytes :: nat

record batch_digest_item =
  bi_kind_tag :: nat
  bi_asset_id :: string
  bi_destination :: string
  bi_relative_destination :: string
  bi_plan_digest :: string
  bi_disposition_tag :: nat
  bi_old_target_hash :: "string option"
  bi_new_target_hash :: string
  bi_extension :: "batch_extension_authority option"
  bi_exact_file :: "batch_exact_file_authority option"

text \<open>A byte of \<open>update(&[tag])\<close>.\<close>

definition write_tag :: "nat \<Rightarrow> string" where
  "write_tag tag = [char_of tag]"

definition write_optional_tag :: "nat option \<Rightarrow> string" where
  "write_optional_tag tag = (case tag of Some t \<Rightarrow> write_tag 1 @ write_tag t | None \<Rightarrow> write_tag 0)"

definition write_extension_authority :: "batch_extension_authority option \<Rightarrow> string" where
  "write_extension_authority extension = (case extension of
       Some e \<Rightarrow> write_tag 1 @ write_tag (be_layout_tag e) @ write_optional_tag (be_old_layout_tag e) @ write_text_record (be_native_id e)
     | None \<Rightarrow> write_tag 0)"

definition EXACT_FILE_MARK :: string where
  "EXACT_FILE_MARK = ''exact-file-authority-v1'' @ [CHR 0x00]"

definition write_exact_file :: "batch_exact_file_authority \<Rightarrow> string" where
  "write_exact_file f = EXACT_FILE_MARK @ write_tag (if bf_readonly f then 1 else 0)
     @ (case bf_unix_mode f of Some mode \<Rightarrow> write_tag 1 @ be_bytes 4 (unat mode) | None \<Rightarrow> write_tag 0)
     @ write_count (bf_max_bytes f)"

definition write_batch_item :: "batch_digest_item \<Rightarrow> string" where
  "write_batch_item i = write_tag (bi_kind_tag i) @ write_tag (bi_disposition_tag i)
     @ concat (map write_text_record [bi_asset_id i, bi_destination i, bi_relative_destination i, bi_plan_digest i, bi_new_target_hash i])
     @ write_optional_text (bi_old_target_hash i)
     @ write_extension_authority (bi_extension i)
     @ (case bi_exact_file i of Some f \<Rightarrow> write_exact_file f | None \<Rightarrow> [])"

definition batch_preimage :: "batch_digest_item list \<Rightarrow> string \<Rightarrow> string \<Rightarrow> string \<Rightarrow> string option \<Rightarrow> string" where
  "batch_preimage items manifest_revision observed_state_hash proposed_state_hash active_profile =
     ''kitrove-atomic-apply-batch-v3'' @ [CHR 0x00]
     @ write_text_record manifest_revision @ write_text_record observed_state_hash @ write_text_record proposed_state_hash
     @ write_optional_text active_profile
     @ write_count (length items) @ concat (map write_batch_item items)"

definition derive_batch_digest_from_authority ::
  "(string \<Rightarrow> string) \<Rightarrow> batch_digest_item list \<Rightarrow> string \<Rightarrow> string \<Rightarrow> string \<Rightarrow> string option \<Rightarrow> string result" where
  "derive_batch_digest_from_authority H items manifest_revision observed_state_hash proposed_state_hash active_profile =
     map_err ''apply.batch_digest_failed''
       (content_hash_parse (''blake3:'' @ H (batch_preimage items manifest_revision observed_state_hash proposed_state_hash active_profile)))"

end
