(* ===== verification/Apply_Batch_Journals.thy ===== *)
theory Apply_Batch_Journals
  imports Guarded_Journals Batch_Digests Native_Extensions "HOL-Library.Product_Lexorder"
begin

text \<open>
  \<open>kitrove-core/src/apply_batch_journal.rs\<close>: the durable journal of an atomic apply batch.  The JSON codec is
  a parameter; the plans of the items are views, since each kind of item has a planner of its own.  Permission
  modes are those of \<open>read_only_fs.rs\<close> on Unix.
\<close>

unbundle bit_operations_syntax

section \<open>Data\<close>

definition BATCH_JOURNAL_SCHEMA_VERSION :: nat where "BATCH_JOURNAL_SCHEMA_VERSION = 6"

definition MAX_BATCH_JOURNAL_BYTES :: nat where "MAX_BATCH_JOURNAL_BYTES = 8 * 1024 * 1024"

datatype apply_batch_phase =
    Preparing | PhasePrepared | QuarantiningOldTargets | OldTargetsQuarantined | CommittingNewTargets
  | NewTargetsCommitted | StateCommitted | PhaseVerified | RollingBack | PhaseRolledBack

datatype participant_kind = KindSkill | KindExtension | KindInstruction | KindPromptCommand | KindAgent | KindMcp

definition kind_digest_tag :: "participant_kind \<Rightarrow> nat" where
  "kind_digest_tag k = (case k of
       KindSkill \<Rightarrow> SKILL_BATCH_ITEM_TAG
     | KindExtension \<Rightarrow> EXTENSION_BATCH_ITEM_TAG
     | KindInstruction \<Rightarrow> INSTRUCTION_BATCH_ITEM_TAG
     | KindPromptCommand \<Rightarrow> PROMPT_COMMAND_BATCH_ITEM_TAG
     | KindAgent \<Rightarrow> AGENT_BATCH_ITEM_TAG
     | KindMcp \<Rightarrow> MCP_BATCH_ITEM_TAG)"

text \<open>\<open>StoredExtensionLayout\<close> has the constructors of \<open>NativeExtensionLayout\<close> and converts by name.\<close>

definition layout_digest_tag :: "native_extension_layout \<Rightarrow> nat" where
  "layout_digest_tag l = (case l of
       StandaloneExtension \<Rightarrow> STANDALONE_EXTENSION_LAYOUT_TAG
     | DirectoryExtension \<Rightarrow> DIRECTORY_EXTENSION_LAYOUT_TAG)"

record stored_extension_authority =
  xa_layout :: native_extension_layout
  xa_old_layout :: "native_extension_layout option"
  xa_entrypoint :: string
  xa_native_id :: string

record regular_file_mode =
  rm_unix_mode :: "32 word option"
  rm_readonly :: bool

definition mode_is_valid_for_platform :: "regular_file_mode \<Rightarrow> bool" where
  "mode_is_valid_for_platform m = (case rm_unix_mode m of
       Some mode \<Rightarrow> mode \<le> 0x1FF \<and> rm_readonly m = (mode AND 0x92 = 0)
     | None \<Rightarrow> False)"

record stored_exact_file_authority =
  xf_mode :: regular_file_mode
  xf_max_bytes :: nat

datatype stored_disposition = Install | NoOp | Restore | ManagedUpdate | Remove

definition disposition_digest_tag :: "stored_disposition \<Rightarrow> nat" where
  "disposition_digest_tag d = (case d of
       Install \<Rightarrow> INSTALL_DISPOSITION_TAG
     | NoOp \<Rightarrow> NO_OP_DISPOSITION_TAG
     | Restore \<Rightarrow> RESTORE_DISPOSITION_TAG
     | ManagedUpdate \<Rightarrow> MANAGED_UPDATE_DISPOSITION_TAG
     | Remove \<Rightarrow> REMOVE_DISPOSITION_TAG)"

definition requires_quarantine :: "stored_disposition \<Rightarrow> bool" where
  "requires_quarantine d \<longleftrightarrow> d \<in> {ManagedUpdate, Remove}"

datatype participant_progress =
    Unstaged | StagingPending | Prepared | QuarantinePending | Quarantined | CommitPending | Committed
  | Verified | RemovePending | Removed | RestorePending | RolledBack

record batch_participant =
  bp_index :: nat
  bp_kind :: participant_kind
  bp_progress :: participant_progress
  bp_disposition :: stored_disposition
  bp_plan_digest :: string
  bp_asset_id :: string
  bp_target_anchor :: string
  bp_destination :: string
  bp_relative_destination :: string
  bp_staging_target :: string
  bp_backup_target :: string
  bp_old_target_hash :: "string option"
  bp_new_target_hash :: string
  bp_extension :: "stored_extension_authority option"
  bp_exact_file :: "stored_exact_file_authority option"

record batch_journal =
  bj_schema_version :: nat
  bj_phase :: apply_batch_phase
  bj_batch_digest :: string
  bj_manifest_revision :: string
  bj_active_profile :: "string option"
  bj_staging_state :: string
  bj_old_state_hash :: string
  bj_new_state_hash :: string
  bj_participants :: "batch_participant list"

section \<open>Transitions\<close>

definition valid_phase_transition :: "apply_batch_phase \<Rightarrow> apply_batch_phase \<Rightarrow> bool" where
  "valid_phase_transition old next_p \<longleftrightarrow> (old, next_p) \<in>
     {(Preparing, PhasePrepared), (PhasePrepared, QuarantiningOldTargets), (QuarantiningOldTargets, OldTargetsQuarantined),
      (OldTargetsQuarantined, CommittingNewTargets), (CommittingNewTargets, NewTargetsCommitted),
      (NewTargetsCommitted, StateCommitted), (StateCommitted, PhaseVerified),
      (Preparing, RollingBack), (PhasePrepared, RollingBack), (QuarantiningOldTargets, RollingBack),
      (OldTargetsQuarantined, RollingBack), (CommittingNewTargets, RollingBack), (NewTargetsCommitted, RollingBack),
      (RollingBack, PhaseRolledBack)}"

definition valid_rollback_transition :: "stored_disposition \<Rightarrow> participant_progress \<Rightarrow> participant_progress \<Rightarrow> bool" where
  "valid_rollback_transition disposition old next_p =
     (if old \<in> {Unstaged, StagingPending, Prepared} \<and> next_p = RolledBack then True
      else if (old, next_p) \<in> {(CommitPending, RemovePending), (RemovePending, Removed), (Committed, RemovePending)} then disposition \<noteq> NoOp
      else if (old, next_p) = (QuarantinePending, RolledBack) then requires_quarantine disposition
      else if (old, next_p) \<in> {(QuarantinePending, RestorePending), (Quarantined, RestorePending), (RestorePending, RolledBack)} then requires_quarantine disposition
      else if (old, next_p) \<in> {(CommitPending, RestorePending), (Committed, RestorePending)} then disposition = Remove
      else if (old, next_p) = (CommitPending, RolledBack) then disposition \<in> {Install, Restore}
      else if (old, next_p) = (Committed, RolledBack) then disposition = NoOp
      else if (old, next_p) = (Removed, RestorePending) then disposition = ManagedUpdate
      else if (old, next_p) = (Removed, RolledBack) then disposition \<noteq> ManagedUpdate
      else False)"

definition valid_participant_transition ::
  "apply_batch_phase \<Rightarrow> stored_disposition \<Rightarrow> participant_progress \<Rightarrow> participant_progress \<Rightarrow> bool" where
  "valid_participant_transition phase disposition old next_p = (case phase of
       Preparing \<Rightarrow> (old, next_p) \<in> {(Unstaged, StagingPending), (StagingPending, Prepared)}
     | QuarantiningOldTargets \<Rightarrow>
         (old, next_p) \<in> {(Prepared, QuarantinePending), (QuarantinePending, Quarantined)} \<and> requires_quarantine disposition
     | CommittingNewTargets \<Rightarrow>
         (old, next_p) \<in> {(Prepared, CommitPending), (Quarantined, CommitPending), (CommitPending, Committed)}
         \<or> (disposition = NoOp \<and> old = Prepared \<and> next_p = Committed)
     | StateCommitted \<Rightarrow> old = Committed \<and> next_p = Verified
     | RollingBack \<Rightarrow> valid_rollback_transition disposition old next_p
     | PhasePrepared \<Rightarrow> False | OldTargetsQuarantined \<Rightarrow> False | NewTargetsCommitted \<Rightarrow> False
     | PhaseVerified \<Rightarrow> False | PhaseRolledBack \<Rightarrow> False)"

definition transition_phase :: "batch_journal \<Rightarrow> apply_batch_phase \<Rightarrow> batch_journal result" where
  "transition_phase j next_p =
     (if \<not> valid_phase_transition (bj_phase j) next_p then Err ''apply.batch_journal_invalid''
      else Ok (j\<lparr>bj_phase := next_p\<rparr>))"

definition transition_participant :: "batch_journal \<Rightarrow> nat \<Rightarrow> participant_progress \<Rightarrow> batch_journal result" where
  "transition_participant j index next_p =
     (if \<not> index < length (bj_participants j) then Err ''apply.batch_journal_invalid''
      else let p = bj_participants j ! index
           in if \<not> valid_participant_transition (bj_phase j) (bp_disposition p) (bp_progress p) next_p
              then Err ''apply.batch_journal_invalid''
              else Ok (j\<lparr>bj_participants := (bj_participants j)[index := p\<lparr>bp_progress := next_p\<rparr>]\<rparr>))"

text \<open>Clone \<open>old\<close>, copy the phase and the progresses from \<open>next\<close>, and compare.\<close>

definition same_transition_authority :: "batch_journal \<Rightarrow> batch_journal \<Rightarrow> bool" where
  "same_transition_authority old next_j \<longleftrightarrow>
     old\<lparr>bj_phase := bj_phase next_j,
         bj_participants := map (\<lambda>(p, q). p\<lparr>bp_progress := bp_progress q\<rparr>) (zip (bj_participants old) (bj_participants next_j))
           @ drop (length (bj_participants next_j)) (bj_participants old)\<rparr> = next_j"

definition valid_journal_transition :: "batch_journal \<Rightarrow> batch_journal \<Rightarrow> bool" where
  "valid_journal_transition old next_j =
     (if \<not> same_transition_authority old next_j then False
      else if bj_phase old \<noteq> bj_phase next_j then
        list_all (\<lambda>(p, q). bp_progress p = bp_progress q) (zip (bj_participants old) (bj_participants next_j))
        \<and> valid_phase_transition (bj_phase old) (bj_phase next_j)
      else case filter (\<lambda>(p, q). bp_progress p \<noteq> bp_progress q) (zip (bj_participants old) (bj_participants next_j)) of
          [] \<Rightarrow> False
        | (p, q) # changes \<Rightarrow> changes = []
            \<and> valid_participant_transition (bj_phase old) (bp_disposition p) (bp_progress p) (bp_progress q))"

section \<open>Validation\<close>

definition valid_old_extension_layout :: "batch_participant \<Rightarrow> stored_extension_authority \<Rightarrow> bool" where
  "valid_old_extension_layout p e = (case bp_old_target_hash p of
       Some _ \<Rightarrow> xa_old_layout e = Some (xa_layout e)
     | None \<Rightarrow> xa_old_layout e = None)"

definition DEFAULT_MAX_INSTRUCTION_DOCUMENT_BYTES :: nat where "DEFAULT_MAX_INSTRUCTION_DOCUMENT_BYTES = 1024 * 1024"
definition MAX_PROMPT_COMMAND_DOCUMENT_BYTES :: nat where "MAX_PROMPT_COMMAND_DOCUMENT_BYTES = 512 * 1024"
definition MAX_AGENT_DOCUMENT_BYTES :: nat where "MAX_AGENT_DOCUMENT_BYTES = 512 * 1024"
definition MAX_MCP_DOCUMENT_BYTES :: nat where "MAX_MCP_DOCUMENT_BYTES = 1024 * 1024"

definition valid_exact_file :: "nat \<Rightarrow> stored_exact_file_authority \<Rightarrow> bool" where
  "valid_exact_file limit f \<longleftrightarrow> mode_is_valid_for_platform (xf_mode f) \<and> xf_max_bytes f > 0 \<and> xf_max_bytes f \<le> limit"

definition valid_kind_authority :: "batch_participant \<Rightarrow> bool" where
  "valid_kind_authority p = (case (bp_kind p, bp_extension p, bp_exact_file p) of
       (KindSkill, None, None) \<Rightarrow> True
     | (KindExtension, Some e, None) \<Rightarrow>
         CHR ''/'' \<in> set (bp_relative_destination p)
         \<and> valid_native_extension_identity (xa_layout e) (xa_entrypoint e) (xa_native_id e)
             (last (split_on CHR ''/'' (bp_relative_destination p)))
         \<and> valid_old_extension_layout p e
     | (KindInstruction, None, Some f) \<Rightarrow> valid_exact_file (DEFAULT_MAX_INSTRUCTION_DOCUMENT_BYTES + 1) f
     | (KindPromptCommand, None, Some f) \<Rightarrow> valid_exact_file MAX_PROMPT_COMMAND_DOCUMENT_BYTES f
     | (KindAgent, None, Some f) \<Rightarrow> valid_exact_file MAX_AGENT_DOCUMENT_BYTES f
     | (KindMcp, None, Some f) \<Rightarrow> valid_exact_file (MAX_MCP_DOCUMENT_BYTES + 1) f
     | _ \<Rightarrow> False)"

definition participant_order_key :: "batch_participant \<Rightarrow> string \<times> string \<times> nat \<times> string" where
  "participant_order_key p = (bp_destination p, bp_asset_id p, kind_digest_tag (bp_kind p), bp_plan_digest p)"

definition absent_target_hash :: "(string \<Rightarrow> string) \<Rightarrow> string" where
  "absent_target_hash H = content_hash_digest H ''kitrove-absent-target-v1''"

definition valid_hash_authority :: "(string \<Rightarrow> string) \<Rightarrow> batch_participant \<Rightarrow> bool" where
  "valid_hash_authority H p = (case bp_disposition p of
       Install \<Rightarrow> bp_old_target_hash p = None
     | Restore \<Rightarrow> bp_old_target_hash p = None
     | NoOp \<Rightarrow> bp_old_target_hash p = Some (bp_new_target_hash p)
     | ManagedUpdate \<Rightarrow> (case bp_old_target_hash p of Some old \<Rightarrow> old \<noteq> bp_new_target_hash p | None \<Rightarrow> False)
     | Remove \<Rightarrow> bp_kind p \<in> {KindSkill, KindExtension, KindPromptCommand, KindAgent}
         \<and> bp_old_target_hash p \<noteq> None \<and> bp_new_target_hash p = absent_target_hash H)"

definition valid_rollback_progress :: "batch_participant \<Rightarrow> bool" where
  "valid_rollback_progress p = (case bp_disposition p of
       ManagedUpdate \<Rightarrow> bp_progress p \<in> {Unstaged, StagingPending, Prepared, QuarantinePending, Quarantined, CommitPending,
         Committed, RemovePending, Removed, RestorePending, RolledBack}
     | Remove \<Rightarrow> bp_progress p \<in> {Unstaged, StagingPending, Prepared, QuarantinePending, Quarantined, CommitPending,
         Committed, RestorePending, RolledBack}
     | Install \<Rightarrow> bp_progress p \<in> {Unstaged, StagingPending, Prepared, CommitPending, Committed, RemovePending, Removed, RolledBack}
     | Restore \<Rightarrow> bp_progress p \<in> {Unstaged, StagingPending, Prepared, CommitPending, Committed, RemovePending, Removed, RolledBack}
     | NoOp \<Rightarrow> bp_progress p \<in> {Unstaged, StagingPending, Prepared, Committed, RolledBack})"

definition valid_progress :: "apply_batch_phase \<Rightarrow> batch_participant \<Rightarrow> bool" where
  "valid_progress phase p = (case phase of
       Preparing \<Rightarrow> bp_progress p \<in> {Unstaged, StagingPending, Prepared}
     | PhasePrepared \<Rightarrow> bp_progress p = Prepared
     | QuarantiningOldTargets \<Rightarrow> bp_progress p \<in> {Prepared, QuarantinePending, Quarantined}
     | OldTargetsQuarantined \<Rightarrow> (case bp_progress p of
           Quarantined \<Rightarrow> requires_quarantine (bp_disposition p)
         | Prepared \<Rightarrow> \<not> requires_quarantine (bp_disposition p)
         | _ \<Rightarrow> False)
     | CommittingNewTargets \<Rightarrow> bp_progress p \<in> {Prepared, Quarantined, CommitPending, Committed}
     | NewTargetsCommitted \<Rightarrow> bp_progress p \<in> {Committed, Verified}
     | StateCommitted \<Rightarrow> bp_progress p \<in> {Committed, Verified}
     | PhaseVerified \<Rightarrow> bp_progress p = Verified
     | RollingBack \<Rightarrow> valid_rollback_progress p
     | PhaseRolledBack \<Rightarrow> bp_progress p = RolledBack)"

definition raw_digest :: "string \<Rightarrow> string result" where
  "raw_digest digest = ok_or ''apply.batch_journal_invalid'' (strip_prefix ''blake3:'' digest)"

definition joined_destination :: "string \<Rightarrow> string \<Rightarrow> string result" where
  "joined_destination anchor relative = map_err ''apply.batch_journal_invalid'' (destination_join_portable anchor relative)"

definition expected_state_path :: "string \<Rightarrow> string result" where
  "expected_state_path digest = bind_result (raw_digest digest) (\<lambda>raw.
     map_err ''apply.batch_journal_invalid'' (portable_path_parse (''.kitrove/atomic-apply/'' @ raw @ ''/state.json'')))"

text \<open>\<open>{index:04}\<close>: decimal digits, padded with zeros to four.\<close>

definition padded_index :: "nat \<Rightarrow> string" where
  "padded_index index = (let digits = show_nat index in replicate (4 - length digits) CHR ''0'' @ digits)"

definition expected_participant_path :: "string \<Rightarrow> nat \<Rightarrow> string \<Rightarrow> string \<Rightarrow> string result" where
  "expected_participant_path digest index role destination =
     (let leaf = path_basename destination
      in if leaf = [] then Err ''apply.batch_journal_invalid''
         else bind_result (raw_digest digest) (\<lambda>raw. map_err ''apply.batch_journal_invalid''
           (portable_path_parse (''.kitrove/atomic-apply/'' @ raw @ ''/'' @ padded_index index @ ''/'' @ role @ ''/'' @ leaf))))"

text \<open>The checks of one participant; the two sets hold the destinations and plan digests seen before it.\<close>

definition check_participant ::
  "(string \<Rightarrow> string) \<Rightarrow> batch_journal \<Rightarrow> string btree_set \<times> string btree_set \<Rightarrow> nat \<times> batch_participant
   \<Rightarrow> (string btree_set \<times> string btree_set) result" where
  "check_participant H j seen e =
     (case seen of (destinations, plan_digests) \<Rightarrow> case e of (index, p) \<Rightarrow>
       if index \<ge> 2 ^ 32 then Err ''apply.batch_journal_invalid''
       else if bp_index p \<noteq> index \<or> bs_has destinations (bp_destination p) \<or> bs_has plan_digests (bp_plan_digest p)
       then Err ''apply.batch_journal_invalid''
       else bind_result (joined_destination (bp_target_anchor p) (bp_relative_destination p)) (\<lambda>destination.
       if bp_destination p \<noteq> destination then Err ''apply.batch_journal_invalid''
       else bind_result (expected_participant_path (bj_batch_digest j) index ''target'' (bp_relative_destination p)) (\<lambda>target.
       if bp_staging_target p \<noteq> target then Err ''apply.batch_journal_invalid''
       else bind_result (expected_participant_path (bj_batch_digest j) index ''backup'' (bp_relative_destination p)) (\<lambda>backup.
       if bp_backup_target p \<noteq> backup \<or> starts_with ''.kitrove/'' (bp_relative_destination p)
         \<or> \<not> valid_kind_authority p \<or> \<not> valid_hash_authority H p \<or> \<not> valid_progress (bj_phase j) p
       then Err ''apply.batch_journal_invalid''
       else Ok (bs_insert (bp_destination p) destinations, bs_insert (bp_plan_digest p) plan_digests)))))"

definition participant_digest_item :: "batch_participant \<Rightarrow> batch_digest_item" where
  "participant_digest_item p =
     \<lparr>bi_kind_tag = kind_digest_tag (bp_kind p), bi_asset_id = bp_asset_id p, bi_destination = bp_destination p,
      bi_relative_destination = bp_relative_destination p, bi_plan_digest = bp_plan_digest p,
      bi_disposition_tag = disposition_digest_tag (bp_disposition p),
      bi_old_target_hash = bp_old_target_hash p, bi_new_target_hash = bp_new_target_hash p,
      bi_extension = map_option (\<lambda>e. \<lparr>be_layout_tag = layout_digest_tag (xa_layout e),
        be_old_layout_tag = map_option layout_digest_tag (xa_old_layout e), be_native_id = xa_native_id e\<rparr>) (bp_extension p),
      bi_exact_file = map_option (\<lambda>f. \<lparr>bf_unix_mode = rm_unix_mode (xf_mode f), bf_readonly = rm_readonly (xf_mode f),
        bf_max_bytes = xf_max_bytes f\<rparr>) (bp_exact_file p)\<rparr>"

definition batch_authority_digest :: "(string \<Rightarrow> string) \<Rightarrow> batch_journal \<Rightarrow> string result" where
  "batch_authority_digest H j = map_err ''apply.batch_journal_invalid''
     (derive_batch_digest_from_authority H (map participant_digest_item (bj_participants j)) (bj_manifest_revision j)
        (bj_old_state_hash j) (bj_new_state_hash j) (bj_active_profile j))"

definition validate_journal :: "(string \<Rightarrow> string) \<Rightarrow> batch_journal \<Rightarrow> unit result" where
  "validate_journal H j =
     (if bj_schema_version j \<noteq> BATCH_JOURNAL_SCHEMA_VERSION \<or> bj_participants j = []
         \<or> length (bj_participants j) > MAX_BATCH_PARTICIPANTS
      then Err ''apply.batch_journal_invalid''
      else bind_result (expected_state_path (bj_batch_digest j)) (\<lambda>staging_state.
      if bj_staging_state j \<noteq> staging_state then Err ''apply.batch_journal_invalid''
      else bind_result (try_fold (check_participant H j) ([], []) (enumerate 0 (bj_participants j))) (\<lambda>(destinations, _).
      if list_ex (\<lambda>p. list_ex (\<lambda>ancestor. bs_has destinations ancestor) (strict_ancestor_strings (bp_destination p))) (bj_participants j)
      then Err ''apply.batch_journal_invalid''
      else if list_ex (\<lambda>(p, q). participant_order_key p \<ge> participant_order_key q)
          (zip (bj_participants j) (drop 1 (bj_participants j)))
      then Err ''apply.batch_journal_invalid''
      else bind_result (batch_authority_digest H j) (\<lambda>expected_digest.
        if bj_batch_digest j \<noteq> expected_digest then Err ''apply.batch_journal_invalid'' else Ok ()))))"

end
