(* ===== verification/Apply_Batch_Cursors.thy ===== *)
theory Apply_Batch_Cursors
  imports Apply_Batch_Journals
begin

text \<open>
  The second half of \<open>apply_batch_journal.rs\<close>: encoding and parsing, the journal of a fresh plan with its
  forward path, and the cursor that installs every transition by guarded replacement.
\<close>

section \<open>Encoding\<close>

definition journal_encoded :: "(string \<Rightarrow> string) \<Rightarrow> (batch_journal \<Rightarrow> string option) \<Rightarrow> batch_journal \<Rightarrow> string result" where
  "journal_encoded H encode j =
     and_then (validate_journal H j)
     (bind_result (ok_or ''apply.batch_journal_invalid'' (encode j)) (\<lambda>pretty.
       let encoded = pretty @ [CHR 0x0A]
       in if length encoded > MAX_BATCH_JOURNAL_BYTES then Err ''apply.batch_journal_invalid'' else Ok encoded))"

definition parse_journal :: "(string \<Rightarrow> string) \<Rightarrow> (string \<Rightarrow> batch_journal option) \<Rightarrow> string \<Rightarrow> batch_journal result" where
  "parse_journal H decode encoded =
     bind_result (ok_or ''apply.batch_journal_invalid'' (decode encoded)) (\<lambda>j. and_then (validate_journal H j) (Ok j))"

section \<open>Preparation\<close>

text \<open>What the journal reads of one planned item; \<open>ai_authority\<close> is \<open>participant_authority\<close>, by kind.\<close>

record participant_authority =
  pa_kind :: participant_kind
  pa_old_target_hash :: "string option"
  pa_new_target_hash :: string
  pa_extension :: "stored_extension_authority option"
  pa_exact_file :: "stored_exact_file_authority option"

record apply_item =
  ai_disposition :: stored_disposition
  ai_digest :: string
  ai_asset_id :: string
  ai_target_anchor :: "string result"
  ai_destination :: string
  ai_relative_destination :: string
  ai_authority :: "participant_authority result"

record apply_batch_plan =
  ap_digest :: string
  ap_items :: "apply_item list"
  ap_manifest_revision :: string
  ap_active_profile :: "string option"
  ap_observed_local_state_text :: string
  ap_proposed_local_state_text :: string

definition prepared_participant :: "string \<Rightarrow> nat \<times> apply_item \<Rightarrow> batch_participant result" where
  "prepared_participant batch_digest e = (case e of (index, item) \<Rightarrow>
     bind_result (ai_authority item) (\<lambda>authority.
     if index \<ge> 2 ^ 32 then Err ''apply.batch_journal_invalid''
     else bind_result (map_err ''apply.batch_journal_invalid'' (ai_target_anchor item)) (\<lambda>anchor.
     bind_result (expected_participant_path batch_digest index ''target'' (ai_relative_destination item)) (\<lambda>target.
     bind_result (expected_participant_path batch_digest index ''backup'' (ai_relative_destination item)) (\<lambda>backup.
       Ok \<lparr>bp_index = index, bp_kind = pa_kind authority, bp_progress = Unstaged, bp_disposition = ai_disposition item,
          bp_plan_digest = ai_digest item, bp_asset_id = ai_asset_id item, bp_target_anchor = anchor,
          bp_destination = ai_destination item, bp_relative_destination = ai_relative_destination item,
          bp_staging_target = target, bp_backup_target = backup,
          bp_old_target_hash = pa_old_target_hash authority, bp_new_target_hash = pa_new_target_hash authority,
          bp_extension = pa_extension authority, bp_exact_file = pa_exact_file authority\<rparr>)))))"

definition initial_journal :: "(string \<Rightarrow> string) \<Rightarrow> apply_batch_plan \<Rightarrow> batch_journal result" where
  "initial_journal H plan =
     bind_result (try_map (prepared_participant (ap_digest plan)) (enumerate 0 (ap_items plan))) (\<lambda>participants.
     bind_result (expected_state_path (ap_digest plan)) (\<lambda>staging_state.
       let journal = \<lparr>bj_schema_version = BATCH_JOURNAL_SCHEMA_VERSION, bj_phase = Preparing,
             bj_batch_digest = ap_digest plan, bj_manifest_revision = ap_manifest_revision plan,
             bj_active_profile = ap_active_profile plan, bj_staging_state = staging_state,
             bj_old_state_hash = content_hash_digest H (ap_observed_local_state_text plan),
             bj_new_state_hash = content_hash_digest H (ap_proposed_local_state_text plan),
             bj_participants = participants\<rparr>
       in and_then (validate_journal H journal) (Ok journal)))"

section \<open>The forward path\<close>

definition transition_twice ::
  "participant_progress \<Rightarrow> participant_progress \<Rightarrow> batch_journal \<Rightarrow> nat \<Rightarrow> batch_journal result" where
  "transition_twice p q j index = bind_result (transition_participant j index p) (\<lambda>j. transition_participant j index q)"

definition quarantine_if_required :: "batch_journal \<Rightarrow> nat \<Rightarrow> batch_journal result" where
  "quarantine_if_required j index =
     (if requires_quarantine (bp_disposition (bj_participants j ! index))
      then transition_twice QuarantinePending Quarantined j index else Ok j)"

definition commit_target :: "batch_journal \<Rightarrow> nat \<Rightarrow> batch_journal result" where
  "commit_target j index =
     (if bp_disposition (bj_participants j ! index) = NoOp then transition_participant j index Committed
      else transition_twice CommitPending Committed j index)"

definition verify_target :: "batch_journal \<Rightarrow> nat \<Rightarrow> batch_journal result" where
  "verify_target j index = transition_participant j index Verified"

definition each_participant :: "(batch_journal \<Rightarrow> nat \<Rightarrow> batch_journal result) \<Rightarrow> batch_journal \<Rightarrow> batch_journal result" where
  "each_participant f j = try_fold f j [0..<length (bj_participants j)]"

definition validate_forward_path :: "(string \<Rightarrow> string) \<Rightarrow> batch_journal \<Rightarrow> batch_journal result" where
  "validate_forward_path H j =
     bind_result (each_participant (transition_twice StagingPending Prepared) j) (\<lambda>j.
     bind_result (transition_phase j PhasePrepared) (\<lambda>j.
     bind_result (transition_phase j QuarantiningOldTargets) (\<lambda>j.
     bind_result (each_participant quarantine_if_required j) (\<lambda>j.
     bind_result (transition_phase j OldTargetsQuarantined) (\<lambda>j.
     bind_result (transition_phase j CommittingNewTargets) (\<lambda>j.
     bind_result (each_participant commit_target j) (\<lambda>j.
     bind_result (transition_phase j NewTargetsCommitted) (\<lambda>j.
     bind_result (transition_phase j StateCommitted) (\<lambda>j.
     bind_result (each_participant verify_target j) (\<lambda>j.
     bind_result (transition_phase j PhaseVerified) (\<lambda>j.
       and_then (validate_journal H j) (Ok j))))))))))))"

definition validate_prepared_plan ::
  "(string \<Rightarrow> string) \<Rightarrow> (batch_journal \<Rightarrow> string option) \<Rightarrow> apply_batch_plan \<Rightarrow> unit result" where
  "validate_prepared_plan H encode plan =
     bind_result (initial_journal H plan) (\<lambda>journal.
     bind_result (validate_forward_path H journal) (\<lambda>journal.
     bind_result (journal_encoded H encode journal) (\<lambda>_. Ok ())))"

section \<open>The cursor\<close>

definition ATOMIC_APPLY_JOURNAL_PATH :: string where
  "ATOMIC_APPLY_JOURNAL_PATH = ''.kitrove/atomic-apply-journal.json''"

definition ATOMIC_APPLY_PENDING_PATH :: string where
  "ATOMIC_APPLY_PENDING_PATH = ''.kitrove/atomic-apply-journal.pending''"

record batch_cursor =
  bc_journal :: batch_journal
  bc_encoded :: string

definition map_guarded_storage :: "guarded_journal_error \<Rightarrow> failure" where
  "map_guarded_storage e = (case e of Storage \<Rightarrow> Failure ''apply.batch_journal_storage_failed'' | Authority f \<Rightarrow> f)"

abbreviation storage_failed :: "(failure, 'a) effect \<Rightarrow> (failure, 'a) effect" where
  "storage_failed \<equiv> map_effect_err (\<lambda>_. Failure ''apply.batch_journal_storage_failed'')"

definition reconcile_batch_journal ::
  "bool \<Rightarrow> (string \<Rightarrow> string) \<Rightarrow> (string \<Rightarrow> batch_journal option) \<Rightarrow> (guarded_journal_error, unit) effect" where
  "reconcile_batch_journal exchange_supported H decode =
     reconcile_journal exchange_supported ATOMIC_APPLY_JOURNAL_PATH ATOMIC_APPLY_PENDING_PATH MAX_BATCH_JOURNAL_BYTES
       (parse_journal H decode) valid_journal_transition ''apply.batch_journal_invalid''"

definition cursor_load ::
  "bool \<Rightarrow> (string \<Rightarrow> string) \<Rightarrow> (string \<Rightarrow> batch_journal option) \<Rightarrow> (failure, batch_cursor option) effect" where
  "cursor_load exchange_supported H decode =
     bind_effect (map_effect_err map_guarded_storage (reconcile_batch_journal exchange_supported H decode)) (\<lambda>_.
     bind_effect (storage_failed (read_text ATOMIC_APPLY_JOURNAL_PATH MAX_BATCH_JOURNAL_BYTES)) (\<lambda>text_value.
     case text_value of
       None \<Rightarrow> succeeding None
     | Some encoded \<Rightarrow> bind_effect (returning (parse_journal H decode encoded)) (\<lambda>journal.
         succeeding (Some \<lparr>bc_journal = journal, bc_encoded = encoded\<rparr>))))"

definition cursor_install ::
  "bool \<Rightarrow> (string \<Rightarrow> string) \<Rightarrow> (batch_journal \<Rightarrow> string option) \<Rightarrow> apply_batch_plan \<Rightarrow> (failure, batch_cursor) effect" where
  "cursor_install exchange_supported H encode plan =
     bind_effect (returning (initial_journal H plan)) (\<lambda>journal.
     bind_effect (returning (journal_encoded H encode journal)) (\<lambda>encoded.
     bind_effect (storage_failed (replace_text_atomically_guarded exchange_supported ATOMIC_APPLY_PENDING_PATH
         ATOMIC_APPLY_JOURNAL_PATH None encoded MAX_BATCH_JOURNAL_BYTES)) (\<lambda>_.
       succeeding \<lparr>bc_journal = journal, bc_encoded = encoded\<rparr>)))"

definition persist_transition ::
  "bool \<Rightarrow> (string \<Rightarrow> string) \<Rightarrow> (batch_journal \<Rightarrow> string option) \<Rightarrow> batch_cursor
   \<Rightarrow> (batch_journal \<Rightarrow> batch_journal result) \<Rightarrow> (failure, batch_cursor) effect" where
  "persist_transition exchange_supported H encode c transition =
     bind_effect (returning (transition (bc_journal c))) (\<lambda>next_j.
     bind_effect (returning (journal_encoded H encode next_j)) (\<lambda>next_encoded.
     bind_effect (storage_failed (replace_text_atomically_guarded exchange_supported ATOMIC_APPLY_PENDING_PATH
         ATOMIC_APPLY_JOURNAL_PATH (Some (bc_encoded c)) next_encoded MAX_BATCH_JOURNAL_BYTES)) (\<lambda>_.
       succeeding \<lparr>bc_journal = next_j, bc_encoded = next_encoded\<rparr>)))"

definition cursor_transition_participant where
  "cursor_transition_participant exchange_supported H encode c index progress =
     persist_transition exchange_supported H encode c (\<lambda>j. transition_participant j index progress)"

definition cursor_transition_phase where
  "cursor_transition_phase exchange_supported H encode c phase =
     persist_transition exchange_supported H encode c (\<lambda>j. transition_phase j phase)"

definition remove_terminal :: "batch_cursor \<Rightarrow> (failure, unit) effect" where
  "remove_terminal c =
     (if bj_phase (bc_journal c) \<notin> {PhaseVerified, PhaseRolledBack} then failing ''apply.batch_journal_invalid''
      else bind_effect (storage_failed (remove_regular_file_if_present ATOMIC_APPLY_JOURNAL_PATH)) (\<lambda>_.
        storage_failed (remove_regular_file_if_present ATOMIC_APPLY_PENDING_PATH)))"

datatype batch_journal_status = NoJournal | PendingJournal apply_batch_phase nat

definition inspect_batch_journal ::
  "(string \<Rightarrow> string) \<Rightarrow> (string \<Rightarrow> batch_journal option) \<Rightarrow> (guarded_journal_error, batch_journal option) effect" where
  "inspect_batch_journal H decode =
     inspect_journal ATOMIC_APPLY_JOURNAL_PATH ATOMIC_APPLY_PENDING_PATH MAX_BATCH_JOURNAL_BYTES
       (parse_journal H decode) valid_journal_transition ''apply.batch_journal_invalid''"

definition inspect_atomic_apply_batch_journal ::
  "(string \<Rightarrow> string) \<Rightarrow> (string \<Rightarrow> batch_journal option) \<Rightarrow> (failure, batch_journal_status) effect" where
  "inspect_atomic_apply_batch_journal H decode =
     bind_effect (map_effect_err (\<lambda>e. case e of Storage \<Rightarrow> Failure ''apply.batch_journal_inspection_failed'' | Authority f \<Rightarrow> f)
       (inspect_batch_journal H decode)) (\<lambda>journal.
     succeeding (case journal of None \<Rightarrow> NoJournal | Some j \<Rightarrow> PendingJournal (bj_phase j) (length (bj_participants j))))"

end
