(* ===== verification/Apply_Batch_Laws.thy ===== *)
theory Apply_Batch_Laws
  imports Apply_Batch_Cursors Step_Machines
begin

text \<open>
  The protocol of the atomic apply journal: which transitions recovery accepts, what they preserve, and that
  no reachable batch is ever stuck before it is verified or rolled back.
\<close>

section \<open>Ranks\<close>

definition phase_rank :: "apply_batch_phase \<Rightarrow> nat" where
  "phase_rank p = (case p of Preparing \<Rightarrow> 0 | PhasePrepared \<Rightarrow> 1 | QuarantiningOldTargets \<Rightarrow> 2 | OldTargetsQuarantined \<Rightarrow> 3
     | CommittingNewTargets \<Rightarrow> 4 | NewTargetsCommitted \<Rightarrow> 5 | StateCommitted \<Rightarrow> 6 | PhaseVerified \<Rightarrow> 7 | RollingBack \<Rightarrow> 8
     | PhaseRolledBack \<Rightarrow> 9)"

definition progress_rank :: "participant_progress \<Rightarrow> nat" where
  "progress_rank p = (case p of Unstaged \<Rightarrow> 0 | StagingPending \<Rightarrow> 1 | Prepared \<Rightarrow> 2 | QuarantinePending \<Rightarrow> 3 | Quarantined \<Rightarrow> 4
     | CommitPending \<Rightarrow> 5 | Committed \<Rightarrow> 6 | Verified \<Rightarrow> 7 | RemovePending \<Rightarrow> 8 | Removed \<Rightarrow> 9 | RestorePending \<Rightarrow> 10 | RolledBack \<Rightarrow> 11)"

lemma phase_rises: "valid_phase_transition p q \<Longrightarrow> phase_rank p < phase_rank q"
  by (auto simp: valid_phase_transition_def phase_rank_def)

lemma progress_rises: "valid_participant_transition b d p q \<Longrightarrow> progress_rank p < progress_rank q"
  by (auto simp: valid_participant_transition_def valid_rollback_transition_def progress_rank_def
    split: apply_batch_phase.splits if_splits)

lemma rank_bounds: "phase_rank p \<le> 9" "progress_rank q \<le> 11"
  by (simp_all add: phase_rank_def progress_rank_def split: apply_batch_phase.splits participant_progress.splits)

definition work_left :: "batch_journal \<Rightarrow> nat" where
  "work_left j = (9 - phase_rank (bj_phase j)) + sum_list (map (\<lambda>p. 11 - progress_rank (bp_progress p)) (bj_participants j))"

lemma work_left_bound: "work_left j \<le> 9 + 11 * length (bj_participants j)"
proof -
  have "sum_list (map (\<lambda>p. 11 - progress_rank (bp_progress p)) ps) \<le> 11 * length ps" for ps :: "batch_participant list"
    by (induction ps) auto
  then show ?thesis by (auto simp: work_left_def intro!: add_mono)
qed

section \<open>One step\<close>

definition batch_step :: "batch_journal \<Rightarrow> batch_journal \<Rightarrow> bool" where
  "batch_step j k \<longleftrightarrow> (\<exists>p. transition_phase j p = Ok k) \<or> (\<exists>i p. transition_participant j i p = Ok k)"

lemma transition_phase_Ok:
  "transition_phase j p = Ok k \<longleftrightarrow> valid_phase_transition (bj_phase j) p \<and> k = j\<lparr>bj_phase := p\<rparr>"
  by (auto simp: transition_phase_def)

lemma transition_participant_Ok:
  "transition_participant j i p = Ok k \<longleftrightarrow> i < length (bj_participants j)
     \<and> valid_participant_transition (bj_phase j) (bp_disposition (bj_participants j ! i)) (bp_progress (bj_participants j ! i)) p
     \<and> k = j\<lparr>bj_participants := (bj_participants j)[i := (bj_participants j ! i)\<lparr>bp_progress := p\<rparr>]\<rparr>"
  by (auto simp: transition_participant_def Let_def)

lemma batch_step_falls: "batch_step j k \<Longrightarrow> work_left k < work_left j"
  unfolding batch_step_def
proof (elim disjE exE)
  fix p assume "transition_phase j p = Ok k"
  then show ?thesis using phase_rises[of "bj_phase j" p] rank_bounds(1)[of p] by (auto simp: transition_phase_Ok work_left_def)
next
  fix i p assume t: "transition_participant j i p = Ok k"
  let ?p = "bj_participants j ! i"
  let ?f = "\<lambda>p. 11 - progress_rank (bp_progress p)"
  have i: "i < length (bj_participants j)" using t by (simp add: transition_participant_Ok)
  have less: "?f (?p\<lparr>bp_progress := p\<rparr>) < ?f ?p"
    using t progress_rises[of "bj_phase j" "bp_disposition ?p" "bp_progress ?p" p] rank_bounds(2)[of p] by (auto simp: transition_participant_Ok)
  have "sum_list ((map ?f (bj_participants j))[i := y]) < sum_list (map ?f (bj_participants j))" if "y < map ?f (bj_participants j) ! i" for y
    using that i sum_list_update[of i "map ?f (bj_participants j)" y] elem_le_sum_list[of i "map ?f (bj_participants j)"] by simp
  from this[of "?f (?p\<lparr>bp_progress := p\<rparr>)"] show ?thesis
    using t i less by (simp add: transition_participant_Ok work_left_def map_update)
qed

interpretation batch_run: falling_steps batch_step work_left
  by unfold_locales (rule batch_step_falls)

section \<open>What recovery accepts\<close>

definition same_participant :: "batch_participant \<Rightarrow> batch_participant \<Rightarrow> bool" where
  "same_participant p q \<longleftrightarrow> q = p\<lparr>bp_progress := bp_progress q\<rparr>"

lemma same_transition_authority_iff:
  "same_transition_authority j k \<longleftrightarrow> list_all2 same_participant (bj_participants j) (bj_participants k)
     \<and> k = j\<lparr>bj_phase := bj_phase k, bj_participants := bj_participants k\<rparr>"
proof -
  have "map (\<lambda>(p, q). p\<lparr>bp_progress := bp_progress q\<rparr>) (zip ps qs) @ drop (length qs) ps = qs \<longleftrightarrow> list_all2 same_participant ps qs" for ps qs
    by (induction ps arbitrary: qs; case_tac qs) (auto simp: same_participant_def)
  from this[of "bj_participants j" "bj_participants k"] show ?thesis unfolding same_transition_authority_def
    by (cases j; cases k) auto
qed

lemma same_participant_eq: "same_participant p q \<Longrightarrow> bp_progress p = bp_progress q \<Longrightarrow> q = p"
  unfolding same_participant_def by (cases p; cases q) simp

lemma same_progress: "list_all2 same_participant ps qs \<Longrightarrow> list_all (\<lambda>(p, q). bp_progress p = bp_progress q) (zip ps qs) \<Longrightarrow> qs = ps"
  by (induction ps qs rule: list_all2_induct) (auto dest: same_participant_eq)

lemma same_participant_refl [simp]: "same_participant p p" "list_all2 same_participant ps ps"
  by (simp_all add: same_participant_def list.rel_refl)

lemma one_change:
  assumes "list_all2 same_participant ps qs" "filter (\<lambda>(p, q). bp_progress p \<noteq> bp_progress q) (zip ps qs) = [(p, q)]"
  shows "\<exists>i<length ps. ps ! i = p \<and> qs = ps[i := p\<lparr>bp_progress := bp_progress q\<rparr>]"
  using assms
proof (induction ps qs rule: list_all2_induct)
  case (Cons p' ps q' qs)
  show ?case
  proof (cases "bp_progress p' = bp_progress q'")
    case True
    then have "p' = q'" using same_participant_eq[OF Cons.hyps(1)] by simp
    obtain i where "i < length ps" "ps ! i = p" "qs = ps[i := p\<lparr>bp_progress := bp_progress q\<rparr>]" using Cons True by auto
    then show ?thesis using \<open>p' = q'\<close> by (intro exI[of _ "Suc i"]) simp
  next
    case False
    then have "p' = p" "q' = q" "list_all (\<lambda>(p, q). bp_progress p = bp_progress q) (zip ps qs)"
      using Cons.prems by (auto simp: filter_empty_conv list_all_iff)
    moreover from this(3) have "qs = ps" using same_progress Cons.hyps(2) by blast
    ultimately show ?thesis using Cons.hyps(1) by (intro exI[of _ 0]) (simp add: same_participant_def)
  qed
qed simp

lemma changed_one:
  assumes "i < length ps" "bp_progress (ps ! i) \<noteq> x"
  shows "filter (\<lambda>(p, q). bp_progress p \<noteq> bp_progress q) (zip ps (ps[i := (ps ! i)\<lparr>bp_progress := x\<rparr>])) = [(ps ! i, (ps ! i)\<lparr>bp_progress := x\<rparr>)]"
    and "list_all2 same_participant ps (ps[i := (ps ! i)\<lparr>bp_progress := x\<rparr>])"
proof -
  have same: "filter (\<lambda>(p, q). bp_progress p \<noteq> bp_progress q) (zip ps ps) = []" for ps
    by (auto simp: filter_empty_conv set_zip)
  show "filter (\<lambda>(p, q). bp_progress p \<noteq> bp_progress q) (zip ps (ps[i := (ps ! i)\<lparr>bp_progress := x\<rparr>])) = [(ps ! i, (ps ! i)\<lparr>bp_progress := x\<rparr>)]"
    using assms
  proof (induction ps arbitrary: i)
    case (Cons p ps)
    then show ?case using same by (cases i) auto
  qed simp
  show "list_all2 same_participant ps (ps[i := (ps ! i)\<lparr>bp_progress := x\<rparr>])"
    using assms(1) by (induction ps arbitrary: i) (auto simp: same_participant_def split: nat.split)
qed

lemma valid_journal_transition_iff: "valid_journal_transition j k \<longleftrightarrow> batch_step j k"
proof
  assume v: "valid_journal_transition j k"
  then have same: "list_all2 same_participant (bj_participants j) (bj_participants k)"
      "k = j\<lparr>bj_phase := bj_phase k, bj_participants := bj_participants k\<rparr>"
    by (auto simp: valid_journal_transition_def same_transition_authority_iff split: if_splits)
  show "batch_step j k"
  proof (cases "bj_phase j = bj_phase k")
    case True
    then obtain p q where change: "filter (\<lambda>(p, q). bp_progress p \<noteq> bp_progress q) (zip (bj_participants j) (bj_participants k)) = [(p, q)]"
        "valid_participant_transition (bj_phase j) (bp_disposition p) (bp_progress p) (bp_progress q)"
      using v by (auto simp: valid_journal_transition_def split: if_splits list.splits)
    then obtain i where i: "i < length (bj_participants j)" "bj_participants j ! i = p"
        "bj_participants k = (bj_participants j)[i := p\<lparr>bp_progress := bp_progress q\<rparr>]"
      using one_change[OF same(1)] by blast
    have "k = j\<lparr>bj_participants := (bj_participants j)[i := p\<lparr>bp_progress := bp_progress q\<rparr>]\<rparr>"
      using same(2) True i(3) by (cases j; cases k) simp
    then have "transition_participant j i (bp_progress q) = Ok k" using i(1,2) change(2) by (simp add: transition_participant_Ok)
    then show ?thesis unfolding batch_step_def by blast
  next
    case False
    then have "bj_participants k = bj_participants j" and valid: "valid_phase_transition (bj_phase j) (bj_phase k)"
      using v same_progress[OF same(1)] by (auto simp: valid_journal_transition_def split: if_splits)
    then have "k = j\<lparr>bj_phase := bj_phase k\<rparr>" using same(2) by (cases j; cases k) simp
    then have "transition_phase j (bj_phase k) = Ok k" using valid by (simp add: transition_phase_Ok)
    then show ?thesis unfolding batch_step_def by blast
  qed
next
  assume "batch_step j k"
  then consider p where "transition_phase j p = Ok k" | i p where "transition_participant j i p = Ok k"
    unfolding batch_step_def by blast
  then show "valid_journal_transition j k"
  proof cases
    case 1
    then have p: "valid_phase_transition (bj_phase j) p" and k: "k = j\<lparr>bj_phase := p\<rparr>" by (simp_all add: transition_phase_Ok)
    have "bj_phase j \<noteq> p" using phase_rises[OF p] by auto
    then show ?thesis using p by (auto simp: k valid_journal_transition_def same_transition_authority_iff list_all_iff set_zip)
  next
    case 2
    let ?p = "bj_participants j ! i"
    have i: "i < length (bj_participants j)" and p: "valid_participant_transition (bj_phase j) (bp_disposition ?p) (bp_progress ?p) p"
      and k: "k = j\<lparr>bj_participants := (bj_participants j)[i := ?p\<lparr>bp_progress := p\<rparr>]\<rparr>"
      using 2 by (simp_all add: transition_participant_Ok)
    have "bp_progress ?p \<noteq> p" using progress_rises[OF p] by auto
    note change = changed_one[OF i this]
    show ?thesis using p change by (simp add: k valid_journal_transition_def same_transition_authority_iff)
  qed
qed

section \<open>Validity\<close>

text \<open>The authority of a journal is what stays when its phase and progresses are set back to the start.\<close>

definition unstarted :: "batch_participant \<Rightarrow> batch_participant" where
  "unstarted p = p\<lparr>bp_progress := Unstaged\<rparr>"

definition batch_authority :: "batch_journal \<Rightarrow> batch_journal" where
  "batch_authority j = j\<lparr>bj_phase := Preparing, bj_participants := map unstarted (bj_participants j)\<rparr>"

lemma unstarted_simps [simp]:
  "bp_index (unstarted p) = bp_index p" "bp_kind (unstarted p) = bp_kind p" "bp_disposition (unstarted p) = bp_disposition p"
  "bp_plan_digest (unstarted p) = bp_plan_digest p" "bp_asset_id (unstarted p) = bp_asset_id p"
  "bp_target_anchor (unstarted p) = bp_target_anchor p" "bp_destination (unstarted p) = bp_destination p"
  "bp_relative_destination (unstarted p) = bp_relative_destination p" "bp_staging_target (unstarted p) = bp_staging_target p"
  "bp_backup_target (unstarted p) = bp_backup_target p" "bp_old_target_hash (unstarted p) = bp_old_target_hash p"
  "bp_new_target_hash (unstarted p) = bp_new_target_hash p" "bp_extension (unstarted p) = bp_extension p"
  "bp_exact_file (unstarted p) = bp_exact_file p" "bp_progress (unstarted p) = Unstaged"
  by (simp_all add: unstarted_def)

lemma batch_authority_simps [simp]:
  "bj_phase (batch_authority j) = Preparing" "bj_participants (batch_authority j) = map unstarted (bj_participants j)"
  "bj_batch_digest (batch_authority j) = bj_batch_digest j" "bj_schema_version (batch_authority j) = bj_schema_version j"
  "bj_manifest_revision (batch_authority j) = bj_manifest_revision j" "bj_active_profile (batch_authority j) = bj_active_profile j"
  "bj_staging_state (batch_authority j) = bj_staging_state j" "bj_old_state_hash (batch_authority j) = bj_old_state_hash j"
  "bj_new_state_hash (batch_authority j) = bj_new_state_hash j"
  by (simp_all add: batch_authority_def)

lemma unstarted_progress: "unstarted (p\<lparr>bp_progress := x\<rparr>) = unstarted p"
  by (simp add: unstarted_def)

lemma batch_step_authority: "batch_step j k \<Longrightarrow> batch_authority k = batch_authority j"
  by (auto simp: batch_step_def transition_phase_Ok transition_participant_Ok batch_authority_def map_update unstarted_progress
      list_update_same_conv)

lemma refused_or: "(if c then Inl e else m) = Inr r \<longleftrightarrow> \<not> c \<and> m = Inr r"
  by simp

lemma bind_result_OkE: "bind_result m f = Inr y \<Longrightarrow> (\<And>x. m = Inr x \<Longrightarrow> f x = Inr y \<Longrightarrow> P) \<Longrightarrow> P"
  by (auto simp: bind_result_Ok_iff)

lemma unstarted_checks:
  "valid_kind_authority (unstarted p) = valid_kind_authority p" "valid_hash_authority H (unstarted p) = valid_hash_authority H p"
  unfolding valid_kind_authority_def valid_hash_authority_def valid_old_extension_layout_def unstarted_simps by (rule refl)+

lemma check_participant_valid_progress:
  "check_participant H j (ds, pds) (i, p) = Ok r \<Longrightarrow> valid_progress (bj_phase j) p"
  apply (unfold check_participant_def prod.case)
  apply (unfold refused_or, elim conjE bind_result_OkE)+
  apply (unfold de_Morgan_disj not_not)
  apply (elim conjE)
  apply assumption
  done

lemma check_participant_progress:
  "check_participant H j seen (i, p) = Ok r \<longleftrightarrow>
     valid_progress (bj_phase j) p \<and> check_participant H (batch_authority j) seen (i, unstarted p) = Ok r"
proof (cases "valid_progress (bj_phase j) p")
  case True
  have start: "valid_progress Preparing (unstarted p)" by (simp add: valid_progress_def)
  have "check_participant H j seen (i, p) = check_participant H (batch_authority j) seen (i, unstarted p)"
    unfolding check_participant_def unstarted_checks unstarted_simps batch_authority_simps prod.case eqTrueI[OF True] eqTrueI[OF start]
    by (rule refl)
  then show ?thesis using True by simp
next
  case False
  have "valid_progress (bj_phase j) p" if "check_participant H j seen (i, p) = Ok r"
    using that check_participant_valid_progress by (cases seen) blast
  then show ?thesis using False by blast
qed

lemma check_participants_progress:
  "try_fold (check_participant H j) seen (enumerate i ps) = Ok r \<longleftrightarrow>
     list_all (valid_progress (bj_phase j)) ps
     \<and> try_fold (check_participant H (batch_authority j)) seen (enumerate i (map unstarted ps)) = Ok r"
proof (induction ps arbitrary: i seen)
  case (Cons p ps)
  then show ?case by (auto simp: bind_result_Ok_iff check_participant_progress[of H j seen i p])
qed simp

lemma participant_views [simp]:
  "participant_digest_item (unstarted p) = participant_digest_item p" "participant_order_key (unstarted p) = participant_order_key p"
  by (simp_all add: participant_digest_item_def participant_order_key_def)

lemma validate_journal_progress:
  "validate_journal H j = Ok () \<longleftrightarrow>
     list_all (valid_progress (bj_phase j)) (bj_participants j) \<and> validate_journal H (batch_authority j) = Ok ()"
proof -
  let ?ps = "bj_participants j"
  have zips: "zip (map unstarted ?ps) (drop (Suc 0) (map unstarted ?ps)) = map (\<lambda>(p, q). (unstarted p, unstarted q)) (zip ?ps (drop (Suc 0) ?ps))"
    by (simp add: drop_map zip_map_map)
  have digest: "batch_authority_digest H (batch_authority j) = batch_authority_digest H j"
    by (simp add: batch_authority_digest_def comp_def)
  have order: "list_ex (\<lambda>(p, q). participant_order_key p \<ge> participant_order_key q) (zip (map unstarted ?ps) (drop 1 (map unstarted ?ps)))
      = list_ex (\<lambda>(p, q). participant_order_key p \<ge> participant_order_key q) (zip ?ps (drop 1 ?ps))"
    by (simp add: zips list_ex_iff case_prod_unfold)
  have nested: "list_ex (\<lambda>p. list_ex (\<lambda>ancestor. bs_has ds ancestor) (strict_ancestor_strings (bp_destination p))) (map unstarted ?ps)
      = list_ex (\<lambda>p. list_ex (\<lambda>ancestor. bs_has ds ancestor) (strict_ancestor_strings (bp_destination p))) ?ps" for ds
    by (simp add: list_ex_iff)
  note participants = check_participants_progress[of H j "([], [])" 0 ?ps]
  show ?thesis
    unfolding validate_journal_def refused_or bind_result_Ok_iff participants
      batch_authority_simps digest order nested length_map Nil_is_map_conv
    by (auto simp: case_prod_beta)
qed

end
