(* ===== verification/Apply_Batch_Forward.thy ===== *)
theory Apply_Batch_Forward
  imports Apply_Batch_Laws
begin

text \<open>The forward path of a prepared batch: every participant is staged, quarantined, committed and verified in turn.\<close>

definition with_progress :: "participant_progress \<Rightarrow> batch_participant \<Rightarrow> batch_participant" where
  "with_progress q p = p\<lparr>bp_progress := q\<rparr>"

lemma with_progress_simps [simp]:
  "bp_progress (with_progress q p) = q" "bp_disposition (with_progress q p) = bp_disposition p"
  "with_progress q (with_progress r p) = with_progress q p" "p\<lparr>bp_progress := q\<rparr> = with_progress q p"
  "unstarted (with_progress q p) = unstarted p"
  by (simp_all add: with_progress_def unstarted_def)

lemma map_with_progress [simp]: "map (with_progress q) (map (with_progress r) ps) = map (with_progress q) ps"
  by (simp add: comp_def)

text \<open>A loop over the participants whose body only touches its own one.\<close>

lemma each_participant_run:
  assumes "\<And>k i. bj_phase k = bj_phase j \<Longrightarrow> i < length (bj_participants k) \<Longrightarrow> bj_participants k ! i \<in> set (bj_participants j) \<Longrightarrow>
      f k i = Ok (k\<lparr>bj_participants := (bj_participants k)[i := g (bj_participants k ! i)]\<rparr>)"
  shows "each_participant f j = Ok (j\<lparr>bj_participants := map g (bj_participants j)\<rparr>)"
proof -
  let ?ps = "bj_participants j"
  have "m \<le> length ?ps \<Longrightarrow> try_fold f j [0..<m] = Ok (j\<lparr>bj_participants := map g (take m ?ps) @ drop m ?ps\<rparr>)" for m
  proof (induction m)
    case (Suc m)
    let ?k = "j\<lparr>bj_participants := map g (take m ?ps) @ drop m ?ps\<rparr>"
    have m: "m < length ?ps" using Suc.prems by simp
    then have at: "bj_participants ?k ! m = ?ps ! m" by (simp add: nth_append)
    have "f ?k m = Ok (?k\<lparr>bj_participants := (bj_participants ?k)[m := g (?ps ! m)]\<rparr>)"
      using assms[of ?k m] m unfolding at by simp
    moreover have "(map g (take m ?ps) @ drop m ?ps)[m := g (?ps ! m)] = map g (take (Suc m) ?ps) @ drop (Suc m) ?ps"
      using m by (simp add: list_update_append take_Suc_conv_app_nth Cons_nth_drop_Suc[symmetric])
    ultimately show ?case using Suc.IH m by (simp add: try_fold_append)
  qed simp
  from this[of "length ?ps"] show ?thesis by (simp add: each_participant_def)
qed

lemma transition_twice_run:
  assumes "i < length (bj_participants k)"
    and "valid_participant_transition (bj_phase k) (bp_disposition (bj_participants k ! i)) (bp_progress (bj_participants k ! i)) p"
    and "valid_participant_transition (bj_phase k) (bp_disposition (bj_participants k ! i)) p q"
  shows "transition_twice p q k i = Ok (k\<lparr>bj_participants := (bj_participants k)[i := with_progress q (bj_participants k ! i)]\<rparr>)"
  using assms by (simp add: transition_twice_def transition_participant_def Let_def)

lemma finished_progress: "valid_progress PhaseVerified (with_progress Verified p)"
  by (simp add: valid_progress_def)

definition quarantined :: "batch_participant \<Rightarrow> batch_participant" where
  "quarantined p = (if requires_quarantine (bp_disposition p) then with_progress Quarantined p else p)"

lemma forward_run:
  assumes phase: "bj_phase j = Preparing" and fresh: "list_all (\<lambda>p. bp_progress p = Unstaged) (bj_participants j)"
    and valid: "validate_journal H j = Ok ()"
  shows "validate_forward_path H j = Ok (j\<lparr>bj_phase := PhaseVerified, bj_participants := map (with_progress Verified) (bj_participants j)\<rparr>)"
proof -
  let ?ps = "bj_participants j"
  let ?at = "\<lambda>phase ps. j\<lparr>bj_phase := phase, bj_participants := ps\<rparr>"
  have same: "j = ?at Preparing ?ps" using phase by simp
  have staged: "each_participant (transition_twice StagingPending Prepared) (?at Preparing ?ps)
      = Ok (?at Preparing (map (with_progress Prepared) ?ps))"
    by (subst each_participant_run[where g = "with_progress Prepared"])
      (use fresh in \<open>auto simp: list_all_iff valid_participant_transition_def intro!: transition_twice_run\<close>)
  have quarantine: "each_participant quarantine_if_required (?at QuarantiningOldTargets (map (with_progress Prepared) ?ps))
      = Ok (?at QuarantiningOldTargets (map (quarantined \<circ> with_progress Prepared) ?ps))"
    by (subst each_participant_run[where g = quarantined])
      (auto simp: quarantine_if_required_def quarantined_def valid_participant_transition_def requires_quarantine_def list_update_same_conv
        intro!: transition_twice_run)
  have commit: "each_participant commit_target (?at CommittingNewTargets (map (quarantined \<circ> with_progress Prepared) ?ps))
      = Ok (?at CommittingNewTargets (map (with_progress Committed) ?ps))"
    by (subst each_participant_run[where g = "with_progress Committed"])
      (auto simp: commit_target_def quarantined_def valid_participant_transition_def requires_quarantine_def transition_participant_def Let_def comp_def
        intro!: transition_twice_run)
  have verify: "each_participant verify_target (?at StateCommitted (map (with_progress Committed) ?ps))
      = Ok (?at StateCommitted (map (with_progress Verified) ?ps))"
    by (subst each_participant_run[where g = "with_progress Verified"])
      (auto simp: verify_target_def transition_participant_def valid_participant_transition_def Let_def)
  let ?final = "?at PhaseVerified (map (with_progress Verified) ?ps)"
  have same_authority: "batch_authority ?final = batch_authority j" by (simp add: batch_authority_def comp_def)
  have "validate_journal H (batch_authority ?final) = Ok ()"
    unfolding same_authority using valid validate_journal_progress[of H j] by blast
  moreover have "list_all (valid_progress (bj_phase ?final)) (bj_participants ?final)"
    by (simp add: list_all_iff finished_progress)
  ultimately have finished: "validate_journal H ?final = Ok ()" using validate_journal_progress[of H ?final] by blast
  have steps: "transition_phase (?at p ps) q = Ok (?at q ps)" if "valid_phase_transition p q" for p q ps
    using that by (simp add: transition_phase_def)
  show ?thesis
    using staged quarantine commit verify finished
    unfolding validate_forward_path_def
    by (subst same) (simp add: steps valid_phase_transition_def)
qed

end
