(* ===== verification/Batch_Digest_Laws.thy ===== *)
theory Batch_Digest_Laws
  imports Batch_Digests
begin

text \<open>
  The batch preimage determines the batch.  Only the exact-file authority has no presence byte: what tells it
  from the next item is that the mark starts with a letter and an item with a small tag.
\<close>

definition item_fits :: "batch_digest_item \<Rightarrow> bool" where
  "item_fits i \<longleftrightarrow> bi_kind_tag i < 6 \<and> bi_disposition_tag i < 256
     \<and> fits_u64 (bi_asset_id i) \<and> fits_u64 (bi_destination i) \<and> fits_u64 (bi_relative_destination i)
     \<and> fits_u64 (bi_plan_digest i) \<and> fits_u64 (bi_new_target_hash i)
     \<and> (\<forall>h\<in>set_option (bi_old_target_hash i). fits_u64 h)
     \<and> (\<forall>e\<in>set_option (bi_extension i). be_layout_tag e < 256 \<and> (\<forall>t\<in>set_option (be_old_layout_tag e). t < 256) \<and> fits_u64 (be_native_id e))
     \<and> (\<forall>f\<in>set_option (bi_exact_file i). bf_max_bytes f < 2 ^ 64)"

lemma char_of_inj:
  assumes "m < (256 :: nat)" "n < 256"
  shows "(char_of m :: char) = char_of n \<longleftrightarrow> m = n"
proof
  assume "(char_of m :: char) = char_of n"
  then have "(of_char (char_of m) :: nat) = of_char (char_of n)" by (rule arg_cong)
  then show "m = n" using assms by simp
qed simp

lemma write_count_eq: "m < 18446744073709551616 \<Longrightarrow> n < 18446744073709551616 \<Longrightarrow> write_count m = write_count n \<longleftrightarrow> m = n"
  using count_code.inj[of m n] by simp

lemma write_tag_cancel: "m < 256 \<Longrightarrow> n < 256 \<Longrightarrow> write_tag m @ s = write_tag n @ t \<longleftrightarrow> m = n \<and> s = t"
  by (simp add: write_tag_def char_of_inj)

lemma write_optional_tag_cancel:
  assumes "\<forall>t\<in>set_option a. t < 256" "\<forall>t\<in>set_option b. t < 256"
  shows "write_optional_tag a @ s = write_optional_tag b @ t \<longleftrightarrow> a = b \<and> s = t"
  using assms by (cases a; cases b) (auto simp: write_optional_tag_def write_tag_cancel)

lemma write_extension_cancel:
  assumes "\<forall>e\<in>set_option a. be_layout_tag e < 256 \<and> (\<forall>t\<in>set_option (be_old_layout_tag e). t < 256) \<and> fits_u64 (be_native_id e)"
    and "\<forall>e\<in>set_option b. be_layout_tag e < 256 \<and> (\<forall>t\<in>set_option (be_old_layout_tag e). t < 256) \<and> fits_u64 (be_native_id e)"
  shows "write_extension_authority a @ s = write_extension_authority b @ t \<longleftrightarrow> a = b \<and> s = t"
proof (cases a; cases b)
  fix e f assume "a = Some e" "b = Some f"
  then show ?thesis using assms
    by (cases e; cases f) (auto simp: write_extension_authority_def write_tag_cancel write_optional_tag_cancel text_record_cancel)
qed (use assms in \<open>auto simp: write_extension_authority_def write_tag_cancel\<close>)

lemma mode_bytes_cancel:
  "be_bytes 4 (unat (m :: 32 word)) @ s = be_bytes 4 (unat n) @ t \<longleftrightarrow> m = n \<and> s = t"
proof -
  have "unat m < 256 ^ 4" "unat n < 256 ^ 4" using unsigned_less[of m] unsigned_less[of n] by simp_all
  then have "be_bytes 4 (unat m) = be_bytes 4 (unat n) \<longleftrightarrow> m = n"
    using be_bytes_inj[of "unat m" 4 "unat n"] by (auto intro: unsigned_word_eqI)
  then show ?thesis by (auto simp: append_eq_append_conv)
qed

lemma write_exact_file_cancel:
  assumes "bf_max_bytes f < 2 ^ 64" "bf_max_bytes g < 2 ^ 64"
  shows "write_exact_file f @ s = write_exact_file g @ t \<longleftrightarrow> f = g \<and> s = t"
proof -
  have tag: "write_tag (if a then 1 else 0) @ s = write_tag (if b then 1 else 0) @ t \<longleftrightarrow> a = b \<and> s = t" for a b s t
    by (cases a; cases b) (simp_all add: write_tag_cancel)
  show ?thesis
    using assms by (cases f; cases g) (auto simp: write_exact_file_def tag write_tag_cancel mode_bytes_cancel write_count_eq split: option.splits)
qed

text \<open>Two streams that are each empty, or start with an item, or with an exact-file mark.\<close>

definition not_marked :: "string \<Rightarrow> bool" where
  "not_marked s \<longleftrightarrow> (case s of [] \<Rightarrow> True | c # _ \<Rightarrow> c \<noteq> CHR ''e'')"

lemma not_marked_items:
  assumes "\<forall>i\<in>set is. item_fits i"
  shows "not_marked (concat (map write_batch_item is))"
proof (cases "is")
  case (Cons i js)
  have "(of_char CHR ''e'' :: nat) = 101" by simp
  then have "CHR ''e'' = char_of (101 :: nat)" using char_of_char[of "CHR ''e''"] by metis
  moreover have "bi_kind_tag i < 6" using assms by (simp add: Cons item_fits_def)
  ultimately have "char_of (bi_kind_tag i) \<noteq> CHR ''e''" using char_of_inj[of "bi_kind_tag i" 101] by simp
  then show ?thesis by (simp add: Cons write_batch_item_def write_tag_def not_marked_def)
qed (simp add: not_marked_def)

lemma optional_exact_file_cancel:
  assumes "\<forall>x\<in>set_option f. bf_max_bytes x < 2 ^ 64" "\<forall>x\<in>set_option g. bf_max_bytes x < 2 ^ 64" "not_marked s" "not_marked t"
  shows "(case f of Some x \<Rightarrow> write_exact_file x | None \<Rightarrow> []) @ s = (case g of Some x \<Rightarrow> write_exact_file x | None \<Rightarrow> []) @ t
    \<longleftrightarrow> f = g \<and> s = t"
proof (cases f; cases g)
  fix x y assume "f = Some x" "g = Some y"
  then show ?thesis using assms(1,2) by (simp add: write_exact_file_cancel)
qed (use assms(3,4) in \<open>auto simp: write_exact_file_def EXACT_FILE_MARK_def not_marked_def\<close>)

lemma write_batch_item_cancel:
  assumes "item_fits i" "item_fits k" "not_marked s" "not_marked t"
  shows "write_batch_item i @ s = write_batch_item k @ t \<longleftrightarrow> i = k \<and> s = t"
proof -
  have small: "bi_kind_tag i < 256" "bi_kind_tag k < 256" "bi_disposition_tag i < 256" "bi_disposition_tag k < 256"
    using assms(1,2) by (simp_all add: item_fits_def)
  have fits: "fits_u64 (bi_asset_id i)" "fits_u64 (bi_asset_id k)" "fits_u64 (bi_destination i)" "fits_u64 (bi_destination k)"
    "fits_u64 (bi_relative_destination i)" "fits_u64 (bi_relative_destination k)" "fits_u64 (bi_plan_digest i)" "fits_u64 (bi_plan_digest k)"
    "fits_u64 (bi_new_target_hash i)" "fits_u64 (bi_new_target_hash k)"
    "\<forall>h\<in>set_option (bi_old_target_hash i). fits_u64 h" "\<forall>h\<in>set_option (bi_old_target_hash k). fits_u64 h"
    using assms(1,2) by (simp_all add: item_fits_def)
  have extension: "write_extension_authority (bi_extension i) @ u = write_extension_authority (bi_extension k) @ v
      \<longleftrightarrow> bi_extension i = bi_extension k \<and> u = v" for u v
    using assms(1,2) by (intro write_extension_cancel) (simp_all add: item_fits_def)
  have exact: "(case bi_exact_file i of Some x \<Rightarrow> write_exact_file x | None \<Rightarrow> []) @ s
      = (case bi_exact_file k of Some x \<Rightarrow> write_exact_file x | None \<Rightarrow> []) @ t \<longleftrightarrow> bi_exact_file i = bi_exact_file k \<and> s = t"
    using assms by (intro optional_exact_file_cancel) (simp_all add: item_fits_def)
  show ?thesis
    by (simp add: write_batch_item_def write_tag_cancel small text_record_cancel optional_text_cancel fits extension exact del: append_assoc
      add: append_assoc) (auto intro: batch_digest_item.equality)
qed

lemma batch_items_inj:
  assumes "length is = length ks" "\<forall>i\<in>set is. item_fits i" "\<forall>i\<in>set ks. item_fits i"
    and "concat (map write_batch_item is) = concat (map write_batch_item ks)"
  shows "is = ks"
  using assms
proof (induction "is" ks rule: list_induct2)
  case (Cons i "is" k ks)
  then have "write_batch_item i @ concat (map write_batch_item is) = write_batch_item k @ concat (map write_batch_item ks)" by simp
  then have "i = k \<and> concat (map write_batch_item is) = concat (map write_batch_item ks)"
    using Cons.prems(1,2) by (subst (asm) write_batch_item_cancel) (auto intro: not_marked_items)
  then show ?case using Cons by simp
qed simp

lemma batch_preimage_inj:
  assumes "batch_preimage is m o1 p1 a = batch_preimage ks n o2 p2 b"
    and "fits_u64 is" "fits_u64 ks" "\<forall>i\<in>set is. item_fits i" "\<forall>i\<in>set ks. item_fits i"
    and "fits_u64 m" "fits_u64 n" "fits_u64 o1" "fits_u64 o2" "fits_u64 p1" "fits_u64 p2"
    and "\<forall>x\<in>set_option a. fits_u64 x" "\<forall>x\<in>set_option b. fits_u64 x"
  shows "is = ks \<and> m = n \<and> o1 = o2 \<and> p1 = p2 \<and> a = b"
proof -
  have "m = n" "o1 = o2" "p1 = p2" "a = b"
    and rest: "write_count (length is) @ concat (map write_batch_item is) = write_count (length ks) @ concat (map write_batch_item ks)"
    using assms(1,6-) by (auto simp: batch_preimage_def text_record_cancel optional_text_cancel)
  moreover have "length is = length ks" "concat (map write_batch_item is) = concat (map write_batch_item ks)"
    using rest assms(2,3) by (simp_all add: fits_u64_def write_count_eq)
  ultimately show ?thesis using batch_items_inj assms(4,5) by blast
qed

end
