(* ===== verification/Apply_Batch_Identity.thy ===== *)
theory Apply_Batch_Identity
  imports Apply_Batch_Laws Batch_Digest_Laws Destinations
begin

text \<open>The batch digest of a validated journal stands for everything in it but the phase and the progresses.\<close>

section \<open>What validation settles about a participant\<close>

definition settled_participant :: "batch_journal \<Rightarrow> nat \<Rightarrow> batch_participant \<Rightarrow> bool" where
  "settled_participant j index p \<longleftrightarrow> bp_index p = index
     \<and> joined_destination (bp_target_anchor p) (bp_relative_destination p) = Ok (bp_destination p)
     \<and> expected_participant_path (bj_batch_digest j) index ''target'' (bp_relative_destination p) = Ok (bp_staging_target p)
     \<and> expected_participant_path (bj_batch_digest j) index ''backup'' (bp_relative_destination p) = Ok (bp_backup_target p)
     \<and> valid_kind_authority p"

lemma check_participant_settles:
  "check_participant H j (ds, pds) (i, p) = Ok r \<Longrightarrow> settled_participant j i p"
  apply (unfold check_participant_def prod.case)
  apply (unfold refused_or, elim conjE bind_result_OkE)+
  apply (unfold de_Morgan_disj not_not settled_participant_def)
  apply (elim conjE)
  apply simp
  done

lemma participants_settled:
  assumes "try_fold (check_participant H j) seen (enumerate n ps) = Ok r" "i < length ps"
  shows "settled_participant j (n + i) (ps ! i)"
  using assms
proof (induction ps arbitrary: n i seen)
  case (Cons p ps)
  obtain ds pds where seen: "seen = (ds, pds)" by (cases seen)
  obtain seen' where one: "check_participant H j (ds, pds) (n, p) = Ok seen'"
    and rest: "try_fold (check_participant H j) seen' (enumerate (Suc n) ps) = Ok r"
    using Cons.prems(1) by (auto simp: seen bind_result_Ok_iff)
  show ?case
  proof (cases i)
    case 0
    then show ?thesis using check_participant_settles[OF one] by simp
  next
    case (Suc k)
    then show ?thesis using Cons.IH[OF rest, of k] Cons.prems(2) by simp
  qed
qed simp

lemma validated_journal:
  assumes "validate_journal H j = Ok ()"
  shows "bj_schema_version j = BATCH_JOURNAL_SCHEMA_VERSION" "expected_state_path (bj_batch_digest j) = Ok (bj_staging_state j)"
    "length (bj_participants j) \<le> MAX_BATCH_PARTICIPANTS"
    "\<And>i. i < length (bj_participants j) \<Longrightarrow> settled_participant j i (bj_participants j ! i)"
    "batch_authority_digest H j = Ok (bj_batch_digest j)"
proof -
  have checks: "bj_schema_version j = BATCH_JOURNAL_SCHEMA_VERSION \<and> length (bj_participants j) \<le> MAX_BATCH_PARTICIPANTS
      \<and> expected_state_path (bj_batch_digest j) = Ok (bj_staging_state j)
      \<and> (\<exists>r. try_fold (check_participant H j) ([], []) (enumerate 0 (bj_participants j)) = Ok r)
      \<and> batch_authority_digest H j = Ok (bj_batch_digest j)"
    using assms unfolding validate_journal_def refused_or bind_result_Ok_iff case_prod_beta by auto
  then show "bj_schema_version j = BATCH_JOURNAL_SCHEMA_VERSION" "expected_state_path (bj_batch_digest j) = Ok (bj_staging_state j)"
    "length (bj_participants j) \<le> MAX_BATCH_PARTICIPANTS" "batch_authority_digest H j = Ok (bj_batch_digest j)" by blast+
  show "settled_participant j i (bj_participants j ! i)" if "i < length (bj_participants j)" for i
    using checks participants_settled[OF _ that, of H j "([], [])" 0] by auto
qed

section \<open>Fields\<close>

text \<open>What the types of the fields promise: normalized destinations, portable paths, and texts that fit in memory.\<close>

definition typed_participant :: "batch_participant \<Rightarrow> bool" where
  "typed_participant p \<longleftrightarrow> is_destination (bp_target_anchor p) \<and> is_portable_path (bp_relative_destination p)
     \<and> list_all fits_u64 ([bp_asset_id p, bp_destination p, bp_relative_destination p, bp_plan_digest p, bp_new_target_hash p]
         @ (case bp_old_target_hash p of Some h \<Rightarrow> [h] | None \<Rightarrow> [])
         @ (case bp_extension p of Some e \<Rightarrow> [xa_native_id e] | None \<Rightarrow> []))
     \<and> (case bp_exact_file p of Some f \<Rightarrow> xf_max_bytes f < 2 ^ 64 | None \<Rightarrow> True)"

definition typed_journal :: "batch_journal \<Rightarrow> bool" where
  "typed_journal j \<longleftrightarrow> list_all typed_participant (bj_participants j)
     \<and> list_all fits_u64 ([bj_manifest_revision j, bj_old_state_hash j, bj_new_state_hash j]
         @ (case bj_active_profile j of Some p \<Rightarrow> [p] | None \<Rightarrow> []))"

lemma tags_small:
  "kind_digest_tag k < 6" "disposition_digest_tag d < 256" "layout_digest_tag l < 256"
  by (simp_all add: kind_digest_tag_def disposition_digest_tag_def layout_digest_tag_def batch_tag_defs
    split: participant_kind.split stored_disposition.split native_extension_layout.split)

lemma tags_inj [simp]:
  "kind_digest_tag k = kind_digest_tag k' \<longleftrightarrow> k = k'" "disposition_digest_tag d = disposition_digest_tag d' \<longleftrightarrow> d = d'"
  "layout_digest_tag l = layout_digest_tag l' \<longleftrightarrow> l = l'"
  by (simp_all add: kind_digest_tag_def disposition_digest_tag_def layout_digest_tag_def batch_tag_defs
    split: participant_kind.split stored_disposition.split native_extension_layout.split)

lemma typed_item_fits: "typed_participant p \<Longrightarrow> item_fits (participant_digest_item p)"
  using tags_small
  by (auto simp: typed_participant_def item_fits_def participant_digest_item_def split: option.splits)

lemma same_anchor:
  assumes "is_destination a" "is_destination b" "is_portable_path rel"
    and "joined_destination a rel = Ok d" "joined_destination b rel = Ok d"
  shows "a = b"
proof -
  obtain r cs r' cs' where ab: "wf_dest r cs" "a = dest_text r cs" "wf_dest r' cs'" "b = dest_text r' cs'"
    using assms(1,2) by (auto simp: is_destination_iff)
  have "d = dest_text r (cs @ split_on CHR ''/'' rel) \<and> wf_dest r (cs @ split_on CHR ''/'' rel)"
    "d = dest_text r' (cs' @ split_on CHR ''/'' rel) \<and> wf_dest r' (cs' @ split_on CHR ''/'' rel)"
    using destination_join_components[OF ab(1) assms(3)] destination_join_components[OF ab(3) assms(3)] assms(4,5) ab(2,4)
    by (auto simp: joined_destination_def map_err_Ok_iff)
  then have "r = r' \<and> cs = cs'" using dest_text_inj by (metis append_same_eq)
  then show ?thesis using ab by simp
qed

lemma extension_entrypoint:
  "valid_kind_authority p \<Longrightarrow> bp_extension p = Some e \<Longrightarrow>
   xa_entrypoint e = (case xa_layout e of StandaloneExtension \<Rightarrow> xa_native_id e @ ''.ts'' | DirectoryExtension \<Rightarrow> ''index.ts'')"
  by (auto simp: valid_kind_authority_def valid_native_extension_identity_def split: participant_kind.splits option.splits
    native_extension_layout.splits if_splits)

lemma same_extension:
  assumes "valid_kind_authority p" "valid_kind_authority q" "bi_extension (participant_digest_item p) = bi_extension (participant_digest_item q)"
  shows "bp_extension p = bp_extension q"
proof (cases "bp_extension p"; cases "bp_extension q")
  fix e f assume some: "bp_extension p = Some e" "bp_extension q = Some f"
  then have "xa_layout e = xa_layout f" "xa_native_id e = xa_native_id f"
    "map_option layout_digest_tag (xa_old_layout e) = map_option layout_digest_tag (xa_old_layout f)"
    using assms(3) by (simp_all add: participant_digest_item_def)
  moreover from this(3) have "xa_old_layout e = xa_old_layout f" by (cases "xa_old_layout e"; cases "xa_old_layout f") simp_all
  ultimately have "e = f" using extension_entrypoint[OF assms(1) some(1)] extension_entrypoint[OF assms(2) some(2)]
    by (intro stored_extension_authority.equality) (simp_all split: native_extension_layout.split)
  then show ?thesis using some by simp
qed (use assms(3) in \<open>simp_all add: participant_digest_item_def\<close>)

lemma same_exact_file:
  assumes "bi_exact_file (participant_digest_item p) = bi_exact_file (participant_digest_item q)"
  shows "bp_exact_file p = bp_exact_file q"
  using assms by (cases "bp_exact_file p"; cases "bp_exact_file q") (auto simp: participant_digest_item_def)

lemma same_participant_fields:
  assumes "settled_participant j i p" "settled_participant k i q" "bj_batch_digest j = bj_batch_digest k"
    and "typed_participant p" "typed_participant q" "participant_digest_item p = participant_digest_item q"
  shows "unstarted p = unstarted q"
proof -
  have fields: "bp_kind p = bp_kind q" "bp_disposition p = bp_disposition q" "bp_asset_id p = bp_asset_id q" "bp_destination p = bp_destination q"
    "bp_relative_destination p = bp_relative_destination q" "bp_plan_digest p = bp_plan_digest q" "bp_old_target_hash p = bp_old_target_hash q"
    "bp_new_target_hash p = bp_new_target_hash q"
    using assms(6) by (simp_all add: participant_digest_item_def)
  have "bp_index p = bp_index q" "bp_staging_target p = bp_staging_target q" "bp_backup_target p = bp_backup_target q"
    using assms(1-3) fields(5) by (auto simp: settled_participant_def)
  moreover have "bp_target_anchor p = bp_target_anchor q"
    using assms(1,2,4,5) fields(4,5) by (auto simp: settled_participant_def typed_participant_def intro: same_anchor)
  moreover have "bp_extension p = bp_extension q"
    using same_extension assms(1,2,6) by (simp add: settled_participant_def)
  moreover have "bp_exact_file p = bp_exact_file q" by (rule same_exact_file) (simp add: assms(6))
  ultimately show ?thesis using fields by (intro batch_participant.equality) (simp_all only: unstarted_simps, simp)
qed

section \<open>The digest\<close>

lemma content_hash_of: "content_hash_parse v = Ok d \<Longrightarrow> d = v"
  by (simp add: content_hash_parse_def qualified_digest_parse_Ok)

definition journal_preimage :: "batch_journal \<Rightarrow> string" where
  "journal_preimage j = batch_preimage (map participant_digest_item (bj_participants j)) (bj_manifest_revision j)
     (bj_old_state_hash j) (bj_new_state_hash j) (bj_active_profile j)"

lemma batch_digest_of:
  assumes "validate_journal H j = Ok ()"
  shows "bj_batch_digest j = ''blake3:'' @ H (journal_preimage j)"
  using validated_journal(5)[OF assms]
  by (auto simp: batch_authority_digest_def derive_batch_digest_from_authority_def map_err_Ok_iff journal_preimage_def dest: content_hash_of)

lemma same_digest_same_authority:
  assumes j: "validate_journal H j = Ok ()" "typed_journal j" and k: "validate_journal H k = Ok ()" "typed_journal k"
    and "journal_preimage j = journal_preimage k"
  shows "batch_authority j = batch_authority k"
proof -
  have fit: "fits_u64 (map participant_digest_item (bj_participants i))" "\<forall>x\<in>set (map participant_digest_item (bj_participants i)). item_fits x"
    if "validate_journal H i = Ok ()" "typed_journal i" for i
    using validated_journal(3)[OF that(1)] that(2) typed_item_fits
    by (auto simp: MAX_BATCH_PARTICIPANTS_def fits_u64_def typed_journal_def list_all_iff)
  have parts: "map participant_digest_item (bj_participants j) = map participant_digest_item (bj_participants k)"
    "bj_manifest_revision j = bj_manifest_revision k" "bj_old_state_hash j = bj_old_state_hash k" "bj_new_state_hash j = bj_new_state_hash k"
    "bj_active_profile j = bj_active_profile k"
    using batch_preimage_inj[OF assms(5)[unfolded journal_preimage_def] fit(1)[OF j] fit(1)[OF k] fit(2)[OF j] fit(2)[OF k]] j(2) k(2)
    by (auto simp: typed_journal_def split: option.splits)
  have digest: "bj_batch_digest j = bj_batch_digest k" using batch_digest_of[OF j(1)] batch_digest_of[OF k(1)] assms(5) by simp
  have "map unstarted (bj_participants j) = map unstarted (bj_participants k)"
  proof (rule nth_equalityI)
    show len: "length (map unstarted (bj_participants j)) = length (map unstarted (bj_participants k))"
      using map_eq_imp_length_eq[OF parts(1)] by simp
    fix i assume "i < length (map unstarted (bj_participants j))"
    then have i: "i < length (bj_participants j)" "i < length (bj_participants k)" using len by simp_all
    have "participant_digest_item (bj_participants j ! i) = participant_digest_item (bj_participants k ! i)"
      using arg_cong[OF parts(1), of "\<lambda>xs. xs ! i"] i by simp
    then show "map unstarted (bj_participants j) ! i = map unstarted (bj_participants k) ! i"
      using same_participant_fields[OF validated_journal(4)[OF j(1) i(1)] validated_journal(4)[OF k(1) i(2)] digest] j(2) k(2) i
      by (simp add: typed_journal_def list_all_length)
  qed
  moreover have "bj_staging_state j = bj_staging_state k" "bj_schema_version j = bj_schema_version k"
    using validated_journal(1,2)[OF j(1)] validated_journal(1,2)[OF k(1)] digest by simp_all
  ultimately show ?thesis using parts(2-5) digest by (intro batch_journal.equality) (simp_all only: batch_authority_simps, simp)
qed

end
