(* ===== verification/Apply_Batch_Samples.thy ===== *)
theory Apply_Batch_Samples
  imports Apply_Batch_Identity Manifest_Validity
begin

text \<open>A small batch of one skill to install, its plan, and a codec that knows two of its journals.\<close>

definition sample_participant :: batch_participant where
  "sample_participant =
     \<lparr>bp_index = 0, bp_kind = KindSkill, bp_progress = Unstaged, bp_disposition = Install, bp_plan_digest = sample_hash,
      bp_asset_id = ''run'', bp_target_anchor = ''/home/dev'', bp_destination = ''/home/dev/skills/run'',
      bp_relative_destination = ''skills/run'',
      bp_staging_target = ''.kitrove/atomic-apply/'' @ replicate 64 CHR ''a'' @ ''/0000/target/run'',
      bp_backup_target = ''.kitrove/atomic-apply/'' @ replicate 64 CHR ''a'' @ ''/0000/backup/run'',
      bp_old_target_hash = None, bp_new_target_hash = sample_hash, bp_extension = None, bp_exact_file = None\<rparr>"

definition sample_batch :: batch_journal where
  "sample_batch =
     \<lparr>bj_schema_version = 6, bj_phase = Preparing, bj_batch_digest = sample_hash, bj_manifest_revision = ''local:1'',
      bj_active_profile = None, bj_staging_state = ''.kitrove/atomic-apply/'' @ replicate 64 CHR ''a'' @ ''/state.json'',
      bj_old_state_hash = sample_hash, bj_new_state_hash = sample_hash, bj_participants = [sample_participant]\<rparr>"

definition sample_plan :: apply_batch_plan where
  "sample_plan =
     \<lparr>ap_digest = sample_hash,
      ap_items = [\<lparr>ai_disposition = Install, ai_digest = sample_hash, ai_asset_id = ''run'', ai_target_anchor = Ok ''/home/dev'',
        ai_destination = ''/home/dev/skills/run'', ai_relative_destination = ''skills/run'',
        ai_authority = Ok \<lparr>pa_kind = KindSkill, pa_old_target_hash = None, pa_new_target_hash = sample_hash,
          pa_extension = None, pa_exact_file = None\<rparr>\<rparr>],
      ap_manifest_revision = ''local:1'', ap_active_profile = None,
      ap_observed_local_state_text = ''{}'', ap_proposed_local_state_text = ''{ }''\<rparr>"

definition sample_next_batch :: batch_journal where
  "sample_next_batch = sample_batch\<lparr>bj_participants := [sample_participant\<lparr>bp_progress := StagingPending\<rparr>]\<rparr>"

definition sample_encode :: "batch_journal \<Rightarrow> string option" where
  "sample_encode j = (if j = sample_batch then Some ''one'' else if j = sample_next_batch then Some ''two'' else None)"

definition sample_decode :: "string \<Rightarrow> batch_journal option" where
  "sample_decode t = (if t = ''one'' @ [CHR 0x0A] then Some sample_batch
     else if t = ''two'' @ [CHR 0x0A] then Some sample_next_batch else None)"

lemma sample_paths:
  "expected_state_path sample_hash = Ok (bj_staging_state sample_batch)"
  "expected_participant_path sample_hash 0 ''target'' ''skills/run'' = Ok (bp_staging_target sample_participant)"
  "expected_participant_path sample_hash 0 ''backup'' ''skills/run'' = Ok (bp_backup_target sample_participant)"
  "joined_destination ''/home/dev'' ''skills/run'' = Ok ''/home/dev/skills/run''"
  by code_simp+

lemma sample_ancestors: "strict_ancestor_strings ''/home/dev/skills/run'' = [''/'', ''/home'', ''/home/dev'', ''/home/dev/skills'']"
  by code_simp

lemma sample_batch_digest: "derive_batch_digest_from_authority sample_digest is m old_hash new_hash p = Ok sample_hash"
proof -
  have "content_hash_parse sample_hash = Ok sample_hash" by code_simp
  then show ?thesis by (simp add: derive_batch_digest_from_authority_def sample_digest_def sample_hash_def)
qed

lemma sample_participant_checks:
  "valid_kind_authority sample_participant" "valid_hash_authority H sample_participant" "valid_progress Preparing sample_participant"
  by (simp_all add: valid_kind_authority_def valid_hash_authority_def valid_progress_def sample_participant_def)

lemma sample_fields:
  "bp_index sample_participant = 0" "bp_destination sample_participant = ''/home/dev/skills/run''"
  "bp_plan_digest sample_participant = sample_hash" "bp_target_anchor sample_participant = ''/home/dev''"
  "bp_relative_destination sample_participant = ''skills/run''" "bp_disposition sample_participant = Install"
  "bp_progress sample_participant = Unstaged" "bp_old_target_hash sample_participant = None"
  "bp_extension sample_participant = None" "bp_exact_file sample_participant = None" "bp_asset_id sample_participant = ''run''"
  "bp_new_target_hash sample_participant = sample_hash"
  "bj_schema_version sample_batch = 6" "bj_phase sample_batch = Preparing" "bj_batch_digest sample_batch = sample_hash"
  "bj_participants sample_batch = [sample_participant]" "bj_manifest_revision sample_batch = ''local:1''"
  "bj_old_state_hash sample_batch = sample_hash" "bj_new_state_hash sample_batch = sample_hash" "bj_active_profile sample_batch = None"
  by (simp_all add: sample_participant_def sample_batch_def)

lemma sample_check:
  "check_participant H sample_batch ([], []) (0, sample_participant) = Ok ([''/home/dev/skills/run''], [sample_hash])"
proof -
  have "\<not> starts_with ''.kitrove/'' ''skills/run''" by code_simp
  then show ?thesis by (simp add: check_participant_def sample_fields sample_paths sample_participant_checks)
qed

lemma sample_batch_valid: "validate_journal sample_digest sample_batch = Ok ()"
  by (simp add: validate_journal_def sample_fields sample_paths sample_check sample_ancestors BATCH_JOURNAL_SCHEMA_VERSION_def
    MAX_BATCH_PARTICIPANTS_def batch_authority_digest_def sample_batch_digest)

lemma sample_initial: "initial_journal sample_digest sample_plan = Ok sample_batch"
proof -
  have "prepared_participant sample_hash (0, hd (ap_items sample_plan)) = Ok sample_participant"
    by (simp add: prepared_participant_def sample_plan_def sample_paths) (simp add: sample_participant_def)
  then have participants: "try_map (prepared_participant sample_hash) (enumerate 0 (ap_items sample_plan)) = Ok [sample_participant]"
    by (simp add: sample_plan_def)
  have hashes: "content_hash_digest sample_digest t = sample_hash" for t
    by (simp add: content_hash_digest_def sample_digest_def sample_hash_def)
  have "\<lparr>bj_schema_version = BATCH_JOURNAL_SCHEMA_VERSION, bj_phase = Preparing, bj_batch_digest = sample_hash,
      bj_manifest_revision = ''local:1'', bj_active_profile = None, bj_staging_state = bj_staging_state sample_batch,
      bj_old_state_hash = sample_hash, bj_new_state_hash = sample_hash, bj_participants = [sample_participant]\<rparr> = sample_batch"
    by (simp add: sample_batch_def BATCH_JOURNAL_SCHEMA_VERSION_def)
  moreover have "ap_digest sample_plan = sample_hash" "ap_manifest_revision sample_plan = ''local:1''" "ap_active_profile sample_plan = None"
    by (simp_all add: sample_plan_def)
  ultimately show ?thesis
    using sample_batch_valid by (simp add: initial_journal_def participants sample_paths hashes)
qed

lemma sample_batches_differ: "sample_batch \<noteq> sample_next_batch"
  by (simp add: sample_next_batch_def sample_batch_def sample_participant_def)

lemma sample_step: "transition_participant sample_batch 0 StagingPending = Ok sample_next_batch"
  by (simp add: transition_participant_def valid_participant_transition_def sample_next_batch_def sample_batch_def sample_participant_def)

lemma sample_next_valid: "validate_journal sample_digest sample_next_batch = Ok ()"
proof -
  have "batch_authority sample_next_batch = batch_authority sample_batch"
    using sample_step by (intro batch_step_authority) (auto simp: batch_step_def)
  moreover have "validate_journal sample_digest (batch_authority sample_batch) = Ok ()"
    using sample_batch_valid validate_journal_progress by blast
  moreover have "list_all (valid_progress (bj_phase sample_next_batch)) (bj_participants sample_next_batch)"
    by (simp add: sample_next_batch_def valid_progress_def sample_fields)
  ultimately show ?thesis using validate_journal_progress[of sample_digest sample_next_batch] by simp
qed

end
