(* ===== verification/Guarded_Laws.thy ===== *)
theory Guarded_Laws
  imports Guarded_Journals
begin

text \<open>
  What guarded replacement promises: at every point where a crash can stop it, inspection and
  reconciliation find one of the two journals, and agree on which.
\<close>

section \<open>Runs as lists of stores\<close>

text \<open>A run without torn writes is the list of stores it passes through and its result.\<close>

definition passes :: "('e, 'a) effect \<Rightarrow> text_store \<Rightarrow> text_store list \<Rightarrow> 'e + 'a \<Rightarrow> bool" where
  "passes m s ss r \<longleftrightarrow> (\<forall>torn n. m torn n s =
     (if n < length ss then Crashed ((s # ss) ! n) else Finished (n - length ss) (last (s # ss)) r))"

named_theorems passes_intros "how the effects run"

lemma passes_returning [passes_intros]: "passes (returning r) s [] r"
  by (simp add: passes_def returning_run)

lemma passes_bind:
  assumes "passes m s ss (Inr x)" "passes (k x) (last (s # ss)) ts r" "us = ss @ ts"
  shows "passes (bind_effect m k) s us r"
  unfolding passes_def
proof (intro allI)
  fix torn n
  have "m torn n s = (if n < length ss then Crashed ((s # ss) ! n) else Finished (n - length ss) (last (s # ss)) (Inr x))"
    using assms(1) by (simp add: passes_def)
  moreover have "k x torn (n - length ss) (last (s # ss)) =
      (if n - length ss < length ts then Crashed ((last (s # ss) # ts) ! (n - length ss))
       else Finished (n - length ss - length ts) (last (last (s # ss) # ts)) r)"
    using assms(2) by (simp add: passes_def)
  moreover have "(s # ss @ ts) ! n = (last (s # ss) # ts) ! (n - length ss)" if "\<not> n < length ss"
    using that by (cases ss rule: rev_cases) (auto simp: nth_append nth_Cons')
  moreover have "(s # ss @ ts) ! n = (s # ss) ! n" if "n < length ss"
    using that by (auto simp: nth_append nth_Cons')
  ultimately show "bind_effect m k torn n s = (if n < length us then Crashed ((s # us) ! n) else Finished (n - length us) (last (s # us)) r)"
    by (auto simp: bind_effect_def assms(3))
qed

lemma passes_bind_err:
  "passes m s ss (Inl e) \<Longrightarrow> passes (bind_effect m k) s ss (Inl e)"
  by (simp add: passes_def bind_effect_def)

lemma passes_storage:
  "passes m s ss r \<Longrightarrow> passes (storage m) s ss (case r of Inl _ \<Rightarrow> Inl Storage | Inr x \<Rightarrow> Inr x)"
  by (auto simp: passes_def map_effect_err_def split: sum.splits)

lemma passes_authority: "passes (authority r) s [] (case r of Inl e \<Rightarrow> Inl (Authority e) | Inr x \<Rightarrow> Inr x)"
  unfolding authority_def by (rule passes_returning)

lemma passes_unique:
  assumes "passes m s ss r" "passes m s ts q"
  shows "ss = ts \<and> r = q"
proof -
  have run: "(if n < length ss then Crashed ((s # ss) ! n) else Finished (n - length ss) (last (s # ss)) r)
      = (if n < length ts then Crashed ((s # ts) ! n) else Finished (n - length ts) (last (s # ts)) q)" for n
    using assms unfolding passes_def by metis
  have len: "length ss = length ts"
    using run[of "length ss"] run[of "length ts"] by (auto split: if_splits)
  have "r = q" using run[of "length ss"] len by simp
  moreover have "ss = ts"
  proof (rule nth_equalityI[OF len])
    fix i assume i: "i < length ss"
    show "ss ! i = ts ! i"
    proof (cases "Suc i < length ss")
      case True
      then show ?thesis using run[of "Suc i"] len by simp
    next
      case False
      then have "i = length ss - 1" using i by simp
      moreover have "last (s # ss) = last (s # ts)" using run[of "length ss"] len by simp
      moreover have "ss \<noteq> []" "ts \<noteq> []" using i len by auto
      ultimately show ?thesis using len by (simp add: last_conv_nth)
    qed
  qed
  ultimately show ?thesis by simp
qed

lemma passes_returning_iff [simp]: "passes (returning r) s ss q \<longleftrightarrow> ss = [] \<and> r = q"
  using passes_unique[OF passes_returning, of r s ss q] passes_returning by auto

text \<open>An effect that only reads can be run at once.\<close>

lemma passes_bind_reading:
  assumes "passes m s [] (Inr x)"
  shows "passes (bind_effect m k) s ts r \<longleftrightarrow> passes (k x) s ts r"
  using assms by (simp add: passes_def bind_effect_def)

section \<open>The primitives\<close>

definition readable :: "nat \<Rightarrow> string \<Rightarrow> bool" where
  "readable max_bytes t \<longleftrightarrow> length t \<le> max_bytes \<and> is_text t"

lemma passes_read [passes_intros]:
  "(case s p of None \<Rightarrow> True | Some t \<Rightarrow> readable max_bytes t) \<Longrightarrow> passes (read_text p max_bytes) s [] (Ok (s p))"
  by (auto simp: passes_def read_text_def readable_def split: option.splits)

lemma passes_read_err:
  "s p = Some t \<Longrightarrow> \<not> readable max_bytes t \<Longrightarrow> passes (read_text p max_bytes) s [] (Err ''object.control_file_invalid'')"
  by (auto simp: passes_def read_text_def readable_def)

lemma passes_durable: "passes (durable f x) s [f s] (Inr x)"
  by (auto simp: passes_def durable_def split: nat.splits)

lemma passes_move:
  "s a = Some t \<Longrightarrow> s b = None \<Longrightarrow> passes (move_noreplace a b) s [s(b := Some t, a := None)] (Inr True)"
  using passes_durable[of "\<lambda>s. s(b := s a, a := None)" True s] by (simp add: passes_def move_noreplace_def)

lemma passes_exchange:
  "s a = Some t \<Longrightarrow> s b = Some u \<Longrightarrow> passes (exchange a b) s [s(a := Some u, b := Some t)] (Inr True)"
  using passes_durable[of "\<lambda>s. s(a := s b, b := s a)" True s] by (simp add: passes_def exchange_def)

lemma passes_remove:
  "s a = Some t \<Longrightarrow> passes (remove_regular_file_if_present a) s [s(a := None)] (Inr ())"
  using passes_durable[of "\<lambda>s. s(a := None)" "()" s] by (simp add: passes_def remove_regular_file_if_present_def)

lemma passes_remove_absent:
  "s a = None \<Longrightarrow> passes (remove_regular_file_if_present a) s [] (Inr ())"
  by (simp add: passes_def remove_regular_file_if_present_def)

lemma passes_read_bind:
  assumes "\<And>t. s p = Some t \<Longrightarrow> readable max_bytes t" "passes (k (s p)) s ts r"
  shows "passes (bind_effect (read_text p max_bytes) k) s ts r"
proof -
  have "passes (read_text p max_bytes) s [] (Ok (s p))" using assms(1) by (auto intro!: passes_read split: option.split)
  then show ?thesis by (rule passes_bind) (use assms(2) in auto)
qed

lemma passes_step_bind:
  assumes "passes m s [s'] (Inr x)" "u = s'" "passes (k x) u ts r"
  shows "passes (bind_effect m k) s (u # ts) r"
  by (rule passes_bind[OF assms(1)]) (use assms(2,3) in auto)

lemma passes_step: "passes m s [s'] r \<Longrightarrow> u = s' \<Longrightarrow> passes m s [u] r"
  by simp

lemma bind_effect_assoc: "bind_effect (bind_effect m f) k = bind_effect m (\<lambda>x. bind_effect (f x) k)"
  by (auto simp: bind_effect_def fun_eq_iff split: outcome.splits sum.splits)

section \<open>Installing a staged text\<close>

text \<open>The three files of one guarded journal.\<close>

definition guarded_files :: "string \<Rightarrow> string \<Rightarrow> string \<Rightarrow> bool" where
  "guarded_files live pending backup \<longleftrightarrow>
     guarded_backup_path pending = Ok backup \<and> live \<noteq> pending \<and> live \<noteq> backup \<and> pending \<noteq> backup"

abbreviation files :: "text_store \<Rightarrow> string \<Rightarrow> string \<Rightarrow> string \<Rightarrow> string option \<times> string option \<times> string option" where
  "files s live pending backup \<equiv> (s live, s pending, s backup)"

lemmas run_step = passes_read_bind passes_step_bind[OF passes_exchange] passes_step_bind[OF passes_move]
  passes_step_bind[OF passes_remove] passes_step[OF passes_remove] passes_remove_absent passes_returning

lemmas run_simps = bind_effect_assoc require_moved_def install_staged_text_guarded_def install_staged_text_def
  install_by_exchange_def install_by_backup_def restore_guarded_backup_def

lemma guarded_files_facts:
  assumes "guarded_files live pending backup"
  shows "guarded_backup_path pending = Ok backup" "live \<noteq> pending" "live \<noteq> backup" "pending \<noteq> backup"
    "pending \<noteq> live" "backup \<noteq> live" "backup \<noteq> pending"
  using assms by (auto simp: guarded_files_def)

lemma passes_install_first:
  assumes "guarded_files live pending backup" "s live = None" "s pending = Some new" "s backup = None" "readable max_bytes new"
  shows "passes (install_staged_text_guarded ex pending live None new max_bytes) s [s(live := Some new, pending := None)] (Ok ())"
  using guarded_files_facts[OF assms(1)] assms(2-)
  by (simp add: run_simps) (rule run_step | simp add: run_simps | simp add: fun_eq_iff)+

lemma passes_install_exchange:
  assumes "guarded_files live pending backup" "s live = Some old" "s pending = Some new" "s backup = None"
    and "readable max_bytes old" "readable max_bytes new" "old \<noteq> new"
  shows "passes (install_staged_text_guarded True pending live (Some old) new max_bytes) s
    [s(pending := Some old, live := Some new), s(live := Some new, pending := None)] (Ok ())"
  using guarded_files_facts[OF assms(1)] assms(2-)
  by (simp add: run_simps) (rule run_step | simp add: run_simps | simp add: fun_eq_iff)+

lemma passes_install_backup:
  assumes "guarded_files live pending backup" "s live = Some old" "s pending = Some new" "s backup = None"
    and "readable max_bytes old" "readable max_bytes new" "old \<noteq> new"
  shows "passes (install_staged_text_guarded False pending live (Some old) new max_bytes) s
    [s(backup := Some old, live := None), s(backup := Some old, live := Some new, pending := None),
     s(live := Some new, pending := None)] (Ok ())"
  using guarded_files_facts[OF assms(1)] assms(2-)
  by (simp add: run_simps) (rule run_step | simp add: run_simps | simp add: fun_eq_iff)+

section \<open>Reading the three files\<close>

definition all_readable :: "nat \<Rightarrow> text_store \<Rightarrow> string list \<Rightarrow> bool" where
  "all_readable max_bytes s ps \<longleftrightarrow> (\<forall>p\<in>set ps. \<forall>t. s p = Some t \<longrightarrow> readable max_bytes t)"

lemma passes_storage_Ok: "passes m s ss (Inr x) \<Longrightarrow> passes (storage m) s ss (Inr x)"
  using passes_storage[of m s ss "Inr x"] by simp

lemma storage_returning [simp]: "storage (returning (Inr x)) = returning (Inr x)"
  by (simp add: map_effect_err_def returning_def fun_eq_iff)

lemma authority_simps [simp]:
  "authority (Inr x) = returning (Inr x)" "authority (Inl e) = returning (Inl (Authority e))"
  by (simp_all add: authority_def)

lemma passes_storage_read: "(\<And>t. s p = Some t \<Longrightarrow> readable max_bytes t) \<Longrightarrow> passes (storage (read_text p max_bytes)) s [] (Inr (s p))"
  by (rule passes_storage_Ok, rule passes_read) (auto split: option.split)

lemma passes_storage_read_bind:
  assumes "\<And>t. s p = Some t \<Longrightarrow> readable max_bytes t" "passes (k (s p)) s ts r"
  shows "passes (bind_effect (storage (read_text p max_bytes)) k) s ts r"
  by (rule passes_bind[OF passes_storage_read[where max_bytes = max_bytes]]) (use assms in auto)

lemma passes_storage_read_refused:
  assumes "s p = Some t" "\<not> readable max_bytes t"
  shows "passes (bind_effect (storage (read_text p max_bytes)) k) s [] (Inl Storage)"
proof -
  have "passes (read_text p max_bytes) s [] (Err ''object.control_file_invalid'')"
    using assms by (rule passes_read_err)
  from passes_storage[OF this] show ?thesis by (auto intro: passes_bind_err)
qed

lemma passes_read_texts:
  assumes "guarded_files live pending backup"
  shows "passes (read_texts live pending max_bytes) s []
    (if all_readable max_bytes s [live, pending, backup]
     then Inr \<lparr>gt_current = s live, gt_pending = s pending, gt_backup = s backup\<rparr> else Inl Storage)"
proof -
  note facts = guarded_files_facts[OF assms]
  consider "all_readable max_bytes s [live, pending, backup]"
    | t where "s live = Some t" "\<not> readable max_bytes t"
    | t where "\<And>u. s live = Some u \<Longrightarrow> readable max_bytes u" "s pending = Some t" "\<not> readable max_bytes t"
    | t where "\<And>u. s live = Some u \<Longrightarrow> readable max_bytes u" "\<And>u. s pending = Some u \<Longrightarrow> readable max_bytes u"
        "s backup = Some t" "\<not> readable max_bytes t"
    by (simp add: all_readable_def) metis
  then show ?thesis
  proof cases
    case 1
    then have "\<And>t. s live = Some t \<Longrightarrow> readable max_bytes t" "\<And>t. s pending = Some t \<Longrightarrow> readable max_bytes t"
      "\<And>t. s backup = Some t \<Longrightarrow> readable max_bytes t" by (auto simp: all_readable_def)
    then show ?thesis using 1 by (auto simp: read_texts_def facts(1) intro!: passes_storage_read_bind passes_returning)
  next
    case 2
    then show ?thesis by (simp add: read_texts_def facts(1) all_readable_def passes_storage_read_refused)
  next
    case 3
    then have "\<not> all_readable max_bytes s [live, pending, backup]" by (auto simp: all_readable_def)
    then show ?thesis
      by (simp add: read_texts_def facts(1) passes_storage_read_refused[of s pending, OF 3(2,3)]
        passes_storage_read_bind[of s live max_bytes, OF 3(1)])
  next
    case 4
    then have "\<not> all_readable max_bytes s [live, pending, backup]" by (auto simp: all_readable_def)
    then show ?thesis
      by (simp add: read_texts_def facts(1) passes_storage_read_refused[of s backup, OF 4(3,4)]
        passes_storage_read_bind[of s live max_bytes, OF 4(1)] passes_storage_read_bind[of s pending max_bytes, OF 4(2)])
  qed
qed

lemma passes_read_texts_bind:
  assumes "guarded_files live pending backup"
  shows "\<not> all_readable max_bytes s [live, pending, backup] \<Longrightarrow>
      passes (bind_effect (read_texts live pending max_bytes) k) s [] (Inl Storage)"
    and "all_readable max_bytes s [live, pending, backup] \<Longrightarrow>
      passes (k \<lparr>gt_current = s live, gt_pending = s pending, gt_backup = s backup\<rparr>) s ts r \<Longrightarrow>
      passes (bind_effect (read_texts live pending max_bytes) k) s ts r"
  using passes_read_texts[OF assms, of max_bytes s] by (auto intro: passes_bind_err passes_bind)

lemma passes_with_texts:
  assumes "guarded_files live pending backup" "all_readable max_bytes s [live, pending, backup]"
  shows "passes (bind_effect (read_texts live pending max_bytes) k) s ts r \<longleftrightarrow>
    passes (k \<lparr>gt_current = s live, gt_pending = s pending, gt_backup = s backup\<rparr>) s ts r"
  by (rule passes_bind_reading) (use passes_read_texts[OF assms(1), of max_bytes s] assms(2) in simp)

section \<open>Runs that crash\<close>

lemma passes_crashed: "passes m s ss r \<Longrightarrow> m torn n s = Crashed s' \<Longrightarrow> s' \<in> set (s # ss)"
  by (auto simp: passes_def simp del: set_simps intro!: nth_mem split: if_splits)

lemma passes_finishes: "passes m s ss r \<Longrightarrow> m torn (n + length ss) s = Finished n (last (s # ss)) r"
  by (simp add: passes_def)

text \<open>One crash of a program.\<close>

definition crashes :: "('e, 'a) effect \<Rightarrow> text_store \<Rightarrow> text_store \<Rightarrow> bool" where
  "crashes m s s' \<longleftrightarrow> (\<exists>torn n. m torn n s = Crashed s')"

text \<open>The only file that can be torn is the staged one.\<close>

lemma stage_run:
  assumes "s pending = None"
  shows "bind_effect (stage_text pending contents max_bytes) k torn n s = (case n of
      0 \<Rightarrow> Crashed (case torn of None \<Rightarrow> s | Some t \<Rightarrow> s(pending \<mapsto> take t contents))
    | Suc n' \<Rightarrow> k () torn n' (s(pending \<mapsto> contents)))"
  using assms by (simp add: bind_effect_def stage_text_def read_text_def write_new_file_def split: nat.split)

end
