(* ===== verification/Journal_Recovery.thy ===== *)
theory Journal_Recovery
  imports Guarded_Laws
begin

text \<open>
  Recovery of guarded journals, for every journal whose transitions cannot be undone: inspection predicts
  what reconciliation keeps, and any number of crashes during replacement and recovery leaves one of the
  two journals of the replacement.
\<close>

text \<open>Only the live file is left, with a text of the journal.\<close>

definition settled_on ::
  "string \<Rightarrow> string \<Rightarrow> string \<Rightarrow> nat \<Rightarrow> (string \<Rightarrow> 'j result) \<Rightarrow> text_store \<Rightarrow> 'j option \<Rightarrow> text_store \<Rightarrow> bool" where
  "settled_on live pending backup max_bytes parse s j s' \<longleftrightarrow>
     s' pending = None \<and> s' backup = None
     \<and> (case j of None \<Rightarrow> s' live = None | Some v \<Rightarrow> \<exists>t. s' live = Some t \<and> readable max_bytes t \<and> parse t = Ok v)
     \<and> (\<forall>p. p \<noteq> live \<longrightarrow> p \<noteq> pending \<longrightarrow> p \<noteq> backup \<longrightarrow> s' p = s p)"

text \<open>The stores between the two ends of a replacement, crashes of its recovery included.\<close>

definition mid_replacement ::
  "string \<Rightarrow> string \<Rightarrow> string \<Rightarrow> text_store \<Rightarrow> string \<Rightarrow> string \<Rightarrow> text_store list" where
  "mid_replacement live pending backup s old new =
     map (\<lambda>(l, p, b). s(live := l, pending := p, backup := b))
       [(Some old, None, None), (Some old, Some new, None), (Some new, Some old, None),
        (None, Some new, Some old), (Some new, None, Some old), (Some new, None, None)]"

locale guarded_protocol =
  fixes live pending backup :: string and max_bytes :: nat and parse :: "string \<Rightarrow> 'j result"
    and valid_transition :: "'j \<Rightarrow> 'j \<Rightarrow> bool" and invalid :: string
  assumes files: "guarded_files live pending backup"
    and one_way: "valid_transition a b \<Longrightarrow> \<not> valid_transition b a"
begin

lemmas facts = guarded_files_facts[OF files]
lemmas steps = run_step passes_storage_Ok passes_install_first[OF files] passes_install_exchange[OF files] passes_install_backup[OF files]

text \<open>Reconciliation with a backup present.\<close>

lemma reconcile_backup:
  assumes "all_readable max_bytes s [live, pending, backup]" "s backup = Some b" "s live = None" "parse b = Ok old"
    and "\<And>t. s pending = Some t \<Longrightarrow> \<exists>j. parse t = Ok j \<and> valid_transition old j"
  shows "passes (inspect_journal live pending max_bytes parse valid_transition invalid) s [] (Inr (Some old))"
    and "\<exists>ss. passes (reconcile_journal ex live pending max_bytes parse valid_transition invalid) s ss (Inr ())
      \<and> settled_on live pending backup max_bytes parse s (Some old) (last (s # ss))
      \<and> ss = (if s pending = None then [s(live := Some b, backup := None)]
          else [s(live := Some b, backup := None), s(live := Some b, backup := None, pending := None)])"
proof -
  have restore: "passes (storage (restore_guarded_backup backup live max_bytes)) s [s(live := Some b, backup := None)] (Inr ())"
    using assms(2,3) facts
    by (intro passes_storage_Ok) (simp add: run_simps, (rule run_step | simp add: run_simps | simp add: fun_eq_iff)+)
  let ?s = "s(live := Some b, backup := None)"
  have short: "readable max_bytes b" using assms(1,2) by (simp add: all_readable_def)
  show "passes (inspect_journal live pending max_bytes parse valid_transition invalid) s [] (Inr (Some old))"
    unfolding inspect_journal_def
    by (rule passes_read_texts_bind(2)[OF files assms(1)])
      (use assms(2-5) in \<open>auto simp: require_transition_def passes_returning split: option.split\<close>)
  show "\<exists>ss. passes (reconcile_journal ex live pending max_bytes parse valid_transition invalid) s ss (Inr ())
      \<and> settled_on live pending backup max_bytes parse s (Some old) (last (s # ss))
      \<and> ss = (if s pending = None then [s(live := Some b, backup := None)]
          else [s(live := Some b, backup := None), s(live := Some b, backup := None, pending := None)])"
  proof (cases "s pending")
    case None
    have "passes (storage (remove_regular_file_if_present pending)) ?s [] (Inr ())"
      using None facts by (intro passes_storage_Ok passes_remove_absent) simp
    then have "passes (reconcile_journal ex live pending max_bytes parse valid_transition invalid) s [?s] (Inr ())"
      unfolding reconcile_journal_def
      by (intro passes_read_texts_bind(2)[OF files assms(1)])
        (use None assms(2-4) facts restore in \<open>auto intro!: passes_step_bind[OF restore]\<close>)
    then show ?thesis using None assms(4) facts short by (intro exI[of _ "[?s]"]) (simp add: settled_on_def)
  next
    case (Some t)
    then obtain j where j: "parse t = Ok j" "valid_transition old j" using assms(5) by blast
    have "passes (storage (remove_regular_file_if_present pending)) ?s [?s(pending := None)] (Inr ())"
      using Some facts by (intro passes_storage_Ok passes_remove) simp
    then have "passes (reconcile_journal ex live pending max_bytes parse valid_transition invalid) s [?s, ?s(pending := None)] (Inr ())"
      unfolding reconcile_journal_def
      by (intro passes_read_texts_bind(2)[OF files assms(1)])
        (use Some j assms(2-4) facts restore in \<open>auto simp: require_transition_def intro!: passes_step_bind[OF restore]\<close>)
    then show ?thesis using Some assms(4) facts short by (intro exI[of _ "[?s, ?s(pending := None)]"]) (simp add: settled_on_def)
  qed
qed

text \<open>The outcomes of both on one store: the same refusal, or a journal and where it ends up.\<close>

definition agree_on ::
  "(guarded_journal_error, 'j option) effect \<Rightarrow> (guarded_journal_error, unit) effect \<Rightarrow> text_store \<Rightarrow> bool" where
  "agree_on inspecting reconciling s \<longleftrightarrow> (\<exists>r. passes inspecting s [] r \<and> (case r of
       Inl e \<Rightarrow> passes reconciling s [] (Inl e)
     | Inr j \<Rightarrow> \<exists>ss. passes reconciling s ss (Inr ()) \<and> settled_on live pending backup max_bytes parse s j (last (s # ss))))"

lemma agree_on_refusal: "passes m s [] (Inl e) \<Longrightarrow> passes r s [] (Inl e) \<Longrightarrow> agree_on m r s"
  unfolding agree_on_def by (intro exI[of _ "Inl e"]) simp

lemma agree_on_success:
  "passes m s [] (Inr j) \<Longrightarrow> passes r s ss (Inr ()) \<Longrightarrow> settled_on live pending backup max_bytes parse s j (last (s # ss)) \<Longrightarrow> agree_on m r s"
  unfolding agree_on_def by (rule exI[of _ "Inr j"], simp only: sum.case, blast)

lemmas both_defs = inspect_journal_def reconcile_journal_def require_transition_def

lemma agree_with_backup:
  assumes readable: "all_readable max_bytes s [live, pending, backup]" and b: "s backup = Some b"
  shows "agree_on (inspect_journal live pending max_bytes parse valid_transition invalid)
    (reconcile_journal ex live pending max_bytes parse valid_transition invalid) s"
    (is "agree_on ?inspect ?reconcile s")
proof (cases "parse b")
  case (Inl e)
  then show ?thesis
    by (intro agree_on_refusal[of _ _ "Authority e"]) (simp_all add: both_defs passes_with_texts[OF files readable] b facts)
next
  case old: (Inr old)
  note texts = passes_with_texts[OF files readable] b old facts
  have short: "readable max_bytes t" if "s live = Some t" for t using that readable by (simp add: all_readable_def)
  have refused: "agree_on ?inspect ?reconcile s"
    if "passes ?inspect s [] (Inl e)" "passes ?reconcile s [] (Inl e)" for e
    using that by (rule agree_on_refusal)
  show ?thesis
  proof (cases "s live")
    case None
    show ?thesis
    proof (cases "\<forall>t. s pending = Some t \<longrightarrow> (\<exists>j. parse t = Ok j \<and> valid_transition old j)")
      case True
      then show ?thesis using reconcile_backup[OF readable b None old] by (blast intro: agree_on_success)
    next
      case False
      then obtain t where t: "s pending = Some t" "\<And>j. parse t = Ok j \<Longrightarrow> \<not> valid_transition old j" by blast
      show ?thesis
      proof (cases "parse t")
        case (Inl e)
        then show ?thesis by (intro refused[of "Authority e"]) (simp_all add: both_defs texts None t(1))
      next
        case (Inr j)
        then show ?thesis using t(2)[OF Inr]
          by (intro refused[of "Authority (Failure invalid)"]) (simp_all add: both_defs texts None t(1))
      qed
    qed
  next
    case live: (Some t)
    show ?thesis
    proof (cases "s pending")
      case (Some u)
      then show ?thesis by (intro refused[of "Authority (Failure invalid)"]) (simp_all add: both_defs texts live)
    next
      case pending: None
      show ?thesis
      proof (cases "parse t")
        case (Inl e)
        then show ?thesis by (intro refused[of "Authority e"]) (simp_all add: both_defs texts live pending)
      next
        case next_j: (Inr j)
        show ?thesis
        proof (cases "valid_transition old j")
          case True
          have "passes (storage (remove_regular_file_if_present backup)) s [s(backup := None)] (Inr ())"
            using b by (intro passes_storage_Ok passes_remove)
          then show ?thesis using True
            by (intro agree_on_success[of ?inspect s "Some j" ?reconcile "[s(backup := None)]"])
              (simp_all add: both_defs texts live pending next_j settled_on_def short)
        next
          case False
          then show ?thesis
            by (intro refused[of "Authority (Failure invalid)"]) (simp_all add: both_defs texts live pending next_j)
        qed
      qed
    qed
  qed
qed

lemma transition_changes_text:
  "parse t = Ok a \<Longrightarrow> parse u = Ok b \<Longrightarrow> valid_transition a b \<Longrightarrow> t \<noteq> u"
  using one_way[of a b] by auto

lemma agree_without_backup:
  assumes readable: "all_readable max_bytes s [live, pending, backup]" and b: "s backup = None"
  shows "agree_on (inspect_journal live pending max_bytes parse valid_transition invalid)
    (reconcile_journal ex live pending max_bytes parse valid_transition invalid) s"
    (is "agree_on ?inspect ?reconcile s")
proof -
  note texts = passes_with_texts[OF files readable] b facts
  have short: "readable max_bytes t" if "s live = Some t \<or> s pending = Some t" for t
    using that readable by (auto simp: all_readable_def)
  have refused: "agree_on ?inspect ?reconcile s"
    if "passes ?inspect s [] (Inl e)" "passes ?reconcile s [] (Inl e)" for e
    using that by (rule agree_on_refusal)
  show ?thesis
  proof (cases "s live")
    case live: None
    show ?thesis
    proof (cases "s pending")
      case None
      then show ?thesis
        by (intro agree_on_success[of ?inspect s None ?reconcile "[]"]) (simp_all add: both_defs texts live settled_on_def)
    next
      case (Some t)
      show ?thesis
      proof (cases "parse t")
        case (Inl e)
        then show ?thesis by (intro refused[of "Authority e"]) (simp_all add: both_defs texts live Some)
      next
        case (Inr j)
        have "passes (install_staged_text_guarded ex pending live None t max_bytes) s [s(live := Some t, pending := None)] (Ok ())"
          using short Some live b by (intro passes_install_first[OF files]) auto
        then show ?thesis using Inr
          by (intro agree_on_success[of ?inspect s "Some j" ?reconcile "[s(live := Some t, pending := None)]"])
            (simp_all add: both_defs texts live Some settled_on_def passes_storage_Ok short)
      qed
    qed
  next
    case live: (Some t)
    show ?thesis
    proof (cases "parse t")
      case (Inl e)
      then show ?thesis
        by (cases "s pending"; intro refused[of "Authority e"]) (simp_all add: both_defs texts live)
    next
      case old: (Inr old)
      show ?thesis
      proof (cases "s pending")
        case None
        then show ?thesis
          by (intro agree_on_success[of ?inspect s "Some old" ?reconcile "[]"]) (simp_all add: both_defs texts live old settled_on_def short)
      next
        case pending: (Some u)
        show ?thesis
        proof (cases "parse u")
          case (Inl e)
          then show ?thesis by (intro refused[of "Authority e"]) (simp_all add: both_defs texts live old pending)
        next
          case next_j: (Inr j)
          show ?thesis
          proof (cases "valid_transition old j")
            case True
            have "t \<noteq> u" using transition_changes_text[OF old next_j True] .
            then have "\<exists>ss. passes (install_staged_text_guarded ex pending live (Some t) u max_bytes) s ss (Ok ())
                \<and> last (s # ss) = s(live := Some u, pending := None)"
              using passes_install_exchange[OF files live pending b] passes_install_backup[OF files live pending b] short live pending
              by (cases ex) fastforce+
            then obtain ss where "passes (install_staged_text_guarded ex pending live (Some t) u max_bytes) s ss (Ok ())"
                "last (s # ss) = s(live := Some u, pending := None)" by blast
            then show ?thesis using True
              by (intro agree_on_success[of ?inspect s "Some j" ?reconcile ss])
                (simp_all add: both_defs texts live old pending next_j settled_on_def passes_storage_Ok short)
          next
            case False
            have drop: "passes (storage (remove_regular_file_if_present pending)) s [s(pending := None)] (Inr ())"
              using pending by (intro passes_storage_Ok passes_remove)
            show ?thesis
            proof (cases "valid_transition j old")
              case True
              then show ?thesis using False drop
                by (intro agree_on_success[of ?inspect s "Some old" ?reconcile "[s(pending := None)]"])
                  (simp_all add: both_defs texts live old pending next_j settled_on_def short)
            next
              case neither: False
              then show ?thesis using False
                by (intro refused[of "Authority (Failure invalid)"]) (simp_all add: both_defs texts live old pending next_j)
            qed
          qed
        qed
      qed
    qed
  qed
qed

lemma inspection_predicts:
  "\<exists>r. passes (inspect_journal live pending max_bytes parse valid_transition invalid) s [] r \<and> (case r of
       Inl e \<Rightarrow> passes (reconcile_journal ex live pending max_bytes parse valid_transition invalid) s [] (Inl e)
     | Inr j \<Rightarrow> \<exists>ss. passes (reconcile_journal ex live pending max_bytes parse valid_transition invalid) s ss (Inr ())
         \<and> settled_on live pending backup max_bytes parse s j (last (s # ss)))"
proof (cases "all_readable max_bytes s [live, pending, backup]")
  case True
  show ?thesis
    using agree_with_backup[OF True] agree_without_backup[OF True] unfolding agree_on_def by (cases "s backup") auto
next
  case False
  note stop = passes_read_texts_bind(1)[OF files False]
  show ?thesis unfolding inspect_journal_def reconcile_journal_def by (rule exI[of _ "Inl Storage"]) (simp add: stop)
qed

section \<open>Crashes\<close>

text \<open>A transition about to be installed.\<close>

definition replaces :: "text_store \<Rightarrow> string \<Rightarrow> string \<Rightarrow> 'j \<Rightarrow> 'j \<Rightarrow> bool" where
  "replaces s t u old next_j \<longleftrightarrow> s live = Some t \<and> s pending = None \<and> s backup = None \<and> readable max_bytes t \<and> readable max_bytes u
     \<and> parse t = Ok old \<and> parse u = Ok next_j \<and> valid_transition old next_j"

lemma install_run:
  assumes "replaces s t u old next_j"
  shows "\<exists>ss. passes (install_staged_text_guarded ex pending live (Some t) u max_bytes) (s(pending := Some u)) ss (Ok ())
    \<and> length ss \<le> 3 \<and> set ss \<subseteq> set (mid_replacement live pending backup s t u) \<and> last (s(pending := Some u) # ss) = s(live := Some u)"
proof -
  let ?s = "s(pending := Some u)"
  have "t \<noteq> u" using assms transition_changes_text by (auto simp: replaces_def)
  then show ?thesis
    using passes_install_exchange[OF files, of ?s t u max_bytes] passes_install_backup[OF files, of ?s t u max_bytes] assms facts
    apply (cases ex)
     apply (rule exI[of _ "[?s(pending := Some t, live := Some u), ?s(live := Some u, pending := None)]"])
     apply (force simp: replaces_def mid_replacement_def fun_eq_iff)
    apply (rule exI[of _ "[?s(backup := Some t, live := None), ?s(backup := Some t, live := Some u, pending := None), ?s(live := Some u, pending := None)]"])
    apply (force simp: replaces_def mid_replacement_def fun_eq_iff)
    done
qed

text \<open>Recovery of each store in between.\<close>

definition recovers :: "bool \<Rightarrow> text_store \<Rightarrow> string \<Rightarrow> string \<Rightarrow> text_store \<Rightarrow> bool" where
  "recovers ex s t u m \<longleftrightarrow> (\<exists>ss. passes (reconcile_journal ex live pending max_bytes parse valid_transition invalid) m ss (Inr ())
     \<and> length ss \<le> 3 \<and> set ss \<subseteq> set (mid_replacement live pending backup s t u)
     \<and> last (m # ss) \<in> {s(live := Some t), s(live := Some u)})"

lemma recovery_run:
  assumes r: "replaces s t u old next_j" and m: "m \<in> set (mid_replacement live pending backup s t u)"
  shows "recovers ex s t u m"
proof -
  let ?reconcile = "reconcile_journal ex live pending max_bytes parse valid_transition invalid"
  note r' = r[unfolded replaces_def]
  have readable: "all_readable max_bytes m [live, pending, backup]"
    using m r' facts by (auto simp: mid_replacement_def all_readable_def)
  note texts = both_defs passes_with_texts[OF files readable] facts(1)
  have self: "s(pending := None, backup := None) = s" "s(live := Some t) = s"
    "s(live := Some u, pending := None, backup := None) = s(live := Some u)"
    using r' facts by (auto simp: fun_eq_iff)
  consider "m = s(live := Some t, pending := None, backup := None)"
    | "m = s(live := Some t, pending := Some u, backup := None)"
    | "m = s(live := Some u, pending := Some t, backup := None)"
    | "m = s(live := None, pending := Some u, backup := Some t)"
    | "m = s(live := Some u, pending := None, backup := Some t)"
    | "m = s(live := Some u, pending := None, backup := None)"
    using m by (auto simp: mid_replacement_def)
  then show ?thesis
  proof cases
    case 1
    then have at: "m live = Some t" "m pending = None" "m backup = None" using facts by simp_all
    have "passes ?reconcile m [] (Inr ())" using r' by (simp add: texts at)
    then show ?thesis using 1 unfolding recovers_def by (intro exI[of _ "[]"]) (simp add: self)
  next
    case 2
    then have staged: "m = s(pending := Some u)" using r' facts by (auto simp: fun_eq_iff)
    obtain ss where run: "passes (install_staged_text_guarded ex pending live (Some t) u max_bytes) m ss (Ok ())"
      "length ss \<le> 3" "set ss \<subseteq> set (mid_replacement live pending backup s t u)" "last (m # ss) = s(live := Some u)"
      using install_run[OF r, of ex] unfolding staged by blast
    have at: "m live = Some t" "m pending = Some u" "m backup = None" using 2 facts by simp_all
    have "passes ?reconcile m ss (Inr ())" using r' facts passes_storage_Ok[OF run(1)] by (simp add: texts at)
    then show ?thesis using run(2-4) unfolding recovers_def by blast
  next
    case 3
    let ?final = "m(pending := None)"
    have "passes (storage (remove_regular_file_if_present pending)) m [?final] (Inr ())"
      using 3 facts by (intro passes_storage_Ok passes_remove) simp
    moreover have "\<not> valid_transition next_j old" using one_way r' by blast
    moreover have at: "m live = Some u" "m pending = Some t" "m backup = None" using 3 facts by simp_all
    ultimately have run: "passes ?reconcile m [?final] (Inr ())" using r' facts by (simp add: texts)
    have "?final = s(live := Some u)" using 3 r' facts by (auto simp: fun_eq_iff)
    then show ?thesis using run self(3) unfolding recovers_def
      by (intro exI[of _ "[?final]"]) (simp add: mid_replacement_def)
  next
    case 4
    have "\<And>x. m pending = Some x \<Longrightarrow> \<exists>j. parse x = Ok j \<and> valid_transition old j" using 4 r' facts by auto
    moreover have "m backup = Some t" "m live = None" "parse t = Ok old" using 4 r' facts by auto
    ultimately obtain ss where run: "passes ?reconcile m ss (Inr ())"
        "ss = (if m pending = None then [m(live := Some t, backup := None)]
          else [m(live := Some t, backup := None), m(live := Some t, backup := None, pending := None)])"
      using reconcile_backup(2)[OF readable] by blast
    have "m(live := Some t, backup := None) = s(live := Some t, pending := Some u, backup := None)"
      "m(live := Some t, backup := None, pending := None) = s"
      using 4 r' facts by (auto simp: fun_eq_iff)
    moreover have "m pending \<noteq> None" using 4 facts by simp
    ultimately have ss: "ss = [s(live := Some t, pending := Some u, backup := None), s]" using run(2) by simp
    show ?thesis unfolding recovers_def
      by (rule exI[of _ ss], intro conjI run(1)) (simp_all add: ss mid_replacement_def self)
  next
    case 5
    let ?final = "m(backup := None)"
    have "passes (storage (remove_regular_file_if_present backup)) m [?final] (Inr ())"
      using 5 facts by (intro passes_storage_Ok passes_remove) simp
    moreover have "m live = Some u" "m pending = None" "m backup = Some t" using 5 facts by simp_all
    ultimately have run: "passes ?reconcile m [?final] (Inr ())" using r' facts by (simp add: texts)
    have "?final = s(live := Some u)" using 5 r' facts by (auto simp: fun_eq_iff)
    then show ?thesis using run self(3) unfolding recovers_def
      by (intro exI[of _ "[?final]"]) (simp add: mid_replacement_def)
  next
    case 6
    then have at: "m live = Some u" "m pending = None" "m backup = None" using facts by simp_all
    have "passes ?reconcile m [] (Inr ())" using r' by (simp add: texts at)
    then show ?thesis using 6 unfolding recovers_def by (intro exI[of _ "[]"]) (simp add: self)
  qed
qed

text \<open>Any number of crashes during recovery.\<close>

lemma recovery_crashes:
  assumes "replaces s t u old next_j" "m \<in> set (mid_replacement live pending backup s t u)"
    and "(crashes (reconcile_journal ex live pending max_bytes parse valid_transition invalid))\<^sup>*\<^sup>* m m'"
  shows "m' \<in> set (mid_replacement live pending backup s t u)"
  using assms(3,2)
proof (induction rule: rtranclp_induct)
  case (step y z)
  then obtain ss torn n where "passes (reconcile_journal ex live pending max_bytes parse valid_transition invalid) y ss (Inr ())"
      "set ss \<subseteq> set (mid_replacement live pending backup s t u)"
      "reconcile_journal ex live pending max_bytes parse valid_transition invalid torn n y = Crashed z"
    using recovery_run[OF assms(1), of y ex] by (auto simp: recovers_def crashes_def)
  then have "z \<in> set (y # ss)" using passes_crashed by blast
  then show ?case using step \<open>set ss \<subseteq> _\<close> by auto
qed simp

lemma replacement_crash:
  assumes r: "replaces s t u old next_j"
    and crash: "replace_text_atomically_guarded ex pending live (Some t) u max_bytes torn n s = Crashed m"
  shows "(\<exists>k. n = 0 \<and> torn = Some k \<and> m = s(pending \<mapsto> take k u)) \<or> m \<in> set (mid_replacement live pending backup s t u)"
proof (cases n)
  case 0
  have "s = s(live := Some t, pending := None, backup := None)" using r facts by (auto simp: replaces_def fun_eq_iff)
  then have start: "s \<in> set (mid_replacement live pending backup s t u)" by (simp add: mid_replacement_def)
  show ?thesis using crash 0 start r
    by (auto simp: replace_text_atomically_guarded_def stage_run replaces_def split: option.splits)
next
  case (Suc n')
  obtain ss where run: "passes (install_staged_text_guarded ex pending live (Some t) u max_bytes) (s(pending := Some u)) ss (Ok ())"
      "set ss \<subseteq> set (mid_replacement live pending backup s t u)"
    using install_run[OF r, of ex] by blast
  have "install_staged_text_guarded ex pending live (Some t) u max_bytes torn n' (s(pending := Some u)) = Crashed m"
    using crash Suc r by (simp add: replace_text_atomically_guarded_def stage_run replaces_def)
  then have "m \<in> set (s(pending := Some u) # ss)" using passes_crashed[OF run(1)] by blast
  moreover have "s(pending := Some u) = s(live := Some t, pending := Some u, backup := None)"
    using r facts by (auto simp: replaces_def fun_eq_iff)
  ultimately show ?thesis using run(2) by (auto simp: mid_replacement_def)
qed

text \<open>A torn pending file that is no journal is never accepted, and never cleared.\<close>

lemma torn_refused:
  assumes r: "replaces s t u old next_j" and torn: "parse (take k u) = Inl e"
  shows "\<exists>f. passes (inspect_journal live pending max_bytes parse valid_transition invalid) (s(pending \<mapsto> take k u)) [] (Inl f)
    \<and> passes (reconcile_journal ex live pending max_bytes parse valid_transition invalid) (s(pending \<mapsto> take k u)) [] (Inl f)
    \<and> f = (if is_text (take k u) then Authority e else Storage)"
proof -
  let ?m = "s(pending \<mapsto> take k u)"
  note r' = r[unfolded replaces_def]
  have short: "length (take k u) \<le> max_bytes" using r' by (simp add: readable_def min.coboundedI1)
  have at: "?m live = Some t" "?m pending = Some (take k u)" "?m backup = None" using r' facts by simp_all
  show ?thesis
  proof (cases "is_text (take k u)")
    case True
    then have readable: "all_readable max_bytes ?m [live, pending, backup]"
      using r' facts short by (auto simp: all_readable_def readable_def)
    show ?thesis
      by (rule exI[of _ "Authority e"])
        (use r' facts torn True in \<open>simp add: both_defs passes_with_texts[OF files readable] at del: fun_upd_apply\<close>)
  next
    case False
    then have "\<not> all_readable max_bytes ?m [live, pending, backup]" by (auto simp: all_readable_def readable_def)
    note stop = passes_read_texts_bind(1)[OF files this]
    show ?thesis unfolding inspect_journal_def reconcile_journal_def
      by (rule exI[of _ Storage]) (simp add: stop False)
  qed
qed

end

end
