(* ===== verification/Apply_Batch_Recovery.thy ===== *)
theory Apply_Batch_Recovery
  imports Apply_Batch_Samples Journal_Recovery
begin

text \<open>
  The atomic apply journal as a guarded journal: its two files and their backup, its parser and its
  transition check meet the contract of \<open>Journal_Recovery\<close>, so crashes cost at most one transition.
\<close>

abbreviation BATCH_BACKUP_PATH :: string where
  "BATCH_BACKUP_PATH \<equiv> ''.kitrove/atomic-apply-journal.pending.previous''"

lemma batch_files: "guarded_files ATOMIC_APPLY_JOURNAL_PATH ATOMIC_APPLY_PENDING_PATH BATCH_BACKUP_PATH"
proof -
  have "guarded_backup_path ATOMIC_APPLY_PENDING_PATH = Ok BATCH_BACKUP_PATH" by code_simp
  then show ?thesis by (simp add: guarded_files_def ATOMIC_APPLY_JOURNAL_PATH_def ATOMIC_APPLY_PENDING_PATH_def)
qed

interpretation batch_recovery: guarded_protocol ATOMIC_APPLY_JOURNAL_PATH ATOMIC_APPLY_PENDING_PATH BATCH_BACKUP_PATH
    MAX_BATCH_JOURNAL_BYTES "parse_journal H decode" valid_journal_transition "''apply.batch_journal_invalid''" for H decode
proof unfold_locales
  show "guarded_files ATOMIC_APPLY_JOURNAL_PATH ATOMIC_APPLY_PENDING_PATH BATCH_BACKUP_PATH" by (rule batch_files)
  show "\<not> valid_journal_transition b a" if "valid_journal_transition a b" for a b
    using that batch_run.one_way by (simp add: valid_journal_transition_iff)
qed

section \<open>The cursor and the store\<close>

text \<open>What \<open>serde_json\<close> promises of the texts it writes: with a newline after them, they are UTF-8 and read back.\<close>

definition batch_json_codec :: "(batch_journal \<Rightarrow> string option) \<Rightarrow> (string \<Rightarrow> batch_journal option) \<Rightarrow> bool" where
  "batch_json_codec encode decode \<longleftrightarrow> (\<forall>j v. encode j = Some v \<longrightarrow> is_text (v @ [CHR 0x0A]) \<and> decode (v @ [CHR 0x0A]) = Some j)"

text \<open>A cursor whose journal is the live file and nothing is pending.\<close>

definition cursor_holds :: "(string \<Rightarrow> string) \<Rightarrow> (string \<Rightarrow> batch_journal option) \<Rightarrow> text_store \<Rightarrow> batch_cursor \<Rightarrow> bool" where
  "cursor_holds H decode s c \<longleftrightarrow> s ATOMIC_APPLY_JOURNAL_PATH = Some (bc_encoded c)
     \<and> s ATOMIC_APPLY_PENDING_PATH = None \<and> s BATCH_BACKUP_PATH = None
     \<and> readable MAX_BATCH_JOURNAL_BYTES (bc_encoded c) \<and> parse_journal H decode (bc_encoded c) = Ok (bc_journal c)"

lemma encoded_parses:
  assumes "batch_json_codec encode decode" "journal_encoded H encode j = Ok t"
  shows "readable MAX_BATCH_JOURNAL_BYTES t" "parse_journal H decode t = Ok j"
proof -
  obtain v where v: "validate_journal H j = Ok ()" "encode j = Some v" "t = v @ [CHR 0x0A]" "length t \<le> MAX_BATCH_JOURNAL_BYTES"
    using assms(2) by (auto simp: journal_encoded_def and_then_Ok_iff bind_result_Ok_iff ok_or_Ok_iff Let_def split: if_splits)
  moreover have "is_text t" "decode t = Some j" using assms(1) v(2,3) by (auto simp: batch_json_codec_def)
  ultimately show "readable MAX_BATCH_JOURNAL_BYTES t" "parse_journal H decode t = Ok j"
    by (simp_all add: readable_def parse_journal_def)
qed

lemma persist_replaces:
  assumes "batch_json_codec encode decode" "cursor_holds H decode s c" "batch_step (bc_journal c) next_j" "journal_encoded H encode next_j = Ok t"
  shows "batch_recovery.replaces H decode s (bc_encoded c) t (bc_journal c) next_j"
  using assms(2,3) encoded_parses[OF assms(1,4)]
  by (simp add: batch_recovery.replaces_def cursor_holds_def valid_journal_transition_iff)

lemma persist_run:
  assumes "transition (bc_journal c) = Ok next_j" "journal_encoded H encode next_j = Ok t"
  shows "persist_transition ex H encode c transition = bind_effect (storage_failed (replace_text_atomically_guarded ex ATOMIC_APPLY_PENDING_PATH
      ATOMIC_APPLY_JOURNAL_PATH (Some (bc_encoded c)) t MAX_BATCH_JOURNAL_BYTES)) (\<lambda>_. succeeding \<lparr>bc_journal = next_j, bc_encoded = t\<rparr>)"
  using assms by (simp add: persist_transition_def)

lemma persist_crash:
  assumes "persist_transition ex H encode c transition torn n s = Crashed m"
  shows "\<exists>next_j t. transition (bc_journal c) = Ok next_j \<and> journal_encoded H encode next_j = Ok t
    \<and> replace_text_atomically_guarded ex ATOMIC_APPLY_PENDING_PATH ATOMIC_APPLY_JOURNAL_PATH (Some (bc_encoded c)) t
        MAX_BATCH_JOURNAL_BYTES torn n s = Crashed m"
proof (cases "transition (bc_journal c)")
  case (Inl e)
  then show ?thesis using assms by (simp add: persist_transition_def returning_run)
next
  case next_j: (Inr next_j)
  show ?thesis
  proof (cases "journal_encoded H encode next_j")
    case (Inl e)
    then show ?thesis using assms next_j by (simp add: persist_transition_def returning_run)
  next
    case (Inr t)
    then show ?thesis using assms next_j
      by (simp add: persist_run bind_effect_def map_effect_err_def returning_run split: outcome.splits sum.splits)
  qed
qed

lemma load_after_recovery:
  assumes "passes (reconcile_batch_journal ex H decode) m ss (Inr ())" "last (m # ss) ATOMIC_APPLY_JOURNAL_PATH = Some t"
    and "readable MAX_BATCH_JOURNAL_BYTES t" "parse_journal H decode t = Ok j"
  shows "passes (cursor_load ex H decode) m ss (Ok (Some \<lparr>bc_journal = j, bc_encoded = t\<rparr>))"
proof -
  have recover: "passes (map_effect_err map_guarded_storage (reconcile_batch_journal ex H decode)) m ss (Inr ())"
    using assms(1) by (simp add: passes_def map_effect_err_def)
  have "passes (read_text ATOMIC_APPLY_JOURNAL_PATH MAX_BATCH_JOURNAL_BYTES) (last (m # ss)) [] (Ok (Some t))"
    using passes_read[where s = "last (m # ss)" and p = ATOMIC_APPLY_JOURNAL_PATH and max_bytes = MAX_BATCH_JOURNAL_BYTES] assms(2,3) by simp
  then have "passes (storage_failed (read_text ATOMIC_APPLY_JOURNAL_PATH MAX_BATCH_JOURNAL_BYTES)) (last (m # ss)) [] (Ok (Some t))"
    by (simp add: passes_def map_effect_err_def)
  note reading = passes_bind_reading[OF this]
  show ?thesis unfolding cursor_load_def
    by (rule passes_bind[OF recover]) (use assms(4) in \<open>simp_all add: reading del: last.simps\<close>)
qed

section \<open>Properties\<close>

text \<open>C3: A crash costs at most the transition that was being written.  Stop the cursor at any durable effect of a
  phase or participant transition, on platforms with and without atomic exchange, and stop any number of
  recoveries at any of their effects: loading then ends within three effects with the journal from before or
  the one from after, alone in the store.  Only the creation of the pending file is taken as one effect here.\<close>

theorem batch_transitions_survive_crashes:
  assumes "batch_json_codec encode decode" "cursor_holds H decode s c"
    and "\<forall>j k. transition j = Ok k \<longrightarrow> batch_step j k"
    and "persist_transition ex H encode c transition None n s = Crashed m"
    and "(crashes (reconcile_batch_journal ex' H decode))\<^sup>*\<^sup>* m m'"
  shows "\<exists>next_j k j t. transition (bc_journal c) = Ok next_j \<and> k \<le> 3 \<and> j \<in> {bc_journal c, next_j}
    \<and> (\<forall>torn n. cursor_load ex' H decode torn (n + k) m'
         = Finished n (s(ATOMIC_APPLY_JOURNAL_PATH \<mapsto> t)) (Ok (Some \<lparr>bc_journal = j, bc_encoded = t\<rparr>)))"
proof -
  obtain next_j t where step: "transition (bc_journal c) = Ok next_j" "journal_encoded H encode next_j = Ok t"
    and crash: "replace_text_atomically_guarded ex ATOMIC_APPLY_PENDING_PATH ATOMIC_APPLY_JOURNAL_PATH (Some (bc_encoded c)) t
        MAX_BATCH_JOURNAL_BYTES None n s = Crashed m"
    using persist_crash[OF assms(4)] by blast
  have "batch_step (bc_journal c) next_j" using assms(3) step(1) by blast
  then have r: "batch_recovery.replaces H decode s (bc_encoded c) t (bc_journal c) next_j"
    by (rule persist_replaces[OF assms(1,2) _ step(2)])
  have "m \<in> set (mid_replacement ATOMIC_APPLY_JOURNAL_PATH ATOMIC_APPLY_PENDING_PATH BATCH_BACKUP_PATH s (bc_encoded c) t)"
    using batch_recovery.replacement_crash[OF r crash] by simp
  then have "m' \<in> set (mid_replacement ATOMIC_APPLY_JOURNAL_PATH ATOMIC_APPLY_PENDING_PATH BATCH_BACKUP_PATH s (bc_encoded c) t)"
    by (rule batch_recovery.recovery_crashes[OF r _ assms(5)[unfolded reconcile_batch_journal_def]])
  from batch_recovery.recovery_run[OF r this, of ex'] obtain ss where run: "passes (reconcile_batch_journal ex' H decode) m' ss (Inr ())"
      "length ss \<le> 3" "last (m' # ss) \<in> {s(ATOMIC_APPLY_JOURNAL_PATH := Some (bc_encoded c)), s(ATOMIC_APPLY_JOURNAL_PATH := Some t)}"
    by (auto simp: batch_recovery.recovers_def reconcile_batch_journal_def)
  obtain j u where kept: "j \<in> {bc_journal c, next_j}" "last (m' # ss) = s(ATOMIC_APPLY_JOURNAL_PATH := Some u)"
      "readable MAX_BATCH_JOURNAL_BYTES u" "parse_journal H decode u = Ok j"
    using run(3) r unfolding batch_recovery.replaces_def by blast
  have "last (m' # ss) ATOMIC_APPLY_JOURNAL_PATH = Some u" by (simp add: kept(2) del: last.simps)
  then have "passes (cursor_load ex' H decode) m' ss (Ok (Some \<lparr>bc_journal = j, bc_encoded = u\<rparr>))"
    using load_after_recovery[OF run(1)] kept(3,4) by blast
  from passes_finishes[OF this] show ?thesis using step(1) run(2) kept(1) unfolding kept(2) by blast
qed

definition sample_cursor :: batch_cursor where
  "sample_cursor = \<lparr>bc_journal = sample_batch, bc_encoded = ''one'' @ [CHR 0x0A]\<rparr>"

definition sample_store :: text_store where
  "sample_store = [ATOMIC_APPLY_JOURNAL_PATH \<mapsto> ''one'' @ [CHR 0x0A]]"

lemma sample_texts: "is_text (''one'' @ [CHR 0x0A])" "is_text (''two'' @ [CHR 0x0A])" "is_text ''tw''"
  by code_simp+

lemma sample_codec: "batch_json_codec sample_encode sample_decode"
  using sample_texts sample_batches_differ
  by (auto simp: batch_json_codec_def sample_encode_def sample_decode_def split: if_splits)

lemma sample_cursor_holds: "cursor_holds sample_digest sample_decode sample_store sample_cursor"
  using sample_texts guarded_files_facts[OF batch_files] sample_batch_valid
  by (simp add: cursor_holds_def sample_store_def sample_cursor_def readable_def MAX_BATCH_JOURNAL_BYTES_def parse_journal_def
    sample_decode_def)

lemma transition_is_step:
  "\<forall>j k. transition_participant j i p = Ok k \<longrightarrow> batch_step j k" "\<forall>j k. transition_phase j q = Ok k \<longrightarrow> batch_step j k"
  by (auto simp: batch_step_def)

lemma sample_next_encoded: "journal_encoded sample_digest sample_encode sample_next_batch = Ok (''two'' @ [CHR 0x0A])"
  using sample_batches_differ sample_next_valid
  by (simp add: journal_encoded_def sample_encode_def MAX_BATCH_JOURNAL_BYTES_def)

lemma sample_pending_absent: "sample_store ATOMIC_APPLY_PENDING_PATH = None"
  using sample_cursor_holds by (simp add: cursor_holds_def)

lemma sample_crash:
  "persist_transition True sample_digest sample_encode sample_cursor (\<lambda>j. transition_participant j 0 StagingPending) torn 0 sample_store
    = Crashed (case torn of None \<Rightarrow> sample_store | Some t \<Rightarrow> sample_store(ATOMIC_APPLY_PENDING_PATH \<mapsto> take t (''two'' @ [CHR 0x0A])))"
proof -
  have "transition_participant (bc_journal sample_cursor) 0 StagingPending = Ok sample_next_batch"
    using sample_step by (simp add: sample_cursor_def)
  note run = persist_run[where transition = "\<lambda>j. transition_participant j 0 StagingPending", OF this sample_next_encoded]
  have "replace_text_atomically_guarded True ATOMIC_APPLY_PENDING_PATH ATOMIC_APPLY_JOURNAL_PATH (Some (bc_encoded sample_cursor))
      (''two'' @ [CHR 0x0A]) MAX_BATCH_JOURNAL_BYTES torn 0 sample_store
    = Crashed (case torn of None \<Rightarrow> sample_store | Some t \<Rightarrow> sample_store(ATOMIC_APPLY_PENDING_PATH \<mapsto> take t (''two'' @ [CHR 0x0A])))"
    unfolding replace_text_atomically_guarded_def by (simp only: stage_run[of sample_store, OF sample_pending_absent] nat.case)
  then show ?thesis unfolding run by (simp only: bind_effect_def map_effect_err_def outcome.case)
qed

theorem batch_transitions_survive_crashes_witness:
  "\<exists>k j t. k \<le> 3 \<and> cursor_load True sample_digest sample_decode None (5 + k) sample_store
     = Finished 5 (sample_store(ATOMIC_APPLY_JOURNAL_PATH \<mapsto> t)) (Ok (Some \<lparr>bc_journal = j, bc_encoded = t\<rparr>))"
proof -
  have "persist_transition True sample_digest sample_encode sample_cursor (\<lambda>j. transition_participant j 0 StagingPending) None 0 sample_store
      = Crashed sample_store" using sample_crash[of None] by simp
  from batch_transitions_survive_crashes[OF sample_codec sample_cursor_holds transition_is_step(1) this rtranclp.rtrancl_refl]
  show ?thesis by blast
qed

text \<open>C40: A crash while the pending file is being filled is not recovered from: as long as the prefix it left is
  UTF-8 text and no journal, inspection and loading refuse the store, whatever the budget, and change nothing in it.\<close>

theorem torn_pending_journal_blocks_recovery:
  assumes "batch_json_codec encode decode" "cursor_holds H decode s c"
    and "\<forall>j k. transition j = Ok k \<longrightarrow> batch_step j k"
    and "persist_transition ex H encode c transition (Some k) 0 s = Crashed m"
    and "transition (bc_journal c) = Ok next_j" "journal_encoded H encode next_j = Ok t"
    and "is_text (take k t)" "parse_journal H decode (take k t) = Err code"
  shows "m = s(ATOMIC_APPLY_PENDING_PATH \<mapsto> take k t)
    \<and> cursor_load ex' H decode torn n m = Finished n m (Err code)
    \<and> inspect_batch_journal H decode torn n m = Finished n m (Inl (Authority (Failure code)))"
proof -
  have crash: "replace_text_atomically_guarded ex ATOMIC_APPLY_PENDING_PATH ATOMIC_APPLY_JOURNAL_PATH (Some (bc_encoded c)) t
        MAX_BATCH_JOURNAL_BYTES (Some k) 0 s = Crashed m"
    using persist_crash[OF assms(4)] assms(5,6) by simp
  have "batch_step (bc_journal c) next_j" using assms(3,5) by blast
  then have r: "batch_recovery.replaces H decode s (bc_encoded c) t (bc_journal c) next_j"
    by (rule persist_replaces[OF assms(1,2) _ assms(6)])
  have m: "m = s(ATOMIC_APPLY_PENDING_PATH \<mapsto> take k t)"
    using crash r by (simp add: replace_text_atomically_guarded_def stage_run batch_recovery.replaces_def)
  have refused: "passes (inspect_batch_journal H decode) m [] (Inl (Authority (Failure code)))"
    "passes (reconcile_batch_journal ex' H decode) m [] (Inl (Authority (Failure code)))"
    using batch_recovery.torn_refused[OF r assms(8), of ex'] assms(7) unfolding m inspect_batch_journal_def reconcile_batch_journal_def
    by simp_all
  then show ?thesis
    by (simp add: m[symmetric] passes_def cursor_load_def bind_effect_def map_effect_err_def map_guarded_storage_def)
qed

theorem torn_pending_journal_blocks_recovery_witness:
  "cursor_load True sample_digest sample_decode None 9 (sample_store(ATOMIC_APPLY_PENDING_PATH \<mapsto> ''tw''))
     = Finished 9 (sample_store(ATOMIC_APPLY_PENDING_PATH \<mapsto> ''tw'')) (Err ''apply.batch_journal_invalid'')"
proof -
  let ?t = "''two'' @ [CHR 0x0A]"
  have crash: "persist_transition True sample_digest sample_encode sample_cursor (\<lambda>j. transition_participant j 0 StagingPending) (Some 2) 0 sample_store
      = Crashed (sample_store(ATOMIC_APPLY_PENDING_PATH \<mapsto> ''tw''))" using sample_crash[of "Some 2"] by simp
  have step: "(\<lambda>j. transition_participant j 0 StagingPending) (bc_journal sample_cursor) = Ok sample_next_batch"
    using sample_step by (simp add: sample_cursor_def)
  have "is_text (take 2 ?t)" "parse_journal sample_digest sample_decode (take 2 ?t) = Err ''apply.batch_journal_invalid''"
    using sample_texts(3) by (simp_all add: parse_journal_def sample_decode_def)
  from torn_pending_journal_blocks_recovery[OF sample_codec sample_cursor_holds transition_is_step(1) crash step sample_next_encoded this]
  show ?thesis by blast
qed

text \<open>C8: Read-only inspection predicts recovery, for every content of the three files: both refuse with the same
  error and leave the store alone, or recovery ends with the journal that inspection named, alone in the
  store, and with nothing else changed.\<close>

theorem inspection_predicts_batch_recovery:
  "\<exists>r. inspect_batch_journal H decode torn n s = Finished n s r
    \<and> (case r of
         Inl e \<Rightarrow> reconcile_batch_journal ex H decode torn' n' s = Finished n' s (Inl e)
       | Inr j \<Rightarrow> \<exists>k s'. reconcile_batch_journal ex H decode torn' (n' + k) s = Finished n' s' (Inr ())
           \<and> settled_on ATOMIC_APPLY_JOURNAL_PATH ATOMIC_APPLY_PENDING_PATH BATCH_BACKUP_PATH MAX_BATCH_JOURNAL_BYTES
               (parse_journal H decode) s j s')"
proof -
  obtain r where r: "passes (inspect_batch_journal H decode) s [] r"
      "case r of Inl e \<Rightarrow> passes (reconcile_batch_journal ex H decode) s [] (Inl e)
       | Inr j \<Rightarrow> \<exists>ss. passes (reconcile_batch_journal ex H decode) s ss (Inr ())
           \<and> settled_on ATOMIC_APPLY_JOURNAL_PATH ATOMIC_APPLY_PENDING_PATH BATCH_BACKUP_PATH MAX_BATCH_JOURNAL_BYTES
               (parse_journal H decode) s j (last (s # ss))"
    using batch_recovery.inspection_predicts[of H decode s ex] unfolding inspect_batch_journal_def reconcile_batch_journal_def by blast
  show ?thesis
  proof (intro exI[of _ r] conjI)
    show "inspect_batch_journal H decode torn n s = Finished n s r" using r(1) by (simp add: passes_def)
  next
    show "case r of
         Inl e \<Rightarrow> reconcile_batch_journal ex H decode torn' n' s = Finished n' s (Inl e)
       | Inr j \<Rightarrow> \<exists>k s'. reconcile_batch_journal ex H decode torn' (n' + k) s = Finished n' s' (Inr ())
           \<and> settled_on ATOMIC_APPLY_JOURNAL_PATH ATOMIC_APPLY_PENDING_PATH BATCH_BACKUP_PATH MAX_BATCH_JOURNAL_BYTES
               (parse_journal H decode) s j s'"
    proof (cases r)
      case (Inl e)
      then show ?thesis using r(2) by (simp add: passes_def)
    next
      case (Inr j)
      then obtain ss where "passes (reconcile_batch_journal ex H decode) s ss (Inr ())"
        and settled: "settled_on ATOMIC_APPLY_JOURNAL_PATH ATOMIC_APPLY_PENDING_PATH BATCH_BACKUP_PATH MAX_BATCH_JOURNAL_BYTES
          (parse_journal H decode) s j (last (s # ss))"
        using r(2) by auto
      from passes_finishes[OF this(1)] settled show ?thesis unfolding Inr sum.case by blast
    qed
  qed
qed

end
