(* ===== verification/Apply_Batch_Runs.thy ===== *)
theory Apply_Batch_Runs
  imports Apply_Batch_Laws
begin

text \<open>
  Runs of the atomic apply journal: how long its text can become, and that no batch which the cursor can
  reach is stuck before it is verified or rolled back.
\<close>

section \<open>The size of the journal\<close>

text \<open>
  The \<open>snake_case\<close> names that the derived \<open>Serialize\<close> writes for the phase and for a progress.  They are the
  only parts of the text that a transition changes, and some are longer than those of a finished batch.
\<close>

definition phase_text :: "apply_batch_phase \<Rightarrow> string" where
  "phase_text phase = (case phase of
       Preparing \<Rightarrow> ''preparing'' | PhasePrepared \<Rightarrow> ''prepared''
     | QuarantiningOldTargets \<Rightarrow> ''quarantining_old_targets'' | OldTargetsQuarantined \<Rightarrow> ''old_targets_quarantined''
     | CommittingNewTargets \<Rightarrow> ''committing_new_targets'' | NewTargetsCommitted \<Rightarrow> ''new_targets_committed''
     | StateCommitted \<Rightarrow> ''state_committed'' | PhaseVerified \<Rightarrow> ''verified''
     | RollingBack \<Rightarrow> ''rolling_back'' | PhaseRolledBack \<Rightarrow> ''rolled_back'')"

definition progress_text :: "participant_progress \<Rightarrow> string" where
  "progress_text progress = (case progress of
       Unstaged \<Rightarrow> ''unstaged'' | StagingPending \<Rightarrow> ''staging_pending'' | Prepared \<Rightarrow> ''prepared''
     | QuarantinePending \<Rightarrow> ''quarantine_pending'' | Quarantined \<Rightarrow> ''quarantined''
     | CommitPending \<Rightarrow> ''commit_pending'' | Committed \<Rightarrow> ''committed'' | Verified \<Rightarrow> ''verified''
     | RemovePending \<Rightarrow> ''remove_pending'' | Removed \<Rightarrow> ''removed''
     | RestorePending \<Rightarrow> ''restore_pending'' | RolledBack \<Rightarrow> ''rolled_back'')"

definition tagged_length :: "batch_journal \<Rightarrow> nat" where
  "tagged_length j = length (phase_text (bj_phase j))
     + sum_list (map (\<lambda>p. length (progress_text (bp_progress p))) (bj_participants j))"

lemma tagged_length_bound: "tagged_length j \<le> 24 + 18 * length (bj_participants j)"
proof -
  have "length (phase_text phase) \<le> 24" for phase by (cases phase) (simp_all add: phase_text_def)
  moreover have "sum_list (map (\<lambda>p. length (progress_text (bp_progress p))) ps) \<le> 18 * length ps" for ps :: "batch_participant list"
  proof (induction ps)
    case (Cons p ps)
    have "length (progress_text (bp_progress p)) \<le> 18" by (cases "bp_progress p") (simp_all add: progress_text_def)
    then show ?case using Cons by simp
  qed simp
  ultimately show ?thesis by (auto simp: tagged_length_def intro!: add_mono)
qed

text \<open>
  What \<open>serde_json\<close> promises of the lengths it writes: journals that differ only in the phase and in the
  progresses are written alike, each name taking its own length.
\<close>

definition tag_sized :: "(batch_journal \<Rightarrow> string option) \<Rightarrow> bool" where
  "tag_sized encode \<longleftrightarrow> (\<forall>j k x. batch_authority j = batch_authority k \<longrightarrow> encode j = Some x
     \<longrightarrow> (\<exists>y. encode k = Some y \<and> length y + tagged_length j = length x + tagged_length k))"

text \<open>The journal fits its limit, and would fit it with the longest name in every place.\<close>

definition has_room :: "(batch_journal \<Rightarrow> string option) \<Rightarrow> batch_journal \<Rightarrow> bool" where
  "has_room encode j \<longleftrightarrow> tag_sized encode \<and> (\<exists>x. encode j = Some x
     \<and> length x + 1 + (24 + 18 * length (bj_participants j)) \<le> MAX_BATCH_JOURNAL_BYTES + tagged_length j)"

lemma same_authority_length:
  assumes "batch_authority k = batch_authority j" shows "length (bj_participants k) = length (bj_participants j)"
  using arg_cong[OF assms, of "\<lambda>x. length (bj_participants x)"] by (simp add: batch_authority_def)

lemma room_stays:
  assumes "has_room encode j" "batch_authority k = batch_authority j"
  shows "has_room encode k"
proof -
  obtain x where x: "encode j = Some x"
      "length x + 1 + (24 + 18 * length (bj_participants j)) \<le> MAX_BATCH_JOURNAL_BYTES + tagged_length j" and sized: "tag_sized encode"
    using assms(1) by (auto simp: has_room_def)
  obtain y where "encode k = Some y" "length y + tagged_length j = length x + tagged_length k"
    using sized x(1) assms(2) unfolding tag_sized_def by metis
  then show ?thesis using x(2) sized same_authority_length[OF assms(2)] by (simp add: has_room_def)
qed

lemma room_encodes: "has_room encode j \<Longrightarrow> validate_journal H j = Ok () \<Longrightarrow> \<exists>t. journal_encoded H encode j = Ok t"
  using tagged_length_bound[of j] by (auto simp: has_room_def journal_encoded_def)

lemma encoded_has_room:
  assumes "tag_sized encode" "journal_encoded H encode j = Ok t" "bj_phase j = Preparing"
    and "list_all (\<lambda>p. bp_progress p = Unstaged) (bj_participants j)"
    and "length t + 15 + 10 * length (bj_participants j) \<le> MAX_BATCH_JOURNAL_BYTES"
  shows "has_room encode j"
proof -
  have "sum_list (map (\<lambda>p. length (progress_text (bp_progress p))) ps) = 8 * length ps"
    if "list_all (\<lambda>p. bp_progress p = Unstaged) ps" for ps :: "batch_participant list"
    using that by (induction ps) (simp_all add: progress_text_def)
  from this[OF assms(4)] have "tagged_length j = 9 + 8 * length (bj_participants j)"
    by (simp add: tagged_length_def assms(3) phase_text_def)
  then show ?thesis using assms(1,2,5)
    by (auto simp: has_room_def journal_encoded_def and_then_Ok_iff bind_result_Ok_iff ok_or_Ok_iff Let_def split: if_splits)
qed

section \<open>Liveness\<close>

text \<open>A transition that can be written: one step, to a journal that validates and whose text fits its limit.\<close>

definition batch_move :: "(string \<Rightarrow> string) \<Rightarrow> (batch_journal \<Rightarrow> string option) \<Rightarrow> batch_journal \<Rightarrow> batch_journal \<Rightarrow> bool" where
  "batch_move H encode j k \<longleftrightarrow> batch_step j k \<and> (\<exists>t. journal_encoded H encode k = Ok t)"

lemma encoded_validates: "journal_encoded H encode j = Ok t \<Longrightarrow> validate_journal H j = Ok ()"
  by (auto simp: journal_encoded_def and_then_Ok_iff)

text \<open>The progresses that a participant can really have in a phase; validation allows a few more.\<close>

definition reachable_progress :: "apply_batch_phase \<Rightarrow> batch_participant \<Rightarrow> bool" where
  "reachable_progress phase p = (case phase of
       Preparing \<Rightarrow> bp_progress p \<in> {Unstaged, StagingPending, Prepared}
     | PhasePrepared \<Rightarrow> bp_progress p = Prepared
     | QuarantiningOldTargets \<Rightarrow> bp_progress p = Prepared
         \<or> (requires_quarantine (bp_disposition p) \<and> bp_progress p \<in> {QuarantinePending, Quarantined})
     | OldTargetsQuarantined \<Rightarrow> bp_progress p = (if requires_quarantine (bp_disposition p) then Quarantined else Prepared)
     | CommittingNewTargets \<Rightarrow> bp_progress p \<in>
         {if requires_quarantine (bp_disposition p) then Quarantined else Prepared, CommitPending, Committed}
     | NewTargetsCommitted \<Rightarrow> bp_progress p = Committed
     | StateCommitted \<Rightarrow> bp_progress p \<in> {Committed, Verified}
     | PhaseVerified \<Rightarrow> bp_progress p = Verified
     | RollingBack \<Rightarrow> valid_rollback_progress p
     | PhaseRolledBack \<Rightarrow> bp_progress p = RolledBack)"

definition next_phase :: "apply_batch_phase \<Rightarrow> apply_batch_phase" where
  "next_phase phase = (case phase of
       Preparing \<Rightarrow> PhasePrepared | PhasePrepared \<Rightarrow> QuarantiningOldTargets
     | QuarantiningOldTargets \<Rightarrow> OldTargetsQuarantined | OldTargetsQuarantined \<Rightarrow> CommittingNewTargets
     | CommittingNewTargets \<Rightarrow> NewTargetsCommitted | NewTargetsCommitted \<Rightarrow> StateCommitted
     | StateCommitted \<Rightarrow> PhaseVerified | RollingBack \<Rightarrow> PhaseRolledBack
     | PhaseVerified \<Rightarrow> PhaseVerified | PhaseRolledBack \<Rightarrow> PhaseRolledBack)"

definition terminal_phase :: "apply_batch_phase \<Rightarrow> bool" where
  "terminal_phase phase \<longleftrightarrow> phase \<in> {PhaseVerified, PhaseRolledBack}"

definition runs_well :: "(string \<Rightarrow> string) \<Rightarrow> (batch_journal \<Rightarrow> string option) \<Rightarrow> batch_journal \<Rightarrow> bool" where
  "runs_well H encode j \<longleftrightarrow> validate_journal H j = Ok () \<and> list_all (reachable_progress (bj_phase j)) (bj_participants j)
     \<and> has_room encode j"

lemmas progress_tables = reachable_progress_def valid_progress_def valid_rollback_progress_def valid_participant_transition_def
  valid_rollback_transition_def requires_quarantine_def next_phase_def valid_phase_transition_def

lemma next_phase_valid: "\<not> terminal_phase phase \<Longrightarrow> valid_phase_transition phase (next_phase phase)"
  by (cases phase) (simp_all add: progress_tables terminal_phase_def)

lemma phase_keeps_reachable:
  "reachable_progress phase p \<Longrightarrow> valid_phase_transition phase q \<Longrightarrow> valid_progress q p \<Longrightarrow> reachable_progress q p"
  by (cases phase; cases q; auto simp: progress_tables split: if_splits participant_progress.splits)

lemma step_keeps_reachable:
  "reachable_progress phase p \<Longrightarrow> valid_participant_transition phase (bp_disposition p) (bp_progress p) q \<Longrightarrow>
   valid_progress phase (p\<lparr>bp_progress := q\<rparr>) \<Longrightarrow> reachable_progress phase (p\<lparr>bp_progress := q\<rparr>)"
  by (cases phase; auto simp: progress_tables split: if_splits)

lemma participant_moves:
  assumes "reachable_progress phase p" "\<not> terminal_phase phase"
  shows "(\<exists>q. valid_participant_transition phase (bp_disposition p) (bp_progress p) q \<and> valid_progress phase (p\<lparr>bp_progress := q\<rparr>))
    \<or> valid_progress (next_phase phase) p"
  using assms
  by (cases phase; cases "bp_disposition p"; cases "bp_progress p"; simp add: progress_tables terminal_phase_def; blast?)

lemma batch_move_keeps:
  assumes "runs_well H encode j" "batch_move H encode j k"
  shows "runs_well H encode k"
proof -
  have step: "batch_step j k" and valid: "validate_journal H k = Ok ()" using assms(2) encoded_validates by (auto simp: batch_move_def)
  have progress: "list_all (valid_progress (bj_phase k)) (bj_participants k)" using valid validate_journal_progress by blast
  have reach: "list_all (reachable_progress (bj_phase j)) (bj_participants j)" using assms(1) by (simp add: runs_well_def)
  have "list_all (reachable_progress (bj_phase k)) (bj_participants k)"
    using step unfolding batch_step_def
  proof (elim disjE exE)
    fix p assume "transition_phase j p = Ok k"
    then show ?thesis using reach progress by (auto simp: transition_phase_Ok list_all_iff intro: phase_keeps_reachable)
  next
    fix i p assume t: "transition_participant j i p = Ok k"
    then show ?thesis using reach progress
      by (auto simp: transition_participant_Ok list_all_length nth_list_update intro!: step_keeps_reachable)
  qed
  moreover have "has_room encode k" using assms(1) room_stays batch_step_authority[OF step] by (auto simp: runs_well_def)
  ultimately show ?thesis using valid by (simp add: runs_well_def)
qed

lemma batch_moveI:
  assumes "runs_well H encode j" "batch_step j k" "list_all (valid_progress (bj_phase k)) (bj_participants k)"
  shows "batch_move H encode j k"
proof -
  have "validate_journal H (batch_authority k) = Ok ()"
    using assms(1) batch_step_authority[OF assms(2)] validate_journal_progress[of H j] by (simp add: runs_well_def)
  then have "validate_journal H k = Ok ()" using assms(3) validate_journal_progress[of H k] by blast
  moreover have "has_room encode k" using assms(1) room_stays batch_step_authority[OF assms(2)] by (auto simp: runs_well_def)
  ultimately show ?thesis using assms(2) room_encodes by (simp add: batch_move_def)
qed

lemma batch_move_exists:
  assumes "runs_well H encode j" "\<not> terminal_phase (bj_phase j)"
  shows "\<exists>k. batch_move H encode j k"
proof -
  have valid: "list_all (valid_progress (bj_phase j)) (bj_participants j)"
    and reach: "list_all (reachable_progress (bj_phase j)) (bj_participants j)"
    using assms(1) validate_journal_progress[of H j] by (auto simp: runs_well_def)
  note moved = batch_moveI[OF assms(1)]
  show ?thesis
  proof (cases "list_all (valid_progress (next_phase (bj_phase j))) (bj_participants j)")
    case True
    have "transition_phase j (next_phase (bj_phase j)) = Ok (j\<lparr>bj_phase := next_phase (bj_phase j)\<rparr>)"
      using next_phase_valid[OF assms(2)] by (simp add: transition_phase_Ok)
    then have "batch_step j (j\<lparr>bj_phase := next_phase (bj_phase j)\<rparr>)" unfolding batch_step_def by blast
    then show ?thesis using moved True by fastforce
  next
    case False
    then obtain i where i: "i < length (bj_participants j)" "\<not> valid_progress (next_phase (bj_phase j)) (bj_participants j ! i)"
      by (auto simp: list_all_length)
    let ?p = "bj_participants j ! i"
    have "reachable_progress (bj_phase j) ?p" using reach i(1) by (simp add: list_all_length)
    then obtain q where q: "valid_participant_transition (bj_phase j) (bp_disposition ?p) (bp_progress ?p) q"
        "valid_progress (bj_phase j) (?p\<lparr>bp_progress := q\<rparr>)"
      using participant_moves[OF _ assms(2)] i(2) by blast
    let ?k = "j\<lparr>bj_participants := (bj_participants j)[i := ?p\<lparr>bp_progress := q\<rparr>]\<rparr>"
    have "transition_participant j i q = Ok ?k" using i(1) q(1) by (simp add: transition_participant_Ok)
    then have "batch_step j ?k" unfolding batch_step_def by blast
    moreover have "list_all (valid_progress (bj_phase ?k)) (bj_participants ?k)"
      using valid q(2) i(1) by (auto simp: list_all_length nth_list_update)
    ultimately show ?thesis using moved by blast
  qed
qed

text \<open>Rollback is open from every phase before the state is committed.\<close>

lemma rollback_opens:
  assumes "runs_well H encode j" "phase_rank (bj_phase j) < phase_rank StateCommitted"
    and "list_all (\<lambda>p. \<not> (bp_disposition p = NoOp \<and> bp_progress p = CommitPending)) (bj_participants j)"
  shows "batch_move H encode j (j\<lparr>bj_phase := RollingBack\<rparr>)"
proof -
  have "valid_phase_transition (bj_phase j) RollingBack"
    using assms(2) by (cases "bj_phase j") (simp_all add: valid_phase_transition_def phase_rank_def)
  then have step: "transition_phase j RollingBack = Ok (j\<lparr>bj_phase := RollingBack\<rparr>)" by (simp add: transition_phase_Ok)
  have "valid_progress RollingBack p" if "reachable_progress (bj_phase j) p" "\<not> (bp_disposition p = NoOp \<and> bp_progress p = CommitPending)" for p
    using that assms(2) by (cases "bj_phase j"; cases "bp_disposition p"; auto simp: progress_tables phase_rank_def)
  then have "list_all (valid_progress RollingBack) (bj_participants j)"
    using assms(1,3) by (auto simp: runs_well_def list_all_iff)
  moreover have "batch_step j (j\<lparr>bj_phase := RollingBack\<rparr>)" using step unfolding batch_step_def by blast
  ultimately show ?thesis using assms(1) by (intro batch_moveI) (simp_all add: runs_well_def)
qed

end
