(* ===== verification/Apply_Batch_Durability.thy ===== *)
theory Apply_Batch_Durability
  imports Apply_Batch_Recovery Apply_Batch_Runs
begin

text \<open>
  Runs of the cursor over its store: \<open>persist_transition\<close> ends with the next journal written exactly when the
  transition is one of the protocol and its text fits the limit, so that the runs of the journal are the runs
  of the cursor.
\<close>

section \<open>One persisted transition\<close>

text \<open>The cursor and the store after a phase or participant transition that returned without an error.\<close>

definition persists ::
  "bool \<Rightarrow> (string \<Rightarrow> string) \<Rightarrow> (batch_journal \<Rightarrow> string option) \<Rightarrow> text_store \<times> batch_cursor \<Rightarrow> text_store \<times> batch_cursor \<Rightarrow> bool" where
  "persists ex H encode x y \<longleftrightarrow> (\<exists>torn n n'.
       (\<exists>p. cursor_transition_phase ex H encode (snd x) p torn n (fst x) = Finished n' (fst y) (Ok (snd y)))
     \<or> (\<exists>i p. cursor_transition_participant ex H encode (snd x) i p torn n (fst x) = Finished n' (fst y) (Ok (snd y))))"

lemma persist_Ok:
  assumes "persist_transition ex H encode c transition torn n s = Finished n' s' (Ok d)"
  shows "\<exists>k t. transition (bc_journal c) = Ok k \<and> journal_encoded H encode k = Ok t \<and> d = \<lparr>bc_journal = k, bc_encoded = t\<rparr>"
proof (cases "transition (bc_journal c)")
  case (Inl e)
  then show ?thesis using assms by (simp add: persist_transition_def returning_run)
next
  case k: (Inr k)
  show ?thesis
  proof (cases "journal_encoded H encode k")
    case (Inl e)
    then show ?thesis using assms k by (simp add: persist_transition_def returning_run)
  next
    case (Inr t)
    then show ?thesis using assms k
      by (simp add: persist_run bind_effect_def map_effect_err_def returning_run split: outcome.splits sum.splits)
  qed
qed

text \<open>On a store that holds the cursor it takes at most four durable effects, and never returns an error.\<close>

lemma persist_outcome:
  assumes "batch_json_codec encode decode" "cursor_holds H decode s c"
    and "transition (bc_journal c) = Ok k" "batch_step (bc_journal c) k" "journal_encoded H encode k = Ok t"
  shows "\<exists>m\<le>4. \<forall>torn n. (n < m \<longrightarrow> (\<exists>s'. persist_transition ex H encode c transition torn n s = Crashed s'))
    \<and> (m \<le> n \<longrightarrow> persist_transition ex H encode c transition torn n s
         = Finished (n - m) (s(ATOMIC_APPLY_JOURNAL_PATH \<mapsto> t)) (Ok \<lparr>bc_journal = k, bc_encoded = t\<rparr>))"
proof -
  let ?s = "s(ATOMIC_APPLY_PENDING_PATH := Some t)"
  have absent: "s ATOMIC_APPLY_PENDING_PATH = None" using assms(2) by (simp add: cursor_holds_def)
  obtain ss where ss: "passes (install_staged_text_guarded ex ATOMIC_APPLY_PENDING_PATH ATOMIC_APPLY_JOURNAL_PATH (Some (bc_encoded c)) t
        MAX_BATCH_JOURNAL_BYTES) ?s ss (Ok ())" "length ss \<le> 3" "last (?s # ss) = s(ATOMIC_APPLY_JOURNAL_PATH := Some t)"
    using batch_recovery.install_run[OF persist_replaces[OF assms(1,2,4,5)], of ex] by blast
  have written: "replace_text_atomically_guarded ex ATOMIC_APPLY_PENDING_PATH ATOMIC_APPLY_JOURNAL_PATH (Some (bc_encoded c)) t
      MAX_BATCH_JOURNAL_BYTES torn n s = (case n of
      0 \<Rightarrow> Crashed (case torn of None \<Rightarrow> s | Some i \<Rightarrow> s(ATOMIC_APPLY_PENDING_PATH \<mapsto> take i t))
    | Suc n' \<Rightarrow> if n' < length ss then Crashed ((?s # ss) ! n')
        else Finished (n' - length ss) (s(ATOMIC_APPLY_JOURNAL_PATH := Some t)) (Ok ()))" for torn n
    unfolding replace_text_atomically_guarded_def stage_run[of s, OF absent] ss(1)[unfolded passes_def, rule_format] ss(3) by (rule refl)
  have run: "persist_transition ex H encode c transition torn n s = (case n of
      0 \<Rightarrow> Crashed (case torn of None \<Rightarrow> s | Some i \<Rightarrow> s(ATOMIC_APPLY_PENDING_PATH \<mapsto> take i t))
    | Suc n' \<Rightarrow> if n' < length ss then Crashed ((?s # ss) ! n')
        else Finished (n' - length ss) (s(ATOMIC_APPLY_JOURNAL_PATH := Some t)) (Ok \<lparr>bc_journal = k, bc_encoded = t\<rparr>))" for torn n
    unfolding persist_run[where transition = transition, OF assms(3,5)]
    by (cases n) (simp_all only: bind_effect_def map_effect_err_def written returning_run nat.case outcome.case sum.case if_distrib
      if_cancel split: if_split, simp_all)
  show ?thesis using ss(2) by (intro exI[of _ "Suc (length ss)"]) (auto simp: run split: nat.split)
qed

lemma persisted_holds:
  assumes "batch_json_codec encode decode" "cursor_holds H decode s c" "journal_encoded H encode k = Ok t"
  shows "cursor_holds H decode (s(ATOMIC_APPLY_JOURNAL_PATH \<mapsto> t)) \<lparr>bc_journal = k, bc_encoded = t\<rparr>"
  using assms(2) encoded_parses[OF assms(1,3)] guarded_files_facts[OF batch_files] by (simp add: cursor_holds_def)

section \<open>Runs\<close>

lemma persists_moves: "persists ex H encode x y \<Longrightarrow> batch_move H encode (bc_journal (snd x)) (bc_journal (snd y))"
  unfolding persists_def cursor_transition_phase_def cursor_transition_participant_def batch_move_def batch_step_def
  by (elim exE disjE; drule persist_Ok; elim exE conjE; simp; blast)

text \<open>Every transition that can be written is written, and the run ends; the reverse of \<open>persists_moves\<close>.\<close>

lemma move_persists:
  assumes "batch_json_codec encode decode" "cursor_holds H decode s c" "batch_move H encode (bc_journal c) k"
  shows "\<exists>y. persists ex H encode (s, c) y \<and> bc_journal (snd y) = k"
proof -
  obtain t where t: "journal_encoded H encode k = Ok t" and step: "batch_step (bc_journal c) k" using assms(3) by (auto simp: batch_move_def)
  obtain transition where tr: "transition (bc_journal c) = Ok k"
      "(\<exists>p. transition = (\<lambda>j. transition_phase j p)) \<or> (\<exists>i p. transition = (\<lambda>j. transition_participant j i p))"
    using step unfolding batch_step_def
  proof (elim disjE exE)
    fix p assume "transition_phase (bc_journal c) p = Ok k"
    then show thesis by (intro that[of "\<lambda>j. transition_phase j p"]) auto
  next
    fix i p assume "transition_participant (bc_journal c) i p = Ok k"
    then show thesis by (intro that[of "\<lambda>j. transition_participant j i p"]) auto
  qed
  let ?y = "(s(ATOMIC_APPLY_JOURNAL_PATH \<mapsto> t), \<lparr>bc_journal = k, bc_encoded = t\<rparr>)"
  obtain m where "\<forall>torn n. m \<le> n \<longrightarrow> persist_transition ex H encode c transition torn n s
      = Finished (n - m) (s(ATOMIC_APPLY_JOURNAL_PATH \<mapsto> t)) (Ok \<lparr>bc_journal = k, bc_encoded = t\<rparr>)"
    using persist_outcome[where transition = transition, OF assms(1,2) tr(1) step t, of ex] by blast
  then have "persist_transition ex H encode c transition None m s = Finished (m - m) (fst ?y) (Ok (snd ?y))" by simp
  then have "persists ex H encode (s, c) ?y"
    using tr(2) unfolding persists_def cursor_transition_phase_def cursor_transition_participant_def fst_conv snd_conv
    by (elim disjE exE; hypsubst_thin) (metis | fast)+
  then show ?thesis by (intro exI[of _ ?y]) simp
qed

lemma persists_holds:
  assumes "batch_json_codec encode decode" "cursor_holds H decode (fst x) (snd x)" "persists ex H encode x y"
  shows "cursor_holds H decode (fst y) (snd y)"
proof -
  obtain transition torn n n' where run: "persist_transition ex H encode (snd x) transition torn n (fst x) = Finished n' (fst y) (Ok (snd y))"
      and tr: "\<forall>j k. transition j = Ok k \<longrightarrow> batch_step j k"
    using assms(3) transition_is_step unfolding persists_def cursor_transition_phase_def cursor_transition_participant_def by blast
  obtain k t where k: "transition (bc_journal (snd x)) = Ok k" "journal_encoded H encode k = Ok t" "snd y = \<lparr>bc_journal = k, bc_encoded = t\<rparr>"
    using persist_Ok[OF run] by blast
  have "batch_step (bc_journal (snd x)) k" using tr k(1) by blast
  then obtain m where m: "n < m \<Longrightarrow> \<exists>s'. persist_transition ex H encode (snd x) transition torn n (fst x) = Crashed s'"
      "m \<le> n \<Longrightarrow> persist_transition ex H encode (snd x) transition torn n (fst x)
         = Finished (n - m) ((fst x)(ATOMIC_APPLY_JOURNAL_PATH \<mapsto> t)) (Ok \<lparr>bc_journal = k, bc_encoded = t\<rparr>)"
    using persist_outcome[where transition = transition, OF assms(1,2) k(1) _ k(2), of ex] by blast
  have "fst y = (fst x)(ATOMIC_APPLY_JOURNAL_PATH \<mapsto> t)" using m run by (cases "n < m") auto
  then show ?thesis using persisted_holds[OF assms(1,2) k(2)] k(3) by simp
qed

text \<open>A cursor that its store holds, whose journal can have been reached and has room for any names.\<close>

definition runs_durably ::
  "(string \<Rightarrow> string) \<Rightarrow> (batch_journal \<Rightarrow> string option) \<Rightarrow> (string \<Rightarrow> batch_journal option) \<Rightarrow> text_store \<times> batch_cursor \<Rightarrow> bool" where
  "runs_durably H encode decode x \<longleftrightarrow> batch_json_codec encode decode \<and> cursor_holds H decode (fst x) (snd x)
     \<and> runs_well H encode (bc_journal (snd x))"

interpretation batch_life: live_steps "persists ex H encode" "\<lambda>x. work_left (bc_journal (snd x))" "runs_durably H encode decode"
    "\<lambda>x. terminal_phase (bj_phase (bc_journal (snd x)))" for ex H encode decode
proof unfold_locales
  show "work_left (bc_journal (snd y)) < work_left (bc_journal (snd x))" if "persists ex H encode x y" for x y
    using persists_moves[OF that] batch_step_falls by (simp add: batch_move_def)
  show "runs_durably H encode decode y" if "runs_durably H encode decode x" "persists ex H encode x y" for x y
    using that persists_holds batch_move_keeps[OF _ persists_moves[OF that(2)]] by (auto simp: runs_durably_def)
  show "\<exists>y. persists ex H encode x y" if good: "runs_durably H encode decode x" "\<not> terminal_phase (bj_phase (bc_journal (snd x)))" for x
  proof -
    obtain k where "batch_move H encode (bc_journal (snd x)) k" 
      using batch_move_exists[of H encode "bc_journal (snd x)"] good unfolding runs_durably_def by blast
    then show ?thesis
      using good(1) move_persists[where ex = ex and s = "fst x" and c = "snd x"] unfolding runs_durably_def prod.collapse by blast
  qed
qed

lemma phase_persists:
  assumes "batch_json_codec encode decode" "cursor_holds H decode s c" "batch_move H encode (bc_journal c) k"
    and "k = (bc_journal c)\<lparr>bj_phase := p\<rparr>" "valid_phase_transition (bj_phase (bc_journal c)) p"
  shows "\<exists>y. (\<exists>m\<le>4. \<forall>torn n. cursor_transition_phase ex H encode c p torn (n + m) s = Finished n (fst y) (Ok (snd y)))
    \<and> bc_journal (snd y) = k"
proof -
  obtain t where t: "journal_encoded H encode k = Ok t" "batch_step (bc_journal c) k" using assms(3) by (auto simp: batch_move_def)
  have "transition_phase (bc_journal c) p = Ok k" using assms(4,5) by (simp add: transition_phase_Ok)
  from persist_outcome[where transition = "\<lambda>j. transition_phase j p", OF assms(1,2) this t(2,1), of ex]
  obtain m where m: "m \<le> 4" "\<And>torn n. m \<le> n \<Longrightarrow> persist_transition ex H encode c (\<lambda>j. transition_phase j p) torn n s
      = Finished (n - m) (s(ATOMIC_APPLY_JOURNAL_PATH \<mapsto> t)) (Ok \<lparr>bc_journal = k, bc_encoded = t\<rparr>)"
    by blast
  let ?y = "(s(ATOMIC_APPLY_JOURNAL_PATH \<mapsto> t), \<lparr>bc_journal = k, bc_encoded = t\<rparr>)"
  have "cursor_transition_phase ex H encode c p torn (n + m) s = Finished n (fst ?y) (Ok (snd ?y))" for torn n
    using m(2)[of "n + m"] by (simp add: cursor_transition_phase_def)
  then show ?thesis using m(1) by (intro exI[of _ ?y]) auto
qed

lemma rollback_goes_on:
  assumes "(persists ex H encode)\<^sup>*\<^sup>* y z" "bj_phase (bc_journal (snd y)) = RollingBack"
  shows "bj_phase (bc_journal (snd z)) \<in> {RollingBack, PhaseRolledBack}"
  using assms(1)
proof (induction rule: rtranclp_induct)
  case base
  then show ?case using assms(2) by simp
next
  case (step u v)
  have "batch_step (bc_journal (snd u)) (bc_journal (snd v))" using persists_moves[OF step.hyps(2)] by (simp add: batch_move_def)
  then show ?case using step.IH
    by (auto simp: batch_step_def transition_phase_Ok transition_participant_Ok valid_phase_transition_def)
qed

section \<open>Installing the journal of a plan\<close>

definition no_batch_files :: "text_store \<Rightarrow> bool" where
  "no_batch_files s \<longleftrightarrow> s ATOMIC_APPLY_JOURNAL_PATH = None \<and> s ATOMIC_APPLY_PENDING_PATH = None \<and> s BATCH_BACKUP_PATH = None"

lemma cursor_install_run:
  assumes "batch_json_codec encode decode" "no_batch_files s" "initial_journal H plan = Ok j" "journal_encoded H encode j = Ok t"
  shows "cursor_install ex H encode plan torn n s = (case n of
      0 \<Rightarrow> Crashed (case torn of None \<Rightarrow> s | Some i \<Rightarrow> s(ATOMIC_APPLY_PENDING_PATH \<mapsto> take i t))
    | Suc 0 \<Rightarrow> Crashed (s(ATOMIC_APPLY_PENDING_PATH := Some t))
    | Suc (Suc n') \<Rightarrow> Finished n' (s(ATOMIC_APPLY_JOURNAL_PATH \<mapsto> t)) (Ok \<lparr>bc_journal = j, bc_encoded = t\<rparr>))"
proof -
  let ?s = "s(ATOMIC_APPLY_PENDING_PATH := Some t)"
  have absent: "s ATOMIC_APPLY_PENDING_PATH = None" using assms(2) by (simp add: no_batch_files_def)
  have "passes (install_staged_text_guarded ex ATOMIC_APPLY_PENDING_PATH ATOMIC_APPLY_JOURNAL_PATH None t MAX_BATCH_JOURNAL_BYTES) ?s
      [?s(ATOMIC_APPLY_JOURNAL_PATH := Some t, ATOMIC_APPLY_PENDING_PATH := None)] (Ok ())"
    using assms(2) guarded_files_facts[OF batch_files] encoded_parses(1)[OF assms(1,4)]
    by (intro passes_install_first[OF batch_files]) (simp_all add: no_batch_files_def)
  moreover have "?s(ATOMIC_APPLY_JOURNAL_PATH := Some t, ATOMIC_APPLY_PENDING_PATH := None) = s(ATOMIC_APPLY_JOURNAL_PATH := Some t)"
    using absent guarded_files_facts[OF batch_files] by (auto simp: fun_eq_iff)
  ultimately have "install_staged_text_guarded ex ATOMIC_APPLY_PENDING_PATH ATOMIC_APPLY_JOURNAL_PATH None t MAX_BATCH_JOURNAL_BYTES torn n ?s
      = (case n of 0 \<Rightarrow> Crashed ?s | Suc n' \<Rightarrow> Finished n' (s(ATOMIC_APPLY_JOURNAL_PATH := Some t)) (Ok ()))" for n
    by (simp add: passes_def split: nat.split)
  then have "replace_text_atomically_guarded ex ATOMIC_APPLY_PENDING_PATH ATOMIC_APPLY_JOURNAL_PATH None t MAX_BATCH_JOURNAL_BYTES torn n s
      = (case n of 0 \<Rightarrow> Crashed (case torn of None \<Rightarrow> s | Some i \<Rightarrow> s(ATOMIC_APPLY_PENDING_PATH \<mapsto> take i t))
         | Suc n' \<Rightarrow> (case n' of 0 \<Rightarrow> Crashed ?s | Suc n' \<Rightarrow> Finished n' (s(ATOMIC_APPLY_JOURNAL_PATH := Some t)) (Ok ())))" for n
    unfolding replace_text_atomically_guarded_def stage_run[of s, OF absent] by (cases n) simp_all
  note written = this
  show ?thesis
    by (simp add: cursor_install_def assms(3,4)) (simp add: bind_effect_def map_effect_err_def written returning_run split: nat.split)
qed

lemma cursor_install_Ok:
  assumes "batch_json_codec encode decode" "no_batch_files s0" "cursor_install ex H encode plan torn n s0 = Finished n' s (Ok c)"
  shows "initial_journal H plan = Ok (bc_journal c)" "journal_encoded H encode (bc_journal c) = Ok (bc_encoded c)"
    "cursor_holds H decode s c"
proof -
  obtain j where j: "initial_journal H plan = Ok j"
    using assms(3) by (cases "initial_journal H plan") (simp_all add: cursor_install_def returning_run)
  obtain t where t: "journal_encoded H encode j = Ok t"
    using assms(3) j by (cases "journal_encoded H encode j") (simp_all add: cursor_install_def returning_run)
  have c: "c = \<lparr>bc_journal = j, bc_encoded = t\<rparr>" and s: "s = s0(ATOMIC_APPLY_JOURNAL_PATH \<mapsto> t)"
    using assms(3) unfolding cursor_install_run[OF assms(1,2) j t] by (auto split: nat.splits)
  show "initial_journal H plan = Ok (bc_journal c)" "journal_encoded H encode (bc_journal c) = Ok (bc_encoded c)" using j t c by simp_all
  show "cursor_holds H decode s c"
    using assms(2) encoded_parses[OF assms(1) t] guarded_files_facts[OF batch_files]
    by (simp add: cursor_holds_def no_batch_files_def s c)
qed

end
