(* ===== verification/Apply_Batch_Promises.thy ===== *)
theory Apply_Batch_Promises
  imports Apply_Batch_Forward Apply_Batch_Durability
begin

text \<open>
  The properties of the atomic apply journal that are not about crashes: its protocol, its digest, and the
  runs of its cursor.
\<close>

lemma initial_journal_fresh:
  assumes "initial_journal H plan = Ok j"
  shows "validate_journal H j = Ok ()" "bj_phase j = Preparing" "list_all (\<lambda>p. bp_progress p = Unstaged) (bj_participants j)"
    "length (bj_participants j) = length (ap_items plan)"
proof -
  obtain ps where ps: "try_map (prepared_participant (ap_digest plan)) (enumerate 0 (ap_items plan)) = Ok ps" "bj_participants j = ps"
      "bj_phase j = Preparing" and "validate_journal H j = Ok ()"
    using assms by (auto simp: initial_journal_def bind_result_Ok_iff and_then_Ok_iff Let_def)
  moreover have fresh: "bp_progress p = Unstaged" if "prepared_participant d e = Ok p" for d e p
    using that by (cases e) (auto simp: prepared_participant_def bind_result_Ok_iff split: if_splits)
  ultimately show "validate_journal H j = Ok ()" "bj_phase j = Preparing" by simp_all
  have pieces: "length ps = length (ap_items plan)"
    "\<And>i. i < length ps \<Longrightarrow> prepared_participant (ap_digest plan) (enumerate 0 (ap_items plan) ! i) = Ok (ps ! i)"
    using ps(1) unfolding try_map_Ok_iff by (simp_all add: list_all2_conv_all_nth)
  show "length (bj_participants j) = length (ap_items plan)" using pieces(1) ps(2) by simp
  show "list_all (\<lambda>p. bp_progress p = Unstaged) (bj_participants j)"
    unfolding ps(2) list_all_length using fresh[OF pieces(2)] by blast
qed

lemma install_runs_durably:
  assumes "batch_json_codec encode decode" "tag_sized encode" "no_batch_files s0"
    and "cursor_install ex H encode plan torn i s0 = Finished i' s (Ok c)"
    and "length (bc_encoded c) + 15 + 10 * length (ap_items plan) \<le> MAX_BATCH_JOURNAL_BYTES"
  shows "runs_durably H encode decode (s, c)" "work_left (bc_journal c) \<le> 9 + 11 * length (ap_items plan)"
proof -
  note installed = cursor_install_Ok[OF assms(1,3,4)]
  note fresh = initial_journal_fresh[OF installed(1)]
  have "has_room encode (bc_journal c)"
    using encoded_has_room[OF assms(2) installed(2) fresh(2,3)] assms(5) by (simp add: fresh(4))
  then show "runs_durably H encode decode (s, c)"
    using fresh assms(1) installed(3) by (auto simp: runs_durably_def runs_well_def reachable_progress_def list_all_iff)
  show "work_left (bc_journal c) \<le> 9 + 11 * length (ap_items plan)" using work_left_bound[of "bc_journal c"] fresh(4) by simp
qed

section \<open>A codec of the sample batch\<close>

text \<open>A text that holds just the names of the phase and of the progress, for every journal of the sample batch.\<close>

definition named_encode :: "batch_journal \<Rightarrow> string option" where
  "named_encode j = (if batch_authority j = batch_authority sample_batch
     then Some (phase_text (bj_phase j) @ '' '' @ concat (map (\<lambda>p. progress_text (bp_progress p)) (bj_participants j))) else None)"

definition named_phases :: "apply_batch_phase list" where
  "named_phases = [Preparing, PhasePrepared, QuarantiningOldTargets, OldTargetsQuarantined, CommittingNewTargets, NewTargetsCommitted,
     StateCommitted, PhaseVerified, RollingBack, PhaseRolledBack]"

definition named_progresses :: "participant_progress list" where
  "named_progresses = [Unstaged, StagingPending, Prepared, QuarantinePending, Quarantined, CommitPending, Committed, Verified,
     RemovePending, Removed, RestorePending, RolledBack]"

definition sample_at :: "apply_batch_phase \<Rightarrow> participant_progress \<Rightarrow> batch_journal" where
  "sample_at phase progress = sample_batch\<lparr>bj_phase := phase, bj_participants := [sample_participant\<lparr>bp_progress := progress\<rparr>]\<rparr>"

definition named_decode :: "string \<Rightarrow> batch_journal option" where
  "named_decode t = (case filter (\<lambda>j. named_encode j = Some (butlast t))
       [sample_at phase progress. phase \<leftarrow> named_phases, progress \<leftarrow> named_progresses] of
     [] \<Rightarrow> None | j # _ \<Rightarrow> Some j)"

lemma named_lists: "phase \<in> set named_phases" "progress \<in> set named_progresses"
  by (cases phase; simp add: named_phases_def) (cases progress; simp add: named_progresses_def)

lemma phase_text_inj: "phase_text p = phase_text q \<Longrightarrow> p = q"
  by (cases p; cases q; simp add: phase_text_def)

lemma progress_text_inj: "progress_text p = progress_text q \<Longrightarrow> p = q"
  by (cases p; cases q; simp add: progress_text_def)

lemma phase_text_split: "phase_text p @ '' '' @ xs = phase_text q @ '' '' @ ys \<Longrightarrow> p = q \<and> xs = ys"
proof -
  assume same: "phase_text p @ '' '' @ xs = phase_text q @ '' '' @ ys"
  have "takeWhile (\<lambda>c. c \<noteq> CHR '' '') (phase_text p @ '' '' @ xs) = phase_text p" for p xs by (cases p) (simp_all add: phase_text_def)
  from this[of p xs] this[of q ys] have "phase_text p = phase_text q" unfolding same by simp
  then have "p = q" by (rule phase_text_inj)
  then show ?thesis using same by simp
qed

lemma same_unstarted:
  assumes "unstarted p = unstarted q" shows "p = q\<lparr>bp_progress := bp_progress p\<rparr>"
proof -
  have "(unstarted p)\<lparr>bp_progress := bp_progress p\<rparr> = (unstarted q)\<lparr>bp_progress := bp_progress p\<rparr>"
    by (rule arg_cong[OF assms, of "\<lambda>x. x\<lparr>bp_progress := bp_progress p\<rparr>"])
  then show ?thesis by (simp add: unstarted_def del: with_progress_simps(4))
qed

lemma first_only:
  assumes "x \<in> set xs" "P x" "\<And>y. P y \<Longrightarrow> y = x"
  shows "(case filter P xs of [] \<Rightarrow> None | y # _ \<Rightarrow> Some y) = Some x"
proof -
  have "filter P xs \<noteq> []" using assms(1,2) by (auto simp: filter_empty_conv)
  then obtain y ys where found: "filter P xs = y # ys" by (cases "filter P xs") simp_all
  then have "y \<in> set (filter P xs)" by simp
  then have "y = x" using assms(3) by simp
  then show ?thesis by (simp add: found)
qed

lemma sample_authority:
  assumes "batch_authority j = batch_authority sample_batch"
  shows "\<exists>phase progress. j = sample_at phase progress"
proof -
  have "map unstarted (bj_participants j) = [unstarted sample_participant]"
    using arg_cong[OF assms, of bj_participants] by (simp add: batch_authority_def sample_fields)
  then obtain p where p: "bj_participants j = [p]" "p = sample_participant\<lparr>bp_progress := bp_progress p\<rparr>"
    using same_unstarted by auto
  have "(batch_authority j)\<lparr>bj_phase := bj_phase j, bj_participants := bj_participants j\<rparr>
      = (batch_authority sample_batch)\<lparr>bj_phase := bj_phase j, bj_participants := bj_participants j\<rparr>" by (simp only: assms)
  moreover have "(batch_authority j)\<lparr>bj_phase := bj_phase j, bj_participants := bj_participants j\<rparr> = j"
    by (cases j) (simp add: batch_authority_def)
  ultimately have "j = sample_batch\<lparr>bj_phase := bj_phase j, bj_participants := [p]\<rparr>" by (simp add: batch_authority_def p(1))
  then have "j = sample_at (bj_phase j) (bp_progress p)" unfolding sample_at_def p(2)[symmetric] .
  then show ?thesis by blast
qed

lemma named_encode_Some:
  "named_encode j = Some v \<longleftrightarrow> (\<exists>phase progress. j = sample_at phase progress \<and> v = phase_text phase @ '' '' @ progress_text progress)"
proof -
  have "batch_authority (sample_at phase progress) = batch_authority sample_batch" for phase progress
    by (simp add: sample_at_def batch_authority_def sample_fields unstarted_def)
  then have "named_encode (sample_at phase progress) = Some (phase_text phase @ '' '' @ progress_text progress)" for phase progress
    by (simp add: named_encode_def) (simp add: sample_at_def)
  moreover have "named_encode j = None" if "\<nexists>phase progress. j = sample_at phase progress"
  proof -
    have "batch_authority j \<noteq> batch_authority sample_batch" using that sample_authority[of j] by blast
    then show ?thesis by (simp add: named_encode_def)
  qed
  ultimately show ?thesis by (metis option.distinct(1) option.inject)
qed

lemma named_codec: "batch_json_codec named_encode named_decode"
  unfolding batch_json_codec_def
proof (intro allI impI conjI)
  fix j v assume v: "named_encode j = Some v"
  then obtain phase progress where j: "j = sample_at phase progress" "v = phase_text phase @ '' '' @ progress_text progress"
    unfolding named_encode_Some by blast
  have "list_all (\<lambda>c. byte c < 0x80) (phase_text phase)" by (cases phase) (simp_all add: phase_text_def)
  moreover have "list_all (\<lambda>c. byte c < 0x80) (progress_text progress)" by (cases progress) (simp_all add: progress_text_def)
  ultimately show "is_text (v @ [CHR 0x0A])" unfolding j(2) by (intro is_text_ascii) simp
  have only: "k = j" if k: "named_encode k = Some v" for k
  proof -
    obtain q r where q: "k = sample_at q r" "phase_text phase @ '' '' @ progress_text progress = phase_text q @ '' '' @ progress_text r"
      using k unfolding named_encode_Some j(2) by blast
    show ?thesis using phase_text_split[OF q(2)] progress_text_inj[of progress r] unfolding q(1) j(1) by simp
  qed
  have "j \<in> set [sample_at phase progress. phase \<leftarrow> named_phases, progress \<leftarrow> named_progresses]"
    unfolding j(1) using named_lists by force
  then show "named_decode (v @ [CHR 0x0A]) = Some j"
    unfolding named_decode_def butlast_snoc by (rule first_only[where P = "\<lambda>j. named_encode j = Some v"]) (use v only in blast)+
qed

lemma named_sized: "tag_sized named_encode"
proof -
  have "tagged_length (sample_at phase progress) = length (phase_text phase) + length (progress_text progress)" for phase progress
    by (simp add: tagged_length_def sample_at_def)
  note lengths = this
  show ?thesis unfolding tag_sized_def
  proof (intro allI impI)
    fix j k x assume same: "batch_authority j = batch_authority k" and x: "named_encode j = Some x"
    have "batch_authority k = batch_authority sample_batch" using x same by (simp add: named_encode_def split: if_splits)
    then obtain phase progress where k: "k = sample_at phase progress" using sample_authority by blast
    then have y: "named_encode k = Some (phase_text phase @ '' '' @ progress_text progress)" unfolding named_encode_Some by blast
    obtain phase' progress' where "j = sample_at phase' progress'" "x = phase_text phase' @ '' '' @ progress_text progress'"
      using x unfolding named_encode_Some by blast
    then show "\<exists>y. named_encode k = Some y \<and> length y + tagged_length j = length x + tagged_length k"
      using y unfolding k by (simp add: lengths)
  qed
qed

text \<open>The sample plan, installed in an empty store, and its first transition.\<close>

definition sample_text :: "batch_journal \<Rightarrow> string" where
  "sample_text j = the (named_encode j) @ [CHR 0x0A]"

definition sample_persisted :: "batch_journal \<Rightarrow> text_store \<times> batch_cursor" where
  "sample_persisted j = ([ATOMIC_APPLY_JOURNAL_PATH \<mapsto> sample_text j], \<lparr>bc_journal = j, bc_encoded = sample_text j\<rparr>)"

lemma sample_journals: "sample_batch = sample_at Preparing Unstaged" "sample_next_batch = sample_at Preparing StagingPending"
proof -
  have "sample_participant\<lparr>bp_progress := Unstaged\<rparr> = sample_participant" by (simp add: sample_participant_def del: with_progress_simps(4))
  moreover have "sample_batch\<lparr>bj_phase := Preparing, bj_participants := ps\<rparr> = sample_batch\<lparr>bj_participants := ps\<rparr>" for ps
    by (simp add: sample_batch_def)
  moreover have "sample_batch\<lparr>bj_participants := [sample_participant]\<rparr> = sample_batch" by (simp add: sample_batch_def)
  ultimately show "sample_batch = sample_at Preparing Unstaged" "sample_next_batch = sample_at Preparing StagingPending"
    by (simp_all only: sample_at_def sample_next_batch_def)
qed

lemma sample_named:
  "named_encode sample_batch = Some (''preparing'' @ '' '' @ ''unstaged'')"
  "named_encode sample_next_batch = Some (''preparing'' @ '' '' @ ''staging_pending'')"
proof -
  show "named_encode sample_batch = Some (''preparing'' @ '' '' @ ''unstaged'')" unfolding named_encode_Some sample_journals
    by (intro exI[of _ Preparing] exI[of _ Unstaged]) (simp add: phase_text_def progress_text_def)
  show "named_encode sample_next_batch = Some (''preparing'' @ '' '' @ ''staging_pending'')" unfolding named_encode_Some sample_journals
    by (intro exI[of _ Preparing] exI[of _ StagingPending]) (simp add: phase_text_def progress_text_def)
qed

lemma sample_named_encoded:
  "journal_encoded sample_digest named_encode sample_batch = Ok (sample_text sample_batch)"
  "journal_encoded sample_digest named_encode sample_next_batch = Ok (sample_text sample_next_batch)"
  using sample_batch_valid sample_next_valid by (simp_all add: journal_encoded_def sample_named sample_text_def MAX_BATCH_JOURNAL_BYTES_def)

lemma sample_install_room:
  "length (bc_encoded (snd (sample_persisted sample_batch))) + 15 + 10 * length (ap_items sample_plan) \<le> MAX_BATCH_JOURNAL_BYTES"
  by (simp add: sample_persisted_def sample_plan_def sample_text_def sample_named MAX_BATCH_JOURNAL_BYTES_def)

lemma sample_no_files: "no_batch_files (\<lambda>_. None)"
  by (simp add: no_batch_files_def)

lemma sample_install:
  "cursor_install True sample_digest named_encode sample_plan None 2 (\<lambda>_. None)
     = Finished 0 (fst (sample_persisted sample_batch)) (Ok (snd (sample_persisted sample_batch)))"
  by (simp add: cursor_install_run[OF named_codec sample_no_files sample_initial sample_named_encoded(1)] sample_persisted_def
    numeral_2_eq_2)

lemma sample_persists: "persists True sample_digest named_encode (sample_persisted sample_batch) (sample_persisted sample_next_batch)"
proof -
  note c = cursor_install_Ok(3)[OF named_codec sample_no_files sample_install]
  have step: "transition_participant (bc_journal (snd (sample_persisted sample_batch))) 0 StagingPending = Ok sample_next_batch"
    by (simp add: sample_persisted_def sample_step)
  then have "batch_step (bc_journal (snd (sample_persisted sample_batch))) sample_next_batch" unfolding batch_step_def by blast
  from persist_outcome[where transition = "\<lambda>j. transition_participant j 0 StagingPending", OF named_codec c step this
      sample_named_encoded(2), of True]
  obtain m where "persist_transition True sample_digest named_encode (snd (sample_persisted sample_batch))
      (\<lambda>j. transition_participant j 0 StagingPending) None m (fst (sample_persisted sample_batch))
    = Finished 0 ((fst (sample_persisted sample_batch))(ATOMIC_APPLY_JOURNAL_PATH \<mapsto> sample_text sample_next_batch))
        (Ok \<lparr>bc_journal = sample_next_batch, bc_encoded = sample_text sample_next_batch\<rparr>)"
    by force
  then show ?thesis unfolding persists_def cursor_transition_participant_def
    by (intro exI[of _ None] exI[of _ m] exI[of _ 0] disjI2 exI[of _ 0] exI[of _ StagingPending]) (simp add: sample_persisted_def)
qed

section \<open>Plans near the limit\<close>

text \<open>
  \<open>validate_prepared_plan\<close> encodes only the journal of the finished batch, whose names are short.  With a
  codec that writes the names at their length and a plan that just fits, the plan passes preparation and its
  journal is installed, but the first transition is refused, and so is the rollback.
\<close>

definition full_encode :: "batch_journal \<Rightarrow> string option" where
  "full_encode j = Some (replicate (MAX_BATCH_JOURNAL_BYTES - 18 + tagged_length j) CHR ''x'')"

theorem near_limit_plans_stall:
  "tag_sized full_encode
   \<and> validate_prepared_plan sample_digest full_encode sample_plan = Ok ()
   \<and> initial_journal sample_digest sample_plan = Ok sample_batch
   \<and> journal_encoded sample_digest full_encode sample_batch = Ok (the (full_encode sample_batch) @ [CHR 0x0A])
   \<and> journal_encoded sample_digest full_encode sample_next_batch = Err ''apply.batch_journal_invalid''
   \<and> journal_encoded sample_digest full_encode (sample_batch\<lparr>bj_phase := RollingBack\<rparr>) = Err ''apply.batch_journal_invalid''"
proof -
  have lengths: "tagged_length sample_batch = 17" "tagged_length sample_next_batch = 24" "tagged_length (sample_batch\<lparr>bj_phase := RollingBack\<rparr>) = 20"
      "tagged_length (sample_batch\<lparr>bj_phase := PhaseVerified, bj_participants := map (with_progress Verified) [sample_participant]\<rparr>) = 16"
    by (simp_all add: tagged_length_def sample_next_batch_def sample_fields phase_text_def progress_text_def)
  have written: "journal_encoded sample_digest full_encode j = (if tagged_length j > 17 then Err ''apply.batch_journal_invalid''
      else Ok (the (full_encode j) @ [CHR 0x0A]))" if "validate_journal sample_digest j = Ok ()" for j
    using that by (simp add: journal_encoded_def full_encode_def MAX_BATCH_JOURNAL_BYTES_def)
  have rolling: "validate_journal sample_digest (sample_batch\<lparr>bj_phase := RollingBack\<rparr>) = Ok ()"
  proof -
    have "batch_step sample_batch (sample_batch\<lparr>bj_phase := RollingBack\<rparr>)" unfolding batch_step_def
      by (intro disjI1 exI[of _ RollingBack]) (simp add: transition_phase_Ok sample_fields valid_phase_transition_def)
    then have same: "batch_authority (sample_batch\<lparr>bj_phase := RollingBack\<rparr>) = batch_authority sample_batch" by (rule batch_step_authority)
    have "valid_progress RollingBack sample_participant"
      by (simp add: valid_progress_def valid_rollback_progress_def sample_fields)
    moreover have "validate_journal sample_digest (batch_authority sample_batch) = Ok ()"
      using sample_batch_valid validate_journal_progress by blast
    ultimately show ?thesis unfolding validate_journal_progress[of _ "sample_batch\<lparr>bj_phase := RollingBack\<rparr>"] same
      by (simp add: sample_fields)
  qed
  have forward: "validate_forward_path sample_digest sample_batch
      = Ok (sample_batch\<lparr>bj_phase := PhaseVerified, bj_participants := map (with_progress Verified) [sample_participant]\<rparr>)"
    using forward_run[of sample_batch] sample_batch_valid by (simp add: sample_fields)
  then have "validate_journal sample_digest
      (sample_batch\<lparr>bj_phase := PhaseVerified, bj_participants := map (with_progress Verified) [sample_participant]\<rparr>) = Ok ()"
    by (auto simp: validate_forward_path_def bind_result_Ok_iff and_then_Ok_iff)
  note finished = written[OF this]
  have "tag_sized full_encode" by (simp add: tag_sized_def full_encode_def)
  moreover have "validate_prepared_plan sample_digest full_encode sample_plan = Ok ()"
    by (simp add: validate_prepared_plan_def sample_initial forward finished lengths del: list.map)
  ultimately show ?thesis
    using sample_initial by (simp add: written sample_batch_valid sample_next_valid rolling lengths)
qed

section \<open>Properties\<close>

text \<open>C15: Recovery accepts exactly what the cursor can have been writing: the transition check on a live and a
  pending journal holds if and only if one phase transition or one participant transition leads from the
  first to the second.\<close>

theorem recovery_accepts_single_steps:
  "valid_journal_transition j k \<longleftrightarrow> (\<exists>p. transition_phase j p = Ok k) \<or> (\<exists>i p. transition_participant j i p = Ok k)"
  unfolding valid_journal_transition_iff batch_step_def by (rule refl)

text \<open>C4: No batch stalls, as long as its journal stays clear of the size limit.  Install the journal of a plan in
  a store that has none, with a text at least 15 bytes and 10 per participant below the limit, so that the
  longest names of phases and progresses still fit.  Then after any transitions that the cursor has persisted,
  either the batch is verified or rolled back or another transition can be persisted, each of them encoded, within
  the limit and written to the store; every run is bounded by nine phases and eleven progresses per
  participant; and an end is always within reach.  Without the margin this fails, see \<open>near_limit_plans_stall\<close>.\<close>

theorem batches_never_stall:
  assumes "batch_json_codec encode decode" "tag_sized encode" "no_batch_files s0"
    and "cursor_install ex H encode plan torn i s0 = Finished i' s (Ok c)"
    and "length (bc_encoded c) + 15 + 10 * length (ap_items plan) \<le> MAX_BATCH_JOURNAL_BYTES"
    and "(persists ex H encode ^^ n) (s, c) x"
  shows "n \<le> 9 + 11 * length (ap_items plan)
    \<and> (terminal_phase (bj_phase (bc_journal (snd x))) \<or> (\<exists>y. persists ex H encode x y))
    \<and> (\<exists>m y. n + m \<le> 9 + 11 * length (ap_items plan) \<and> (persists ex H encode ^^ m) x y
         \<and> terminal_phase (bj_phase (bc_journal (snd y))))"
proof (intro conjI)
  note start = install_runs_durably[OF assms(1-5)]
  have used: "n + work_left (bc_journal (snd x)) \<le> work_left (bc_journal c)" using batch_life.run_length[OF assms(6)] by simp
  show "n \<le> 9 + 11 * length (ap_items plan)" using used start(2) by simp
  have good: "runs_durably H encode decode x"
    using batch_life.keeps_run[OF start(1)] relpowp_imp_rtranclp[OF assms(6)] by blast
  show "terminal_phase (bj_phase (bc_journal (snd x))) \<or> (\<exists>y. persists ex H encode x y)" using batch_life.progress[OF good] by blast
  obtain m y where "m \<le> work_left (bc_journal (snd x))" "(persists ex H encode ^^ m) x y" "terminal_phase (bj_phase (bc_journal (snd y)))"
    using batch_life.reaches_final[OF good] by blast
  then show "\<exists>m y. n + m \<le> 9 + 11 * length (ap_items plan) \<and> (persists ex H encode ^^ m) x y
      \<and> terminal_phase (bj_phase (bc_journal (snd y)))"
    using used start(2) by (intro exI[of _ m] exI[of _ y]) simp
qed

theorem batches_never_stall_witness:
  "\<exists>m y. m \<le> 19 \<and> (persists True sample_digest named_encode ^^ m) (sample_persisted sample_next_batch) y
     \<and> terminal_phase (bj_phase (bc_journal (snd y)))"
proof -
  have "(persists True sample_digest named_encode ^^ 1) (fst (sample_persisted sample_batch), snd (sample_persisted sample_batch))
      (sample_persisted sample_next_batch)"
    using sample_persists by (simp add: relcompp_apply)
  from batches_never_stall[OF named_codec named_sized sample_no_files sample_install sample_install_room this]
  obtain m y where "1 + m \<le> 9 + 11 * length (ap_items sample_plan)" "terminal_phase (bj_phase (bc_journal (snd y)))"
      "(persists True sample_digest named_encode ^^ m) (sample_persisted sample_next_batch) y"
    by blast
  then show ?thesis by (intro exI[of _ m] exI[of _ y]) (simp add: sample_plan_def)
qed

text \<open>C9: Rollback is open until the local state is committed, under the same margin below the size limit: after any
  transitions that the cursor persisted from the journal of a plan, none of them the commitment of the state,
  the transition to rolling back returns without an error within four effects and leaves only that phase
  changed, as long as no no-op participant has been announced as about to be committed; and from there the batch
  can be rolled back.\<close>

theorem rollback_stays_open:
  assumes "batch_json_codec encode decode" "tag_sized encode" "no_batch_files s0"
    and "cursor_install ex H encode plan torn i s0 = Finished i' s (Ok c)"
    and "length (bc_encoded c) + 15 + 10 * length (ap_items plan) \<le> MAX_BATCH_JOURNAL_BYTES"
    and "(persists ex H encode)\<^sup>*\<^sup>* (s, c) x"
    and "bj_phase (bc_journal (snd x)) \<in>
      {Preparing, PhasePrepared, QuarantiningOldTargets, OldTargetsQuarantined, CommittingNewTargets, NewTargetsCommitted}"
    and "list_all (\<lambda>p. \<not> (bp_disposition p = NoOp \<and> bp_progress p = CommitPending)) (bj_participants (bc_journal (snd x)))"
  shows "\<exists>y. (\<exists>m\<le>4. \<forall>torn n. cursor_transition_phase ex H encode (snd x) RollingBack torn (n + m) (fst x) = Finished n (fst y) (Ok (snd y)))
    \<and> bc_journal (snd y) = (bc_journal (snd x))\<lparr>bj_phase := RollingBack\<rparr>
    \<and> (\<exists>k z. (persists ex H encode ^^ k) y z \<and> bj_phase (bc_journal (snd z)) = PhaseRolledBack)"
proof -
  have good: "runs_durably H encode decode x" using batch_life.keeps_run[OF install_runs_durably(1)[OF assms(1-5)] assms(6)] .
  let ?r = "(bc_journal (snd x))\<lparr>bj_phase := RollingBack\<rparr>"
  have open_now: "batch_move H encode (bc_journal (snd x)) ?r"
    using good assms(7) by (intro rollback_opens[OF _ _ assms(8)]) (auto simp: phase_rank_def runs_durably_def)
  have rollback_allowed: "valid_phase_transition (bj_phase (bc_journal (snd x))) RollingBack"
    using assms(7) by (auto simp: valid_phase_transition_def)
  obtain y where y: "\<exists>m\<le>4. \<forall>torn n. cursor_transition_phase ex H encode (snd x) RollingBack torn (n + m) (fst x) = Finished n (fst y) (Ok (snd y))"
      "bc_journal (snd y) = ?r"
    using phase_persists[OF assms(1) _ open_now refl rollback_allowed, of "fst x" ex] good unfolding runs_durably_def by blast
  have first: "persists ex H encode x y" using y(1) unfolding persists_def by blast
  obtain k z where run: "(persists ex H encode ^^ k) y z" "terminal_phase (bj_phase (bc_journal (snd z)))"
    using batch_life.reaches_final[OF batch_life.keeps[OF good first]] by blast
  have "bj_phase (bc_journal (snd y)) = RollingBack" by (simp add: y(2))
  then have "bj_phase (bc_journal (snd z)) \<in> {RollingBack, PhaseRolledBack}"
    using rollback_goes_on[OF relpowp_imp_rtranclp[OF run(1)]] by simp
  then have "bj_phase (bc_journal (snd z)) = PhaseRolledBack" using run(2) by (auto simp: terminal_phase_def)
  then show ?thesis using y run(1) by blast
qed

theorem rollback_stays_open_witness:
  "\<exists>y k z. bj_phase (bc_journal (snd y)) = RollingBack \<and> (persists True sample_digest named_encode ^^ k) y z
     \<and> bj_phase (bc_journal (snd z)) = PhaseRolledBack"
proof -
  have journal: "bc_journal (snd (fst (sample_persisted sample_batch), snd (sample_persisted sample_batch))) = sample_batch"
    by (simp add: sample_persisted_def)
  have "\<exists>y. bc_journal (snd y) = sample_batch\<lparr>bj_phase := RollingBack\<rparr>
      \<and> (\<exists>k z. (persists True sample_digest named_encode ^^ k) y z \<and> bj_phase (bc_journal (snd z)) = PhaseRolledBack)"
    using rollback_stays_open[OF named_codec named_sized sample_no_files sample_install sample_install_room rtranclp.rtrancl_refl]
    unfolding journal by (simp add: sample_fields) blast
  then obtain y k z where "bc_journal (snd y) = sample_batch\<lparr>bj_phase := RollingBack\<rparr>"
      "(persists True sample_digest named_encode ^^ k) y z" "bj_phase (bc_journal (snd z)) = PhaseRolledBack"
    by blast
  then show ?thesis by (intro exI[of _ y] exI[of _ k] exI[of _ z]) simp
qed

text \<open>C16: A plan whose journal validates can run to its end: the rehearsal of the forward path succeeds and leaves
  every participant verified, nothing else changed.\<close>

theorem prepared_batches_can_complete:
  assumes "initial_journal H plan = Ok j"
  shows "validate_forward_path H j
    = Ok (j\<lparr>bj_phase := PhaseVerified, bj_participants := map (\<lambda>p. p\<lparr>bp_progress := Verified\<rparr>) (bj_participants j)\<rparr>)"
  using forward_run[OF initial_journal_fresh(2,3,1)[OF assms]] by simp

theorem prepared_batches_can_complete_witness:
  "validate_forward_path sample_digest sample_batch
     = Ok (sample_batch\<lparr>bj_phase := PhaseVerified, bj_participants := [sample_participant\<lparr>bp_progress := Verified\<rparr>]\<rparr>)"
  using prepared_batches_can_complete[OF sample_initial] by (simp add: sample_fields)

text \<open>C7: The batch digest identifies the batch: two validated journals with the same digest agree on the plan of
  every participant, its paths, hashes and authorities, on the states and on the profile, and can differ only in
  how far they have come.  The framing has no presence byte before the exact-file authority and needs none.\<close>

theorem batch_digest_identifies_batch:
  assumes "validate_journal H j = Ok ()" "typed_journal j" "validate_journal H k = Ok ()" "typed_journal k"
    and "collision_free H {journal_preimage j, journal_preimage k}" "bj_batch_digest j = bj_batch_digest k"
  shows "k = j\<lparr>bj_phase := bj_phase k, bj_participants := bj_participants k\<rparr>
    \<and> list_all2 (\<lambda>p q. q = p\<lparr>bp_progress := bp_progress q\<rparr>) (bj_participants j) (bj_participants k)"
proof (intro conjI)
  have "''blake3:'' @ H (journal_preimage j) = ''blake3:'' @ H (journal_preimage k)"
    unfolding batch_digest_of[OF assms(1), symmetric] batch_digest_of[OF assms(3), symmetric] by (rule assms(6))
  then have "H (journal_preimage j) = H (journal_preimage k)" by (simp only: same_append_eq)
  then have "journal_preimage j = journal_preimage k" by (rule collision_freeD[OF assms(5) insertI1 insertI2[OF singletonI]])
  then have same: "batch_authority j = batch_authority k" by (rule same_digest_same_authority[OF assms(1-4)])
  have parts: "map unstarted (bj_participants j) = map unstarted (bj_participants k)"
    using arg_cong[OF same, of bj_participants] by simp
  have step: "q = p\<lparr>bp_progress := bp_progress q\<rparr>" if "unstarted p = unstarted q" for p q
  proof -
    have "(unstarted p)\<lparr>bp_progress := bp_progress q\<rparr> = (unstarted q)\<lparr>bp_progress := bp_progress q\<rparr>"
      by (rule arg_cong[OF that, of "\<lambda>x. x\<lparr>bp_progress := bp_progress q\<rparr>"])
    then show ?thesis by (simp add: unstarted_def del: with_progress_simps(4))
  qed
  show "list_all2 (\<lambda>p q. q = p\<lparr>bp_progress := bp_progress q\<rparr>) (bj_participants j) (bj_participants k)"
    using parts step by (auto simp: list_all2_conv_all_nth list_eq_iff_nth_eq)
  show "k = j\<lparr>bj_phase := bj_phase k, bj_participants := bj_participants k\<rparr>"
  proof -
    have "(batch_authority j)\<lparr>bj_phase := bj_phase k, bj_participants := bj_participants k\<rparr>
        = (batch_authority k)\<lparr>bj_phase := bj_phase k, bj_participants := bj_participants k\<rparr>"
      by (rule arg_cong[OF same, of "\<lambda>x. x\<lparr>bj_phase := bj_phase k, bj_participants := bj_participants k\<rparr>"])
    then show ?thesis by (simp add: batch_authority_def)
  qed
qed

theorem batch_digest_identifies_batch_witness:
  "sample_next_batch = sample_batch\<lparr>bj_phase := bj_phase sample_next_batch, bj_participants := bj_participants sample_next_batch\<rparr>"
proof -
  have paths: "is_destination ''/home/dev''" "is_portable_path ''skills/run''"
    unfolding is_destination_def is_portable_path_def by code_simp+
  have "fits_u64 sample_hash" by (simp add: sample_hash_def fits_u64_def)
  then have typed: "typed_journal sample_batch" "typed_journal sample_next_batch"
    using paths by (simp_all add: typed_journal_def typed_participant_def sample_next_batch_def sample_fields fits_u64_def
      del: with_progress_simps(4))
  have "journal_preimage sample_batch = journal_preimage sample_next_batch"
    by (simp add: journal_preimage_def sample_next_batch_def sample_fields participant_digest_item_def del: with_progress_simps(4))
  then have "collision_free sample_digest {journal_preimage sample_batch, journal_preimage sample_next_batch}"
    by (simp add: collision_free_def)
  moreover have "bj_batch_digest sample_batch = bj_batch_digest sample_next_batch" by (simp add: sample_next_batch_def)
  ultimately show ?thesis using batch_digest_identifies_batch[OF sample_batch_valid typed(1) sample_next_valid typed(2)] by blast
qed

end
