(* ===== verification/Cleanup_Budgets.thy ===== *)
theory Cleanup_Budgets
  imports Kit_Prelude "HOL-Library.Word"
begin

text \<open>
  The work budget of the quarantine clean-up, \<open>kitrove-core/src/quarantine_cleanup/budget.rs\<close>.  Counts are
  \<open>usize\<close> values of 64 bits with checked additions.  A reservation fixes, before any clean-up starts, how much
  work each of five portions may do; the budget charges every visit of the walk against its portion.
\<close>

type_synonym usize = "64 word"

section \<open>Data\<close>

datatype quarantine_work_portion = CleanupInspection | CleanupValidation | CleanupDeletion | Forward | Rollback

datatype quarantine_budget_error =
  InvalidLimits | InvalidWork | ArithmeticOverflow | LimitExceeded | RootReservationExceeded
  | ReservationExceeded quarantine_work_portion

type_synonym 'a budgeted = "quarantine_budget_error + 'a"

record cleanup_limits =
  ql_max_roots :: usize
  ql_max_top_level_entries :: usize
  ql_max_descendant_visits :: usize
  ql_max_depth :: usize

record tombstone_work =
  tw_top_level_entries :: usize
  tw_descendant_visits :: usize
  tw_max_depth :: usize

record cleanup_pass_work =
  cp_inspection :: tombstone_work
  cp_validation :: tombstone_work
  cp_deletion :: tombstone_work

definition WORK_PORTION_COUNT :: nat where
  "WORK_PORTION_COUNT = 5"

fun portion_index :: "quarantine_work_portion \<Rightarrow> nat" where
  "portion_index CleanupInspection = 0"
| "portion_index CleanupValidation = 1"
| "portion_index CleanupDeletion = 2"
| "portion_index Forward = 3"
| "portion_index Rollback = 4"

record cleanup_reservation =
  cr_roots :: usize
  cr_work :: "tombstone_work list"

record cleanup_budget =
  cb_reservation :: cleanup_reservation
  cb_roots :: usize
  cb_consumed :: "tombstone_work list"

section \<open>Work and limits\<close>

definition tombstone_work_of :: "usize \<Rightarrow> usize \<Rightarrow> usize \<Rightarrow> tombstone_work" where
  "tombstone_work_of entries visits depth =
     \<lparr>tw_top_level_entries = entries, tw_descendant_visits = visits, tw_max_depth = depth\<rparr>"

definition no_work :: tombstone_work where
  "no_work = tombstone_work_of 0 0 0"

definition cleanup_limits_try_new :: "usize \<Rightarrow> usize \<Rightarrow> usize \<Rightarrow> usize \<Rightarrow> cleanup_limits budgeted" where
  "cleanup_limits_try_new roots entries visits depth =
     (if roots = 0 \<or> entries = 0 \<or> visits = 0 \<or> depth = 0 then Inl InvalidLimits
      else Inr \<lparr>ql_max_roots = roots, ql_max_top_level_entries = entries,
                ql_max_descendant_visits = visits, ql_max_depth = depth\<rparr>)"

definition work_limit :: "cleanup_limits \<Rightarrow> tombstone_work" where
  "work_limit l = tombstone_work_of (ql_max_top_level_entries l) (ql_max_descendant_visits l) (ql_max_depth l)"

definition word_checked_add :: "usize \<Rightarrow> usize \<Rightarrow> usize option" where
  "word_checked_add a b = (if unat a + unat b < 2 ^ 64 then Some (a + b) else None)"

definition work_checked_add :: "tombstone_work \<Rightarrow> tombstone_work \<Rightarrow> tombstone_work option" where
  "work_checked_add w v =
     Option.bind (word_checked_add (tw_top_level_entries w) (tw_top_level_entries v)) (\<lambda>entries.
     Option.bind (word_checked_add (tw_descendant_visits w) (tw_descendant_visits v)) (\<lambda>visits.
     Some (tombstone_work_of entries visits (max (tw_max_depth w) (tw_max_depth v)))))"

definition is_reservation_coherent :: "tombstone_work \<Rightarrow> bool" where
  "is_reservation_coherent w =
     (if tw_descendant_visits w = 0 then tw_max_depth w = 0
      else tw_max_depth w > 0 \<and> tw_max_depth w \<le> tw_descendant_visits w)"

definition is_charge_coherent :: "tombstone_work \<Rightarrow> bool" where
  "is_charge_coherent w =
     ((tw_descendant_visits w = 0 \<and> tw_max_depth w = 0) \<or> (tw_descendant_visits w > 0 \<and> tw_max_depth w > 0))"

definition fits_within :: "tombstone_work \<Rightarrow> tombstone_work \<Rightarrow> bool" where
  "fits_within w limit \<longleftrightarrow> tw_top_level_entries w \<le> tw_top_level_entries limit
     \<and> tw_descendant_visits w \<le> tw_descendant_visits limit \<and> tw_max_depth w \<le> tw_max_depth limit"

section \<open>Reservations\<close>

definition reserve_portion :: "tombstone_work list \<Rightarrow> quarantine_work_portion \<times> tombstone_work \<Rightarrow> tombstone_work list" where
  "reserve_portion ws pw = ws[portion_index (fst pw) := snd pw]"

fun total_work :: "tombstone_work \<Rightarrow> tombstone_work list \<Rightarrow> tombstone_work option" where
  "total_work t [] = Some t"
| "total_work t (w # ws) = Option.bind (work_checked_add t w) (\<lambda>u. total_work u ws)"

definition reservation_try_new ::
  "cleanup_limits \<Rightarrow> usize \<Rightarrow> cleanup_pass_work \<Rightarrow> tombstone_work \<Rightarrow> tombstone_work \<Rightarrow> cleanup_reservation budgeted" where
  "reservation_try_new limits roots cleanup forward rollback =
     (let work = foldl reserve_portion (replicate WORK_PORTION_COUNT no_work)
        [(CleanupInspection, cp_inspection cleanup), (CleanupValidation, cp_validation cleanup),
         (CleanupDeletion, cp_deletion cleanup), (Forward, forward), (Rollback, rollback)] in
      if list_ex (\<lambda>w. \<not> is_reservation_coherent w) work then Inl InvalidWork
      else case total_work no_work work of
          None \<Rightarrow> Inl ArithmeticOverflow
        | Some whole \<Rightarrow>
            if roots > ql_max_roots limits \<or> \<not> fits_within whole (work_limit limits) then Inl LimitExceeded
            else Inr \<lparr>cr_roots = roots, cr_work = work\<rparr>)"

definition reserved_work :: "cleanup_reservation \<Rightarrow> quarantine_work_portion \<Rightarrow> tombstone_work" where
  "reserved_work r p = cr_work r ! portion_index p"

section \<open>The budget\<close>

definition budget_new :: "cleanup_reservation \<Rightarrow> cleanup_budget" where
  "budget_new r = \<lparr>cb_reservation = r, cb_roots = 0, cb_consumed = replicate WORK_PORTION_COUNT no_work\<rparr>"

definition consumed_work :: "cleanup_budget \<Rightarrow> quarantine_work_portion \<Rightarrow> tombstone_work" where
  "consumed_work b p = cb_consumed b ! portion_index p"

definition try_root :: "cleanup_budget \<Rightarrow> cleanup_budget budgeted" where
  "try_root b = (case word_checked_add (cb_roots b) 1 of
       None \<Rightarrow> Inl ArithmeticOverflow
     | Some roots \<Rightarrow>
         if roots > cr_roots (cb_reservation b) then Inl RootReservationExceeded
         else Inr (b\<lparr>cb_roots := roots\<rparr>))"

definition remaining_top_level_entries :: "cleanup_budget \<Rightarrow> quarantine_work_portion \<Rightarrow> usize" where
  "remaining_top_level_entries b p =
     tw_top_level_entries (reserved_work (cb_reservation b) p) - tw_top_level_entries (consumed_work b p)"

definition remaining_descendant_visits :: "cleanup_budget \<Rightarrow> quarantine_work_portion \<Rightarrow> usize" where
  "remaining_descendant_visits b p =
     tw_descendant_visits (reserved_work (cb_reservation b) p) - tw_descendant_visits (consumed_work b p)"

definition try_consume :: "cleanup_budget \<Rightarrow> quarantine_work_portion \<Rightarrow> tombstone_work \<Rightarrow> cleanup_budget budgeted" where
  "try_consume b p work =
     (if \<not> is_charge_coherent work then Inl InvalidWork
      else case work_checked_add (consumed_work b p) work of
          None \<Rightarrow> Inl ArithmeticOverflow
        | Some after \<Rightarrow>
            if \<not> fits_within after (reserved_work (cb_reservation b) p) then Inl (ReservationExceeded p)
            else Inr (b\<lparr>cb_consumed := (cb_consumed b)[portion_index p := after]\<rparr>))"

definition try_top_level_entry :: "cleanup_budget \<Rightarrow> quarantine_work_portion \<Rightarrow> cleanup_budget budgeted" where
  "try_top_level_entry b p = try_consume b p (tombstone_work_of 1 0 0)"

definition try_descendant :: "cleanup_budget \<Rightarrow> quarantine_work_portion \<Rightarrow> usize \<Rightarrow> cleanup_budget budgeted" where
  "try_descendant b p depth = try_consume b p (tombstone_work_of 0 1 depth)"

end
