(* ===== verification/Cleanup_Walks.thy ===== *)
theory Cleanup_Walks
  imports Cleanup_Budgets Ordered_Maps "HOL-Library.Multiset"
begin

text \<open>
  The bounded walk over a quarantined directory: \<open>inspect_descendants\<close> of
  \<open>kitrove-core/src/quarantine_cleanup/inspection.rs\<close> and the bounded listing of
  \<open>kitrove-agent-skills/src/directory_entries.rs\<close>.  The walk keeps a map of pending directories, keyed by
  path, and charges the budget for every entry it sees.  A directory is the tree that was found when it was
  opened; an entry whose metadata are not safe, that is neither file nor directory, or that cannot be opened
  as what its metadata say, is \<open>UnsafeEntry\<close>.
\<close>

section \<open>Directories\<close>

datatype store_entry =
  FileEntry | DirectoryEntry "(string \<times> store_entry) list" | UnreadableDirectory | UnsafeEntry

fun entries_of :: "store_entry \<Rightarrow> (string \<times> store_entry) list option" where
  "entries_of (DirectoryEntry es) = Some es"
| "entries_of _ = None"

definition usize_max :: usize where
  "usize_max = - 1"

definition usize_saturating_add :: "usize \<Rightarrow> usize \<Rightarrow> usize" where
  "usize_saturating_add a b = (case word_checked_add a b of None \<Rightarrow> usize_max | Some c \<Rightarrow> c)"

definition collect_bounded_entries :: "'a list \<Rightarrow> usize \<Rightarrow> 'a list \<times> bool" where
  "collect_bounded_entries entries allowance =
     (let kept = take (unat (usize_saturating_add allowance 1)) entries in (kept, length kept > unat allowance))"

definition collect_bounded_sorted_directory_entries ::
  "(string \<times> 'a) list \<Rightarrow> usize \<Rightarrow> (string \<times> 'a) list option" where
  "collect_bounded_sorted_directory_entries entries allowance =
     (case collect_bounded_entries entries allowance of
        (kept, overflowed) \<Rightarrow> if overflowed then None else Some (sort_key fst kept))"

section \<open>The walk\<close>

datatype inspection_error = UnsafeState | UnrecognizedState | InspectionBudget quarantine_budget_error

type_synonym 'a inspected = "inspection_error + 'a"

record pending_directory =
  pd_directory :: store_entry
  pd_key :: string
  pd_depth :: usize

type_synonym pending_map = "(string, pending_directory) btree_map"

definition from_budget :: "'a budgeted \<Rightarrow> 'a inspected" where
  "from_budget r = (case r of Inl e \<Rightarrow> Inl (InspectionBudget e) | Inr x \<Rightarrow> Inr x)"

definition child_key :: "string \<Rightarrow> string \<Rightarrow> string" where
  "child_key key name = (if key = [] then name else key @ ''/'' @ name)"

text \<open>One entry of the current directory: the charge, the work done so far, and a directory to visit later.\<close>

definition visit_entry ::
  "quarantine_work_portion \<Rightarrow> pending_directory \<Rightarrow> cleanup_budget \<times> tombstone_work \<times> pending_map
    \<Rightarrow> string \<times> store_entry \<Rightarrow> (cleanup_budget \<times> tombstone_work \<times> pending_map) inspected" where
  "visit_entry portion current state named =
     (case state of (budget, work, pending) \<Rightarrow> case named of (name, selected) \<Rightarrow>
      (case word_checked_add (pd_depth current) 1 of
         None \<Rightarrow> Inl (InspectionBudget ArithmeticOverflow)
       | Some depth \<Rightarrow> (case from_budget (try_descendant budget portion depth) of
           Inl e \<Rightarrow> Inl e
         | Inr charged \<Rightarrow> (case work_checked_add work (tombstone_work_of 0 1 depth) of
             None \<Rightarrow> Inl (InspectionBudget ArithmeticOverflow)
           | Some done \<Rightarrow> (case selected of
               UnsafeEntry \<Rightarrow> Inl UnsafeState
             | FileEntry \<Rightarrow> Inr (charged, done, pending)
             | _ \<Rightarrow> (let key = child_key (pd_key current) name in
                 Inr (charged, done, bt_insert key
                   \<lparr>pd_directory = selected, pd_key = key, pd_depth = depth\<rparr> pending)))))))"

fun visit_entries ::
  "quarantine_work_portion \<Rightarrow> pending_directory \<Rightarrow> cleanup_budget \<times> tombstone_work \<times> pending_map
    \<Rightarrow> (string \<times> store_entry) list \<Rightarrow> (cleanup_budget \<times> tombstone_work \<times> pending_map) inspected" where
  "visit_entries portion current state [] = Inr state"
| "visit_entries portion current state (e # es) =
     (case visit_entry portion current state e of
        Inl err \<Rightarrow> Inl err | Inr state' \<Rightarrow> visit_entries portion current state' es)"

definition visit_directory ::
  "quarantine_work_portion \<Rightarrow> pending_directory \<Rightarrow> cleanup_budget \<times> tombstone_work \<times> pending_map
    \<Rightarrow> (cleanup_budget \<times> tombstone_work \<times> pending_map) inspected" where
  "visit_directory portion current state =
     (case entries_of (pd_directory current) of
        None \<Rightarrow> Inl UnsafeState
      | Some listing \<Rightarrow> (case collect_bounded_sorted_directory_entries listing
              (remaining_descendant_visits (fst state) portion) of
            None \<Rightarrow> Inl (InspectionBudget (ReservationExceeded portion))
          | Some entries \<Rightarrow> visit_entries portion current state entries))"

text \<open>How much of the tree is still to be seen; every visited directory leaves the map for good.\<close>

fun entry_visits :: "store_entry \<Rightarrow> nat" where
  "entry_visits (DirectoryEntry es) = Suc (sum_list (map (\<lambda>(n, e). entry_visits e) es))"
| "entry_visits _ = 1"

definition pending_weight :: "pending_map \<Rightarrow> nat" where
  "pending_weight pending = sum_list (map (\<lambda>(k, d). entry_visits (pd_directory d)) pending)"

lemma weight_insert_le: "pending_weight (bt_insert k d m) \<le> entry_visits (pd_directory d) + pending_weight m"
  by (induction k d m rule: bt_insert.induct) (auto simp: pending_weight_def)

lemma entry_visits_pos [simp]: "0 < entry_visits e"
  by (cases e) simp_all

lemma visit_entry_weight:
  assumes "visit_entry portion current (b, w, pending) (n, e) = Inr (b', w', pending')"
  shows "pending_weight pending' \<le> pending_weight pending + entry_visits e"
proof -
  have "pending' = pending \<or> (\<exists>depth. pending' = bt_insert (child_key (pd_key current) n)
      \<lparr>pd_directory = e, pd_key = child_key (pd_key current) n, pd_depth = depth\<rparr> pending)"
    using assms by (cases e) (auto simp: visit_entry_def Let_def split: option.splits sum.splits)
  then show ?thesis
    using weight_insert_le[of "child_key (pd_key current) n" "\<lparr>pd_directory = e, pd_key = _, pd_depth = _\<rparr>" pending]
    by (auto simp: add.commute)
qed

lemma visit_entries_weight:
  assumes "visit_entries portion current (b, w, pending) es = Inr (b', w', pending')"
  shows "pending_weight pending' \<le> pending_weight pending + sum_list (map (\<lambda>(n, e). entry_visits e) es)"
  using assms
proof (induction es arbitrary: b w pending)
  case (Cons e es)
  obtain n x where e: "e = (n, x)" by (cases e)
  obtain b1 w1 p1 where first: "visit_entry portion current (b, w, pending) e = Inr (b1, w1, p1)"
      "visit_entries portion current (b1, w1, p1) es = Inr (b', w', pending')"
    using Cons.prems by (auto split: sum.splits)
  show ?case using Cons.IH[OF first(2)] visit_entry_weight[OF first(1)[unfolded e]] by (simp add: e)
qed simp

lemma collected_entries:
  "collect_bounded_sorted_directory_entries es n = Some xs \<Longrightarrow> \<exists>k. xs = sort_key fst (take k es)"
  by (auto simp: collect_bounded_sorted_directory_entries_def collect_bounded_entries_def Let_def split: if_splits)

lemma sum_list_sort_key: "sum_list (map f (sort_key g xs)) = (sum_list (map f xs) :: nat)"
  by (metis mset_map mset_sort sum_mset_sum_list)

lemma sum_list_take: "sum_list (map f (take k xs)) \<le> (sum_list (map f xs) :: nat)"
  by (metis append_take_drop_id le_add1 map_append sum_list_append)

lemma visit_directory_weight:
  assumes "visit_directory portion current (b, w, pending) = Inr (b', w', pending')"
  shows "pending_weight pending' < pending_weight ((k, current) # pending)"
proof -
  obtain es xs where es: "pd_directory current = DirectoryEntry es"
      "collect_bounded_sorted_directory_entries es (remaining_descendant_visits b portion) = Some xs"
      "visit_entries portion current (b, w, pending) xs = Inr (b', w', pending')"
    using assms by (cases "pd_directory current") (auto simp: visit_directory_def split: option.splits)
  obtain m where "xs = sort_key fst (take m es)" using collected_entries[OF es(2)] by blast
  then have "sum_list (map (\<lambda>(n, e). entry_visits e) xs) \<le> sum_list (map (\<lambda>(n, e). entry_visits e) es)"
    by (simp add: sum_list_sort_key sum_list_take)
  then show ?thesis using visit_entries_weight[OF es(3)] es(1) by (simp add: pending_weight_def)
qed

function inspect_pending ::
  "quarantine_work_portion \<Rightarrow> cleanup_budget \<times> tombstone_work \<times> pending_map
    \<Rightarrow> (tombstone_work \<times> cleanup_budget) inspected" where
  "inspect_pending portion (budget, work, []) = Inr (work, budget)"
| "inspect_pending portion (budget, work, (key, current) # pending) =
     (case visit_directory portion current (budget, work, pending) of
        Inl e \<Rightarrow> Inl e | Inr state \<Rightarrow> inspect_pending portion state)"
  by pat_completeness auto
termination
  by (relation "measure (\<lambda>(portion, budget, work, pending). pending_weight pending)")
    (auto intro: visit_directory_weight)

definition inspect_descendants ::
  "store_entry \<Rightarrow> cleanup_budget \<Rightarrow> quarantine_work_portion \<Rightarrow> (tombstone_work \<times> cleanup_budget) inspected" where
  "inspect_descendants root budget portion =
     inspect_pending portion (budget, no_work, [([], \<lparr>pd_directory = root, pd_key = [], pd_depth = 0\<rparr>)])"

end
