(* ===== verification/Cleanup_Budget_Laws.thy ===== *)
theory Cleanup_Budget_Laws
  imports Cleanup_Budgets
begin

text \<open>
  The laws of the clean-up budget: checked additions are exact and monotone, a budget never spends more than
  its reservation, and reservations that were granted together fit the limits together.
\<close>

section \<open>Checked additions\<close>

lemmas work_simps = tombstone_work_of_def no_work_def work_limit_def

lemma word_checked_add_Some:
  "word_checked_add a b = Some c \<longleftrightarrow> unat a + unat b < 2 ^ 64 \<and> c = a + b"
  by (auto simp: word_checked_add_def)

lemma unat_word_checked_add: "word_checked_add a b = Some c \<Longrightarrow> unat c = unat a + unat b"
  by (simp add: word_checked_add_Some unat_word_ariths)

lemma word_checked_add_mono:
  assumes "word_checked_add a' b' = Some c'" "a \<le> a'" "b \<le> b'"
  obtains c where "word_checked_add a b = Some c" "c \<le> c'"
proof -
  have le: "unat a + unat b \<le> unat a' + unat b'"
    using assms(2,3) by (simp add: add_mono word_le_nat_alt)
  then have sum: "word_checked_add a b = Some (a + b)"
    using assms(1) by (simp add: word_checked_add_Some)
  moreover have "a + b \<le> c'"
    using le unat_word_checked_add[OF sum] unat_word_checked_add[OF assms(1)] by (simp add: word_le_nat_alt)
  ultimately show thesis using that by blast
qed

lemma work_checked_add_Some:
  "work_checked_add w v = Some u \<longleftrightarrow>
     word_checked_add (tw_top_level_entries w) (tw_top_level_entries v) = Some (tw_top_level_entries u)
     \<and> word_checked_add (tw_descendant_visits w) (tw_descendant_visits v) = Some (tw_descendant_visits u)
     \<and> tw_max_depth u = max (tw_max_depth w) (tw_max_depth v)"
  by (cases u) (auto simp: work_checked_add_def bind_eq_Some_conv tombstone_work_of_def)

lemma fits_within_refl [simp]: "fits_within w w"
  by (simp add: fits_within_def)

lemma fits_within_trans [trans]: "fits_within u v \<Longrightarrow> fits_within v w \<Longrightarrow> fits_within u w"
  by (auto simp: fits_within_def)

lemma no_work_fits [simp]: "fits_within no_work w"
  by (simp add: fits_within_def work_simps)

lemma work_checked_add_mono:
  assumes "work_checked_add w' v' = Some u'" "fits_within w w'" "fits_within v v'"
  obtains u where "work_checked_add w v = Some u" "fits_within u u'"
proof -
  note parts = assms(1)[unfolded work_checked_add_Some] assms(2,3)[unfolded fits_within_def]
  obtain entries where entries: "word_checked_add (tw_top_level_entries w) (tw_top_level_entries v) = Some entries"
      "entries \<le> tw_top_level_entries u'"
    using parts word_checked_add_mono by metis
  obtain visits where visits: "word_checked_add (tw_descendant_visits w) (tw_descendant_visits v) = Some visits"
      "visits \<le> tw_descendant_visits u'"
    using parts word_checked_add_mono by metis
  have "max (tw_max_depth w) (tw_max_depth v) \<le> tw_max_depth u'"
    using parts by (auto intro: max.coboundedI1 max.coboundedI2)
  then show thesis using entries visits
    by (intro that[of "tombstone_work_of entries visits (max (tw_max_depth w) (tw_max_depth v))"])
      (simp_all add: work_checked_add_def fits_within_def work_simps)
qed

lemma total_work_mono:
  assumes "total_work t' vs = Some u'" "list_all2 fits_within ws vs" "fits_within t t'"
  shows "\<exists>u. total_work t ws = Some u \<and> fits_within u u'"
  using assms(2,1,3)
proof (induction ws vs arbitrary: t t' rule: list_all2_induct)
  case (Cons w ws v vs)
  obtain s' where s': "work_checked_add t' v = Some s'" "total_work s' vs = Some u'"
    using Cons.prems(1) by (auto simp: bind_eq_Some_conv)
  then obtain s where "work_checked_add t w = Some s" "fits_within s s'"
    using work_checked_add_mono Cons.prems(2) Cons.hyps(1) by blast
  then show ?case using Cons.IH[OF s'(2)] by simp
qed simp

section \<open>Reservations\<close>

lemma portion_index_less [simp]: "portion_index p < WORK_PORTION_COUNT"
  by (cases p) (simp_all add: WORK_PORTION_COUNT_def)

lemma portion_index_inj [simp]: "portion_index p = portion_index q \<longleftrightarrow> p = q"
  by (cases p; cases q) simp_all

lemma reserve_portions:
  "foldl reserve_portion (replicate WORK_PORTION_COUNT no_work)
     [(CleanupInspection, i), (CleanupValidation, v), (CleanupDeletion, d), (Forward, f), (Rollback, rb)] = [i, v, d, f, rb]"
  by (simp add: reserve_portion_def WORK_PORTION_COUNT_def numeral_eq_Suc)

lemma reservation_work:
  assumes "reservation_try_new l roots c f rb = Inr r"
  shows "cr_work r = [cp_inspection c, cp_validation c, cp_deletion c, f, rb]"
    and "list_all is_reservation_coherent (cr_work r)"
    and "\<exists>t. total_work no_work (cr_work r) = Some t \<and> fits_within t (work_limit l)"
    and "cr_roots r = roots" and "roots \<le> ql_max_roots l"
proof -
  note facts = assms[unfolded reservation_try_new_def reserve_portions Let_def]
  then show "cr_work r = [cp_inspection c, cp_validation c, cp_deletion c, f, rb]"
    "list_all is_reservation_coherent (cr_work r)"
    "\<exists>t. total_work no_work (cr_work r) = Some t \<and> fits_within t (work_limit l)"
    "cr_roots r = roots" "roots \<le> ql_max_roots l"
    by (auto split: if_splits option.splits simp del: total_work.simps)
qed

section \<open>Budgets\<close>

definition budget_ok :: "cleanup_budget \<Rightarrow> bool" where
  "budget_ok b \<longleftrightarrow> length (cb_consumed b) = WORK_PORTION_COUNT \<and> length (cr_work (cb_reservation b)) = WORK_PORTION_COUNT
     \<and> list_all2 fits_within (cb_consumed b) (cr_work (cb_reservation b)) \<and> cb_roots b \<le> cr_roots (cb_reservation b)"

lemma budget_ok_fits: "budget_ok b \<Longrightarrow> fits_within (consumed_work b p) (reserved_work (cb_reservation b) p)"
  by (simp add: budget_ok_def consumed_work_def reserved_work_def list_all2_conv_all_nth)

lemma budget_new_ok: "length (cr_work r) = WORK_PORTION_COUNT \<Longrightarrow> budget_ok (budget_new r)"
  by (simp add: budget_ok_def budget_new_def list_all2_conv_all_nth)

text \<open>One charge against a budget: a visited root, or work of a portion.\<close>

inductive charges :: "cleanup_budget \<Rightarrow> cleanup_budget \<Rightarrow> bool" where
  charges_root: "try_root b = Inr b' \<Longrightarrow> charges b b'"
| charges_work: "try_consume b p w = Inr b' \<Longrightarrow> charges b b'"

inductive_cases charges_cases: "charges b b'"

lemma try_root_Inr:
  "try_root b = Inr b' \<longleftrightarrow> unat (cb_roots b) + 1 < 2 ^ 64 \<and> cb_roots b + 1 \<le> cr_roots (cb_reservation b)
     \<and> b' = b\<lparr>cb_roots := cb_roots b + 1\<rparr>"
  by (auto simp: try_root_def word_checked_add_def)

lemma try_consume_Inr:
  "try_consume b p w = Inr b' \<longleftrightarrow> is_charge_coherent w
     \<and> (\<exists>u. work_checked_add (consumed_work b p) w = Some u \<and> fits_within u (reserved_work (cb_reservation b) p)
          \<and> b' = b\<lparr>cb_consumed := (cb_consumed b)[portion_index p := u]\<rparr>)"
  by (auto simp: try_consume_def split: option.splits)

lemma charges_keeps: "charges b b' \<Longrightarrow> budget_ok b \<Longrightarrow> budget_ok b' \<and> cb_reservation b' = cb_reservation b"
  by (erule charges_cases)
    (auto simp: try_root_Inr try_consume_Inr budget_ok_def list_all2_conv_all_nth nth_list_update reserved_work_def)

lemma charges_run_keeps:
  "charges\<^sup>*\<^sup>* b b' \<Longrightarrow> budget_ok b \<Longrightarrow> budget_ok b' \<and> cb_reservation b' = cb_reservation b"
  by (induction rule: rtranclp_induct) (auto dest: charges_keeps)

lemma unat_within: "(c :: usize) \<le> a \<Longrightarrow> unat (a - c) = unat a - unat c"
  by (simp add: unat_sub)

lemma remaining_exact:
  assumes "budget_ok b"
  shows "unat (remaining_top_level_entries b p) + unat (tw_top_level_entries (consumed_work b p))
      = unat (tw_top_level_entries (reserved_work (cb_reservation b) p))"
    and "unat (remaining_descendant_visits b p) + unat (tw_descendant_visits (consumed_work b p))
      = unat (tw_descendant_visits (reserved_work (cb_reservation b) p))"
  using budget_ok_fits[OF assms, of p]
  by (simp_all add: fits_within_def remaining_top_level_entries_def remaining_descendant_visits_def unat_within word_le_nat_alt)

section \<open>Charges\<close>

text \<open>
  A charge is accepted exactly when it is coherent and fits what its portion has left; it is then counted in
  full against that portion, and no other portion can spend or lose capacity through it.
\<close>

lemma try_consume_accepts:
  assumes "budget_ok b"
  shows "(\<exists>b'. try_consume b p w = Inr b') \<longleftrightarrow> is_charge_coherent w
      \<and> unat (tw_top_level_entries w) \<le> unat (remaining_top_level_entries b p)
      \<and> unat (tw_descendant_visits w) \<le> unat (remaining_descendant_visits b p)
      \<and> tw_max_depth w \<le> tw_max_depth (reserved_work (cb_reservation b) p)"
proof -
  have bound: "(\<exists>c. word_checked_add x y = Some c \<and> c \<le> z) \<longleftrightarrow> unat x + unat y \<le> unat z" for x y z
  proof
    assume "\<exists>c. word_checked_add x y = Some c \<and> c \<le> z"
    then show "unat x + unat y \<le> unat z" by (auto simp: word_le_nat_alt dest: unat_word_checked_add)
  next
    assume le: "unat x + unat y \<le> unat z"
    moreover have "unat z < 2 ^ 64" using unsigned_less[of z] by simp
    ultimately have "word_checked_add x y = Some (x + y)" by (simp add: word_checked_add_Some)
    then show "\<exists>c. word_checked_add x y = Some c \<and> c \<le> z"
      using le unat_word_checked_add by (intro exI[of _ "x + y"]) (simp add: word_le_nat_alt)
  qed
  let ?c = "consumed_work b p" and ?r = "reserved_work (cb_reservation b) p"
  have "(\<exists>b'. try_consume b p w = Inr b') \<longleftrightarrow> is_charge_coherent w
      \<and> (\<exists>u. work_checked_add ?c w = Some u \<and> fits_within u ?r)"
    by (auto simp: try_consume_Inr)
  also have "(\<exists>u. work_checked_add ?c w = Some u \<and> fits_within u ?r) \<longleftrightarrow>
      (\<exists>c. word_checked_add (tw_top_level_entries ?c) (tw_top_level_entries w) = Some c \<and> c \<le> tw_top_level_entries ?r)
      \<and> (\<exists>c. word_checked_add (tw_descendant_visits ?c) (tw_descendant_visits w) = Some c \<and> c \<le> tw_descendant_visits ?r)
      \<and> max (tw_max_depth ?c) (tw_max_depth w) \<le> tw_max_depth ?r"
    by (auto simp: work_checked_add_def bind_eq_Some_conv fits_within_def work_simps)
  finally show ?thesis
    unfolding bound using remaining_exact[OF assms, of p] budget_ok_fits[OF assms, of p]
    by (auto simp: fits_within_def)
qed

lemma consumed_after:
  "length (cb_consumed b) = WORK_PORTION_COUNT \<Longrightarrow>
     consumed_work (b\<lparr>cb_consumed := (cb_consumed b)[portion_index p := u]\<rparr>) q = (if q = p then u else consumed_work b q)"
  by (simp add: consumed_work_def nth_list_update)

lemma try_consume_effect:
  assumes "budget_ok b" and run: "try_consume b p w = Inr b'"
  shows "budget_ok b'" and "cb_reservation b' = cb_reservation b" and "cb_roots b' = cb_roots b"
    and "q \<noteq> p \<Longrightarrow> consumed_work b' q = consumed_work b q"
    and "work_checked_add (consumed_work b p) w = Some (consumed_work b' p)"
    and "unat (remaining_top_level_entries b' p) + unat (tw_top_level_entries w) = unat (remaining_top_level_entries b p)"
    and "unat (remaining_descendant_visits b' p) + unat (tw_descendant_visits w) = unat (remaining_descendant_visits b p)"
proof -
  obtain u where u: "work_checked_add (consumed_work b p) w = Some u"
      "b' = b\<lparr>cb_consumed := (cb_consumed b)[portion_index p := u]\<rparr>"
    using run by (auto simp: try_consume_Inr)
  have len: "length (cb_consumed b) = WORK_PORTION_COUNT" using assms(1) by (simp add: budget_ok_def)
  show ok: "budget_ok b'" and same: "cb_reservation b' = cb_reservation b"
    using charges_keeps[OF charges_work[OF run] assms(1)] by simp_all
  show "cb_roots b' = cb_roots b" using u(2) by simp
  show "q \<noteq> p \<Longrightarrow> consumed_work b' q = consumed_work b q" using u(2) consumed_after[OF len] by simp
  have at: "consumed_work b' p = u" using u(2) consumed_after[OF len] by simp
  then show "work_checked_add (consumed_work b p) w = Some (consumed_work b' p)" using u(1) by simp
  have "unat (tw_top_level_entries u) = unat (tw_top_level_entries (consumed_work b p)) + unat (tw_top_level_entries w)"
    "unat (tw_descendant_visits u) = unat (tw_descendant_visits (consumed_work b p)) + unat (tw_descendant_visits w)"
    using u(1) by (auto simp: work_checked_add_Some dest!: unat_word_checked_add)
  then show "unat (remaining_top_level_entries b' p) + unat (tw_top_level_entries w) = unat (remaining_top_level_entries b p)"
    "unat (remaining_descendant_visits b' p) + unat (tw_descendant_visits w) = unat (remaining_descendant_visits b p)"
    using remaining_exact[OF ok, of p] remaining_exact[OF assms(1), of p] by (simp_all add: at same)
qed

section \<open>What the budget promises\<close>

text \<open>C31: 
  Granted reservations bound the work of the whole clean-up: after any sequence of accepted charges on a
  fresh budget, the five portions together have consumed no more than the limits allow, without overflow of
  the total, no more roots than the limit were visited, each portion is within its own reservation, and what
  the two remaining counters return is exactly what is left, the subtraction never wrapping around.
\<close>

theorem budgets_stay_within_limits:
  assumes "reservation_try_new l roots c f rb = Inr r" and "charges\<^sup>*\<^sup>* (budget_new r) b"
  shows "(\<exists>t. total_work no_work (cb_consumed b) = Some t \<and> fits_within t (work_limit l))
    \<and> cb_roots b \<le> roots \<and> roots \<le> ql_max_roots l
    \<and> (\<forall>p. fits_within (consumed_work b p) (reserved_work r p)
        \<and> unat (remaining_top_level_entries b p) + unat (tw_top_level_entries (consumed_work b p))
            = unat (tw_top_level_entries (reserved_work r p))
        \<and> unat (remaining_descendant_visits b p) + unat (tw_descendant_visits (consumed_work b p))
            = unat (tw_descendant_visits (reserved_work r p)))"
proof -
  note r = reservation_work[OF assms(1)]
  have "budget_ok (budget_new r)" by (rule budget_new_ok) (simp add: r(1) WORK_PORTION_COUNT_def)
  from charges_run_keeps[OF assms(2) this] have ok: "budget_ok b" "cb_reservation b = r"
    by (simp_all add: budget_new_def)
  obtain t where t: "total_work no_work (cr_work r) = Some t" "fits_within t (work_limit l)" using r(3) by blast
  have "list_all2 fits_within (cb_consumed b) (cr_work r)" using ok by (simp add: budget_ok_def)
  then obtain u where "total_work no_work (cb_consumed b) = Some u" "fits_within u t"
    using total_work_mono[OF t(1) _ fits_within_refl] by blast
  then show ?thesis
    using t(2) fits_within_trans ok r(4,5) budget_ok_fits[OF ok(1)] remaining_exact[OF ok(1)]
    by (auto simp: budget_ok_def)
qed

definition sample_limits :: cleanup_limits where
  "sample_limits = \<lparr>ql_max_roots = 2, ql_max_top_level_entries = 10, ql_max_descendant_visits = 20, ql_max_depth = 3\<rparr>"

definition sample_pass :: cleanup_pass_work where
  "sample_pass = \<lparr>cp_inspection = tombstone_work_of 2 4 2, cp_validation = tombstone_work_of 2 4 2,
     cp_deletion = tombstone_work_of 2 4 2\<rparr>"

definition sample_reservation :: cleanup_reservation where
  "sample_reservation = \<lparr>cr_roots = 1, cr_work = [tombstone_work_of 2 4 2, tombstone_work_of 2 4 2,
     tombstone_work_of 2 4 2, no_work, tombstone_work_of 1 3 3]\<rparr>"

lemma sample_reserved:
  "reservation_try_new sample_limits 1 sample_pass no_work (tombstone_work_of 1 3 3) = Inr sample_reservation"
  unfolding reservation_try_new_def sample_pass_def cleanup_pass_work.select_convs reserve_portions Let_def
  by (simp add: sample_limits_def sample_reservation_def work_simps is_reservation_coherent_def
      work_checked_add_def word_checked_add_def fits_within_def)

lemma sample_charged:
  "charges\<^sup>*\<^sup>* (budget_new sample_reservation) ((budget_new sample_reservation)\<lparr>cb_roots := 1\<rparr>)"
  by (rule r_into_rtranclp, rule charges_root) (simp add: try_root_Inr budget_new_def sample_reservation_def)

theorem budgets_stay_within_limits_witness:
  "(\<exists>t. total_work no_work (cb_consumed ((budget_new sample_reservation)\<lparr>cb_roots := 1\<rparr>)) = Some t
      \<and> fits_within t (work_limit sample_limits))"
  using budgets_stay_within_limits[OF sample_reserved sample_charged] by blast

end
