(* ===== verification/Cleanup_Walk_Laws.thy ===== *)
theory Cleanup_Walk_Laws
  imports Cleanup_Walks Cleanup_Budget_Laws
begin

text \<open>
  What the bounded walk does on a tree: it sees every entry exactly once, charges exactly one visit for each
  and the depth of the deepest, and stops with the portion's own error when the tree does not fit.
\<close>

section \<open>The size of a tree\<close>

fun entry_height :: "store_entry \<Rightarrow> nat" where
  "entry_height (DirectoryEntry es) = Suc (foldr max (map (\<lambda>(n, e). entry_height e) es) 0)"
| "entry_height _ = 1"

definition dir_visits :: "store_entry \<Rightarrow> nat" where
  "dir_visits e = entry_visits e - 1"

definition dir_height :: "store_entry \<Rightarrow> nat" where
  "dir_height e = entry_height e - 1"

fun safe_entry :: "store_entry \<Rightarrow> bool" where
  "safe_entry FileEntry = True"
| "safe_entry (DirectoryEntry es) \<longleftrightarrow> list_all (\<lambda>(n, e). safe_entry e) es
     \<and> distinct (map fst es) \<and> list_all (\<lambda>n. n \<noteq> [] \<and> CHR ''/'' \<notin> set n) (map fst es)"
| "safe_entry _ = False"

lemma entry_visits_eq: "entry_visits e = Suc (dir_visits e)"
  by (cases e) (simp_all add: dir_visits_def)

lemma entry_height_eq: "entry_height e = Suc (dir_height e)"
  by (cases e) (simp_all add: dir_height_def)

lemma sum_entry_visits: "sum_list (map (\<lambda>(n, e). entry_visits e) es) = length es + sum_list (map (\<lambda>(n, e). dir_visits e) es)"
  by (induction es) (auto simp: entry_visits_eq)

lemma dir_size [simp]:
  "dir_visits (DirectoryEntry es) = length es + sum_list (map (\<lambda>(n, e). dir_visits e) es)"
  "dir_height (DirectoryEntry es) = foldr max (map (\<lambda>(n, e). Suc (dir_height e)) es) 0"
  "dir_visits FileEntry = 0" "dir_height FileEntry = 0"
proof -
  have heights: "(\<lambda>(n :: string, e). entry_height e) = (\<lambda>(n, e). Suc (dir_height e))"
    by (auto simp: fun_eq_iff entry_height_eq)
  show "dir_visits (DirectoryEntry es) = length es + sum_list (map (\<lambda>(n, e). dir_visits e) es)"
    by (simp add: dir_visits_def[of "DirectoryEntry _"] sum_entry_visits)
  show "dir_height (DirectoryEntry es) = foldr max (map (\<lambda>(n, e). Suc (dir_height e)) es) 0"
    by (simp add: dir_height_def[of "DirectoryEntry _"] heights)
qed (simp_all add: dir_visits_def dir_height_def)

lemma foldr_max_le: "foldr max (map f xs) (0 :: nat) \<le> sum_list (map f xs)"
  by (induction xs) auto

lemma foldr_max_mono: "(\<And>x. x \<in> set xs \<Longrightarrow> f x \<le> g x) \<Longrightarrow> foldr max (map f xs) (0 :: nat) \<le> foldr max (map g xs) 0"
  by (induction xs) (auto intro: max.coboundedI1 max.coboundedI2)

lemma height_le_visits: "entry_height e \<le> entry_visits e"
proof (induction e)
  case (DirectoryEntry es)
  have "foldr max (map (\<lambda>(n, e). entry_height e) es) 0 \<le> foldr max (map (\<lambda>(n, e). entry_visits e) es) 0"
    using DirectoryEntry by (intro foldr_max_mono) (force split: prod.splits)
  also have "\<dots> \<le> sum_list (map (\<lambda>(n, e). entry_visits e) es)" by (rule foldr_max_le)
  finally show ?case by simp
qed simp_all

section \<open>Keys of pending directories\<close>

definition below :: "string \<Rightarrow> string \<Rightarrow> bool" where
  "below j k \<longleftrightarrow> (if k = [] then j \<noteq> [] else \<exists>r. j = k @ ''/'' @ r)"

lemma below_irrefl [simp]: "\<not> below k k"
  by (auto simp: below_def)

lemma child_below: "n \<noteq> [] \<Longrightarrow> below (child_key k n) k"
  by (simp add: below_def child_key_def)

lemma below_child: "below j (child_key k n) \<Longrightarrow> below j k"
  by (auto simp: below_def child_key_def split: if_splits)

lemma child_of_below:
  assumes "below (child_key k n) j" and plain: "CHR ''/'' \<notin> set n"
  shows "j = k \<or> below k j"
proof (cases "k = [] \<or> j = []")
  case True
  then show ?thesis using assms by (auto simp: below_def child_key_def split: if_splits)
next
  case False
  then obtain r where "k @ ''/'' @ n = j @ ''/'' @ r"
    using assms(1) by (auto simp: below_def child_key_def split: if_splits)
  then obtain us where "k = j @ us \<and> us @ ''/'' @ n = ''/'' @ r \<or> k @ us = j \<and> ''/'' @ n = us @ ''/'' @ r"
    unfolding append_eq_append_conv2 by blast
  then show ?thesis using False plain by (cases us) (auto simp: below_def)
qed

lemma child_key_inj: "child_key k n = child_key k m \<Longrightarrow> n = m"
  by (simp add: child_key_def split: if_splits)

lemma children_apart:
  assumes "CHR ''/'' \<notin> set n" "m \<noteq> []"
  shows "\<not> below (child_key k n) (child_key k m)"
proof
  assume "below (child_key k n) (child_key k m)"
  then have "child_key k m = k \<or> below k (child_key k m)" using child_of_below assms(1) by blast
  then show False using below_child[of k k m] child_below[OF assms(2), of k] by auto
qed

definition plain_names :: "(string \<times> 'a) list \<Rightarrow> bool" where
  "plain_names es \<longleftrightarrow> distinct (map fst es) \<and> (\<forall>n \<in> fst ` set es. n \<noteq> [] \<and> CHR ''/'' \<notin> set n)"

lemma safe_directory:
  "safe_entry (DirectoryEntry es) \<longleftrightarrow> plain_names es \<and> (\<forall>e \<in> snd ` set es. safe_entry e)"
  by (auto simp: plain_names_def list_all_iff)

definition pending_ok :: "pending_map \<Rightarrow> bool" where
  "pending_ok pending \<longleftrightarrow> distinct (map fst pending)
     \<and> (\<forall>(k, d) \<in> set pending. pd_key d = k \<and> (\<exists>es. pd_directory d = DirectoryEntry es) \<and> safe_entry (pd_directory d))
     \<and> (\<forall>j \<in> fst ` set pending. \<forall>k \<in> fst ` set pending. \<not> below j k)"

text \<open>What a visited entry leaves in the map.\<close>

definition enqueue :: "string \<Rightarrow> usize \<Rightarrow> string \<times> store_entry \<Rightarrow> pending_map \<Rightarrow> pending_map" where
  "enqueue key depth named pending = (case named of (name, selected) \<Rightarrow> (case selected of
       DirectoryEntry es \<Rightarrow> bt_insert (child_key key name)
         \<lparr>pd_directory = selected, pd_key = child_key key name, pd_depth = depth\<rparr> pending
     | _ \<Rightarrow> pending))"

lemma bt_insert_entries: "set (bt_insert k v m) \<subseteq> insert (k, v) (set m)"
  by (induction k v m rule: bt_insert.induct) auto

lemma keys_enqueue: "j \<in> fst ` set (enqueue key depth (n, e) m) \<Longrightarrow> j = child_key key n \<or> j \<in> fst ` set m"
  by (cases e) (auto simp: enqueue_def dest!: subsetD[OF bt_insert_entries])

lemma distinct_bt_insert: "k \<notin> fst ` set m \<Longrightarrow> distinct (map fst m) \<Longrightarrow> distinct (map fst (bt_insert k v m))"
proof (induction k v m rule: bt_insert.induct)
  case (2 k v k' v' m)
  then show ?case using set_keys_insert[of k v m] by auto
qed simp

lemma pending_ok_enqueue:
  assumes "pending_ok m" and "n \<noteq> []" "CHR ''/'' \<notin> set n" "safe_entry e"
    and fresh: "child_key key n \<notin> fst ` set m"
    and apart: "\<forall>j \<in> fst ` set m. \<not> below j (child_key key n) \<and> \<not> below (child_key key n) j"
  shows "pending_ok (enqueue key depth (n, e) m)"
proof (cases e)
  case (DirectoryEntry es)
  let ?d = "\<lparr>pd_directory = e, pd_key = child_key key n, pd_depth = depth\<rparr>"
  have in_set: "x = (child_key key n, ?d) \<or> x \<in> set m" if "x \<in> set (bt_insert (child_key key n) ?d m)" for x
    using subsetD[OF bt_insert_entries that] by simp
  have keys: "j = child_key key n \<or> j \<in> fst ` set m" if "j \<in> fst ` set (bt_insert (child_key key n) ?d m)" for j
    using that in_set by force
  have "distinct (map fst (bt_insert (child_key key n) ?d m))"
    using assms(1) fresh by (intro distinct_bt_insert) (simp_all add: pending_ok_def)
  moreover have "\<forall>(k, d) \<in> set (bt_insert (child_key key n) ?d m).
      pd_key d = k \<and> (\<exists>es. pd_directory d = DirectoryEntry es) \<and> safe_entry (pd_directory d)"
    using assms(1,4) in_set DirectoryEntry unfolding pending_ok_def by fastforce
  moreover have "\<not> below j k" if "j \<in> fst ` set (bt_insert (child_key key n) ?d m)"
      "k \<in> fst ` set (bt_insert (child_key key n) ?d m)" for j k
    using keys[OF that(1)] keys[OF that(2)] apart assms(1) unfolding pending_ok_def by auto
  ultimately show ?thesis using DirectoryEntry by (simp add: enqueue_def pending_ok_def)
qed (use assms(1,4) in \<open>simp_all add: enqueue_def\<close>)

section \<open>What pending directories hold\<close>

definition pending_visits :: "pending_map \<Rightarrow> nat" where
  "pending_visits m = sum_list (map (\<lambda>(k, d). dir_visits (pd_directory d)) m)"

definition reach_from :: "nat \<Rightarrow> store_entry \<Rightarrow> nat" where
  "reach_from depth e = (if dir_height e = 0 then 0 else depth + dir_height e)"

definition pending_reach :: "pending_map \<Rightarrow> nat" where
  "pending_reach m = foldr max (map (\<lambda>(k, d). reach_from (unat (pd_depth d)) (pd_directory d)) m) 0"

lemma pending_insert:
  assumes "k \<notin> fst ` set m"
  shows "pending_visits (bt_insert k d m) = dir_visits (pd_directory d) + pending_visits m"
    and "pending_reach (bt_insert k d m) = max (reach_from (unat (pd_depth d)) (pd_directory d)) (pending_reach m)"
  using assms by (induction k d m rule: bt_insert.induct)
    (auto simp: pending_visits_def pending_reach_def max.left_commute)

lemma pending_enqueue:
  assumes "child_key key n \<notin> fst ` set m" "safe_entry e"
  shows "pending_visits (enqueue key depth (n, e) m) = dir_visits e + pending_visits m"
    and "pending_reach (enqueue key depth (n, e) m) = max (reach_from (unat depth) e) (pending_reach m)"
  using assms pending_insert[OF assms(1)]
  by (cases e; simp add: enqueue_def reach_from_def del: dir_size(1,2))+

text \<open>All entries of one directory, whose own key is gone from the map.\<close>

definition room_for :: "string \<Rightarrow> string set \<Rightarrow> pending_map \<Rightarrow> bool" where
  "room_for key names m \<longleftrightarrow> (\<forall>j \<in> fst ` set m. \<not> below key j
     \<and> (below j key \<longrightarrow> (\<exists>n. j = child_key key n \<and> n \<noteq> [] \<and> CHR ''/'' \<notin> set n \<and> n \<notin> names)) \<and> j \<noteq> key)"

lemma room_for_child:
  assumes "room_for key names m" "n \<in> names" "n \<noteq> []" "CHR ''/'' \<notin> set n"
  shows "child_key key n \<notin> fst ` set m"
    and "\<forall>j \<in> fst ` set m. \<not> below j (child_key key n) \<and> \<not> below (child_key key n) j"
proof -
  note room = assms(1)[unfolded room_for_def]
  show "child_key key n \<notin> fst ` set m"
  proof
    assume "child_key key n \<in> fst ` set m"
    then obtain n' where "child_key key n = child_key key n'" "n' \<notin> names"
      using room child_below[OF assms(3)] by blast
    then show False using child_key_inj assms(2) by blast
  qed
  show "\<forall>j \<in> fst ` set m. \<not> below j (child_key key n) \<and> \<not> below (child_key key n) j"
  proof (intro ballI conjI notI)
    fix j
    assume j: "j \<in> fst ` set m"
    show False if under: "below j (child_key key n)"
    proof -
      obtain n' where "j = child_key key n'" "n' \<noteq> []" "CHR ''/'' \<notin> set n'"
        using room j below_child[OF under] by blast
      then show False using under children_apart[of n' n key] assms(3) by blast
    qed
    show False if "below (child_key key n) j"
      using child_of_below[OF that assms(4)] room j by blast
  qed
qed

lemma room_for_enqueue:
  assumes "room_for key (insert n names) m" "n \<notin> names" "n \<noteq> []" "CHR ''/'' \<notin> set n"
  shows "room_for key names (enqueue key depth (n, e) m)"
  unfolding room_for_def
proof (intro ballI)
  fix j
  assume "j \<in> fst ` set (enqueue key depth (n, e) m)"
  then consider "j = child_key key n" | "j \<in> fst ` set m" using keys_enqueue by blast
  then show "\<not> below key j \<and> (below j key \<longrightarrow> (\<exists>n. j = child_key key n \<and> n \<noteq> [] \<and> CHR ''/'' \<notin> set n \<and> n \<notin> names)) \<and> j \<noteq> key"
  proof cases
    case 1
    then show ?thesis using assms(2-4) below_child[of key key n] child_below[OF assms(3), of key] by auto
  next
    case 2
    then show ?thesis using assms(1) unfolding room_for_def by blast
  qed
qed

lemma enqueue_children:
  assumes "plain_names es" "\<forall>e \<in> snd ` set es. safe_entry e" "pending_ok m" "room_for key (fst ` set es) m"
  shows "pending_ok (fold (enqueue key depth) es m)
    \<and> pending_visits (fold (enqueue key depth) es m) = sum_list (map (\<lambda>(n, e). dir_visits e) es) + pending_visits m
    \<and> pending_reach (fold (enqueue key depth) es m)
        = max (foldr max (map (\<lambda>(n, e). reach_from (unat depth) e) es) 0) (pending_reach m)"
  using assms
proof (induction es arbitrary: m)
  case (Cons x es)
  obtain n e where x: "x = (n, e)" by (cases x)
  have n: "n \<noteq> []" "CHR ''/'' \<notin> set n" "n \<notin> fst ` set es" "safe_entry e" "plain_names es"
    using Cons.prems(1,2) by (auto simp: plain_names_def x)
  have room: "room_for key (insert n (fst ` set es)) m" using Cons.prems(4) by (simp add: x)
  note child = room_for_child[OF room insertI1 n(1,2)]
  have "pending_ok (enqueue key depth (n, e) m)"
    using pending_ok_enqueue[OF Cons.prems(3) n(1,2,4) child] .
  from Cons.IH[OF n(5) _ this room_for_enqueue[OF room n(3,1,2)]]
  show ?case using Cons.prems(2) pending_enqueue[OF child(1) n(4), of depth]
    by (simp add: x max.left_commute max.commute)
qed simp

end
