(* ===== verification/Cleanup_Walk_Promises.thy ===== *)
theory Cleanup_Walk_Promises
  imports Cleanup_Walk_Laws
begin

text \<open>
  The walk against the budget: the exact outcome of \<open>inspect_descendants\<close> on a tree of regular files and
  directories, and that nothing else passes.
\<close>

section \<open>Spending\<close>

definition add_visits :: "tombstone_work \<Rightarrow> nat \<Rightarrow> nat \<Rightarrow> tombstone_work" where
  "add_visits w n d = tombstone_work_of (tw_top_level_entries w)
     (tw_descendant_visits w + of_nat n) (max (tw_max_depth w) (of_nat d))"

definition spend :: "cleanup_budget \<Rightarrow> quarantine_work_portion \<Rightarrow> nat \<Rightarrow> nat \<Rightarrow> cleanup_budget" where
  "spend b p n d = b\<lparr>cb_consumed := (cb_consumed b)[portion_index p := add_visits (consumed_work b p) n d]\<rparr>"

lemma unat_of_nat_usize: "n < 2 ^ 64 \<Longrightarrow> unat (of_nat n :: usize) = n"
  by (simp add: unsigned_of_nat take_bit_nat_eq_self)

lemma unat_usize_less: "unat (n :: usize) < 2 ^ 64"
  using unsigned_less[of n] by simp

lemma of_nat_max_usize: "d < 2 ^ 64 \<Longrightarrow> e < 2 ^ 64 \<Longrightarrow> (of_nat (max d e) :: usize) = max (of_nat d) (of_nat e)"
  by (simp add: max_def word_le_nat_alt unat_of_nat_usize)

lemma add_visits_add:
  assumes "d < 2 ^ 64" "e < 2 ^ 64"
  shows "add_visits (add_visits w n d) m e = add_visits w (n + m) (max d e)"
  using of_nat_max_usize[OF assms] by (simp add: add_visits_def tombstone_work_of_def add.assoc max.assoc)

lemma add_visits_0 [simp]: "add_visits w 0 0 = w"
  by (simp add: add_visits_def tombstone_work_of_def)

lemma spend_simps [simp]:
  "cb_reservation (spend b p n d) = cb_reservation b"
  "budget_ok b \<Longrightarrow> spend b p 0 0 = b"
  by (simp_all add: spend_def consumed_work_def)

lemma consumed_spend: "budget_ok b \<Longrightarrow> consumed_work (spend b p n d) q = (if q = p then add_visits (consumed_work b p) n d else consumed_work b q)"
  by (simp add: spend_def consumed_after budget_ok_def)

lemma spend_spend:
  assumes "budget_ok b" "d < 2 ^ 64" "e < 2 ^ 64"
  shows "spend (spend b p n d) p m e = spend b p (n + m) (max d e)"
  using consumed_spend[OF assms(1), of p n d p] add_visits_add[OF assms(2,3)] by (simp add: spend_def)

definition room_left :: "cleanup_budget \<Rightarrow> quarantine_work_portion \<Rightarrow> nat" where
  "room_left b p = unat (remaining_descendant_visits b p)"

definition depth_allowed :: "cleanup_budget \<Rightarrow> quarantine_work_portion \<Rightarrow> nat" where
  "depth_allowed b p = unat (tw_max_depth (reserved_work (cb_reservation b) p))"

lemma depth_allowed_spend [simp]: "depth_allowed (spend b p n d) q = depth_allowed b q"
  by (simp add: depth_allowed_def)

text \<open>One visit.\<close>

lemma visit_charge:
  assumes ok: "budget_ok b" and left: "0 < room_left b p" and d: "0 < d" "d < 2 ^ 64"
  shows "try_descendant b p (of_nat d) = (if d \<le> depth_allowed b p then Inr (spend b p 1 d) else Inl (ReservationExceeded p))"
    and "d \<le> depth_allowed b p \<Longrightarrow> budget_ok (spend b p 1 d) \<and> Suc (room_left (spend b p 1 d) p) = room_left b p"
proof -
  let ?w = "tombstone_work_of 0 1 (of_nat d)" and ?c = "consumed_work b p" and ?r = "reserved_work (cb_reservation b) p"
  have nat_d: "unat (of_nat d :: usize) = d" using d(2) by (rule unat_of_nat_usize)
  have pos: "(0 :: usize) < of_nat d" using nat_d d(1) by (simp add: word_less_nat_alt)
  have coherent: "is_charge_coherent ?w" using pos by (simp add: is_charge_coherent_def tombstone_work_of_def)
  have fits: "fits_within ?c ?r" using budget_ok_fits[OF ok] .
  have visits: "unat (tw_descendant_visits ?c) < unat (tw_descendant_visits ?r)"
    using left remaining_exact(2)[OF ok, of p] by (simp add: room_left_def)
  then have "word_checked_add (tw_descendant_visits ?c) 1 = Some (tw_descendant_visits ?c + 1)"
    using unat_usize_less[of "tw_descendant_visits ?r"] by (simp add: word_checked_add_Some)
  moreover have "word_checked_add (tw_top_level_entries ?c) 0 = Some (tw_top_level_entries ?c)"
    using unat_usize_less[of "tw_top_level_entries ?c"] by (simp add: word_checked_add_Some)
  ultimately have added: "work_checked_add ?c ?w = Some (add_visits ?c 1 d)"
    by (simp add: work_checked_add_def add_visits_def tombstone_work_of_def)
  have "tw_descendant_visits ?c + 1 \<le> tw_descendant_visits ?r"
    using visits by (metis inc_le word_less_nat_alt)
  then have "fits_within (add_visits ?c 1 d) ?r \<longleftrightarrow> of_nat d \<le> tw_max_depth ?r"
    using fits by (auto simp: fits_within_def add_visits_def tombstone_work_of_def)
  then have "fits_within (add_visits ?c 1 d) ?r \<longleftrightarrow> d \<le> depth_allowed b p"
    using nat_d by (simp add: depth_allowed_def word_le_nat_alt)
  then show run: "try_descendant b p (of_nat d) = (if d \<le> depth_allowed b p then Inr (spend b p 1 d) else Inl (ReservationExceeded p))"
    using coherent added by (simp add: try_descendant_def try_consume_def spend_def)
  show "budget_ok (spend b p 1 d) \<and> Suc (room_left (spend b p 1 d) p) = room_left b p" if "d \<le> depth_allowed b p"
    using try_consume_effect(1,7)[OF ok run[unfolded try_descendant_def, simplified that if_True]]
    by (simp add: room_left_def tombstone_work_of_def)
qed

section \<open>One directory\<close>

text \<open>The walk's own record of its work is part of what the portion has consumed.\<close>

definition walking :: "cleanup_budget \<Rightarrow> quarantine_work_portion \<Rightarrow> tombstone_work \<Rightarrow> bool" where
  "walking b p w \<longleftrightarrow> budget_ok b \<and> fits_within w (consumed_work b p)"

lemma walking_add:
  assumes "walking b p w" "0 < room_left b p" "0 < d" "d < 2 ^ 64" "d \<le> depth_allowed b p"
  shows "work_checked_add w (tombstone_work_of 0 1 (of_nat d)) = Some (add_visits w 1 d)"
    and "walking (spend b p 1 d) p (add_visits w 1 d)"
proof -
  have ok: "budget_ok b" using assms(1) by (simp add: walking_def)
  have "try_consume b p (tombstone_work_of 0 1 (of_nat d)) = Inr (spend b p 1 d)"
    using visit_charge(1)[OF ok assms(2-4)] assms(5) by (simp add: try_descendant_def)
  from try_consume_effect(5)[OF ok this]
  obtain u where u: "work_checked_add w (tombstone_work_of 0 1 (of_nat d)) = Some u"
      "fits_within u (consumed_work (spend b p 1 d) p)"
    using work_checked_add_mono assms(1) fits_within_refl unfolding walking_def by blast
  have "u = add_visits w 1 d"
    using u(1) by (auto simp: work_checked_add_def add_visits_def tombstone_work_of_def word_checked_add_def
        split: if_splits)
  then show "work_checked_add w (tombstone_work_of 0 1 (of_nat d)) = Some (add_visits w 1 d)"
    "walking (spend b p 1 d) p (add_visits w 1 d)"
    using u visit_charge(2)[OF ok assms(2-5)] by (simp_all add: walking_def)
qed

lemma visit_entry_run:
  assumes "walking b p w" "0 < room_left b p" "pd_depth current = of_nat d" "Suc d < 2 ^ 64" "safe_entry e"
  shows "visit_entry p current (b, w, m) (n, e) =
     (if Suc d \<le> depth_allowed b p
      then Inr (spend b p 1 (Suc d), add_visits w 1 (Suc d), enqueue (pd_key current) (of_nat (Suc d)) (n, e) m)
      else Inl (InspectionBudget (ReservationExceeded p)))"
proof -
  have ok: "budget_ok b" using assms(1) by (simp add: walking_def)
  have depth: "word_checked_add (pd_depth current) 1 = Some (of_nat (Suc d))"
    using assms(3,4) unat_of_nat_usize[of d] by (simp add: word_checked_add_Some)
  have charge: "try_descendant b p (of_nat (Suc d)) = (if Suc d \<le> depth_allowed b p then Inr (spend b p 1 (Suc d)) else Inl (ReservationExceeded p))"
    using visit_charge(1)[OF ok assms(2) _ assms(4)] by simp
  show ?thesis
  proof (cases "Suc d \<le> depth_allowed b p")
    case True
    then have add: "work_checked_add w (tombstone_work_of 0 1 (of_nat (Suc d))) = Some (add_visits w 1 (Suc d))"
      using walking_add(1)[OF assms(1,2) _ assms(4)] by simp
    show ?thesis using True assms(5) unfolding visit_entry_def prod.case depth option.case charge
      by (cases e) (simp_all add: from_budget_def add enqueue_def Let_def del: of_nat_Suc)
  next
    case False
    then show ?thesis unfolding visit_entry_def prod.case depth option.case charge by (simp add: from_budget_def)
  qed
qed

lemma visit_entries_run:
  assumes "walking b p w" "length es \<le> room_left b p" "pd_depth current = of_nat d" "Suc d < 2 ^ 64"
    and "\<forall>e \<in> snd ` set es. safe_entry e"
  shows "visit_entries p current (b, w, m) es =
     (if es = [] \<or> Suc d \<le> depth_allowed b p
      then Inr (spend b p (length es) (if es = [] then 0 else Suc d), add_visits w (length es) (if es = [] then 0 else Suc d),
             fold (enqueue (pd_key current) (of_nat (Suc d))) es m)
      else Inl (InspectionBudget (ReservationExceeded p)))
    \<and> (es = [] \<or> Suc d \<le> depth_allowed b p \<longrightarrow>
        walking (spend b p (length es) (if es = [] then 0 else Suc d)) p (add_visits w (length es) (if es = [] then 0 else Suc d))
        \<and> room_left (spend b p (length es) (if es = [] then 0 else Suc d)) p + length es = room_left b p)"
  using assms
proof (induction es arbitrary: b w m)
  case Nil
  then show ?case by (simp add: walking_def)
next
  case (Cons x es)
  obtain n e where x: "x = (n, e)" by (cases x)
  have ok: "budget_ok b" and left: "0 < room_left b p" using Cons.prems by (simp_all add: walking_def)
  note one = visit_entry_run[OF Cons.prems(1) left Cons.prems(3,4), of e m n]
  show ?case
  proof (cases "Suc d \<le> depth_allowed b p")
    case True
    have walk: "walking (spend b p 1 (Suc d)) p (add_visits w 1 (Suc d))"
      using walking_add(2)[OF Cons.prems(1) left _ Cons.prems(4) True] by simp
    have less: "Suc (room_left (spend b p 1 (Suc d)) p) = room_left b p"
      using visit_charge(2)[OF ok left _ Cons.prems(4) True] by simp
    have fold_spend: "spend (spend b p 1 (Suc d)) p k (if es = [] then 0 else Suc d) = spend b p (Suc k) (Suc d)"
      "add_visits (add_visits w 1 (Suc d)) k (if es = [] then 0 else Suc d) = add_visits w (Suc k) (Suc d)" for k
      using spend_spend[OF ok Cons.prems(4), of "if es = [] then 0 else Suc d" p 1 k]
        add_visits_add[OF Cons.prems(4), of "if es = [] then 0 else Suc d" w 1 k] Cons.prems(4) by auto
    have "length es \<le> room_left (spend b p 1 (Suc d)) p" using less Cons.prems(2) by simp
    from Cons.IH[OF walk this Cons.prems(3,4), of "enqueue (pd_key current) (of_nat (Suc d)) (n, e) m"]
    show ?thesis using Cons.prems(5) one True less fold_spend[of "length es"]
      by (auto simp: x simp del: of_nat_Suc)
  next
    case False
    then show ?thesis using one Cons.prems(5) by (simp add: x)
  qed
qed

lemma foldr_max_set: "foldr max xs (0 :: nat) = Max (insert 0 (set xs))"
proof (induction xs)
  case (Cons x xs)
  then show ?case by (simp add: insert_commute[of 0 x])
qed simp

lemma foldr_max_sort_key: "foldr max (map f (sort_key g xs)) (0 :: nat) = foldr max (map f xs) 0"
  by (simp add: foldr_max_set)

lemma reach_of_directory:
  "reach_from d (DirectoryEntry es)
     = max (if es = [] then 0 else Suc d) (foldr max (map (\<lambda>(n, e). reach_from (Suc d) e) es) 0)"
proof (induction es)
  case (Cons x es)
  then show ?case by (cases x; cases "es = []") (auto simp: reach_from_def max_def split: if_splits)
qed (simp add: reach_from_def)

lemma bounded_listing:
  assumes "length es < 2 ^ 64"
  shows "collect_bounded_sorted_directory_entries es a = (if length es \<le> unat a then Some (sort_key fst es) else None)"
proof -
  have top: "unat usize_max = 2 ^ 64 - 1"
    by (simp add: usize_max_def unsigned_minus_1_eq_mask mask_eq_exp_minus_1)
  have sat: "unat (usize_saturating_add a 1) = (if unat a + 1 < 2 ^ 64 then unat a + 1 else 2 ^ 64 - 1)"
  proof (cases "word_checked_add a 1")
    case None
    then have "\<not> unat a + 1 < 2 ^ 64" by (simp add: word_checked_add_def split: if_splits)
    then show ?thesis using None top by (simp add: usize_saturating_add_def)
  next
    case (Some c)
    then have "unat c = unat a + 1" using unat_word_checked_add by fastforce
    then show ?thesis using Some unat_usize_less[of c] by (simp add: usize_saturating_add_def)
  qed
  show ?thesis
  proof (cases "length es \<le> unat a")
    case True
    then have "take (unat (usize_saturating_add a 1)) es = es" using sat assms unat_usize_less[of a] by (auto split: if_splits)
    then show ?thesis using True
      by (simp add: collect_bounded_sorted_directory_entries_def collect_bounded_entries_def Let_def)
  next
    case False
    then have "unat (usize_saturating_add a 1) = unat a + 1" using sat assms by (auto split: if_splits)
    then show ?thesis using False
      by (simp add: collect_bounded_sorted_directory_entries_def collect_bounded_entries_def Let_def)
  qed
qed

lemma visit_directory_run:
  assumes walk: "walking b p w" and cur: "pd_directory current = DirectoryEntry es" "pd_depth current = of_nat d" "d < 2 ^ 64"
    and safe: "safe_entry (DirectoryEntry es)" and m: "pending_ok m" "room_for (pd_key current) (fst ` set es) m"
    and small: "length es < 2 ^ 64" "reach_from d (DirectoryEntry es) < 2 ^ 64"
  defines "\<delta> \<equiv> if es = [] then 0 else Suc d"
  shows "if length es \<le> room_left b p \<and> \<delta> \<le> depth_allowed b p
    then \<exists>m'. visit_directory p current (b, w, m) = Inr (spend b p (length es) \<delta>, add_visits w (length es) \<delta>, m')
      \<and> pending_ok m' \<and> length es + pending_visits m' = dir_visits (DirectoryEntry es) + pending_visits m
      \<and> max \<delta> (pending_reach m') = max (reach_from d (DirectoryEntry es)) (pending_reach m)
      \<and> walking (spend b p (length es) \<delta>) p (add_visits w (length es) \<delta>)
      \<and> room_left (spend b p (length es) \<delta>) p + length es = room_left b p
    else visit_directory p current (b, w, m) = Inl (InspectionBudget (ReservationExceeded p))"
proof -
  let ?es = "sort_key fst es"
  have listed: "visit_directory p current (b, w, m)
      = (if length es \<le> room_left b p then visit_entries p current (b, w, m) ?es
         else Inl (InspectionBudget (ReservationExceeded p)))"
    using bounded_listing[OF small(1)] cur(1) by (simp add: visit_directory_def room_left_def)
  show ?thesis
  proof (cases "es = []")
    case True
    then show ?thesis using listed walk m(1)
      by (auto simp: \<delta>_def reach_from_def walking_def)
  next
    case False
    then have \<delta>: "\<delta> = Suc d" "?es \<noteq> []" by (simp_all add: \<delta>_def) (metis length_0_conv length_sort)
    have deep: "Suc d < 2 ^ 64" using small(2) False by (simp add: reach_of_directory)
    have "unat (of_nat (Suc d) :: usize) = Suc d" using deep by (rule unat_of_nat_usize)
    moreover have "plain_names ?es" "\<forall>e \<in> snd ` set ?es. safe_entry e" "room_for (pd_key current) (fst ` set ?es) m"
      using safe[unfolded safe_directory] m(2) by (auto simp: plain_names_def distinct_map)
    moreover note enqueue_children[OF calculation(2,3) m(1) calculation(4), of "of_nat (Suc d)"]
    ultimately have m': "pending_ok (fold (enqueue (pd_key current) (of_nat (Suc d))) ?es m)"
      "length es + pending_visits (fold (enqueue (pd_key current) (of_nat (Suc d))) ?es m)
        = dir_visits (DirectoryEntry es) + pending_visits m"
      "max \<delta> (pending_reach (fold (enqueue (pd_key current) (of_nat (Suc d))) ?es m))
        = max (reach_from d (DirectoryEntry es)) (pending_reach m)"
      using False by (simp_all add: sum_list_sort_key foldr_max_sort_key reach_of_directory \<delta>_def max.assoc
          del: of_nat_Suc)
    have "\<forall>e \<in> snd ` set ?es. safe_entry e" using safe[unfolded safe_directory] by simp
    from visit_entries_run[OF walk _ cur(2) deep this, of m] \<delta> listed m'
    show ?thesis by (auto simp del: of_nat_Suc dir_size)
  qed
qed

section \<open>The whole walk\<close>

lemma pending_ok_Cons:
  assumes "pending_ok ((k, current) # m)"
  shows "pd_key current = k" "pending_ok m" "\<exists>es. pd_directory current = DirectoryEntry es"
    and "safe_entry (pd_directory current)" "room_for k names m"
proof -
  have all: "distinct (map fst ((k, current) # m))"
    "\<forall>(k, d) \<in> set ((k, current) # m). pd_key d = k \<and> (\<exists>es. pd_directory d = DirectoryEntry es) \<and> safe_entry (pd_directory d)"
    "\<forall>j \<in> fst ` set ((k, current) # m). \<forall>k' \<in> fst ` set ((k, current) # m). \<not> below j k'"
    using assms unfolding pending_ok_def by blast+
  show "pd_key current = k" "\<exists>es. pd_directory current = DirectoryEntry es" "safe_entry (pd_directory current)"
    using all(2) by simp_all
  show "pending_ok m" using all unfolding pending_ok_def by simp
  show "room_for k names m" using all(1,3) unfolding room_for_def by (auto simp: image_iff)
qed

lemma inspect_pending_run:
  assumes "walking b p w" "pending_ok m" "pending_visits m < 2 ^ 64" "pending_reach m < 2 ^ 64"
  shows "inspect_pending p (b, w, m) =
     (if pending_visits m \<le> room_left b p \<and> pending_reach m \<le> depth_allowed b p
      then Inr (add_visits w (pending_visits m) (pending_reach m), spend b p (pending_visits m) (pending_reach m))
      else Inl (InspectionBudget (ReservationExceeded p)))"
  using assms
proof (induction "pending_weight m" arbitrary: b w m rule: less_induct)
  case less
  show ?case
  proof (cases m)
    case Nil
    then show ?thesis using less.prems by (simp add: pending_visits_def pending_reach_def walking_def)
  next
    case (Cons kc rest)
    obtain k current where kc: "kc = (k, current)" by (cases kc)
    note m = Cons[unfolded kc]
    note head = pending_ok_Cons[OF less.prems(2)[unfolded m]]
    obtain es where es: "pd_directory current = DirectoryEntry es" using head(3) by blast
    let ?d = "unat (pd_depth current)" and ?\<delta> = "if es = [] then 0 else Suc (unat (pd_depth current))"
    have size: "pending_visits m = dir_visits (DirectoryEntry es) + pending_visits rest"
      "pending_reach m = max (reach_from ?d (DirectoryEntry es)) (pending_reach rest)"
      by (simp_all add: m pending_visits_def pending_reach_def es del: dir_size)
    have small: "length es < 2 ^ 64" "reach_from ?d (DirectoryEntry es) < 2 ^ 64" "?d < 2 ^ 64"
      using less.prems(3,4) size unat_usize_less[of "pd_depth current"] by simp_all
    have reach: "?\<delta> \<le> pending_reach m" by (simp add: size reach_of_directory)
    note step = visit_directory_run[OF less.prems(1) es _ small(3) _ head(2) _ small(1,2),
        unfolded head(1), OF _ head(4)[unfolded es] head(5)]
    show ?thesis
    proof (cases "length es \<le> room_left b p \<and> ?\<delta> \<le> depth_allowed b p")
      case True
      then obtain m' where m': "visit_directory p current (b, w, rest)
            = Inr (spend b p (length es) ?\<delta>, add_visits w (length es) ?\<delta>, m')"
          "pending_ok m'" "length es + pending_visits m' = pending_visits m" "max ?\<delta> (pending_reach m') = pending_reach m"
          "walking (spend b p (length es) ?\<delta>) p (add_visits w (length es) ?\<delta>)"
          "room_left (spend b p (length es) ?\<delta>) p + length es = room_left b p"
        using step size by auto
      have "pending_weight m' < pending_weight m" using visit_directory_weight[OF m'(1)] m by simp
      from less.hyps[OF this m'(5,2)] m'(3,4) less.prems(3,4)
      have rest: "inspect_pending p (spend b p (length es) ?\<delta>, add_visits w (length es) ?\<delta>, m') =
         (if pending_visits m' \<le> room_left (spend b p (length es) ?\<delta>) p \<and> pending_reach m' \<le> depth_allowed b p
          then Inr (add_visits (add_visits w (length es) ?\<delta>) (pending_visits m') (pending_reach m'),
                 spend (spend b p (length es) ?\<delta>) p (pending_visits m') (pending_reach m'))
          else Inl (InspectionBudget (ReservationExceeded p)))"
        by (simp add: max_def split: if_splits)
      have bounds: "?\<delta> < 2 ^ 64" "pending_reach m' < 2 ^ 64" using m'(4) less.prems(4) by linarith+
      have "pending_visits m' \<le> room_left (spend b p (length es) ?\<delta>) p \<longleftrightarrow> pending_visits m \<le> room_left b p"
        using m'(3,6) by linarith
      moreover have "pending_reach m' \<le> depth_allowed b p \<longleftrightarrow> pending_reach m \<le> depth_allowed b p"
        using m'(4) True by (metis max.bounded_iff)
      moreover have "budget_ok b" using less.prems(1) by (simp add: walking_def)
      ultimately show ?thesis
        using rest m'(1,3,4) add_visits_add[OF bounds] spend_spend[OF _ bounds] by (simp add: m)
    next
      case False
      then have "visit_directory p current (b, w, rest) = Inl (InspectionBudget (ReservationExceeded p))"
        using step by auto
      moreover have "\<not> (pending_visits m \<le> room_left b p \<and> pending_reach m \<le> depth_allowed b p)"
        using False reach size by (auto simp del: One_nat_def)
      ultimately show ?thesis by (simp add: m)
    qed
  qed
qed

text \<open>C30: 
  Inspecting a quarantined directory costs exactly the directory.  On a tree of regular files and directories
  with fewer than \<open>2 ^ 64\<close> entries the walk succeeds exactly when the portion has a visit left for every entry
  and allows the depth of the deepest one; it then reports that number of visits and that depth and charges
  just as much to its portion, and otherwise it stops with that portion's own error, never with an overflow.
\<close>

theorem inspection_costs_the_tree:
  assumes "budget_ok b" "safe_entry (DirectoryEntry es)" "dir_visits (DirectoryEntry es) < 2 ^ 64"
  shows "inspect_descendants (DirectoryEntry es) b p =
     (if dir_visits (DirectoryEntry es) \<le> unat (remaining_descendant_visits b p)
        \<and> dir_height (DirectoryEntry es) \<le> unat (tw_max_depth (reserved_work (cb_reservation b) p))
      then Inr (tombstone_work_of 0 (of_nat (dir_visits (DirectoryEntry es))) (of_nat (dir_height (DirectoryEntry es))),
             spend b p (dir_visits (DirectoryEntry es)) (dir_height (DirectoryEntry es)))
      else Inl (InspectionBudget (ReservationExceeded p)))"
proof -
  let ?root = "\<lparr>pd_directory = DirectoryEntry es, pd_key = [], pd_depth = 0\<rparr>"
  have "pending_ok [([], ?root)]" using assms(2) by (auto simp: pending_ok_def)
  moreover have "walking b p no_work" using assms(1) by (simp add: walking_def)
  moreover have "dir_height (DirectoryEntry es) \<le> dir_visits (DirectoryEntry es)"
    using height_le_visits[of "DirectoryEntry es"] unfolding entry_height_eq entry_visits_eq by simp
  moreover have "pending_visits [([], ?root)] = dir_visits (DirectoryEntry es)"
    "pending_reach [([], ?root)] = dir_height (DirectoryEntry es)"
    by (simp_all add: pending_visits_def pending_reach_def reach_from_def del: dir_size)
  ultimately show ?thesis
    using inspect_pending_run[of b p no_work "[([], ?root)]"] assms(3)
    by (simp add: inspect_descendants_def room_left_def depth_allowed_def add_visits_def no_work_def
        tombstone_work_of_def del: dir_size)
qed

definition sample_tree :: "(string \<times> store_entry) list" where
  "sample_tree = [(''b'', FileEntry), (''a'', DirectoryEntry [(''c'', FileEntry)])]"

theorem inspection_costs_the_tree_witness:
  "inspect_descendants (DirectoryEntry sample_tree) (budget_new sample_reservation) CleanupInspection
     = Inr (tombstone_work_of 0 3 2, spend (budget_new sample_reservation) CleanupInspection 3 2)
   \<and> inspect_descendants (DirectoryEntry sample_tree) (budget_new sample_reservation) Forward
     = Inl (InspectionBudget (ReservationExceeded Forward))"
proof -
  have ok: "budget_ok (budget_new sample_reservation)"
    by (rule budget_new_ok) (simp add: sample_reservation_def WORK_PORTION_COUNT_def)
  have tree: "safe_entry (DirectoryEntry sample_tree)" "dir_visits (DirectoryEntry sample_tree) = 3"
    "dir_height (DirectoryEntry sample_tree) = 2"
    by (simp_all add: sample_tree_def)
  have made: "cb_reservation (budget_new sample_reservation) = sample_reservation" by (simp add: budget_new_def)
  have left: "remaining_descendant_visits (budget_new sample_reservation) q
      = tw_descendant_visits (reserved_work sample_reservation q)" for q
    by (cases q) (simp_all add: remaining_descendant_visits_def budget_new_def consumed_work_def WORK_PORTION_COUNT_def
        no_work_def tombstone_work_of_def)
  have reserved: "reserved_work sample_reservation CleanupInspection = tombstone_work_of 2 4 2"
    "reserved_work sample_reservation Forward = no_work"
    by (simp_all add: reserved_work_def sample_reservation_def)
  show ?thesis
    using inspection_costs_the_tree[OF ok tree(1)] tree(2,3)
    by (simp add: left reserved made no_work_def tombstone_work_of_def del: dir_size)
qed

end
