(* ===== verification/Install_Phases.thy ===== *)
theory Install_Phases
  imports Portable_Content
begin

text \<open>
  The phases of an application installation, \<open>kitrove-installer/src/install_phase.rs\<close>, as compiled on Unix: what
  an operation directory must hold in each phase, how recovery detects the phase of an interrupted operation,
  which further journal leaves may lie beside it, and the phase records.  Authority: the identity and the
  hexadecimal texts of \<open>record.rs\<close>.
\<close>

section \<open>Phases\<close>

datatype installer_stage_error =
  UnsupportedPlatform | TargetMismatch | UnsafeDestination | UnsafeInstallerState | Conflict | DestinationOccupied
  | IncompatibleUpgrade | WriteFailed | VerificationFailed | RecoveryRequired

type_synonym 'a staged = "installer_stage_error + 'a"

datatype install_phase = PhaseReplaced | PhaseVerified | PhaseCommitted | PhaseRolledBack

datatype install_recovery_phase =
  RecoveryPrepared | RecoveryReplaced | RecoveryVerified | RecoveryCommitted
  | RecoveryRollbackHandoff | RecoveryRollingBack | RecoveryRolledBack

datatype detected_install_phase =
  DetectedPrepared | DetectedReplacedUnrecorded | DetectedReplaced | DetectedVerified | DetectedCommitted
  | DetectedRollbackHandoff | DetectedRollingBack | DetectedRolledBack

definition OPERATION_RECORD :: string where "OPERATION_RECORD = ''operation.json''"
definition STAGED_EXECUTABLE :: string where "STAGED_EXECUTABLE = ''application''"
definition REPLACED_RECORD :: string where "REPLACED_RECORD = ''replaced.json''"
definition VERIFIED_RECORD :: string where "VERIFIED_RECORD = ''verified.json''"
definition COMMITTED_RECORD :: string where "COMMITTED_RECORD = ''committed.json''"
definition ROLLED_BACK_RECORD :: string where "ROLLED_BACK_RECORD = ''rolled-back.json''"
definition FAILED_EXECUTABLE :: string where "FAILED_EXECUTABLE = ''failed-application''"
definition MAX_PHASE_RECORD_BYTES :: nat where "MAX_PHASE_RECORD_BYTES = 1024"
definition INSTALL_PHASE_RECORD_SCHEMA :: nat where "INSTALL_PHASE_RECORD_SCHEMA = 2"

definition all_phases :: "install_phase list" where
  "all_phases = [PhaseReplaced, PhaseVerified, PhaseCommitted, PhaseRolledBack]"

text \<open>\<open>is_bounded_unique_set\<close>: no more phases than there are, none of them twice.\<close>

definition is_bounded_unique_set :: "install_phase list \<Rightarrow> bool" where
  "is_bounded_unique_set phases \<longleftrightarrow> length phases \<le> length all_phases
     \<and> list_all (\<lambda>i. phases ! i \<notin> set (take i phases)) [0..<length phases]"

fun phase_file_name :: "install_phase \<Rightarrow> string" where
  "phase_file_name PhaseReplaced = REPLACED_RECORD"
| "phase_file_name PhaseVerified = VERIFIED_RECORD"
| "phase_file_name PhaseCommitted = COMMITTED_RECORD"
| "phase_file_name PhaseRolledBack = ROLLED_BACK_RECORD"

fun pending_file_name :: "install_phase \<Rightarrow> string" where
  "pending_file_name PhaseReplaced = ''replaced.pending''"
| "pending_file_name PhaseVerified = ''verified.pending''"
| "pending_file_name PhaseCommitted = ''committed.pending''"
| "pending_file_name PhaseRolledBack = ''rolled-back.pending''"

fun phase_chain :: "install_phase \<Rightarrow> install_phase list" where
  "phase_chain PhaseReplaced = [PhaseReplaced]"
| "phase_chain PhaseVerified = [PhaseReplaced, PhaseVerified]"
| "phase_chain PhaseCommitted = [PhaseReplaced, PhaseVerified, PhaseCommitted]"
| "phase_chain PhaseRolledBack = [PhaseReplaced, PhaseRolledBack]"

fun marker_phases :: "install_recovery_phase \<Rightarrow> install_phase list" where
  "marker_phases RecoveryPrepared = []"
| "marker_phases RecoveryReplaced = phase_chain PhaseReplaced"
| "marker_phases RecoveryRollbackHandoff = phase_chain PhaseReplaced"
| "marker_phases RecoveryRollingBack = phase_chain PhaseReplaced"
| "marker_phases RecoveryVerified = phase_chain PhaseVerified"
| "marker_phases RecoveryCommitted = phase_chain PhaseCommitted"
| "marker_phases RecoveryRolledBack = phase_chain PhaseRolledBack"

definition recovery_inventory :: "install_recovery_phase \<Rightarrow> string list" where
  "recovery_inventory phase =
     [OPERATION_RECORD, STAGED_EXECUTABLE] @ map phase_file_name (marker_phases phase)
     @ (if phase \<in> {RecoveryRollbackHandoff, RecoveryRollingBack, RecoveryRolledBack} then [FAILED_EXECUTABLE] else [])"

fun phase_inventory :: "install_phase \<Rightarrow> string list" where
  "phase_inventory PhaseReplaced = recovery_inventory RecoveryReplaced"
| "phase_inventory PhaseVerified = recovery_inventory RecoveryVerified"
| "phase_inventory PhaseCommitted = recovery_inventory RecoveryCommitted"
| "phase_inventory PhaseRolledBack = recovery_inventory RecoveryRolledBack"

fun recovery_phase :: "detected_install_phase \<Rightarrow> install_recovery_phase" where
  "recovery_phase DetectedPrepared = RecoveryPrepared"
| "recovery_phase DetectedReplacedUnrecorded = RecoveryPrepared"
| "recovery_phase DetectedReplaced = RecoveryReplaced"
| "recovery_phase DetectedVerified = RecoveryVerified"
| "recovery_phase DetectedCommitted = RecoveryCommitted"
| "recovery_phase DetectedRollbackHandoff = RecoveryRollbackHandoff"
| "recovery_phase DetectedRollingBack = RecoveryRollingBack"
| "recovery_phase DetectedRolledBack = RecoveryRolledBack"

definition is_restored :: "detected_install_phase \<Rightarrow> bool" where
  "is_restored d \<longleftrightarrow> d \<in> {DetectedRollingBack, DetectedRolledBack, DetectedRollbackHandoff}"

section \<open>Detection\<close>

text \<open>\<open>classify_operation\<close>: the sorted names of the operation directory, and which executables were found.\<close>

definition matches_inventory :: "string list \<Rightarrow> install_recovery_phase \<Rightarrow> bool" where
  "matches_inventory observed phase \<longleftrightarrow> observed = sort (recovery_inventory phase)"

definition classify_operation :: "string list \<Rightarrow> bool \<Rightarrow> bool \<Rightarrow> detected_install_phase staged" where
  "classify_operation observed installed failed =
     (if \<not> installed \<and> \<not> failed \<and> matches_inventory observed RecoveryPrepared then Inr DetectedPrepared
      else if installed \<and> \<not> failed \<and> matches_inventory observed RecoveryPrepared then Inr DetectedReplacedUnrecorded
      else if installed \<and> \<not> failed \<and> matches_inventory observed RecoveryReplaced then Inr DetectedReplaced
      else if installed \<and> \<not> failed \<and> matches_inventory observed RecoveryVerified then Inr DetectedVerified
      else if installed \<and> \<not> failed \<and> matches_inventory observed RecoveryCommitted then Inr DetectedCommitted
      else if \<not> installed \<and> failed \<and> matches_inventory observed RecoveryRollingBack then Inr DetectedRollingBack
      else if installed \<and> failed \<and> matches_inventory observed RecoveryRollbackHandoff then Inr DetectedRollbackHandoff
      else if \<not> installed \<and> failed \<and> matches_inventory observed RecoveryRolledBack then Inr DetectedRolledBack
      else Inl RecoveryRequired)"

section \<open>The order of journal leaves\<close>

definition complete_phase :: "install_phase list \<Rightarrow> install_phase list \<Rightarrow> install_phase \<Rightarrow> bool" where
  "complete_phase base prior phase \<longleftrightarrow> phase \<in> set base \<or> phase \<in> set prior"

definition misplaced_pending ::
  "detected_install_phase \<Rightarrow> install_phase list \<Rightarrow> install_phase list \<Rightarrow> install_phase \<Rightarrow> bool" where
  "misplaced_pending d base prior phase \<longleftrightarrow> complete_phase base prior phase \<or> (case phase of
       PhaseReplaced \<Rightarrow> d \<noteq> DetectedReplacedUnrecorded
     | PhaseVerified \<Rightarrow> \<not> complete_phase base prior PhaseReplaced \<or> \<not> (is_restored d \<or> d = DetectedReplaced)
     | PhaseCommitted \<Rightarrow> \<not> complete_phase base prior PhaseVerified \<or> \<not> (is_restored d \<or> d = DetectedVerified)
     | PhaseRolledBack \<Rightarrow> d \<noteq> DetectedRollingBack)"

definition require_journal_order ::
  "detected_install_phase \<Rightarrow> install_phase list \<Rightarrow> install_phase list \<Rightarrow> unit staged" where
  "require_journal_order d pending prior =
     (let base = marker_phases (recovery_phase d) in
      if \<not> is_bounded_unique_set pending \<or> \<not> is_bounded_unique_set prior
         \<or> list_ex (\<lambda>phase. phase \<in> set base \<or> \<not> is_restored d \<or> phase \<notin> {PhaseVerified, PhaseCommitted}) prior
         \<or> (complete_phase base prior PhaseCommitted \<and> \<not> complete_phase base prior PhaseVerified)
         \<or> list_ex (misplaced_pending d base prior) pending
      then Inl RecoveryRequired else Inr ())"

section \<open>Phase records\<close>

datatype native_platform = UnixIdentity | WindowsIdentity

record native_file_identity =
  ni_platform :: native_platform
  ni_filesystem_id :: nat
  ni_file_id :: "nat list"

definition native_identity_is_valid :: "native_file_identity \<Rightarrow> bool" where
  "native_identity_is_valid i = (case ni_platform i of
       UnixIdentity \<Rightarrow> take 8 (ni_file_id i) \<noteq> replicate 8 0 \<and> drop 8 (ni_file_id i) = replicate 8 0
     | WindowsIdentity \<Rightarrow> ni_file_id i \<noteq> replicate 16 0)"

definition encode_hex :: "string \<Rightarrow> string" where
  "encode_hex bytes = concat (map (\<lambda>b. [hex_digit (byte b div 16), hex_digit (byte b mod 16)]) bytes)"

record phase_record =
  ph_schema :: nat
  ph_phase :: install_phase
  ph_operation_id :: string
  ph_prepared_record_sha256 :: string
  ph_installed_identity :: native_file_identity
  ph_executable_sha256 :: string

text \<open>What the code reads of the prepared operation record: its identifier and its canonical JSON.\<close>

record prepared_view =
  pv_operation_id :: string
  pv_json :: "string option"

definition phase_record_new ::
  "(string \<Rightarrow> string) \<Rightarrow> install_phase \<Rightarrow> prepared_view \<Rightarrow> native_file_identity \<Rightarrow> string \<Rightarrow> phase_record staged" where
  "phase_record_new sha256 phase prepared installed executable_sha256 = (case pv_json prepared of
       None \<Rightarrow> Inl UnsafeInstallerState
     | Some bytes \<Rightarrow> Inr \<lparr>ph_schema = INSTALL_PHASE_RECORD_SCHEMA, ph_phase = phase,
         ph_operation_id = pv_operation_id prepared, ph_prepared_record_sha256 = encode_hex (sha256 bytes),
         ph_installed_identity = installed, ph_executable_sha256 = encode_hex executable_sha256\<rparr>)"

text \<open>The JSON codec of the record is a parameter: a printer and a parser that rejects unknown fields.\<close>

record phase_codec =
  pc_print :: "phase_record \<Rightarrow> string option"
  pc_parse :: "string \<Rightarrow> phase_record option"

definition phase_record_to_json :: "phase_codec \<Rightarrow> phase_record \<Rightarrow> string staged" where
  "phase_record_to_json c r = (case pc_print c r of None \<Rightarrow> Inl WriteFailed | Some s \<Rightarrow> Inr s)"

definition parse_canonical :: "phase_codec \<Rightarrow> string \<Rightarrow> phase_record staged" where
  "parse_canonical c bytes =
     (if bytes = [] \<or> length bytes > MAX_PHASE_RECORD_BYTES then Inl UnsafeInstallerState
      else case pc_parse c bytes of
          None \<Rightarrow> Inl UnsafeInstallerState
        | Some r \<Rightarrow>
            if ph_schema r \<noteq> INSTALL_PHASE_RECORD_SCHEMA \<or> ph_operation_id r = []
               \<or> \<not> is_lower_hex (ph_prepared_record_sha256 r) 64
               \<or> \<not> native_identity_is_valid (ph_installed_identity r)
               \<or> \<not> is_lower_hex (ph_executable_sha256 r) 64
            then Inl UnsafeInstallerState
            else (case phase_record_to_json c r of
                Inl e \<Rightarrow> Inl UnsafeInstallerState
              | Inr printed \<Rightarrow> if printed \<noteq> bytes then Inl UnsafeInstallerState else Inr r))"

definition require_matches :: "phase_record \<Rightarrow> phase_record \<Rightarrow> unit staged" where
  "require_matches r expected = (if r = expected then Inr () else Inl UnsafeInstallerState)"

end
