(* ===== verification/Install_Phase_Laws.thy ===== *)
theory Install_Phase_Laws
  imports Install_Phases
begin

text \<open>
  Detection and journal order are exact: recovery classifies an operation directory in one way only, and the
  leaves that may lie beside it are those of a table.  Phase records load back.
\<close>

section \<open>Detection\<close>

text \<open>Which executables each detected phase has: the installed one, and the failed one kept for rollback.\<close>

fun executables_of :: "detected_install_phase \<Rightarrow> bool \<times> bool" where
  "executables_of DetectedPrepared = (False, False)"
| "executables_of DetectedReplacedUnrecorded = (True, False)"
| "executables_of DetectedReplaced = (True, False)"
| "executables_of DetectedVerified = (True, False)"
| "executables_of DetectedCommitted = (True, False)"
| "executables_of DetectedRollbackHandoff = (True, True)"
| "executables_of DetectedRollingBack = (False, True)"
| "executables_of DetectedRolledBack = (False, True)"

lemmas record_names = OPERATION_RECORD_def STAGED_EXECUTABLE_def REPLACED_RECORD_def VERIFIED_RECORD_def
  COMMITTED_RECORD_def ROLLED_BACK_RECORD_def FAILED_EXECUTABLE_def

definition same_inventory :: "install_recovery_phase \<Rightarrow> install_recovery_phase \<Rightarrow> bool" where
  "same_inventory p q \<longleftrightarrow> p = q \<or> {p, q} \<subseteq> {RecoveryRollbackHandoff, RecoveryRollingBack}"

lemma inventory_inj:
  "sort (recovery_inventory p) = sort (recovery_inventory q) \<longleftrightarrow> same_inventory p q"
proof
  assume "sort (recovery_inventory p) = sort (recovery_inventory q)"
  then have "set (recovery_inventory p) = set (recovery_inventory q)" by (metis set_sort)
  moreover have "r \<in> set (recovery_inventory s) \<longleftrightarrow> r = OPERATION_RECORD \<or> r = STAGED_EXECUTABLE
      \<or> (r = REPLACED_RECORD \<and> s \<noteq> RecoveryPrepared)
      \<or> (r = VERIFIED_RECORD \<and> s \<in> {RecoveryVerified, RecoveryCommitted}) \<or> (r = COMMITTED_RECORD \<and> s = RecoveryCommitted)
      \<or> (r = ROLLED_BACK_RECORD \<and> s = RecoveryRolledBack)
      \<or> (r = FAILED_EXECUTABLE \<and> s \<in> {RecoveryRollbackHandoff, RecoveryRollingBack, RecoveryRolledBack})" for r s
    by (cases s) (auto simp: recovery_inventory_def)
  ultimately have "\<forall>r \<in> {REPLACED_RECORD, VERIFIED_RECORD, COMMITTED_RECORD, ROLLED_BACK_RECORD, FAILED_EXECUTABLE}.
      r \<in> set (recovery_inventory p) \<longleftrightarrow> r \<in> set (recovery_inventory q)" by blast
  then show "same_inventory p q"
    by (cases p; cases q) (simp_all add: recovery_inventory_def record_names same_inventory_def)
next
  assume "same_inventory p q"
  then show "sort (recovery_inventory p) = sort (recovery_inventory q)"
    by (cases p; cases q) (auto simp: same_inventory_def recovery_inventory_def)
qed

text \<open>C34: 
  Recovery detects a phase exactly when the operation directory holds that phase's inventory and nothing else
  and the executables found are that phase's; no directory is classified in two ways.
\<close>

theorem classification_is_exact:
  "classify_operation observed installed failed = Inr d \<longleftrightarrow>
     observed = sort (recovery_inventory (recovery_phase d)) \<and> executables_of d = (installed, failed)"
proof -
  have "matches_inventory (sort (recovery_inventory p)) q \<longleftrightarrow> same_inventory p q" for p q
    by (simp add: matches_inventory_def inventory_inj)
  note known = this[unfolded same_inventory_def]
  show ?thesis
  proof (cases "observed = sort (recovery_inventory (recovery_phase d))")
    case True
    show ?thesis
      by (cases d; cases installed; cases failed)
        (simp_all add: classify_operation_def True known)
  next
    case False
    then have "classify_operation observed installed failed \<noteq> Inr d"
      by (cases d) (auto simp: classify_operation_def matches_inventory_def)
    then show ?thesis using False by simp
  qed
qed

section \<open>Journal order\<close>

lemma all_install_phases: "(\<forall>p. P p) \<longleftrightarrow> P PhaseReplaced \<and> P PhaseVerified \<and> P PhaseCommitted \<and> P PhaseRolledBack"
  by (metis install_phase.exhaust)

lemma some_install_phase: "(\<exists>p. P p) \<longleftrightarrow> P PhaseReplaced \<or> P PhaseVerified \<or> P PhaseCommitted \<or> P PhaseRolledBack"
proof
  assume "\<exists>p. P p"
  then obtain p where "P p" by blast
  then show "P PhaseReplaced \<or> P PhaseVerified \<or> P PhaseCommitted \<or> P PhaseRolledBack" by (cases p) simp_all
qed blast

lemma phase_sets: "(A :: install_phase set) = B \<longleftrightarrow> (PhaseReplaced \<in> A \<longleftrightarrow> PhaseReplaced \<in> B)
    \<and> (PhaseVerified \<in> A \<longleftrightarrow> PhaseVerified \<in> B) \<and> (PhaseCommitted \<in> A \<longleftrightarrow> PhaseCommitted \<in> B)
    \<and> (PhaseRolledBack \<in> A \<longleftrightarrow> PhaseRolledBack \<in> B)"
  unfolding set_eq_iff all_install_phases ..

lemma bounded_unique_iff: "is_bounded_unique_set ps \<longleftrightarrow> distinct ps"
proof -
  have unique: "list_all (\<lambda>i. ps ! i \<notin> set (take i ps)) [0..<length ps] \<longleftrightarrow> distinct ps"
  proof (induction ps rule: rev_induct)
    case (snoc p ps)
    have "list_all (\<lambda>i. (ps @ [p]) ! i \<notin> set (take i (ps @ [p]))) [0..<length ps]
        = list_all (\<lambda>i. ps ! i \<notin> set (take i ps)) [0..<length ps]"
      by (auto simp: list_all_iff nth_append)
    then show ?case using snoc.IH by (auto simp: nth_append)
  qed simp
  have "length ps \<le> 4" if "distinct ps"
  proof -
    have "set ps \<subseteq> set all_phases" using all_install_phases[of "\<lambda>p. p \<in> set all_phases"] by (auto simp: all_phases_def)
    then have "card (set ps) \<le> card (set all_phases)" by (intro card_mono) simp_all
    then show ?thesis using distinct_card[OF that] by (simp add: all_phases_def)
  qed
  then show ?thesis by (auto simp: is_bounded_unique_set_def unique all_phases_def)
qed

text \<open>
  The table of the leaves that may lie beside each detected phase: nothing beside a prepared or a committed
  operation; the next marker of an unfinished step; and, once the prior application is being restored, what
  the operation had verified or committed before, one step at a time.
\<close>

fun leaves_allowed :: "detected_install_phase \<Rightarrow> install_phase set \<Rightarrow> install_phase set \<Rightarrow> bool" where
  "leaves_allowed DetectedPrepared prior pending = (prior = {} \<and> pending = {})"
| "leaves_allowed DetectedCommitted prior pending = (prior = {} \<and> pending = {})"
| "leaves_allowed DetectedReplacedUnrecorded prior pending = (prior = {} \<and> pending \<in> {{}, {PhaseReplaced}})"
| "leaves_allowed DetectedReplaced prior pending = (prior = {} \<and> pending \<in> {{}, {PhaseVerified}})"
| "leaves_allowed DetectedVerified prior pending = (prior = {} \<and> pending \<in> {{}, {PhaseCommitted}})"
| "leaves_allowed d prior pending =
     ((PhaseRolledBack \<in> pending \<longrightarrow> d = DetectedRollingBack)
      \<and> (if prior = {} then pending - {PhaseRolledBack} \<in> {{}, {PhaseVerified}}
         else if prior = {PhaseVerified} then pending - {PhaseRolledBack} \<in> {{}, {PhaseCommitted}}
         else if prior = {PhaseVerified, PhaseCommitted} then pending - {PhaseRolledBack} = {}
         else False))"

text \<open>C33: 
  The journal order check accepts exactly the leaves of the table, given in any order but none twice; every
  other combination is left to recovery.
\<close>

theorem journal_order_is_the_table:
  "require_journal_order d pending prior = Inr () \<longleftrightarrow>
     distinct pending \<and> distinct prior \<and> leaves_allowed d (set prior) (set pending)"
proof -
  have each: "list_ex Q ps \<longleftrightarrow> (PhaseReplaced \<in> set ps \<and> Q PhaseReplaced) \<or> (PhaseVerified \<in> set ps \<and> Q PhaseVerified)
      \<or> (PhaseCommitted \<in> set ps \<and> Q PhaseCommitted) \<or> (PhaseRolledBack \<in> set ps \<and> Q PhaseRolledBack)" for Q ps
    unfolding list_ex_iff Bex_def some_install_phase ..
  have table: "leaves_allowed d A B \<longleftrightarrow> (
      if is_restored d then
        (PhaseRolledBack \<in> B \<longrightarrow> d = DetectedRollingBack) \<and> PhaseReplaced \<notin> A \<and> PhaseRolledBack \<notin> A \<and> PhaseReplaced \<notin> B
        \<and> (PhaseCommitted \<in> A \<longrightarrow> PhaseVerified \<in> A) \<and> (PhaseVerified \<in> B \<longrightarrow> PhaseVerified \<notin> A)
        \<and> (PhaseCommitted \<in> B \<longrightarrow> PhaseVerified \<in> A \<and> PhaseCommitted \<notin> A)
      else PhaseReplaced \<notin> A \<and> PhaseVerified \<notin> A \<and> PhaseCommitted \<notin> A \<and> PhaseRolledBack \<notin> A \<and> PhaseRolledBack \<notin> B
        \<and> (PhaseReplaced \<in> B \<longrightarrow> d = DetectedReplacedUnrecorded) \<and> (PhaseVerified \<in> B \<longrightarrow> d = DetectedReplaced)
        \<and> (PhaseCommitted \<in> B \<longrightarrow> d = DetectedVerified))" for A B
  proof (cases "is_restored d")
    case True
    then have "leaves_allowed d A B \<longleftrightarrow> (PhaseRolledBack \<in> B \<longrightarrow> d = DetectedRollingBack)
      \<and> (if A = {} then B - {PhaseRolledBack} \<in> {{}, {PhaseVerified}}
         else if A = {PhaseVerified} then B - {PhaseRolledBack} \<in> {{}, {PhaseCommitted}}
         else if A = {PhaseVerified, PhaseCommitted} then B - {PhaseRolledBack} = {} else False)"
      by (cases d) (simp_all only: leaves_allowed.simps is_restored_def, simp_all)
    also have "\<dots> \<longleftrightarrow> (PhaseRolledBack \<in> B \<longrightarrow> d = DetectedRollingBack) \<and> PhaseReplaced \<notin> A \<and> PhaseRolledBack \<notin> A
        \<and> PhaseReplaced \<notin> B \<and> (PhaseCommitted \<in> A \<longrightarrow> PhaseVerified \<in> A) \<and> (PhaseVerified \<in> B \<longrightarrow> PhaseVerified \<notin> A)
        \<and> (PhaseCommitted \<in> B \<longrightarrow> PhaseVerified \<in> A \<and> PhaseCommitted \<notin> A)"
      unfolding phase_sets insert_iff empty_iff Diff_iff
      by (cases "PhaseReplaced \<in> A"; cases "PhaseVerified \<in> A"; cases "PhaseCommitted \<in> A"; cases "PhaseRolledBack \<in> A";
          cases "PhaseVerified \<in> B"; simp) blast+
    finally show ?thesis using True by simp
  next
    case False
    then show ?thesis by (cases d) (simp_all add: is_restored_def phase_sets, blast+)
  qed
  show ?thesis
    unfolding require_journal_order_def Let_def bounded_unique_iff each table
    by (cases d; simp add: misplaced_pending_def complete_phase_def is_restored_def; blast)
qed

section \<open>Phase records\<close>

lemma encode_hex_lower: "is_lower_hex (encode_hex s) (2 * length s)"
proof -
  have digits: "byte b div 16 < 16" for b
    by (rule less_mult_imp_div_less) (use nat_of_char_less_256[of b] in simp)
  have "length (encode_hex s) = 2 * length s" by (induction s) (simp_all add: encode_hex_def)
  moreover have "list_all lower_hex_digit (encode_hex s)"
    by (induction s) (simp_all add: encode_hex_def hex_digit_lower digits)
  ultimately show ?thesis by (simp add: is_lower_hex_def)
qed

text \<open>
  A phase record the installer makes and writes loads back as itself, for a hash of 32 bytes, an executable
  digest of 32 bytes, a valid identity, a named operation and a record no longer than the bound; and no other
  bytes load as that record.
\<close>

theorem phase_records_reload:
  assumes "phase_record_new sha256 phase prepared installed digest = Inr r"
    and "phase_record_to_json c r = Inr s"
    and "pc_parse c s = Some r"
    and "\<forall>x. length (sha256 x) = 32" "length digest = 32" "native_identity_is_valid installed"
    and "pv_operation_id prepared \<noteq> []" "s \<noteq> []" "length s \<le> MAX_PHASE_RECORD_BYTES"
  shows "parse_canonical c s = Inr r \<and> (\<forall>t. parse_canonical c t = Inr r \<longleftrightarrow> t = s)"
proof -
  have r: "ph_schema r = INSTALL_PHASE_RECORD_SCHEMA" "ph_operation_id r = pv_operation_id prepared"
    "\<exists>x. ph_prepared_record_sha256 r = encode_hex (sha256 x)" "ph_installed_identity r = installed"
    "ph_executable_sha256 r = encode_hex digest"
    using assms(1) by (auto simp: phase_record_new_def split: option.splits)
  have "is_lower_hex (ph_prepared_record_sha256 r) 64" "is_lower_hex (ph_executable_sha256 r) 64"
    using r(3,5) encode_hex_lower[of "sha256 _"] encode_hex_lower[of digest] assms(4,5) by auto
  then have "parse_canonical c s = Inr r"
    using assms r by (simp add: parse_canonical_def)
  moreover have "t = s" if "parse_canonical c t = Inr r" for t
    using that assms(2) by (auto simp: parse_canonical_def split: if_splits option.splits sum.splits)
  ultimately show ?thesis by blast
qed

end
