(* ===== verification/Known_Hosts.thy ===== *)
theory Known_Hosts
  imports Portable_Content
begin

text \<open>
  Verification of an SSH server key against a bounded \<open>known_hosts\<close> file, \<open>kitrove-core/src/ssh_known_hosts.rs\<close>.
  The key parser of the SSH library, base64 decoding and HMAC-SHA1 are parameters.
\<close>

section \<open>Limits and parameters\<close>

definition MAX_KNOWN_HOSTS_BYTES :: nat where "MAX_KNOWN_HOSTS_BYTES = 1024 * 1024"
definition MAX_KNOWN_HOSTS_LINE_BYTES :: nat where "MAX_KNOWN_HOSTS_LINE_BYTES = 16 * 1024"
definition MAX_KNOWN_HOSTS_ENTRIES :: nat where "MAX_KNOWN_HOSTS_ENTRIES = 4096"
definition MAX_HOSTS_PER_ENTRY :: nat where "MAX_HOSTS_PER_ENTRY = 32"
definition MAX_HOST_PATTERN_BYTES :: nat where "MAX_HOST_PATTERN_BYTES = 1024"
definition MAX_KEY_FIELD_BYTES :: nat where "MAX_KEY_FIELD_BYTES = 12 * 1024"

abbreviation known_hosts_limit :: string where "known_hosts_limit \<equiv> ''sync_backend.ssh_known_hosts_limit''"
abbreviation known_hosts_invalid :: string where "known_hosts_invalid \<equiv> ''sync_backend.ssh_known_hosts_invalid''"
abbreviation known_hosts_unsupported :: string where "known_hosts_unsupported \<equiv> ''sync_backend.ssh_known_hosts_unsupported''"
abbreviation known_hosts_ambiguous :: string where "known_hosts_ambiguous \<equiv> ''sync_backend.ssh_known_hosts_ambiguous''"
abbreviation known_hosts_changed :: string where "known_hosts_changed \<equiv> ''sync_backend.ssh_host_key_changed''"
abbreviation known_hosts_unknown :: string where "known_hosts_unknown \<equiv> ''sync_backend.ssh_host_unknown''"

record 'k host_key_library =
  hk_parse :: "string \<Rightarrow> 'k option"
  hk_algorithm :: "'k \<Rightarrow> string"
  hk_base64 :: "string \<Rightarrow> string option"
  hk_mac :: "string \<Rightarrow> string \<Rightarrow> string option"

section \<open>Host patterns\<close>

definition hashed_host_matches :: "'k host_key_library \<Rightarrow> string \<Rightarrow> string \<Rightarrow> bool result" where
  "hashed_host_matches lib pattern target = (case split_on CHR ''|'' pattern of
       first # one # salt # expected # rest \<Rightarrow>
         if first \<noteq> [] \<or> one \<noteq> ''1'' then Err known_hosts_invalid
         else if rest \<noteq> [] \<or> length salt > 256 \<or> length expected > 256 then Err known_hosts_invalid
         else bind_result (ok_or known_hosts_invalid (hk_base64 lib salt)) (\<lambda>salt.
              bind_result (ok_or known_hosts_invalid (hk_base64 lib expected)) (\<lambda>expected.
              if salt = [] \<or> length salt > 64 \<or> length expected \<noteq> 20 then Err known_hosts_invalid
              else bind_result (ok_or known_hosts_invalid (hk_mac lib salt target)) (\<lambda>mac. Ok (mac = expected))))
     | _ \<Rightarrow> Err known_hosts_invalid)"

definition is_host_wildcard :: "string \<Rightarrow> bool" where
  "is_host_wildcard pattern \<longleftrightarrow> list_ex (\<lambda>c. c \<in> set [CHR ''*'', CHR ''?'', CHR ''!'', CHR 0x5C]) pattern"

definition match_host_pattern :: "'k host_key_library \<Rightarrow> string \<Rightarrow> nat \<times> bool \<Rightarrow> string \<Rightarrow> (nat \<times> bool) result" where
  "match_host_pattern lib target state pattern = (case state of (count, matched) \<Rightarrow>
     if count + 1 > MAX_HOSTS_PER_ENTRY \<or> pattern = [] then Err known_hosts_limit
     else if starts_with ''|1|'' pattern then
       bind_result (hashed_host_matches lib pattern target) (\<lambda>m. Ok (count + 1, matched \<or> m))
     else if is_host_wildcard pattern then
       (if pattern = target then Err known_hosts_unsupported else Ok (count + 1, matched))
     else Ok (count + 1, matched \<or> pattern = target))"

definition host_list_matches :: "'k host_key_library \<Rightarrow> string \<Rightarrow> string \<Rightarrow> bool result" where
  "host_list_matches lib hosts target =
     bind_result (try_fold (match_host_pattern lib target) (0, False) (split_on CHR '','' hosts)) (\<lambda>state. Ok (snd state))"

section \<open>Entries\<close>

definition trim_ascii :: "string \<Rightarrow> string" where
  "trim_ascii s = rev (dropWhile is_ascii_whitespace (rev (dropWhile is_ascii_whitespace s)))"

definition split_ascii_whitespace :: "string \<Rightarrow> string list" where
  "split_ascii_whitespace s = filter (\<lambda>w. w \<noteq> []) (split_where is_ascii_whitespace s)"

text \<open>The key that an entry for the target records; \<open>None\<close> when the entry is for other hosts.\<close>

definition entry_key :: "'k host_key_library \<Rightarrow> string \<Rightarrow> string list \<Rightarrow> 'k option result" where
  "entry_key lib target line_fields =
     bind_result (case line_fields of [] \<Rightarrow> Err known_hosts_invalid
       | first # rest \<Rightarrow>
           if starts_with ''@'' first
           then (case rest of [] \<Rightarrow> Err known_hosts_invalid | hosts # rest' \<Rightarrow> Ok (True, hosts, rest'))
           else Ok (False, first, rest)) (\<lambda>(marked, hosts, rest).
     if length hosts > MAX_HOST_PATTERN_BYTES then Err known_hosts_limit
     else bind_result (host_list_matches lib hosts target) (\<lambda>matches_target.
     if \<not> matches_target then Ok None
     else if marked then Err known_hosts_unsupported
     else (case rest of
         algorithm # encoded_key # _ \<Rightarrow>
           if length algorithm > 128 \<or> length encoded_key > MAX_KEY_FIELD_BYTES then Err known_hosts_limit
           else bind_result (ok_or known_hosts_invalid (hk_parse lib encoded_key)) (\<lambda>recorded.
                if algorithm \<noteq> hk_algorithm lib recorded then Err known_hosts_invalid else Ok (Some recorded))
       | _ \<Rightarrow> Err known_hosts_invalid)))"

text \<open>One line: the entries counted so far, and the recorded key of the server's algorithm.\<close>

definition known_host_line ::
  "'k host_key_library \<Rightarrow> string \<Rightarrow> 'k \<Rightarrow> nat \<times> 'k option \<Rightarrow> string \<Rightarrow> (nat \<times> 'k option) result" where
  "known_host_line lib target server_key state raw_line = (case state of (entries, matching) \<Rightarrow>
     let raw_line = (case strip_suffix [CHR 0x0D] raw_line of Some s \<Rightarrow> s | None \<Rightarrow> raw_line) in
     if length raw_line > MAX_KNOWN_HOSTS_LINE_BYTES then Err known_hosts_limit
     else if \<not> is_text raw_line then Err known_hosts_invalid
     else let line = trim_ascii raw_line in
     if line = [] \<or> starts_with ''#'' line then Ok (entries, matching)
     else if entries + 1 > MAX_KNOWN_HOSTS_ENTRIES then Err known_hosts_limit
     else bind_result (entry_key lib target (split_ascii_whitespace line)) (\<lambda>recorded. case recorded of
         None \<Rightarrow> Ok (entries + 1, matching)
       | Some key \<Rightarrow>
           if hk_algorithm lib key \<noteq> hk_algorithm lib server_key then Ok (entries + 1, matching)
           else (case matching of
               None \<Rightarrow> Ok (entries + 1, Some key)
             | Some existing \<Rightarrow> if existing = key then Ok (entries + 1, matching) else Err known_hosts_ambiguous)))"

definition known_host_target :: "string \<Rightarrow> nat \<Rightarrow> string" where
  "known_host_target host port = (if port = 22 then host else ''['' @ host @ '']:'' @ show_nat port)"

definition verify_known_host_bytes :: "'k host_key_library \<Rightarrow> string \<Rightarrow> string \<Rightarrow> nat \<Rightarrow> 'k \<Rightarrow> unit result" where
  "verify_known_host_bytes lib bytes host port server_key =
     (if length bytes > MAX_KNOWN_HOSTS_BYTES \<or> \<not> list_all (\<lambda>c. byte c < 128) host \<or> host = [] then Err known_hosts_limit
      else bind_result (try_fold (known_host_line lib (known_host_target host port) server_key) (0, None)
             (split_on CHR 0x0A bytes)) (\<lambda>state. case snd state of
               Some recorded \<Rightarrow> if recorded = server_key then Ok () else Err known_hosts_changed
             | None \<Rightarrow> Err known_hosts_unknown))"

datatype read_only_file_error = FileMissing | FileUnsafe | FileLimit

definition verify_known_host_file ::
  "'k host_key_library \<Rightarrow> read_only_file_error + string \<Rightarrow> string \<Rightarrow> nat \<Rightarrow> 'k \<Rightarrow> unit result" where
  "verify_known_host_file lib read host port server_key = (case read of
       Inl FileMissing \<Rightarrow> Err ''sync_backend.ssh_known_hosts_missing''
     | Inl FileUnsafe \<Rightarrow> Err ''sync_backend.ssh_known_hosts_unsafe''
     | Inl FileLimit \<Rightarrow> Err known_hosts_limit
     | Inr bytes \<Rightarrow> verify_known_host_bytes lib bytes host port server_key)"

section \<open>Laws\<close>

text \<open>
  A server key is accepted exactly when every entry of the file that is for the target and for the key's
  algorithm records that very key, there is one, and no marked entry is for the target; but a marked entry
  whose host is a wildcard goes unseen.
\<close>

section \<open>The entries of a file\<close>

definition without_return :: "string \<Rightarrow> string" where
  "without_return raw = (case strip_suffix [CHR 0x0D] raw of Some s \<Rightarrow> s | None \<Rightarrow> raw)"










section \<open>Marked entries\<close>

text \<open>
  Which hosts a list of patterns names for OpenSSH: \<open>*\<close> stands for any text, \<open>?\<close> for any character, a hashed
  pattern for the host it was made from, and a pattern after \<open>!\<close> takes its hosts out of the list.
\<close>

primrec host_glob :: "string \<Rightarrow> string \<Rightarrow> bool" where
  "host_glob [] t \<longleftrightarrow> t = []"
| "host_glob (c # p) t \<longleftrightarrow> (if c = CHR ''*'' then list_ex (\<lambda>n. host_glob p (drop n t)) [0..<Suc (length t)]
     else t \<noteq> [] \<and> (c = CHR ''?'' \<or> c = hd t) \<and> host_glob p (tl t))"

definition pattern_names :: "'k host_key_library \<Rightarrow> string \<Rightarrow> string \<Rightarrow> bool" where
  "pattern_names lib target pattern \<longleftrightarrow>
     (if starts_with ''|1|'' pattern then hashed_host_matches lib pattern target = Ok True else host_glob pattern target)"

definition hosts_name :: "'k host_key_library \<Rightarrow> string \<Rightarrow> string \<Rightarrow> bool" where
  "hosts_name lib target hosts \<longleftrightarrow>
     list_ex (\<lambda>p. \<not> starts_with ''!'' p \<and> pattern_names lib target p) (split_on CHR '','' hosts)
     \<and> \<not> list_ex (\<lambda>p. starts_with ''!'' p \<and> pattern_names lib target (tl p)) (split_on CHR '','' hosts)"

text \<open>The hosts of an entry marked \<open>@revoked\<close> or \<open>@cert-authority\<close>, or with any other mark.\<close>

definition marked_hosts :: "string \<Rightarrow> string option" where
  "marked_hosts raw = (case split_ascii_whitespace (trim_ascii (without_return raw)) of
       mark # hosts # _ \<Rightarrow> if starts_with ''@'' mark then Some hosts else None
     | _ \<Rightarrow> None)"

definition marked_for :: "'k host_key_library \<Rightarrow> string \<Rightarrow> string \<Rightarrow> bool" where
  "marked_for lib target raw \<longleftrightarrow> (case marked_hosts raw of None \<Rightarrow> False | Some hosts \<Rightarrow> hosts_name lib target hosts)"







section \<open>Wildcard revocations\<close>

text \<open>
  The exception: a wildcard pattern other than the target itself never matches, not even in a marked entry: a
  line \<open>@revoked * ...\<close>, which revokes a key for every host, the target included, is passed over, and the same key
  in an entry for the host is accepted.
\<close>

definition sample_keys :: "string host_key_library" where
  "sample_keys = \<lparr>hk_parse = Some, hk_algorithm = (\<lambda>_. ''a''), hk_base64 = Some, hk_mac = (\<lambda>_ _. None)\<rparr>"

lemmas sample_verify_simps = verify_known_host_bytes_def known_host_target_def sample_keys_def
  known_host_line_def strip_suffix_def ends_with_def is_text_def utf8_tail_def trim_ascii_def without_return_def
  is_ascii_whitespace_def starts_with_def split_ascii_whitespace_def entry_key_def host_list_matches_def
  match_host_pattern_def is_host_wildcard_def MAX_KNOWN_HOSTS_BYTES_def MAX_KNOWN_HOSTS_LINE_BYTES_def
  MAX_KNOWN_HOSTS_ENTRIES_def MAX_HOSTS_PER_ENTRY_def MAX_HOST_PATTERN_BYTES_def MAX_KEY_FIELD_BYTES_def Let_def

definition revoked_everywhere :: string where
  "revoked_everywhere = ''@revoked * a K'' @ [CHR 0x0A] @ ''h a K''"

theorem wildcard_revocation_is_ignored:
  "verify_known_host_bytes sample_keys revoked_everywhere ''h'' 22 ''K'' = Ok ()
   \<and> list_ex (marked_for sample_keys (known_host_target ''h'' 22)) (split_on CHR 0x0A revoked_everywhere)
   \<and> verify_known_host_bytes sample_keys (''@revoked h a K'' @ [CHR 0x0A] @ ''h a K'') ''h'' 22 ''K''
       = Err known_hosts_unsupported"
  by (simp add: revoked_everywhere_def marked_for_def marked_hosts_def hosts_name_def pattern_names_def sample_verify_simps)



end
