(* ===== verification/Git_Remotes.thy ===== *)
theory Git_Remotes
  imports Sync_Records Known_Hosts
begin

text \<open>
  Canonical Git remotes, \<open>kitrove-core/src/git_remote.rs\<close>.  The URL parser of the \<open>url\<close> package is a parameter:
  what the code reads of a parsed URL is a view.
\<close>

section \<open>Parsed URLs\<close>

datatype url_host = HostDomain string | HostAddress

record url_view =
  uv_text :: string
  uv_scheme :: string
  uv_username :: string
  uv_password :: "string option"
  uv_query :: "string option"
  uv_fragment :: "string option"
  uv_port :: "nat option"
  uv_host :: "url_host option"
  uv_path :: string

type_synonym url_parser = "string \<Rightarrow> url_view option"

definition MAX_REMOTE_URL_BYTES :: nat where "MAX_REMOTE_URL_BYTES = 4096"
definition MAX_SSH_USERNAME_BYTES :: nat where "MAX_SSH_USERNAME_BYTES = 64"
definition DEFAULT_SSH_PORT :: nat where "DEFAULT_SSH_PORT = 22"

abbreviation https_url_invalid :: string where "https_url_invalid \<equiv> ''sync_backend.git_url_invalid''"
abbreviation ssh_url_invalid :: string where "ssh_url_invalid \<equiv> ''sync_backend.git_ssh_url_invalid''"

section \<open>The narrow grammar\<close>

definition is_ascii_control :: "char \<Rightarrow> bool" where
  "is_ascii_control c \<longleftrightarrow> byte c < 32 \<or> byte c = 127"

definition common_input_valid :: "string \<Rightarrow> bool" where
  "common_input_valid input \<longleftrightarrow> length input \<le> MAX_REMOTE_URL_BYTES \<and> list_all (\<lambda>c. byte c < 128) input
     \<and> \<not> list_ex (\<lambda>c. is_ascii_control c \<or> is_ascii_whitespace c) input
     \<and> \<not> list_ex (\<lambda>c. c = CHR ''%'' \<or> c = CHR 0x5C) input"

definition valid_dns_name :: "string \<Rightarrow> bool" where
  "valid_dns_name host \<longleftrightarrow> length host \<le> 253 \<and> list_all (\<lambda>label. label \<noteq> [] \<and> length label \<le> 63
       \<and> \<not> starts_with ''-'' label \<and> \<not> ends_with ''-'' label
       \<and> list_all (\<lambda>c. is_ascii_lowercase c \<or> is_ascii_digit c \<or> c = CHR ''-'') label) (split_on CHR ''.'' host)"

definition valid_canonical_host :: "string \<Rightarrow> bool" where
  "valid_canonical_host host \<longleftrightarrow> host \<noteq> [] \<and> \<not> ends_with ''.'' host \<and> host = map to_ascii_lowercase host
     \<and> \<not> list_all (\<lambda>c. is_ascii_digit c \<or> c = CHR ''.'') host \<and> valid_dns_name host"

definition valid_remote_path :: "string \<Rightarrow> bool \<Rightarrow> bool" where
  "valid_remote_path path allow_tilde \<longleftrightarrow> starts_with ''/'' path \<and> length path > 1 \<and> \<not> ends_with ''/'' path
     \<and> list_all (\<lambda>segment. segment \<noteq> [] \<and> segment \<noteq> ''.'' \<and> segment \<noteq> ''..''
         \<and> list_all (\<lambda>c. is_ascii_alphanumeric c \<or> c \<in> set [CHR ''.'', CHR ''_'', CHR ''-''] \<or> (allow_tilde \<and> c = CHR ''~'')) segment)
       (drop 1 (split_on CHR ''/'' path))"

definition valid_ssh_username :: "string \<Rightarrow> bool" where
  "valid_ssh_username username \<longleftrightarrow> username \<noteq> [] \<and> length username \<le> MAX_SSH_USERNAME_BYTES
     \<and> list_all (\<lambda>c. is_ascii_alphanumeric c \<or> c \<in> set [CHR ''.'', CHR ''_'', CHR ''-'']) username"

definition git_remote_key :: "(string \<Rightarrow> string) \<Rightarrow> string \<Rightarrow> string \<Rightarrow> string \<Rightarrow> string result" where
  "git_remote_key H domain input invalid =
     map_err invalid (remote_key_parse (''remote:blake3:'' @ H (domain @ input)))"

definition HTTPS_REMOTE_DOMAIN :: string where
  "HTTPS_REMOTE_DOMAIN = ''kitrove-git-sync-remote-v1'' @ [CHR 0x00]"

definition SSH_REMOTE_DOMAIN :: string where
  "SSH_REMOTE_DOMAIN = ''kitrove-git-ssh-remote-v1'' @ [CHR 0x00]"

section \<open>HTTPS remotes\<close>

record git_remote_url =
  gu_url :: string
  gu_origin :: string
  gu_remote_key :: string

definition domain_host :: "string \<Rightarrow> url_view \<Rightarrow> string result" where
  "domain_host invalid url = (case uv_host url of Some (HostDomain host) \<Rightarrow> Ok host | _ \<Rightarrow> Err invalid)"

definition git_remote_parse :: "url_parser \<Rightarrow> (string \<Rightarrow> string) \<Rightarrow> string \<Rightarrow> git_remote_url result" where
  "git_remote_parse parse_url H input =
     and_then (ensure (common_input_valid input) https_url_invalid)
     (bind_result (ok_or https_url_invalid (parse_url input)) (\<lambda>url.
      if uv_scheme url \<noteq> ''https'' \<or> uv_username url \<noteq> [] \<or> uv_password url \<noteq> None \<or> uv_query url \<noteq> None
         \<or> uv_fragment url \<noteq> None \<or> uv_port url \<noteq> None \<or> uv_text url \<noteq> input
      then Err https_url_invalid
      else bind_result (domain_host https_url_invalid url) (\<lambda>host.
      if \<not> valid_canonical_host host \<or> \<not> valid_remote_path (uv_path url) True then Err https_url_invalid
      else bind_result (git_remote_key H HTTPS_REMOTE_DOMAIN input https_url_invalid) (\<lambda>key.
        Ok \<lparr>gu_url = uv_text url, gu_origin = ''https://'' @ host, gu_remote_key = key\<rparr>))))"

definition service_url :: "url_parser \<Rightarrow> git_remote_url \<Rightarrow> string \<Rightarrow> string option \<Rightarrow> url_view result" where
  "service_url parse_url remote suffix query =
     ok_or https_url_invalid (parse_url (gu_url remote @ suffix
       @ (case query of Some q \<Rightarrow> ''?'' @ q | None \<Rightarrow> [])))"

section \<open>SSH remotes\<close>

datatype git_ssh_service = UploadPack | ReceivePack

fun git_service_name :: "git_ssh_service \<Rightarrow> string" where
  "git_service_name UploadPack = ''git-upload-pack''"
| "git_service_name ReceivePack = ''git-receive-pack''"

record ssh_git_remote_url =
  su_username :: "string option"
  su_host :: string
  su_port :: nat
  su_repository_path :: string
  su_remote_key :: string

definition ssh_username :: "string \<Rightarrow> string option result" where
  "ssh_username username = (if username = [] then Ok None
     else if valid_ssh_username username then Ok (Some username) else Err ssh_url_invalid)"

definition ssh_git_remote_parse :: "url_parser \<Rightarrow> (string \<Rightarrow> string) \<Rightarrow> string \<Rightarrow> ssh_git_remote_url result" where
  "ssh_git_remote_parse parse_url H input =
     and_then (ensure (common_input_valid input \<and> CHR ''~'' \<notin> set input) ssh_url_invalid)
     (bind_result (ok_or ssh_url_invalid (parse_url input)) (\<lambda>url.
      bind_result (ok_or ssh_url_invalid (map_option first_piece (strip_prefix ''ssh://'' input))) (\<lambda>authority.
      if uv_scheme url \<noteq> ''ssh'' \<or> uv_password url \<noteq> None \<or> uv_query url \<noteq> None \<or> uv_fragment url \<noteq> None
         \<or> uv_port url \<in> {Some 0, Some DEFAULT_SSH_PORT} \<or> (starts_with ''@'' authority \<and> uv_username url = [])
         \<or> uv_text url \<noteq> input
      then Err ssh_url_invalid
      else bind_result (domain_host ssh_url_invalid url) (\<lambda>host.
      if \<not> valid_canonical_host host \<or> \<not> valid_remote_path (uv_path url) False then Err ssh_url_invalid
      else bind_result (ssh_username (uv_username url)) (\<lambda>username.
      bind_result (git_remote_key H SSH_REMOTE_DOMAIN input ssh_url_invalid) (\<lambda>key.
        Ok \<lparr>su_username = username, su_host = host,
            su_port = (case uv_port url of Some p \<Rightarrow> p | None \<Rightarrow> DEFAULT_SSH_PORT),
            su_repository_path = uv_path url, su_remote_key = key\<rparr>))))))"

definition service_command :: "ssh_git_remote_url \<Rightarrow> git_ssh_service \<Rightarrow> string" where
  "service_command remote service = git_service_name service @ '' '' @ [CHR 0x27] @ su_repository_path remote @ [CHR 0x27]"

section \<open>Laws\<close>


text \<open>
  What the narrow grammar of SSH remotes is for: the repository path cannot leave its quotes in the service
  command, and two remotes share the entries of \<open>known_hosts\<close> only when they name the same host and port.
\<close>

lemma valid_remote_path_chars:
  assumes "valid_remote_path path False"
  shows "list_all (\<lambda>c. is_ascii_alphanumeric c \<or> c \<in> set [CHR ''.'', CHR ''_'', CHR ''-'', CHR ''/'']) path"
    and "\<exists>segments. segments \<noteq> [] \<and> path = ''/'' @ join_with ''/'' segments
      \<and> list_all (\<lambda>s. s \<noteq> [] \<and> s \<noteq> ''.'' \<and> s \<noteq> ''..'' \<and> CHR ''/'' \<notin> set s) segments"
proof -
  obtain rest where path: "path = CHR ''/'' # rest" using assms by (auto simp: valid_remote_path_def starts_with_iff)
  have rest: "drop 1 (split_on CHR ''/'' path) = split_on CHR ''/'' rest" by (simp add: path)
  note segments = assms[unfolded valid_remote_path_def rest]
  have join: "rest = join_with ''/'' (split_on CHR ''/'' rest)" by simp
  have chars: "c \<in> set rest \<Longrightarrow> c = CHR ''/'' \<or> (\<exists>s \<in> set (split_on CHR ''/'' rest). c \<in> set s)" for c
  proof (induction rest)
    case (Cons x xs)
    then show ?case by (cases "split_on CHR ''/'' xs") auto
  qed simp
  have "is_ascii_alphanumeric c \<or> c \<in> set [CHR ''.'', CHR ''_'', CHR ''-'', CHR ''/'']" if c: "c \<in> set rest" for c
    using chars[OF c] segments by (auto simp: list_all_iff)
  then show "list_all (\<lambda>c. is_ascii_alphanumeric c \<or> c \<in> set [CHR ''.'', CHR ''_'', CHR ''-'', CHR ''/'']) path"
    by (simp add: path list_all_iff)
  have "list_all (\<lambda>s. s \<noteq> [] \<and> s \<noteq> ''.'' \<and> s \<noteq> ''..'' \<and> CHR ''/'' \<notin> set s) (split_on CHR ''/'' rest)"
    using segments split_on_pieces[of _ "CHR ''/''" rest] by (auto simp: list_all_iff)
  then show "\<exists>segments. segments \<noteq> [] \<and> path = ''/'' @ join_with ''/'' segments
      \<and> list_all (\<lambda>s. s \<noteq> [] \<and> s \<noteq> ''.'' \<and> s \<noteq> ''..'' \<and> CHR ''/'' \<notin> set s) segments"
    using join path by (intro exI[of _ "split_on CHR ''/'' rest"]) simp
qed

lemma valid_host_chars:
  assumes "valid_canonical_host host" "c \<in> set host"
  shows "is_ascii_lowercase c \<or> is_ascii_digit c \<or> c = CHR ''-'' \<or> c = CHR ''.''"
proof -
  have "c \<in> set h \<Longrightarrow> c = CHR ''.'' \<or> (\<exists>s \<in> set (split_on CHR ''.'' h). c \<in> set s)" for h
  proof (induction h)
    case (Cons x xs)
    then show ?case by (cases "split_on CHR ''.'' xs") auto
  qed simp
  then show ?thesis using assms by (auto simp: valid_canonical_host_def valid_dns_name_def list_all_iff)
qed

lemma valid_host_plain:
  assumes "valid_canonical_host host"
  shows "CHR ''['' \<notin> set host" "CHR '']'' \<notin> set host"
  using valid_host_chars[OF assms, of "CHR ''[''"] valid_host_chars[OF assms, of "CHR '']''"]
  by (auto simp: is_ascii_lowercase_def is_ascii_digit_def)

lemma known_host_target_inj:
  assumes "valid_canonical_host h" "valid_canonical_host h'" "known_host_target h p = known_host_target h' p'"
  shows "h = h' \<and> p = p'"
proof -
  note plain = valid_host_plain[OF assms(1)] valid_host_plain[OF assms(2)]
  have mixed: "h \<noteq> CHR ''['' # x" "h' \<noteq> CHR ''['' # x" for x using plain by auto
  have "h = h' \<and> p = p'" if eq: "''['' @ h @ '']:'' @ show_nat p = ''['' @ h' @ '']:'' @ show_nat p'"
  proof -
    have cut: "h @ CHR '']'' # ('':'' @ show_nat p) = h' @ CHR '']'' # ('':'' @ show_nat p')" using eq by simp
    have "split_once CHR '']'' (x @ CHR '']'' # y) = Some (x, y)" if "CHR '']'' \<notin> set x" for x y
      using that by (simp only: split_once_Some_iff simp_thms)
    then have "h = h'" "'':'' @ show_nat p = '':'' @ show_nat p'" using cut plain by (metis option.inject prod.inject)+
    then have "h = h'" "show_nat p = show_nat p'" by simp_all
    then show ?thesis using show_nat_inject by blast
  qed
  then show ?thesis using assms(3) mixed by (auto simp: known_host_target_def split: if_splits)
qed

text \<open>C35: 
  An accepted SSH remote is safe to use: its path is an absolute path of plain segments, so the service command
  is the compiled command with one quoted operand that holds no quote and no space; and the name its server
  key is looked up under is shared only with remotes of the same host and port.
\<close>

theorem ssh_remotes_keep_to_their_host:
  assumes "ssh_git_remote_parse P H input = Ok r" and "ssh_git_remote_parse P H input' = Ok r'"
  shows "(\<exists>segments. segments \<noteq> []
        \<and> service_command r s = git_service_name s @ '' '' @ [CHR 0x27] @ ''/'' @ join_with ''/'' segments @ [CHR 0x27]
        \<and> list_all (\<lambda>t. t \<noteq> [] \<and> t \<noteq> ''.'' \<and> t \<noteq> ''..'' \<and> CHR ''/'' \<notin> set t) segments)
    \<and> CHR 0x27 \<notin> set (su_repository_path r) \<and> CHR '' '' \<notin> set (su_repository_path r)
    \<and> (known_host_target (su_host r) (su_port r) = known_host_target (su_host r') (su_port r')
        \<longleftrightarrow> su_host r = su_host r' \<and> su_port r = su_port r')"
proof -
  have parsed: "valid_canonical_host (su_host r) \<and> valid_remote_path (su_repository_path r) False"
    if "ssh_git_remote_parse P H input = Ok r" for input r
    using that by (auto simp: ssh_git_remote_parse_def result_simps split: if_splits)
  note path = valid_remote_path_chars[OF conjunct2[OF parsed[OF assms(1)]]]
  have "CHR 0x27 \<notin> set (su_repository_path r) \<and> CHR '' '' \<notin> set (su_repository_path r)"
    using path(1) by (auto simp: list_all_iff is_ascii_alphanumeric_def is_ascii_alphabetic_def is_ascii_lowercase_def
        is_ascii_uppercase_def is_ascii_digit_def)
  moreover have "\<exists>segments. segments \<noteq> []
        \<and> service_command r s = git_service_name s @ '' '' @ [CHR 0x27] @ ''/'' @ join_with ''/'' segments @ [CHR 0x27]
        \<and> list_all (\<lambda>t. t \<noteq> [] \<and> t \<noteq> ''.'' \<and> t \<noteq> ''..'' \<and> CHR ''/'' \<notin> set t) segments"
    using path(2) by (auto simp: service_command_def)
  moreover have "known_host_target (su_host r) (su_port r) = known_host_target (su_host r') (su_port r')
      \<longleftrightarrow> su_host r = su_host r' \<and> su_port r = su_port r'"
    using known_host_target_inj parsed[OF assms(1)] parsed[OF assms(2)] by metis
  ultimately show ?thesis by blast
qed

definition sample_remote_text :: string where
  "sample_remote_text = ''ssh://git@h.io:2222/a/b.git''"

definition sample_url_parser :: url_parser where
  "sample_url_parser text = (if text = sample_remote_text then Some \<lparr>uv_text = text, uv_scheme = ''ssh'', uv_username = ''git'',
     uv_password = None, uv_query = None, uv_fragment = None, uv_port = Some 2222,
     uv_host = Some (HostDomain ''h.io''), uv_path = ''/a/b.git''\<rparr> else None)"

definition sample_hex :: "string \<Rightarrow> string" where
  "sample_hex s = replicate 64 (CHR ''0'')"

definition sample_remote :: ssh_git_remote_url where
  "sample_remote = \<lparr>su_username = Some ''git'', su_host = ''h.io'', su_port = 2222,
     su_repository_path = ''/a/b.git'', su_remote_key = ''remote:blake3:'' @ replicate 64 (CHR ''0'')\<rparr>"

lemma sample_remote_parsed: "ssh_git_remote_parse sample_url_parser sample_hex sample_remote_text = Ok sample_remote"
proof -
  have key: "git_remote_key sample_hex d i e = Ok (''remote:blake3:'' @ replicate 64 (CHR ''0''))" for d i e
  proof -
    have "is_lower_hex (sample_hex s) 64" for s
      by (simp add: is_lower_hex_def sample_hex_def list_all_iff lower_hex_digit_def is_ascii_digit_def)
    then show ?thesis
      by (simp add: git_remote_key_def remote_key_parse_def qualified_digest_parse_def strip_prefix_def starts_with_def
          sample_hex_def)
  qed
  have valid: "common_input_valid sample_remote_text" "CHR ''~'' \<notin> set sample_remote_text"
    "valid_canonical_host ''h.io''" "valid_remote_path ''/a/b.git'' False" "valid_ssh_username ''git''"
    "strip_prefix ''ssh://'' sample_remote_text = Some ''git@h.io:2222/a/b.git''"
    by (simp_all add: common_input_valid_def sample_remote_text_def MAX_REMOTE_URL_BYTES_def is_ascii_control_def
        is_ascii_whitespace_def valid_canonical_host_def valid_dns_name_def to_ascii_lowercase_def is_ascii_uppercase_def
        is_ascii_lowercase_def is_ascii_digit_def starts_with_def ends_with_def valid_remote_path_def
        is_ascii_alphanumeric_def is_ascii_alphabetic_def valid_ssh_username_def MAX_SSH_USERNAME_BYTES_def strip_prefix_def)
  show ?thesis
    by (simp add: ssh_git_remote_parse_def valid sample_url_parser_def sample_remote_def domain_host_def key
        ssh_username_def first_piece_def starts_with_def DEFAULT_SSH_PORT_def)
qed

theorem ssh_remotes_keep_to_their_host_witness:
  "service_command sample_remote UploadPack = ''git-upload-pack '' @ [CHR 0x27] @ ''/a/b.git'' @ [CHR 0x27]
   \<and> CHR 0x27 \<notin> set (su_repository_path sample_remote)"
  using ssh_remotes_keep_to_their_host[OF sample_remote_parsed sample_remote_parsed]
  by (simp add: service_command_def sample_remote_def)

end
