(* ===== verification/Guarded_Control.thy ===== *)
theory Guarded_Control
  imports Guarded_Journals
begin

text \<open>
  \<open>kitrove-core/src/guarded_control.rs\<close>: what an interrupted guarded replacement of one control file has left,
  judged by the content hashes of the old and the new text, and its reconciliation.
\<close>

datatype guarded_control_state =
  StableControl "string option" | RestoreBackup "string option" | RemoveBackup "string option" | RemoveDuplicateStaging string

fun into_effective_text :: "guarded_control_state \<Rightarrow> string option" where
  "into_effective_text (StableControl text) = text"
| "into_effective_text (RestoreBackup text) = text"
| "into_effective_text (RemoveBackup text) = text"
| "into_effective_text (RemoveDuplicateStaging text) = Some text"

record expected_control =
  ec_old_hash :: "string option"
  ec_new_hash :: string
  ec_accept_duplicate_new :: bool

definition classify_control ::
  "(string \<Rightarrow> string) \<Rightarrow> string option \<Rightarrow> string option \<Rightarrow> string option \<Rightarrow> expected_control \<Rightarrow> guarded_control_state option" where
  "classify_control H backup destination staging expected =
     (let destination_hash = map_option (content_hash_digest H) destination;
          staging_hash = map_option (content_hash_digest H) staging in
      case backup of
        Some text \<Rightarrow>
          if ec_old_hash expected \<noteq> Some (content_hash_digest H text) then None
          else (case destination_hash of
              None \<Rightarrow> if staging_hash = Some (ec_new_hash expected) then Some (RestoreBackup (Some text)) else None
            | Some current \<Rightarrow> if Some current = ec_old_hash expected \<or> current = ec_new_hash expected
                then Some (RemoveBackup destination) else None)
      | None \<Rightarrow> (case destination of
            Some text \<Rightarrow>
              if ec_accept_duplicate_new expected \<and> destination_hash = Some (ec_new_hash expected)
                 \<and> staging_hash = Some (ec_new_hash expected) then Some (RemoveDuplicateStaging text)
              else if destination_hash = Some (ec_new_hash expected) \<and> staging = None then Some (StableControl destination)
              else if destination_hash = Some (ec_new_hash expected) \<and> staging \<noteq> None \<and> staging_hash = ec_old_hash expected
                then Some (StableControl destination)
              else if destination_hash = ec_old_hash expected \<and> staging_hash = Some (ec_new_hash expected)
                then Some (StableControl destination)
              else None
          | None \<Rightarrow>
              if ec_old_hash expected = None \<and> staging_hash = Some (ec_new_hash expected) then Some (StableControl None)
              else None))"

definition inspect_control_state ::
  "(string \<Rightarrow> string) \<Rightarrow> string \<Rightarrow> string \<Rightarrow> expected_control \<Rightarrow> nat \<Rightarrow> string
   \<Rightarrow> (guarded_journal_error, string \<times> guarded_control_state) effect" where
  "inspect_control_state H staging_path destination_path expected max_bytes invalid =
     bind_effect (storage (returning (guarded_backup_path staging_path))) (\<lambda>backup_path.
     bind_effect (storage (read_text backup_path max_bytes)) (\<lambda>backup.
     bind_effect (storage (read_text destination_path max_bytes)) (\<lambda>destination.
     bind_effect (storage (read_text staging_path max_bytes)) (\<lambda>staging.
       case classify_control H backup destination staging expected of
         None \<Rightarrow> authority (Err invalid) | Some state \<Rightarrow> succeeding (backup_path, state)))))"

definition inspect_control ::
  "(string \<Rightarrow> string) \<Rightarrow> bool \<Rightarrow> string \<Rightarrow> string \<Rightarrow> string option \<Rightarrow> string \<Rightarrow> nat \<Rightarrow> string
   \<Rightarrow> (guarded_journal_error, string option) effect" where
  "inspect_control H accept_duplicate_new staging_path destination_path old_hash new_hash max_bytes invalid =
     bind_effect (inspect_control_state H staging_path destination_path
         \<lparr>ec_old_hash = old_hash, ec_new_hash = new_hash, ec_accept_duplicate_new = accept_duplicate_new\<rparr> max_bytes invalid)
       (\<lambda>(_, state). succeeding (into_effective_text state))"

definition reconcile_control ::
  "(string \<Rightarrow> string) \<Rightarrow> bool \<Rightarrow> string \<Rightarrow> string \<Rightarrow> string option \<Rightarrow> string \<Rightarrow> nat \<Rightarrow> string
   \<Rightarrow> (guarded_journal_error, unit) effect" where
  "reconcile_control H accept_duplicate_new staging_path destination_path old_hash new_hash max_bytes invalid =
     bind_effect (inspect_control_state H staging_path destination_path
         \<lparr>ec_old_hash = old_hash, ec_new_hash = new_hash, ec_accept_duplicate_new = accept_duplicate_new\<rparr> max_bytes invalid)
       (\<lambda>(backup_path, state). case state of
           StableControl _ \<Rightarrow> succeeding ()
         | RestoreBackup _ \<Rightarrow> storage (restore_guarded_backup backup_path destination_path max_bytes)
         | RemoveBackup _ \<Rightarrow> storage (remove_regular_file_if_present backup_path)
         | RemoveDuplicateStaging _ \<Rightarrow> storage (remove_regular_file_if_present staging_path))"

end
