(* ===== verification/Base_Pointers.thy ===== *)
theory Base_Pointers
  imports Guarded_Control Sync_Journals
begin

text \<open>
  The pointer that selects the retained synchronization base, \<open>kitrove-core/src/sync_base_store.rs\<close>: its path and
  text, reading it, replacing it when a generation has been installed, and clearing what an interrupted
  replacement left.  The JSON codec of the pointer is a parameter.
\<close>

record pointer_codec =
  pj_encode :: "sync_base_pointer \<Rightarrow> string"
  pj_decode :: "string \<Rightarrow> sync_base_pointer option"

definition base_path :: "string \<Rightarrow> string result" where
  "base_path text = map_err ''sync.base_invalid'' (portable_path_parse text)"

definition pointer_path :: "string \<Rightarrow> string result" where
  "pointer_path remote = base_path (''sync/'' @ last_colon_piece remote @ ''/base-current.json'')"

definition pointer_stage_path :: "string \<Rightarrow> string \<Rightarrow> string result" where
  "pointer_stage_path remote plan =
     base_path (''sync/'' @ last_colon_piece remote @ ''/staging/'' @ last_colon_piece plan @ ''/base-current.json'')"

definition generation_path :: "string \<Rightarrow> string \<Rightarrow> string result" where
  "generation_path remote generation =
     base_path (''sync/'' @ last_colon_piece remote @ ''/bases/'' @ last_colon_piece generation)"

definition base_staging_path :: "string \<Rightarrow> string \<Rightarrow> string result" where
  "base_staging_path remote plan =
     base_path (''sync/'' @ last_colon_piece remote @ ''/staging/'' @ last_colon_piece plan @ ''/base'')"

definition pointer_text :: "pointer_codec \<Rightarrow> string \<Rightarrow> string \<Rightarrow> string" where
  "pointer_text c remote generation = sync_base_pointer_to_json (pj_encode c) (sync_base_pointer_new remote generation)"

abbreviation base_invalid :: "(failure, 'a) effect \<Rightarrow> (failure, 'a) effect" where
  "base_invalid \<equiv> map_effect_err (\<lambda>_. Failure ''sync.base_invalid'')"

abbreviation base_stale :: "(failure, 'a) effect \<Rightarrow> (failure, 'a) effect" where
  "base_stale \<equiv> map_effect_err (\<lambda>_. Failure ''sync.base_stale'')"

text \<open>The selected generation, as \<open>inspect\<close> and \<open>has_selected_base\<close> read it; \<open>limit\<close> is \<open>control_limit\<close>.\<close>

definition selected_generation :: "pointer_codec \<Rightarrow> string \<Rightarrow> sync_limits \<Rightarrow> nat \<Rightarrow> (failure, string option) effect" where
  "selected_generation c remote limits limit =
     bind_effect (returning (pointer_path remote)) (\<lambda>path.
     bind_effect (base_invalid (read_text path limit)) (\<lambda>text. case text of
         None \<Rightarrow> succeeding None
       | Some json \<Rightarrow>
           bind_effect (returning (map_err ''sync.base_invalid''
               (sync_base_pointer_from_json (pj_encode c) (pj_decode c) json limits))) (\<lambda>pointer.
             if sp_remote_key pointer \<noteq> remote then failing ''sync.base_invalid''
             else succeeding (Some (sp_generation pointer)))))"

definition has_selected_base :: "pointer_codec \<Rightarrow> string \<Rightarrow> sync_limits \<Rightarrow> nat \<Rightarrow> (failure, bool) effect" where
  "has_selected_base c remote limits limit =
     bind_effect (selected_generation c remote limits limit) (\<lambda>generation. succeeding (generation \<noteq> None))"

text \<open>The last step of \<open>commit\<close>: the pointer is replaced while it still selects the generation read before.\<close>

definition replace_pointer ::
  "bool \<Rightarrow> pointer_codec \<Rightarrow> string \<Rightarrow> string option \<Rightarrow> string \<Rightarrow> string \<Rightarrow> nat \<Rightarrow> (failure, unit) effect" where
  "replace_pointer exchange_supported c remote current generation plan limit =
     bind_effect (returning (pointer_stage_path remote plan)) (\<lambda>staging.
     bind_effect (returning (pointer_path remote)) (\<lambda>path.
       base_stale (replace_text_atomically_guarded exchange_supported staging path
         (map_option (pointer_text c remote) current) (pointer_text c remote generation) limit)))"

definition reconcile_interrupted_pointer ::
  "(string \<Rightarrow> string) \<Rightarrow> pointer_codec \<Rightarrow> string \<Rightarrow> string option \<Rightarrow> string \<Rightarrow> string \<Rightarrow> nat \<Rightarrow> (failure, unit) effect" where
  "reconcile_interrupted_pointer H c remote expected_prior proposed plan limit =
     bind_effect (returning (pointer_stage_path remote plan)) (\<lambda>staging.
     bind_effect (base_invalid (returning (guarded_backup_path staging))) (\<lambda>backup.
     bind_effect (base_invalid (read_text staging limit)) (\<lambda>staged_text.
     bind_effect (base_invalid (read_text backup limit)) (\<lambda>backup_text.
     if staged_text = None \<and> backup_text = None then succeeding ()
     else let old_text = map_option (pointer_text c remote) expected_prior;
              new_text = pointer_text c remote proposed in
     bind_effect (returning (pointer_path remote)) (\<lambda>destination.
     bind_effect (base_invalid (read_text destination limit)) (\<lambda>destination_text.
     let known_backup_shape = (destination_text = None \<and> staged_text = Some new_text)
           \<or> (destination_text = Some new_text \<and> staged_text = None);
         displaced_old = backup_text = None \<and> destination_text = Some new_text \<and> staged_text = old_text in
     if backup_text \<noteq> None \<and> \<not> known_backup_shape then failing ''sync.base_stale''
     else bind_effect (map_effect_err (\<lambda>e. case e of Storage \<Rightarrow> Failure ''sync.base_invalid'' | Authority f \<Rightarrow> f)
         (reconcile_control H True staging destination (map_option (content_hash_digest H) old_text)
           (content_hash_digest H new_text) limit ''sync.base_stale'')) (\<lambda>_.
       if displaced_old then base_invalid (remove_regular_file_if_present staging) else succeeding ())))))))"

end
