(* ===== verification/Base_Pointer_Laws.thy ===== *)
theory Base_Pointer_Laws
  imports Base_Pointers Guarded_Laws
begin

text \<open>
  The pointer of the retained base survives interruptions: whatever a crash leaves, unless the staged file
  itself was torn, clearing it and replacing the pointer again selects the new generation.
\<close>

section \<open>Runs\<close>

lemma passes_map_err:
  "passes m s ss (Inr x) \<Longrightarrow> passes (map_effect_err f m) s ss (Inr x)"
  by (auto simp: passes_def map_effect_err_def)

lemma map_err_returning [simp]: "map_effect_err f (returning (Inr x)) = returning (Inr x)"
  by (simp add: map_effect_err_def returning_def fun_eq_iff)

lemma passes_map_err_read_bind:
  assumes "\<And>t. s p = Some t \<Longrightarrow> readable max_bytes t" "passes (k (s p)) s ts r"
  shows "passes (bind_effect (map_effect_err f (read_text p max_bytes)) k) s ts r"
proof -
  have "passes (read_text p max_bytes) s [] (Ok (s p))" using assms(1) by (auto intro!: passes_read split: option.split)
  from passes_map_err[OF this] show ?thesis by (rule passes_bind) (use assms(2) in auto)
qed

text \<open>The shapes an interrupted replacement of \<open>old\<close> by \<open>new\<close> can leave: pointer, staged file and backup.\<close>

definition pointer_shapes :: "string option \<Rightarrow> string \<Rightarrow> (string option \<times> string option \<times> string option) set" where
  "pointer_shapes old new = {(old, None, None), (old, Some new, None), (Some new, None, None), (Some new, Some new, None)}
     \<union> (case old of None \<Rightarrow> {} | Some t \<Rightarrow> {(Some new, Some t, None), (None, Some new, Some t), (Some new, None, Some t)})"

definition settled_shapes :: "string option \<Rightarrow> string \<Rightarrow> (string option \<times> string option \<times> string option) set" where
  "settled_shapes old new = {(old, None, None), (old, Some new, None), (Some new, None, None)}"

definition with_shape :: "string \<Rightarrow> string \<Rightarrow> string \<Rightarrow> text_store \<Rightarrow> string option \<times> string option \<times> string option \<Rightarrow> text_store" where
  "with_shape live pending backup s = (\<lambda>(l, p, b). s(live := l, pending := p, backup := b))"

locale pointer_files =
  fixes valid :: bool and live pending backup :: string and limit :: nat and old :: "string option" and new :: string
  assumes files_if: "valid \<Longrightarrow> guarded_files live pending backup"
    and readable_old_if: "valid \<Longrightarrow> old = Some t \<Longrightarrow> readable limit t"
    and readable_new_if: "valid \<Longrightarrow> readable limit new"
    and changes_if: "valid \<Longrightarrow> old \<noteq> Some new"
begin

lemmas facts_if = guarded_files_facts[OF files_if]

abbreviation shaped :: "text_store \<Rightarrow> string option \<times> string option \<times> string option \<Rightarrow> text_store" where
  "shaped \<equiv> with_shape live pending backup"

lemma shape_at [simp]:
  assumes valid [simp]: valid
  shows "shaped s (l, p, b) live = l" "shaped s (l, p, b) pending = p" "shaped s (l, p, b) backup = b"
  using facts_if[OF valid] by (simp_all add: with_shape_def)

lemma shape_upd [simp]:
  assumes valid [simp]: valid
  shows "(shaped s (l, p, b))(live := x) = shaped s (x, p, b)" "(shaped s (l, p, b))(pending := x) = shaped s (l, x, b)"
  "(shaped s (l, p, b))(backup := x) = shaped s (l, p, x)"
  using facts_if[OF valid] by (auto simp: with_shape_def fun_eq_iff)

lemma shape_readable:
  assumes valid [simp]: valid
  shows "(l, p, b) \<in> pointer_shapes old new \<Longrightarrow> x \<in> {l, p, b} \<Longrightarrow> x = Some t \<Longrightarrow> readable limit t"
  using readable_old_if[OF valid] readable_new_if[OF valid] by (auto simp: pointer_shapes_def split: option.splits)

text \<open>Replacement from a settled shape, when the staged file is not torn.\<close>

definition untorn :: "('e, 'a) effect \<Rightarrow> text_store \<Rightarrow> text_store list \<Rightarrow> 'e + 'a \<Rightarrow> bool" where
  "untorn m s ss r \<longleftrightarrow> (\<forall>n. m None n s =
     (if n < length ss then Crashed ((s # ss) ! n) else Finished (n - length ss) (last (s # ss)) r))"

lemma untorn_passes: "passes m s ss r \<Longrightarrow> untorn m s ss r"
  by (simp add: passes_def untorn_def)

lemma install_shapes:
  assumes valid [simp]: valid and "s = shaped s0 (l, Some new, None)" "l = old \<or> l = Some new"
  shows "\<exists>ss. passes (install_staged_text_guarded ex pending live old new limit) s ss (Ok ())
    \<and> set ss \<subseteq> shaped s0 ` pointer_shapes old new \<and> last (s # ss) = shaped s0 (Some new, None, None)"
proof (cases "l = Some new")
  case True
  then have "passes (install_staged_text_guarded ex pending live old new limit) s [shaped s0 (Some new, None, None)] (Ok ())"
    using facts_if[OF valid] readable_new_if[OF valid] assms(2)
    unfolding install_staged_text_guarded_def install_staged_text_def
    by (intro passes_read_bind) (simp_all split del: if_split, (rule run_step | simp split del: if_split)+)
  then show ?thesis by (intro exI[of _ "[shaped s0 (Some new, None, None)]"]) (simp add: pointer_shapes_def)
next
  case False
  then have l: "l = old" using assms(3) by simp
  show ?thesis
  proof (cases old)
    case None
    then have "passes (install_staged_text_guarded ex pending live None new limit) s [shaped s0 (Some new, None, None)] (Ok ())"
      using passes_install_first[OF files_if[OF valid], of s new limit ex] assms(2) l readable_new_if[OF valid] by simp
    then show ?thesis using None by (intro exI[of _ "[shaped s0 (Some new, None, None)]"]) (simp add: pointer_shapes_def)
  next
    case (Some t)
    have at: "s live = Some t" "s pending = Some new" "s backup = None" using assms(2) l Some by simp_all
    have "t \<noteq> new" "readable limit t" using changes_if[OF valid] readable_old_if[OF valid] Some by auto
    note run = passes_install_exchange[OF files_if[OF valid] at this(2) readable_new_if[OF valid] this(1)]
      passes_install_backup[OF files_if[OF valid] at this(2) readable_new_if[OF valid] this(1)]
    show ?thesis
    proof (cases ex)
      case True
      have "passes (install_staged_text_guarded ex pending live old new limit) s
          [shaped s0 (Some new, Some t, None), shaped s0 (Some new, None, None)] (Ok ())"
        using run(1) True Some assms(2) l by simp
      then show ?thesis using Some
        by (intro exI[of _ "[shaped s0 (Some new, Some t, None), shaped s0 (Some new, None, None)]"]) (simp add: pointer_shapes_def)
    next
      case False
      have "passes (install_staged_text_guarded ex pending live old new limit) s
          [shaped s0 (None, Some new, Some t), shaped s0 (Some new, None, Some t), shaped s0 (Some new, None, None)] (Ok ())"
        using run(2) False Some assms(2) l by simp
      then show ?thesis using Some
        by (intro exI[of _ "[shaped s0 (None, Some new, Some t), shaped s0 (Some new, None, Some t), shaped s0 (Some new, None, None)]"])
          (simp add: pointer_shapes_def)
    qed
  qed
qed

lemma replace_shapes:
  assumes valid [simp]: valid and "s = shaped s0 x" "x \<in> settled_shapes old new"
  shows "\<exists>ss. untorn (replace_text_atomically_guarded ex pending live old new limit) s ss (Ok ())
    \<and> set ss \<subseteq> shaped s0 ` pointer_shapes old new \<and> last (s # ss) = shaped s0 (Some new, None, None)"
proof -
  consider "x = (old, Some new, None)" | l where "x = (l, None, None)" "l = old \<or> l = Some new"
    using assms(3) by (auto simp: settled_shapes_def)
  then show ?thesis
  proof cases
    case 1
    have "passes (stage_text pending new limit) s [] (Ok ())"
      using assms(2) 1 readable_new_if[OF valid] facts_if[OF valid] unfolding stage_text_def
      by (intro passes_read_bind) (simp_all add: passes_returning)
    then have same: "replace_text_atomically_guarded ex pending live old new limit torn n s
        = install_staged_text_guarded ex pending live old new limit torn n s" for torn n
      by (simp add: replace_text_atomically_guarded_def bind_effect_def passes_def)
    obtain ss where ss: "passes (install_staged_text_guarded ex pending live old new limit) s ss (Ok ())"
        "set ss \<subseteq> shaped s0 ` pointer_shapes old new" "last (s # ss) = shaped s0 (Some new, None, None)"
      using install_shapes[of s s0 old ex, OF valid] assms(2) 1 by blast
    have "untorn (replace_text_atomically_guarded ex pending live old new limit) s ss (Ok ())"
      using untorn_passes[OF ss(1)] unfolding untorn_def same .
    then show ?thesis using ss(2,3) by blast
  next
    case (2 l)
    have absent: "s pending = None" using assms(2) 2 by simp
    obtain ss where ss: "passes (install_staged_text_guarded ex pending live old new limit) (shaped s0 (l, Some new, None)) ss (Ok ())"
        "set ss \<subseteq> shaped s0 ` pointer_shapes old new"
        "last (shaped s0 (l, Some new, None) # ss) = shaped s0 (Some new, None, None)"
      using install_shapes[of _ s0 l ex, OF valid] 2(2) by blast
    have "s(pending := Some new) = shaped s0 (l, Some new, None)" using assms(2) 2(1) by simp
    then have run: "replace_text_atomically_guarded ex pending live old new limit None n s = (case n of
        0 \<Rightarrow> Crashed s | Suc k \<Rightarrow> install_staged_text_guarded ex pending live old new limit None k (shaped s0 (l, Some new, None)))" for n
      by (simp add: replace_text_atomically_guarded_def stage_run[where pending = pending and s = s, OF absent] split: nat.split)
    have "untorn (replace_text_atomically_guarded ex pending live old new limit) s (shaped s0 (l, Some new, None) # ss) (Ok ())"
      unfolding untorn_def
    proof
      fix n
      show "replace_text_atomically_guarded ex pending live old new limit None n s =
          (if n < length (shaped s0 (l, Some new, None) # ss)
           then Crashed ((s # shaped s0 (l, Some new, None) # ss) ! n)
           else Finished (n - length (shaped s0 (l, Some new, None) # ss)) (last (s # shaped s0 (l, Some new, None) # ss)) (Ok ()))"
        using ss(1) by (cases n) (simp_all add: run passes_def)
    qed
    moreover have "(l, Some new, None) \<in> pointer_shapes old new" using 2(2) by (auto simp: pointer_shapes_def)
    ultimately show ?thesis using ss(2,3)
      by (intro exI[of _ "shaped s0 (l, Some new, None) # ss"]) auto
  qed
qed

end

section \<open>Clearing an interrupted replacement\<close>

text \<open>
  One attempt clears what is left and replaces the pointer; a crash may stop it, but tears no staged file.
  The transaction skips the replacement when the pointer already selects the new generation.
\<close>

definition pointer_attempt ::
  "bool \<Rightarrow> (string \<Rightarrow> string) \<Rightarrow> pointer_codec \<Rightarrow> string \<Rightarrow> string option \<Rightarrow> string \<Rightarrow> string \<Rightarrow> nat \<Rightarrow> (failure, unit) effect" where
  "pointer_attempt ex H c remote prior generation plan limit =
     bind_effect (reconcile_interrupted_pointer H c remote prior generation plan limit)
       (\<lambda>_. replace_pointer ex c remote prior generation plan limit)"

definition pointer_interrupted ::
  "bool \<Rightarrow> (string \<Rightarrow> string) \<Rightarrow> pointer_codec \<Rightarrow> string \<Rightarrow> string option \<Rightarrow> string \<Rightarrow> string \<Rightarrow> nat \<Rightarrow> text_store \<Rightarrow> text_store \<Rightarrow> bool" where
  "pointer_interrupted ex H c remote prior generation plan limit s s' \<longleftrightarrow>
     (\<exists>n. pointer_attempt ex H c remote prior generation plan limit None n s = Crashed s')"

locale base_pointer = pointer_files +
  fixes H :: "string \<Rightarrow> string" and c :: pointer_codec and remote :: string and prior :: "string option"
    and generation plan :: string
  assumes paths_if: "valid \<Longrightarrow> pointer_path remote = Ok live" "valid \<Longrightarrow> pointer_stage_path remote plan = Ok pending"
    and old_text: "old = map_option (pointer_text c remote) prior" and new_text: "new = pointer_text c remote generation"
begin

abbreviation expected :: expected_control where
  "expected \<equiv> \<lparr>ec_old_hash = map_option (content_hash_digest H) old, ec_new_hash = content_hash_digest H new,
     ec_accept_duplicate_new = True\<rparr>"

lemma control_state_run:
  assumes valid [simp]: valid and "s = shaped s0 (l, p, b)" "(l, p, b) \<in> pointer_shapes old new" "classify_control H b l p expected = Some st"
  shows "passes (bind_effect (inspect_control_state H pending live expected limit e) k) s ts r \<longleftrightarrow> passes (k (backup, st)) s ts r"
proof (rule passes_bind_reading)
  have texts: "s live = l" "s pending = p" "s backup = b" using assms(2) by simp_all
  show "passes (inspect_control_state H pending live expected limit e) s [] (Inr (backup, st))"
    unfolding inspect_control_state_def facts_if(1)[OF valid] storage_returning effect_simps
    by (intro passes_storage_read_bind; use shape_readable[OF valid assms(3)] in \<open>simp add: texts assms(4) passes_returning\<close>)
qed

lemma reconcile_idle:
  assumes valid [simp]: valid and "s = shaped s0 (l, None, None)"
  shows "passes (reconcile_interrupted_pointer H c remote prior generation plan limit) s [] (Ok ())"
  unfolding reconcile_interrupted_pointer_def paths_if[OF valid] effect_simps facts_if(1)[OF valid] map_err_returning
  by (intro passes_map_err_read_bind; simp add: assms passes_returning)

lemma reconcile_busy:
  assumes valid [simp]: valid and "s = shaped s0 (l, p, b)" "(l, p, b) \<in> pointer_shapes old new" "\<not> (p = None \<and> b = None)"
    and "b = None \<or> (l = None \<and> p = Some new) \<or> (l = Some new \<and> p = None)"
    and control: "passes (reconcile_control H True pending live (map_option (content_hash_digest H) old)
        (content_hash_digest H new) limit ''sync.base_stale'') s ss (Inr ())"
    and clear: "passes (if b = None \<and> l = Some new \<and> p = old then base_invalid (remove_regular_file_if_present pending)
        else succeeding ()) (last (s # ss)) ts (Inr ())"
  shows "passes (reconcile_interrupted_pointer H c remote prior generation plan limit) s (ss @ ts) (Ok ())"
proof -
  have texts: "s live = l" "s pending = p" "s backup = b" using assms(2) by simp_all
  note readable = shape_readable[OF valid assms(3)]
  have known: "\<not> (s backup \<noteq> None \<and> \<not> ((s live = None \<and> s pending = Some new) \<or> (s live = Some new \<and> s pending = None)))"
    using assms(5) texts by auto
  show ?thesis
    unfolding reconcile_interrupted_pointer_def paths_if[OF valid] effect_simps facts_if(1)[OF valid] map_err_returning Let_def
      old_text[symmetric] new_text[symmetric]
    apply (rule passes_map_err_read_bind, use readable texts in simp)
    apply (rule passes_map_err_read_bind, use readable texts in simp)
    apply (subst if_not_P, use assms(4) texts in simp)
    apply (rule passes_map_err_read_bind, use readable texts in simp)
    apply (subst if_not_P[OF known])
    apply (rule passes_bind[OF passes_map_err[OF control]])
    using clear texts by simp_all
qed

lemma control_run:
  assumes valid [simp]: valid and "s = shaped s0 (l, p, b)" "(l, p, b) \<in> pointer_shapes old new" "classify_control H b l p expected = Some st"
    and "passes (case st of StableControl _ \<Rightarrow> succeeding ()
         | RestoreBackup _ \<Rightarrow> storage (restore_guarded_backup backup live limit)
         | RemoveBackup _ \<Rightarrow> storage (remove_regular_file_if_present backup)
         | RemoveDuplicateStaging _ \<Rightarrow> storage (remove_regular_file_if_present pending)) s ss (Inr ())"
  shows "passes (reconcile_control H True pending live (map_option (content_hash_digest H) old)
      (content_hash_digest H new) limit e) s ss (Inr ())"
  unfolding reconcile_control_def control_state_run[OF valid assms(2-4)] using assms(5) by simp

definition clears :: "text_store \<Rightarrow> text_store \<Rightarrow> bool" where
  "clears s0 s \<longleftrightarrow> (\<exists>ss. passes (reconcile_interrupted_pointer H c remote prior generation plan limit) s ss (Ok ())
     \<and> set ss \<subseteq> shaped s0 ` pointer_shapes old new \<and> last (s # ss) \<in> shaped s0 ` settled_shapes old new)"

lemma clears_by:
  assumes "passes (reconcile_interrupted_pointer H c remote prior generation plan limit) s ss (Ok ())"
    and "set ss \<subseteq> shaped s0 ` pointer_shapes old new" "last (s # ss) = shaped s0 x" "x \<in> settled_shapes old new"
  shows "clears s0 s"
  unfolding clears_def using assms(1,2,4) by (intro exI[of _ ss] conjI) (simp_all only: assms(3) imageI)

lemma remove_run:
  assumes valid [simp]: valid
  shows "passes (remove_regular_file_if_present pending) (shaped s0 (l, Some t, b)) [shaped s0 (l, None, b)] (Inr ())"
  "passes (remove_regular_file_if_present pending) (shaped s0 (l, None, b)) [] (Inr ())"
  "passes (remove_regular_file_if_present backup) (shaped s0 (l, q, Some t)) [shaped s0 (l, q, None)] (Inr ())"
  using passes_remove[of "shaped s0 (l, Some t, b)" pending] passes_remove_absent[of "shaped s0 (l, None, b)" pending]
    passes_remove[of "shaped s0 (l, q, Some t)" backup]
  by simp_all

lemma restore_run:
  assumes valid [simp]: valid
  shows "passes (restore_guarded_backup backup live limit) (shaped s0 (None, q, Some t)) [shaped s0 (Some t, q, None)] (Inr ())"
  unfolding restore_guarded_backup_def
  by (rule passes_read_bind; simp add: require_moved_def)
    (rule passes_step_bind[OF passes_move]; simp add: passes_returning)

lemma displaced_shape_clears:
  assumes valid [simp]: valid and "old = Some t"
  shows "clears s0 (shaped s0 (Some new, Some t, None))" (is "clears s0 ?s")
proof (cases "content_hash_digest H t = content_hash_digest H new")
  case True
  have shape: "(Some new, Some t, None) \<in> pointer_shapes old new" using assms by (simp add: pointer_shapes_def)
  have "classify_control H None (Some new) (Some t) expected = Some (RemoveDuplicateStaging new)"
    using True by (simp add: classify_control_def)
  from control_run[where ss = "[shaped s0 (Some new, None, None)]", OF valid refl shape this]
  have "passes (reconcile_control H True pending live (map_option (content_hash_digest H) old)
      (content_hash_digest H new) limit e) ?s [shaped s0 (Some new, None, None)] (Inr ())" for e
    using passes_storage_Ok[OF remove_run(1)[OF valid]] by simp
  from reconcile_busy[where ts = "[]", OF valid refl shape _ _ this]
  have "passes (reconcile_interrupted_pointer H c remote prior generation plan limit) ?s [shaped s0 (Some new, None, None)] (Ok ())"
    using assms by (simp add: passes_map_err[OF remove_run(2)[OF valid]])
  then show ?thesis by (rule clears_by[where x = "(Some new, None, None)"]) (simp_all add: pointer_shapes_def settled_shapes_def)
next
  case False
  have shape: "(Some new, Some t, None) \<in> pointer_shapes old new" using assms by (simp add: pointer_shapes_def)
  have "classify_control H None (Some new) (Some t) expected = Some (StableControl (Some new))"
    using False assms by (simp add: classify_control_def)
  from control_run[where ss = "[]", OF valid refl shape this]
  have "passes (reconcile_control H True pending live (map_option (content_hash_digest H) old)
      (content_hash_digest H new) limit e) ?s [] (Inr ())" for e
    by (simp add: passes_returning)
  from reconcile_busy[where ts = "[shaped s0 (Some new, None, None)]", OF valid refl shape _ _ this]
  have "passes (reconcile_interrupted_pointer H c remote prior generation plan limit) ?s [shaped s0 (Some new, None, None)] (Ok ())"
    using assms by (simp add: passes_map_err[OF remove_run(1)[OF valid]])
  then show ?thesis by (rule clears_by[where x = "(Some new, None, None)"]) (simp_all add: pointer_shapes_def settled_shapes_def)
qed

lemma staged_shape_clears:
  assumes valid [simp]: valid
  shows "clears s0 (shaped s0 (old, Some new, None))" (is "clears s0 ?s")
proof -
  have shape: "(old, Some new, None) \<in> pointer_shapes old new" by (simp add: pointer_shapes_def)
  show ?thesis
  proof (cases "map_option (content_hash_digest H) old = Some (content_hash_digest H new)")
    case True
    then obtain t where t: "old = Some t" "content_hash_digest H t = content_hash_digest H new" by auto
    then have "classify_control H None old (Some new) expected = Some (RemoveDuplicateStaging t)"
      by (simp add: classify_control_def)
    from control_run[where ss = "[shaped s0 (old, None, None)]", OF valid refl shape this]
    have "passes (reconcile_control H True pending live (map_option (content_hash_digest H) old)
        (content_hash_digest H new) limit e) ?s [shaped s0 (old, None, None)] (Inr ())" for e
      using passes_storage_Ok[OF remove_run(1)[OF valid]] by simp
    from reconcile_busy[where ts = "[]", OF valid refl shape _ _ this]
    have "passes (reconcile_interrupted_pointer H c remote prior generation plan limit) ?s [shaped s0 (old, None, None)] (Ok ())"
      using changes_if[OF valid] by (simp add: passes_returning)
    then show ?thesis by (rule clears_by[where x = "(old, None, None)"]) (simp_all add: pointer_shapes_def settled_shapes_def)
  next
    case False
    then have "classify_control H None old (Some new) expected = Some (StableControl old)"
      by (cases old) (simp_all add: classify_control_def)
    from control_run[where ss = "[]", OF valid refl shape this]
    have "passes (reconcile_control H True pending live (map_option (content_hash_digest H) old)
        (content_hash_digest H new) limit e) ?s [] (Inr ())" for e
      by (simp add: passes_returning)
    from reconcile_busy[where ts = "[]", OF valid refl shape _ _ this]
    have "passes (reconcile_interrupted_pointer H c remote prior generation plan limit) ?s [] (Ok ())"
      using changes_if[OF valid] by (simp add: passes_returning)
    then show ?thesis by (rule clears_by[where x = "(old, Some new, None)"]) (simp_all add: settled_shapes_def)
  qed
qed

lemma duplicate_shape_clears:
  assumes valid [simp]: valid
  shows "clears s0 (shaped s0 (Some new, Some new, None))" (is "clears s0 ?s")
proof -
  have shape: "(Some new, Some new, None) \<in> pointer_shapes old new" by (simp add: pointer_shapes_def)
  have "classify_control H None (Some new) (Some new) expected = Some (RemoveDuplicateStaging new)"
    by (simp add: classify_control_def)
  from control_run[where ss = "[shaped s0 (Some new, None, None)]", OF valid refl shape this]
  have "passes (reconcile_control H True pending live (map_option (content_hash_digest H) old)
      (content_hash_digest H new) limit e) ?s [shaped s0 (Some new, None, None)] (Inr ())" for e
    using passes_storage_Ok[OF remove_run(1)[OF valid]] by simp
  from reconcile_busy[where ts = "[]", OF valid refl shape _ _ this]
  have "passes (reconcile_interrupted_pointer H c remote prior generation plan limit) ?s [shaped s0 (Some new, None, None)] (Ok ())"
    using changes_if[OF valid] by (simp add: passes_returning)
  then show ?thesis by (rule clears_by[where x = "(Some new, None, None)"]) (simp_all add: pointer_shapes_def settled_shapes_def)
qed

lemma backup_shapes_clear:
  assumes valid [simp]: valid and "old = Some t"
  shows "clears s0 (shaped s0 (None, Some new, Some t))" "clears s0 (shaped s0 (Some new, None, Some t))"
proof -
  have shape: "(None, Some new, Some t) \<in> pointer_shapes old new" "(Some new, None, Some t) \<in> pointer_shapes old new"
    using assms by (simp_all add: pointer_shapes_def)
  have state: "classify_control H (Some t) None (Some new) expected = Some (RestoreBackup (Some t))"
    "classify_control H (Some t) (Some new) None expected = Some (RemoveBackup (Some new))"
    using assms by (simp_all add: classify_control_def)
  have "passes (reconcile_control H True pending live (map_option (content_hash_digest H) old)
      (content_hash_digest H new) limit e) (shaped s0 (None, Some new, Some t)) [shaped s0 (old, Some new, None)] (Inr ())" for e
    using control_run[OF valid refl shape(1) state(1)] passes_storage_Ok[OF restore_run[OF valid]] assms by simp
  from reconcile_busy[where ts = "[]", OF valid refl shape(1) _ _ this]
  have "passes (reconcile_interrupted_pointer H c remote prior generation plan limit)
      (shaped s0 (None, Some new, Some t)) [shaped s0 (old, Some new, None)] (Ok ())"
    by (simp add: passes_returning)
  then show "clears s0 (shaped s0 (None, Some new, Some t))"
    by (rule clears_by[where x = "(old, Some new, None)"]) (simp_all add: pointer_shapes_def settled_shapes_def)
  have "passes (reconcile_control H True pending live (map_option (content_hash_digest H) old)
      (content_hash_digest H new) limit e) (shaped s0 (Some new, None, Some t)) [shaped s0 (Some new, None, None)] (Inr ())" for e
    using control_run[OF valid refl shape(2) state(2)] passes_storage_Ok[OF remove_run(3)[OF valid]] by simp
  from reconcile_busy[where ts = "[]", OF valid refl shape(2) _ _ this]
  have "passes (reconcile_interrupted_pointer H c remote prior generation plan limit)
      (shaped s0 (Some new, None, Some t)) [shaped s0 (Some new, None, None)] (Ok ())"
    by (simp add: passes_returning)
  then show "clears s0 (shaped s0 (Some new, None, Some t))"
    by (rule clears_by[where x = "(Some new, None, None)"]) (simp_all add: pointer_shapes_def settled_shapes_def)
qed

lemma every_shape_clears:
  assumes valid [simp]: valid and "x \<in> pointer_shapes old new"
  shows "clears s0 (shaped s0 x)"
proof -
  have idle: "clears s0 (shaped s0 (l, None, None))" if "l = old \<or> l = Some new" for l
    by (rule clears_by[where x = "(l, None, None)", OF reconcile_idle[OF valid refl]]) (use that in \<open>auto simp: settled_shapes_def\<close>)
  show ?thesis
    using assms idle staged_shape_clears[OF valid] duplicate_shape_clears[OF valid] displaced_shape_clears[OF valid] backup_shapes_clear[OF valid]
    unfolding pointer_shapes_def by (auto split: option.splits)
qed

section \<open>Interruptions\<close>

abbreviation attempt :: "bool \<Rightarrow> (failure, unit) effect" where
  "attempt ex \<equiv> pointer_attempt ex H c remote prior generation plan limit"

abbreviation interrupted :: "bool \<Rightarrow> text_store \<Rightarrow> text_store \<Rightarrow> bool" where
  "interrupted ex \<equiv> pointer_interrupted ex H c remote prior generation plan limit"

lemma untorn_map_err: "untorn m s ss (Inr x) \<Longrightarrow> untorn (map_effect_err f m) s ss (Inr x)"
  by (simp add: untorn_def map_effect_err_def)

lemma untorn_bind:
  assumes "untorn m s ss (Inr x)" "untorn (k x) (last (s # ss)) ts r"
  shows "untorn (bind_effect m k) s (ss @ ts) r"
  unfolding untorn_def
proof
  fix n
  have m: "m None n s = (if n < length ss then Crashed ((s # ss) ! n) else Finished (n - length ss) (last (s # ss)) (Inr x))"
    using assms(1) by (simp add: untorn_def)
  have k: "k x None (n - length ss) (last (s # ss)) =
      (if n - length ss < length ts then Crashed ((last (s # ss) # ts) ! (n - length ss))
       else Finished (n - length ss - length ts) (last (last (s # ss) # ts)) r)"
    using assms(2) by (simp add: untorn_def)
  show "bind_effect m k None n s = (if n < length (ss @ ts) then Crashed ((s # ss @ ts) ! n)
      else Finished (n - length (ss @ ts)) (last (s # ss @ ts)) r)"
  proof (cases "n < length ss")
    case True
    then have "(s # ss @ ts) ! n = (s # ss) ! n" by (cases n) (simp_all add: nth_append)
    then show ?thesis using True m by (simp add: bind_effect_def)
  next
    case False
    then have "(s # ss @ ts) ! n = (last (s # ss) # ts) ! (n - length ss)"
      by (cases ss rule: rev_cases) (auto simp: nth_append nth_Cons')
    then show ?thesis using False m k by (simp add: bind_effect_def) auto
  qed
qed

lemma attempt_run:
  assumes valid [simp]: valid and "x \<in> pointer_shapes old new"
  shows "\<exists>ss. untorn (attempt ex) (shaped s0 x) ss (Ok ()) \<and> set ss \<subseteq> shaped s0 ` pointer_shapes old new
    \<and> last (shaped s0 x # ss) = shaped s0 (Some new, None, None)"
proof -
  obtain ss y where ss: "passes (reconcile_interrupted_pointer H c remote prior generation plan limit) (shaped s0 x) ss (Ok ())"
      "set ss \<subseteq> shaped s0 ` pointer_shapes old new" "last (shaped s0 x # ss) = shaped s0 y" "y \<in> settled_shapes old new"
    using every_shape_clears[OF assms] unfolding clears_def by blast
  obtain ts where ts: "untorn (replace_text_atomically_guarded ex pending live old new limit) (shaped s0 y) ts (Ok ())"
      "set ts \<subseteq> shaped s0 ` pointer_shapes old new" "last (shaped s0 y # ts) = shaped s0 (Some new, None, None)"
    using replace_shapes[OF valid refl ss(4)] by blast
  have "untorn (replace_pointer ex c remote prior generation plan limit) (shaped s0 y) ts (Ok ())"
    unfolding replace_pointer_def paths_if[OF valid] effect_simps old_text[symmetric] new_text[symmetric] by (rule untorn_map_err[OF ts(1)])
  then have "untorn (attempt ex) (shaped s0 x) (ss @ ts) (Ok ())"
    unfolding pointer_attempt_def using untorn_bind[OF untorn_passes[OF ss(1)]] ss(3) by simp
  moreover have "last (shaped s0 x # ss @ ts) = last (last (shaped s0 x # ss) # ts)" by simp
  then have "last (shaped s0 x # ss @ ts) = shaped s0 (Some new, None, None)" unfolding ss(3) ts(3) .
  ultimately show ?thesis using ss(2) ts(2) by (intro exI[of _ "ss @ ts"] conjI) simp_all
qed

lemma interruptions_keep_shape:
  assumes valid [simp]: valid and "(interrupted ex)\<^sup>*\<^sup>* (shaped s0 x) m" "x \<in> pointer_shapes old new"
  shows "m \<in> shaped s0 ` pointer_shapes old new"
  using assms(2,3)
proof (induction rule: rtranclp_induct)
  case (step y z)
  then obtain x' where x': "y = shaped s0 x'" "x' \<in> pointer_shapes old new" by blast
  obtain ss where ss: "untorn (attempt ex) y ss (Ok ())" "set ss \<subseteq> shaped s0 ` pointer_shapes old new"
    using attempt_run[OF valid x'(2)] x'(1) by blast
  obtain n where "attempt ex None n y = Crashed z" using step(2) by (auto simp: pointer_interrupted_def)
  then have "z \<in> set (y # ss)" using ss(1) unfolding untorn_def by (auto simp del: set_simps intro!: nth_mem split: if_splits)
  then show ?case using ss(2) x' by auto
qed simp

lemma interrupted_pointers_complete:
  assumes valid [simp]: valid and "s live = old" "s pending = None" "s backup = None" "(interrupted ex)\<^sup>*\<^sup>* s m"
  shows "\<exists>k. \<forall>n \<ge> k. attempt ex None n m = Finished (n - k) (s(live := Some new)) (Ok ())"
proof -
  have start: "s = shaped s (old, None, None)" using assms(2-4) by (auto simp: with_shape_def fun_eq_iff)
  then obtain x where x: "m = shaped s x" "x \<in> pointer_shapes old new"
    using interruptions_keep_shape[of ex s "(old, None, None)" m, OF valid] assms(5) by (auto simp: pointer_shapes_def)
  obtain ss where ss: "untorn (attempt ex) m ss (Ok ())" "last (m # ss) = shaped s (Some new, None, None)"
    using attempt_run[OF valid x(2)] x(1) by blast
  have "shaped s (Some new, None, None) = s(live := Some new)"
    using assms(3,4) facts_if[OF valid] by (auto simp: with_shape_def fun_eq_iff)
  then show ?thesis using ss unfolding untorn_def by (intro exI[of _ "length ss"]) simp
qed

end

section \<open>The pointer of the model\<close>

definition replaceable :: "pointer_codec \<Rightarrow> string \<Rightarrow> string option \<Rightarrow> string \<Rightarrow> string \<Rightarrow> nat \<Rightarrow> string \<Rightarrow> string \<Rightarrow> string \<Rightarrow> bool" where
  "replaceable c remote prior generation plan limit live pending backup \<longleftrightarrow>
     pointer_path remote = Ok live \<and> pointer_stage_path remote plan = Ok pending \<and> guarded_backup_path pending = Ok backup
     \<and> (case prior of None \<Rightarrow> True | Some g \<Rightarrow> readable limit (pointer_text c remote g))
     \<and> readable limit (pointer_text c remote generation)
     \<and> map_option (pointer_text c remote) prior \<noteq> Some (pointer_text c remote generation)"

lemma replaceable_files:
  assumes "replaceable c remote prior generation plan limit live pending backup"
  shows "guarded_files live pending backup"
proof -
  note paths = assms[unfolded replaceable_def]
  have live: "live = ''sync/'' @ last_colon_piece remote @ ''/base-current.json''"
    using paths by (auto simp: pointer_path_def base_path_def map_err_Ok_iff portable_path_parse_Ok)
  have pending: "pending = ''sync/'' @ last_colon_piece remote @ ''/staging/'' @ last_colon_piece plan @ ''/base-current.json''"
    using paths by (auto simp: pointer_stage_path_def base_path_def map_err_Ok_iff portable_path_parse_Ok)
  have backup: "backup = pending @ ''.previous''"
    using paths by (auto simp: guarded_backup_path_def map_err_Ok_iff portable_path_parse_Ok)
  have "length live < length pending" "length pending < length backup" using live pending backup by simp_all
  then show ?thesis using paths unfolding guarded_files_def by auto
qed

interpretation base_pointers: base_pointer "replaceable c remote prior generation plan limit live pending backup" live pending backup
  limit "map_option (pointer_text c remote) prior" "pointer_text c remote generation" H c remote prior generation plan
  for c remote prior generation plan limit live pending backup H
  by unfold_locales (auto simp: replaceable_files, auto simp: replaceable_def)

text \<open>C10: 
  Selecting a new base generation always gets there.  Take a store whose pointer selects the prior generation,
  or none, with nothing staged, and pointers whose texts fit the limit of control files; let attempts to clear and replace the pointer be stopped by crashes at any
  durable effects, any number of times, short of tearing the staged file.  The next attempt that is not
  stopped succeeds and leaves exactly the new pointer: no staged file, no backup, every other file unchanged.
\<close>

theorem interrupted_base_pointers_complete:
  assumes "replaceable c remote prior generation plan limit live pending backup"
    and "s live = map_option (pointer_text c remote) prior" "s pending = None" "s backup = None"
    and "(pointer_interrupted ex H c remote prior generation plan limit)\<^sup>*\<^sup>* s m"
  shows "\<exists>k. \<forall>n \<ge> k. pointer_attempt ex H c remote prior generation plan limit None n m
      = Finished (n - k) (s(live := Some (pointer_text c remote generation))) (Ok ())"
  by (rule base_pointers.interrupted_pointers_complete[OF assms])

definition sample_codec :: pointer_codec where
  "sample_codec = \<lparr>pj_encode = sp_generation, pj_decode = (\<lambda>_. None)\<rparr>"

theorem interrupted_base_pointers_complete_witness:
  "\<exists>k. \<forall>n \<ge> k. pointer_attempt True (\<lambda>_. ''h'') sample_codec ''r:a'' None ''g'' ''p:b'' 9 None n (\<lambda>_. None)
     = Finished (n - k) ((\<lambda>_. None)(''sync/a/base-current.json'' := Some (pointer_text sample_codec ''r:a'' ''g''))) (Ok ())"
proof -
  have parse: "portable_path_parse ''sync/a/base-current.json'' = Ok ''sync/a/base-current.json''"
    "portable_path_parse ''sync/a/staging/b/base-current.json'' = Ok ''sync/a/staging/b/base-current.json''"
    "portable_path_parse ''sync/a/staging/b/base-current.json.previous'' = Ok ''sync/a/staging/b/base-current.json.previous''"
    by code_simp+
  have "readable 9 (pointer_text sample_codec ''r:a'' ''g'')"
    by (simp add: readable_def pointer_text_def sample_codec_def sync_base_pointer_to_json_def sync_base_pointer_new_def
        is_text_def utf8_tail_def)
  then have "replaceable sample_codec ''r:a'' None ''g'' ''p:b'' 9 ''sync/a/base-current.json''
      ''sync/a/staging/b/base-current.json'' ''sync/a/staging/b/base-current.json.previous''"
    using parse
    by (simp add: replaceable_def pointer_path_def pointer_stage_path_def base_path_def last_colon_piece_def guarded_backup_path_def)
  from interrupted_base_pointers_complete[OF this, of "\<lambda>_. None" True "\<lambda>_. ''h''" "\<lambda>_. None"]
  show ?thesis by simp
qed

end
