(* ===== verification/Receipt_Inspection.thy ===== *)
theory Receipt_Inspection
  imports Local_State "HOL-Library.Product_Lexorder" "HOL-Library.Option_ord"
begin

text \<open>
  \<open>kitrove-core/src/receipt.rs\<close>: the diagnostic reader of machine-local state, which keeps the receipts that
  prove ownership and isolates the others.  \<open>serde_json\<close> is a parameter: it splits the text of an object
  into its members, each with the text of its value, reads a text as a value, and decodes the records.
  A finding made here has no evidence, and its action is a fixed text; both are left out.
\<close>

section \<open>JSON values\<close>

datatype json = JNull | JBool bool | JNumber string | JString string | JArray "json list" | JObject "(string \<times> json) list"

record state_reader =
  rd_members :: "string \<Rightarrow> (string \<times> string) list option"
  rd_value :: "string \<Rightarrow> json option"
  rd_schema_version :: "string \<Rightarrow> bool"
  rd_machine :: "string \<Rightarrow> bool"
  rd_bindings :: "string \<Rightarrow> bool"
  rd_pack_applications :: "string \<Rightarrow> bool"
  rd_trust :: "string \<Rightarrow> bool"
  rd_scans :: "string \<Rightarrow> bool"
  rd_receipt :: "string \<Rightarrow> deployment_receipt option"

text \<open>\<open>DuplicateFreeVisitor\<close>: no object of the value, at any depth, repeats a key.\<close>

fun duplicate_free :: "json \<Rightarrow> bool"
  and elements_free :: "json list \<Rightarrow> bool"
  and members_free :: "string btree_set \<Rightarrow> (string \<times> json) list \<Rightarrow> bool" where
  "duplicate_free (JArray xs) = elements_free xs"
| "duplicate_free (JObject ms) = members_free [] ms"
| "duplicate_free JNull = True"
| "duplicate_free (JBool b) = True"
| "duplicate_free (JNumber n) = True"
| "duplicate_free (JString s) = True"
| "elements_free [] = True"
| "elements_free (x # xs) = (duplicate_free x \<and> elements_free xs)"
| "members_free seen [] = True"
| "members_free seen ((k, v) # ms) = (\<not> bs_has seen k \<and> duplicate_free v \<and> members_free (bs_insert k seen) ms)"

definition reject_duplicate_keys :: "state_reader \<Rightarrow> string \<Rightarrow> bool" where
  "reject_duplicate_keys rd input = (case rd_value rd input of Some v \<Rightarrow> duplicate_free v | None \<Rightarrow> False)"

section \<open>Findings\<close>

datatype finding_subject =
    SubjectReport
  | SubjectHarness harness_id
  | SubjectRoot string
  | SubjectObservation string
  | SubjectReceipt string
  | SubjectDestination harness_id harness_scope string
  | SubjectRelated string string

datatype finding_severity = Informational | Attention

record scan_finding =
  sf_code :: string
  sf_severity :: finding_severity
  sf_subject :: finding_subject

datatype receipt_invalidity_scope =
    InvalidDestination harness_id harness_scope string
  | InvalidHarnessScope harness_id harness_scope
  | InvalidHarness harness_id
  | InvalidReport

record inspected_receipt =
  ir_receipt_id :: string
  ir_receipt :: deployment_receipt

record invalid_receipt =
  iv_receipt_id :: "string option"
  iv_scope :: receipt_invalidity_scope
  iv_finding :: scan_finding

record receipt_inspection =
  ri_valid :: "inspected_receipt list"
  ri_invalid :: "invalid_receipt list"

definition conflicting_receipt_finding :: "harness_id \<Rightarrow> harness_scope \<Rightarrow> string \<Rightarrow> scan_finding" where
  "conflicting_receipt_finding harness scope destination =
     \<lparr>sf_code = ''scan.receipt_conflict'', sf_severity = Attention, sf_subject = SubjectDestination harness scope destination\<rparr>"

definition invalid_receipt_finding :: "string option \<Rightarrow> receipt_invalidity_scope \<Rightarrow> scan_finding" where
  "invalid_receipt_finding stored_id scope =
     \<lparr>sf_code = ''scan.receipt_invalid'', sf_severity = Attention,
      sf_subject =
        (case scope of
           InvalidDestination harness scope destination \<Rightarrow> SubjectDestination harness scope destination
         | InvalidHarnessScope harness _ \<Rightarrow> SubjectHarness harness
         | InvalidHarness harness \<Rightarrow> SubjectHarness harness
         | InvalidReport \<Rightarrow> (case stored_id of Some i \<Rightarrow> SubjectReceipt i | None \<Rightarrow> SubjectReport))\<rparr>"

definition invalidity_key :: "receipt_invalidity_scope \<Rightarrow> nat \<times> string \<times> string \<times> string" where
  "invalidity_key scope =
     (case scope of
        InvalidDestination harness scope destination \<Rightarrow>
          (0, harness_id_as_str harness, harness_scope_as_str scope, destination)
      | InvalidHarnessScope harness scope \<Rightarrow> (1, harness_id_as_str harness, harness_scope_as_str scope, [])
      | InvalidHarness harness \<Rightarrow> (2, harness_id_as_str harness, [], [])
      | InvalidReport \<Rightarrow> (3, [], [], []))"

definition invalid_receipt_key :: "invalid_receipt \<Rightarrow> (nat \<times> string \<times> string \<times> string) \<times> string option" where
  "invalid_receipt_key r = (invalidity_key (iv_scope r), iv_receipt_id r)"

section \<open>The envelope\<close>

record raw_receipt =
  rr_key :: string
  rr_raw :: "string option"

record raw_envelope =
  re_schema_version :: string
  re_machine :: string
  re_bindings :: string
  re_receipts :: "raw_receipt list"
  re_pack_applications :: "string option"
  re_trust :: string
  re_scans :: string

text \<open>\<open>ReceiptMapVisitor\<close>: at most \<open>max_receipts\<close> keys, each once; an oversized record keeps its key only.\<close>

definition visit_receipt ::
  "nat \<Rightarrow> nat \<Rightarrow> string btree_set \<times> raw_receipt list \<Rightarrow> string \<times> string \<Rightarrow> (string btree_set \<times> raw_receipt list) result" where
  "visit_receipt max_receipts max_receipt_bytes st member =
     (let (seen, records) = st; (key, raw) = member
      in if bs_has seen key then Err ''duplicate receipt map key''
         else if length records \<ge> max_receipts then Err ''receipt count exceeds the diagnostic bound''
         else Ok (bs_insert key seen,
                  records @ [\<lparr>rr_key = key, rr_raw = (if length raw \<le> max_receipt_bytes then Some raw else None)\<rparr>]))"

definition visit_receipts :: "state_reader \<Rightarrow> nat \<Rightarrow> nat \<Rightarrow> string \<Rightarrow> raw_receipt list result" where
  "visit_receipts rd max_receipts max_receipt_bytes raw =
     bind_result (ok_or ''json'' (rd_members rd raw)) (\<lambda>members.
     bind_result (try_fold (visit_receipt max_receipts max_receipt_bytes) ([], []) members) (\<lambda>(seen, records).
       Ok records))"

record envelope_fields =
  ef_schema_version :: "string option"
  ef_machine :: "string option"
  ef_bindings :: "string option"
  ef_receipts :: "raw_receipt list option"
  ef_pack_applications :: "string option"
  ef_trust :: "string option"
  ef_scans :: "string option"

definition no_fields :: envelope_fields where
  "no_fields = \<lparr>ef_schema_version = None, ef_machine = None, ef_bindings = None, ef_receipts = None,
     ef_pack_applications = None, ef_trust = None, ef_scans = None\<rparr>"

definition visit_field ::
  "state_reader \<Rightarrow> nat \<Rightarrow> nat \<Rightarrow> string btree_set \<times> envelope_fields \<Rightarrow> string \<times> string
   \<Rightarrow> (string btree_set \<times> envelope_fields) result" where
  "visit_field rd max_receipts max_receipt_bytes st member =
     (let (seen, fields) = st; (key, raw) = member; seen' = bs_insert key seen
      in if bs_has seen key then Err ''duplicate local-state field''
         else if key = ''schema_version'' then Ok (seen', fields\<lparr>ef_schema_version := Some raw\<rparr>)
         else if key = ''machine'' then Ok (seen', fields\<lparr>ef_machine := Some raw\<rparr>)
         else if key = ''bindings'' then Ok (seen', fields\<lparr>ef_bindings := Some raw\<rparr>)
         else if key = ''receipts'' then
           bind_result (visit_receipts rd max_receipts max_receipt_bytes raw) (\<lambda>records.
             Ok (seen', fields\<lparr>ef_receipts := Some records\<rparr>))
         else if key = ''pack_applications'' then Ok (seen', fields\<lparr>ef_pack_applications := Some raw\<rparr>)
         else if key = ''trust'' then Ok (seen', fields\<lparr>ef_trust := Some raw\<rparr>)
         else if key = ''scans'' then Ok (seen', fields\<lparr>ef_scans := Some raw\<rparr>)
         else Err ''unknown local-state field'')"

definition required_field :: "'a option \<Rightarrow> 'a result" where
  "required_field v = ok_or ''missing required local-state field'' v"

definition visit_envelope :: "state_reader \<Rightarrow> nat \<Rightarrow> nat \<Rightarrow> string \<Rightarrow> raw_envelope result" where
  "visit_envelope rd max_receipts max_receipt_bytes input =
     bind_result (ok_or ''json'' (rd_members rd input)) (\<lambda>members.
     bind_result (try_fold (visit_field rd max_receipts max_receipt_bytes) ([], no_fields) members) (\<lambda>(seen, fields).
     bind_result (required_field (ef_schema_version fields)) (\<lambda>schema_version.
     bind_result (required_field (ef_machine fields)) (\<lambda>machine.
     bind_result (required_field (ef_bindings fields)) (\<lambda>bindings.
     bind_result (required_field (ef_receipts fields)) (\<lambda>receipts.
     bind_result (required_field (ef_trust fields)) (\<lambda>trust.
     bind_result (required_field (ef_scans fields)) (\<lambda>scans.
       Ok \<lparr>re_schema_version = schema_version, re_machine = machine, re_bindings = bindings, re_receipts = receipts,
           re_pack_applications = ef_pack_applications fields, re_trust = trust, re_scans = scans\<rparr>))))))))"

abbreviation invalid_envelope :: string where
  "invalid_envelope \<equiv> ''scan.local_state_invalid''"

definition validate_raw :: "state_reader \<Rightarrow> (string \<Rightarrow> bool) \<Rightarrow> string \<Rightarrow> unit result" where
  "validate_raw rd decodes raw = ensure (reject_duplicate_keys rd raw \<and> decodes raw) invalid_envelope"

section \<open>One receipt\<close>

definition valid_adapter_version :: "string \<Rightarrow> bool" where
  "valid_adapter_version v \<longleftrightarrow>
     1 \<le> length v \<and> length v \<le> 128 \<and> list_all (\<lambda>c. byte c < 128 \<and> \<not> (byte c < 32 \<or> byte c = 127)) v"

definition valid_environment_revision :: "string \<Rightarrow> bool" where
  "valid_environment_revision v =
     (case strip_prefix ''manifest:blake3:'' v of Some digest \<Rightarrow> is_lower_hex digest 64 | None \<Rightarrow> False)"

definition recovered_scope ::
  "harness_id option \<Rightarrow> harness_scope option \<Rightarrow> string option \<Rightarrow> receipt_invalidity_scope" where
  "recovered_scope harness scope destination =
     (case (harness, scope, destination) of
        (Some h, Some s, Some d) \<Rightarrow> InvalidDestination h s d
      | (Some h, Some s, None) \<Rightarrow> InvalidHarnessScope h s
      | (Some h, None, _) \<Rightarrow> InvalidHarness h
      | (None, _, _) \<Rightarrow> InvalidReport)"

record scope_fields =
  sc_seen :: "string btree_set"
  sc_harness :: "harness_id option"
  sc_scope :: "harness_scope option"
  sc_destination :: "string option"
  sc_shared :: bool

definition result_ok :: "'a result \<Rightarrow> 'a option" where
  "result_ok r = (case r of Inl _ \<Rightarrow> None | Inr v \<Rightarrow> Some v)"

definition json_text :: "json \<Rightarrow> string option" where
  "json_text v = (case v of JString s \<Rightarrow> Some s | _ \<Rightarrow> None)"

definition scope_of_text :: "string \<Rightarrow> harness_scope option" where
  "scope_of_text v = (if v = ''user'' then Some ScopeUser else if v = ''project'' then Some ScopeProject else None)"

text \<open>\<open>ReceiptScopeVisitor\<close>: a repeated field counts as absent, and traces of shared authority are remembered.\<close>

definition visit_scope_field :: "state_reader \<Rightarrow> scope_fields \<Rightarrow> string \<times> string \<Rightarrow> scope_fields result" where
  "visit_scope_field rd st member =
     (let (key, raw) = member; first = (\<not> bs_has (sc_seen st) key); seen = st\<lparr>sc_seen := bs_insert key (sc_seen st)\<rparr>
      in bind_result (ok_or ''json'' (rd_value rd raw)) (\<lambda>v.
         if key = ''harness'' then
           Ok (seen\<lparr>sc_harness := (if first then Option.bind (json_text v) (\<lambda>t. result_ok (harness_id_parse t)) else None)\<rparr>)
         else if key = ''scope'' then
           Ok (seen\<lparr>sc_scope := (if first then Option.bind (json_text v) scope_of_text else None)\<rparr>)
         else if key = ''destination'' then
           Ok (seen\<lparr>sc_destination := (if first then Option.bind (json_text v) (\<lambda>t. result_ok (destination_parse t)) else None)\<rparr>)
         else if key = ''target'' then
           Ok (st\<lparr>sc_shared := (sc_shared st
             \<or> json_text v \<in> {Some ''managed_instruction_region'', Some ''managed_mcp_entry''})\<rparr>)
         else if key = ''logical_key'' \<or> key = ''document_hash'' then Ok (st\<lparr>sc_shared := True\<rparr>)
         else if key = ''shared_with'' then Ok (st\<lparr>sc_shared := (sc_shared st \<or> v \<noteq> JArray [])\<rparr>)
         else if key = ''shared_adapter_versions'' then Ok (st\<lparr>sc_shared := (sc_shared st \<or> v \<noteq> JObject [])\<rparr>)
         else Ok st))"

definition visit_scope :: "state_reader \<Rightarrow> string \<Rightarrow> receipt_invalidity_scope result" where
  "visit_scope rd raw =
     bind_result (ok_or ''json'' (rd_members rd raw)) (\<lambda>members.
     bind_result (try_fold (visit_scope_field rd)
         \<lparr>sc_seen = [], sc_harness = None, sc_scope = None, sc_destination = None, sc_shared = False\<rparr> members) (\<lambda>st.
       Ok (if sc_shared st then InvalidReport
           else recovered_scope (sc_harness st) (sc_scope st) (sc_destination st))))"

definition recover_scope :: "state_reader \<Rightarrow> string \<Rightarrow> receipt_invalidity_scope" where
  "recover_scope rd raw = (case visit_scope rd raw of Inl _ \<Rightarrow> InvalidReport | Inr scope \<Rightarrow> scope)"

definition invalid_record :: "string option \<Rightarrow> receipt_invalidity_scope \<Rightarrow> invalid_receipt" where
  "invalid_record stored_id scope =
     \<lparr>iv_receipt_id = stored_id, iv_scope = scope, iv_finding = invalid_receipt_finding stored_id scope\<rparr>"

definition inspect_receipt ::
  "(string \<Rightarrow> string) \<Rightarrow> state_reader \<Rightarrow> string \<Rightarrow> string \<Rightarrow> inspected_receipt list \<times> invalid_receipt list
   \<Rightarrow> inspected_receipt list \<times> invalid_receipt list" where
  "inspect_receipt H rd raw_key raw st =
     (let (valid, invalid) = st;
          stored_id = result_ok (identifier_parse raw_key);
          scope = recover_scope rd raw;
          parsed = (if reject_duplicate_keys rd raw then rd_receipt rd raw else None)
      in case parsed of
           None \<Rightarrow> (valid, invalid @ [invalid_record stored_id scope])
         | Some receipt \<Rightarrow>
             let identity_matches = (case (stored_id, receipt_id H receipt) of
                                       (Some stored, Inr recomputed) \<Rightarrow> stored = recomputed | _ \<Rightarrow> False)
             in if \<not> identity_matches \<or> \<not> valid_adapter_version (dr_adapter_version receipt)
                   \<or> \<not> valid_environment_revision (dr_environment_revision receipt)
                then (valid, invalid @ [invalid_record stored_id scope])
                else (valid @ [\<lparr>ir_receipt_id = the stored_id, ir_receipt = receipt\<rparr>], invalid))"

definition inspect_record ::
  "(string \<Rightarrow> string) \<Rightarrow> state_reader \<Rightarrow> raw_receipt \<Rightarrow> inspected_receipt list \<times> invalid_receipt list
   \<Rightarrow> inspected_receipt list \<times> invalid_receipt list" where
  "inspect_record H rd r st =
     (case rr_raw r of
        Some raw \<Rightarrow> inspect_receipt H rd (rr_key r) raw st
      | None \<Rightarrow> (fst st, snd st @ [invalid_record (result_ok (identifier_parse (rr_key r))) InvalidReport]))"

section \<open>Conflicting claims\<close>

type_synonym destination_claim = "string \<times> receipt_target \<times> string option"

definition claim_region :: "deployment_receipt \<Rightarrow> string option" where
  "claim_region r =
     (case dr_target r of
        WholeTarget \<Rightarrow> None
      | ManagedInstructionRegion \<Rightarrow> Some (dr_asset_id r)
      | ManagedMcpEntry \<Rightarrow> dr_logical_key r)"

definition claim_of :: "inspected_receipt \<Rightarrow> destination_claim" where
  "claim_of record = (ir_receipt_id record, dr_target (ir_receipt record), claim_region (ir_receipt record))"

definition push_claim ::
  "inspected_receipt \<Rightarrow> (string, destination_claim list) btree_map \<Rightarrow> (string, destination_claim list) btree_map" where
  "push_claim record claims =
     (let destination = dr_destination (ir_receipt record);
          present = (case bt_get claims destination of Some cs \<Rightarrow> cs | None \<Rightarrow> [])
      in bt_insert destination (present @ [claim_of record]) claims)"

definition conflicting_ids :: "destination_claim list \<Rightarrow> string list" where
  "conflicting_ids claims =
     (if length claims < 2 then []
      else if list_ex (\<lambda>(_, target, _). target = WholeTarget) claims then map fst claims
      else if length (remdups (map (\<lambda>(_, target, _). target) claims)) > 1 then map fst claims
      else map fst (filter (\<lambda>(_, _, region). count_list (map (\<lambda>(_, _, region'). region') claims) region > 1) claims))"

definition drain_valid ::
  "inspected_receipt \<Rightarrow> string btree_set \<times> inspected_receipt list \<times> invalid_receipt list
   \<Rightarrow> string btree_set \<times> inspected_receipt list \<times> invalid_receipt list" where
  "drain_valid record st =
     (let (conflicts, retained, invalid) = st; r = ir_receipt record
      in if bs_has conflicts (ir_receipt_id record)
         then (bs_remove (ir_receipt_id record) conflicts, retained,
               invalid @ [\<lparr>iv_receipt_id = Some (ir_receipt_id record),
                           iv_scope = InvalidDestination (dr_harness r) (dr_scope r) (dr_destination r),
                           iv_finding = conflicting_receipt_finding (dr_harness r) (dr_scope r) (dr_destination r)\<rparr>])
         else (conflicts, retained @ [record], invalid))"

definition reject_duplicate_destination_claims ::
  "inspected_receipt list \<times> invalid_receipt list \<Rightarrow> inspected_receipt list \<times> invalid_receipt list" where
  "reject_duplicate_destination_claims st =
     (let (valid, invalid) = st;
          claims = fold push_claim valid [];
          conflicts = fold (\<lambda>cs acc. bs_extend acc (conflicting_ids cs)) (bt_values claims) [];
          (_, retained, invalid') = fold drain_valid valid (conflicts, [], invalid)
      in (retained, invalid'))"

section \<open>The inspection\<close>

definition inspect_json_bounded ::
  "(string \<Rightarrow> string) \<Rightarrow> state_reader \<Rightarrow> string \<Rightarrow> nat \<Rightarrow> nat \<Rightarrow> nat \<Rightarrow> receipt_inspection result" where
  "inspect_json_bounded H rd input max_input_bytes max_receipts max_receipt_bytes =
     (if length input > max_input_bytes then Err invalid_envelope
      else bind_result (map_err invalid_envelope (visit_envelope rd max_receipts max_receipt_bytes input)) (\<lambda>envelope.
        and_then (validate_raw rd (rd_schema_version rd) (re_schema_version envelope))
        (and_then (validate_raw rd (rd_machine rd) (re_machine envelope))
        (and_then (validate_raw rd (rd_bindings rd) (re_bindings envelope))
        (and_then (case re_pack_applications envelope of
                     Some raw \<Rightarrow> validate_raw rd (rd_pack_applications rd) raw | None \<Rightarrow> Ok ())
        (and_then (validate_raw rd (rd_trust rd) (re_trust envelope))
        (and_then (validate_raw rd (rd_scans rd) (re_scans envelope))
          (let (valid, invalid) = reject_duplicate_destination_claims
                 (fold (inspect_record H rd) (re_receipts envelope) ([], []))
           in Ok \<lparr>ri_valid = sort_key ir_receipt_id valid, ri_invalid = sort_key invalid_receipt_key invalid\<rparr>))))))))"

definition DEFAULT_MAX_INPUT_BYTES :: nat where
  "DEFAULT_MAX_INPUT_BYTES = 32 * 1024 * 1024"

definition DEFAULT_MAX_RECEIPTS :: nat where
  "DEFAULT_MAX_RECEIPTS = 4096"

definition DEFAULT_MAX_RECEIPT_BYTES :: nat where
  "DEFAULT_MAX_RECEIPT_BYTES = 1024 * 1024"

definition inspect_json :: "(string \<Rightarrow> string) \<Rightarrow> state_reader \<Rightarrow> string \<Rightarrow> receipt_inspection result" where
  "inspect_json H rd input =
     inspect_json_bounded H rd input DEFAULT_MAX_INPUT_BYTES DEFAULT_MAX_RECEIPTS DEFAULT_MAX_RECEIPT_BYTES"

section \<open>Laws\<close>


text \<open>
  What the receipt reader promises: of the well-formed receipts it keeps exactly those that clash with no
  other, and every record of the envelope is accounted for.  The code groups claims by destination and rejects
  in three stages; the reference below compares receipts in pairs.
\<close>

section \<open>The reference\<close>

definition clashes :: "inspected_receipt \<Rightarrow> inspected_receipt \<Rightarrow> bool" where
  "clashes a b \<longleftrightarrow> dr_destination (ir_receipt a) = dr_destination (ir_receipt b)
     \<and> (dr_target (ir_receipt a) \<noteq> dr_target (ir_receipt b) \<or> claim_region (ir_receipt a) = claim_region (ir_receipt b))"

definition read_receipt :: "(string \<Rightarrow> string) \<Rightarrow> state_reader \<Rightarrow> raw_receipt \<Rightarrow> inspected_receipt option" where
  "read_receipt H rd record =
     (case rr_raw record of
        None \<Rightarrow> None
      | Some raw \<Rightarrow>
          (case rd_receipt rd raw of
             None \<Rightarrow> None
           | Some r \<Rightarrow>
               if reject_duplicate_keys rd raw \<and> receipt_id H r = Ok (rr_key record) \<and> valid_adapter_version (dr_adapter_version r)
                  \<and> valid_environment_revision (dr_environment_revision r)
               then Some \<lparr>ir_receipt_id = rr_key record, ir_receipt = r\<rparr> else None))"

section \<open>Reading the records\<close>

lemma receipt_id_parses: "receipt_id H r = Ok i \<Longrightarrow> identifier_parse i = Ok i"
  by (auto simp: receipt_id_def and_then_Ok_iff identifier_parse_Ok_iff)

lemma inspect_record_step:
  "\<exists>bad. inspect_record H rd r (valid, invalid) =
     (valid @ (case read_receipt H rd r of Some x \<Rightarrow> [x] | None \<Rightarrow> []),
      invalid @ (case read_receipt H rd r of Some x \<Rightarrow> [] | None \<Rightarrow> [bad]))"
proof (cases "read_receipt H rd r")
  case (Some x)
  then have "inspect_record H rd r (valid, invalid) = (valid @ [x], invalid)"
    by (auto simp: read_receipt_def inspect_record_def inspect_receipt_def result_ok_def receipt_id_parses Let_def
        split: option.splits if_splits)
  then show ?thesis using Some by simp
next
  case None
  have "identifier_parse k = Ok i \<Longrightarrow> i = k" for k i by (simp add: identifier_parse_Ok_iff)
  with None have "\<exists>bad. inspect_record H rd r (valid, invalid) = (valid, invalid @ [bad])"
    by (auto simp: read_receipt_def inspect_record_def inspect_receipt_def result_ok_def Let_def
        split: option.splits if_splits sum.splits)
  then show ?thesis using None by auto
qed

lemma inspect_records:
  "\<exists>bads. fold (inspect_record H rd) rs (valid, invalid) = (valid @ List.map_filter (read_receipt H rd) rs, invalid @ bads)
     \<and> length (List.map_filter (read_receipt H rd) rs) + length bads = length rs"
proof (induction rs arbitrary: valid invalid)
  case (Cons r rs)
  obtain bad where step: "inspect_record H rd r (valid, invalid) =
     (valid @ (case read_receipt H rd r of Some x \<Rightarrow> [x] | None \<Rightarrow> []),
      invalid @ (case read_receipt H rd r of Some x \<Rightarrow> [] | None \<Rightarrow> [bad]))"
    using inspect_record_step by blast
  show ?case
  proof (cases "read_receipt H rd r")
    case None
    then show ?thesis using step Cons.IH[of valid "invalid @ [bad]"] by (auto simp: List.map_filter_simps)
  next
    case (Some x)
    then show ?thesis using step Cons.IH[of "valid @ [x]" invalid] by (auto simp: List.map_filter_simps)
  qed
qed (simp add: List.map_filter_simps)

lemma read_receipt_key: "read_receipt H rd r = Some x \<Longrightarrow> ir_receipt_id x = rr_key r"
  by (auto simp: read_receipt_def split: option.splits if_splits)

lemma distinct_read:
  "distinct (map rr_key rs) \<Longrightarrow> distinct (map ir_receipt_id (List.map_filter (read_receipt H rd) rs))"
proof (induction rs)
  case (Cons r rs)
  then show ?case
    by (cases "read_receipt H rd r")
      (auto simp: List.map_filter_simps List.map_filter_def read_receipt_key image_iff dest: read_receipt_key)
qed (simp add: List.map_filter_simps)

lemma visit_receipts_keys:
  assumes "visit_receipts rd m b raw = Ok rs"
  shows "distinct (map rr_key rs) \<and> length rs \<le> m"
proof -
  obtain members seen where
    run: "try_fold (visit_receipt m b) ([], []) members = Ok (seen, rs)"
    using assms by (auto simp: visit_receipts_def bind_result_Ok_iff)
  have "(\<lambda>(seen, rs). set seen = set (map rr_key rs) \<and> distinct (map rr_key rs) \<and> length rs \<le> m) (seen, rs)"
    by (rule try_fold_invariant[OF run])
      (auto simp: visit_receipt_def Let_def split: if_splits)
  then show ?thesis by simp
qed

lemma envelope_receipt_keys:
  assumes "visit_envelope rd m b input = Ok e"
  shows "distinct (map rr_key (re_receipts e)) \<and> length (re_receipts e) \<le> m"
proof -
  obtain members seen fields where
    run: "try_fold (visit_field rd m b) ([], no_fields) members = Ok (seen, fields)"
    and receipts: "ef_receipts fields = Some (re_receipts e)"
    using assms by (auto simp: visit_envelope_def bind_result_Ok_iff required_field_def ok_or_Ok_iff)
  have "(\<lambda>(seen, fields). \<forall>rs\<in>set_option (ef_receipts fields). distinct (map rr_key rs) \<and> length rs \<le> m) (seen, fields)"
    by (rule try_fold_invariant[OF run])
      (auto simp: visit_field_def no_fields_def Let_def bind_result_Ok_iff split: if_splits dest!: visit_receipts_keys)
  then show ?thesis using receipts by simp
qed

section \<open>Grouping by destination\<close>

lemma claims_lookup:
  "bt_get (fold push_claim rs m) d =
     (let new = map claim_of (filter (\<lambda>r. dr_destination (ir_receipt r) = d) rs)
      in if new = [] then bt_get m d else Some ((case bt_get m d of Some cs \<Rightarrow> cs | None \<Rightarrow> []) @ new))"
  by (induction rs arbitrary: m) (auto simp: push_claim_def Let_def bt_get_insert split: option.splits)

lemma claims_wf: "bt_wf m \<Longrightarrow> bt_wf (fold push_claim rs m)"
  by (induction rs arbitrary: m) (auto simp: push_claim_def Let_def bt_wf_insert)

lemma claims_values:
  "set (bt_values (fold push_claim rs [])) =
     {map claim_of (filter (\<lambda>r. dr_destination (ir_receipt r) = d) rs) |d. d \<in> (\<lambda>r. dr_destination (ir_receipt r)) ` set rs}"
  (is "?V = ?G")
proof -
  have wf: "bt_wf (fold push_claim rs [])" by (rule claims_wf) simp
  have "cs \<in> ?V \<longleftrightarrow> (\<exists>d. bt_get (fold push_claim rs []) d = Some cs)" for cs
    using bt_get_iff[OF wf] by (force simp: bt_values_def)
  moreover have "bt_get (fold push_claim rs []) d =
      (let new = map claim_of (filter (\<lambda>r. dr_destination (ir_receipt r) = d) rs) in if new = [] then None else Some new)" for d
    by (simp add: claims_lookup Let_def) (simp add: bt_get_def)
  ultimately have "cs \<in> ?V \<longleftrightarrow> (\<exists>d. filter (\<lambda>r. dr_destination (ir_receipt r) = d) rs \<noteq> []
      \<and> cs = map claim_of (filter (\<lambda>r. dr_destination (ir_receipt r) = d) rs))" for cs
    by (auto simp: Let_def)
  then have "?V = {cs. \<exists>d. filter (\<lambda>r. dr_destination (ir_receipt r) = d) rs \<noteq> []
      \<and> cs = map claim_of (filter (\<lambda>r. dr_destination (ir_receipt r) = d) rs)}" by blast
  also have "\<dots> = ?G" by (rule Collect_cong) (auto simp: filter_empty_conv image_iff)
  finally show ?thesis .
qed

lemma fold_bs_extend: "set (fold (\<lambda>x acc. bs_extend acc (f x)) xs s) = set s \<union> (\<Union>x\<in>set xs. set (f x))"
  by (induction xs arbitrary: s) auto

lemma conflicting_ids_subset: "set (conflicting_ids claims) \<subseteq> fst ` set claims"
  by (auto simp: conflicting_ids_def)

lemma shared_claims:
  assumes "distinct (map ir_receipt_id g)" and "r \<in> set g"
  shows "count_list (map (\<lambda>(_, _, region). region) (map claim_of g)) (claim_region (ir_receipt r)) > 1
    \<longleftrightarrow> (\<exists>s\<in>set g. s \<noteq> r \<and> claim_region (ir_receipt r) = claim_region (ir_receipt s))"
proof -
  let ?same = "filter (\<lambda>s. claim_region (ir_receipt s) = claim_region (ir_receipt r)) g"
  have "count_list (map (\<lambda>(_, _, region). region) (map claim_of g)) c
      = length (filter (\<lambda>s. claim_region (ir_receipt s) = c) g)" for c
    by (induction g) (auto simp: claim_of_def)
  then have count: "count_list (map (\<lambda>(_, _, region). region) (map claim_of g)) (claim_region (ir_receipt r)) = length ?same" .
  have "distinct ?same" using assms(1) by (simp add: distinct_map)
  then have "length ?same = card (set ?same)" by (rule distinct_card[symmetric])
  moreover have "r \<in> set ?same" using assms(2) by simp
  then have "card (set ?same) = Suc (card (set ?same - {r}))" by (intro card.remove) simp_all
  then have "card (set ?same) > 1 \<longleftrightarrow> set ?same - {r} \<noteq> {}" by (simp add: card_gt_0_iff)
  ultimately show ?thesis unfolding count by (auto simp: eq_commute)
qed

lemma map_id_eq:
  "distinct (map ir_receipt_id g) \<Longrightarrow> r \<in> set g \<Longrightarrow> s \<in> set g \<Longrightarrow> ir_receipt_id r = ir_receipt_id s \<longleftrightarrow> r = s"
  by (auto simp: distinct_map dest: inj_onD)

lemma another_claim:
  assumes "distinct (map ir_receipt_id g)" "r \<in> set g" "\<not> length (map claim_of g) < 2"
  shows "\<exists>s\<in>set g. s \<noteq> r"
proof -
  have "card (set g) \<ge> 2" using assms(1,3) by (simp add: distinct_map distinct_card)
  moreover have "card (set g) = Suc (card (set g - {r}))" using assms(2) by (intro card.remove) simp_all
  ultimately have "card (set g - {r}) > 0" by simp
  then show ?thesis by (auto simp: card_gt_0_iff)
qed

lemma other_kind:
  assumes "length (remdups xs) > 1" shows "\<exists>y\<in>set xs. y \<noteq> (x :: receipt_target)"
proof (rule ccontr)
  assume "\<not> ?thesis"
  then have "set xs \<subseteq> {x}" by auto
  then have "card (set xs) \<le> card {x}" by (intro card_mono) simp_all
  then show False using assms by (simp add: length_remdups_card_conv)
qed

lemma one_kind:
  assumes "\<not> length (remdups xs) > 1" "x \<in> set xs" "y \<in> set xs" shows "x = y"
proof -
  have "card (set xs) \<le> 1" using assms(1) by (simp add: length_remdups_card_conv)
  then show ?thesis using assms(2,3) by (metis List.finite_set card_le_Suc0_iff_eq One_nat_def)
qed

lemma group_conflicts:
  assumes ids: "distinct (map ir_receipt_id g)" and r: "r \<in> set g"
  shows "ir_receipt_id r \<in> set (conflicting_ids (map claim_of g)) \<longleftrightarrow>
    (\<exists>s\<in>set g. s \<noteq> r \<and> (dr_target (ir_receipt r) \<noteq> dr_target (ir_receipt s)
       \<or> claim_region (ir_receipt r) = claim_region (ir_receipt s)))" (is "?L \<longleftrightarrow> ?R")
proof -
  let ?kinds = "map (\<lambda>(_, target, _). target) (map claim_of g)"
  have kinds: "set ?kinds = (\<lambda>s. dr_target (ir_receipt s)) ` set g" by (auto simp: claim_of_def image_iff)
  have all: "ir_receipt_id r \<in> set (map fst (map claim_of g))" using r by (auto simp: claim_of_def image_iff)
  consider "length (map claim_of g) < 2" | "\<not> length (map claim_of g) < 2" "\<exists>w\<in>set g. dr_target (ir_receipt w) = WholeTarget"
    | "\<not> length (map claim_of g) < 2" "\<not> (\<exists>w\<in>set g. dr_target (ir_receipt w) = WholeTarget)" "length (remdups ?kinds) > 1"
    | "\<not> length (map claim_of g) < 2" "\<not> (\<exists>w\<in>set g. dr_target (ir_receipt w) = WholeTarget)" "\<not> length (remdups ?kinds) > 1"
    by blast
  then show ?thesis
  proof cases
    case 1
    then have "length g < 2" by simp
    then have "g = [r]" using r by (cases g) auto
    then show ?thesis by (simp add: conflicting_ids_def)
  next
    case 2
    then obtain w s where "w \<in> set g" "dr_target (ir_receipt w) = WholeTarget" "s \<in> set g" "s \<noteq> r"
      using another_claim[OF ids r] by blast
    then have ?R
    proof (cases "dr_target (ir_receipt r) = WholeTarget")
      case True
      then have "dr_target (ir_receipt r) \<noteq> dr_target (ir_receipt s) \<or> claim_region (ir_receipt r) = claim_region (ir_receipt s)"
        by (auto simp: claim_region_def)
      then show ?thesis using \<open>s \<in> set g\<close> \<open>s \<noteq> r\<close> by blast
    qed metis
    moreover have ?L using 2 all by (auto simp: conflicting_ids_def list_ex_iff claim_of_def)
    ultimately show ?thesis by simp
  next
    case 3
    then obtain s where "s \<in> set g" "dr_target (ir_receipt s) \<noteq> dr_target (ir_receipt r)"
      using other_kind[OF 3(3), of "dr_target (ir_receipt r)"] unfolding kinds by auto
    then have ?R by metis
    moreover have "conflicting_ids (map claim_of g) = map fst (map claim_of g)"
      using 3 by (simp add: conflicting_ids_def list_ex_iff)
    ultimately show ?thesis using all by simp
  next
    case 4
    have same: "dr_target (ir_receipt r) = dr_target (ir_receipt s)" if "s \<in> set g" for s
      by (rule one_kind[OF 4(3)]) (use kinds r that in auto)
    have "conflicting_ids (map claim_of g) = map fst (filter (\<lambda>(_, _, region).
        count_list (map (\<lambda>(_, _, region'). region') (map claim_of g)) region > 1) (map claim_of g))"
      using 4 by (auto simp: conflicting_ids_def list_ex_iff claim_of_def)
    then have "?L \<longleftrightarrow> (\<exists>s\<in>set g. ir_receipt_id r = ir_receipt_id s
        \<and> count_list (map (\<lambda>(_, _, region'). region') (map claim_of g)) (claim_region (ir_receipt s)) > 1)"
      by (auto simp: claim_of_def image_iff)
    also have "\<dots> \<longleftrightarrow> count_list (map (\<lambda>(_, _, region'). region') (map claim_of g)) (claim_region (ir_receipt r)) > 1"
      using map_id_eq[OF ids r] r by blast
    also have "\<dots> \<longleftrightarrow> ?R" unfolding shared_claims[OF ids r] using same by blast
    finally show ?thesis .
  qed
qed

section \<open>Rejecting\<close>

definition survives :: "inspected_receipt list \<Rightarrow> inspected_receipt \<Rightarrow> bool" where
  "survives rs r \<longleftrightarrow> \<not> (\<exists>s\<in>set rs. s \<noteq> r \<and> clashes r s)"

lemma conflict_set:
  assumes ids: "distinct (map ir_receipt_id rs)" and r: "r \<in> set rs"
  shows "ir_receipt_id r \<in> set (fold (\<lambda>cs acc. bs_extend acc (conflicting_ids cs)) (bt_values (fold push_claim rs [])) [])
    \<longleftrightarrow> \<not> survives rs r"
proof -
  let ?group = "\<lambda>d. filter (\<lambda>r. dr_destination (ir_receipt r) = d) rs"
  let ?d = "dr_destination (ir_receipt r)"
  have own: "d = ?d" if "ir_receipt_id r \<in> set (conflicting_ids (map claim_of (?group d)))" for d
  proof -
    from that obtain s where "s \<in> set rs" "dr_destination (ir_receipt s) = d" "ir_receipt_id r = ir_receipt_id s"
      using conflicting_ids_subset[of "map claim_of (?group d)"] by (auto simp: claim_of_def)
    then show ?thesis using map_id_eq[OF ids r] by blast
  qed
  have "distinct (map ir_receipt_id (?group ?d))"
    using ids by (auto simp: distinct_map intro: inj_on_subset)
  note group = group_conflicts[OF this, of r]
  have "ir_receipt_id r \<in> set (fold (\<lambda>cs acc. bs_extend acc (conflicting_ids cs)) (bt_values (fold push_claim rs [])) [])
      \<longleftrightarrow> ir_receipt_id r \<in> set (conflicting_ids (map claim_of (?group ?d)))"
    unfolding fold_bs_extend claims_values using own r by auto
  also have "\<dots> \<longleftrightarrow> \<not> survives rs r" using group r by (simp add: survives_def clashes_def) metis
  finally show ?thesis .
qed

lemma drain:
  assumes "distinct (map ir_receipt_id rs)"
  shows "\<exists>left bads. fold drain_valid rs (conflicts, retained, invalid) =
      (left, retained @ filter (\<lambda>r. ir_receipt_id r \<notin> set conflicts) rs, invalid @ bads)
    \<and> length (filter (\<lambda>r. ir_receipt_id r \<notin> set conflicts) rs) + length bads = length rs"
  using assms
proof (induction rs arbitrary: conflicts retained invalid)
  case (Cons r rs)
  have others: "filter (\<lambda>s. ir_receipt_id s \<notin> set (bs_remove (ir_receipt_id r) conflicts)) rs
      = filter (\<lambda>s. ir_receipt_id s \<notin> set conflicts) rs"
    using Cons.prems by (intro filter_cong) (auto simp: image_iff)
  show ?case
  proof (cases "ir_receipt_id r \<in> set conflicts")
    case True
    then have step: "drain_valid r (conflicts, retained, invalid) = (bs_remove (ir_receipt_id r) conflicts, retained,
        invalid @ [\<lparr>iv_receipt_id = Some (ir_receipt_id r),
           iv_scope = InvalidDestination (dr_harness (ir_receipt r)) (dr_scope (ir_receipt r)) (dr_destination (ir_receipt r)),
           iv_finding = conflicting_receipt_finding (dr_harness (ir_receipt r)) (dr_scope (ir_receipt r))
             (dr_destination (ir_receipt r))\<rparr>])"
      by (simp add: drain_valid_def Let_def)
    show ?thesis
      using True Cons.prems Cons.IH[of "bs_remove (ir_receipt_id r) conflicts" retained, unfolded others]
      by (simp add: step) (metis append_assoc append_Cons append_Nil length_Cons add_Suc_right)
  next
    case False
    then show ?thesis
      using Cons.prems Cons.IH[of conflicts "retained @ [r]" invalid] by (auto simp: drain_valid_def Let_def)
  qed
qed auto

lemma reject_clashing:
  assumes "distinct (map ir_receipt_id rs)"
  shows "\<exists>bads. reject_duplicate_destination_claims (rs, invalid) = (filter (survives rs) rs, invalid @ bads)
    \<and> length (filter (survives rs) rs) + length bads = length rs"
proof -
  let ?conflicts = "fold (\<lambda>cs acc. bs_extend acc (conflicting_ids cs)) (bt_values (fold push_claim rs [])) []"
  have "filter (\<lambda>r. ir_receipt_id r \<notin> set ?conflicts) rs = filter (survives rs) rs"
    by (rule filter_cong) (use conflict_set[OF assms] in auto)
  then show ?thesis
    using drain[OF assms, of ?conflicts "[]" invalid] by (auto simp: reject_duplicate_destination_claims_def Let_def)
qed

section \<open>A sample state\<close>

definition sample_state_receipt :: "string \<Rightarrow> string \<Rightarrow> deployment_receipt" where
  "sample_state_receipt asset destination =
     sample_receipt\<lparr>dr_asset_id := asset, dr_destination := destination,
       dr_environment_revision := ''manifest:blake3:'' @ replicate 64 CHR ''0''\<rparr>"

definition sample_hash_by_length :: "string \<Rightarrow> string" where
  "sample_hash_by_length b = replicate 64 (if length b mod 3 = 0 then CHR ''0'' else if length b mod 3 = 1 then CHR ''1'' else CHR ''2'')"

definition sample_reader :: state_reader where
  "sample_reader =
     \<lparr>rd_members = (\<lambda>text.
        if text = ''state'' then Some (map (\<lambda>k. (k, k)) [''schema_version'', ''machine'', ''bindings'', ''receipts'', ''trust'', ''scans''])
        else if text = ''receipts'' then
          Some [(''receipt-'' @ replicate 64 CHR ''0'', ''a''), (''receipt-'' @ replicate 64 CHR ''1'', ''b''),
            (''receipt-'' @ replicate 64 CHR ''2'', ''c''), (''d'', ''d'')]
        else Some []),
      rd_value = (\<lambda>_. Some JNull), rd_schema_version = (\<lambda>_. True), rd_machine = (\<lambda>_. True), rd_bindings = (\<lambda>_. True),
      rd_pack_applications = (\<lambda>_. True), rd_trust = (\<lambda>_. True), rd_scans = (\<lambda>_. True),
      rd_receipt = (\<lambda>text. if text = ''a'' then Some (sample_state_receipt ''one'' ''/a'')
        else if text = ''b'' then Some (sample_state_receipt ''four'' ''/b'')
        else if text = ''c'' then Some (sample_state_receipt ''three'' ''/a'') else None)\<rparr>"

definition sample_envelope :: raw_envelope where
  "sample_envelope =
     \<lparr>re_schema_version = ''schema_version'', re_machine = ''machine'', re_bindings = ''bindings'',
      re_receipts = [\<lparr>rr_key = ''receipt-'' @ replicate 64 CHR ''0'', rr_raw = Some ''a''\<rparr>,
        \<lparr>rr_key = ''receipt-'' @ replicate 64 CHR ''1'', rr_raw = Some ''b''\<rparr>,
        \<lparr>rr_key = ''receipt-'' @ replicate 64 CHR ''2'', rr_raw = Some ''c''\<rparr>, \<lparr>rr_key = ''d'', rr_raw = Some ''d''\<rparr>],
      re_pack_applications = None, re_trust = ''trust'', re_scans = ''scans''\<rparr>"

lemma sample_receipts_visited: "visit_receipts sample_reader 9 9 ''receipts'' = Ok (re_receipts sample_envelope)"
  by (simp add: visit_receipts_def sample_reader_def sample_envelope_def visit_receipt_def)

lemma sample_envelope_read: "visit_envelope sample_reader 9 9 ''state'' = Ok sample_envelope"
  apply (simp add: visit_envelope_def sample_receipts_visited)
  apply (simp add: sample_reader_def visit_field_def sample_receipts_visited[unfolded sample_reader_def] no_fields_def required_field_def)
  by (simp add: sample_envelope_def)

lemma sample_hash_is_hex: "blake3_hex sample_hash_by_length"
  by (simp add: blake3_hex_def is_lower_hex_def list_all_iff lower_hex_digit_def char_class_defs sample_hash_by_length_def)

lemma sample_read:
  "map (read_receipt sample_hash_by_length sample_reader) (re_receipts sample_envelope) =
    [Some \<lparr>ir_receipt_id = ''receipt-'' @ replicate 64 CHR ''0'', ir_receipt = sample_state_receipt ''one'' ''/a''\<rparr>,
     Some \<lparr>ir_receipt_id = ''receipt-'' @ replicate 64 CHR ''1'', ir_receipt = sample_state_receipt ''four'' ''/b''\<rparr>,
     Some \<lparr>ir_receipt_id = ''receipt-'' @ replicate 64 CHR ''2'', ir_receipt = sample_state_receipt ''three'' ''/a''\<rparr>, None]"
proof -
  have id: "receipt_id sample_hash_by_length (sample_state_receipt a d) =
     Ok (''receipt-'' @ sample_hash_by_length (receipt_preimage (sample_state_receipt a d)))" for a d
    unfolding receipt_id_def hex_identifier(1)[OF sample_hash_is_hex]
    by (simp add: receipt_checks_def sample_state_receipt_def sample_receipt_def bt_keys_def bt_values_def bs_has_def)
  have len: "length (receipt_preimage (sample_state_receipt a d)) = 64 + length a + length d" for a d
    by (simp add: receipt_preimage_def receipt_fields_def write_text_record_def harness_id_as_str_def harness_scope_as_str_def
       sample_state_receipt_def sample_receipt_def)
  have prefix: "strip_prefix ''manifest:blake3:'' (''manifest:blake3:'' @ x) = Some x" for x by (simp only: strip_prefix_Some_iff)
  have versions: "valid_adapter_version (dr_adapter_version (sample_state_receipt a d))"
    "valid_environment_revision (dr_environment_revision (sample_state_receipt a d))" for a d
    by (simp_all add: valid_adapter_version_def valid_environment_revision_def sample_state_receipt_def sample_receipt_def
        prefix[simplified] is_lower_hex_def list_all_iff lower_hex_digit_def char_class_defs)
  show ?thesis
    by (simp add: sample_envelope_def read_receipt_def id versions sample_hash_by_length_def len) 
      (simp add: sample_reader_def reject_duplicate_keys_def id versions sample_hash_by_length_def len)
qed

section \<open>Properties\<close>

text \<open>C28: Inspection keeps exactly the receipts that prove ownership.  Of the records whose key is the identity of a
  receipt without repeated keys and with plausible versions, the valid ones are those that clash with no other
  such record: none has the same destination with another kind of target or the same region.  They come in
  the order of their identities, each once, and every record of the envelope is accounted for, as valid or
  as invalid.\<close>

theorem inspected_receipts_prove_ownership:
  assumes "inspect_json_bounded H rd input max_input_bytes max_receipts max_receipt_bytes = Ok r"
    and "visit_envelope rd max_receipts max_receipt_bytes input = Ok e"
  shows "(let well_formed = {x. \<exists>record\<in>set (re_receipts e). read_receipt H rd record = Some x}
      in set (ri_valid r) = {x \<in> well_formed. \<not> (\<exists>y\<in>well_formed. y \<noteq> x \<and> clashes x y)})
    \<and> sorted_wrt (<) (map ir_receipt_id (ri_valid r))
    \<and> length (ri_valid r) + length (ri_invalid r) = length (re_receipts e) \<and> length (re_receipts e) \<le> max_receipts"
proof -
  let ?W = "List.map_filter (read_receipt H rd) (re_receipts e)"
  note keys = envelope_receipt_keys[OF assms(2)]
  then have ids: "distinct (map ir_receipt_id ?W)" using distinct_read by blast
  obtain bads where read: "fold (inspect_record H rd) (re_receipts e) ([], []) = (?W, bads)"
    and reads: "length ?W + length bads = length (re_receipts e)"
    using inspect_records[of H rd "re_receipts e" "[]" "[]"] by auto
  obtain more where rejected: "reject_duplicate_destination_claims (?W, bads) = (filter (survives ?W) ?W, bads @ more)"
    and rest: "length (filter (survives ?W) ?W) + length more = length ?W"
    using reject_clashing[OF ids] by blast
  have r: "ri_valid r = sort_key ir_receipt_id (filter (survives ?W) ?W)"
      "ri_invalid r = sort_key invalid_receipt_key (bads @ more)"
    using assms by (auto simp: inspect_json_bounded_def and_then_Ok_iff read rejected split: if_splits)
  have set_W: "set ?W = {x. \<exists>record\<in>set (re_receipts e). read_receipt H rd record = Some x}"
    by (force simp: List.map_filter_def)
  have "distinct (map ir_receipt_id (ri_valid r))"
    unfolding r using ids by (auto simp: distinct_map intro: inj_on_subset)
  moreover have "sorted (map ir_receipt_id (ri_valid r))" unfolding r by simp
  ultimately have "sorted_wrt (<) (map ir_receipt_id (ri_valid r))" by (simp add: strict_sorted_iff)
  moreover have "length (ri_valid r) + length (ri_invalid r) = length (re_receipts e)"
    unfolding r using reads rest by simp
  ultimately show ?thesis using keys unfolding r set_W[symmetric] Let_def by (auto simp: survives_def)
qed

theorem inspected_receipts_prove_ownership_witness:
  "\<exists>r. inspect_json_bounded sample_hash_by_length sample_reader ''state'' 9 9 9 = Ok r
     \<and> set (ri_valid r) = {\<lparr>ir_receipt_id = ''receipt-'' @ replicate 64 CHR ''1'', ir_receipt = sample_state_receipt ''four'' ''/b''\<rparr>}
     \<and> length (ri_invalid r) = 3"
proof -
  have "\<exists>r. inspect_json_bounded sample_hash_by_length sample_reader ''state'' 9 9 9 = Ok r"
    unfolding inspect_json_bounded_def sample_envelope_read
    by (simp add: validate_raw_def reject_duplicate_keys_def sample_reader_def case_prod_beta sample_envelope_def)
  then obtain r where r: "inspect_json_bounded sample_hash_by_length sample_reader ''state'' 9 9 9 = Ok r" by blast
  note laws = inspected_receipts_prove_ownership[OF r sample_envelope_read]
  let ?x = "\<lambda>n a d. \<lparr>ir_receipt_id = ''receipt-'' @ replicate 64 n, ir_receipt = sample_state_receipt a d\<rparr>"
  have W: "{x. \<exists>record\<in>set (re_receipts sample_envelope). read_receipt sample_hash_by_length sample_reader record = Some x}
      = {?x CHR ''0'' ''one'' ''/a'', ?x CHR ''1'' ''four'' ''/b'', ?x CHR ''2'' ''three'' ''/a''}" (is "?W = ?S")
  proof -
    have "?W = {x. Some x \<in> set (map (read_receipt sample_hash_by_length sample_reader) (re_receipts sample_envelope))}"
      by (force simp: image_iff)
    then show ?thesis unfolding sample_read by auto
  qed
  have lone: "{x \<in> {a, b, c}. \<not> (\<exists>y\<in>{a, b, c}. y \<noteq> x \<and> clashes x y)} = {b}"
    if "a \<noteq> c" "clashes a c" "clashes c a" "\<not> clashes b a" "\<not> clashes b c" for a b c
    using that by auto
  have "?x CHR ''0'' ''one'' ''/a'' \<noteq> ?x CHR ''2'' ''three'' ''/a''" by simp
  then have valid: "set (ri_valid r) = {?x CHR ''1'' ''four'' ''/b''}"
    using conjunct1[OF laws] unfolding W Let_def
    by (subst (asm) lone) (simp_all add: clashes_def sample_state_receipt_def sample_receipt_def claim_region_def)
  have "distinct (ri_valid r)" using laws by (simp add: strict_sorted_iff distinct_map)
  then have "length (ri_valid r) = 1" using distinct_card[of "ri_valid r"] unfolding valid by simp
  moreover note valid
  ultimately show ?thesis using r laws by (auto simp: sample_envelope_def)
qed

end
