(* ===== verification/Executable_Trust.thy ===== *)
theory Executable_Trust
  imports Merge_Derivation Snapshots Merge_Contents
begin

text \<open>
  \<open>kitrove-core/src/executable_trust.rs\<close>: planning and inspecting the machine-local decision about one exact
  executable object that the manifest authorizes.  The codecs of the manifest and of the local state are
  parameters.
\<close>

section \<open>Plans\<close>

definition TRUST_RATIONALE :: string where
  "TRUST_RATIONALE = ''explicit_exact_content_review''"

datatype executable_trust_decision = DecideTrusted | DecideDenied

definition trust_decision_tag :: "executable_trust_decision \<Rightarrow> nat" where
  "trust_decision_tag d = (case d of DecideTrusted \<Rightarrow> 0 | DecideDenied \<Rightarrow> 1)"

datatype executable_trust_disposition = TrustFirst | TrustReplace | TrustNoOp

definition trust_disposition_tag :: "executable_trust_disposition \<Rightarrow> nat" where
  "trust_disposition_tag d = (case d of TrustFirst \<Rightarrow> 0 | TrustReplace \<Rightarrow> 1 | TrustNoOp \<Rightarrow> 2)"

datatype executable_trust_status = StatusTrusted | StatusDenied | StatusUnreviewed

record executable_trust_inspection =
  ei_asset_id :: string
  ei_harness :: harness_id
  ei_object_hash :: string
  ei_status :: executable_trust_status

record executable_trust_plan =
  et_asset_id :: string
  et_object_hash :: string
  et_decision :: executable_trust_decision
  et_disposition :: executable_trust_disposition
  et_manifest_revision :: string
  et_proposed_local_state :: local_state
  et_digest :: string

record trust_codec =
  tc_decode_manifest :: "string \<Rightarrow> environment_manifest option"
  tc_encode_manifest :: "environment_manifest \<Rightarrow> string option"
  tc_decode_state :: "string \<Rightarrow> local_state option"
  tc_encode_state :: "local_state \<Rightarrow> string option"

section \<open>The digest\<close>

definition trust_preimage ::
  "string \<Rightarrow> string \<Rightarrow> executable_trust_decision \<Rightarrow> executable_trust_disposition \<Rightarrow> string \<Rightarrow> string \<Rightarrow> string \<Rightarrow> string" where
  "trust_preimage asset object_hash decision disposition manifest_revision observed_hash proposed_hash =
     ''kitrove-executable-trust-plan-v1'' @ [CHR 0x00]
     @ write_text_record asset @ write_text_record object_hash
     @ [char_of (trust_decision_tag decision), char_of (trust_disposition_tag disposition)]
     @ write_text_record manifest_revision @ write_text_record observed_hash @ write_text_record proposed_hash"

definition trust_plan_digest_from_hashes ::
  "(string \<Rightarrow> string) \<Rightarrow> string \<Rightarrow> string \<Rightarrow> executable_trust_decision \<Rightarrow> executable_trust_disposition \<Rightarrow> string
   \<Rightarrow> string \<Rightarrow> string \<Rightarrow> string result" where
  "trust_plan_digest_from_hashes H asset object_hash decision disposition manifest_revision observed_hash proposed_hash =
     map_err ''trust.plan_digest_failed''
       (content_hash_parse (''blake3:''
          @ H (trust_preimage asset object_hash decision disposition manifest_revision observed_hash proposed_hash)))"

definition trust_plan_digest ::
  "(string \<Rightarrow> string) \<Rightarrow> string \<Rightarrow> string \<Rightarrow> executable_trust_decision \<Rightarrow> executable_trust_disposition \<Rightarrow> string
   \<Rightarrow> string \<Rightarrow> string \<Rightarrow> string result" where
  "trust_plan_digest H asset object_hash decision disposition manifest_revision observed_text proposed_text =
     trust_plan_digest_from_hashes H asset object_hash decision disposition manifest_revision
       (content_hash_digest H observed_text) (content_hash_digest H proposed_text)"

section \<open>Authority\<close>

text \<open>
  The catalog of one extension is built over no documents, whose type and view do not matter here.
\<close>

definition no_document_view :: "unit document_view" where
  "no_document_view =
     \<lparr>dv_kind = (\<lambda>_. PortableSkillTree), dv_object_hash = (\<lambda>_. []), dv_to_json = (\<lambda>_. Ok []), dv_text = (\<lambda>_. None)\<rparr>"

definition validate_trust_authority ::
  "(string \<Rightarrow> string) \<Rightarrow> trust_codec \<Rightarrow> string \<Rightarrow> string \<Rightarrow> string \<Rightarrow> native_extension_object
   \<Rightarrow> (string \<times> local_state) result" where
  "validate_trust_authority H codec manifest_text local_state_text asset obj =
     bind_result (map_err ''trust.manifest_invalid'' (manifest_from_toml H (tc_decode_manifest codec) manifest_text)) (\<lambda>manifest.
     bind_result (map_err ''trust.manifest_invalid'' (derive_manifest_revision H (tc_encode_manifest codec) manifest))
       (\<lambda>manifest_revision.
     bind_result (ok_or ''trust.asset_missing'' (bt_get (em_assets manifest) asset)) (\<lambda>a.
     bind_result (map_err ''trust.object_invalid'' (catalog_new no_document_view [] [] [obj] [])) (\<lambda>objects.
     and_then (map_err ''trust.asset_invalid'' (validate_extension_snapshot_asset H a objects))
     (bind_result (ok_or ''trust.asset_invalid'' (bt_get (asset_native_variants a) Pi)) (\<lambda>selected.
       if nv_object_hash selected \<noteq> ne_hash obj then Err ''trust.object_mismatch''
       else bind_result (map_err ''trust.local_state_invalid'' (local_state_from_json (tc_decode_state codec) local_state_text))
         (\<lambda>local_state. Ok (manifest_revision, local_state))))))))"

section \<open>Planning and inspecting\<close>

definition trust_disposition_of :: "trust_decision option \<Rightarrow> executable_trust_decision \<Rightarrow> executable_trust_disposition" where
  "trust_disposition_of current decision =
     (case (current, decision) of
        (None, _) \<Rightarrow> TrustFirst
      | (Some (Trusted _), DecideTrusted) \<Rightarrow> TrustNoOp
      | (Some (Denied _), DecideDenied) \<Rightarrow> TrustNoOp
      | (Some _, _) \<Rightarrow> TrustReplace)"

definition decided :: "executable_trust_decision \<Rightarrow> trust_decision" where
  "decided decision =
     (case decision of DecideTrusted \<Rightarrow> Trusted TRUST_RATIONALE | DecideDenied \<Rightarrow> Denied TRUST_RATIONALE)"

definition plan_executable_trust ::
  "(string \<Rightarrow> string) \<Rightarrow> trust_codec \<Rightarrow> string \<Rightarrow> string \<Rightarrow> string \<Rightarrow> native_extension_object
   \<Rightarrow> executable_trust_decision \<Rightarrow> executable_trust_plan result" where
  "plan_executable_trust H codec manifest_text local_state_text asset obj decision =
     bind_result (validate_trust_authority H codec manifest_text local_state_text asset obj) (\<lambda>(manifest_revision, observed).
       let disposition = trust_disposition_of (bt_get (ls_trust observed) (ne_hash obj)) decision;
           proposed = (if disposition \<noteq> TrustNoOp
                       then observed\<lparr>ls_trust := bt_insert (ne_hash obj) (decided decision) (ls_trust observed)\<rparr>
                       else observed)
       in bind_result (map_err ''trust.local_state_invalid'' (local_state_to_json (tc_encode_state codec) proposed)) (\<lambda>proposed_text.
          bind_result (trust_plan_digest H asset (ne_hash obj) decision disposition manifest_revision local_state_text proposed_text)
            (\<lambda>digest.
          Ok \<lparr>et_asset_id = asset, et_object_hash = ne_hash obj, et_decision = decision, et_disposition = disposition,
              et_manifest_revision = manifest_revision, et_proposed_local_state = proposed, et_digest = digest\<rparr>)))"

definition trust_status_of :: "trust_decision option \<Rightarrow> executable_trust_status" where
  "trust_status_of current =
     (case current of Some (Trusted _) \<Rightarrow> StatusTrusted | Some (Denied _) \<Rightarrow> StatusDenied | None \<Rightarrow> StatusUnreviewed)"

definition inspect_executable_trust ::
  "(string \<Rightarrow> string) \<Rightarrow> trust_codec \<Rightarrow> string \<Rightarrow> string \<Rightarrow> string \<Rightarrow> native_extension_object
   \<Rightarrow> executable_trust_inspection result" where
  "inspect_executable_trust H codec manifest_text local_state_text asset obj =
     bind_result (validate_trust_authority H codec manifest_text local_state_text asset obj) (\<lambda>(_, local_state).
       Ok \<lparr>ei_asset_id = asset, ei_harness = Pi, ei_object_hash = ne_hash obj,
           ei_status = trust_status_of (bt_get (ls_trust local_state) (ne_hash obj))\<rparr>)"

section \<open>Laws\<close>


text \<open>
  What a trust plan promises: it decides one object and touches nothing else, its effect is what inspection
  then reports, and its digest stands for the whole decision.
\<close>

section \<open>Plans and their authority\<close>

lemma authority_of_plan:
  assumes "plan_executable_trust H codec manifest_text state_text asset obj decision = Ok p"
  obtains revision observed written where
    "validate_trust_authority H codec manifest_text state_text asset obj = Ok (revision, observed)"
    "et_disposition p = trust_disposition_of (bt_get (ls_trust observed) (ne_hash obj)) decision"
    "et_proposed_local_state p = (if et_disposition p \<noteq> TrustNoOp
       then observed\<lparr>ls_trust := bt_insert (ne_hash obj) (decided decision) (ls_trust observed)\<rparr> else observed)"
    "local_state_to_json (tc_encode_state codec) (et_proposed_local_state p) = Ok written"
    "trust_plan_digest H asset (ne_hash obj) decision (et_disposition p) revision state_text written = Ok (et_digest p)"
    "et_asset_id p = asset" "et_object_hash p = ne_hash obj" "et_decision p = decision" "et_manifest_revision p = revision"
proof -
  from assms obtain revision observed where
    "validate_trust_authority H codec manifest_text state_text asset obj = Ok (revision, observed)"
    by (auto simp: plan_executable_trust_def bind_result_Ok_iff)
  with assms show thesis
    by (auto simp: plan_executable_trust_def bind_result_Ok_iff map_err_Ok_iff Let_def intro: that)
qed

lemma authority_state:
  "validate_trust_authority H codec manifest_text state_text asset obj = Ok (revision, observed)
   \<Longrightarrow> local_state_from_json (tc_decode_state codec) state_text = Ok observed"
  by (auto simp: validate_trust_authority_def bind_result_Ok_iff map_err_Ok_iff and_then_Ok_iff split: if_splits)

lemma authority_other_state:
  assumes "validate_trust_authority H codec manifest_text state_text asset obj = Ok (revision, observed)"
    and "local_state_from_json (tc_decode_state codec) other_text = Ok state"
  shows "validate_trust_authority H codec manifest_text other_text asset obj = Ok (revision, state)"
  using assms by (auto simp: validate_trust_authority_def bind_result_Ok_iff map_err_Ok_iff and_then_Ok_iff split: if_splits)

lemma disposition_settled:
  "trust_disposition_of (Some (decided decision)) decision = TrustNoOp"
  "trust_disposition_of current decision = TrustNoOp \<Longrightarrow> trust_status_of current = trust_status_of (Some (decided decision))"
  "trust_disposition_of current decision \<noteq> TrustNoOp \<Longrightarrow> current \<noteq> Some (decided decision)"
proof -
  note tables = trust_disposition_of_def decided_def trust_status_of_def
  show "trust_disposition_of (Some (decided decision)) decision = TrustNoOp" by (cases decision) (simp_all add: tables)
  show "trust_status_of current = trust_status_of (Some (decided decision))" if "trust_disposition_of current decision = TrustNoOp"
    using that by (cases decision; cases current) (simp_all add: tables split: trust_decision.splits)
  show "current \<noteq> Some (decided decision)" if "trust_disposition_of current decision \<noteq> TrustNoOp"
    using that by (cases decision; cases current) (simp_all add: tables split: trust_decision.splits)
qed

definition status_of_decision :: "executable_trust_decision \<Rightarrow> executable_trust_status" where
  "status_of_decision d = (case d of DecideTrusted \<Rightarrow> StatusTrusted | DecideDenied \<Rightarrow> StatusDenied)"

lemma status_decided: "trust_status_of (Some (decided decision)) = status_of_decision decision"
  by (cases decision) (simp_all add: trust_status_of_def decided_def status_of_decision_def)

text \<open>After the plan, the object's entry is settled: planning again changes nothing.\<close>

lemma settled_entry:
  assumes "d = trust_disposition_of (bt_get (ls_trust observed) h) decision"
    and "proposed = (if d \<noteq> TrustNoOp then observed\<lparr>ls_trust := bt_insert h (decided decision) (ls_trust observed)\<rparr> else observed)"
  shows "trust_disposition_of (bt_get (ls_trust proposed) h) decision = TrustNoOp"
    "trust_status_of (bt_get (ls_trust proposed) h) = status_of_decision decision"
    "d = TrustNoOp \<longleftrightarrow> proposed = observed"
    "h' \<noteq> h \<Longrightarrow> bt_get (ls_trust proposed) h' = bt_get (ls_trust observed) h'"
    "proposed = observed\<lparr>ls_trust := ls_trust proposed\<rparr>"
proof -
  show "trust_disposition_of (bt_get (ls_trust proposed) h) decision = TrustNoOp"
    "trust_status_of (bt_get (ls_trust proposed) h) = status_of_decision decision"
    using assms disposition_settled by (auto simp: bt_get_insert status_decided[symmetric])
  show "h' \<noteq> h \<Longrightarrow> bt_get (ls_trust proposed) h' = bt_get (ls_trust observed) h'"
    using assms by (simp add: bt_get_insert)
  show "proposed = observed\<lparr>ls_trust := ls_trust proposed\<rparr>" using assms by simp
  show "d = TrustNoOp \<longleftrightarrow> proposed = observed"
  proof (cases "d = TrustNoOp")
    case False
    then have "bt_get (ls_trust proposed) h \<noteq> bt_get (ls_trust observed) h"
      using assms disposition_settled(3)[of "bt_get (ls_trust observed) h" decision] by (simp add: bt_get_insert)
    then show ?thesis using False by auto
  qed (use assms in simp)
qed

section \<open>The digest\<close>

lemma digest_Ok_iff:
  "trust_plan_digest H asset object_hash decision disposition revision observed proposed = Ok d \<longleftrightarrow>
     d = ''blake3:'' @ H (trust_preimage asset object_hash decision disposition revision (content_hash_digest H observed)
       (content_hash_digest H proposed)) \<and> content_hash_parse d = Ok d"
  by (auto simp: trust_plan_digest_def trust_plan_digest_from_hashes_def map_err_Ok_iff content_hash_parse_def
      qualified_digest_parse_Ok)

lemma digest_total: "blake3_hex H \<Longrightarrow> \<exists>d. trust_plan_digest H asset object_hash decision disposition revision observed proposed = Ok d"
  by (auto simp: digest_Ok_iff content_hash_parse_def qualified_digest_parse_Ok blake3_hex_def)

lemma trust_preimage_inj:
  assumes "trust_preimage a h d s r x y = trust_preimage a' h' d' s' r' x' y'"
    and "\<forall>t\<in>{a, h, r, x, y, a', h', r', x', y'}. fits_u64 t"
  shows "a = a' \<and> h = h' \<and> d = d' \<and> s = s' \<and> r = r' \<and> x = x' \<and> y = y'"
proof -
  have tags: "trust_decision_tag d mod 256 = trust_decision_tag d' mod 256 \<longleftrightarrow> d = d'"
    "trust_disposition_tag s mod 256 = trust_disposition_tag s' mod 256 \<longleftrightarrow> s = s'"
    by (cases d; cases d'; simp add: trust_decision_tag_def)
      (cases s; cases s'; simp add: trust_disposition_tag_def)
  show ?thesis using assms by (simp add: trust_preimage_def frame_simps tags)
qed

lemma digest_text_fits: "blake3_hex H \<Longrightarrow> fits_u64 (content_hash_digest H b)"
  by (simp add: fits_u64_def content_hash_digest_def blake3_hex_def is_lower_hex_def)

lemma authority_revision_fits:
  assumes "validate_trust_authority H codec manifest_text state_text asset obj = Ok (revision, observed)" "blake3_hex H"
  shows "fits_u64 revision"
proof -
  obtain b where "revision = ''manifest:blake3:'' @ H b"
    using assms(1) by (auto simp: validate_trust_authority_def bind_result_Ok_iff map_err_Ok_iff and_then_Ok_iff
        derive_manifest_revision_def revision_parse_def split: if_splits)
  then show ?thesis using assms(2) by (simp add: fits_u64_def blake3_hex_def is_lower_hex_def)
qed

lemma collision_pair: "collision_free H {a, b} \<Longrightarrow> H a = H b \<Longrightarrow> a = b"
  by (erule collision_freeD) simp_all

text \<open>The byte strings that are hashed for a plan: the observed state, the proposed one and the preimage of the digest.\<close>

definition hashed_for_trust :: "(string \<Rightarrow> string) \<Rightarrow> trust_codec \<Rightarrow> string \<Rightarrow> executable_trust_plan \<Rightarrow> string list" where
  "hashed_for_trust H codec state_text p =
     (case local_state_to_json (tc_encode_state codec) (et_proposed_local_state p) of
        Inl _ \<Rightarrow> []
      | Inr written \<Rightarrow>
          [state_text, written,
           trust_preimage (et_asset_id p) (et_object_hash p) (et_decision p) (et_disposition p) (et_manifest_revision p)
             (content_hash_digest H state_text) (content_hash_digest H written)])"

section \<open>A sample decision\<close>

definition sample_trust_provenance :: component_provenance where
  "sample_trust_provenance =
     \<lparr>cp_source = HarnessSource Pi (neo_logical_origin sample_observation), cp_revision = neo_identity sample_observation,
      cp_exact_source_hash = ct_hash sample_observed_tree, cp_origin_scope = Some ScopeUser\<rparr>"

definition sample_trust_asset :: asset where
  "sample_trust_asset = \<lparr>asset_id = ''review'', asset_kind_of = Extension, asset_content_hash = sample_hash,
     asset_provenance = [(provenance_id sample_digest sample_trust_provenance, sample_trust_provenance)],
     asset_portable = None,
     asset_native_variants = [(Pi, \<lparr>nv_harness = Pi, nv_format = native_extension_format,
       nv_root = ''assets/review/native/pi/'' @ replicate 64 CHR ''a'', nv_object_hash = ne_hash sample_observed_object,
       nv_content_class = Executable, nv_provenance = provenance_id sample_digest sample_trust_provenance\<rparr>)],
     asset_compatibility = projr (extension_compatibility (ne_hash sample_observed_object)),
     asset_content_class = Executable, asset_required_bindings = []\<rparr>"

definition sample_trust_manifest :: environment_manifest where
  "sample_trust_manifest = (manifest_requiring [])\<lparr>em_assets := [(''review'', sample_trust_asset)]\<rparr>"

lemma sample_trust_manifest_valid: "validate_manifest sample_digest sample_trust_manifest = Ok ()"
proof -
  have lists: "em_assets sample_trust_manifest = [(''review'', sample_trust_asset)]" "em_packs sample_trust_manifest = []"
    "em_profiles sample_trust_manifest = []" "em_required_bindings sample_trust_manifest = []"
    by (simp_all add: sample_trust_manifest_def manifest_requiring_def)
  have "validate_manifest_asset sample_digest sample_trust_manifest (''review'', sample_trust_asset) = Ok ()"
    by (simp add: validate_manifest_asset_def sample_trust_asset_def check_def referenced_provenance_def bs_extend_def
        bt_values_def bt_keys_def bt_has_def bt_get_def bs_has_def bs_collect_def asset_expected_content_hash_def)
      (simp add: sample_digest_def sample_hash_def)
  moreover have "manifest_pack_graph_depth sample_trust_manifest = Ok ()"
    using manifest_requiring_checks(2)[of "[]"] by (simp add: manifest_pack_graph_depth_def lists manifest_requiring_def)
  ultimately show ?thesis
    by (simp add: validate_manifest_def lists manifest_requiring_checks(1) reject_pack_cycles_def validate_pack_revisions_def
        reject_profile_cycles_def bt_keys_def bt_values_def)
qed

lemma sample_extension_compatibility:
  "extension_compatibility (ne_hash sample_observed_object) = Ok (projr (extension_compatibility (ne_hash sample_observed_object)))"
proof -
  have "\<exists>r. extension_fidelity (ne_hash sample_observed_object) h = Ok r" for h
    by (simp add: extension_fidelity_def fidelity_result_new_def ascii_head_not_blank char_is_whitespace_def NATIVE_EXTENSION_FORMAT_def
        sample_observed_object_def hash_native_extension_def)
  then obtain f where "\<And>h. extension_fidelity (ne_hash sample_observed_object) h = Ok (f h)" by metis
  then show ?thesis by (simp add: extension_compatibility_def)
qed

lemma sample_identity:
  "verified_native_extension_observation_identity sample_digest sample_trust_provenance sample_observed_object
     = Some (cp_revision sample_trust_provenance)"
proof -
  have digest: "sample_digest = (\<lambda>_. replicate 64 CHR ''a'')" by (simp add: sample_digest_def fun_eq_iff)
  show ?thesis unfolding digest
    using observations_are_verifiable[OF sample_observation_new, of sample_observed_object sample_trust_provenance] sample_observed_new
    by (simp add: sample_trust_provenance_def sample_observation_def)
qed

lemma sample_trust_risk: "assess_native_executable_tree_risk sample_observed_tree = Ok Executable"
proof -
  have "credential_free sample_observed_tree"
    using sample_extension_credentials by (simp add: credential_free_def sample_observed_tree_def sample_extension_tree_def)
  then show ?thesis by (simp add: assess_native_executable_tree_risk_def reject_credential_artifacts_Err)
qed

lemma sample_trust_asset_checked:
  assumes "catalog_new no_document_view [] [] [sample_observed_object] [] = Ok objects"
  shows "validate_extension_snapshot_asset sample_digest sample_trust_asset objects = Ok ()"
proof -
  have obj: "ne_harness sample_observed_object = Pi" "ne_tree sample_observed_object = sample_observed_tree"
    "ne_hash sample_observed_object = ''blake3:'' @ replicate 64 CHR ''a''"
    by (simp_all add: sample_observed_object_def hash_native_extension_def)
  have suffix: "strip_prefix ''blake3:'' (''blake3:'' @ x) = Some x" for x by (simp only: strip_prefix_Some_iff)
  have root: "portable_path_parse (''assets/'' @ ''review'' @ ''/native/pi/'' @ replicate 64 CHR ''a'')
      = Ok (''assets/review/native/pi/'' @ replicate 64 CHR ''a'')"
    by (simp add: portable_path_parse_def portable_segment_def starts_with_def str_chars_def char_is_control_def)
      (auto dest: arg_cong[of _ _ length])
  have found: "catalog_native_extension objects (ne_hash sample_observed_object) = Ok sample_observed_object"
    using assms by (auto simp: catalog_new_def insert_object_def bt_get_def catalog_native_extension_def)
  have asset: "asset_portable sample_trust_asset = None" "length (asset_native_variants sample_trust_asset) = 1"
    "asset_required_bindings sample_trust_asset = []" "length (asset_provenance sample_trust_asset) = 1"
    "asset_id sample_trust_asset = ''review''" "asset_content_class sample_trust_asset = Executable"
    "bt_get (asset_provenance sample_trust_asset) (provenance_id sample_digest sample_trust_provenance) = Some sample_trust_provenance"
    "asset_compatibility sample_trust_asset = projr (extension_compatibility (ne_hash sample_observed_object))"
    by (simp_all add: sample_trust_asset_def bt_get_def)
  define native where "native = the (bt_get (asset_native_variants sample_trust_asset) Pi)"
  have native: "bt_get (asset_native_variants sample_trust_asset) Pi = Some native"
      "nv_format native = native_extension_format" "nv_harness native = Pi" "nv_object_hash native = ne_hash sample_observed_object"
      "nv_root native = ''assets/review/native/pi/'' @ replicate 64 CHR ''a''" "nv_content_class native = Executable"
      "nv_provenance native = provenance_id sample_digest sample_trust_provenance"
    by (simp_all add: native_def sample_trust_asset_def bt_get_def)
  have source: "cp_exact_source_hash sample_trust_provenance = ct_hash sample_observed_tree"
    by (simp add: sample_trust_provenance_def)
  obtain c where c: "extension_compatibility (ne_hash sample_observed_object) = Ok c"
    using sample_extension_compatibility by blast
  show ?thesis
    unfolding validate_extension_snapshot_asset_def asset native ok_or_simps bind_result_simps found c
    by (simp only: obj suffix root source sample_identity sample_trust_risk c[unfolded obj] map_err_simps ok_or_simps
        bind_result_simps sum.sel) simp
qed

definition sample_trust_state :: "(string, trust_decision) btree_map \<Rightarrow> local_state" where
  "sample_trust_state trust =
     \<lparr>ls_schema_version = V1,
      ls_machine = \<lparr>mc_id = ''m'', mc_active_profile = None, mc_enabled_targets = [], mc_harness_roots = []\<rparr>,
      ls_bindings = [], ls_receipts = [], ls_pack_applications = [], ls_trust = trust, ls_scans = []\<rparr>"

definition sample_trusted :: "(string, trust_decision) btree_map" where
  "sample_trusted = [(ne_hash sample_observed_object, Trusted TRUST_RATIONALE)]"

definition sample_trust_codec :: trust_codec where
  "sample_trust_codec =
     \<lparr>tc_decode_manifest = (\<lambda>_. Some sample_trust_manifest), tc_encode_manifest = (\<lambda>_. Some ''manifest''),
      tc_decode_state = (\<lambda>t. if t = ''open'' @ [CHR 0x0A] then Some (sample_trust_state [])
         else if t = ''trusted'' @ [CHR 0x0A] then Some (sample_trust_state sample_trusted) else None),
      tc_encode_state = (\<lambda>s. if s = sample_trust_state [] then Some ''open''
         else if s = sample_trust_state sample_trusted then Some ''trusted'' else None)\<rparr>"

lemma sample_codec_inverts:
  "tc_encode_state sample_trust_codec state = Some encoded \<Longrightarrow> tc_decode_state sample_trust_codec (encoded @ [CHR 0x0A]) = Some state"
  by (auto simp: sample_trust_codec_def split: if_splits)

lemma sample_digest_hex: "blake3_hex sample_digest"
  by (simp add: blake3_hex_def is_lower_hex_def list_all_iff lower_hex_digit_def sample_digest_def)

lemma sample_trust_authority:
  "\<exists>revision. validate_trust_authority sample_digest sample_trust_codec [] (''open'' @ [CHR 0x0A]) ''review'' sample_observed_object
     = Ok (revision, sample_trust_state [])"
proof -
  obtain objects where objects: "catalog_new no_document_view [] [] [sample_observed_object] [] = Ok objects"
    by (simp add: catalog_new_def insert_object_def bt_get_def)
  have "revision_parse (''manifest:blake3:'' @ replicate 64 CHR ''a'') = Ok (''manifest:blake3:'' @ replicate 64 CHR ''a'')"
    by (simp add: revision_parse_def ascii_head_not_blank char_is_whitespace_def)
  then have "derive_manifest_revision sample_digest (\<lambda>_. Some ''manifest'') sample_trust_manifest
      = Ok (''manifest:blake3:'' @ replicate 64 CHR ''a'')"
    by (simp add: derive_manifest_revision_def manifest_to_toml_def sample_trust_manifest_valid) (simp add: sample_digest_def)
  moreover have "bt_get (em_assets sample_trust_manifest) ''review'' = Some sample_trust_asset"
    by (simp add: sample_trust_manifest_def bt_get_def)
  moreover obtain native where "bt_get (asset_native_variants sample_trust_asset) Pi = Some native"
      "nv_object_hash native = ne_hash sample_observed_object"
    by (simp add: sample_trust_asset_def bt_get_def)
  ultimately show ?thesis
    using sample_trust_asset_checked[OF objects] objects
    by (simp add: validate_trust_authority_def sample_trust_codec_def manifest_from_toml_def sample_trust_manifest_valid
        local_state_from_json_def)
qed

lemma sample_trust_planned:
  obtains p where
    "plan_executable_trust sample_digest sample_trust_codec [] (''open'' @ [CHR 0x0A]) ''review'' sample_observed_object DecideTrusted = Ok p"
    "et_disposition p = TrustFirst" "et_proposed_local_state p = sample_trust_state sample_trusted"
proof -
  obtain revision where authority: "validate_trust_authority sample_digest sample_trust_codec [] (''open'' @ [CHR 0x0A]) ''review''
      sample_observed_object = Ok (revision, sample_trust_state [])"
    using sample_trust_authority by blast
  have proposed: "(sample_trust_state [])\<lparr>ls_trust := bt_insert (ne_hash sample_observed_object) (decided DecideTrusted) []\<rparr>
      = sample_trust_state sample_trusted"
    by (simp add: sample_trust_state_def sample_trusted_def decided_def)
  have "sample_trust_state sample_trusted \<noteq> sample_trust_state []" by (simp add: sample_trust_state_def sample_trusted_def)
  then have written: "local_state_to_json (tc_encode_state sample_trust_codec) (sample_trust_state sample_trusted) = Ok (''trusted'' @ [CHR 0x0A])"
    by (simp add: local_state_to_json_def sample_trust_codec_def)
  have trust: "ls_trust (sample_trust_state []) = []" by (simp add: sample_trust_state_def)
  obtain d where "trust_plan_digest sample_digest ''review'' (ne_hash sample_observed_object) DecideTrusted TrustFirst revision
      (''open'' @ [CHR 0x0A]) (''trusted'' @ [CHR 0x0A]) = Ok d"
    using digest_total[OF sample_digest_hex] by blast
  moreover have "trust_disposition_of (bt_get [] (ne_hash sample_observed_object)) DecideTrusted = TrustFirst"
    by (simp add: trust_disposition_of_def bt_get_def)
  ultimately have "plan_executable_trust sample_digest sample_trust_codec [] (''open'' @ [CHR 0x0A]) ''review'' sample_observed_object
      DecideTrusted = Ok \<lparr>et_asset_id = ''review'', et_object_hash = ne_hash sample_observed_object, et_decision = DecideTrusted,
        et_disposition = TrustFirst, et_manifest_revision = revision, et_proposed_local_state = sample_trust_state sample_trusted,
        et_digest = d\<rparr>"
    by (simp only: plan_executable_trust_def authority bind_result_simps prod.case Let_def trust proposed written map_err_simps
        executable_trust_disposition.distinct not_False_eq_True if_True)
  then show thesis by (rule that) simp_all
qed

section \<open>Properties\<close>

text \<open>C27: A trust plan decides one object and touches nothing else.  The proposed state is the observed one with at
  most the object's own entry changed, and unchanged exactly for a no-op.  Once the proposed text is written,
  inspection reports the decision, and planning it again is a no-op that proposes the same state.\<close>

theorem trust_plans_decide_one_object:
  assumes "plan_executable_trust H codec manifest_text state_text asset obj decision = Ok p" and "blake3_hex H"
    and "\<And>state encoded. tc_encode_state codec state = Some encoded
      \<Longrightarrow> tc_decode_state codec (encoded @ [CHR 0x0A]) = Some state"
  shows "(\<exists>observed. local_state_from_json (tc_decode_state codec) state_text = Ok observed
      \<and> et_proposed_local_state p = observed\<lparr>ls_trust := ls_trust (et_proposed_local_state p)\<rparr>
      \<and> (\<forall>h. h \<noteq> ne_hash obj \<longrightarrow> bt_get (ls_trust (et_proposed_local_state p)) h = bt_get (ls_trust observed) h)
      \<and> (et_disposition p = TrustNoOp \<longleftrightarrow> et_proposed_local_state p = observed))
    \<and> (\<exists>written. local_state_to_json (tc_encode_state codec) (et_proposed_local_state p) = Ok written
      \<and> inspect_executable_trust H codec manifest_text written asset obj
          = Ok \<lparr>ei_asset_id = asset, ei_harness = Pi, ei_object_hash = ne_hash obj, ei_status = status_of_decision decision\<rparr>
      \<and> (\<exists>q. plan_executable_trust H codec manifest_text written asset obj decision = Ok q
          \<and> et_disposition q = TrustNoOp \<and> et_proposed_local_state q = et_proposed_local_state p))"
proof -
  obtain revision observed written where
    authority: "validate_trust_authority H codec manifest_text state_text asset obj = Ok (revision, observed)"
    and disposition: "et_disposition p = trust_disposition_of (bt_get (ls_trust observed) (ne_hash obj)) decision"
    and proposed: "et_proposed_local_state p = (if et_disposition p \<noteq> TrustNoOp
       then observed\<lparr>ls_trust := bt_insert (ne_hash obj) (decided decision) (ls_trust observed)\<rparr> else observed)"
    and written: "local_state_to_json (tc_encode_state codec) (et_proposed_local_state p) = Ok written"
    using authority_of_plan[OF assms(1)] by metis
  note settled = settled_entry[OF disposition proposed]
  have "local_state_from_json (tc_decode_state codec) written = Ok (et_proposed_local_state p)"
    using written assms(3) by (auto simp: local_state_to_json_def local_state_from_json_def bind_result_Ok_iff ok_or_Ok_iff)
  note again = authority_other_state[OF authority this]
  obtain d where d: "trust_plan_digest H asset (ne_hash obj) decision TrustNoOp revision written written = Ok d"
    using digest_total[OF assms(2)] by blast
  have "\<exists>q. plan_executable_trust H codec manifest_text written asset obj decision = Ok q
      \<and> et_disposition q = TrustNoOp \<and> et_proposed_local_state q = et_proposed_local_state p"
    by (simp add: plan_executable_trust_def again settled(1) written d)
  moreover have "inspect_executable_trust H codec manifest_text written asset obj
      = Ok \<lparr>ei_asset_id = asset, ei_harness = Pi, ei_object_hash = ne_hash obj, ei_status = status_of_decision decision\<rparr>"
    by (simp add: inspect_executable_trust_def again settled(2))
  ultimately show ?thesis using authority_state[OF authority] settled(3,4,5) written by blast
qed

theorem trust_plans_decide_one_object_witness:
  "inspect_executable_trust sample_digest sample_trust_codec [] (''trusted'' @ [CHR 0x0A]) ''review'' sample_observed_object
     = Ok \<lparr>ei_asset_id = ''review'', ei_harness = Pi, ei_object_hash = ne_hash sample_observed_object, ei_status = StatusTrusted\<rparr>"
proof -
  obtain p where p: "plan_executable_trust sample_digest sample_trust_codec [] (''open'' @ [CHR 0x0A]) ''review''
      sample_observed_object DecideTrusted = Ok p" "et_proposed_local_state p = sample_trust_state sample_trusted"
    using sample_trust_planned by metis
  have "sample_trust_state sample_trusted \<noteq> sample_trust_state []" by (simp add: sample_trust_state_def sample_trusted_def)
  then have "local_state_to_json (tc_encode_state sample_trust_codec) (et_proposed_local_state p) = Ok (''trusted'' @ [CHR 0x0A])"
    by (simp add: p(2) local_state_to_json_def sample_trust_codec_def)
  then show ?thesis
    using trust_plans_decide_one_object[OF p(1) sample_digest_hex sample_codec_inverts]
    by (auto simp: status_of_decision_def)
qed

text \<open>The digest a user confirms identifies the decision: two plans with one digest, under a hash without a
  collision between corresponding texts of the two, decide the same object of the same asset in the same way, from the same
  observed state to the same proposed one, under the same manifest revision.\<close>

theorem trust_digest_identifies_decision:
  assumes "plan_executable_trust H codec manifest_text state_text asset obj decision = Ok p"
    and "plan_executable_trust H codec manifest_text' state_text' asset' obj' decision' = Ok q"
    and "et_digest p = et_digest q" "blake3_hex H"
    and "list_all2 (\<lambda>a b. collision_free H {a, b}) (hashed_for_trust H codec state_text p) (hashed_for_trust H codec state_text' q)"
    and "\<forall>t\<in>{asset, ne_hash obj, asset', ne_hash obj'}. fits_u64 t"
    and "\<And>state encoded. tc_encode_state codec state = Some encoded
      \<Longrightarrow> tc_decode_state codec (encoded @ [CHR 0x0A]) = Some state"
  shows "state_text = state_text' \<and> p = q"
proof -
  obtain revision observed written where
    p: "validate_trust_authority H codec manifest_text state_text asset obj = Ok (revision, observed)"
      "local_state_to_json (tc_encode_state codec) (et_proposed_local_state p) = Ok written"
      "trust_plan_digest H asset (ne_hash obj) decision (et_disposition p) revision state_text written = Ok (et_digest p)"
    and p_fields: "et_asset_id p = asset" "et_object_hash p = ne_hash obj" "et_decision p = decision"
      "et_manifest_revision p = revision"
    using authority_of_plan[OF assms(1)] by metis
  obtain revision' observed' written' where
    q: "validate_trust_authority H codec manifest_text' state_text' asset' obj' = Ok (revision', observed')"
      "local_state_to_json (tc_encode_state codec) (et_proposed_local_state q) = Ok written'"
      "trust_plan_digest H asset' (ne_hash obj') decision' (et_disposition q) revision' state_text' written' = Ok (et_digest q)"
    and q_fields: "et_asset_id q = asset'" "et_object_hash q = ne_hash obj'" "et_decision q = decision'"
      "et_manifest_revision q = revision'"
    using authority_of_plan[OF assms(2)] by metis
  have "hashed_for_trust H codec state_text p = [state_text, written, trust_preimage asset (ne_hash obj) decision
      (et_disposition p) revision (content_hash_digest H state_text) (content_hash_digest H written)]"
    "hashed_for_trust H codec state_text' q = [state_text', written', trust_preimage asset' (ne_hash obj') decision'
      (et_disposition q) revision' (content_hash_digest H state_text') (content_hash_digest H written')]"
    by (simp_all add: hashed_for_trust_def p(2) q(2) p_fields q_fields)
  note pairs = assms(5)[unfolded this list_all2_Cons]
  have apart: "H state_text = H state_text' \<Longrightarrow> state_text = state_text'" "H written = H written' \<Longrightarrow> written = written'"
    using pairs collision_pair by blast+
  have "trust_preimage asset (ne_hash obj) decision (et_disposition p) revision
        (content_hash_digest H state_text) (content_hash_digest H written)
      = trust_preimage asset' (ne_hash obj') decision' (et_disposition q) revision'
        (content_hash_digest H state_text') (content_hash_digest H written')"
    by (rule collision_pair[where H = H]) (use pairs p(3) q(3) assms(3) in \<open>simp_all add: digest_Ok_iff\<close>)
  from trust_preimage_inj[OF this]
  have same: "asset = asset'" "ne_hash obj = ne_hash obj'" "decision = decision'" "et_disposition p = et_disposition q"
      "revision = revision'" "content_hash_digest H state_text = content_hash_digest H state_text'"
      "content_hash_digest H written = content_hash_digest H written'"
    using assms(6) digest_text_fits[OF assms(4)] authority_revision_fits[OF p(1) assms(4)]
      authority_revision_fits[OF q(1) assms(4)] by auto
  have states: "state_text = state_text'" "written = written'"
    using same(6,7) by (simp_all add: content_hash_digest_def apart(1,2))
  have "et_proposed_local_state p = et_proposed_local_state q"
    using p(2) q(2) states(2) assms(7) by (auto simp: local_state_to_json_def bind_result_Ok_iff ok_or_Ok_iff) (metis option.inject)
  then show ?thesis
    using same states p_fields q_fields assms(3) by (intro conjI executable_trust_plan.equality) simp_all
qed

theorem trust_digest_identifies_decision_witness:
  "\<exists>p. plan_executable_trust sample_digest sample_trust_codec [] (''open'' @ [CHR 0x0A]) ''review'' sample_observed_object
     DecideTrusted = Ok p \<and> et_disposition p = TrustFirst \<and> ''open'' @ [CHR 0x0A] = ''open'' @ [CHR 0x0A] \<and> p = p"
proof -
  obtain p where p: "plan_executable_trust sample_digest sample_trust_codec [] (''open'' @ [CHR 0x0A]) ''review''
      sample_observed_object DecideTrusted = Ok p" "et_disposition p = TrustFirst"
    using sample_trust_planned by metis
  have "list_all2 (\<lambda>a b. collision_free sample_digest {a, b}) xs xs" for xs
    by (simp add: list_all2_same collision_free_def)
  moreover have "ne_hash sample_observed_object = ''blake3:'' @ replicate 64 CHR ''a''"
    by (simp add: sample_observed_object_def hash_native_extension_def)
  then have "\<forall>t\<in>{''review'', ne_hash sample_observed_object, ''review'', ne_hash sample_observed_object}. fits_u64 t"
    by (simp add: fits_u64_def)
  ultimately have "''open'' @ [CHR 0x0A] = ''open'' @ [CHR 0x0A] \<and> p = p"
    by (rule trust_digest_identifies_decision[OF p(1) p(1) refl sample_digest_hex _ _ sample_codec_inverts])
  with p show ?thesis by blast
qed

end
