(* ===== verification/Quarantine_Names.thy ===== *)
theory Quarantine_Names
  imports Text_Bytes "HOL-Library.Word"
begin

text \<open>
  \<open>kitrove-core/src/quarantine_name.rs\<close>, as compiled on Unix: the names under which removed objects, clean-up
  batches and evacuated files wait in the quarantine, with the identity of the file in the name, and the
  identity of \<open>filesystem_identity.rs\<close>.  An \<open>OsStr\<close> is its bytes.
\<close>

section \<open>Names\<close>

definition REMOVED_PREFIX :: string where
  "REMOVED_PREFIX = ''.kitrove-removed-v1-unix-''"

definition CLEANUP_PENDING_PREFIX :: string where
  "CLEANUP_PENDING_PREFIX = ''.kitrove-cleanup-pending-v1-''"

definition CLEANUP_BATCH_PREFIX :: string where
  "CLEANUP_BATCH_PREFIX = ''.kitrove-cleanup-v1-unix-''"

definition CLEANUP_LEAF_PREFIX :: string where
  "CLEANUP_LEAF_PREFIX = ''.kitrove-cleanup-leaf-v1-unix-''"

definition RETAINED_PREFIX :: string where
  "RETAINED_PREFIX = ''.kitrove-retained-v1-''"

definition NONCE_HEX_LEN :: nat where
  "NONCE_HEX_LEN = 32"

definition IDENTITY_HEX_LEN :: nat where
  "IDENTITY_HEX_LEN = 16"

lemmas name_defs = REMOVED_PREFIX_def CLEANUP_PENDING_PREFIX_def CLEANUP_BATCH_PREFIX_def CLEANUP_LEAF_PREFIX_def
  RETAINED_PREFIX_def NONCE_HEX_LEN_def IDENTITY_HEX_LEN_def

datatype removed_object_kind = RemovedFile | RemovedDirectory

definition kind_tag :: "removed_object_kind \<Rightarrow> char" where
  "kind_tag k = (case k of RemovedFile \<Rightarrow> CHR ''f'' | RemovedDirectory \<Rightarrow> CHR ''d'')"

definition kind_from_tag :: "char \<Rightarrow> removed_object_kind option" where
  "kind_from_tag tag = (if tag = CHR ''f'' then Some RemovedFile else if tag = CHR ''d'' then Some RemovedDirectory else None)"

record metadata_identity =
  mi_device :: "64 word"
  mi_inode :: "64 word"

record removal_tombstone_name =
  rt_kind :: removed_object_kind
  rt_identity :: metadata_identity

section \<open>Hexadecimal fields\<close>

definition hex_value :: "char \<Rightarrow> nat" where
  "hex_value c = (if byte c < 58 then byte c - 48 else byte c - 87)"

text \<open>\<open>{:0IDENTITY_HEX_LEN$x}\<close>: the digits of a number, in as many places as asked for.\<close>

fun hex_places :: "nat \<Rightarrow> nat \<Rightarrow> string" where
  "hex_places 0 n = []"
| "hex_places (Suc k) n = hex_places k (n div 16) @ [hex_digit (n mod 16)]"

definition hex_word :: "64 word \<Rightarrow> string" where
  "hex_word w = hex_places IDENTITY_HEX_LEN (unat w)"

definition hex_number :: "string \<Rightarrow> nat" where
  "hex_number s = foldl (\<lambda>n c. 16 * n + hex_value c) 0 s"

text \<open>\<open>u64::from_str_radix\<close> refuses what does not fit; sixteen digits always do.\<close>

definition parse_fixed_hex :: "string \<Rightarrow> 64 word option" where
  "parse_fixed_hex v =
     (if \<not> is_lower_hex v IDENTITY_HEX_LEN then None
      else if hex_number v < 2 ^ 64 then Some (of_nat (hex_number v)) else None)"

section \<open>Encoding and parsing\<close>

definition to_str :: "string \<Rightarrow> string option" where
  "to_str name = (if is_text name then Some name else None)"

definition single_ascii_byte :: "string \<Rightarrow> char option" where
  "single_ascii_byte v = (case v of [c] \<Rightarrow> Some c | _ \<Rightarrow> None)"

definition encode_identity_nonce :: "string \<Rightarrow> metadata_identity \<Rightarrow> string \<Rightarrow> string option" where
  "encode_identity_nonce prefix identity nonce =
     (if \<not> is_lower_hex nonce NONCE_HEX_LEN then None
      else Some (prefix @ hex_word (mi_device identity) @ ''-'' @ hex_word (mi_inode identity) @ ''-'' @ nonce))"

definition parse_identity_nonce :: "string \<Rightarrow> metadata_identity option" where
  "parse_identity_nonce encoded =
     (case split_on CHR ''-'' encoded of
        device_text # inode_text # nonce # rest \<Rightarrow>
          Option.bind (parse_fixed_hex device_text) (\<lambda>device.
          Option.bind (parse_fixed_hex inode_text) (\<lambda>inode.
            if rest \<noteq> [] \<or> \<not> is_lower_hex nonce NONCE_HEX_LEN then None
            else Some \<lparr>mi_device = device, mi_inode = inode\<rparr>))
      | _ \<Rightarrow> None)"

definition encode_removal :: "removal_tombstone_name \<Rightarrow> string \<Rightarrow> string option" where
  "encode_removal name nonce =
     encode_identity_nonce (REMOVED_PREFIX @ [kind_tag (rt_kind name)] @ ''-'') (rt_identity name) nonce"

definition parse_removal :: "string \<Rightarrow> removal_tombstone_name option" where
  "parse_removal name =
     Option.bind (to_str name) (\<lambda>text.
     Option.bind (strip_prefix REMOVED_PREFIX text) (\<lambda>encoded.
     Option.bind (split_once CHR ''-'' encoded) (\<lambda>(kind_text, identity_nonce).
     Option.bind (single_ascii_byte kind_text) (\<lambda>tag.
     Option.bind (kind_from_tag tag) (\<lambda>kind.
     Option.bind (parse_identity_nonce identity_nonce) (\<lambda>identity.
       Some \<lparr>rt_kind = kind, rt_identity = identity\<rparr>))))))"

definition encode_cleanup_pending :: "string \<Rightarrow> string option" where
  "encode_cleanup_pending nonce =
     (if is_lower_hex nonce NONCE_HEX_LEN then Some (CLEANUP_PENDING_PREFIX @ nonce) else None)"

definition parse_cleanup_pending :: "string \<Rightarrow> unit option" where
  "parse_cleanup_pending name =
     Option.bind (to_str name) (\<lambda>text.
     Option.bind (strip_prefix CLEANUP_PENDING_PREFIX text) (\<lambda>nonce.
       if is_lower_hex nonce NONCE_HEX_LEN then Some () else None))"

definition encode_cleanup_batch :: "metadata_identity \<Rightarrow> string \<Rightarrow> string option" where
  "encode_cleanup_batch identity nonce = encode_identity_nonce CLEANUP_BATCH_PREFIX identity nonce"

definition parse_cleanup_batch :: "string \<Rightarrow> metadata_identity option" where
  "parse_cleanup_batch name =
     Option.bind (to_str name) (\<lambda>text. Option.bind (strip_prefix CLEANUP_BATCH_PREFIX text) parse_identity_nonce)"

definition encode_cleanup_leaf :: "metadata_identity \<Rightarrow> string \<Rightarrow> string option" where
  "encode_cleanup_leaf identity nonce = encode_identity_nonce CLEANUP_LEAF_PREFIX identity nonce"

definition parse_cleanup_leaf :: "string \<Rightarrow> metadata_identity option" where
  "parse_cleanup_leaf name =
     Option.bind (to_str name) (\<lambda>text. Option.bind (strip_prefix CLEANUP_LEAF_PREFIX text) parse_identity_nonce)"

text \<open>The retained names of the other platforms, which grant no authority to delete.\<close>

definition encode_retained :: "removed_object_kind \<Rightarrow> string \<Rightarrow> string option" where
  "encode_retained kind nonce =
     (if \<not> is_lower_hex nonce NONCE_HEX_LEN then None else Some (RETAINED_PREFIX @ [kind_tag kind] @ ''-'' @ nonce))"

definition parse_retained :: "string \<Rightarrow> removed_object_kind option" where
  "parse_retained name =
     Option.bind (to_str name) (\<lambda>text.
     Option.bind (strip_prefix RETAINED_PREFIX text) (\<lambda>encoded.
       case split_on CHR ''-'' encoded of
         kind_text # segments \<Rightarrow>
           Option.bind (single_ascii_byte kind_text) (\<lambda>tag.
           Option.bind (kind_from_tag tag) (\<lambda>kind.
             case segments of
               nonce # rest \<Rightarrow> if rest \<noteq> [] \<or> \<not> is_lower_hex nonce NONCE_HEX_LEN then None else Some kind
             | [] \<Rightarrow> None))
       | [] \<Rightarrow> None))"

section \<open>Laws\<close>


text \<open>
  Quarantine names are exact: what a parser recognises is precisely what its encoder writes for the parsed
  value, and no name belongs to two of the families.
\<close>

section \<open>Hexadecimal fields\<close>

lemma digit_value: "n < 16 \<Longrightarrow> hex_value (hex_digit n) = n"
  by (auto simp: hex_digit_def hex_value_def of_char_of)

lemma value_digit: "lower_hex_digit c \<Longrightarrow> hex_digit (hex_value c) = c"
  by (auto simp: hex_digit_def hex_value_def char_class_defs)

lemma value_less: "lower_hex_digit c \<Longrightarrow> hex_value c < 16"
  by (auto simp: hex_value_def char_class_defs)

lemma hex_number_snoc: "hex_number (s @ [c]) = 16 * hex_number s + hex_value c"
  by (simp add: hex_number_def)

lemma hex_places_lower: "is_lower_hex (hex_places k n) k"
  by (induction k arbitrary: n) (auto simp: is_lower_hex_def hex_digit_lower)

lemma hex_number_places: "n < 16 ^ k \<Longrightarrow> hex_number (hex_places k n) = n"
proof (induction k arbitrary: n)
  case (Suc k)
  then have "n div 16 < 16 ^ k" by (simp add: less_mult_imp_div_less mult.commute)
  then show ?case using Suc.IH by (simp add: hex_number_snoc digit_value)
qed (simp add: hex_number_def)

lemma hex_number_less: "list_all lower_hex_digit s \<Longrightarrow> hex_number s < 16 ^ length s"
proof (induction s rule: rev_induct)
  case (snoc c s)
  then have "hex_number s + 1 \<le> 16 ^ length s" "hex_value c < 16" by (simp_all add: value_less)
  then have "16 * hex_number s + hex_value c < 16 * 16 ^ length s" by linarith
  then show ?case by (simp add: hex_number_snoc)
qed (simp add: hex_number_def)

lemma hex_places_number: "list_all lower_hex_digit s \<Longrightarrow> hex_places (length s) (hex_number s) = s"
proof (induction s rule: rev_induct)
  case (snoc c s)
  then show ?case using value_less[of c] by (simp add: hex_number_snoc value_digit)
qed simp

lemma hex_word_lower: "is_lower_hex (hex_word w) IDENTITY_HEX_LEN"
  by (simp add: hex_word_def hex_places_lower)

lemma parse_fixed_hex_iff: "parse_fixed_hex v = Some w \<longleftrightarrow> v = hex_word w"
proof
  assume "parse_fixed_hex v = Some w"
  then have v: "is_lower_hex v IDENTITY_HEX_LEN" "hex_number v < 2 ^ 64" "w = of_nat (hex_number v)"
    by (auto simp: parse_fixed_hex_def split: if_splits)
  then have "unat w = hex_number v" by (simp add: unat_of_nat)
  then show "v = hex_word w" using v(1) hex_places_number[of v] by (auto simp: hex_word_def is_lower_hex_def)
next
  assume v: "v = hex_word w"
  have "unat w < 2 ^ 64" using unsigned_less[of w] by simp
  then have "hex_number v = unat w" unfolding v hex_word_def IDENTITY_HEX_LEN_def by (intro hex_number_places) simp
  then show "parse_fixed_hex v = Some w"
    using hex_word_lower[of w] \<open>unat w < 2 ^ 64\<close> by (simp add: parse_fixed_hex_def v)
qed

section \<open>Parsing what was encoded\<close>

lemma hex_no_dash: "is_lower_hex s n \<Longrightarrow> CHR ''-'' \<notin> set s"
  by (auto simp: is_lower_hex_def list_all_iff dest: lower_hex_not_special)

lemma parse_identity_nonce_iff:
  "parse_identity_nonce e = Some i \<longleftrightarrow>
     (\<exists>nonce. is_lower_hex nonce NONCE_HEX_LEN \<and> e = hex_word (mi_device i) @ ''-'' @ hex_word (mi_inode i) @ ''-'' @ nonce)"
proof
  assume parsed: "parse_identity_nonce e = Some i"
  then obtain a b nonce rest where pieces: "split_on CHR ''-'' e = a # b # nonce # rest"
    by (auto simp: parse_identity_nonce_def split: list.splits)
  with parsed have "a = hex_word (mi_device i)" "b = hex_word (mi_inode i)" "rest = []" "is_lower_hex nonce NONCE_HEX_LEN"
    by (auto simp: parse_identity_nonce_def bind_eq_Some_conv parse_fixed_hex_iff split: if_splits)
  moreover have "e = join_with ''-'' (a # b # nonce # rest)" by (simp flip: pieces)
  ultimately show "\<exists>nonce. is_lower_hex nonce NONCE_HEX_LEN
      \<and> e = hex_word (mi_device i) @ ''-'' @ hex_word (mi_inode i) @ ''-'' @ nonce"
    by auto
next
  assume "\<exists>nonce. is_lower_hex nonce NONCE_HEX_LEN \<and> e = hex_word (mi_device i) @ ''-'' @ hex_word (mi_inode i) @ ''-'' @ nonce"
  then obtain nonce where n: "is_lower_hex nonce NONCE_HEX_LEN"
    and e: "e = hex_word (mi_device i) @ ''-'' @ hex_word (mi_inode i) @ ''-'' @ nonce" by blast
  have "split_on CHR ''-'' e = [hex_word (mi_device i), hex_word (mi_inode i), nonce]"
    unfolding e using hex_no_dash[OF hex_word_lower] hex_no_dash[OF n] by (simp add: split_on_append)
  then show "parse_identity_nonce e = Some i"
    using n by (simp add: parse_identity_nonce_def parse_fixed_hex_iff[THEN iffD2])
qed

lemma kind_from_tag_iff: "kind_from_tag t = Some k \<longleftrightarrow> t = kind_tag k"
  by (cases k) (auto simp: kind_from_tag_def kind_tag_def)

lemma kind_tag_plain: "kind_tag k \<noteq> CHR ''-''" "byte (kind_tag k) < 0x80"
  by (cases k; simp add: kind_tag_def)+

lemma single_ascii_byte_iff: "single_ascii_byte v = Some c \<longleftrightarrow> v = [c]"
  by (auto simp: single_ascii_byte_def split: list.splits)

text \<open>Everything that is written is ASCII, so it is a text.\<close>

definition ascii :: "string \<Rightarrow> bool" where
  "ascii s \<longleftrightarrow> list_all (\<lambda>c. byte c < 0x80) s"

lemma ascii_append [simp]: "ascii (s @ t) \<longleftrightarrow> ascii s \<and> ascii t" "ascii (c # s) \<longleftrightarrow> byte c < 0x80 \<and> ascii s" "ascii []"
  by (simp_all add: ascii_def)

lemma ascii_hex: "is_lower_hex s n \<Longrightarrow> ascii s"
  by (auto simp: ascii_def is_lower_hex_def list_all_iff char_class_defs)

lemma to_str_ascii: "ascii s \<Longrightarrow> to_str s = Some s"
  by (simp add: to_str_def is_text_ascii ascii_def)

lemma to_str_iff: "to_str s = Some t \<longleftrightarrow> t = s \<and> is_text s"
  by (auto simp: to_str_def)

lemma identity_names:
  assumes "ascii prefix"
  shows "Option.bind (to_str name) (\<lambda>t. Option.bind (strip_prefix prefix t) parse_identity_nonce) = Some i
    \<longleftrightarrow> (\<exists>nonce. encode_identity_nonce prefix i nonce = Some name)"
proof -
  have "ascii (hex_word w)" for w by (rule ascii_hex[OF hex_word_lower])
  then show ?thesis
    using assms by (auto simp: bind_eq_Some_conv strip_prefix_Some_iff parse_identity_nonce_iff encode_identity_nonce_def to_str_iff
        to_str_def is_text_ascii ascii_hex split: if_splits simp flip: ascii_def)
qed

lemma removal_names: "parse_removal name = Some r \<longleftrightarrow> (\<exists>nonce. encode_removal r nonce = Some name)"
proof -
  let ?prefix = "REMOVED_PREFIX @ [kind_tag (rt_kind r)] @ ''-''"
  have ascii: "ascii ?prefix" by (simp add: name_defs kind_tag_plain)
  have "parse_removal name = Some r \<longleftrightarrow> (\<exists>rest. is_text name \<and> name = ?prefix @ rest \<and> parse_identity_nonce rest = Some (rt_identity r))"
    (is "?L \<longleftrightarrow> ?M")
  proof
    assume ?L
    then show ?M
      by (auto simp: parse_removal_def bind_eq_Some_conv to_str_iff strip_prefix_Some_iff split_once_Some_iff single_ascii_byte_iff
          kind_from_tag_iff)
  next
    assume ?M
    then obtain rest where name: "name = ?prefix @ rest" "is_text name" and rest: "parse_identity_nonce rest = Some (rt_identity r)"
      by blast
    have "strip_prefix REMOVED_PREFIX name = Some (kind_tag (rt_kind r) # CHR ''-'' # rest)" by (simp add: strip_prefix_Some_iff name(1))
    moreover have "split_once CHR ''-'' (kind_tag (rt_kind r) # CHR ''-'' # rest) = Some ([kind_tag (rt_kind r)], rest)"
      using kind_tag_plain(1)[of "rt_kind r"] by (simp add: split_once_Some_iff)
    ultimately show ?L
      using name(2) rest by (simp add: parse_removal_def to_str_def single_ascii_byte_def kind_from_tag_iff[THEN iffD2])
  qed
  also have "\<dots> \<longleftrightarrow> Option.bind (to_str name) (\<lambda>t. Option.bind (strip_prefix ?prefix t) parse_identity_nonce) = Some (rt_identity r)"
    by (auto simp: bind_eq_Some_conv to_str_iff strip_prefix_Some_iff)
  also have "\<dots> \<longleftrightarrow> (\<exists>nonce. encode_removal r nonce = Some name)"
    unfolding identity_names[OF ascii] encode_removal_def ..
  finally show ?thesis .
qed

lemma cleanup_names:
  "parse_cleanup_batch name = Some i \<longleftrightarrow> (\<exists>nonce. encode_cleanup_batch i nonce = Some name)"
  "parse_cleanup_leaf name = Some i \<longleftrightarrow> (\<exists>nonce. encode_cleanup_leaf i nonce = Some name)"
  unfolding parse_cleanup_batch_def parse_cleanup_leaf_def encode_cleanup_batch_def encode_cleanup_leaf_def
  by (rule identity_names; simp add: name_defs)+

lemma pending_names: "parse_cleanup_pending name = Some u \<longleftrightarrow> (\<exists>nonce. encode_cleanup_pending nonce = Some name)"
proof -
  have "ascii CLEANUP_PENDING_PREFIX" by (simp add: name_defs)
  then show ?thesis
    by (auto simp: parse_cleanup_pending_def encode_cleanup_pending_def bind_eq_Some_conv strip_prefix_Some_iff to_str_iff
        is_text_ascii ascii_hex split: if_splits simp flip: ascii_def)
qed

lemma retained_names: "parse_retained name = Some k \<longleftrightarrow> (\<exists>nonce. encode_retained k nonce = Some name)"
proof
  assume parsed: "parse_retained name = Some k"
  then obtain encoded where name: "name = RETAINED_PREFIX @ encoded"
    by (auto simp: parse_retained_def bind_eq_Some_conv strip_prefix_Some_iff to_str_iff)
  obtain a segments where first: "split_on CHR ''-'' encoded = a # segments" by (cases "split_on CHR ''-'' encoded") auto
  with parsed name have "segments \<noteq> []"
    by (auto simp: parse_retained_def bind_eq_Some_conv strip_prefix_Some_iff to_str_iff)
  then obtain nonce rest where pieces: "split_on CHR ''-'' encoded = a # nonce # rest" using first by (cases segments) auto
  with parsed name have "a = [kind_tag k]" "rest = []" "is_lower_hex nonce NONCE_HEX_LEN"
    by (auto simp: parse_retained_def bind_eq_Some_conv strip_prefix_Some_iff to_str_iff single_ascii_byte_iff kind_from_tag_iff
        split: if_splits)
  moreover have "encoded = join_with ''-'' (a # nonce # rest)" by (simp flip: pieces)
  ultimately have "encode_retained k nonce = Some name" by (simp add: encode_retained_def name)
  then show "\<exists>nonce. encode_retained k nonce = Some name" ..
next
  assume "\<exists>nonce. encode_retained k nonce = Some name"
  then obtain nonce where n: "is_lower_hex nonce NONCE_HEX_LEN" and name: "name = RETAINED_PREFIX @ [kind_tag k] @ ''-'' @ nonce"
    by (auto simp: encode_retained_def split: if_splits)
  have "to_str name = Some name"
    by (rule to_str_ascii) (use ascii_hex[OF n] in \<open>simp add: name name_defs kind_tag_plain\<close>)
  moreover have "split_on CHR ''-'' ([kind_tag k] @ ''-'' @ nonce) = [[kind_tag k], nonce]"
    using hex_no_dash[OF n] split_on_append[of "CHR ''-''" "[kind_tag k]" nonce] kind_tag_plain(1)[of k] by simp
  moreover have "strip_prefix RETAINED_PREFIX name = Some ([kind_tag k] @ ''-'' @ nonce)" by (simp only: strip_prefix_Some_iff name)
  ultimately show "parse_retained name = Some k"
    using n by (simp add: parse_retained_def single_ascii_byte_def kind_from_tag_iff)
qed

text \<open>The start of a name tells its family.\<close>

lemma family_prefixes:
  "parse_removal name = Some r \<Longrightarrow> take 18 name = ''.kitrove-removed-v''"
  "parse_retained name = Some k \<Longrightarrow> take 18 name = ''.kitrove-retained-''"
  "parse_cleanup_pending name = Some u \<Longrightarrow> take 18 name = ''.kitrove-cleanup-p''"
  "parse_cleanup_batch name = Some i \<Longrightarrow> take 18 name = ''.kitrove-cleanup-v''"
  "parse_cleanup_leaf name = Some i \<Longrightarrow> take 18 name = ''.kitrove-cleanup-l''"
  by (auto simp: parse_removal_def parse_retained_def parse_cleanup_pending_def parse_cleanup_batch_def parse_cleanup_leaf_def
      bind_eq_Some_conv strip_prefix_Some_iff to_str_iff name_defs)

lemma one_family:
  "parse_removal name \<noteq> None \<Longrightarrow> parse_cleanup_pending name = None \<and> parse_cleanup_batch name = None
     \<and> parse_cleanup_leaf name = None \<and> parse_retained name = None"
  "parse_cleanup_pending name \<noteq> None \<Longrightarrow> parse_cleanup_batch name = None \<and> parse_cleanup_leaf name = None \<and> parse_retained name = None"
  "parse_cleanup_batch name \<noteq> None \<Longrightarrow> parse_cleanup_leaf name = None \<and> parse_retained name = None"
  "parse_cleanup_leaf name \<noteq> None \<Longrightarrow> parse_retained name = None"
  by (rule ccontr, auto dest!: family_prefixes)+

section \<open>Properties\<close>

text \<open>C29: Quarantine names are exact.  In each family a name is recognised, as some kind and identity, precisely when it is what
  the encoder writes for that kind and identity under some nonce; nothing else in the quarantine is taken for
  such a name, and no name is recognised in two families, so an object is never removed under the rules of
  another family.\<close>

theorem quarantine_names_are_exact:
  "(parse_removal name = Some r \<longleftrightarrow> (\<exists>nonce. encode_removal r nonce = Some name))
   \<and> (parse_cleanup_pending name = Some u \<longleftrightarrow> (\<exists>nonce. encode_cleanup_pending nonce = Some name))
   \<and> (parse_cleanup_batch name = Some batch \<longleftrightarrow> (\<exists>nonce. encode_cleanup_batch batch nonce = Some name))
   \<and> (parse_cleanup_leaf name = Some leaf \<longleftrightarrow> (\<exists>nonce. encode_cleanup_leaf leaf nonce = Some name))
   \<and> (parse_retained name = Some kind \<longleftrightarrow> (\<exists>nonce. encode_retained kind nonce = Some name))
   \<and> length (filter id [parse_removal name \<noteq> None, parse_cleanup_pending name \<noteq> None, parse_cleanup_batch name \<noteq> None,
        parse_cleanup_leaf name \<noteq> None, parse_retained name \<noteq> None]) \<le> 1"
proof -
  have "length (filter id [parse_removal name \<noteq> None, parse_cleanup_pending name \<noteq> None, parse_cleanup_batch name \<noteq> None,
        parse_cleanup_leaf name \<noteq> None, parse_retained name \<noteq> None]) \<le> 1"
    using one_family[of name]
    by (cases "parse_removal name"; cases "parse_cleanup_pending name"; cases "parse_cleanup_batch name";
        cases "parse_cleanup_leaf name") simp_all
  then show ?thesis using removal_names pending_names cleanup_names retained_names by blast
qed

end
