(* ===== verification/Spec2Isabelle.thy ===== *)
theory Spec2Isabelle
  imports Manifest_Refresh Destinations Credential_Risk Windows_Names Local_State Lock_Authority
    Merge_Contents Snapshot_Laws Sync_Plan_Digests Sync_Journal_Laws
    Pack_Inspection_Laws Apply_Batch_Promises Apply_Batch_Recovery
    Cleanup_Walk_Promises Install_Phase_Laws Git_Remotes Base_Pointer_Laws
    Receipt_Inspection Executable_Trust Quarantine_Names
begin

text \<open>
  A verification development for Kitrove, the program that keeps the skills, extensions, instructions,
  agents, prompt commands and MCP servers of several coding harnesses in one portable environment.

  The program and its parts.  An environment is a manifest of assets, packs and profiles, with a lockfile
  derived from it.  Objects are stored under the hash of their content.  A device synchronizes by comparing three
  snapshots: its own, the one of the remote, and the base it retained from the last time.  The merge is
  pure; its result becomes a plan, the user confirms the plan's digest, and a journal drives the transaction
  through its phases.  Changes to harness directories are applied in batches under a second journal.  Both
  journals, and the pointer to the retained base, are control files that are replaced so that an
  interruption can be recovered from.  What a replacement leaves over is moved to a quarantine, and cleaned up
  under a budget.  Each part below is modelled from its own source file and uses the parts before it the way
  the source does: a caller here calls the definition that models the function it calls there.

  Paths are relative to \<open>src/crates\<close>.  Every theory opens with a text that says what it holds.

  Conventions.
  \<^item> A fallible function returns \<open>'e + 'a\<close>, \<open>Inl\<close> being the error.  Sequencing is \<open>bind_result\<close> of
    \<open>Kit_Prelude\<close>, so every \<open>?\<close> of the source is a bind and every early return a branch.  The errors of the
    source carry a stable code; a component's error is that code, or a datatype where the source matches on it.
  \<^item> A \<open>String\<close> is the list of its UTF-8 bytes, one \<open>char\<close> of HOL for each, so lengths are byte lengths and
    the order of strings is the byte order.  A newtype around a string is its text, with its \<open>parse\<close>.
  \<^item> A \<open>BTreeMap\<close> or \<open>BTreeSet\<close> is an association list or list in strictly ascending order (\<open>Ordered_Maps\<close>).
  \<^item> Sums that the source checks, and counts whose width matters, are 64-bit words; a count that is only compared
    with a constant is a natural number.  \<open>usize\<close> is 64 bits wide.
  \<^item> BLAKE3 is a parameter \<open>H\<close> on the bytes fed to the hasher.  Where a theorem needs it, the absence of a collision
    is a hypothesis about the two byte strings of that theorem, not about the hash in general.
  \<^item> The JSON, YAML and URL libraries, base64, SHA-256, the SSH key types and Unicode case folding are parameters.
    A codec law (a parser reads back what the printer wrote) is a hypothesis of the theorems that use it.
  \<^item> Records of other document kinds that only pass through a component are views: records of the fields
    that the component reads.

  The theories, by layer.

  Prelude.
  \<^item> \<open>Kit_Prelude\<close>: errors as values, loops over lists that may fail, the locale \<open>validated_text\<close>.
  \<^item> \<open>Ordered_Maps\<close>: the ordered containers, with the contracts \<open>key_map\<close> and \<open>key_set\<close> they meet.
  \<^item> \<open>Text_Bytes\<close>: characters, trimming, splitting and lines of \<open>str\<close>, decimal numbers, UTF-8 validity.
  \<^item> \<open>Framing\<close>: the length-prefixed hash framing and the locale \<open>prefix_code\<close>: an encoding that can be told from
    what follows it.  Codes compose, so the injectivity of every preimage is assembled from its fields.
  \<^item> \<open>Step_Machines\<close>: the contracts of journals: \<open>falling_steps\<close> (work only falls), \<open>live_steps\<close> (never stuck
    before a final state) and \<open>ranked_steps\<close>, a sublocale of \<open>live_steps\<close>.

  Data model (\<open>kitrove-model/src\<close>, \<open>kitrove-windows-names\<close>, \<open>kitrove-risk\<close>).
  \<^item> \<open>Portable_Content\<close> (\<open>content.rs\<close>, \<open>mcp.rs\<close>), \<open>Windows_Names\<close>, \<open>Credential_Risk\<close>.
  \<^item> \<open>Identity\<close> (\<open>identity.rs\<close>), with \<open>Destinations\<close>: canonical destinations are read as a root and components,
    and parsing accepts exactly the texts of well-formed pairs.
  \<^item> \<open>Fidelity\<close> (\<open>fidelity.rs\<close>), \<open>Assets\<close> (\<open>asset.rs\<close>), \<open>Manifests\<close> (\<open>portable.rs\<close>), \<open>Pack_Graph\<close> and
    \<open>Validation\<close> (\<open>validation.rs\<close>), \<open>Local_State\<close> (\<open>local.rs\<close>), \<open>Sync_Records\<close> (\<open>sync.rs\<close>,
    \<open>sync_base_pointer.rs\<close>).
  \<^item> \<open>Manifest_Refresh\<close>, \<open>Manifest_Validity\<close>, \<open>Sync_Laws\<close>: what validation guarantees, and that refreshing the
    derived fields of packs leaves a validated manifest alone.

  Skills (\<open>kitrove-agent-skills/src\<close>).
  \<^item> \<open>Yaml_Frontmatter\<close>, \<open>Yaml_Aliases\<close>, \<open>Skill_Documents\<close> (\<open>frontmatter.rs\<close>), \<open>Skill_Trees\<close> (\<open>tree.rs\<close>,
    \<open>stored_tree.rs\<close>, \<open>native_object.rs\<close>, \<open>source.rs\<close>), \<open>Skill_Risk\<close> (\<open>risk.rs\<close>).

  Merge and snapshots (\<open>kitrove-core/src\<close>).
  \<^item> \<open>Native_Extensions\<close>, \<open>Extension_Observations\<close>, \<open>Tier_One\<close> (\<open>adoption.rs\<close>), \<open>Lock_Authority\<close>
    (\<open>authority.rs\<close>).
  \<^item> \<open>Semantic_Merge\<close>, \<open>Merge_Derivation\<close>, \<open>Snapshot_Risk\<close> (\<open>merge.rs\<close>), with \<open>Merge_Laws\<close>,
    \<open>Merge_Completeness\<close>, \<open>Merge_Contents\<close>, \<open>Risk_Laws\<close>: what a ready merge contains, that the sides may be
    exchanged, that conflicts are bounded, and that the merge keeps the risk check of its inputs.
  \<^item> \<open>Snapshots\<close> (\<open>snapshot.rs\<close>), with \<open>Snapshot_Catalogs\<close>, \<open>Snapshot_Laws\<close>: reload, authenticity, identity.
  \<^item> \<open>Pack_Inspection\<close> (\<open>pack_inspection.rs\<close>, \<open>profile_resolution.rs\<close>), with \<open>Pack_Inspection_Laws\<close>.

  Synchronization (\<open>kitrove-core/src\<close>).
  \<^item> \<open>Sync_Backends\<close> (\<open>sync_backend.rs\<close>), \<open>Sync_Plans\<close> (\<open>sync_plan.rs\<close>), with \<open>Sync_Plan_Laws\<close> and
    \<open>Sync_Plan_Digests\<close>; \<open>Sync_Journals\<close> (\<open>sync_journal.rs\<close>), with \<open>Sync_Journal_Laws\<close>.
  \<^item> \<open>Known_Hosts\<close> (\<open>ssh_known_hosts.rs\<close>), \<open>Git_Remotes\<close> (\<open>git_remote.rs\<close>): which keys are accepted, and that an
    accepted remote keeps to its host and path.

  Durable files (\<open>kitrove-core/src\<close>).
  \<^item> \<open>Guarded_Files\<close> (\<open>object_mutation.rs\<close>): control texts, their guarded replacement with and without an atomic
    exchange, and crashes.  \<open>Guarded_Journals\<close> (\<open>guarded_journal.rs\<close>) and \<open>Guarded_Control\<close>
    (\<open>guarded_control.rs\<close>): inspecting and reconciling what an interruption leaves.
  \<^item> \<open>Guarded_Laws\<close>, \<open>Journal_Recovery\<close>: the locale \<open>guarded_protocol\<close>, for every journal whose transitions
    cannot be undone: inspection predicts recovery, and repeated crashes cost at most one transition.
  \<^item> \<open>Base_Pointers\<close> (\<open>sync_base_store.rs\<close>), with \<open>Base_Pointer_Laws\<close>: the locales \<open>pointer_files\<close> and
    \<open>base_pointer\<close>.

  Atomic application (\<open>kitrove-core/src\<close>).
  \<^item> \<open>Batch_Digests\<close> (\<open>apply_batch.rs\<close>), \<open>Apply_Batch_Journals\<close> and \<open>Apply_Batch_Cursors\<close>
    (\<open>apply_batch_journal.rs\<close>, \<open>read_only_fs.rs\<close>).
  \<^item> \<open>Batch_Digest_Laws\<close>, \<open>Apply_Batch_Laws\<close>, \<open>Apply_Batch_Identity\<close>, \<open>Apply_Batch_Forward\<close>,
    \<open>Apply_Batch_Runs\<close>, \<open>Apply_Batch_Samples\<close>, \<open>Apply_Batch_Recovery\<close>, \<open>Apply_Batch_Durability\<close>,
    \<open>Apply_Batch_Promises\<close>: identity of a batch, its protocol, its recovery, and the runs of its cursor over the
    store, with its liveness and its rollback.  Runs are those of \<open>persist_transition\<close>, which encodes and writes every
    journal, so the theorems on them ask for room below the size limit of the journal.

  Machine-local authority (\<open>kitrove-core/src\<close>).
  \<^item> \<open>Receipt_Inspection\<close> (\<open>receipt.rs\<close>): which receipts prove ownership, against a
    reference that compares them in pairs.
  \<^item> \<open>Executable_Trust\<close> (\<open>executable_trust.rs\<close>): a trust plan decides one object,
    and its digest stands for the decision.

  Clean-up and installation.
  \<^item> \<open>Quarantine_Names\<close> (\<open>kitrove-core/src/quarantine_name.rs\<close>): names are recognised
    exactly when they were written for the same kind and identity.
  \<^item> \<open>Cleanup_Budgets\<close> and \<open>Cleanup_Walks\<close> (\<open>kitrove-core/src/quarantine_cleanup\<close>,
    \<open>kitrove-agent-skills/src/directory_entries.rs\<close>), with \<open>Cleanup_Budget_Laws\<close>, \<open>Cleanup_Walk_Laws\<close>,
    \<open>Cleanup_Walk_Promises\<close>: the walk costs exactly the tree and stays within what was reserved.
  \<^item> \<open>Install_Phases\<close> (\<open>kitrove-installer/src/install_phase.rs\<close>), with \<open>Install_Phase_Laws\<close>.

  Contracts and who meets them.  \<open>validated_text\<close>: canonical destinations.  \<open>key_map\<close>, \<open>key_set\<close>: the ordered
  lists.  \<open>prefix_code\<close>: each hash record, from a count to an asset, a tree entry and a descriptor.
  \<open>three_way\<close>: the choice the merge makes for one field.  \<open>ranked_steps\<close>: the synchronization journal;
  \<open>falling_steps\<close> and \<open>live_steps\<close>: the apply journal.  \<open>guarded_protocol\<close>: the apply journal's three files.
  \<open>base_pointer\<close>: the pointer of the retained base.  Each interpretation stands in the theory of the definitions
  that meet the contract, or in the theory of their laws.

  Crashes.  A store is a map from paths to texts.  A run has a budget of durable effects: each rename, exchange,
  removal and staged write uses one, and the run stops where the budget ends.  A staged write that is stopped
  leaves any prefix of its text, chosen by the run.  Theorems about crashes quantify over every budget and every
  such prefix, and over any number of interrupted attempts in a row.  Renames and exchanges are atomic, as the
  platform documents; faults of the device other than stopping are not modelled.

  Termination and bounds.  No definition takes fuel.  Recursion that is not structural has a termination proof:
  the checks and the refresh of the pack graph by the depth that is left, inspection and profile chains by the identities
  not yet visited, the clean-up walk by the size of the trees that are pending, the scanners by the text left.  The limits of the source (counts, depths, byte sizes)
  are constants of the theories with the source's values, and the branch that enforces each is part of the model.
  Where a sum may exceed 64 bits the theorem is about the checked or saturating sum the code computes.

  What the theorems show about deviations.  An interruption while the pending file of the apply journal is being
  written leaves a torn file that recovery refuses (\<open>Apply_Batch_Recovery\<close>); the crash theorems of that journal
  state that exception, and prove recovery everywhere else.  A revocation with a wildcard host
  is not seen by the host check (\<open>Known_Hosts\<close>), whose theorem rules such entries out.  Preparation checks the size
  of the finished apply journal only, so a plan within a few bytes of the limit can be refused a transition, and
  the rollback, once it is installed (\<open>Apply_Batch_Promises\<close>).

  Not modelled.  The command line, prompts and reports; the harness adapters and the scanning of their
  directories; parsers and planners of document kinds other than skills; the object store and the executors of
  the transactions, which are file-system effects around the journals; the transports and remotes; the
  platform code for Windows and macOS; the installer beyond its phases; the release tooling and its
  archive, signature and certificate checks; serialization code that only passes fields through.
\<close>

end
